(* ===== verification/Prelude.thy ===== *)
theory Prelude
  imports Main "HOL-Library.Word" "HOL-Library.State_Monad"
begin

text \<open>
  Shared vocabulary of the development: the widths of the C integer types, the
  weakest-precondition calculus for state-passing code (a C function over a
  state is a value of the library type \<^typ>\<open>('s, 'a) state\<close>), and the list
  lemmas that the timer list and the byte buffers need.
\<close>

section \<open>C integer types\<close>

type_synonym u8 = "8 word"
type_synonym u32 = "32 word"
type_synonym u64 = "64 word"
type_synonym bytes = "8 word list"

text \<open>
  Every conversion between C integer types in the modelled code is one of:
  zero extension (\<open>ucast\<close> upwards), truncation (\<open>ucast\<close> downwards), sign
  extension (\<open>scast\<close>), or the value itself (\<open>unat\<close>, \<open>uint\<close>, \<open>sint\<close>).
\<close>

lemma unat_lt_u32 [simp]: "unat (x :: u32) < 4294967296"
  using unsigned_less [of x, where ?'a = nat] by simp

lemma unat_lt_u64 [simp]: "unat (x :: u64) < 18446744073709551616"
  using unsigned_less [of x, where ?'a = nat] by simp

lemma unat_ucast_32_64 [simp]: "unat (ucast (x :: u32) :: u64) = unat x"
  proof -
  have "unat x < 2 ^ 64" by (rule less_trans [OF unat_lt_u32]) simp
  then show ?thesis by (simp add: unsigned_ucast_eq take_bit_nat_eq_self)
qed

lemma unat_ucast_64_32: "unat (ucast (x :: u64) :: u32) = unat x mod 4294967296"
  by (simp add: unsigned_ucast_eq take_bit_eq_mod)

lemma unat_plus_u32: "unat (x + y :: u32) = (unat x + unat y) mod 4294967296"
  by (simp add: unat_word_ariths)

lemma unat_plus_u64: "unat (x + y :: u64) = (unat x + unat y) mod 18446744073709551616"
  by (simp add: unat_word_ariths)

lemma unat_mult_u64: "unat (x * y :: u64) = (unat x * unat y) mod 18446744073709551616"
  by (simp add: unat_word_ariths)

lemma div_million_u64: "unat (x :: u64) div 1000000 < 18446744073710"
  by (rule less_mult_imp_div_less) (rule less_trans [OF unat_lt_u64], simp)

lemma wrap_seconds:
  assumes "b < 1000000"
  shows "(a mod 4294967296) * 1000000 + b = (a * 1000000 + b) mod (4294967296000000 :: nat)"
proof -
  have "a * 1000000 + b = (a div 4294967296) * 4294967296000000
      + ((a mod 4294967296) * 1000000 + b)"
    using div_mult_mod_eq [of a 4294967296] by linarith
  moreover have "(a mod 4294967296) * 1000000 + b < 4294967296000000"
    using mod_less_divisor [of 4294967296 a] assms by linarith
  ultimately show ?thesis by (simp only: mod_mult_self3 mod_less)
qed

lemma unat_minus_le: "y \<le> x \<Longrightarrow> unat (x - y :: 'a::len word) = unat x - unat y"
  by (simp add: unat_sub)

lemma ucast_back: "(ucast (ucast (x :: u32) :: u64) :: u32) = x"
  by (simp add: word_unat_eq_iff unat_ucast_64_32)

lemmas unat_cast = unat_ucast_32_64 unat_ucast_64_32 unat_plus_u32 unat_plus_u64 unat_mult_u64
  unat_div unat_mod

section \<open>Weakest preconditions for state-passing code\<close>

text \<open>
  \<open>wp m Q s\<close>: running \<open>m\<close> from \<open>s\<close> ends in a result and a state that satisfy
  \<open>Q\<close>. The rules collected in \<open>wp_simps\<close> run straight-line code symbolically.
\<close>

named_theorems wp_simps \<open>symbolic execution of state-passing code\<close>

definition wp :: "('s, 'a) state \<Rightarrow> ('a \<Rightarrow> 's \<Rightarrow> bool) \<Rightarrow> 's \<Rightarrow> bool" where
  "wp m Q s = (case run_state m s of (a, s') \<Rightarrow> Q a s')"

lemma wp_return [wp_simps]: "wp (State_Monad.return a) Q s = Q a s"
  by (simp add: wp_def State_Monad.return_def)

lemma wp_return_fun: "wp (State_Monad.return a) Q = Q a"
  by (rule ext) (rule wp_return)

lemma wp_bind [wp_simps]: "wp (State_Monad.bind m f) Q s = wp m (\<lambda>a. wp (f a) Q) s"
  by (simp add: wp_def State_Monad.bind_def split: prod.splits)

lemma wp_State [wp_simps]: "wp (State f) Q s = (case f s of (a, s') \<Rightarrow> Q a s')"
  by (simp add: wp_def)

lemma wp_if [wp_simps]: "wp (if b then m else n) Q s = (if b then wp m Q s else wp n Q s)"
  by simp

lemma wp_option [wp_simps]:
  "wp (case x of None \<Rightarrow> m | Some a \<Rightarrow> f a) Q s =
   (case x of None \<Rightarrow> wp m Q s | Some a \<Rightarrow> wp (f a) Q s)"
  by (simp split: option.splits)

lemma wp_run: "wp m Q s \<Longrightarrow> run_state m s = (a, s') \<Longrightarrow> Q a s'"
  by (simp add: wp_def)

lemma wp_iff_run: "wp m Q s \<longleftrightarrow> Q (fst (run_state m s)) (snd (run_state m s))"
  by (simp add: wp_def split: prod.splits)

lemma wp_mono: "wp m P s \<Longrightarrow> (\<And>a s'. P a s' \<Longrightarrow> Q a s') \<Longrightarrow> wp m Q s"
  by (simp add: wp_def split: prod.splits)

lemma wp_bind_fun: "wp (State_Monad.bind m f) Q = wp m (\<lambda>a. wp (f a) Q)"
  by (rule ext) (rule wp_bind)

lemma wp_get [wp_simps]: "wp State_Monad.get Q s = Q s s"
  by (simp add: wp_def State_Monad.get_def)

text \<open>Reading and changing the program's own data, and doing something for every element.\<close>

definition gets :: "('s \<Rightarrow> 'a) \<Rightarrow> ('s, 'a) state" where
  "gets f = State (\<lambda>s. (f s, s))"

definition modify :: "('s \<Rightarrow> 's) \<Rightarrow> ('s, unit) state" where
  "modify f = State (\<lambda>s. ((), f s))"

primrec for_each :: "'a list \<Rightarrow> ('a \<Rightarrow> ('s, unit) state) \<Rightarrow> ('s, unit) state" where
  "for_each [] body = State_Monad.return ()"
| "for_each (x # xs) body = do { u \<leftarrow> body x; for_each xs body }"

lemma wp_gets [wp_simps]: "wp (gets f) Q s = Q (f s) s"
  by (simp add: wp_def gets_def)

lemma wp_modify [wp_simps]: "wp (modify f) Q s = Q () (f s)"
  by (simp add: wp_def modify_def)

lemma wp_modify_fun: "wp (modify f) Q = (\<lambda>s. Q () (f s))"
  by (rule ext) (rule wp_modify)

lemma wp_for_each_invariant:
  assumes "\<And>x s. x \<in> set xs \<Longrightarrow> I s \<Longrightarrow> wp (body x) (\<lambda>u. I) s" "I s"
  shows "wp (for_each xs body) (\<lambda>u. I) s"
  using assms
proof (induction xs arbitrary: s)
  case Nil
  then show ?case by (simp add: wp_simps)
next
  case (Cons x xs)
  have "wp (body x) (\<lambda>u. I) s" using Cons.prems by simp
  moreover have "wp (for_each xs body) (\<lambda>u. I) s'" if "I s'" for s'
    using Cons.prems(1) that by (intro Cons.IH) simp_all
  ultimately show ?case by (simp add: wp_bind) (erule wp_mono)
qed

text \<open>
  \<open>preserves J m\<close>: \<open>m\<close> keeps the invariant \<open>J\<close>. The rules in \<open>inv_rules\<close> follow the shape of
  the code; what is read from the state is known to come from a state that satisfies \<open>J\<close>.
\<close>

named_theorems inv_rules \<open>invariants of code, by its shape\<close>

definition preserves :: "('s \<Rightarrow> bool) \<Rightarrow> ('s, 'a) state \<Rightarrow> bool" where
  "preserves J m \<longleftrightarrow> (\<forall>s. J s \<longrightarrow> wp m (\<lambda>r. J) s)"

lemma preservesD: "preserves J m \<Longrightarrow> J s \<Longrightarrow> J (snd (run_state m s))"
  by (simp add: preserves_def wp_iff_run)

lemma preserves_return [inv_rules]: "preserves J (State_Monad.return a)"
  by (simp add: preserves_def wp_simps)

lemma preserves_bind:
  assumes "preserves J m" "\<And>a. preserves J (f a)"
  shows "preserves J (State_Monad.bind m f)"
  unfolding preserves_def
proof (intro allI impI)
  fix s
  assume "J s"
  then have "wp m (\<lambda>r. J) s" using assms(1) by (simp add: preserves_def)
  then have "wp m (\<lambda>a. wp (f a) (\<lambda>r. J)) s"
    by (rule wp_mono) (use assms(2) in \<open>simp add: preserves_def\<close>)
  then show "wp (State_Monad.bind m f) (\<lambda>r. J) s" by (simp add: wp_bind)
qed

lemma preserves_gets:
  assumes "\<And>s. J s \<Longrightarrow> preserves J (g (f s))"
  shows "preserves J (State_Monad.bind (gets f) g)"
  using assms by (simp add: preserves_def wp_simps)

lemma preserves_gets_return [inv_rules]: "preserves J (gets f)"
  by (simp add: preserves_def wp_simps)

lemma preserves_get:
  assumes "\<And>s. J s \<Longrightarrow> preserves J (g s)"
  shows "preserves J (State_Monad.bind State_Monad.get g)"
  using assms by (simp add: preserves_def wp_simps)

lemma preserves_if [inv_rules]:
  "(b \<Longrightarrow> preserves J m) \<Longrightarrow> (\<not> b \<Longrightarrow> preserves J n) \<Longrightarrow> preserves J (if b then m else n)"
  by simp

lemma preserves_let [inv_rules]: "(\<And>v. v = x \<Longrightarrow> preserves J (f v)) \<Longrightarrow> preserves J (Let x f)"
  by simp

lemma preserves_option [inv_rules]:
  "preserves J m \<Longrightarrow> (\<And>a. x = Some a \<Longrightarrow> preserves J (f a)) \<Longrightarrow>
    preserves J (case x of None \<Rightarrow> m | Some a \<Rightarrow> f a)"
  by (simp split: option.split)

lemma preserves_modify: "(\<And>s. J s \<Longrightarrow> J (f s)) \<Longrightarrow> preserves J (modify f)"
  by (simp add: preserves_def wp_simps)

lemma preserves_for_each [inv_rules]:
  assumes "\<And>x. x \<in> set xs \<Longrightarrow> preserves J (body x)"
  shows "preserves J (for_each xs body)"
  using assms wp_for_each_invariant [of xs J body] by (simp add: preserves_def)

text \<open>Concrete runs, for evaluating closed terms.\<close>

named_theorems run_simps \<open>evaluation of state-passing code\<close>

lemma run_return [run_simps]: "run_state (State_Monad.return a) s = (a, s)"
  by (simp add: State_Monad.return_def)

lemma run_bind [run_simps]:
  "run_state (State_Monad.bind m f) s = (case run_state m s of (a, s') \<Rightarrow> run_state (f a) s')"
  by (simp add: State_Monad.bind_def split: prod.splits)

lemma run_gets [run_simps]: "run_state (gets f) s = (f s, s)"
  by (simp add: gets_def)

lemma run_get [run_simps]: "run_state State_Monad.get s = (s, s)"
  by (simp add: State_Monad.get_def)

lemma run_modify [run_simps]: "run_state (modify f) s = ((), f s)"
  by (simp add: modify_def)

lemma run_if [run_simps]:
  "run_state (if b then m else n) s = (if b then run_state m s else run_state n s)"
  by simp

section \<open>Lists\<close>

lemma sorted_wrt_takeWhile_dropWhile_le:
  assumes "sorted_wrt (\<lambda>a b. f a \<le> f b) xs"
  shows "(\<forall>a \<in> set (takeWhile (\<lambda>a. f a \<le> (k :: 'k :: linorder)) xs). f a \<le> k) \<and>
    (\<forall>a \<in> set (dropWhile (\<lambda>a. f a \<le> k) xs). k < f a)"
  using assms
proof (induction xs)
  case Nil
  then show ?case by simp
next
  case (Cons x xs)
  then show ?case by (auto intro: less_le_trans simp: not_le)
qed

lemma distinct_takeWhile_dropWhile:
  "distinct (takeWhile P xs @ dropWhile P xs) = distinct xs"
  by simp

end
