(* ===== verification/Iperf_Time.thy ===== *)
theory Iperf_Time
  imports Prelude
begin

text \<open>
  The clock arithmetic of \<open>iperf/src/iperf_time.c\<close>: time stamps of two 32-bit
  counters, their comparison, difference, and the addition of a 64-bit number of
  microseconds, with every conversion of the C code at its width.
\<close>

section \<open>Time stamps\<close>

text \<open>\<open>struct iperf_time\<close>: two \<open>uint32_t\<close> fields.\<close>

datatype iperf_time = Time (secs: u32) (usecs: u32)

text \<open>
  \<open>iperf_time_add_usecs\<close>. \<open>usecs / 1000000L\<close> and \<open>usecs % 1000000L\<close> are
  64-bit unsigned; the compound assignments add in 64 bits and truncate to 32.
\<close>

definition iperf_time_add_usecs :: "iperf_time \<Rightarrow> u64 \<Rightarrow> iperf_time" where
  "iperf_time_add_usecs time1 us =
     (let s = ucast (ucast (secs time1) + us div 1000000) :: u32;
          u = ucast (ucast (usecs time1) + us mod 1000000) :: u32
      in if u \<ge> 1000000
         then Time (ucast (ucast s + (ucast u :: u64) div 1000000))
                   (ucast ((ucast u :: u64) mod 1000000))
         else Time s u)"

text \<open>\<open>iperf_time_in_usecs\<close>: \<open>long long\<close> arithmetic, returned as \<open>uint64_t\<close>.\<close>

definition iperf_time_in_usecs :: "iperf_time \<Rightarrow> u64" where
  "iperf_time_in_usecs t = ucast (secs t) * 1000000 + ucast (usecs t)"

text \<open>\<open>iperf_time_compare\<close>: -1, 0 or 1.\<close>

definition iperf_time_compare :: "iperf_time \<Rightarrow> iperf_time \<Rightarrow> int" where
  "iperf_time_compare time1 time2 =
     (if secs time1 < secs time2 then -1
      else if secs time1 > secs time2 then 1
      else if usecs time1 < usecs time2 then -1
      else if usecs time1 > usecs time2 then 1
      else 0)"

text \<open>\<open>iperf_time_diff\<close>: the pair of its return value \<open>past\<close> and \<open>*diff\<close>.\<close>

definition iperf_time_diff :: "iperf_time \<Rightarrow> iperf_time \<Rightarrow> int \<times> iperf_time" where
  "iperf_time_diff time1 time2 =
     (let cmp = iperf_time_compare time1 time2 in
      if cmp = 0 then (1, Time 0 0)
      else if cmp = 1 then
        (let s = secs time1 - secs time2; u = usecs time1 in
         if u < usecs time2 then (0, Time (s - 1) (u + 1000000 - usecs time2))
         else (0, Time s (u - usecs time2)))
      else
        (let s = secs time2 - secs time1; u = usecs time2 in
         if u < usecs time1 then (1, Time (s - 1) (u + 1000000 - usecs time1))
         else (1, Time s (u - usecs time1))))"

section \<open>Time stamps as microseconds\<close>

text \<open>A time stamp as the clock writes it has less than a million microseconds.\<close>

definition normal_time :: "iperf_time \<Rightarrow> bool" where
  "normal_time t \<longleftrightarrow> usecs t < 1000000"

definition micros :: "iperf_time \<Rightarrow> nat" where
  "micros t = unat (secs t) * 1000000 + unat (usecs t)"

text \<open>The order that \<open>iperf_time_compare\<close> decides is a linear order.\<close>

instantiation iperf_time :: linorder
begin

definition less_eq_iperf_time :: "iperf_time \<Rightarrow> iperf_time \<Rightarrow> bool" where
  "less_eq_iperf_time a b \<longleftrightarrow> iperf_time_compare a b \<le> 0"

definition less_iperf_time :: "iperf_time \<Rightarrow> iperf_time \<Rightarrow> bool" where
  "less_iperf_time a b \<longleftrightarrow> iperf_time_compare a b < 0"

instance
proof
  fix a b c :: iperf_time
  show "(a < b) = (a \<le> b \<and> \<not> b \<le> a)"
    by (auto simp: less_eq_iperf_time_def less_iperf_time_def iperf_time_compare_def)
  show "a \<le> a"
    by (simp add: less_eq_iperf_time_def iperf_time_compare_def)
  show "a \<le> b \<Longrightarrow> b \<le> c \<Longrightarrow> a \<le> c"
    by (auto simp: less_eq_iperf_time_def iperf_time_compare_def split: if_splits)
  show "a \<le> b \<Longrightarrow> b \<le> a \<Longrightarrow> a = b"
    by (cases a; cases b) (auto simp: less_eq_iperf_time_def iperf_time_compare_def split: if_splits)
  show "a \<le> b \<or> b \<le> a"
    by (auto simp: less_eq_iperf_time_def iperf_time_compare_def split: if_splits)
qed

end

lemma compare_lt_iff: "iperf_time_compare a b < 0 \<longleftrightarrow> a < b"
  by (simp add: less_iperf_time_def)

lemma compare_gt_iff: "iperf_time_compare a b > 0 \<longleftrightarrow> b < a"
  by (auto simp: less_iperf_time_def iperf_time_compare_def split: if_splits)

lemma compare_eq_iff: "iperf_time_compare a b = 0 \<longleftrightarrow> a = b"
  by (cases a; cases b) (auto simp: iperf_time_compare_def split: if_splits)

lemma compare_one_iff: "iperf_time_compare a b = 1 \<longleftrightarrow> b < a"
  by (auto simp: less_iperf_time_def iperf_time_compare_def split: if_splits)

lemmas compare_iffs = compare_lt_iff compare_gt_iff compare_eq_iff compare_one_iff

lemma time_less_iff:
  "a < b \<longleftrightarrow> unat (secs a) < unat (secs b) \<or>
    (secs a = secs b \<and> unat (usecs a) < unat (usecs b))"
  by (auto simp: less_iperf_time_def iperf_time_compare_def word_less_nat_alt word_unat_eq_iff)

lemma normal_time_unat: "normal_time t \<longleftrightarrow> unat (usecs t) < 1000000"
  by (simp add: normal_time_def word_less_nat_alt)

lemma micros_less_iff:
  assumes "normal_time a" "normal_time b"
  shows "micros a < micros b \<longleftrightarrow> a < b"
proof -
  have "unat (secs a) = unat (secs b) \<longleftrightarrow> secs a = secs b" by (simp add: word_unat_eq_iff)
  then show ?thesis
    using assms unfolding micros_def time_less_iff normal_time_unat by auto
qed

lemma micros_bound: "normal_time t \<Longrightarrow> micros t < 4294967296000000"
  using unat_lt_u32 [of "secs t"] unfolding micros_def normal_time_unat by linarith

lemma unat_in_usecs: "unat (iperf_time_in_usecs t) = micros t"
proof -
  have "unat (secs t) * 1000000 + unat (usecs t) < 18446744073709551616"
    using unat_lt_u32 [of "secs t"] unat_lt_u32 [of "usecs t"] by linarith
  then show ?thesis
    by (simp add: iperf_time_in_usecs_def micros_def unat_cast)
qed

text \<open>Adding microseconds: exact modulo the wrap of the 32-bit seconds, and normalised.\<close>

lemma add_usecs_fields:
  fixes us :: u64
  assumes "normal_time t"
  shows "unat (ucast (ucast (secs t) + us div 1000000) :: u32)
      = (unat (secs t) + unat us div 1000000) mod 4294967296"
    and "unat (ucast (ucast (usecs t) + us mod 1000000) :: u32)
      = unat (usecs t) + unat us mod 1000000"
proof -
  have "unat (secs t) + unat us div 1000000 < 18446744073709551616"
    using div_million_u64 [of us] unat_lt_u32 [of "secs t"] by linarith
  then show "unat (ucast (ucast (secs t) + us div 1000000) :: u32)
      = (unat (secs t) + unat us div 1000000) mod 4294967296"
    by (simp add: unat_cast)
  have "unat (usecs t) + unat us mod 1000000 < 4294967296"
    using assms mod_less_divisor [of 1000000 "unat us"] by (simp add: normal_time_unat)
  then show "unat (ucast (ucast (usecs t) + us mod 1000000) :: u32)
      = unat (usecs t) + unat us mod 1000000"
    by (simp add: unat_cast)
qed

lemma add_usecs_exact:
  assumes "normal_time t"
  shows "normal_time (iperf_time_add_usecs t us)
    \<and> micros (iperf_time_add_usecs t us) = (micros t + unat us) mod 4294967296000000"
proof -
  define S where "S = unat (secs t) + unat us div 1000000"
  define U where "U = unat (usecs t) + unat us mod 1000000"
  define sw where "sw = (ucast (ucast (secs t) + us div 1000000) :: u32)"
  define uw where "uw = (ucast (ucast (usecs t) + us mod 1000000) :: u32)"
  have s: "unat sw = S mod 4294967296" and u: "unat uw = U"
    using add_usecs_fields [OF assms] by (simp_all only: S_def U_def sw_def uw_def)
  have eq: "iperf_time_add_usecs t us =
      (if uw \<ge> 1000000 then Time (ucast (ucast sw + (ucast uw :: u64) div 1000000))
         (ucast ((ucast uw :: u64) mod 1000000)) else Time sw uw)"
    by (simp add: iperf_time_add_usecs_def Let_def sw_def uw_def)
  have U: "U < 2000000"
    using assms mod_less_divisor [of 1000000 "unat us"] by (simp add: U_def normal_time_unat)
  have total: "micros t + unat us = S * 1000000 + U"
    using div_mult_mod_eq [of "unat us" 1000000] by (simp add: micros_def S_def U_def)
  show ?thesis
  proof (cases "uw \<ge> 1000000")
    case True
    then have c: "U \<ge> 1000000" "U div 1000000 = 1" "U mod 1000000 = U - 1000000"
      using U by (auto simp: word_le_nat_alt u mod_if)
    define t' where "t' = iperf_time_add_usecs t us"
    have t': "unat (usecs t') = U - 1000000" "unat (secs t') = (S + 1) mod 4294967296"
      using True c by (simp_all add: t'_def eq unat_cast u s mod_Suc_eq)
    have "micros t' = ((S + 1) * 1000000 + (U - 1000000)) mod 4294967296000000"
      using U by (simp only: micros_def t') (rule wrap_seconds, linarith)
    also have "(S + 1) * 1000000 + (U - 1000000) = micros t + unat us"
      using c total by simp
    finally show ?thesis
      using U t' by (simp add: t'_def normal_time_unat)
  next
    case False
    then have "U < 1000000" by (simp add: word_le_nat_alt u)
    with False show ?thesis
      using wrap_seconds [of U S] total
      by (simp add: eq micros_def u s normal_time_unat)
  qed
qed

text \<open>The difference of two normalised time stamps is their distance in microseconds.\<close>

definition time_span :: "iperf_time \<Rightarrow> iperf_time \<Rightarrow> iperf_time" where
  "time_span a b =
     (let s = secs a - secs b; u = usecs a in
      if u < usecs b then Time (s - 1) (u + 1000000 - usecs b) else Time s (u - usecs b))"

lemma later_diff_micros:
  assumes "b < a" "normal_time a" "normal_time b"
  shows "micros (time_span a b)
         = micros a - micros b"
    and "normal_time (time_span a b)"
proof -
  have ua: "unat (usecs a) < 1000000" and ub: "unat (usecs b) < 1000000"
    using assms(2,3) by (simp_all add: normal_time_unat)
  have le: "secs b \<le> secs a"
    using assms(1) by (auto simp: time_less_iff word_le_nat_alt)
  then have sd: "unat (secs a - secs b) = unat (secs a) - unat (secs b)"
    by (rule unat_minus_le)
  have borrow: "unat (secs a - secs b - 1) = unat (secs a) - unat (secs b) - 1
      \<and> unat (secs b) < unat (secs a)" if "usecs a < usecs b"
  proof -
    have lt: "unat (secs b) < unat (secs a)"
      using assms(1) that by (auto simp: time_less_iff word_less_nat_alt)
    then have "1 \<le> secs a - secs b" by (simp add: word_le_nat_alt sd)
    then show ?thesis using lt by (simp add: unat_minus_le sd)
  qed
  have ud: "unat (usecs a + 1000000 - usecs b) = unat (usecs a) + 1000000 - unat (usecs b)"
  proof -
    have "unat (usecs a + 1000000) = unat (usecs a) + 1000000"
      using ua by (simp add: unat_cast)
    then show ?thesis using ub by (simp add: unat_minus_le word_le_nat_alt)
  qed
  have uc: "unat (usecs a - usecs b) = unat (usecs a) - unat (usecs b)" if "\<not> usecs a < usecs b"
    using that by (simp add: unat_minus_le not_less)
  show "micros (time_span a b)
         = micros a - micros b"
    using ua ub borrow ud uc sd le
    by (auto simp: micros_def time_span_def Let_def word_less_nat_alt word_le_nat_alt algebra_simps)
  show "normal_time (time_span a b)"
    using ua ub ud uc by (auto simp: normal_time_unat time_span_def Let_def word_less_nat_alt)
qed

lemma time_diff_cases:
  "iperf_time_diff a b =
     (if a = b then (1, Time 0 0)
      else if b < a then (0, time_span a b)
      else (1, time_span b a))"
  by (simp add: iperf_time_diff_def time_span_def Let_def compare_iffs)

lemma time_diff_exact:
  assumes "normal_time a" "normal_time b"
  shows "fst (iperf_time_diff a b) = (if a \<le> b then 1 else 0)
    \<and> normal_time (snd (iperf_time_diff a b))
    \<and> int (micros (snd (iperf_time_diff a b))) = \<bar>int (micros a) - int (micros b)\<bar>"
proof -
  consider "a = b" | "b < a" | "a < b" by (rule linorder_cases) blast+
  then show ?thesis
  proof cases
    case 1
    then show ?thesis by (simp add: time_diff_cases normal_time_def micros_def)
  next
    case 2
    then have "micros b < micros a" using assms by (simp add: micros_less_iff)
    with 2 later_diff_micros [OF 2 assms] show ?thesis
      by (simp add: time_diff_cases not_le)
  next
    case 3
    then have "micros a < micros b" using assms by (simp add: micros_less_iff)
    with 3 later_diff_micros [OF 3 assms(2,1)] show ?thesis
      by (auto simp: time_diff_cases)
  qed
qed

end
