(* ===== verification/Sys.thy ===== *)
theory Sys
  imports Iperf_Time Complex_Main
begin

unbundle bit_operations_syntax

text \<open>
  The operating system as the program sees it. Every system call is answered by an
  oracle: the \<open>n\<close>-th call gets the \<open>n\<close>-th response, whatever it is, and is appended
  to a trace together with what it returned. A theorem about code over this state
  therefore holds for every behaviour of the kernel and the peer. The wrappers for
  \<open>read\<close> and \<open>write\<close> keep to POSIX: no more bytes than asked for.
\<close>

section \<open>Calls, responses, the state of the process\<close>

datatype sockopt = SO_BINDTODEVICE | SO_REUSEADDR | SO_ERROR | SO_RCVBUF | SO_SNDBUF
  | SO_MAX_PACING_RATE | SO_RCVTIMEO | IPV6_V6ONLY | TCP_NODELAY | TCP_MAXSEG | TCP_CONGESTION
  | IP_TOS | IPV6_TCLASS | IP_MTU_DISCOVER | IPV6_FLOWLABEL_MGR | IPV6_FLOWINFO_SEND
  | SCTP_NODELAY | SCTP_MAXSEG | SCTP_INITMSG | SCTP_DISABLE_FRAGMENTS

datatype sysc =
    Getaddrinfo "string option" int int bool
  | Socket int int int
  | Close int
  | Setsockopt int sockopt int
  | Getsockopt int sockopt
  | Bind int int
  | Connect int int
  | Listen int
  | Accept int
  | Read int bytes
  | Write int bytes
  | Sendfile int int nat nat
  | Recvfrom int
  | Getfl int
  | Setfl int int
  | Poll int int
  | Getsockname int
  | Getpeername int
  | Select int "(nat \<times> nat) option"
  | Gettime
  | Mkstemp
  | Unlink
  | Ftruncate int int
  | Mmap int int
  | Open string bool
  | Fsync int
  | Entropy nat
  | Tcpinfo int
  | Setaffinity int
  | Setcongestion int string
  | Getcongestion int
  | Clock_Time
  | Cpu_Util
  | Fstat int
  | Sctp_Bindx int "(int \<times> bytes) list"

text \<open>The fields of Linux's \<open>struct tcp_info\<close> that the program reads.\<close>

record tcp_info =
  tcpi_total_retrans :: u32
  tcpi_snd_cwnd :: u32
  tcpi_snd_mss :: u32
  tcpi_snd_wnd :: u32
  tcpi_rtt :: u32
  tcpi_rttvar :: u32
  tcpi_pmtu :: u32

text \<open>
  A response: the return value, \<open>errno\<close> where the call failed, the value written through
  an out-parameter, the bytes read, the addresses of \<open>getaddrinfo\<close> (family and contents), the
  time, the socket statistics, the descriptors \<open>select\<close> reports as readable and writable, a name,
  the processor load.
\<close>

record resp =
  rv :: int
  re :: int
  rval :: int
  rbytes :: bytes
  raddrs :: "(int \<times> bytes) list"
  rtime :: iperf_time
  rinfo :: tcp_info
  rready :: "int set"
  rwritable :: "int set"
  rname :: string
  rcpu :: "rat list"

record os =
  orc :: "nat \<Rightarrow> resp"
  tick :: nat
  trace :: "(sysc \<times> int) list"
  errno :: int
  i_errno :: int
  gerror :: int

definition EINTR :: int where "EINTR = 4"
definition EBADF :: int where "EBADF = 9"
definition EAGAIN :: int where "EAGAIN = 11"
definition ENOMEM :: int where "ENOMEM = 12"
definition ENOENT :: int where "ENOENT = 2"
definition EAFNOSUPPORT :: int where "EAFNOSUPPORT = 97"
definition ENOBUFS :: int where "ENOBUFS = 105"
definition ETIMEDOUT :: int where "ETIMEDOUT = 110"
definition EINPROGRESS :: int where "EINPROGRESS = 115"
definition O_NONBLOCK :: int where "O_NONBLOCK = 2048"
definition AF_UNSPEC :: int where "AF_UNSPEC = 0"
definition AF_INET :: int where "AF_INET = 2"
definition AF_INET6 :: int where "AF_INET6 = 10"

lemmas os_consts = EINTR_def EBADF_def EAGAIN_def ENOMEM_def ENOENT_def EAFNOSUPPORT_def ENOBUFS_def
  ETIMEDOUT_def EINPROGRESS_def O_NONBLOCK_def AF_UNSPEC_def AF_INET_def AF_INET6_def

section \<open>Making a call\<close>

definition answer :: "'a os_scheme \<Rightarrow> resp" where
  "answer w = orc w (tick w)"

text \<open>The state after call \<open>c\<close> returned \<open>r\<close>, leaving \<open>errno\<close> alone unless it failed.\<close>

definition after :: "sysc \<Rightarrow> int \<Rightarrow> 'a os_scheme \<Rightarrow> 'a os_scheme" where
  "after c r w = w\<lparr>tick := Suc (tick w), trace := (c, r) # trace w,
     errno := (if r < 0 then re (answer w) else errno w)\<rparr>"

definition call :: "sysc \<Rightarrow> ('a os_scheme, resp) state" where
  "call c = State (\<lambda>w. (answer w, after c (rv (answer w)) w))"

definition get_errno :: "('a os_scheme, int) state" where
  "get_errno = State (\<lambda>w. (errno w, w))"

definition set_errno :: "int \<Rightarrow> ('a os_scheme, unit) state" where
  "set_errno e = State (\<lambda>w. ((), w\<lparr>errno := e\<rparr>))"

definition set_i_errno :: "int \<Rightarrow> ('a os_scheme, unit) state" where
  "set_i_errno e = State (\<lambda>w. ((), w\<lparr>i_errno := e\<rparr>))"

definition set_gerror :: "int \<Rightarrow> ('a os_scheme, unit) state" where
  "set_gerror e = State (\<lambda>w. ((), w\<lparr>gerror := e\<rparr>))"

text \<open>\<open>read\<close> delivers at most \<open>n\<close> bytes, \<open>write\<close> accepts at most what it is given.\<close>

definition sys_read :: "int \<Rightarrow> nat \<Rightarrow> 'a os_scheme \<Rightarrow> int \<times> bytes \<times> 'a os_scheme" where
  "sys_read fd n w =
     (let a = answer w in
      if rv a < 0 then (-1, [], after (Read fd []) (-1) w)
      else (let bs = take n (rbytes a) in
            (int (length bs), bs, after (Read fd bs) (int (length bs)) w)))"

definition sys_write :: "int \<Rightarrow> bytes \<Rightarrow> 'a os_scheme \<Rightarrow> int \<times> 'a os_scheme" where
  "sys_write fd bs w =
     (let a = answer w in
      if rv a < 0 then (-1, after (Write fd []) (-1) w)
      else (let k = min (nat (rv a)) (length bs) in
            (int k, after (Write fd (take k bs)) (int k) w)))"

definition sys_sendfile :: "int \<Rightarrow> int \<Rightarrow> nat \<Rightarrow> nat \<Rightarrow> 'a os_scheme \<Rightarrow> int \<times> 'a os_scheme" where
  "sys_sendfile tofd fromfd off n w =
     (let a = answer w in
      if rv a < 0 then (-1, after (Sendfile tofd fromfd off 0) (-1) w)
      else (let k = min (nat (rv a)) n in
            (int k, after (Sendfile tofd fromfd off k) (int k) w)))"

section \<open>Reading the trace\<close>

text \<open>How often descriptor \<open>fd\<close> was handed out and not yet closed.\<close>

fun fd_delta :: "sysc \<times> int \<Rightarrow> int \<Rightarrow> int" where
  "fd_delta (Socket a b c, r) fd = (if r \<ge> 0 \<and> r = fd then 1 else 0)"
| "fd_delta (Accept a, r) fd = (if r \<ge> 0 \<and> r = fd then 1 else 0)"
| "fd_delta (Mkstemp, r) fd = (if r \<ge> 0 \<and> r = fd then 1 else 0)"
| "fd_delta (Open p b, r) fd = (if r \<ge> 0 \<and> r = fd then 1 else 0)"
| "fd_delta (Close s, r) fd = (if s = fd then - 1 else 0)"
| "fd_delta _ fd = 0"

definition held :: "'a os_scheme \<Rightarrow> int \<Rightarrow> int" where
  "held w fd = (\<Sum>e \<leftarrow> trace w. fd_delta e fd)"

text \<open>The bytes written to \<open>fd\<close>, in order.\<close>

fun wire_of :: "int \<Rightarrow> sysc \<times> int \<Rightarrow> bytes" where
  "wire_of fd (Write f bs, r) = (if f = fd then bs else [])"
| "wire_of fd _ = []"

definition wire :: "'a os_scheme \<Rightarrow> int \<Rightarrow> bytes" where
  "wire w fd = concat (map (wire_of fd) (rev (trace w)))"

text \<open>The bytes taken off \<open>fd\<close>, in order.\<close>

fun got_of :: "int \<Rightarrow> sysc \<times> int \<Rightarrow> bytes" where
  "got_of fd (Read f bs, r) = (if f = fd then bs else [])"
| "got_of fd _ = []"

definition got :: "'a os_scheme \<Rightarrow> int \<Rightarrow> bytes" where
  "got w fd = concat (map (got_of fd) (rev (trace w)))"

text \<open>The part of the file already handed to \<open>fd\<close> by \<open>sendfile\<close>: offset and length of each call.\<close>

fun sent_of :: "int \<Rightarrow> sysc \<times> int \<Rightarrow> (nat \<times> nat) list" where
  "sent_of fd (Sendfile t f off n, r) = (if t = fd then [(off, n)] else [])"
| "sent_of fd _ = []"

definition sentfile :: "'a os_scheme \<Rightarrow> int \<Rightarrow> (nat \<times> nat) list" where
  "sentfile w fd = concat (map (sent_of fd) (rev (trace w)))"

lemma held_after: "held (after c r w) fd = fd_delta (c, r) fd + held w fd"
  by (simp add: held_def after_def)

lemma held_upd [simp]:
  "held (w\<lparr>errno := e\<rparr>) = held w" "held (w\<lparr>i_errno := e\<rparr>) = held w" "held (w\<lparr>gerror := e\<rparr>) = held w"
  by (simp_all add: held_def fun_eq_iff)

lemma wire_after: "wire (after c r w) fd = wire w fd @ wire_of fd (c, r)"
  by (simp add: wire_def after_def)

lemma got_after: "got (after c r w) fd = got w fd @ got_of fd (c, r)"
  by (simp add: got_def after_def)

lemma sentfile_after: "sentfile (after c r w) fd = sentfile w fd @ sent_of fd (c, r)"
  by (simp add: sentfile_def after_def)

lemmas trace_after = held_after wire_after got_after sentfile_after

lemma wp_call [wp_simps]: "wp (call c) Q w = Q (answer w) (after c (rv (answer w)) w)"
  by (simp add: call_def wp_def)

lemma wp_get_errno [wp_simps]: "wp get_errno Q w = Q (errno w) w"
  by (simp add: get_errno_def wp_def)

lemma wp_set_errno [wp_simps]: "wp (set_errno e) Q w = Q () (w\<lparr>errno := e\<rparr>)"
  by (simp add: set_errno_def wp_def)

lemma wp_set_i_errno [wp_simps]: "wp (set_i_errno e) Q w = Q () (w\<lparr>i_errno := e\<rparr>)"
  by (simp add: set_i_errno_def wp_def)

lemma wp_set_gerror [wp_simps]: "wp (set_gerror e) Q w = Q () (w\<lparr>gerror := e\<rparr>)"
  by (simp add: set_gerror_def wp_def)

lemma run_call [run_simps]: "run_state (call c) w = (answer w, after c (rv (answer w)) w)"
  by (simp add: call_def)

lemma run_errno [run_simps]: "run_state get_errno w = (errno w, w)"
  "run_state (set_errno e) w = ((), w\<lparr>errno := e\<rparr>)"
  "run_state (set_i_errno e) w = ((), w\<lparr>i_errno := e\<rparr>)"
  "run_state (set_gerror e) w = ((), w\<lparr>gerror := e\<rparr>)"
  by (simp_all add: get_errno_def set_errno_def set_i_errno_def set_gerror_def)

section \<open>Reasoning about descriptors\<close>

text \<open>
  \<open>fds h m Q\<close>: started where the descriptor balance is \<open>h\<close>, \<open>m\<close> ends with a result and a
  balance that satisfy \<open>Q\<close>, whatever the responses are. \<open>keeps_fds m\<close>: \<open>m\<close> does not change
  the balance. The rules in \<open>fd_rules\<close> follow the shape of the code.
\<close>

named_theorems fd_rules \<open>descriptor balance of code, by its shape\<close>

definition fds :: "(int \<Rightarrow> int) \<Rightarrow> ('a os_scheme, 'b) state \<Rightarrow> ('b \<Rightarrow> (int \<Rightarrow> int) \<Rightarrow> bool) \<Rightarrow> bool" where
  "fds h m Q \<longleftrightarrow> (\<forall>w. held w = h \<longrightarrow> wp m (\<lambda>r w'. Q r (held w')) w)"

definition keeps_fds :: "('a os_scheme, 'b) state \<Rightarrow> bool" where
  "keeps_fds m \<longleftrightarrow> (\<forall>w. wp m (\<lambda>r w'. held w' = held w) w)"

lemma fds_run: "fds (held w) m Q \<Longrightarrow> run_state m w = (r, w') \<Longrightarrow> Q r (held w')"
  by (auto simp: fds_def dest: wp_run)

lemma keeps_return [fd_rules]: "keeps_fds (State_Monad.return a)"
  by (simp add: keeps_fds_def wp_simps)

lemma keeps_bind [fd_rules]:
  fixes m :: "('a os_scheme, 'b) state"
  assumes "keeps_fds m" "\<And>a. keeps_fds (f a)"
  shows "keeps_fds (State_Monad.bind m f)"
  unfolding keeps_fds_def
proof
  fix w :: "'a os_scheme"
  have "wp (f a) (\<lambda>r w'. held w' = held v) v" for a v
    using assms(2) [of a] by (simp add: keeps_fds_def)
  then have "wp (f a) (\<lambda>r w'. held w' = held w) v" if "held v = held w" for a v
    using that by metis
  then show "wp (State_Monad.bind m f) (\<lambda>r w'. held w' = held w) w"
    using assms(1) unfolding wp_bind keeps_fds_def by (blast intro: wp_mono)
qed

lemma keeps_if [fd_rules]:
  "(b \<Longrightarrow> keeps_fds m) \<Longrightarrow> (\<not> b \<Longrightarrow> keeps_fds n) \<Longrightarrow> keeps_fds (if b then m else n)"
  by simp

lemma keeps_option [fd_rules]:
  "keeps_fds m \<Longrightarrow> (\<And>a. keeps_fds (f a)) \<Longrightarrow> keeps_fds (case x of None \<Rightarrow> m | Some a \<Rightarrow> f a)"
  by (simp split: option.split)

lemma keeps_call:
  assumes "\<And>r fd. fd_delta (c, r) fd = 0"
  shows "keeps_fds (call c)"
  by (simp add: keeps_fds_def wp_simps held_after fun_eq_iff assms)

lemma keeps_calls [fd_rules]:
  "keeps_fds (call (Getaddrinfo l b c e))"
  "keeps_fds (call (Setsockopt a p b))"
  "keeps_fds (call (Getsockopt a p))"
  "keeps_fds (call (Bind a b))"
  "keeps_fds (call (Connect a b))"
  "keeps_fds (call (Listen a))"
  "keeps_fds (call (Read a bs))"
  "keeps_fds (call (Write a bs))"
  "keeps_fds (call (Sendfile a b n m))"
  "keeps_fds (call (Recvfrom a))"
  "keeps_fds (call (Getfl a))"
  "keeps_fds (call (Setfl a b))"
  "keeps_fds (call (Poll a b))"
  "keeps_fds (call (Getsockname a))"
  "keeps_fds (call (Getpeername a))"
  "keeps_fds (call (Select a tv))"
  "keeps_fds (call Gettime)"
  "keeps_fds (call Unlink)"
  "keeps_fds (call (Ftruncate a b))"
  "keeps_fds (call (Mmap a b))"
  "keeps_fds (call (Fsync a))"
  "keeps_fds (call (Entropy n))"
  "keeps_fds (call (Tcpinfo a))"
  "keeps_fds (call (Setaffinity a))"
  "keeps_fds (call (Setcongestion a nm))"
  "keeps_fds (call (Getcongestion a))"
  "keeps_fds (call Clock_Time)"
  "keeps_fds (call Cpu_Util)"
  "keeps_fds (call (Fstat a))"
  "keeps_fds (call (Sctp_Bindx a as))"
  by (simp_all add: keeps_call)

lemma keeps_sets [fd_rules]:
  "keeps_fds get_errno" "keeps_fds (set_errno e)" "keeps_fds (set_i_errno e)" "keeps_fds (set_gerror e)"
  by (simp_all add: keeps_fds_def wp_simps)

lemma fds_return [fd_rules]: "Q a h \<Longrightarrow> fds h (State_Monad.return a) Q"
  by (simp add: fds_def wp_simps)

lemma fds_if [fd_rules]:
  "(b \<Longrightarrow> fds h m Q) \<Longrightarrow> (\<not> b \<Longrightarrow> fds h n Q) \<Longrightarrow> fds h (if b then m else n) Q"
  by simp

lemma fds_let [fd_rules]: "(\<And>v. v = x \<Longrightarrow> fds h (f v) Q) \<Longrightarrow> fds h (Let x f) Q"
  by simp

lemma fds_keep [fd_rules]:
  fixes m :: "('a os_scheme, 'b) state"
  assumes "keeps_fds m" "\<And>a. fds h (f a) Q"
  shows "fds h (State_Monad.bind m f) Q"
  unfolding fds_def
proof (intro allI impI)
  fix w :: "'a os_scheme"
  assume h: "held w = h"
  have "wp (f a) (\<lambda>r w'. Q r (held w')) v" if "held v = held w" for a v
    using assms(2) [of a] that h by (simp add: fds_def)
  then show "wp (State_Monad.bind m f) (\<lambda>r w'. Q r (held w')) w"
    using assms(1) unfolding wp_bind keeps_fds_def by (blast intro: wp_mono)
qed

lemma fds_mono: "fds h m P \<Longrightarrow> (\<And>r h'. P r h' \<Longrightarrow> Q r h') \<Longrightarrow> fds h m Q"
  unfolding fds_def by (blast intro: wp_mono)

lemma fds_seq:
  fixes m :: "('a os_scheme, 'b) state"
  assumes "fds h m P" "\<And>r h'. P r h' \<Longrightarrow> fds h' (f r) Q"
  shows "fds h (State_Monad.bind m f) Q"
  unfolding fds_def
proof (intro allI impI)
  fix w :: "'a os_scheme"
  assume "held w = h"
  then have "wp m (\<lambda>r w'. P r (held w')) w" using assms(1) by (simp add: fds_def)
  then have "wp m (\<lambda>a. wp (f a) (\<lambda>r w'. Q r (held w'))) w"
    by (rule wp_mono) (use assms(2) in \<open>auto simp: fds_def\<close>)
  then show "wp (State_Monad.bind m f) (\<lambda>r w'. Q r (held w')) w" by (simp add: wp_bind)
qed

text \<open>A call that hands out a descriptor, and the one that takes it back.\<close>

lemma fds_new:
  fixes f :: "resp \<Rightarrow> ('a os_scheme, 'b) state"
  assumes c: "\<And>r. fd_delta (c, r) = (\<lambda>fd. if r \<ge> 0 \<and> r = fd then 1 else 0)"
    and ok: "\<And>a. 0 \<le> rv a \<Longrightarrow> fds (h(rv a := h (rv a) + 1)) (f a) Q"
    and bad: "\<And>a. rv a < 0 \<Longrightarrow> fds h (f a) Q"
  shows "fds h (State_Monad.bind (call c) f) Q"
  unfolding fds_def
proof (intro allI impI)
  fix w :: "'a os_scheme"
  assume h: "held w = h"
  have "held (after c (rv (answer w)) w) =
      (if 0 \<le> rv (answer w) then h(rv (answer w) := h (rv (answer w)) + 1) else h)"
    by (auto simp: fun_eq_iff held_after c h)
  then show "wp (State_Monad.bind (call c) f) (\<lambda>r w'. Q r (held w')) w"
    using ok [of "answer w"] bad [of "answer w"]
    by (simp add: wp_simps fds_def split: if_splits)
qed

lemma fds_socket [fd_rules]:
  fixes f :: "resp \<Rightarrow> ('a os_scheme, 'b) state"
  assumes "\<And>a. 0 \<le> rv a \<Longrightarrow> fds (h(rv a := h (rv a) + 1)) (f a) Q" "\<And>a. rv a < 0 \<Longrightarrow> fds h (f a) Q"
  shows "fds h (State_Monad.bind (call (Socket d t p)) f) Q"
  by (rule fds_new) (use assms in auto)

lemma fds_accept [fd_rules]:
  fixes f :: "resp \<Rightarrow> ('a os_scheme, 'b) state"
  assumes "\<And>a. 0 \<le> rv a \<Longrightarrow> fds (h(rv a := h (rv a) + 1)) (f a) Q" "\<And>a. rv a < 0 \<Longrightarrow> fds h (f a) Q"
  shows "fds h (State_Monad.bind (call (Accept s)) f) Q"
  by (rule fds_new) (use assms in auto)

lemma fds_close [fd_rules]:
  fixes f :: "resp \<Rightarrow> ('a os_scheme, 'b) state"
  assumes "\<And>a. fds (h(s := h s - 1)) (f a) Q"
  shows "fds h (State_Monad.bind (call (Close s)) f) Q"
  unfolding fds_def
proof (intro allI impI)
  fix w :: "'a os_scheme"
  assume h: "held w = h"
  have "held (after (Close s) (rv (answer w)) w) = h(s := h s - 1)"
    by (auto simp: fun_eq_iff held_after h)
  then show "wp (State_Monad.bind (call (Close s)) f) (\<lambda>r w'. Q r (held w')) w"
    using assms [of "answer w"] by (simp add: wp_simps fds_def)
qed

lemma fds_mkstemp [fd_rules]:
  fixes f :: "resp \<Rightarrow> ('a os_scheme, 'b) state"
  assumes "\<And>a. 0 \<le> rv a \<Longrightarrow> fds (h(rv a := h (rv a) + 1)) (f a) Q" "\<And>a. rv a < 0 \<Longrightarrow> fds h (f a) Q"
  shows "fds h (State_Monad.bind (call Mkstemp) f) Q"
  by (rule fds_new) (use assms in auto)

lemma fds_open [fd_rules]:
  fixes f :: "resp \<Rightarrow> ('a os_scheme, 'b) state"
  assumes "\<And>a. 0 \<le> rv a \<Longrightarrow> fds (h(rv a := h (rv a) + 1)) (f a) Q" "\<And>a. rv a < 0 \<Longrightarrow> fds h (f a) Q"
  shows "fds h (State_Monad.bind (call (Open p b)) f) Q"
  by (rule fds_new) (use assms in auto)

text \<open>Code that only changes the program's own data.\<close>

lemma keeps_modify:
  assumes "\<And>w. trace (f w) = trace w"
  shows "keeps_fds (modify f)"
  by (simp add: keeps_fds_def wp_simps held_def [abs_def] assms)

lemma keeps_gets [fd_rules]: "keeps_fds (gets f)"
  by (simp add: keeps_fds_def wp_simps)

text \<open>
  \<open>calls P w\<close>: every call in the trace so far satisfies \<open>P\<close>. With an invariant \<open>I\<close> of the
  program's own data it is preserved by code all of whose calls satisfy \<open>P\<close> under \<open>I\<close>.
\<close>

definition calls :: "(sysc \<Rightarrow> bool) \<Rightarrow> 'a os_scheme \<Rightarrow> bool" where
  "calls P w \<longleftrightarrow> (\<forall>e \<in> set (trace w). P (fst e))"

lemma calls_after [simp]: "calls P (after c r w) \<longleftrightarrow> P c \<and> calls P w"
  by (simp add: calls_def after_def)

lemma calls_upd [simp]:
  "calls P (w\<lparr>errno := e\<rparr>) = calls P w" "calls P (w\<lparr>i_errno := e\<rparr>) = calls P w"
  "calls P (w\<lparr>gerror := e\<rparr>) = calls P w"
  by (simp_all add: calls_def)

lemma preserves_call:
  "(\<And>w r. J w \<Longrightarrow> J (after c r w)) \<Longrightarrow> preserves J (call c)"
  by (simp add: preserves_def wp_simps)

end
