(* ===== verification/Net.thy ===== *)
theory Net
  imports Sys
begin

text \<open>
  \<open>iperf/src/net.c\<close>: dialling and announcing sockets, and the loops that move whole
  blocks over them. Straight-line code is written in the state monad over the process
  state; the loops are recursive functions whose termination argument is the number of
  bytes left. \<open>freeaddrinfo\<close> and the descriptors' kernel state are not modelled, the
  configuration is Linux (\<open>HAVE_SO_BINDTODEVICE\<close>, \<open>HAVE_SENDFILE\<close>, \<open>IPV6_V6ONLY\<close>).
\<close>

definition NET_SOFTERROR :: int where "NET_SOFTERROR = -1"
definition NET_HARDERROR :: int where "NET_HARDERROR = -2"

definition SOCK_STREAM :: int where "SOCK_STREAM = 1"
definition SOCK_DGRAM :: int where "SOCK_DGRAM = 2"

lemmas net_consts = NET_SOFTERROR_def NET_HARDERROR_def SOCK_STREAM_def SOCK_DGRAM_def

section \<open>Connecting\<close>

definition timeout_connect :: "int \<Rightarrow> int \<Rightarrow> int \<Rightarrow> ('a os_scheme, int) state" where
  "timeout_connect s port timeout = do {
     flags \<leftarrow> (if timeout \<noteq> -1 then do {
         f \<leftarrow> call (Getfl s);
         r \<leftarrow> call (Setfl s (rv f OR O_NONBLOCK));
         State_Monad.return (if rv r = -1 then None else Some (rv f)) }
       else State_Monad.return (Some 0));
     case flags of None \<Rightarrow> State_Monad.return (-1)
     | Some fl \<Rightarrow> do {
         c \<leftarrow> call (Connect s port);
         e \<leftarrow> get_errno;
         ret \<leftarrow> (if rv c \<noteq> 0 \<and> e = EINPROGRESS then do {
             p \<leftarrow> call (Poll s timeout);
             if rv p = 1 then do {
               g \<leftarrow> call (Getsockopt s SO_ERROR);
               if rv g = 0 then do {
                 set_errno (rval g);
                 State_Monad.return (if rval g = 0 then 0 else -1) }
               else State_Monad.return (rv g) }
             else if rv p = 0 then do { set_errno ETIMEDOUT; State_Monad.return (-1) }
             else State_Monad.return (-1) }
           else State_Monad.return (rv c));
         if timeout \<noteq> -1 then do {
           q \<leftarrow> call (Setfl s fl);
           State_Monad.return (if rv q = -1 then -1 else ret) }
         else State_Monad.return ret } }"

text \<open>The clean-up before an error return: close, with \<open>errno\<close> preserved.\<close>

definition close_fail :: "int \<Rightarrow> ('a os_scheme, int) state" where
  "close_fail s = do {
     saved_errno \<leftarrow> get_errno;
     r \<leftarrow> call (Close s);
     set_errno saved_errno;
     State_Monad.return (-1) }"

text \<open>
  \<open>netdial\<close>. The address family of the server's first address is the out-value of
  \<open>getaddrinfo\<close>.
\<close>

definition netdial_connect :: "int \<Rightarrow> int \<Rightarrow> int \<Rightarrow> ('a os_scheme, int) state" where
  "netdial_connect s port timeout = do {
     r \<leftarrow> timeout_connect s port timeout;
     e \<leftarrow> get_errno;
     if r < 0 \<and> e \<noteq> EINPROGRESS then close_fail s else State_Monad.return s }"

definition netdial_bind :: "int \<Rightarrow> int \<Rightarrow> string option \<Rightarrow> int \<Rightarrow> int \<Rightarrow> int \<Rightarrow> ('a os_scheme, int) state" where
  "netdial_bind s family local local_port port timeout =
     (if local \<noteq> None then do {
        b \<leftarrow> call (Bind s local_port);
        if rv b < 0 then close_fail s else netdial_connect s port timeout }
      else if local_port \<noteq> 0 then
        (if family = AF_INET \<or> family = AF_INET6 then do {
           b \<leftarrow> call (Bind s local_port);
           if rv b < 0 then close_fail s else netdial_connect s port timeout }
         else do { set_errno EAFNOSUPPORT; State_Monad.return (-1) })
      else netdial_connect s port timeout)"

definition netdial :: "int \<Rightarrow> int \<Rightarrow> string option \<Rightarrow> string option \<Rightarrow> int \<Rightarrow> string \<Rightarrow> int \<Rightarrow> int \<Rightarrow>
    ('a os_scheme, int) state" where
  "netdial domain proto local bind_dev local_port server port timeout = do {
     lok \<leftarrow> (if local \<noteq> None then do {
         g \<leftarrow> call (Getaddrinfo local domain proto False);
         set_gerror (rv g);
         State_Monad.return (rv g = 0) }
       else State_Monad.return True);
     if \<not> lok then State_Monad.return (-1) else do {
       sv \<leftarrow> call (Getaddrinfo (Some server) domain proto False);
       set_gerror (rv sv);
       if rv sv \<noteq> 0 then State_Monad.return (-1) else do {
         s \<leftarrow> call (Socket (rval sv) proto 0);
         if rv s < 0 then State_Monad.return (-1) else do {
           bd \<leftarrow> (if bind_dev \<noteq> None then do {
               o1 \<leftarrow> call (Setsockopt (rv s) SO_BINDTODEVICE 0);
               State_Monad.return (rv o1) }
             else State_Monad.return 0);
           if bd < 0 then close_fail (rv s)
           else netdial_bind (rv s) (rval sv) local local_port port timeout } } } }"

section \<open>Announcing\<close>

definition netannounce_listen :: "int \<Rightarrow> int \<Rightarrow> int \<Rightarrow> ('a os_scheme, int) state" where
  "netannounce_listen s proto port = do {
     b \<leftarrow> call (Bind s port);
     if rv b < 0 then close_fail s
     else if proto = SOCK_STREAM then do {
       l \<leftarrow> call (Listen s);
       if rv l < 0 then close_fail s else State_Monad.return s }
     else State_Monad.return s }"

definition netannounce :: "int \<Rightarrow> int \<Rightarrow> string option \<Rightarrow> string option \<Rightarrow> int \<Rightarrow>
    ('a os_scheme, int) state" where
  "netannounce domain proto local bind_dev port = do {
     g \<leftarrow> call (Getaddrinfo local
            (if domain = AF_UNSPEC \<and> local = None then AF_INET6 else domain) proto True);
     set_gerror (rv g);
     if rv g \<noteq> 0 then State_Monad.return (-1) else do {
       s \<leftarrow> call (Socket (rval g) proto 0);
       if rv s < 0 then State_Monad.return (-1) else do {
         bd \<leftarrow> (if bind_dev \<noteq> None then do {
             o1 \<leftarrow> call (Setsockopt (rv s) SO_BINDTODEVICE 0);
             State_Monad.return (rv o1) }
           else State_Monad.return 0);
         if bd < 0 then close_fail (rv s) else do {
           ra \<leftarrow> call (Setsockopt (rv s) SO_REUSEADDR 1);
           if rv ra < 0 then close_fail (rv s) else do {
             v6 \<leftarrow> (if rval g = AF_INET6 \<and> (domain = AF_UNSPEC \<or> domain = AF_INET6) then do {
                 o2 \<leftarrow> call (Setsockopt (rv s) IPV6_V6ONLY (if domain = AF_UNSPEC then 0 else 1));
                 State_Monad.return (rv o2) }
               else State_Monad.return 0);
             if v6 < 0 then close_fail (rv s) else netannounce_listen (rv s) proto port } } } } }"

section \<open>Moving blocks\<close>

text \<open>
  \<open>Nread\<close>: the bytes stored in the buffer are returned with the count. The loop runs
  while bytes are missing; \<open>EAGAIN\<close> and \<open>EWOULDBLOCK\<close> are the same number on Linux.
\<close>

function Nread_loop :: "int \<Rightarrow> nat \<Rightarrow> nat \<Rightarrow> bytes \<Rightarrow> 'a os_scheme \<Rightarrow> int \<times> bytes \<times> 'a os_scheme" where
  "Nread_loop fd count nleft buf w =
     (if nleft = 0 then (int (count - nleft), buf, w)
      else (case sys_read fd nleft w of (r, bs, w1) \<Rightarrow>
        if r < 0 then
          (if errno w1 = EINTR \<or> errno w1 = EAGAIN then (int (count - nleft), buf, w1)
           else (NET_HARDERROR, buf, w1))
        else if r = 0 then (int (count - nleft), buf, w1)
        else Nread_loop fd count (nleft - nat r) (buf @ bs) w1))"
  by pat_completeness auto
termination
  by (relation "measure (\<lambda>(fd, count, nleft, buf, w). nleft)") auto

definition Nread :: "int \<Rightarrow> nat \<Rightarrow> 'a os_scheme \<Rightarrow> int \<times> bytes \<times> 'a os_scheme" where
  "Nread fd count w = Nread_loop fd count count [] w"

text \<open>\<open>Nwrite\<close>: \<open>buf\<close> is what is still to be written.\<close>

function Nwrite_loop :: "int \<Rightarrow> nat \<Rightarrow> bytes \<Rightarrow> 'a os_scheme \<Rightarrow> int \<times> 'a os_scheme" where
  "Nwrite_loop fd count buf w =
     (if buf = [] then (int count, w)
      else (case sys_write fd buf w of (r, w1) \<Rightarrow>
        if r < 0 then
          (if errno w1 = EINTR \<or> errno w1 = EAGAIN then (int (count - length buf), w1)
           else if errno w1 = ENOBUFS then (NET_SOFTERROR, w1)
           else (NET_HARDERROR, w1))
        else if r = 0 then (NET_SOFTERROR, w1)
        else Nwrite_loop fd count (drop (nat r) buf) w1))"
  by pat_completeness auto
termination
  by (relation "measure (\<lambda>(fd, count, buf, w). length buf)") auto

definition Nwrite :: "int \<Rightarrow> bytes \<Rightarrow> 'a os_scheme \<Rightarrow> int \<times> 'a os_scheme" where
  "Nwrite fd buf w = Nwrite_loop fd (length buf) buf w"

definition has_sendfile :: bool where
  "has_sendfile = True"

function Nsendfile_loop :: "int \<Rightarrow> int \<Rightarrow> nat \<Rightarrow> nat \<Rightarrow> 'a os_scheme \<Rightarrow> int \<times> 'a os_scheme" where
  "Nsendfile_loop fromfd tofd count nleft w =
     (if nleft = 0 then (int count, w)
      else (case sys_sendfile tofd fromfd (count - nleft) nleft w of (r, w1) \<Rightarrow>
        if r < 0 then
          (if errno w1 = EINTR \<or> errno w1 = EAGAIN then
             (if count = nleft then (NET_SOFTERROR, w1) else (int (count - nleft), w1))
           else if errno w1 = ENOBUFS \<or> errno w1 = ENOMEM then (NET_SOFTERROR, w1)
           else (NET_HARDERROR, w1))
        else if r = 0 then (NET_SOFTERROR, w1)
        else Nsendfile_loop fromfd tofd count (nleft - nat r) w1))"
  by pat_completeness auto
termination
  by (relation "measure (\<lambda>(fromfd, tofd, count, nleft, w). nleft)") auto

definition Nsendfile :: "int \<Rightarrow> int \<Rightarrow> nat \<Rightarrow> 'a os_scheme \<Rightarrow> int \<times> 'a os_scheme" where
  "Nsendfile fromfd tofd count w = Nsendfile_loop fromfd tofd count count w"

definition setnonblocking :: "int \<Rightarrow> bool \<Rightarrow> ('a os_scheme, int) state" where
  "setnonblocking fd nonblocking = do {
     flags \<leftarrow> call (Getfl fd);
     if rv flags < 0 then State_Monad.return (-1) else do {
       let newflags = (if nonblocking then rv flags OR O_NONBLOCK else rv flags AND NOT O_NONBLOCK);
       if newflags \<noteq> rv flags then do {
         r \<leftarrow> call (Setfl fd newflags);
         State_Monad.return (if rv r < 0 then -1 else 0) }
       else State_Monad.return 0 } }"

definition getsockdomain :: "int \<Rightarrow> ('a os_scheme, int) state" where
  "getsockdomain sock = do {
     r \<leftarrow> call (Getsockname sock);
     State_Monad.return (if rv r < 0 then -1 else rval r) }"

declare Nread_loop.simps [simp del] Nwrite_loop.simps [simp del] Nsendfile_loop.simps [simp del]

section \<open>Descriptors are neither lost nor closed twice\<close>

text \<open>
  \<open>opened h r h'\<close>: compared with \<open>h\<close>, the process holds exactly one descriptor more, \<open>r\<close>,
  if \<open>r\<close> is one, and the same descriptors as before if \<open>r\<close> is an error.
\<close>

definition opened :: "(int \<Rightarrow> int) \<Rightarrow> int \<Rightarrow> (int \<Rightarrow> int) \<Rightarrow> bool" where
  "opened h r h' \<longleftrightarrow> h' = (if 0 \<le> r then h(r := h r + 1) else h)"

lemma timeout_connect_keeps [fd_rules]: "keeps_fds (timeout_connect s port timeout)"
  unfolding timeout_connect_def by (intro fd_rules)

lemma close_fail_opened: "fds (h(s := h s + 1)) (close_fail s) (opened h)"
  unfolding close_fail_def by (intro fd_rules) (simp add: opened_def)

lemma netannounce_listen_opened:
  assumes "0 \<le> s"
  shows "fds (h(s := h s + 1)) (netannounce_listen s proto port) (opened h)"
  unfolding netannounce_listen_def
  by (intro fd_rules close_fail_opened) (simp_all add: opened_def assms)

lemma netannounce_fds: "fds h (netannounce domain proto local bind_dev port) (opened h)"
  unfolding netannounce_def
  by (intro fd_rules close_fail_opened netannounce_listen_opened) (simp_all add: opened_def)

lemma netdial_connect_opened:
  assumes "0 \<le> s"
  shows "fds (h(s := h s + 1)) (netdial_connect s port timeout) (opened h)"
  unfolding netdial_connect_def
  by (intro fd_rules close_fail_opened) (simp_all add: opened_def assms)

text \<open>
  \<open>netdial\<close> has one path that returns -1 without closing its socket: a local port, no
  local address, and a peer whose family is neither of the two it knows.
\<close>

lemma netdial_bind_opened:
  assumes "0 \<le> s" "local \<noteq> None \<or> local_port = 0 \<or> family = AF_INET \<or> family = AF_INET6"
  shows "fds (h(s := h s + 1)) (netdial_bind s family local local_port port timeout) (opened h)"
  unfolding netdial_bind_def
  by (intro fd_rules close_fail_opened netdial_connect_opened) (use assms in auto)

lemma netdial_fds:
  assumes "local \<noteq> None \<or> local_port = 0"
  shows "fds h (netdial domain proto local bind_dev local_port server port timeout) (opened h)"
  unfolding netdial_def
  by (intro fd_rules close_fail_opened netdial_bind_opened) (use assms in \<open>auto simp: opened_def\<close>)


section \<open>Blocks arrive whole, in order, or as a prefix\<close>

lemma Nread_loop_steps:
  "Nread_loop fd count 0 buf w = (int count, buf, w)"
  "nleft \<noteq> 0 \<Longrightarrow> sys_read fd nleft w = (r, bs, w1) \<Longrightarrow> r < 0 \<Longrightarrow>
    Nread_loop fd count nleft buf w =
      (if errno w1 = EINTR \<or> errno w1 = EAGAIN then int (count - nleft) else NET_HARDERROR, buf, w1)"
  "nleft \<noteq> 0 \<Longrightarrow> sys_read fd nleft w = (0, bs, w1) \<Longrightarrow>
    Nread_loop fd count nleft buf w = (int (count - nleft), buf, w1)"
  "nleft \<noteq> 0 \<Longrightarrow> sys_read fd nleft w = (r, bs, w1) \<Longrightarrow> 0 < r \<Longrightarrow>
    Nread_loop fd count nleft buf w = Nread_loop fd count (nleft - nat r) (buf @ bs) w1"
  by (subst Nread_loop.simps; simp)+

lemma Nwrite_loop_steps:
  "Nwrite_loop fd count [] w = (int count, w)"
  "buf \<noteq> [] \<Longrightarrow> sys_write fd buf w = (r, w1) \<Longrightarrow> r < 0 \<Longrightarrow>
    Nwrite_loop fd count buf w =
      (if errno w1 = EINTR \<or> errno w1 = EAGAIN then int (count - length buf)
       else if errno w1 = ENOBUFS then NET_SOFTERROR else NET_HARDERROR, w1)"
  "buf \<noteq> [] \<Longrightarrow> sys_write fd buf w = (0, w1) \<Longrightarrow> Nwrite_loop fd count buf w = (NET_SOFTERROR, w1)"
  "buf \<noteq> [] \<Longrightarrow> sys_write fd buf w = (r, w1) \<Longrightarrow> 0 < r \<Longrightarrow>
    Nwrite_loop fd count buf w = Nwrite_loop fd count (drop (nat r) buf) w1"
  by (subst Nwrite_loop.simps; simp)+

lemma Nsendfile_loop_steps:
  "Nsendfile_loop fromfd tofd count 0 w = (int count, w)"
  "nleft \<noteq> 0 \<Longrightarrow> sys_sendfile tofd fromfd (count - nleft) nleft w = (r, w1) \<Longrightarrow> r < 0 \<Longrightarrow>
    Nsendfile_loop fromfd tofd count nleft w =
      (if errno w1 = EINTR \<or> errno w1 = EAGAIN then
         (if count = nleft then NET_SOFTERROR else int (count - nleft))
       else if errno w1 = ENOBUFS \<or> errno w1 = ENOMEM then NET_SOFTERROR else NET_HARDERROR, w1)"
  "nleft \<noteq> 0 \<Longrightarrow> sys_sendfile tofd fromfd (count - nleft) nleft w = (0, w1) \<Longrightarrow>
    Nsendfile_loop fromfd tofd count nleft w = (NET_SOFTERROR, w1)"
  "nleft \<noteq> 0 \<Longrightarrow> sys_sendfile tofd fromfd (count - nleft) nleft w = (r, w1) \<Longrightarrow> 0 < r \<Longrightarrow>
    Nsendfile_loop fromfd tofd count nleft w = Nsendfile_loop fromfd tofd count (nleft - nat r) w1"
  by (subst Nsendfile_loop.simps; simp)+

text \<open>What the wrapped system calls do to the observables.\<close>

lemma sys_read_cases:
  obtains (error) w1 where "sys_read fd n w = (-1, [], w1)" "held w1 = held w" "wire w1 = wire w" "got w1 = got w"
  | (bytes) bs w1 where "sys_read fd n w = (int (length bs), bs, w1)" "length bs \<le> n" "held w1 = held w"
      "wire w1 = wire w" "got w1 fd = got w fd @ bs"
proof (cases "rv (answer w) < 0")
  case True
  then show thesis
    by (intro error [of "after (Read fd []) (-1) w"])
      (simp_all add: sys_read_def Let_def trace_after fun_eq_iff)
next
  case False
  define bs where "bs = take n (rbytes (answer w))"
  from False show thesis
    by (intro bytes [of bs "after (Read fd bs) (int (length bs)) w"])
      (simp_all add: sys_read_def Let_def trace_after fun_eq_iff bs_def)
qed

lemma sys_write_cases:
  obtains (error) w1 where "sys_write fd buf w = (-1, w1)" "held w1 = held w" "got w1 = got w" "wire w1 = wire w"
  | (bytes) k w1 where "sys_write fd buf w = (int k, w1)" "k \<le> length buf" "held w1 = held w" "got w1 = got w"
      "wire w1 fd = wire w fd @ take k buf" "\<And>f. f \<noteq> fd \<Longrightarrow> wire w1 f = wire w f"
proof (cases "rv (answer w) < 0")
  case True
  then show thesis
    by (intro error [of "after (Write fd []) (-1) w"])
      (simp_all add: sys_write_def Let_def trace_after fun_eq_iff)
next
  case False
  define k where "k = min (nat (rv (answer w))) (length buf)"
  from False show thesis
    by (intro bytes [of k "after (Write fd (take k buf)) (int k) w"])
      (simp_all add: sys_write_def Let_def trace_after fun_eq_iff k_def)
qed

lemma sys_sendfile_cases:
  obtains (error) w1 where "sys_sendfile t f off n w = (-1, w1)" "held w1 = held w"
  | (bytes) k w1 where "sys_sendfile t f off n w = (int k, w1)" "k \<le> n" "held w1 = held w"
proof (cases "rv (answer w) < 0")
  case True
  then show thesis
    by (intro error [of "after (Sendfile t f off 0) (-1) w"])
      (simp_all add: sys_sendfile_def Let_def trace_after fun_eq_iff)
next
  case False
  define k where "k = min (nat (rv (answer w))) n"
  from False show thesis
    by (intro bytes [of k "after (Sendfile t f off k) (int k) w"])
      (simp_all add: sys_sendfile_def Let_def trace_after fun_eq_iff k_def)
qed

text \<open>The outcome of a reading loop: what it appends to the buffer is what left the descriptor.\<close>

definition read_outcome ::
  "int \<Rightarrow> nat \<Rightarrow> bytes \<Rightarrow> 'a os_scheme \<Rightarrow> int \<times> bytes \<times> 'a os_scheme \<Rightarrow> bool" where
  "read_outcome fd count buf w x = (case x of (r, bs, w') \<Rightarrow>
     (\<exists>new. bs = buf @ new \<and> got w' fd = got w fd @ new) \<and> length bs \<le> count
      \<and> held w' = held w \<and> wire w' = wire w
      \<and> (if r < 0 then r = NET_HARDERROR \<and> length bs < count else r = int (length bs)))"

lemma read_outcome_step:
  "read_outcome fd count (buf @ bs) w1 x \<Longrightarrow> got w1 fd = got w fd @ bs \<Longrightarrow> held w1 = held w \<Longrightarrow>
    wire w1 = wire w \<Longrightarrow> read_outcome fd count buf w x"
  by (auto simp: read_outcome_def split: prod.splits)

lemma Nread_loop_spec:
  assumes "nleft \<le> count" "length buf = count - nleft"
  shows "read_outcome fd count buf w (Nread_loop fd count nleft buf w)"
  using assms
proof (induction fd count nleft buf w rule: Nread_loop.induct)
  case (1 fd count nleft buf w)
  show ?case
  proof (cases "nleft = 0")
    case True
    with 1(2,3) show ?thesis by (simp add: Nread_loop_steps read_outcome_def)
  next
    case n: False
    show ?thesis
    proof (cases rule: sys_read_cases [of fd nleft w])
      case (error w1)
      with n 1(2,3) show ?thesis
        by (simp add: Nread_loop_steps(2) [OF n error(1)] read_outcome_def net_consts)
    next
      case (bytes bs w1)
      show ?thesis
      proof (cases "bs = []")
        case True
        with bytes n 1(2,3) show ?thesis
          by (simp add: Nread_loop_steps(3) [OF n] read_outcome_def)
      next
        case False
        have "read_outcome fd count (buf @ bs) w1
            (Nread_loop fd count (nleft - nat (int (length bs))) (buf @ bs) w1)"
          by (rule "1.IH" [OF n bytes(1) [symmetric] refl]) (use False bytes(2) 1(2,3) in auto)
        then have "read_outcome fd count buf w
            (Nread_loop fd count (nleft - nat (int (length bs))) (buf @ bs) w1)"
          by (rule read_outcome_step) (use bytes in simp_all)
        then show ?thesis
          using False by (simp add: Nread_loop_steps(4) [OF n bytes(1)])
      qed
    qed
  qed
qed

text \<open>The outcome of a writing loop: a prefix of what was left, and the count says which.\<close>

definition write_outcome ::
  "int \<Rightarrow> nat \<Rightarrow> bytes \<Rightarrow> 'a os_scheme \<Rightarrow> int \<times> 'a os_scheme \<Rightarrow> bool" where
  "write_outcome fd count buf w x = (case x of (r, w') \<Rightarrow>
     (\<exists>k \<le> length buf. wire w' fd = wire w fd @ take k buf
        \<and> (if r < 0 then r \<in> {NET_SOFTERROR, NET_HARDERROR} \<and> k < length buf
           else r = int (count - length buf + k)))
      \<and> held w' = held w \<and> got w' = got w \<and> (\<forall>f. f = fd \<or> wire w' f = wire w f))"

lemma write_outcome_step:
  assumes "write_outcome fd count (drop k buf) w1 x" "k \<le> length buf" "length buf \<le> count"
    "held w1 = held w" "got w1 = got w" "wire w1 fd = wire w fd @ take k buf"
    "\<And>f. f \<noteq> fd \<Longrightarrow> wire w1 f = wire w f"
  shows "write_outcome fd count buf w x"
proof -
  obtain r w' where x: "x = (r, w')" by (cases x)
  from assms(1) obtain j where j: "j \<le> length buf - k"
    "wire w' fd = wire w1 fd @ take j (drop k buf)"
    "if r < 0 then r \<in> {NET_SOFTERROR, NET_HARDERROR} \<and> j < length buf - k
     else r = int (count - (length buf - k) + j)"
    unfolding write_outcome_def x prod.case length_drop by blast
  have "wire w' fd = wire w fd @ take (k + j) buf"
    by (simp add: j(2) assms(6) take_add)
  moreover have "k + j \<le> length buf" using j(1) assms(2) by simp
  moreover have "if r < 0 then r \<in> {NET_SOFTERROR, NET_HARDERROR} \<and> k + j < length buf
      else r = int (count - length buf + (k + j))"
    using j(1,3) assms(2,3) by (auto split: if_splits)
  ultimately have "\<exists>k \<le> length buf. wire w' fd = wire w fd @ take k buf
      \<and> (if r < 0 then r \<in> {NET_SOFTERROR, NET_HARDERROR} \<and> k < length buf
         else r = int (count - length buf + k))"
    by blast
  moreover have "held w' = held w1 \<and> got w' = got w1 \<and> (\<forall>f. f = fd \<or> wire w' f = wire w1 f)"
    using assms(1) by (simp add: write_outcome_def x)
  ultimately show ?thesis
    unfolding write_outcome_def x prod.case using assms(4,5,7) by metis
qed

lemma Nwrite_loop_spec:
  assumes "length buf \<le> count"
  shows "write_outcome fd count buf w (Nwrite_loop fd count buf w)"
  using assms
proof (induction fd count buf w rule: Nwrite_loop.induct)
  case (1 fd count buf w)
  show ?case
  proof (cases "buf = []")
    case True
    then show ?thesis by (simp add: Nwrite_loop_steps write_outcome_def)
  next
    case n: False
    show ?thesis
    proof (cases rule: sys_write_cases [of fd buf w])
      case (error w1)
      with n 1(2) show ?thesis
        by (auto simp: Nwrite_loop_steps(2) [OF n error(1)] write_outcome_def net_consts
            intro: exI [of _ 0])
    next
      case (bytes k w1)
      show ?thesis
      proof (cases "k = 0")
        case True
        with bytes(1) have "sys_write fd buf w = (0, w1)" by simp
        then have "Nwrite_loop fd count buf w = (NET_SOFTERROR, w1)"
          by (rule Nwrite_loop_steps(3) [OF n])
        moreover have "wire w1 fd = wire w fd @ take 0 buf \<and>
            (if NET_SOFTERROR < 0 then NET_SOFTERROR \<in> {NET_SOFTERROR, NET_HARDERROR} \<and> 0 < length buf
             else NET_SOFTERROR = int (count - length buf + 0))"
          using bytes(5) True n by (simp add: net_consts)
        ultimately show ?thesis
          unfolding write_outcome_def using bytes(3,4,6) by auto
      next
        case False
        have "write_outcome fd count (drop (nat (int k)) buf) w1
            (Nwrite_loop fd count (drop (nat (int k)) buf) w1)"
          by (rule "1.IH" [OF n bytes(1) [symmetric]]) (use False bytes(2) 1(2) in auto)
        then have "write_outcome fd count buf w (Nwrite_loop fd count (drop (nat (int k)) buf) w1)"
          by (rule write_outcome_step) (use bytes 1(2) in simp_all)
        then show ?thesis
          using False by (simp add: Nwrite_loop_steps(4) [OF n bytes(1)])
      qed
    qed
  qed
qed

lemma Nsendfile_loop_spec:
  assumes "nleft \<le> count"
  shows "case Nsendfile_loop fromfd tofd count nleft w of (r, w') \<Rightarrow>
    r \<le> int count \<and> held w' = held w
      \<and> (if r < 0 then r \<in> {NET_SOFTERROR, NET_HARDERROR} else int (count - nleft) \<le> r)"
  using assms
proof (induction fromfd tofd count nleft w rule: Nsendfile_loop.induct)
  case (1 fromfd tofd count nleft w)
  show ?case
  proof (cases "nleft = 0")
    case True
    then show ?thesis by (simp add: Nsendfile_loop_steps)
  next
    case n: False
    show ?thesis
    proof (cases rule: sys_sendfile_cases [of tofd fromfd "count - nleft" nleft w])
      case (error w1)
      with n 1(2) show ?thesis
        by (auto simp: Nsendfile_loop_steps(2) [OF n error(1)] net_consts)
    next
      case (bytes k w1)
      show ?thesis
      proof (cases "k = 0")
        case True
        with bytes(1) have "sys_sendfile tofd fromfd (count - nleft) nleft w = (0, w1)" by simp
        with n bytes(3) show ?thesis by (simp add: Nsendfile_loop_steps(3) net_consts)
      next
        case False
        have "case Nsendfile_loop fromfd tofd count (nleft - nat (int k)) w1 of (r, w') \<Rightarrow>
          r \<le> int count \<and> held w' = held w1
            \<and> (if r < 0 then r \<in> {NET_SOFTERROR, NET_HARDERROR} else int (count - (nleft - nat (int k))) \<le> r)"
          by (rule "1.IH" [OF n bytes(1) [symmetric]]) (use False bytes(2) 1(2) in auto)
        then show ?thesis
          using False bytes 1(2)
          by (auto simp: Nsendfile_loop_steps(4) [OF n bytes(1)] split: prod.splits if_splits)
      qed
    qed
  qed
qed

lemmas Nread_spec = Nread_loop_spec [of count count "[]" for count, folded Nread_def, simplified]
lemmas Nwrite_spec = Nwrite_loop_spec [OF order_refl, folded Nwrite_def]

lemma Nsendfile_spec:
  "case Nsendfile fromfd tofd count w of (r, w') \<Rightarrow>
    r \<le> int count \<and> held w' = held w \<and> (if r < 0 then r \<in> {NET_SOFTERROR, NET_HARDERROR} else 0 \<le> r)"
  using Nsendfile_loop_spec [where nleft = count and count = count and fromfd = fromfd and tofd = tofd and w = w]
  by (auto simp: Nsendfile_def split: prod.splits)

lemma moving_keeps_fds:
  "held (snd (snd (Nread fd n w))) = held w" "held (snd (Nwrite fd bs w)) = held w"
  "held (snd (Nsendfile a b n w)) = held w"
  using Nread_spec [where fd = fd and count = n and w = w]
    Nwrite_spec [where fd = fd and buf = bs and w = w]
    Nsendfile_spec [where fromfd = a and tofd = b and count = n and w = w]
  by (auto simp: read_outcome_def write_outcome_def split: prod.splits)

text \<open>The loops keep every invariant that their system call keeps.\<close>

lemma Nread_loop_inv:
  assumes call: "\<And>w f bs r. J w \<Longrightarrow> J (after (Read f bs) r w)" and "J w"
  shows "J (snd (snd (Nread_loop fd n k buf w)))"
  using assms(2)
proof (induction fd n k buf w rule: Nread_loop.induct)
  case (1 fd n k buf w)
  obtain r bs w1 where e: "sys_read fd k w = (r, bs, w1)" by (cases "sys_read fd k w")
  then have w1: "J w1" using call 1(2) by (auto simp: sys_read_def Let_def split: if_splits)
  consider "k = 0" | "k \<noteq> 0" "r < 0" | "k \<noteq> 0" "r = 0" | "k \<noteq> 0" "0 < r" by linarith
  then show ?case
  proof cases
    case 4
    then have "J (snd (snd (Nread_loop fd n (k - nat r) (buf @ bs) w1)))"
      using 1(1) [OF _ e [symmetric] refl] w1 by simp
    with 4 show ?thesis by (simp add: Nread_loop_steps(4) [OF _ e])
  qed (use 1(2) w1 e in \<open>simp_all add: Nread_loop_steps(1-3)\<close>)
qed

lemma Nwrite_loop_inv:
  assumes call: "\<And>w f bs r. J w \<Longrightarrow> J (after (Write f bs) r w)" and "J w"
  shows "J (snd (Nwrite_loop fd n buf w))"
  using assms(2)
proof (induction fd n buf w rule: Nwrite_loop.induct)
  case (1 fd n buf w)
  obtain r w1 where e: "sys_write fd buf w = (r, w1)" by (cases "sys_write fd buf w")
  then have w1: "J w1" using call 1(2) by (auto simp: sys_write_def Let_def split: if_splits)
  consider "buf = []" | "buf \<noteq> []" "r < 0" | "buf \<noteq> []" "r = 0" | "buf \<noteq> []" "0 < r" by linarith
  then show ?case
  proof cases
    case 4
    then have "J (snd (Nwrite_loop fd n (drop (nat r) buf) w1))"
      using 1(1) [OF _ e [symmetric]] w1 by simp
    with 4 show ?thesis by (simp add: Nwrite_loop_steps(4) [OF _ e])
  qed (use 1(2) w1 e in \<open>simp_all add: Nwrite_loop_steps(1-3)\<close>)
qed

lemma Nsendfile_loop_inv:
  assumes call: "\<And>w f t off len r. J w \<Longrightarrow> J (after (Sendfile t f off len) r w)" and "J w"
  shows "J (snd (Nsendfile_loop fromfd tofd n k w))"
  using assms(2)
proof (induction fromfd tofd n k w rule: Nsendfile_loop.induct)
  case (1 fromfd tofd n k w)
  obtain r w1 where e: "sys_sendfile tofd fromfd (n - k) k w = (r, w1)"
    by (cases "sys_sendfile tofd fromfd (n - k) k w")
  then have w1: "J w1" using call 1(2) by (auto simp: sys_sendfile_def Let_def split: if_splits)
  consider "k = 0" | "k \<noteq> 0" "r < 0" | "k \<noteq> 0" "r = 0" | "k \<noteq> 0" "0 < r" by linarith
  then show ?case
  proof cases
    case 4
    then have "J (snd (Nsendfile_loop fromfd tofd n (k - nat r) w1))"
      using 1(1) [OF _ e [symmetric]] w1 by simp
    with 4 show ?thesis by (simp add: Nsendfile_loop_steps(4) [OF _ e])
  qed (use 1(2) w1 e in \<open>simp_all add: Nsendfile_loop_steps(1-3)\<close>)
qed

end
