(* ===== verification/Timer.thy ===== *)
theory Timer
  imports Iperf_Time
begin

text \<open>
  The timer list of \<open>iperf/src/timer.c\<close>, at the level of the C code: nodes in a heap,
  a doubly linked list of active timers sorted by due time, a singly linked free
  list. Part one translates the operations, part two states what the linked
  structures represent and proves that each operation keeps them and refines an
  operation on plain lists, part three is the interface its clients rely on.
\<close>

section \<open>Nodes and the heap\<close>

text \<open>
  \<open>struct TimerStruct\<close>. The callback and its client data are one value of the type
  parameter; \<open>usecs\<close> (\<open>int64_t\<close>) is kept as the 64 bits that
  \<open>iperf_time_add_usecs\<close> receives; the unused field \<open>hash\<close> is left out. A
  pointer is an address, \<open>NULL\<close> is \<open>None\<close>.
\<close>

record 'c timer =
  timer_proc :: 'c
  t_usecs :: u64
  periodic :: bool
  t_time :: iperf_time
  prev :: "nat option"
  nxt :: "nat option"

record 'c tmrs =
  theap :: "nat \<Rightarrow> 'c timer"
  timers :: "nat option"
  free_timers :: "nat option"

definition upd :: "'c tmrs \<Rightarrow> nat \<Rightarrow> ('c timer \<Rightarrow> 'c timer) \<Rightarrow> 'c tmrs" where
  "upd st p f = st\<lparr>theap := (theap st)(p := f (theap st p))\<rparr>"

definition due :: "'c tmrs \<Rightarrow> nat \<Rightarrow> iperf_time" where
  "due st p = t_time (theap st p)"

section \<open>The operations\<close>

definition getnow :: "iperf_time option \<Rightarrow> iperf_time \<Rightarrow> iperf_time" where
  "getnow nowP clock = (case nowP of Some now \<Rightarrow> now | None \<Rightarrow> clock)"

text \<open>The walk of \<open>list_add\<close>: \<open>t2prev\<close> and \<open>t2\<close> when the loop is left.\<close>

partial_function (option) find_slot ::
  "(nat \<Rightarrow> 'c timer) \<Rightarrow> iperf_time \<Rightarrow> nat \<Rightarrow> nat option \<Rightarrow> (nat \<times> nat option) option" where
  "find_slot h tm t2prev t2 =
     (case t2 of None \<Rightarrow> Some (t2prev, None)
      | Some q \<Rightarrow> if iperf_time_compare tm (t_time (h q)) < 0 then Some (t2prev, Some q)
                  else find_slot h tm q (nxt (h q)))"

definition list_add :: "'c tmrs \<Rightarrow> nat \<Rightarrow> 'c tmrs option" where
  "list_add st t =
     (case timers st of
        None \<Rightarrow> Some (upd (st\<lparr>timers := Some t\<rparr>) t (\<lambda>n. n\<lparr>prev := None, nxt := None\<rparr>))
      | Some h0 \<Rightarrow>
          if iperf_time_compare (t_time (theap st t)) (t_time (theap st h0)) < 0 then
            (let st1 = upd st t (\<lambda>n. n\<lparr>prev := None, nxt := Some h0\<rparr>);
                 st2 = upd st1 h0 (\<lambda>n. n\<lparr>prev := Some t\<rparr>)
             in Some (st2\<lparr>timers := Some t\<rparr>))
          else
            (case find_slot (theap st) (t_time (theap st t)) h0 (nxt (theap st h0)) of
               None \<Rightarrow> None
             | Some (t2prev, t2opt) \<Rightarrow>
                 (case t2opt of
                    Some t2 \<Rightarrow>
                      (let st1 = upd st t2prev (\<lambda>n. n\<lparr>nxt := Some t\<rparr>);
                           st2 = upd st1 t (\<lambda>n. n\<lparr>prev := Some t2prev, nxt := Some t2\<rparr>)
                       in Some (upd st2 t2 (\<lambda>n. n\<lparr>prev := Some t\<rparr>)))
                  | None \<Rightarrow>
                      (let st1 = upd st t2prev (\<lambda>n. n\<lparr>nxt := Some t\<rparr>)
                       in Some (upd st1 t (\<lambda>n. n\<lparr>prev := Some t2prev, nxt := None\<rparr>))))))"

definition list_remove :: "'c tmrs \<Rightarrow> nat \<Rightarrow> 'c tmrs" where
  "list_remove st t =
     (let st1 = (case prev (theap st t) of
                   None \<Rightarrow> st\<lparr>timers := nxt (theap st t)\<rparr>
                 | Some p \<Rightarrow> upd st p (\<lambda>n. n\<lparr>nxt := nxt (theap st t)\<rparr>))
      in (case nxt (theap st1 t) of
            Some q \<Rightarrow> upd st1 q (\<lambda>n. n\<lparr>prev := prev (theap st1 t)\<rparr>)
          | None \<Rightarrow> st1))"

definition list_resort :: "'c tmrs \<Rightarrow> nat \<Rightarrow> 'c tmrs option" where
  "list_resort st t = list_add (list_remove st t) t"

text \<open>
  \<open>tmr_create\<close>. \<open>mem\<close> is what \<open>malloc\<close> returns when the free list is empty, \<open>clock\<close>
  the reading of \<open>iperf_time_now\<close> when \<open>nowP\<close> is \<open>NULL\<close>. The result is the state and
  the returned pointer; the outer option is \<open>None\<close> only if the list walk does not end.
\<close>

definition tmr_create :: "'c tmrs \<Rightarrow> nat option \<Rightarrow> iperf_time \<Rightarrow> iperf_time option \<Rightarrow>
    'c \<Rightarrow> u64 \<Rightarrow> bool \<Rightarrow> ('c tmrs \<times> nat option) option" where
  "tmr_create st mem clock nowP proc us per =
     (let now = getnow nowP clock;
          got = (case free_timers st of
                   Some t \<Rightarrow> Some (t, st\<lparr>free_timers := nxt (theap st t)\<rparr>)
                 | None \<Rightarrow> (case mem of Some t \<Rightarrow> Some (t, st) | None \<Rightarrow> None))
      in case got of
           None \<Rightarrow> Some (st, None)
         | Some (t, st1) \<Rightarrow>
             (let st2 = upd st1 t (\<lambda>n. n\<lparr>timer_proc := proc, t_usecs := us, periodic := per,
                          t_time := iperf_time_add_usecs now us\<rparr>)
              in case list_add st2 t of None \<Rightarrow> None | Some st3 \<Rightarrow> Some (st3, Some t)))"

text \<open>\<open>tmr_timeout\<close>: \<open>NULL\<close>, or \<open>tv_sec\<close> and \<open>tv_usec\<close>.\<close>

definition tmr_timeout :: "'c tmrs \<Rightarrow> iperf_time \<Rightarrow> iperf_time option \<Rightarrow> (nat \<times> nat) option" where
  "tmr_timeout st clock nowP =
     (let now = getnow nowP clock in
      case timers st of
        None \<Rightarrow> None
      | Some t \<Rightarrow>
          (let (past, diff) = iperf_time_diff (t_time (theap st t)) now;
               us = (if past \<noteq> 0 then 0 else unat (iperf_time_in_usecs diff))
           in Some (us div 1000000, us mod 1000000)))"

definition tmr_cancel :: "'c tmrs \<Rightarrow> nat \<Rightarrow> 'c tmrs" where
  "tmr_cancel st t =
     (let st1 = list_remove st t;
          st2 = upd st1 t (\<lambda>n. n\<lparr>nxt := free_timers st1\<rparr>);
          st3 = st2\<lparr>free_timers := Some t\<rparr>
      in upd st3 t (\<lambda>n. n\<lparr>prev := None\<rparr>))"

definition tmr_reset :: "'c tmrs \<Rightarrow> iperf_time \<Rightarrow> iperf_time option \<Rightarrow> nat \<Rightarrow> 'c tmrs option" where
  "tmr_reset st clock nowP t =
     (let now = getnow nowP clock;
          st1 = upd st t (\<lambda>n. n\<lparr>t_time := iperf_time_add_usecs now (t_usecs n)\<rparr>)
      in list_resort st1 t)"

text \<open>
  \<open>tmr_run\<close>. A callback may use the timer operations and change the rest of the
  program, so \<open>fire\<close> transforms the timer state together with the world \<open>w\<close>.
  Reading the clock happens once, before the loop. \<open>None\<close>: the loop does not end.
\<close>

partial_function (option) tmr_run_loop ::
  "('c \<Rightarrow> iperf_time \<Rightarrow> 'c tmrs \<Rightarrow> 'w \<Rightarrow> ('c tmrs \<times> 'w) option) \<Rightarrow> iperf_time \<Rightarrow>
   nat option \<Rightarrow> 'c tmrs \<Rightarrow> 'w \<Rightarrow> ('c tmrs \<times> 'w) option" where
  "tmr_run_loop fire now t st w =
     (case t of
        None \<Rightarrow> Some (st, w)
      | Some p \<Rightarrow>
          if iperf_time_compare (t_time (theap st p)) now > 0 then Some (st, w)
          else
            (case fire (timer_proc (theap st p)) now st w of
               None \<Rightarrow> None
             | Some (st1, w1) \<Rightarrow>
                 if periodic (theap st1 p) then
                   (case list_resort (upd st1 p (\<lambda>n. n\<lparr>t_time :=
                            iperf_time_add_usecs (t_time n) (t_usecs n)\<rparr>)) p of
                      None \<Rightarrow> None
                    | Some st2 \<Rightarrow> tmr_run_loop fire now (nxt (theap st p)) st2 w1)
                 else tmr_run_loop fire now (nxt (theap st p)) (tmr_cancel st1 p) w1))"

definition tmr_run ::
  "('c \<Rightarrow> iperf_time \<Rightarrow> 'c tmrs \<Rightarrow> 'w \<Rightarrow> ('c tmrs \<times> 'w) option) \<Rightarrow>
   iperf_time \<Rightarrow> iperf_time option \<Rightarrow> 'c tmrs \<Rightarrow> 'w \<Rightarrow> ('c tmrs \<times> 'w) option" where
  "tmr_run fire clock nowP st w = tmr_run_loop fire (getnow nowP clock) (timers st) st w"

text \<open>
  \<open>tmr_cleanup\<close> frees the free list; the state keeps only that it is empty then.
  \<open>tmr_destroy\<close> cancels the first timer until none is left.
\<close>

definition tmr_cleanup :: "'c tmrs \<Rightarrow> 'c tmrs" where
  "tmr_cleanup st = st\<lparr>free_timers := None\<rparr>"

partial_function (option) cancel_all :: "'c tmrs \<Rightarrow> 'c tmrs option" where
  "cancel_all st =
     (case timers st of None \<Rightarrow> Some st | Some t \<Rightarrow> cancel_all (tmr_cancel st t))"

definition tmr_destroy :: "'c tmrs \<Rightarrow> 'c tmrs option" where
  "tmr_destroy st = map_option tmr_cleanup (cancel_all st)"


section \<open>What the linked structures represent\<close>

text \<open>
  \<open>dls h pv p xs lst nx\<close>: from \<open>p\<close> the \<open>next\<close> pointers run through \<open>xs\<close> and end in
  \<open>nx\<close>; the \<open>prev\<close> pointers run back from \<open>lst\<close> to \<open>pv\<close>.
\<close>

primrec dls :: "(nat \<Rightarrow> 'c timer) \<Rightarrow> nat option \<Rightarrow> nat option \<Rightarrow> nat list \<Rightarrow>
    nat option \<Rightarrow> nat option \<Rightarrow> bool" where
  "dls h pv p [] lst nx \<longleftrightarrow> p = nx \<and> pv = lst"
| "dls h pv p (x # xs) lst nx \<longleftrightarrow>
     p = Some x \<and> prev (h x) = pv \<and> dls h (Some x) (nxt (h x)) xs lst nx"

lemma dls_append [simp]:
  "dls h pv p (xs @ ys) lst nx \<longleftrightarrow> (\<exists>m q. dls h pv p xs m q \<and> dls h m q ys lst nx)"
  by (induction xs arbitrary: pv p) auto

lemma dls_frame:
  assumes "\<And>x. x \<in> set xs \<Longrightarrow> prev (h' x) = prev (h x) \<and> nxt (h' x) = nxt (h x)"
  shows "dls h' pv p xs lst nx = dls h pv p xs lst nx"
  using assms by (induction xs arbitrary: pv p) auto

lemma dls_upd_other [simp]: "x \<notin> set xs \<Longrightarrow> dls (h(x := n)) pv p xs lst nx = dls h pv p xs lst nx"
  by (rule dls_frame) auto

lemma dls_None_hd: "dls h pv p xs lst None \<Longrightarrow> (p = None) = (xs = [])"
  by (cases xs) auto

text \<open>The free list uses \<open>next\<close> only.\<close>

primrec sll :: "(nat \<Rightarrow> 'c timer) \<Rightarrow> nat option \<Rightarrow> nat list \<Rightarrow> bool" where
  "sll h p [] \<longleftrightarrow> p = None"
| "sll h p (x # xs) \<longleftrightarrow> p = Some x \<and> sll h (nxt (h x)) xs"

lemma sll_frame:
  assumes "\<And>x. x \<in> set xs \<Longrightarrow> nxt (h' x) = nxt (h x)"
  shows "sll h' p xs = sll h p xs"
  using assms by (induction xs arbitrary: p) auto

lemma sll_upd_other [simp]: "x \<notin> set xs \<Longrightarrow> sll (h(x := n)) p xs = sll h p xs"
  by (rule sll_frame) auto

text \<open>
  \<open>timer_lists st xs fs\<close>: the active timers are \<open>xs\<close> in list order, the free ones
  \<open>fs\<close>. \<open>timers_ok\<close> adds that the active list is sorted by due time.
\<close>

definition timer_lists :: "'c tmrs \<Rightarrow> nat list \<Rightarrow> nat list \<Rightarrow> bool" where
  "timer_lists st xs fs \<longleftrightarrow> distinct (xs @ fs)
     \<and> (\<exists>lst. dls (theap st) None (timers st) xs lst None) \<and> sll (theap st) (free_timers st) fs"

definition due_sorted :: "'c tmrs \<Rightarrow> nat list \<Rightarrow> bool" where
  "due_sorted st xs \<longleftrightarrow> sorted_wrt (\<lambda>a b. due st a \<le> due st b) xs"

definition timers_ok :: "'c tmrs \<Rightarrow> nat list \<Rightarrow> nat list \<Rightarrow> bool" where
  "timers_ok st xs fs \<longleftrightarrow> timer_lists st xs fs \<and> due_sorted st xs"

text \<open>Insertion behind every timer that is due no later: what \<open>list_add\<close> computes.\<close>

definition insert_due :: "'c tmrs \<Rightarrow> nat \<Rightarrow> nat list \<Rightarrow> nat list" where
  "insert_due st t xs =
     takeWhile (\<lambda>q. due st q \<le> due st t) xs @ t # dropWhile (\<lambda>q. due st q \<le> due st t) xs"

section \<open>The operations refine list operations\<close>

lemma find_slot_walk:
  assumes "dls h m q ys lst None"
  shows "find_slot h tm a q =
    Some (last (a # takeWhile (\<lambda>x. t_time (h x) \<le> tm) ys),
      (case dropWhile (\<lambda>x. t_time (h x) \<le> tm) ys of [] \<Rightarrow> None | b # _ \<Rightarrow> Some b))"
  using assms
proof (induction ys arbitrary: m q a)
  case Nil
  then show ?case by (simp add: find_slot.simps)
next
  case (Cons y ys)
  then have q: "q = Some y" and rest: "dls h (Some y) (nxt (h y)) ys lst None" by auto
  show ?case
  proof (cases "t_time (h y) \<le> tm")
    case True
    then have "\<not> iperf_time_compare tm (t_time (h y)) < 0" by (simp add: compare_iffs)
    then show ?thesis
      using Cons.IH [OF rest, of y] True q by (simp add: find_slot.simps [of h tm a])
  next
    case False
    then have "iperf_time_compare tm (t_time (h y)) < 0" by (simp add: compare_iffs)
    then show ?thesis using False q by (simp add: find_slot.simps)
  qed
qed

text \<open>Linking a new node between two neighbours.\<close>

lemma dls_link_middle:
  assumes "dls h None p (as @ a # b # bs) lst None" "distinct (as @ a # b # bs)"
    and "t \<notin> set (as @ a # b # bs)"
  shows "dls (h(a := (h a)\<lparr>nxt := Some t\<rparr>, t := n\<lparr>prev := Some a, nxt := Some b\<rparr>,
           b := (h b)\<lparr>prev := Some t\<rparr>)) None p (as @ a # t # b # bs) lst None"
proof -
  have "a \<noteq> b" "a \<noteq> t" "b \<noteq> t" "a \<notin> set as" "b \<notin> set as" "t \<notin> set as"
    "a \<notin> set bs" "b \<notin> set bs" "t \<notin> set bs"
    using assms(2,3) by auto
  then show ?thesis using assms(1) by auto
qed

lemma dls_link_last:
  assumes "dls h None p (as @ [a]) lst None" "distinct (as @ [a])" "t \<notin> set (as @ [a])"
  shows "dls (h(a := (h a)\<lparr>nxt := Some t\<rparr>, t := n\<lparr>prev := Some a, nxt := None\<rparr>))
           None p (as @ [a, t]) (Some t) None"
proof -
  have "a \<noteq> t" "a \<notin> set as" "t \<notin> set as" using assms(2,3) by auto
  then show ?thesis using assms(1) by auto
qed

lemma dls_unlink:
  assumes "dls h None p (as @ t # bs) lst None" "distinct (as @ t # bs)"
  shows "prev (h t) = (if as = [] then None else Some (last as))"
    and "nxt (h t) = (case bs of [] \<Rightarrow> None | b # _ \<Rightarrow> Some b)"
proof -
  from assms(1) obtain m q where m: "dls h None p as m q" and t: "dls h m q (t # bs) lst None"
    by (auto simp del: dls.simps)
  have "m = (if as = [] then None else Some (last as))"
    using m by (cases as rule: rev_cases) auto
  then show "prev (h t) = (if as = [] then None else Some (last as))" using t by simp
  show "nxt (h t) = (case bs of [] \<Rightarrow> None | b # _ \<Rightarrow> Some b)"
    using t by (cases bs) auto
qed

text \<open>What a list operation leaves alone: everything but the links.\<close>

definition same_payload :: "'c tmrs \<Rightarrow> 'c tmrs \<Rightarrow> bool" where
  "same_payload st st' \<longleftrightarrow> (\<forall>p. timer_proc (theap st' p) = timer_proc (theap st p)
     \<and> t_usecs (theap st' p) = t_usecs (theap st p)
     \<and> periodic (theap st' p) = periodic (theap st p)
     \<and> t_time (theap st' p) = t_time (theap st p))"

lemma same_payload_refl [simp]: "same_payload st st"
  by (simp add: same_payload_def)

lemma same_payload_trans: "same_payload a b \<Longrightarrow> same_payload b c \<Longrightarrow> same_payload a c"
  by (simp add: same_payload_def)

lemma same_payload_due: "same_payload st st' \<Longrightarrow> due st' = due st"
  by (simp add: same_payload_def due_def fun_eq_iff)

lemma upd_links [simp]:
  "timers (upd st p f) = timers st" "free_timers (upd st p f) = free_timers st"
  "theap (upd st p f) = (theap st)(p := f (theap st p))"
  by (simp_all add: upd_def)

lemma insert_due_Cons:
  "insert_due st t (x # xs) = (if due st x \<le> due st t then x # insert_due st t xs else t # x # xs)"
  by (simp add: insert_due_def)

lemma insert_due_Nil [simp]: "insert_due st t [] = [t]"
  by (simp add: insert_due_def)

lemma set_insert_due [simp]: "set (insert_due st t xs) = insert t (set xs)"
  by (induction xs) (auto simp: insert_due_Cons)

lemma distinct_insert_due [simp]:
  "t \<notin> set xs \<Longrightarrow> distinct (insert_due st t xs) = distinct xs"
  by (induction xs) (auto simp: insert_due_Cons)

lemma due_sorted_insert: "due_sorted st xs \<Longrightarrow> due_sorted st (insert_due st t xs)"
  by (induction xs) (auto simp: insert_due_Cons due_sorted_def)

lemma list_add_inside:
  assumes dls: "dls (theap st) None (timers st) (x # ys) lst None" and dist: "distinct (x # ys)"
    and t: "t \<notin> set (x # ys)" and le: "due st x \<le> due st t"
  shows "\<exists>st' lst'. list_add st t = Some st' \<and> timers st' = timers st
    \<and> free_timers st' = free_timers st \<and> same_payload st st'
    \<and> (\<forall>p. p \<notin> set (t # x # ys) \<longrightarrow> theap st' p = theap st p)
    \<and> dls (theap st') None (timers st') (insert_due st t (x # ys)) lst' None"
proof -
  let ?h = "theap st" and ?le = "\<lambda>q. due st q \<le> due st t"
  define A where "A = x # takeWhile ?le ys"
  define as where "as = butlast A"
  define a where "a = last A"
  define B where "B = dropWhile ?le ys"
  have A: "A = as @ [a]" by (simp add: as_def a_def A_def)
  have "x # ys = A @ B" and "insert_due st t (x # ys) = A @ t # B"
    using le by (simp_all add: insert_due_def A_def B_def)
  then have xys: "x # ys = as @ a # B" and ins: "insert_due st t (x # ys) = as @ a # t # B"
    by (simp_all add: A)
  have tm: "timers st = Some x" and tail: "dls ?h (Some x) (nxt (?h x)) ys lst None"
    using dls by simp_all
  have slot: "find_slot ?h (t_time (?h t)) x (nxt (?h x)) =
      Some (a, (case B of [] \<Rightarrow> None | b # _ \<Rightarrow> Some b))"
    using find_slot_walk [OF tail, of "t_time (?h t)" x] by (simp add: a_def A_def B_def due_def)
  have later: "\<not> iperf_time_compare (t_time (?h t)) (t_time (?h x)) < 0"
    using le by (simp add: compare_iffs due_def)
  have at: "a \<noteq> t" using t xys by auto
  show ?thesis
  proof (cases B)
    case Nil
    then have d: "dls ?h None (timers st) (as @ [a]) lst None" "distinct (as @ [a])" "t \<notin> set (as @ [a])"
      using dls dist t xys by auto
    have "\<forall>p. p \<notin> set (t # x # ys) \<longrightarrow> p \<notin> {a, t}" using xys Nil by auto
    then show ?thesis
      unfolding ins using Nil slot later tm at dls_link_last [OF d, of "?h t"] d
      by (auto simp: list_add_def same_payload_def)
  next
    case (Cons b bs)
    then have d: "dls ?h None (timers st) (as @ a # b # bs) lst None" "distinct (as @ a # b # bs)"
        "t \<notin> set (as @ a # b # bs)"
      using dls dist t xys by auto
    have "b \<noteq> a" "b \<noteq> t" using d by auto
    moreover have "\<forall>p. p \<notin> set (t # x # ys) \<longrightarrow> p \<notin> {a, t, b}" using xys Cons by auto
    ultimately show ?thesis
      unfolding ins using Cons slot later tm at dls_link_middle [OF d, of "?h t"]
      by (auto simp: list_add_def same_payload_def)
  qed
qed

lemma list_add_refines:
  assumes "timer_lists st xs fs" "t \<notin> set (xs @ fs)"
  shows "\<exists>st'. list_add st t = Some st' \<and> timer_lists st' (insert_due st t xs) fs
    \<and> same_payload st st'"
proof -
  obtain lst where dls: "dls (theap st) None (timers st) xs lst None"
    and sll: "sll (theap st) (free_timers st) fs" and dist: "distinct (xs @ fs)"
    using assms(1) by (auto simp: timer_lists_def)
  show ?thesis
  proof (cases xs)
    case Nil
    then show ?thesis
      using dls sll dist assms(2)
      by (simp add: list_add_def timer_lists_def insert_due_def same_payload_def)
  next
    case (Cons x ys)
    show ?thesis
    proof (cases "due st x \<le> due st t")
      case True
      have pre: "dls (theap st) None (timers st) (x # ys) lst None" "distinct (x # ys)"
          "t \<notin> set (x # ys)"
        using dls dist assms(2) Cons by auto
      from list_add_inside [OF pre True] obtain st' lst' where
        st': "list_add st t = Some st'" "free_timers st' = free_timers st" "same_payload st st'"
          "\<forall>p. p \<notin> set (t # x # ys) \<longrightarrow> theap st' p = theap st p"
          "dls (theap st') None (timers st') (insert_due st t (x # ys)) lst' None"
        by blast
      have "sll (theap st') (free_timers st) fs = sll (theap st) (free_timers st) fs"
        using dist assms(2) Cons st'(4) by (intro sll_frame) auto
      then show ?thesis
        using st' sll dist assms(2) Cons by (auto simp: timer_lists_def)
    next
      case False
      then have "iperf_time_compare (t_time (theap st t)) (t_time (theap st x)) < 0"
        by (simp add: compare_iffs due_def)
      moreover have "t \<noteq> x" "t \<notin> set ys" "x \<notin> set ys" "x \<notin> set fs" "t \<notin> set fs"
        using dist assms(2) Cons by auto
      ultimately show ?thesis
        using dls sll dist Cons False
        by (auto simp: list_add_def timer_lists_def insert_due_def same_payload_def)
    qed
  qed
qed

lemma list_remove_refines:
  assumes "timer_lists st xs fs" "t \<in> set xs"
  shows "timer_lists (list_remove st t) (remove1 t xs) fs \<and> same_payload st (list_remove st t)
    \<and> free_timers (list_remove st t) = free_timers st"
proof -
  obtain lst where dls: "dls (theap st) None (timers st) xs lst None"
    and sll: "sll (theap st) (free_timers st) fs" and dist: "distinct (xs @ fs)"
    using assms(1) by (auto simp: timer_lists_def)
  obtain as bs where xs: "xs = as @ t # bs" using assms(2) by (meson split_list)
  have d: "dls (theap st) None (timers st) (as @ t # bs) lst None" "distinct (as @ t # bs)"
    using dls dist xs by auto
  note links = dls_unlink [OF d]
  have r: "remove1 t xs = as @ bs" using d xs by (simp add: remove1_append)
  show ?thesis
  proof (cases as rule: rev_cases; cases bs)
    assume "as = []" "bs = []"
    then show ?thesis using links sll dist xs r
      by (auto simp: list_remove_def timer_lists_def same_payload_def)
  next
    fix b bs' assume "as = []" "bs = b # bs'"
    then show ?thesis using links sll dist xs r d
      by (auto simp: list_remove_def timer_lists_def same_payload_def)
  next
    fix as' a assume "as = as' @ [a]" "bs = []"
    then show ?thesis using links sll dist xs r d
      by (auto simp: list_remove_def timer_lists_def same_payload_def)
  next
    fix as' a b bs' assume "as = as' @ [a]" "bs = b # bs'"
    then show ?thesis using links sll dist xs r d
      by (auto simp: list_remove_def timer_lists_def same_payload_def)
  qed
qed

lemma list_resort_refines:
  assumes "timer_lists st xs fs" "t \<in> set xs"
  shows "\<exists>st'. list_resort st t = Some st' \<and> timer_lists st' (insert_due st t (remove1 t xs)) fs
    \<and> same_payload st st'"
proof -
  have rem: "timer_lists (list_remove st t) (remove1 t xs) fs" "same_payload st (list_remove st t)"
    using list_remove_refines [OF assms] by auto
  have "t \<notin> set (remove1 t xs @ fs)" using assms by (auto simp: timer_lists_def)
  from list_add_refines [OF rem(1) this] obtain st' where
    "list_add (list_remove st t) t = Some st'"
    "timer_lists st' (insert_due (list_remove st t) t (remove1 t xs)) fs"
    "same_payload (list_remove st t) st'" by auto
  then show ?thesis
    using same_payload_due [OF rem(2)] same_payload_trans [OF rem(2)]
    by (auto simp: list_resort_def insert_due_def)
qed

lemma tmr_cancel_refines:
  assumes "timer_lists st xs fs" "t \<in> set xs"
  shows "timer_lists (tmr_cancel st t) (remove1 t xs) (t # fs) \<and> same_payload st (tmr_cancel st t)"
proof -
  define st1 where "st1 = list_remove st t"
  have rem: "timer_lists st1 (remove1 t xs) fs" "same_payload st st1"
    using list_remove_refines [OF assms] by (auto simp: st1_def)
  have t: "t \<notin> set (remove1 t xs)" "t \<notin> set fs" using assms by (auto simp: timer_lists_def)
  then show ?thesis
    using rem by (auto simp: tmr_cancel_def st1_def [symmetric] Let_def timer_lists_def same_payload_def)
qed

text \<open>Setting fields other than the links keeps the structure.\<close>

lemma timer_lists_payload:
  assumes "timer_lists st xs fs" "\<And>n. prev (f n) = prev n \<and> nxt (f n) = nxt n"
  shows "timer_lists (upd st p f) xs fs"
proof -
  have "dls ((theap st)(p := f (theap st p))) a b xs c d = dls (theap st) a b xs c d" for a b c d
    using assms(2) by (intro dls_frame) auto
  moreover have "sll ((theap st)(p := f (theap st p))) a fs = sll (theap st) a fs" for a
    using assms(2) by (intro sll_frame) auto
  ultimately show ?thesis using assms(1) by (auto simp: timer_lists_def)
qed

lemma due_sorted_resort:
  assumes "due_sorted st (remove1 t xs)" "due st' = due st"
  shows "due_sorted st' (insert_due st t (remove1 t xs))"
  using due_sorted_insert [OF assms(1), of t] assms(2) by (simp add: due_sorted_def)

lemma due_sorted_remove1: "due_sorted st xs \<Longrightarrow> due_sorted st (remove1 t xs)"
  by (induction xs) (auto simp: due_sorted_def dest: notin_set_remove1)

text \<open>Moving the due time of \<open>t\<close> leaves the rest of the list sorted.\<close>

lemma due_sorted_moved:
  assumes "due_sorted st xs" "distinct xs" "\<And>p. p \<noteq> t \<Longrightarrow> due st' p = due st p"
  shows "due_sorted st' (remove1 t xs)"
proof -
  have "due_sorted st (remove1 t xs)" using assms(1) by (rule due_sorted_remove1)
  moreover have "\<forall>p \<in> set (remove1 t xs). due st' p = due st p" using assms(2,3) by auto
  ultimately show ?thesis
    by (auto simp: due_sorted_def elim!: sorted_wrt_mono_rel [rotated])
qed

text \<open>The public operations keep \<open>timers_ok\<close> and compute the expected lists.\<close>

lemma tmr_cancel_ok:
  assumes "timers_ok st xs fs" "t \<in> set xs"
  shows "timers_ok (tmr_cancel st t) (remove1 t xs) (t # fs)"
  using tmr_cancel_refines [of st xs fs t] assms due_sorted_remove1 [of st xs t]
  by (auto simp: timers_ok_def due_sorted_def same_payload_due)

lemma tmr_move_ok:
  assumes "timers_ok st xs fs" "t \<in> set xs"
    and "\<And>n. prev (f n) = prev n \<and> nxt (f n) = nxt n"
  shows "\<exists>st'. list_resort (upd st t f) t = Some st'
    \<and> timers_ok st' (insert_due (upd st t f) t (remove1 t xs)) fs
    \<and> due st' = (due st)(t := t_time (f (theap st t))) \<and> same_payload (upd st t f) st'"
proof -
  have l: "timer_lists (upd st t f) xs fs"
    using assms(1,3) by (intro timer_lists_payload) (auto simp: timers_ok_def)
  from list_resort_refines [OF this assms(2)] obtain st' where
    st': "list_resort (upd st t f) t = Some st'"
      "timer_lists st' (insert_due (upd st t f) t (remove1 t xs)) fs"
      "same_payload (upd st t f) st'" by blast
  have due: "due (upd st t f) = (due st)(t := t_time (f (theap st t)))"
    by (simp add: due_def fun_eq_iff)
  have "due_sorted (upd st t f) (remove1 t xs)"
    using assms(1) due by (intro due_sorted_moved [of st])
      (auto simp: timers_ok_def timer_lists_def)
  then have "due_sorted st' (insert_due (upd st t f) t (remove1 t xs))"
    using same_payload_due [OF st'(3)] by (rule due_sorted_resort)
  then show ?thesis
    using st' same_payload_due [OF st'(3)] due by (auto simp: timers_ok_def)
qed

lemma tmr_reset_ok:
  assumes "timers_ok st xs fs" "t \<in> set xs"
  shows "\<exists>st' ys. tmr_reset st clock nowP t = Some st' \<and> timers_ok st' ys fs
    \<and> set ys = set xs
    \<and> due st' = (due st)(t := iperf_time_add_usecs (getnow nowP clock) (t_usecs (theap st t)))
    \<and> (\<forall>q. timer_proc (theap st' q) = timer_proc (theap st q) \<and> periodic (theap st' q) = periodic (theap st q)
        \<and> t_usecs (theap st' q) = t_usecs (theap st q))"
proof -
  let ?f = "\<lambda>n. n\<lparr>t_time := iperf_time_add_usecs (getnow nowP clock) (t_usecs n)\<rparr>"
  from tmr_move_ok [OF assms, of ?f] obtain st' where
    "list_resort (upd st t ?f) t = Some st'"
    "timers_ok st' (insert_due (upd st t ?f) t (remove1 t xs)) fs"
    "due st' = (due st)(t := t_time (?f (theap st t)))" "same_payload (upd st t ?f) st'" by auto
  moreover have "insert t (set (remove1 t xs)) = set xs"
    using assms by (auto simp: timers_ok_def timer_lists_def)
  ultimately show ?thesis by (auto simp: tmr_reset_def same_payload_def)
qed

lemma tmr_create_ok:
  assumes "timers_ok st xs fs" "\<And>m. mem = Some m \<Longrightarrow> m \<notin> set (xs @ fs)"
    and "fs \<noteq> [] \<or> mem \<noteq> None"
  shows "\<exists>st' t fs'. tmr_create st mem clock nowP proc us per = Some (st', Some t)
    \<and> t \<notin> set xs \<and> timers_ok st' (insert_due st' t xs) fs'
    \<and> timer_proc (theap st' t) = proc \<and> periodic (theap st' t) = per
    \<and> due st' t = iperf_time_add_usecs (getnow nowP clock) us
    \<and> (\<forall>x \<in> set xs. due st' x = due st x) \<and> t_usecs (theap st' t) = us
    \<and> (\<forall>x \<in> set xs. timer_proc (theap st' x) = timer_proc (theap st x)
        \<and> periodic (theap st' x) = periodic (theap st x) \<and> t_usecs (theap st' x) = t_usecs (theap st x))"
proof -
  obtain t st1 fs' where got:
    "(case free_timers st of Some t \<Rightarrow> Some (t, st\<lparr>free_timers := nxt (theap st t)\<rparr>)
      | None \<Rightarrow> (case mem of Some t \<Rightarrow> Some (t, st) | None \<Rightarrow> None)) = Some (t, st1)"
    and l1: "timer_lists st1 xs fs'" and t: "t \<notin> set (xs @ fs')" and h1: "theap st1 = theap st"
  proof (cases fs)
    case Nil
    with assms(3) obtain m where m: "mem = Some m" by auto
    have "free_timers st = None" "m \<notin> set (xs @ fs)"
      using assms(1) assms(2) [OF m] Nil by (auto simp: timers_ok_def timer_lists_def)
    then show ?thesis
      using that [of m st fs] assms(1) m by (simp add: timers_ok_def)
  next
    case (Cons f fs')
    then show ?thesis
      using assms(1) that [of f "st\<lparr>free_timers := nxt (theap st f)\<rparr>" fs']
      by (auto simp: timers_ok_def timer_lists_def)
  qed
  define f :: "'a timer \<Rightarrow> 'a timer" where "f = (\<lambda>n. n\<lparr>timer_proc := proc, t_usecs := us, periodic := per,
      t_time := iperf_time_add_usecs (getnow nowP clock) us\<rparr>)"
  have "timer_lists (upd st1 t f) xs fs'"
    using l1 by (rule timer_lists_payload) (simp add: f_def)
  from list_add_refines [OF this t] obtain st' where
    st': "list_add (upd st1 t f) t = Some st'"
      "timer_lists st' (insert_due (upd st1 t f) t xs) fs'" "same_payload (upd st1 t f) st'" by blast
  note due = same_payload_due [OF st'(3)]
  have dd: "due st' = (due st)(t := iperf_time_add_usecs (getnow nowP clock) us)"
    by (simp add: due) (simp add: due_def fun_eq_iff h1 f_def)
  have "due_sorted st xs" "t \<notin> set xs" using assms(1) t by (simp_all add: timers_ok_def)
  then have "due_sorted st' xs"
    by (auto simp: due_sorted_def dd elim!: sorted_wrt_mono_rel [rotated])
  then have "due_sorted st' (insert_due st' t xs)" by (rule due_sorted_insert)
  moreover have "insert_due (upd st1 t f) t xs = insert_due st' t xs"
    by (simp add: insert_due_def due)
  moreover have "tmr_create st mem clock nowP proc us per = Some (st', Some t)"
    using got st'(1) by (simp add: tmr_create_def Let_def f_def)
  moreover have "timer_proc (theap st' t) = proc" "periodic (theap st' t) = per"
    using st'(3) by (simp_all add: same_payload_def f_def)
  moreover have "t_usecs (theap st' t) = us" using st'(3) by (simp add: same_payload_def f_def)
  moreover have "\<forall>x \<in> set xs. timer_proc (theap st' x) = timer_proc (theap st x)
      \<and> periodic (theap st' x) = periodic (theap st x) \<and> t_usecs (theap st' x) = t_usecs (theap st x)"
    using st'(3) \<open>t \<notin> set xs\<close> by (auto simp: same_payload_def h1)
  moreover have "\<forall>x \<in> set xs. due st' x = due st x" using dd \<open>t \<notin> set xs\<close> by auto
  ultimately show ?thesis
    using st'(2) dd \<open>t \<notin> set xs\<close> by (auto simp: timers_ok_def)
qed

lemma cancel_all_frees:
  assumes "timer_lists st xs fs"
  shows "\<exists>st'. cancel_all st = Some st' \<and> timer_lists st' [] (rev xs @ fs)"
  using assms
proof (induction xs arbitrary: st fs)
  case Nil
  then show ?case by (subst cancel_all.simps) (auto simp: timer_lists_def)
next
  case (Cons x xs)
  then have "timer_lists (tmr_cancel st x) xs (x # fs)"
    using tmr_cancel_refines [of st "x # xs" fs x] by simp
  from Cons.IH [OF this] obtain st' where
    "cancel_all (tmr_cancel st x) = Some st'" "timer_lists st' [] (rev xs @ x # fs)" by auto
  moreover have "timers st = Some x" using Cons.prems by (auto simp: timer_lists_def)
  ultimately show ?case by (subst cancel_all.simps) simp
qed

lemma next_in_list:
  assumes "timer_lists st xs fs" "p \<in> set xs" "nxt (theap st p) = Some q"
  shows "q \<in> set xs \<and> q \<noteq> p"
proof -
  obtain as bs where xs: "xs = as @ p # bs" using assms(2) by (meson split_list)
  obtain lst where "dls (theap st) None (timers st) (as @ p # bs) lst None" "distinct (as @ p # bs)"
    using assms(1) xs by (auto simp: timer_lists_def)
  from dls_unlink(2) [OF this] have "(case bs of [] \<Rightarrow> None | b # _ \<Rightarrow> Some b) = Some q"
    using assms(3) by simp
  then show ?thesis using xs assms(1) by (auto simp: timer_lists_def split: list.splits)
qed

section \<open>The interface of the timer list to its callbacks\<close>

text \<open>
  The arithmetic side conditions of the run loop: times are normalised, every period
  is at least a microsecond, and no due time computed from \<open>now\<close> wraps around the
  32-bit seconds.
\<close>

definition regular :: "iperf_time \<Rightarrow> 'c tmrs \<Rightarrow> nat list \<Rightarrow> bool" where
  "regular now st xs \<longleftrightarrow> normal_time now \<and> (\<forall>p \<in> set xs. normal_time (due st p)
     \<and> 0 < unat (t_usecs (theap st p))
     \<and> micros now + unat (t_usecs (theap st p)) < 4294967296000000)"

text \<open>
  The callbacks the loop tolerates: they may move timers (\<open>tmr_reset\<close>), but only past
  \<open>now\<close>, and neither create nor cancel any.
\<close>

locale retiming_callbacks =
  fixes fire :: "'c \<Rightarrow> iperf_time \<Rightarrow> 'c tmrs \<Rightarrow> 'w \<Rightarrow> ('c tmrs \<times> 'w) option"
    and ok :: "iperf_time \<Rightarrow> 'c tmrs \<Rightarrow> 'w \<Rightarrow> nat list \<Rightarrow> bool"
  assumes fire_retimes:
    "timers_ok st xs fs \<Longrightarrow> regular now st xs \<Longrightarrow> ok now st w xs \<Longrightarrow> p \<in> set xs \<Longrightarrow> due st p \<le> now \<Longrightarrow>
      \<exists>st' w' ys. fire (timer_proc (theap st p)) now st w = Some (st', w') \<and> timers_ok st' ys fs
        \<and> set ys = set xs \<and> regular now st' ys
        \<and> (\<forall>q. periodic (theap st' q) = periodic (theap st q))
        \<and> (\<forall>q. due st' q = due st q \<or> now < due st' q) \<and> due st' p = due st p
        \<and> ok now st' w' (if periodic (theap st p) then ys else remove1 p ys)"
    and ok_same: "ok now st w xs \<Longrightarrow> set xs = set ys \<Longrightarrow>
      (\<And>q. timer_proc (theap st' q) = timer_proc (theap st q) \<and> periodic (theap st' q) = periodic (theap st q)
        \<and> t_usecs (theap st' q) = t_usecs (theap st q) \<and> (due st' q = due st q \<or> periodic (theap st q))) \<Longrightarrow>
      ok now st' w ys"
begin

text \<open>Each pass of the loop uses up pending time.\<close>

definition pending :: "iperf_time \<Rightarrow> 'c tmrs \<Rightarrow> nat set \<Rightarrow> nat" where
  "pending now st X = (\<Sum>p \<in> X. micros now + 1 - micros (due st p))"

lemma pending_fire_le:
  assumes "\<forall>q. due st' q = due st q \<or> now < due st' q" "finite X" "normal_time now"
    and "\<forall>p \<in> X. normal_time (due st' p)"
  shows "pending now st' X \<le> pending now st X"
proof -
  have "micros now + 1 - micros (due st' p) \<le> micros now + 1 - micros (due st p)" if "p \<in> X" for p
    using assms that micros_less_iff [of now "due st' p"] by (cases "due st' p = due st p") auto
  then show ?thesis unfolding pending_def by (rule sum_mono)
qed

lemma pending_move_less:
  assumes "p \<in> X" "finite X" "due st' = (due st)(p := d)" "micros (due st p) < micros d"
    and "micros (due st p) \<le> micros now"
  shows "pending now st' X < pending now st X"
  unfolding pending_def
  using assms by (intro sum_strict_mono_ex1) auto

lemma pending_remove_less:
  assumes "p \<in> X" "finite X" "micros (due st p) \<le> micros now"
  shows "pending now st (X - {p}) < pending now st X"
  unfolding pending_def using assms by (simp add: sum.remove [of X p])

lemma reschedule:
  assumes "timers_ok st1 ys fs" "regular now st1 ys" "p \<in> set ys" "due st1 p \<le> now"
  shows "\<exists>st2 zs. list_resort (upd st1 p (\<lambda>n. n\<lparr>t_time := iperf_time_add_usecs (t_time n) (t_usecs n)\<rparr>)) p
      = Some st2 \<and> timers_ok st2 zs fs \<and> set zs = set ys \<and> regular now st2 zs
    \<and> pending now st2 (set zs) < pending now st1 (set ys)
    \<and> (\<forall>q. timer_proc (theap st2 q) = timer_proc (theap st1 q) \<and> periodic (theap st2 q) = periodic (theap st1 q)
      \<and> t_usecs (theap st2 q) = t_usecs (theap st1 q) \<and> (q = p \<or> due st2 q = due st1 q))"
proof -
  let ?f = "\<lambda>n. n\<lparr>t_time := iperf_time_add_usecs (t_time n) (t_usecs n)\<rparr> :: 'c timer"
  let ?d = "iperf_time_add_usecs (due st1 p) (t_usecs (theap st1 p))"
  from tmr_move_ok [OF assms(1,3), of ?f] obtain st2 where
    st2: "list_resort (upd st1 p ?f) p = Some st2"
      "timers_ok st2 (insert_due (upd st1 p ?f) p (remove1 p ys)) fs"
      "due st2 = (due st1)(p := ?d)" "same_payload (upd st1 p ?f) st2"
    by (auto simp: due_def)
  have sety: "set (insert_due (upd st1 p ?f) p (remove1 p ys)) = set ys"
    using assms(1,3) by (auto simp: timers_ok_def timer_lists_def)
  have us: "t_usecs (theap st2 q) = t_usecs (theap st1 q)" for q
    using st2(4) by (simp add: same_payload_def)
  have pay: "timer_proc (theap st2 q) = timer_proc (theap st1 q) \<and> periodic (theap st2 q) = periodic (theap st1 q)
      \<and> t_usecs (theap st2 q) = t_usecs (theap st1 q) \<and> (q = p \<or> due st2 q = due st1 q)" for q
    using st2(3,4) by (simp add: same_payload_def)
  have norm: "normal_time (due st1 p)" "0 < unat (t_usecs (theap st1 p))" "normal_time now"
    and room: "micros now + unat (t_usecs (theap st1 p)) < 4294967296000000"
    using assms(2,3) by (auto simp: regular_def)
  have le: "micros (due st1 p) \<le> micros now"
    using assms(4) micros_less_iff [OF norm(3) norm(1)] by (simp add: not_less [symmetric])
  have d: "normal_time ?d" "micros ?d = micros (due st1 p) + unat (t_usecs (theap st1 p))"
    using add_usecs_exact [OF norm(1)] le room by auto
  have "regular now st2 ys"
    using assms(2) d(1) by (auto simp: regular_def us st2(3))
  moreover have "pending now st2 (set ys) < pending now st1 (set ys)"
    using assms(3) st2(3) d(2) norm(2) le by (intro pending_move_less) auto
  ultimately show ?thesis
    using st2(1,2) sety pay by (intro exI [of _ st2] exI [of _ "insert_due (upd st1 p ?f) p (remove1 p ys)"])
      (simp add: regular_def)
qed

lemma retire:
  assumes "timers_ok st1 ys fs" "regular now st1 ys" "p \<in> set ys" "due st1 p \<le> now"
  shows "timers_ok (tmr_cancel st1 p) (remove1 p ys) (p # fs)
    \<and> regular now (tmr_cancel st1 p) (remove1 p ys) \<and> set (remove1 p ys) = set ys - {p}
    \<and> pending now (tmr_cancel st1 p) (set (remove1 p ys)) < pending now st1 (set ys)
    \<and> same_payload st1 (tmr_cancel st1 p)"
proof -
  have pay: "same_payload st1 (tmr_cancel st1 p)"
    using tmr_cancel_refines [of st1 ys fs p] assms(1,3) by (simp add: timers_ok_def)
  have set: "set (remove1 p ys) = set ys - {p}"
    using assms(1) by (auto simp: timers_ok_def timer_lists_def)
  have "regular now (tmr_cancel st1 p) (remove1 p ys)"
    using assms(2) pay set by (auto simp: regular_def same_payload_due) (auto simp: same_payload_def)
  moreover have "micros (due st1 p) \<le> micros now"
    using assms micros_less_iff [of now "due st1 p"] by (auto simp: regular_def not_less [symmetric])
  then have "pending now (tmr_cancel st1 p) (set ys - {p}) < pending now st1 (set ys)"
    using pending_remove_less [of p "set ys" st1 now] assms(3) same_payload_due [OF pay]
    by (simp add: pending_def)
  ultimately show ?thesis using tmr_cancel_ok [OF assms(1,3)] set pay by simp
qed

text \<open>One pass over a due timer: fire it, then reschedule or retire it.\<close>

lemma loop_step:
  assumes "timers_ok st xs fs" "regular now st xs" "ok now st w xs" "p \<in> set xs" "due st p \<le> now"
  shows "\<exists>st2 w1 zs gs. tmr_run_loop fire now (Some p) st w
      = tmr_run_loop fire now (nxt (theap st p)) st2 w1
    \<and> timers_ok st2 zs gs \<and> regular now st2 zs \<and> ok now st2 w1 zs \<and> set zs \<subseteq> set xs
    \<and> set zs \<union> set gs = set xs \<union> set fs
    \<and> (\<forall>q. nxt (theap st p) = Some q \<longrightarrow> q \<in> set zs)
    \<and> pending now st2 (set zs) < pending now st (set xs)"
proof -
  from fire_retimes [OF assms] obtain st1 w1 ys where
    fired: "fire (timer_proc (theap st p)) now st w = Some (st1, w1)" "timers_ok st1 ys fs"
      "set ys = set xs" "regular now st1 ys" "due st1 p = due st p"
    and per: "periodic (theap st1 p) = periodic (theap st p)"
    and moved: "\<forall>q. due st1 q = due st q \<or> now < due st1 q"
    and ok1: "ok now st1 w1 (if periodic (theap st p) then ys else remove1 p ys)" by blast
  have nextin: "\<forall>q. nxt (theap st p) = Some q \<longrightarrow> q \<in> set xs \<and> q \<noteq> p"
    using assms(1) unfolding timers_ok_def by (blast dest: next_in_list [OF _ assms(4)])
  have shrink: "pending now st1 (set ys) \<le> pending now st (set xs)"
    using pending_fire_le [OF moved] fired(3,4) by (simp add: regular_def)
  have py: "p \<in> set ys" "due st1 p \<le> now" using assms(4,5) fired by simp_all
  have notlater: "\<not> 0 < iperf_time_compare (t_time (theap st p)) now"
    using assms(5) by (simp add: compare_iffs due_def not_less)
  show ?thesis
  proof (cases "periodic (theap st p)")
    case True
    from reschedule [OF fired(2,4) py] obtain st2 zs where
      st2: "list_resort (upd st1 p (\<lambda>n. n\<lparr>t_time := iperf_time_add_usecs (t_time n) (t_usecs n)\<rparr>)) p
          = Some st2" "timers_ok st2 zs fs" "set zs = set ys" "regular now st2 zs"
        "pending now st2 (set zs) < pending now st1 (set ys)"
        "\<forall>q. timer_proc (theap st2 q) = timer_proc (theap st1 q) \<and> periodic (theap st2 q) = periodic (theap st1 q)
          \<and> t_usecs (theap st2 q) = t_usecs (theap st1 q) \<and> (q = p \<or> due st2 q = due st1 q)" by blast
    have ok2: "ok now st2 w1 zs"
      by (rule ok_same [of now st1 w1 ys]) (use ok1 True per st2(3,6) in auto)
    have "tmr_run_loop fire now (Some p) st w = tmr_run_loop fire now (nxt (theap st p)) st2 w1"
      using notlater fired(1) per True st2(1) by (subst tmr_run_loop.simps) simp
    then show ?thesis
      using st2 shrink nextin fired(3) ok2
      by (intro exI [of _ st2] exI [of _ w1] exI [of _ zs] exI [of _ fs]) simp
  next
    case False
    note gone = retire [OF fired(2,4) py]
    have "tmr_run_loop fire now (Some p) st w
        = tmr_run_loop fire now (nxt (theap st p)) (tmr_cancel st1 p) w1"
      using notlater fired(1) per False by (subst tmr_run_loop.simps) simp
    moreover have "ok now (tmr_cancel st1 p) w1 (remove1 p ys)"
      by (rule ok_same [of now st1 w1 "remove1 p ys"])
        (use ok1 False gone in \<open>simp_all add: same_payload_def due_def\<close>)
    ultimately show ?thesis
      using gone shrink nextin fired(3) assms(4)
      by (intro exI [of _ "tmr_cancel st1 p"] exI [of _ w1] exI [of _ "remove1 p ys"]
          exI [of _ "p # fs"]) auto
  qed
qed

text \<open>Total correctness of the loop: it ends, with the structure and its order intact.\<close>

lemma run_loop_total:
  assumes "timers_ok st xs fs" "regular now st xs" "ok now st w xs" "\<And>q. t = Some q \<Longrightarrow> q \<in> set xs"
  shows "\<exists>st' w' ys gs. tmr_run_loop fire now t st w = Some (st', w') \<and> timers_ok st' ys gs
    \<and> set ys \<subseteq> set xs \<and> set ys \<union> set gs = set xs \<union> set fs \<and> ok now st' w' ys
    \<and> regular now st' ys"
  using assms
proof (induction "pending now st (set xs)" arbitrary: st xs fs w t rule: less_induct)
  case less
  show ?case
  proof (cases "\<exists>p. t = Some p \<and> due st p \<le> now")
    case False
    then have "tmr_run_loop fire now t st w = Some (st, w)"
      by (subst tmr_run_loop.simps) (auto simp: compare_iffs due_def split: option.splits)
    then show ?thesis using less.prems by auto
  next
    case True
    then obtain p where t: "t = Some p" and p: "p \<in> set xs" "due st p \<le> now"
      using less.prems(4) by auto
    from loop_step [OF less.prems(1-3) p] obtain st2 w1 zs gs where
      step: "tmr_run_loop fire now (Some p) st w = tmr_run_loop fire now (nxt (theap st p)) st2 w1"
        "timers_ok st2 zs gs" "regular now st2 zs" "ok now st2 w1 zs" "set zs \<subseteq> set xs"
        "set zs \<union> set gs = set xs \<union> set fs" "\<forall>q. nxt (theap st p) = Some q \<longrightarrow> q \<in> set zs"
        "pending now st2 (set zs) < pending now st (set xs)" by blast
    from less.hyps [OF step(8,2,3,4), of "nxt (theap st p)"] step(7) obtain st' w' ys gs' where
      "tmr_run_loop fire now (nxt (theap st p)) st2 w1 = Some (st', w')" "timers_ok st' ys gs'"
      "set ys \<subseteq> set zs" "set ys \<union> set gs' = set zs \<union> set gs" "ok now st' w' ys" "regular now st' ys" by blast
    then show ?thesis using step(1,5,6) t by (intro exI conjI) auto
  qed
qed

text \<open>\<open>tmr_run\<close> starts at the head of the list.\<close>

lemma run_total:
  assumes "timers_ok st xs fs" "regular (getnow nowP clock) st xs" "ok (getnow nowP clock) st w xs"
  shows "\<exists>st' w' ys gs. tmr_run fire clock nowP st w = Some (st', w') \<and> timers_ok st' ys gs
    \<and> set ys \<subseteq> set xs \<and> set ys \<union> set gs = set xs \<union> set fs \<and> ok (getnow nowP clock) st' w' ys
    \<and> regular (getnow nowP clock) st' ys"
proof -
  have "q \<in> set xs" if "timers st = Some q" for q
    using assms(1) that by (cases xs) (auto simp: timers_ok_def timer_lists_def)
  then show ?thesis
    unfolding tmr_run_def using run_loop_total [OF assms] by blast
qed

end

section \<open>A run that does not end\<close>

text \<open>
  Two periodic timers of period 0 that are due at the same time feed each other: each is
  put back behind the other, and the saved \<open>next\<close> always points at the other one.
  Callbacks in \<open>P\<close> that leave the timers alone, as long as the world satisfies \<open>I\<close>.
\<close>

definition quiet_on :: "'c set \<Rightarrow> ('w \<Rightarrow> bool) \<Rightarrow>
    ('c \<Rightarrow> iperf_time \<Rightarrow> 'c tmrs \<Rightarrow> 'w \<Rightarrow> ('c tmrs \<times> 'w) option) \<Rightarrow> bool" where
  "quiet_on P I fire \<longleftrightarrow> (\<forall>proc \<in> P. \<forall>now st w. I w \<longrightarrow> (\<exists>w'. fire proc now st w = Some (st, w') \<and> I w'))"

definition zero_pair :: "'c set \<Rightarrow> iperf_time \<Rightarrow> 'c tmrs \<Rightarrow> nat \<Rightarrow> nat \<Rightarrow> bool" where
  "zero_pair P now st p q \<longleftrightarrow> timer_lists st [p, q] [] \<and> due st p = due st q \<and> due st p \<le> now
     \<and> normal_time (due st p) \<and> (\<forall>r \<in> {p, q}. periodic (theap st r) \<and> t_usecs (theap st r) = 0 \<and> timer_proc (theap st r) \<in> P)"

lemma add_usecs_0: "normal_time t \<Longrightarrow> iperf_time_add_usecs t 0 = t"
  by (cases t) (auto simp: iperf_time_add_usecs_def normal_time_def Let_def ucast_back
      simp flip: not_less)

lemma zero_pair_step:
  assumes "zero_pair P now st p q"
  shows "\<exists>st'. list_resort (upd st p (\<lambda>n. n\<lparr>t_time := iperf_time_add_usecs (t_time n) (t_usecs n)\<rparr>)) p
      = Some st' \<and> zero_pair P now st' q p"
    and "timers st = Some p" "nxt (theap st p) = Some q"
proof -
  let ?f = "\<lambda>n. n\<lparr>t_time := iperf_time_add_usecs (t_time n) (t_usecs n)\<rparr> :: 'a timer"
  have "iperf_time_add_usecs (t_time (theap st p)) (t_usecs (theap st p)) = t_time (theap st p)"
    using assms add_usecs_0 [of "due st p"] by (auto simp: zero_pair_def due_def)
  then have "?f (theap st p) = theap st p" by simp
  then have id: "upd st p ?f = st" by (simp add: upd_def)
  have "p \<noteq> q" and tl: "timer_lists st [p, q] []" using assms by (auto simp: zero_pair_def timer_lists_def)
  from list_resort_refines [OF tl, of p] obtain st' where
    st': "list_resort st p = Some st'" "timer_lists st' (insert_due st p [q]) []" "same_payload st st'"
    by auto
  have "insert_due st p [q] = [q, p]" using assms by (simp add: insert_due_def zero_pair_def)
  then have "zero_pair P now st' q p"
    using st'(2,3) assms same_payload_due [OF st'(3)] by (auto simp: zero_pair_def same_payload_def)
  then show "\<exists>st'. list_resort (upd st p ?f) p = Some st' \<and> zero_pair P now st' q p"
    using st'(1) id by auto
  show "timers st = Some p" "nxt (theap st p) = Some q" using tl by (auto simp: timer_lists_def)
qed

lemma zero_pair_loops:
  assumes "tmr_run_loop fire now t st w = Some r"
  shows "quiet_on P I fire \<and> I w \<longrightarrow> \<not> (\<exists>p q. t = Some p \<and> zero_pair P now st p q)"
proof (rule tmr_run_loop.raw_induct [where P = "\<lambda>fire now t st w r. quiet_on P I fire \<and> I w \<longrightarrow>
    \<not> (\<exists>p q. t = Some p \<and> zero_pair P now st p q)", OF _ assms], rule impI, rule notI)
  fix loop fire now t st w r
  assume IH: "\<And>fire now t st w r. loop fire now t st w = Some r \<Longrightarrow>
      quiet_on P I fire \<and> I w \<longrightarrow> \<not> (\<exists>p q. t = Some p \<and> zero_pair P now st p q)"
    and eq: "(case t of None \<Rightarrow> Some (st, w) | Some p \<Rightarrow>
        if iperf_time_compare (t_time (theap st p)) now > 0 then Some (st, w)
        else (case fire (timer_proc (theap st p)) now st w of None \<Rightarrow> None
          | Some (st1, w1) \<Rightarrow>
            if periodic (theap st1 p) then
              (case list_resort (upd st1 p (\<lambda>n. n\<lparr>t_time :=
                  iperf_time_add_usecs (t_time n) (t_usecs n)\<rparr>)) p of None \<Rightarrow> None
               | Some st2 \<Rightarrow> loop fire now (nxt (theap st p)) st2 w1)
            else loop fire now (nxt (theap st p)) (tmr_cancel st1 p) w1)) = Some r"
    and q: "quiet_on P I fire \<and> I w" and bad: "\<exists>p q. t = Some p \<and> zero_pair P now st p q"
  from bad obtain p q where t: "t = Some p" and z: "zero_pair P now st p q" by blast
  from zero_pair_step [OF z] obtain st' where
    st': "list_resort (upd st p (\<lambda>n. n\<lparr>t_time := iperf_time_add_usecs (t_time n) (t_usecs n)\<rparr>)) p = Some st'"
      "zero_pair P now st' q p" and nx: "nxt (theap st p) = Some q" by auto
  have "timer_proc (theap st p) \<in> P" using z by (simp add: zero_pair_def)
  then obtain w1 where w1: "fire (timer_proc (theap st p)) now st w = Some (st, w1)" "I w1"
    using q unfolding quiet_on_def by blast
  have "\<not> iperf_time_compare (t_time (theap st p)) now > 0" "periodic (theap st p)"
    using z by (auto simp: zero_pair_def due_def compare_iffs)
  then have "loop fire now (Some q) st' w1 = Some r"
    using eq t w1(1) st'(1) nx by simp
  then show False using IH st'(2) q w1(2) by blast
qed

end
