(* ===== verification/Float64.thy ===== *)
theory Float64
  imports Prelude "HOL-Library.Log_Nat"
begin

text \<open>
  The C type \<open>double\<close>: IEEE binary64 numbers as rationals, with the rounding of every
  operation written out (round to nearest, ties to even, gradual underflow). The
  quantities of the program are far below the overflow threshold, which is not
  modelled. An interface \<open>rounding\<close> states what the rate control relies on.
\<close>

section \<open>Rounding\<close>

definition round_half_even :: "rat \<Rightarrow> int" where
  "round_half_even x = (let f = \<lfloor>x\<rfloor>; d = x - of_int f in
     if d < 1/2 then f else if d > 1/2 then f + 1 else if even f then f else f + 1)"

text \<open>The exponent \<open>e\<close> with \<open>2 ^ e \<le> x < 2 ^ (e + 1)\<close>.\<close>

definition pow2 :: "int \<Rightarrow> rat" where
  "pow2 e = (if 0 \<le> e then 2 ^ nat e else 1 / 2 ^ nat (- e))"

definition expo :: "rat \<Rightarrow> int" where
  "expo x = (case quotient_of x of (a, b) \<Rightarrow>
     let k = int (floorlog 2 (nat a)) - int (floorlog 2 (nat b)) in
     if pow2 k \<le> x then k else k - 1)"

definition f64_pos :: "rat \<Rightarrow> rat" where
  "f64_pos x = (let e = max (expo x - 52) (- 1074) in of_int (round_half_even (x / pow2 e)) * pow2 e)"

definition f64 :: "rat \<Rightarrow> rat" where
  "f64 x = (if x = 0 then 0 else if x < 0 then - f64_pos (- x) else f64_pos x)"

section \<open>Rounding to the nearest integer\<close>

lemma round_half_even_mono: "x \<le> y \<Longrightarrow> round_half_even x \<le> round_half_even y"
proof -
  assume le: "x \<le> y"
  consider "\<lfloor>x\<rfloor> < \<lfloor>y\<rfloor>" | "\<lfloor>x\<rfloor> = \<lfloor>y\<rfloor>" using floor_mono [OF le] by linarith
  then show ?thesis
  proof cases
    case 1
    then show ?thesis by (auto simp: round_half_even_def Let_def)
  next
    case 2
    then show ?thesis using le by (auto simp: round_half_even_def Let_def)
  qed
qed

lemma round_half_even_int [simp]: "round_half_even (of_int n) = n"
  by (simp add: round_half_even_def)

lemma round_half_even_le: "x \<le> of_int n \<Longrightarrow> round_half_even x \<le> n"
  using round_half_even_mono [of x "of_int n"] by simp

lemma round_half_even_ge: "of_int n \<le> x \<Longrightarrow> n \<le> round_half_even x"
  using round_half_even_mono [of "of_int n" x] by simp

section \<open>Powers of two\<close>

lemma pow2_pos [simp]: "0 < pow2 e" by (simp add: pow2_def)

lemma pow2_nonzero [simp]: "pow2 e \<noteq> 0" using pow2_pos [of e] by linarith

lemma pow2_Suc: "pow2 (e + 1) = 2 * pow2 e"
proof (cases "0 \<le> e")
  case True
  then show ?thesis by (simp add: pow2_def nat_add_distrib)
next
  case False
  then have "nat (- e) = Suc (nat (- e - 1))" by linarith
  with False show ?thesis by (auto simp: pow2_def)
qed

lemma pow2_add_nat: "pow2 (e + int n) = pow2 e * 2 ^ n"
proof (induction n)
  case (Suc n)
  have "pow2 (e + int (Suc n)) = pow2 ((e + int n) + 1)" by (simp add: algebra_simps)
  then show ?case using Suc by (simp add: pow2_Suc)
qed simp

lemma pow2_add: "pow2 (a + b) = pow2 a * pow2 b"
proof (cases "0 \<le> b")
  case True
  then show ?thesis using pow2_add_nat [of a "nat b"] by (simp add: pow2_def)
next
  case False
  then have "pow2 a = pow2 (a + b) * 2 ^ nat (- b)" using pow2_add_nat [of "a + b" "nat (- b)"] by simp
  with False show ?thesis by (simp add: pow2_def)
qed

lemma pow2_mono: "a \<le> b \<Longrightarrow> pow2 a \<le> pow2 b"
  using pow2_add_nat [of a "nat (b - a)"] pow2_pos [of a]
    mult_left_mono [of 1 "2 ^ nat (b - a)" "pow2 a"] by simp

lemma pow2_diff: "pow2 (a - b) = pow2 a / pow2 b"
  using pow2_add [of "a - b" b] by (simp add: field_simps)

lemma pow2_int: "0 \<le> e \<Longrightarrow> pow2 e = of_int (2 ^ nat e)"
  by (simp add: pow2_def)

section \<open>The exponent\<close>

lemma floorlog_bounds_int:
  assumes "0 < a"
  shows "pow2 (int (floorlog 2 (nat a)) - 1) \<le> of_int a" "of_int a < pow2 (int (floorlog 2 (nat a)))"
proof -
  have b: "2 ^ (floorlog 2 (nat a) - 1) \<le> nat a \<and> nat a < 2 ^ floorlog 2 (nat a)"
    using floorlog_bounds [of "nat a" 2] assms by simp
  have pos: "0 < floorlog 2 (nat a)" using assms by (simp add: floorlog_def)
  have "int (2 ^ (floorlog 2 (nat a) - 1)) \<le> a" "a < int (2 ^ floorlog 2 (nat a))"
    using b assms by (simp_all add: nat_less_iff le_nat_iff)
  then have "(of_int (2 ^ (floorlog 2 (nat a) - 1)) :: rat) \<le> of_int a"
    "(of_int a :: rat) < of_int (2 ^ floorlog 2 (nat a))"
    unfolding of_int_le_iff of_int_less_iff by simp_all
  then show "pow2 (int (floorlog 2 (nat a)) - 1) \<le> of_int a" "of_int a < pow2 (int (floorlog 2 (nat a)))"
    using pos by (simp_all add: pow2_def nat_diff_distrib')
qed

lemma expo_bounds:
  assumes "0 < x"
  shows "pow2 (expo x) \<le> x" "x < pow2 (expo x + 1)"
proof -
  obtain a b where q: "quotient_of x = (a, b)" by (cases "quotient_of x")
  have b: "0 < b" using quotient_of_denom_pos [OF q] .
  have x: "x = of_int a / of_int b" using quotient_of_div [OF q] .
  have a: "0 < a" using assms b by (simp add: x zero_less_divide_iff)
  define k where "k = int (floorlog 2 (nat a)) - int (floorlog 2 (nat b))"
  note fa = floorlog_bounds_int [OF a] and fb = floorlog_bounds_int [OF b]
  have "x < pow2 (int (floorlog 2 (nat a))) / pow2 (int (floorlog 2 (nat b)) - 1)"
    unfolding x using fa(2) fb(1) b by (intro frac_less) (auto simp: less_imp_le a)
  also have "\<dots> = pow2 (k + 1)" by (simp add: k_def pow2_diff [symmetric] algebra_simps)
  finally have hi: "x < pow2 (k + 1)" .
  have "pow2 (int (floorlog 2 (nat a)) - 1) / pow2 (int (floorlog 2 (nat b))) < x"
    unfolding x using fa(1) fb(2) b by (intro frac_less2) (auto simp: less_imp_le)
  also have "pow2 (int (floorlog 2 (nat a)) - 1) / pow2 (int (floorlog 2 (nat b))) = pow2 (k - 1)"
    by (simp add: k_def pow2_diff [symmetric] algebra_simps)
  finally have lo: "pow2 (k - 1) < x" .
  have e: "expo x = (if pow2 k \<le> x then k else k - 1)" by (simp add: expo_def q k_def Let_def)
  show "pow2 (expo x) \<le> x" using lo by (simp add: e)
  show "x < pow2 (expo x + 1)" using hi by (simp add: e not_le)
qed

lemma expo_mono:
  assumes "0 < x" "x \<le> y"
  shows "expo x \<le> expo y"
proof (rule ccontr)
  assume "\<not> ?thesis"
  then have "pow2 (expo y + 1) \<le> pow2 (expo x)" by (intro pow2_mono) simp
  then show False using expo_bounds [of x] expo_bounds [of y] assms by linarith
qed

section \<open>The laws of rounding\<close>

lemma f64_pos_same_grid_mono:
  assumes "0 < x" "x \<le> y" "max (expo x - 52) (- 1074) = max (expo y - 52) (- 1074)"
  shows "f64_pos x \<le> f64_pos y"
proof -
  define e where "e = max (expo x - 52) (- 1074)"
  have "x / pow2 e \<le> y / pow2 e" by (rule divide_right_mono [OF assms(2)]) (simp add: less_imp_le)
  then have "(of_int (round_half_even (x / pow2 e)) :: rat) \<le> of_int (round_half_even (y / pow2 e))"
    unfolding of_int_le_iff by (rule round_half_even_mono)
  then have "of_int (round_half_even (x / pow2 e)) * pow2 e \<le> of_int (round_half_even (y / pow2 e)) * pow2 e"
    by (rule mult_right_mono) (simp add: less_imp_le)
  then show ?thesis using assms(3) by (simp add: f64_pos_def Let_def e_def)
qed

lemma f64_pos_upper:
  assumes "0 < x" "- 1022 \<le> expo x"
  shows "f64_pos x \<le> pow2 (expo x + 1)"
proof -
  define e where "e = expo x - 52"
  have g: "max (expo x - 52) (- 1074) = e" using assms by (simp add: e_def)
  have p: "pow2 (expo x + 1) = of_int (2 ^ 53) * pow2 e"
    using pow2_add_nat [of e 53] by (simp add: e_def algebra_simps)
  have "x / pow2 e \<le> of_int (2 ^ 53)"
    using expo_bounds(2) [OF assms(1)] p by (simp add: divide_le_eq less_imp_le)
  then have "(of_int (round_half_even (x / pow2 e)) :: rat) \<le> of_int (2 ^ 53)"
    unfolding of_int_le_iff by (rule round_half_even_le)
  then have "of_int (round_half_even (x / pow2 e)) * pow2 e \<le> of_int (2 ^ 53) * pow2 e"
    by (rule mult_right_mono) (simp add: less_imp_le)
  then show ?thesis by (simp only: f64_pos_def Let_def g p)
qed

lemma f64_pos_lower:
  assumes "0 < x" "- 1022 \<le> expo x"
  shows "pow2 (expo x) \<le> f64_pos x"
proof -
  define e where "e = expo x - 52"
  have g: "max (expo x - 52) (- 1074) = e" using assms by (simp add: e_def)
  have p: "pow2 (expo x) = of_int (2 ^ 52) * pow2 e"
    using pow2_add_nat [of e 52] by (simp add: e_def algebra_simps)
  have "of_int (2 ^ 52) \<le> x / pow2 e"
    using expo_bounds(1) [OF assms(1)] p by (simp add: le_divide_eq)
  then have "(of_int (2 ^ 52) :: rat) \<le> of_int (round_half_even (x / pow2 e))"
    unfolding of_int_le_iff by (rule round_half_even_ge)
  then have "of_int (2 ^ 52) * pow2 e \<le> of_int (round_half_even (x / pow2 e)) * pow2 e"
    by (rule mult_right_mono) (simp add: less_imp_le)
  then show ?thesis by (simp only: f64_pos_def Let_def g p)
qed

lemma f64_pos_mono:
  assumes "0 < x" "x \<le> y"
  shows "f64_pos x \<le> f64_pos y"
proof (cases "max (expo x - 52) (- 1074) = max (expo y - 52) (- 1074)")
  case True
  then show ?thesis by (rule f64_pos_same_grid_mono [OF assms])
next
  case False
  then have y: "- 1022 < expo y" "expo x < expo y" using expo_mono [OF assms] by linarith+
  have up: "f64_pos y \<ge> pow2 (expo y)" using f64_pos_lower [of y] assms y by simp
  show ?thesis
  proof (cases "- 1022 \<le> expo x")
    case True
    have "pow2 (expo x + 1) \<le> pow2 (expo y)" using y by (intro pow2_mono) simp
    then show ?thesis using f64_pos_upper [OF assms(1) True] up by linarith
  next
    case False
    have e: "max (expo x - 52) (- 1074) = - 1074" using False by simp
    have "x < pow2 (- 1022)"
      using expo_bounds(2) [OF assms(1)] pow2_mono [of "expo x + 1" "- 1022"] False by simp
    moreover have p: "pow2 (- 1022) = of_int (2 ^ 52) * pow2 (- 1074)"
      using pow2_add_nat [of "- 1074" 52] by simp
    ultimately have "x / pow2 (- 1074) \<le> of_int (2 ^ 52)" by (simp add: divide_le_eq less_imp_le)
    then have "(of_int (round_half_even (x / pow2 (- 1074))) :: rat) \<le> of_int (2 ^ 52)"
      unfolding of_int_le_iff by (rule round_half_even_le)
    then have "f64_pos x \<le> of_int (2 ^ 52) * pow2 (- 1074)"
      unfolding f64_pos_def Let_def e by (rule mult_right_mono) (simp add: less_imp_le)
    also have "\<dots> \<le> pow2 (expo y)" unfolding p [symmetric] using y by (intro pow2_mono) simp
    finally show ?thesis using up by linarith
  qed
qed

lemma f64_pos_nonneg: "0 < x \<Longrightarrow> 0 \<le> f64_pos x"
  using round_half_even_ge [of 0 "x / pow2 (max (expo x - 52) (- 1074))"]
  by (simp add: f64_pos_def Let_def less_imp_le)

lemma f64_mono: "x \<le> y \<Longrightarrow> f64 x \<le> f64 y"
  using f64_pos_mono [of x y] f64_pos_mono [of "- y" "- x"] f64_pos_nonneg [of "- x"] f64_pos_nonneg [of y]
  by (auto simp: f64_def)

lemma f64_zero [simp]: "f64 0 = 0" by (simp add: f64_def)

lemma f64_neg: "f64 (- x) = - f64 x" by (auto simp: f64_def)

lemma f64_nonneg: "0 \<le> x \<Longrightarrow> 0 \<le> f64 x" using f64_mono [of 0 x] by simp

text \<open>Integers of at most 53 bits are numbers of the format.\<close>

lemma f64_pos_int:
  assumes "0 < n" "n \<le> 2 ^ 53"
  shows "f64_pos (of_int n) = of_int n"
proof -
  have x: "(0 :: rat) < of_int n" using assms by simp
  have "0 \<le> expo (of_int n)"
  proof (rule ccontr)
    assume "\<not> ?thesis"
    then have "pow2 (expo (of_int n) + 1) \<le> pow2 0" by (intro pow2_mono) simp
    moreover have "(1 :: rat) \<le> of_int n" using assms by simp
    ultimately show False using expo_bounds(2) [OF x] by (simp add: pow2_def)
  qed
  then have g: "max (expo (of_int n) - 52) (- 1074) = expo (of_int n) - 52" by simp
  have le: "expo (of_int n :: rat) \<le> 53"
  proof (rule ccontr)
    assume "\<not> ?thesis"
    then have "pow2 54 \<le> pow2 (expo (of_int n))" by (intro pow2_mono) simp
    moreover have "pow2 54 = of_int (2 ^ 54)" by (simp add: pow2_def)
    moreover have "(of_int n :: rat) \<le> of_int (2 ^ 53)" using assms(2) unfolding of_int_le_iff .
    ultimately show False using expo_bounds(1) [OF x] by simp
  qed
  show ?thesis
  proof (cases "expo (of_int n :: rat) = 53")
    case True
    have "(of_int (2 ^ 53) :: rat) \<le> of_int n"
      using expo_bounds(1) [OF x] by (simp add: True pow2_def)
    then have n: "n = 2 ^ 53" using assms(2) unfolding of_int_le_iff by simp
    have "f64_pos (of_int n) = of_int (round_half_even (of_int n / pow2 1)) * pow2 1"
      by (simp add: f64_pos_def Let_def True)
    also have "(of_int n :: rat) / pow2 1 = of_int (2 ^ 52)" by (simp add: n pow2_def)
    finally show ?thesis by (simp only: round_half_even_int) (simp add: n pow2_def)
  next
    case False
    define k where "k = nat (52 - expo (of_int n :: rat))"
    have e: "expo (of_int n :: rat) - 52 = - int k" using False le by (simp add: k_def)
    have p: "pow2 (- int k) = 1 / of_int (2 ^ k)" by (simp add: pow2_def)
    have "(of_int n :: rat) / pow2 (- int k) = of_int (n * 2 ^ k)" by (simp add: p)
    then show ?thesis
      unfolding f64_pos_def Let_def g unfolding e by (simp only: round_half_even_int) (simp add: p)
  qed
qed

lemma f64_int: "\<bar>n\<bar> \<le> 2 ^ 53 \<Longrightarrow> f64 (of_int n) = of_int n"
  using f64_pos_int [of n] f64_pos_int [of "- n"] by (auto simp: f64_def)

lemma f64_nat: "n \<le> 2 ^ 53 \<Longrightarrow> f64 (of_nat n) = of_nat n"
  using f64_int [of "int n"] by simp

text \<open>More generally, a 53-bit integer times a power of two is a number of the format.\<close>

lemma f64_pos_grid:
  assumes "0 < m" "m \<le> 2 ^ 53" "- 1074 \<le> e"
  shows "f64_pos (of_int m * pow2 e) = of_int m * pow2 e"
proof -
  define x where "x = (of_int m * pow2 e :: rat)"
  have x: "0 < x" using assms(1) by (simp add: x_def)
  have "x \<le> of_int (2 ^ 53) * pow2 e"
    unfolding x_def using assms(2) by (intro mult_right_mono) (simp_all add: less_imp_le del: of_int_power)
  also have "\<dots> = pow2 (e + 53)" using pow2_add_nat [of e 53] by simp
  finally have up: "x \<le> pow2 (e + 53)" .
  have le: "expo x \<le> e + 53"
  proof (rule ccontr)
    assume "\<not> ?thesis"
    then have "pow2 (e + 54) \<le> pow2 (expo x)" by (intro pow2_mono) simp
    moreover have "pow2 (e + 54) = 2 * pow2 (e + 53)" using pow2_Suc [of "e + 53"] by (simp add: add.assoc)
    ultimately show False using expo_bounds(1) [OF x] up x by linarith
  qed
  define g where "g = max (expo x - 52) (- 1074)"
  have exact: "f64_pos x = x" if "x / pow2 g = of_int k" for k
  proof -
    have "x = of_int k * pow2 g" using that by (simp add: field_simps)
    then show ?thesis unfolding f64_pos_def Let_def g_def [symmetric] that by simp
  qed
  have "g \<le> e \<or> (expo x = e + 53 \<and> g = e + 1)"
    using le assms(3) unfolding g_def by linarith
  then consider "g \<le> e" | "expo x = e + 53" "g = e + 1" by blast
  then show ?thesis unfolding x_def [symmetric]
  proof cases
    case 1
    have "pow2 e = pow2 g * 2 ^ nat (e - g)" using pow2_add_nat [of g "nat (e - g)"] 1 by simp
    then have "x / pow2 g = of_int (m * 2 ^ nat (e - g))" by (simp add: x_def)
    then show "f64_pos x = x" by (rule exact)
  next
    case 2
    have "x = pow2 (e + 53)" using expo_bounds(1) [OF x] up 2 by simp
    also have "pow2 (e + 53) = pow2 (e + 1) * 2 ^ 52" using pow2_add_nat [of "e + 1" 52] by (simp add: add.assoc)
    finally have "x / pow2 g = of_int (2 ^ 52)" using 2 by simp
    then show "f64_pos x = x" by (rule exact)
  qed
qed

lemma f64_pos_on_grid:
  assumes "0 < x"
  shows "\<exists>m e. f64_pos x = of_int m * pow2 e \<and> 0 \<le> m \<and> m \<le> 2 ^ 53 \<and> - 1074 \<le> e"
proof -
  define e where "e = max (expo x - 52) (- 1074)"
  have "pow2 (expo x + 1) \<le> pow2 (e + 53)" by (rule pow2_mono) (simp add: e_def)
  then have "x \<le> of_int (2 ^ 53) * pow2 e"
    using expo_bounds(2) [OF assms] pow2_add_nat [of e 53] by simp
  then have "x / pow2 e \<le> of_int (2 ^ 53)" by (simp add: divide_le_eq)
  then have "round_half_even (x / pow2 e) \<le> 2 ^ 53" by (rule round_half_even_le)
  moreover have "0 \<le> round_half_even (x / pow2 e)"
    using round_half_even_ge [of 0 "x / pow2 e"] assms by (simp add: less_imp_le)
  ultimately show ?thesis
    unfolding f64_pos_def Let_def e_def [symmetric] by (intro exI conjI) (auto simp: e_def)
qed

lemma f64_pos_idem: "0 < x \<Longrightarrow> f64 (f64_pos x) = f64_pos x"
proof -
  assume "0 < x"
  from f64_pos_on_grid [OF this] obtain m e where
    m: "f64_pos x = of_int m * pow2 e" "0 \<le> m" "m \<le> 2 ^ 53" "- 1074 \<le> e" by blast
  show ?thesis
  proof (cases "m = 0")
    case True
    then show ?thesis by (simp add: m(1))
  next
    case False
    then have "0 < m" using m(2) by simp
    moreover then have "\<not> of_int m * pow2 e < (0 :: rat)" "of_int m * pow2 e \<noteq> (0 :: rat)"
      by (auto simp: not_less mult_nonneg_nonneg less_imp_le)
    ultimately show ?thesis
      unfolding m(1) f64_def using f64_pos_grid [OF _ m(3,4)] by auto
  qed
qed

text \<open>\<open>is_double x\<close>: \<open>x\<close> is a number of the format. Every result of an operation is.\<close>

definition is_double :: "rat \<Rightarrow> bool" where
  "is_double x \<longleftrightarrow> f64 x = x"

lemma is_double_f64 [simp]: "is_double (f64 x)"
  using f64_pos_idem [of x] f64_pos_idem [of "- x"] f64_neg [of "f64_pos (- x)"]
  by (auto simp: is_double_def f64_def [of x])

lemma is_double_0 [simp]: "is_double 0" by (simp add: is_double_def)

lemma is_double_neg: "is_double x \<Longrightarrow> is_double (- x)"
  by (simp add: is_double_def f64_neg)

lemma f64_le_double: "x \<le> y \<Longrightarrow> is_double y \<Longrightarrow> f64 x \<le> y"
  using f64_mono [of x y] by (simp add: is_double_def)

lemma f64_ge_double: "y \<le> x \<Longrightarrow> is_double y \<Longrightarrow> y \<le> f64 x"
  using f64_mono [of y x] by (simp add: is_double_def)

text \<open>Rounding at most doubles.\<close>

lemma round_half_even_double: "0 \<le> y \<Longrightarrow> of_int (round_half_even y) \<le> 2 * y"
proof -
  assume y: "0 \<le> y"
  have f: "of_int \<lfloor>y\<rfloor> \<le> y" by simp
  have "0 \<le> (of_int \<lfloor>y\<rfloor> :: rat)" using y by simp
  moreover have "of_int (round_half_even y) \<le> (of_int \<lfloor>y\<rfloor> :: rat) + 1 \<and>
      (of_int (round_half_even y) = (of_int \<lfloor>y\<rfloor> :: rat) \<or> 1 / 2 \<le> y - of_int \<lfloor>y\<rfloor>)"
    by (auto simp: round_half_even_def Let_def)
  ultimately show ?thesis using f y by linarith
qed

lemma f64_le_twice: "0 \<le> x \<Longrightarrow> f64 x \<le> 2 * x"
proof -
  assume "0 \<le> x"
  moreover have "f64_pos x \<le> 2 * x" if "0 < x"
  proof -
    define e where "e = max (expo x - 52) (- 1074)"
    have "of_int (round_half_even (x / pow2 e)) * pow2 e \<le> 2 * (x / pow2 e) * pow2 e"
      using that by (intro mult_right_mono round_half_even_double) (simp_all add: less_imp_le)
    then show ?thesis by (simp add: f64_pos_def Let_def e_def)
  qed
  ultimately show ?thesis by (auto simp: f64_def)
qed

section \<open>What clients of the arithmetic rely on\<close>

locale rounding =
  fixes rnd :: "rat \<Rightarrow> rat"
  assumes rnd_mono: "x \<le> y \<Longrightarrow> rnd x \<le> rnd y"
    and rnd_nat: "n \<le> 2 ^ 53 \<Longrightarrow> rnd (of_nat n) = of_nat n"
begin

lemma rnd_ge_nat: "n \<le> 2 ^ 53 \<Longrightarrow> of_nat n \<le> x \<Longrightarrow> of_nat n \<le> rnd x"
  using rnd_mono [of "of_nat n" x] rnd_nat [of n] by simp

lemma rnd_le_nat: "n \<le> 2 ^ 53 \<Longrightarrow> x \<le> of_nat n \<Longrightarrow> rnd x \<le> of_nat n"
  using rnd_mono [of x "of_nat n"] rnd_nat [of n] by simp

text \<open>A whole-number threshold that the exact quotient reaches is reached by the rounded one.\<close>

lemma rounded_reaches:
  assumes "n \<le> 2 ^ 53" "of_nat n \<le> a / b"
  shows "int n \<le> \<lfloor>rnd (a / b)\<rfloor>"
  using rnd_ge_nat [OF assms] by (simp add: le_floor_iff)

lemma rounded_stays_at_most:
  assumes "n \<le> 2 ^ 53" "a / b \<le> of_nat n"
  shows "\<lfloor>rnd (a / b)\<rfloor> \<le> int n"
  using rnd_le_nat [OF assms] by (simp add: floor_le_iff)

end

interpretation f64: rounding f64
  by unfold_locales (auto intro: f64_mono f64_nat)

end
