(* ===== verification/Test.thy ===== *)
theory Test
  imports Net Timer Float64
begin

text \<open>
  The data of a test run: \<open>struct iperf_settings\<close>, \<open>struct iperf_stream\<close> with its
  \<open>struct iperf_stream_result\<close>, \<open>struct iperf_test\<close> (\<open>iperf/src/iperf.h\<close>), the constants of
  \<open>iperf_api.h\<close>, and the operations of \<open>iperf_api.c\<close> that create, fill in and reset it.
  The test extends the state of the process, so that code over a test can make system calls.
  An \<open>int\<close> field is an unbounded integer (signed overflow is undefined in C), the 64-bit
  counters are words, a \<open>double\<close> is a rational of theory \<open>Float64\<close>, a flag a bool, a string
  pointer an optional string, an \<open>fd_set\<close> a set of descriptors, a list its elements in order.
\<close>

section \<open>Constants\<close>

text \<open>The values \<open>state\<close> takes on the control connection.\<close>

abbreviation (input) TEST_START :: int where "TEST_START \<equiv> 1"
abbreviation (input) TEST_RUNNING :: int where "TEST_RUNNING \<equiv> 2"
abbreviation (input) TEST_END :: int where "TEST_END \<equiv> 4"
abbreviation (input) PARAM_EXCHANGE :: int where "PARAM_EXCHANGE \<equiv> 9"
abbreviation (input) CREATE_STREAMS :: int where "CREATE_STREAMS \<equiv> 10"
abbreviation (input) SERVER_TERMINATE :: int where "SERVER_TERMINATE \<equiv> 11"
abbreviation (input) CLIENT_TERMINATE :: int where "CLIENT_TERMINATE \<equiv> 12"
abbreviation (input) EXCHANGE_RESULTS :: int where "EXCHANGE_RESULTS \<equiv> 13"
abbreviation (input) DISPLAY_RESULTS :: int where "DISPLAY_RESULTS \<equiv> 14"
abbreviation (input) IPERF_START :: int where "IPERF_START \<equiv> 15"
abbreviation (input) IPERF_DONE :: int where "IPERF_DONE \<equiv> 16"
abbreviation (input) ACCESS_DENIED :: int where "ACCESS_DENIED \<equiv> - 1"
abbreviation (input) SERVER_ERROR :: int where "SERVER_ERROR \<equiv> - 2"

text \<open>The error codes of \<open>i_errno\<close>.\<close>

abbreviation (input) IENONE :: int where "IENONE \<equiv> 0"
abbreviation (input) IESERVCLIENT :: int where "IESERVCLIENT \<equiv> 1"
abbreviation (input) IENOROLE :: int where "IENOROLE \<equiv> 2"
abbreviation (input) IESERVERONLY :: int where "IESERVERONLY \<equiv> 3"
abbreviation (input) IECLIENTONLY :: int where "IECLIENTONLY \<equiv> 4"
abbreviation (input) IEDURATION :: int where "IEDURATION \<equiv> 5"
abbreviation (input) IENUMSTREAMS :: int where "IENUMSTREAMS \<equiv> 6"
abbreviation (input) IEBLOCKSIZE :: int where "IEBLOCKSIZE \<equiv> 7"
abbreviation (input) IEBUFSIZE :: int where "IEBUFSIZE \<equiv> 8"
abbreviation (input) IEINTERVAL :: int where "IEINTERVAL \<equiv> 9"
abbreviation (input) IEMSS :: int where "IEMSS \<equiv> 10"
abbreviation (input) IENOSENDFILE :: int where "IENOSENDFILE \<equiv> 11"
abbreviation (input) IEOMIT :: int where "IEOMIT \<equiv> 12"
abbreviation (input) IEUNIMP :: int where "IEUNIMP \<equiv> 13"
abbreviation (input) IEFILE :: int where "IEFILE \<equiv> 14"
abbreviation (input) IEBURST :: int where "IEBURST \<equiv> 15"
abbreviation (input) IEENDCONDITIONS :: int where "IEENDCONDITIONS \<equiv> 16"
abbreviation (input) IELOGFILE :: int where "IELOGFILE \<equiv> 17"
abbreviation (input) IENOSCTP :: int where "IENOSCTP \<equiv> 18"
abbreviation (input) IEBIND :: int where "IEBIND \<equiv> 19"
abbreviation (input) IEUDPBLOCKSIZE :: int where "IEUDPBLOCKSIZE \<equiv> 20"
abbreviation (input) IEBADTOS :: int where "IEBADTOS \<equiv> 21"
abbreviation (input) IESETCLIENTAUTH :: int where "IESETCLIENTAUTH \<equiv> 22"
abbreviation (input) IESETSERVERAUTH :: int where "IESETSERVERAUTH \<equiv> 23"
abbreviation (input) IEBADFORMAT :: int where "IEBADFORMAT \<equiv> 24"
abbreviation (input) IEREVERSEBIDIR :: int where "IEREVERSEBIDIR \<equiv> 25"
abbreviation (input) IEBADPORT :: int where "IEBADPORT \<equiv> 26"
abbreviation (input) IETOTALRATE :: int where "IETOTALRATE \<equiv> 27"
abbreviation (input) IETOTALINTERVAL :: int where "IETOTALINTERVAL \<equiv> 28"
abbreviation (input) IESKEWTHRESHOLD :: int where "IESKEWTHRESHOLD \<equiv> 29"
abbreviation (input) IEIDLETIMEOUT :: int where "IEIDLETIMEOUT \<equiv> 30"
abbreviation (input) IERCVTIMEOUT :: int where "IERCVTIMEOUT \<equiv> 31"
abbreviation (input) IERVRSONLYRCVTIMEOUT :: int where "IERVRSONLYRCVTIMEOUT \<equiv> 32"
abbreviation (input) IENEWTEST :: int where "IENEWTEST \<equiv> 100"
abbreviation (input) IEINITTEST :: int where "IEINITTEST \<equiv> 101"
abbreviation (input) IELISTEN :: int where "IELISTEN \<equiv> 102"
abbreviation (input) IECONNECT :: int where "IECONNECT \<equiv> 103"
abbreviation (input) IEACCEPT :: int where "IEACCEPT \<equiv> 104"
abbreviation (input) IESENDCOOKIE :: int where "IESENDCOOKIE \<equiv> 105"
abbreviation (input) IERECVCOOKIE :: int where "IERECVCOOKIE \<equiv> 106"
abbreviation (input) IECTRLWRITE :: int where "IECTRLWRITE \<equiv> 107"
abbreviation (input) IECTRLREAD :: int where "IECTRLREAD \<equiv> 108"
abbreviation (input) IECTRLCLOSE :: int where "IECTRLCLOSE \<equiv> 109"
abbreviation (input) IEMESSAGE :: int where "IEMESSAGE \<equiv> 110"
abbreviation (input) IESENDMESSAGE :: int where "IESENDMESSAGE \<equiv> 111"
abbreviation (input) IERECVMESSAGE :: int where "IERECVMESSAGE \<equiv> 112"
abbreviation (input) IESENDPARAMS :: int where "IESENDPARAMS \<equiv> 113"
abbreviation (input) IERECVPARAMS :: int where "IERECVPARAMS \<equiv> 114"
abbreviation (input) IEPACKAGERESULTS :: int where "IEPACKAGERESULTS \<equiv> 115"
abbreviation (input) IESENDRESULTS :: int where "IESENDRESULTS \<equiv> 116"
abbreviation (input) IERECVRESULTS :: int where "IERECVRESULTS \<equiv> 117"
abbreviation (input) IESELECT :: int where "IESELECT \<equiv> 118"
abbreviation (input) IECLIENTTERM :: int where "IECLIENTTERM \<equiv> 119"
abbreviation (input) IESERVERTERM :: int where "IESERVERTERM \<equiv> 120"
abbreviation (input) IEACCESSDENIED :: int where "IEACCESSDENIED \<equiv> 121"
abbreviation (input) IESETNODELAY :: int where "IESETNODELAY \<equiv> 122"
abbreviation (input) IESETMSS :: int where "IESETMSS \<equiv> 123"
abbreviation (input) IESETBUF :: int where "IESETBUF \<equiv> 124"
abbreviation (input) IESETTOS :: int where "IESETTOS \<equiv> 125"
abbreviation (input) IESETCOS :: int where "IESETCOS \<equiv> 126"
abbreviation (input) IESETFLOW :: int where "IESETFLOW \<equiv> 127"
abbreviation (input) IEREUSEADDR :: int where "IEREUSEADDR \<equiv> 128"
abbreviation (input) IENONBLOCKING :: int where "IENONBLOCKING \<equiv> 129"
abbreviation (input) IESETWINDOWSIZE :: int where "IESETWINDOWSIZE \<equiv> 130"
abbreviation (input) IEPROTOCOL :: int where "IEPROTOCOL \<equiv> 131"
abbreviation (input) IEAFFINITY :: int where "IEAFFINITY \<equiv> 132"
abbreviation (input) IEDAEMON :: int where "IEDAEMON \<equiv> 133"
abbreviation (input) IESETCONGESTION :: int where "IESETCONGESTION \<equiv> 134"
abbreviation (input) IEPIDFILE :: int where "IEPIDFILE \<equiv> 135"
abbreviation (input) IEV6ONLY :: int where "IEV6ONLY \<equiv> 136"
abbreviation (input) IESETSCTPDISABLEFRAG :: int where "IESETSCTPDISABLEFRAG \<equiv> 137"
abbreviation (input) IESETSCTPNSTREAM :: int where "IESETSCTPNSTREAM \<equiv> 138"
abbreviation (input) IESETSCTPBINDX :: int where "IESETSCTPBINDX \<equiv> 139"
abbreviation (input) IESETPACING :: int where "IESETPACING \<equiv> 140"
abbreviation (input) IESETBUF2 :: int where "IESETBUF2 \<equiv> 141"
abbreviation (input) IEAUTHTEST :: int where "IEAUTHTEST \<equiv> 142"
abbreviation (input) IEBINDDEV :: int where "IEBINDDEV \<equiv> 143"
abbreviation (input) IENOMSG :: int where "IENOMSG \<equiv> 144"
abbreviation (input) IESETDONTFRAGMENT :: int where "IESETDONTFRAGMENT \<equiv> 145"
abbreviation (input) IECREATESTREAM :: int where "IECREATESTREAM \<equiv> 200"
abbreviation (input) IEINITSTREAM :: int where "IEINITSTREAM \<equiv> 201"
abbreviation (input) IESTREAMLISTEN :: int where "IESTREAMLISTEN \<equiv> 202"
abbreviation (input) IESTREAMCONNECT :: int where "IESTREAMCONNECT \<equiv> 203"
abbreviation (input) IESTREAMACCEPT :: int where "IESTREAMACCEPT \<equiv> 204"
abbreviation (input) IESTREAMWRITE :: int where "IESTREAMWRITE \<equiv> 205"
abbreviation (input) IESTREAMREAD :: int where "IESTREAMREAD \<equiv> 206"
abbreviation (input) IESTREAMCLOSE :: int where "IESTREAMCLOSE \<equiv> 207"
abbreviation (input) IESTREAMID :: int where "IESTREAMID \<equiv> 208"
abbreviation (input) IENEWTIMER :: int where "IENEWTIMER \<equiv> 300"
abbreviation (input) IEUPDATETIMER :: int where "IEUPDATETIMER \<equiv> 301"

text \<open>Protocols, sizes and defaults.\<close>

abbreviation (input) Ptcp :: int where "Ptcp \<equiv> 1"
abbreviation (input) Pudp :: int where "Pudp \<equiv> 2"
abbreviation (input) Psctp :: int where "Psctp \<equiv> 12"
abbreviation (input) DEFAULT_UDP_BLKSIZE :: int where "DEFAULT_UDP_BLKSIZE \<equiv> 1460"
abbreviation (input) DEFAULT_TCP_BLKSIZE :: int where "DEFAULT_TCP_BLKSIZE \<equiv> 131072"
abbreviation (input) DEFAULT_SCTP_BLKSIZE :: int where "DEFAULT_SCTP_BLKSIZE \<equiv> 65536"
abbreviation (input) DEFAULT_PACING_TIMER :: int where "DEFAULT_PACING_TIMER \<equiv> 1000"
abbreviation (input) DEFAULT_NO_MSG_RCVD_TIMEOUT :: int where "DEFAULT_NO_MSG_RCVD_TIMEOUT \<equiv> 120000"
abbreviation (input) MIN_NO_MSG_RCVD_TIMEOUT :: int where "MIN_NO_MSG_RCVD_TIMEOUT \<equiv> 100"
abbreviation (input) PORT :: int where "PORT \<equiv> 5201"
abbreviation (input) OMIT :: int where "OMIT \<equiv> 0"
abbreviation (input) DURATION :: int where "DURATION \<equiv> 10"
abbreviation (input) UDP_RATE :: int where "UDP_RATE \<equiv> 1048576"
abbreviation (input) COOKIE_SIZE :: nat where "COOKIE_SIZE \<equiv> 37"
abbreviation (input) UDP_BUFFER_EXTRA :: int where "UDP_BUFFER_EXTRA \<equiv> 1024"
abbreviation (input) MAX_TCP_BUFFER :: int where "MAX_TCP_BUFFER \<equiv> 536870912"
abbreviation (input) MAX_BLOCKSIZE :: int where "MAX_BLOCKSIZE \<equiv> 1048576"
abbreviation (input) MIN_UDP_BLOCKSIZE :: int where "MIN_UDP_BLOCKSIZE \<equiv> 16"
abbreviation (input) MAX_UDP_BLOCKSIZE :: int where "MAX_UDP_BLOCKSIZE \<equiv> 65507"
abbreviation (input) MAX_TIME :: int where "MAX_TIME \<equiv> 86400"
abbreviation (input) MAX_BURST :: int where "MAX_BURST \<equiv> 1000"
abbreviation (input) MAX_MSS :: int where "MAX_MSS \<equiv> 9216"
abbreviation (input) MAX_STREAMS :: int where "MAX_STREAMS \<equiv> 128"
abbreviation (input) MAX_INTERVAL :: nat where "MAX_INTERVAL \<equiv> 60"
abbreviation (input) SEC_TO_US :: int where "SEC_TO_US \<equiv> 1000000"

text \<open>
  \<open>Crash\<close>: the process is lost. It dies on a null pointer or a heap overrun, or it hangs in a run of the timers that never
  returns; the two are not told apart.
\<close>

datatype outcome = Ret int | Crash

section \<open>JSON items\<close>

text \<open>What a \<open>cJSON\<close> item holds (\<open>cjson.h\<close>); the children of an array or object are its list.\<close>

datatype json = JNull | JFalse | JTrue | JNumber rat | JString string
  | JArray "json list" | JObject "(string \<times> json) list"

section \<open>Settings, streams, test\<close>

record settings =
  s_domain :: int
  socket_bufsize :: int
  blksize :: int
  rate :: u64
  bitrate_limit :: u64
  bitrate_limit_interval :: rat
  bitrate_limit_stats_per_interval :: int
  fqrate :: u64
  pacing_timer :: int
  burst :: int
  mss :: int
  tos :: int
  flowlabel :: int
  s_bytes :: u64
  s_blocks :: u64
  unit_format :: char
  num_ostreams :: int
  dont_fragment :: int
  authtoken :: "string option"
  client_username :: "string option"
  client_password :: "string option"
  client_rsa_pubkey :: "string option"
  connect_timeout :: int
  idle_timeout :: int
  rcv_timeout :: iperf_time

text \<open>
  The interval record; its duration is only printed and left out. A field that the code leaves
  unset (the counters of the other protocol) is never read.
\<close>

record interval_results =
  ir_bytes :: u64
  ir_start :: iperf_time
  ir_end :: iperf_time
  ir_interval_packet_count :: int
  ir_interval_outoforder :: int
  ir_interval_cnt_error :: int
  ir_packet_count :: int
  ir_outoforder :: int
  ir_cnt_error :: int
  ir_jitter :: rat
  ir_omitted :: bool
  ir_tcp_info :: tcp_info
  ir_retrans :: int
  ir_snd_cwnd :: int
  ir_snd_wnd :: int
  ir_rtt :: int
  ir_rttvar :: int
  ir_pmtu :: int

record stream_result =
  bytes_received :: u64
  bytes_sent :: u64
  bytes_received_this_interval :: u64
  bytes_sent_this_interval :: u64
  bytes_sent_omit :: u64
  stream_prev_total_retrans :: int
  stream_retrans :: int
  stream_max_rtt :: int
  stream_min_rtt :: int
  stream_sum_rtt :: int
  stream_count_rtt :: int
  stream_max_snd_cwnd :: int
  stream_max_snd_wnd :: int
  start_time :: iperf_time
  end_time :: iperf_time
  start_time_fixed :: iperf_time
  sender_time :: rat
  receiver_time :: rat
  interval_results :: "interval_results list"

record stream =
  stream_id :: int
  stream_socket :: int
  is_sender :: bool
  result :: stream_result
  send_timer :: "nat option"
  green_light :: bool
  buffer_fd :: int
  buffer :: bytes
  pending_size :: int
  diskfile_fd :: int
  diskfile_left :: int
  packet_count :: int
  peer_packet_count :: int
  omitted_packet_count :: int
  jitter :: rat
  prev_transit :: rat
  outoforder_packets :: int
  omitted_outoforder_packets :: int
  cnt_error :: int
  omitted_cnt_error :: int

datatype test_mode = SENDER | RECEIVER | BIDIRECTIONAL

text \<open>The callbacks that test code hangs on timers.\<close>

datatype tproc = Send_Timer int | Server_Timer | Server_Stats | Server_Reporter | Server_Omit
  | Test_Timer | Client_Stats | Client_Reporter | Client_Omit

record iperf_test = os +
  test_role :: char
  mode :: test_mode
  sender_has_retransmits :: int
  other_side_has_retransmits :: int
  protocol :: int
  protocols :: "int list"
  test_state :: int
  server_hostname :: "string option"
  bind_address :: "string option"
  bind_dev :: "string option"
  bind_port :: int
  server_port :: int
  omit :: int
  duration :: int
  diskfile_name :: "string option"
  affinity :: int
  server_affinity :: int
  title :: "string option"
  extra_data :: "string option"
  congestion :: "string option"
  congestion_used :: "string option"
  remote_congestion_used :: "string option"
  pidfile :: "string option"
  logfile :: "string option"
  ctrl_sck :: int
  listener :: int
  prot_listener :: int
  ctrl_sck_mss :: int
  server_authorized_users :: "string option"
  server_rsa_private_key :: "string option"
  server_skew_threshold :: int
  daemon :: bool
  one_off :: bool
  no_delay :: bool
  reverse :: bool
  bidirectional :: bool
  verbose :: bool
  json_output :: bool
  zerocopy :: bool
  debug :: bool
  get_server_output :: bool
  udp_counters_64bit :: bool
  forceflush :: bool
  multisend :: int
  multipath :: bool
  repeating_payload :: bool
  timestamp_format :: "string option"
  max_fd :: int
  read_set :: "int set"
  write_set :: "int set"
  omitting :: bool
  stats_interval :: rat
  reporter_interval :: rat
  omit_timer :: "nat option"
  test_timer :: "nat option"
  stats_timer :: "nat option"
  reporter_timer :: "nat option"
  test_done :: bool
  cpu_util :: "rat list"
  remote_cpu_util :: "rat list"
  num_streams :: int
  t_bytes_sent :: u64
  t_blocks_sent :: u64
  t_bytes_received :: u64
  t_blocks_received :: u64
  bitrate_limit_stats_count :: u64
  bitrate_limit_traffic :: "u64 list"
  bitrate_limit_last_index :: u64
  bitrate_limit_exceeded :: bool
  server_last_run_rc :: int
  cookie :: bytes
  streams :: "stream list"
  settings :: settings
  server_output_text :: "string option"
  server_output_list :: "string list"
  json_top :: "json option"
  json_server_output :: "json option"
  tm :: "tproc tmrs"

type_synonym test = iperf_test

section \<open>Setters with logic\<close>

text \<open>Linux has \<open>TCP_INFO\<close> (\<open>tcp_info.c\<close>).\<close>

definition has_tcpinfo :: bool where "has_tcpinfo = True"
definition has_tcpinfo_retransmits :: bool where "has_tcpinfo_retransmits = True"

definition check_sender_has_retransmits :: "test \<Rightarrow> test" where
  "check_sender_has_retransmits t =
     (if mode t \<noteq> RECEIVER \<and> protocol t = Ptcp \<and> has_tcpinfo_retransmits
      then t\<lparr>sender_has_retransmits := 1\<rparr> else t\<lparr>sender_has_retransmits := 0\<rparr>)"

definition iperf_set_test_role :: "char \<Rightarrow> test \<Rightarrow> test" where
  "iperf_set_test_role r t0 =
     (let t = t0\<lparr>test_role := r\<rparr> in
      check_sender_has_retransmits
       (if \<not> reverse t then
          (if bidirectional t then t\<lparr>mode := BIDIRECTIONAL\<rparr>
           else if r = CHR ''c'' then t\<lparr>mode := SENDER\<rparr>
           else if r = CHR ''s'' then t\<lparr>mode := RECEIVER\<rparr>
           else t)
        else if r = CHR ''c'' then t\<lparr>mode := RECEIVER\<rparr>
        else if r = CHR ''s'' then t\<lparr>mode := SENDER\<rparr>
        else t))"

definition iperf_set_test_reverse :: "bool \<Rightarrow> test \<Rightarrow> test" where
  "iperf_set_test_reverse b t0 =
     (let t = t0\<lparr>reverse := b\<rparr> in
      check_sender_has_retransmits
       (if \<not> reverse t then
          (if test_role t = CHR ''c'' then t\<lparr>mode := SENDER\<rparr>
           else if test_role t = CHR ''s'' then t\<lparr>mode := RECEIVER\<rparr>
           else t)
        else if test_role t = CHR ''c'' then t\<lparr>mode := RECEIVER\<rparr>
        else if test_role t = CHR ''s'' then t\<lparr>mode := SENDER\<rparr>
        else t))"

definition iperf_set_test_bidirectional :: "bool \<Rightarrow> test \<Rightarrow> test" where
  "iperf_set_test_bidirectional b t0 =
     (let t = t0\<lparr>bidirectional := b\<rparr> in
      if b then t\<lparr>mode := BIDIRECTIONAL\<rparr> else iperf_set_test_reverse (reverse t) t)"

definition iperf_set_test_zerocopy :: "bool \<Rightarrow> test \<Rightarrow> test" where
  "iperf_set_test_zerocopy z t = t\<lparr>zerocopy := z \<and> has_sendfile\<rparr>"

definition set_settings :: "(settings \<Rightarrow> settings) \<Rightarrow> test \<Rightarrow> test" where
  "set_settings f t = t\<lparr>settings := f (settings t)\<rparr>"

text \<open>The protocol list holds the protocols by id; the current protocol is the id found.\<close>

definition get_protocol :: "int \<Rightarrow> test \<Rightarrow> int option \<times> test" where
  "get_protocol pid t =
     (case find (\<lambda>p. p = pid) (protocols t) of
        None \<Rightarrow> (None, t\<lparr>i_errno := IEPROTOCOL\<rparr>)
      | Some p \<Rightarrow> (Some p, t))"

definition set_protocol :: "int \<Rightarrow> test \<Rightarrow> int \<times> test" where
  "set_protocol pid t =
     (case find (\<lambda>p. p = pid) (protocols t) of
        None \<Rightarrow> (-1, t\<lparr>i_errno := IEPROTOCOL\<rparr>)
      | Some p \<Rightarrow> (0, check_sender_has_retransmits (t\<lparr>protocol := p\<rparr>)))"

section \<open>Streams\<close>

text \<open>
  \<open>iperf_add_stream\<close>. The first stream gets the id 1. Otherwise the loop over the list
  starts from 2 and counts every element, and the new stream goes behind the last one.
\<close>

definition iperf_add_stream :: "stream \<Rightarrow> test \<Rightarrow> test" where
  "iperf_add_stream sp t =
     (if streams t = [] then t\<lparr>streams := [sp\<lparr>stream_id := 1\<rparr>]\<rparr>
      else (let i = foldl (\<lambda>i n. i + 1) 2 (streams t)
            in t\<lparr>streams := streams t @ [sp\<lparr>stream_id := i\<rparr>]\<rparr>))"

text \<open>
  \<open>iperf_free_stream\<close>: the descriptors of the buffer and of the disk file are closed and
  the send timer is cancelled; the memory is given back.
\<close>

definition cancel_opt :: "nat option \<Rightarrow> tproc tmrs \<Rightarrow> tproc tmrs" where
  "cancel_opt p st = (case p of Some q \<Rightarrow> tmr_cancel st q | None \<Rightarrow> st)"

definition iperf_free_stream :: "stream \<Rightarrow> (test, unit) state" where
  "iperf_free_stream sp = do {
     r1 \<leftarrow> call (Close (buffer_fd sp));
     (if diskfile_fd sp \<ge> 0 then do { r2 \<leftarrow> call (Close (diskfile_fd sp)); State_Monad.return () }
      else State_Monad.return ());
     modify (\<lambda>t. t\<lparr>tm := cancel_opt (send_timer sp) (tm t)\<rparr>) }"

definition free_streams :: "(test, unit) state" where
  "free_streams = do {
     sps \<leftarrow> gets streams;
     for_each sps (\<lambda>sp. do { modify (\<lambda>t. t\<lparr>streams := tl (streams t)\<rparr>); iperf_free_stream sp }) }"

section \<open>A fresh test and its reset\<close>

definition no_time :: iperf_time where "no_time = Time 0 0"

definition zero_settings :: settings where
  "zero_settings = \<lparr>s_domain = 0, socket_bufsize = 0, blksize = 0, rate = 0, bitrate_limit = 0,
     bitrate_limit_interval = 0, bitrate_limit_stats_per_interval = 0, fqrate = 0, pacing_timer = 0,
     burst = 0, mss = 0, tos = 0, flowlabel = 0, s_bytes = 0, s_blocks = 0, unit_format = CHR 0x00,
     num_ostreams = 0, dont_fragment = 0, authtoken = None, client_username = None,
     client_password = None, client_rsa_pubkey = None, connect_timeout = 0, idle_timeout = 0,
     rcv_timeout = no_time\<rparr>"

text \<open>
  \<open>iperf_new_test\<close>: everything zero over the process state \<open>w\<close> and the timer list \<open>tms\<close>.
  The mode 0 is \<open>RECEIVER\<close>. Of the traffic array \<open>malloc\<close>ed for \<open>MAX_INTERVAL\<close> entries the
  call \<open>memset(..., sizeof(sizeof(...)))\<close> clears the first 8 bytes only; the other entries
  are whatever \<open>junk\<close> the allocator left.
\<close>

definition iperf_new_test :: "os \<Rightarrow> tproc tmrs \<Rightarrow> u64 list \<Rightarrow> test" where
  "iperf_new_test w tms junk =
     \<lparr>orc = orc w, tick = tick w, trace = trace w, errno = errno w, i_errno = i_errno w, gerror = gerror w,
      test_role = CHR 0x00, mode = RECEIVER, sender_has_retransmits = 0,
      other_side_has_retransmits = 0, protocol = 0, protocols = [], test_state = 0,
      server_hostname = None, bind_address = None, bind_dev = None, bind_port = 0, server_port = 0,
      omit = 0, duration = 0, diskfile_name = None, affinity = 0, server_affinity = 0, title = None,
      extra_data = None, congestion = None, congestion_used = None, remote_congestion_used = None,
      pidfile = None, logfile = None, ctrl_sck = 0, listener = 0, prot_listener = 0, ctrl_sck_mss = 0,
      server_authorized_users = None, server_rsa_private_key = None, server_skew_threshold = 0,
      daemon = False, one_off = False, no_delay = False, reverse = False, bidirectional = False,
      verbose = False, json_output = False, zerocopy = False, debug = False,
      get_server_output = False, udp_counters_64bit = False, forceflush = False, multisend = 0,
      multipath = False, repeating_payload = False, timestamp_format = None, max_fd = 0,
      read_set = {}, write_set = {}, omitting = False, stats_interval = 0, reporter_interval = 0,
      omit_timer = None, test_timer = None, stats_timer = None, reporter_timer = None,
      test_done = False, cpu_util = [0, 0, 0], remote_cpu_util = [0, 0, 0], num_streams = 0,
      t_bytes_sent = 0, t_blocks_sent = 0, t_bytes_received = 0, t_blocks_received = 0,
      bitrate_limit_stats_count = 0, bitrate_limit_traffic = 0 # take (MAX_INTERVAL - 1) junk,
      bitrate_limit_last_index = 0, bitrate_limit_exceeded = False, server_last_run_rc = 0,
      cookie = replicate COOKIE_SIZE 0, streams = [], settings = zero_settings,
      server_output_text = None, server_output_list = [], json_top = None, json_server_output = None, tm = tms\<rparr>"

text \<open>\<open>iperf_defaults\<close>, without SCTP (the protocol list is TCP, then UDP).\<close>

definition default_settings :: "settings \<Rightarrow> settings" where
  "default_settings s = s\<lparr>s_domain := AF_UNSPEC, unit_format := CHR ''a'', socket_bufsize := 0,
     blksize := DEFAULT_TCP_BLKSIZE, rate := 0, bitrate_limit := 0, bitrate_limit_interval := 5,
     bitrate_limit_stats_per_interval := 0, fqrate := 0, pacing_timer := DEFAULT_PACING_TIMER,
     burst := 0, mss := 0, s_bytes := 0, s_blocks := 0, connect_timeout := -1,
     rcv_timeout := Time (word_of_int (DEFAULT_NO_MSG_RCVD_TIMEOUT div 1000))
       (word_of_int ((DEFAULT_NO_MSG_RCVD_TIMEOUT mod 1000) * 1000))\<rparr>"

definition iperf_defaults :: "test \<Rightarrow> test" where
  "iperf_defaults t0 =
     (let t = t0\<lparr>omit := OMIT, duration := DURATION, diskfile_name := None, affinity := -1,
        server_affinity := -1, title := None, extra_data := None, congestion := None,
        congestion_used := None, remote_congestion_used := None, server_port := PORT,
        ctrl_sck := -1, prot_listener := -1, other_side_has_retransmits := 0,
        stats_interval := 1, reporter_interval := 1, num_streams := 1,
        settings := default_settings (settings t0),
        cookie := replicate COOKIE_SIZE 0, multisend := 10, streams := [], protocols := []\<rparr>
      in (snd (set_protocol Ptcp (t\<lparr>protocols := [Ptcp, Pudp]\<rparr>)))\<lparr>server_output_list := []\<rparr>)"

text \<open>
  \<open>iperf_reset_test\<close>: the four test timers are cancelled in the order of the code, then
  the fields are set. The settings it does not name keep their values.
\<close>

definition cancel_test_timers :: "test \<Rightarrow> test" where
  "cancel_test_timers t = t\<lparr>tm := cancel_opt (reporter_timer t) (cancel_opt (stats_timer t)
       (cancel_opt (test_timer t) (cancel_opt (omit_timer t) (tm t)))),
     omit_timer := None, test_timer := None, stats_timer := None, reporter_timer := None\<rparr>"

definition reset_settings :: "settings \<Rightarrow> settings" where
  "reset_settings s = s\<lparr>socket_bufsize := 0, blksize := DEFAULT_TCP_BLKSIZE, rate := 0,
     burst := 0, mss := 0, tos := 0, dont_fragment := 0, authtoken := None,
     client_username := None, client_password := None, client_rsa_pubkey := None\<rparr>"

definition reset_fields :: "test \<Rightarrow> test" where
  "reset_fields t0 =
     (let t1 = t0\<lparr>test_done := False, streams := [], remote_congestion_used := None,
        test_role := CHR ''s'', mode := RECEIVER, sender_has_retransmits := 0\<rparr>;
          t2 = snd (set_protocol Ptcp t1)
      in t2\<lparr>omit := OMIT, duration := DURATION, server_affinity := -1, test_state := 0,
            ctrl_sck := -1, prot_listener := -1, t_bytes_sent := 0, t_blocks_sent := 0,
            t_bytes_received := 0, t_blocks_received := 0, other_side_has_retransmits := 0,
            bitrate_limit_stats_count := 0, bitrate_limit_last_index := 0,
            bitrate_limit_exceeded := False,
            bitrate_limit_traffic := replicate MAX_INTERVAL 0 @ drop MAX_INTERVAL (bitrate_limit_traffic t2),
            reverse := False, bidirectional := False, no_delay := False,
            read_set := {}, write_set := {}, num_streams := 1,
            settings := reset_settings (settings t2),
            cookie := replicate COOKIE_SIZE 0, multisend := 10, udp_counters_64bit := False,
            title := None, extra_data := None, server_output_list := []\<rparr>)"

definition iperf_reset_test :: "(test, unit) state" where
  "iperf_reset_test = do {
     free_streams;
     modify cancel_test_timers;
     modify reset_fields }"

section \<open>Concrete tests, for examples\<close>

definition no_info :: tcp_info where
  "no_info = \<lparr>tcpi_total_retrans = 0, tcpi_snd_cwnd = 0, tcpi_snd_mss = 0, tcpi_snd_wnd = 0,
     tcpi_rtt = 0, tcpi_rttvar = 0, tcpi_pmtu = 0\<rparr>"

definition ok_resp :: resp where
  "ok_resp = \<lparr>rv = 0, re = 0, rval = 0, rbytes = [], raddrs = [], rtime = no_time, rinfo = no_info,
     rready = {}, rwritable = {}, rname = [], rcpu = []\<rparr>"

definition script :: "resp list \<Rightarrow> nat \<Rightarrow> resp" where
  "script rs n = (if n < length rs then rs ! n else ok_resp)"

definition fresh_os :: "resp list \<Rightarrow> os" where
  "fresh_os rs = \<lparr>orc = script rs, tick = 0, trace = [], errno = 0, i_errno = 0, gerror = 0\<rparr>"

definition empty_timer :: "tproc timer" where
  "empty_timer = \<lparr>timer_proc = Server_Timer, t_usecs = 0, periodic = False, t_time = no_time,
     prev = None, nxt = None\<rparr>"

definition no_timers :: "tproc tmrs" where
  "no_timers = \<lparr>theap = (\<lambda>p. empty_timer), timers = None, free_timers = None\<rparr>"

definition blank_test :: "resp list \<Rightarrow> test" where
  "blank_test rs = iperf_defaults (iperf_new_test (fresh_os rs) no_timers (replicate (MAX_INTERVAL - 1) 0))"

definition zero_result :: stream_result where
  "zero_result = \<lparr>bytes_received = 0, bytes_sent = 0, bytes_received_this_interval = 0,
     bytes_sent_this_interval = 0, bytes_sent_omit = 0, stream_prev_total_retrans = 0, stream_retrans = 0,
     stream_max_rtt = 0, stream_min_rtt = 0, stream_sum_rtt = 0, stream_count_rtt = 0,
     stream_max_snd_cwnd = 0, stream_max_snd_wnd = 0, start_time = no_time, end_time = no_time, start_time_fixed = no_time, sender_time = 0,
     receiver_time = 0, interval_results = []\<rparr>"

text \<open>What \<open>memset\<close> and the first assignments of \<open>iperf_new_stream\<close> make of a stream.\<close>

definition zero_stream :: "int \<Rightarrow> bool \<Rightarrow> stream" where
  "zero_stream s sends = \<lparr>stream_id = 0, stream_socket = s, is_sender = sends, result = zero_result,
     send_timer = None, green_light = False, buffer_fd = 0, buffer = [], pending_size = 0,
     diskfile_fd = 0, diskfile_left = 0, packet_count = 0, peer_packet_count = 0,
     omitted_packet_count = 0, jitter = 0, prev_transit = 0, outoforder_packets = 0,
     omitted_outoforder_packets = 0, cnt_error = 0, omitted_cnt_error = 0\<rparr>"

end
