(* ===== verification/Udp.thy ===== *)
theory Udp
  imports Test
begin

text \<open>
  \<open>iperf/src/iperf_udp.c\<close>: the datagram header and its round trip, the accounting of lost
  and reordered datagrams, the jitter estimate, socket buffers, and the three-way set-up of
  a UDP "connection".
\<close>

section \<open>Numbers in network byte order\<close>

text \<open>\<open>htonl\<close>, \<open>htobe64\<close> and \<open>memcpy\<close> into the buffer: \<open>n\<close> bytes, most significant first.\<close>

primrec be :: "nat \<Rightarrow> nat \<Rightarrow> bytes" where
  "be 0 x = []"
| "be (Suc n) x = be n (x div 256) @ [of_nat (x mod 256)]"

definition be_value :: "bytes \<Rightarrow> nat" where
  "be_value bs = foldl (\<lambda>a b. a * 256 + unat b) 0 bs"

lemma length_be [simp]: "length (be n x) = n"
  by (induction n arbitrary: x) simp_all

lemma unat_byte [simp]: "unat (of_nat (x mod 256) :: u8) = x mod 256"
  by (simp add: unat_of_nat)

lemma be_value_be: "be_value (be n x) = x mod 256 ^ n"
proof (induction n arbitrary: x)
  case 0
  then show ?case by (simp add: be_value_def)
next
  case (Suc n)
  have "be_value (be (Suc n) x) = be_value (be n (x div 256)) * 256 + x mod 256"
    by (simp add: be_value_def unat_of_nat)
  also have "\<dots> = x mod 256 ^ Suc n"
    by (simp add: Suc mod_mult2_eq)
  finally show ?case .
qed

lemma be_value_be_word32: "be_value (be 4 (unat (x :: u32))) = unat x"
  using unat_lt_u32 [of x] by (simp add: be_value_be)

lemma be_value_be_word64: "be_value (be 8 (unat (x :: u64))) = unat x"
  using unat_lt_u64 [of x] by (simp add: be_value_be)

text \<open>The conversions between \<open>int\<close> and unsigned numbers that the counters go through.\<close>

definition i32 :: "'a::len word \<Rightarrow> int" where
  "i32 x = signed_take_bit 31 (uint x)"

text \<open>The same for an integer of another width, which is an unbounded one here.\<close>

definition to_int :: "int \<Rightarrow> int" where
  "to_int n = signed_take_bit 31 n"

lemma i32_small: "uint x < 2147483648 \<Longrightarrow> i32 x = uint (x :: 'a::len word)"
  using signed_take_bit_int_eq_self [of 31 "uint x"] uint_ge_0 [of x] by (simp add: i32_def)

lemma uint_word_of_int_u64: "0 \<le> n \<Longrightarrow> n < 18446744073709551616 \<Longrightarrow> uint (word_of_int n :: u64) = n"
  by (simp add: uint_word_of_int)

section \<open>The header of a datagram\<close>

definition udp_header :: "bool \<Rightarrow> iperf_time \<Rightarrow> int \<Rightarrow> bytes" where
  "udp_header wide before pc =
     be 4 (unat (secs before)) @ be 4 (unat (usecs before))
     @ (if wide then be 8 (unat (word_of_int pc :: u64)) else be 4 (unat (word_of_int pc :: u32)))"

definition udp_fields :: "bool \<Rightarrow> bytes \<Rightarrow> iperf_time \<times> u64" where
  "udp_fields wide buf =
     (Time (of_nat (be_value (take 4 buf))) (of_nat (be_value (take 4 (drop 4 buf)))),
      if wide then of_nat (be_value (take 8 (drop 8 buf)))
      else ucast (of_nat (be_value (take 4 (drop 8 buf))) :: u32))"

definition put_header :: "bytes \<Rightarrow> bytes \<Rightarrow> bytes" where
  "put_header hdr buf = hdr @ drop (length hdr) buf"

lemma udp_fields_header:
  "udp_fields wide (udp_header wide before pc @ rest) =
     (before, if wide then word_of_int pc else ucast (word_of_int pc :: u32))"
  by (cases before) (simp add: udp_fields_def udp_header_def be_value_be_word32 be_value_be_word64)

section \<open>Receiving\<close>

text \<open>
  \<open>iperf_time_in_secs\<close> in \<open>double\<close>: an integer to double conversion, a division, a sum.
\<close>

definition iperf_time_in_secs :: "iperf_time \<Rightarrow> rat" where
  "iperf_time_in_secs t = f64 (of_nat (unat (secs t)) + f64 (of_nat (unat (usecs t)) / 1000000))"

text \<open>
  The part of \<open>iperf_udp_recv\<close> that places a sequence number: \<open>sp->packet_count + 1\<close> is an
  \<open>int\<close> that the comparison with \<open>pcount\<close> converts to 64 bits, and the compound assignment to
  \<open>cnt_error\<close> adds in 64 bits and converts back to \<open>int\<close>.
\<close>

definition udp_count :: "u64 \<Rightarrow> stream \<Rightarrow> stream" where
  "udp_count pcount sp =
     (if pcount \<ge> word_of_int (packet_count sp + 1) then
        (let sp1 = (if pcount > word_of_int (packet_count sp + 1)
                    then sp\<lparr>cnt_error := i32 (word_of_int (cnt_error sp) + ((pcount - 1) - word_of_int (packet_count sp)) :: u64)\<rparr>
                    else sp)
         in sp1\<lparr>packet_count := i32 pcount\<rparr>)
      else
        (let sp1 = sp\<lparr>outoforder_packets := outoforder_packets sp + 1\<rparr>
         in if cnt_error sp1 > 0 then sp1\<lparr>cnt_error := cnt_error sp1 - 1\<rparr> else sp1))"

definition udp_jitter :: "bool \<Rightarrow> iperf_time \<Rightarrow> iperf_time \<Rightarrow> stream \<Rightarrow> stream" where
  "udp_jitter first_packet arrival sent sp =
     (let transit = iperf_time_in_secs (snd (iperf_time_diff arrival sent));
          prev = (if first_packet then transit else prev_transit sp);
          d0 = f64 (transit - prev);
          d = (if d0 < 0 then - d0 else d0)
      in sp\<lparr>prev_transit := transit, jitter := f64 (jitter sp + f64 (f64 (d - jitter sp) / 16))\<rparr>)"

definition add_received :: "int \<Rightarrow> stream_result \<Rightarrow> stream_result" where
  "add_received r rp = rp\<lparr>bytes_received := bytes_received rp + word_of_int r,
     bytes_received_this_interval := bytes_received_this_interval rp + word_of_int r\<rparr>"

definition add_sent :: "int \<Rightarrow> stream_result \<Rightarrow> stream_result" where
  "add_sent r rp = rp\<lparr>bytes_sent := bytes_sent rp + word_of_int r,
     bytes_sent_this_interval := bytes_sent_this_interval rp + word_of_int r\<rparr>"

definition nread :: "int \<Rightarrow> nat \<Rightarrow> ('a os_scheme, int \<times> bytes) state" where
  "nread fd n = State (\<lambda>w. case Nread fd n w of (r, bs, w') \<Rightarrow> ((r, bs), w'))"

definition nwrite :: "int \<Rightarrow> bytes \<Rightarrow> ('a os_scheme, int) state" where
  "nwrite fd bs = State (Nwrite fd bs)"

definition udp_packet :: "int \<Rightarrow> bool \<Rightarrow> iperf_time \<Rightarrow> stream \<Rightarrow> stream" where
  "udp_packet r wide arrival sp =
     (let first_packet = (bytes_received (result sp) = 0);
          sp1 = sp\<lparr>result := add_received r (result sp)\<rparr>
      in case udp_fields wide (buffer sp1) of (sent, pcount) \<Rightarrow>
           udp_jitter first_packet arrival sent (udp_count pcount sp1))"

definition iperf_udp_recv :: "stream \<Rightarrow> (test, int \<times> stream) state" where
  "iperf_udp_recv sp = do {
     size \<leftarrow> gets (\<lambda>t. blksize (settings t));
     got \<leftarrow> nread (stream_socket sp) (nat size);
     let sp1 = sp\<lparr>buffer := put_header (snd got) (buffer sp)\<rparr>;
     if fst got \<le> 0 then State_Monad.return (fst got, sp1) else do {
       running \<leftarrow> gets (\<lambda>t. test_state t = TEST_RUNNING);
       wide \<leftarrow> gets udp_counters_64bit;
       if running then do {
         now \<leftarrow> call Gettime;
         State_Monad.return (fst got, udp_packet (fst got) wide (rtime now) sp1) }
       else State_Monad.return (fst got, sp1) } }"

section \<open>Sending\<close>

definition iperf_udp_send :: "stream \<Rightarrow> (test, int \<times> stream) state" where
  "iperf_udp_send sp = do {
     size \<leftarrow> gets (\<lambda>t. blksize (settings t));
     now \<leftarrow> call Gettime;
     wide \<leftarrow> gets udp_counters_64bit;
     let sp1 = sp\<lparr>packet_count := packet_count sp + 1\<rparr>;
     let sp2 = sp1\<lparr>buffer := put_header (udp_header wide (rtime now) (packet_count sp1)) (buffer sp1)\<rparr>;
     r \<leftarrow> nwrite (stream_socket sp2) (take (nat size) (buffer sp2));
     State_Monad.return (r, if r < 0 then sp2 else sp2\<lparr>result := add_sent r (result sp2)\<rparr>) }"

section \<open>Socket buffers\<close>

text \<open>
  \<open>iperf_udp_buffercheck\<close>: -1 on an error, 1 if a block does not fit into a buffer, else 0.
  The warnings and the JSON entries it makes are output.
\<close>

definition fail :: "int \<Rightarrow> (test, int) state" where
  "fail code = do { set_i_errno code; State_Monad.return (-1) }"

definition udp_readback :: "int \<Rightarrow> sockopt \<Rightarrow> (test, int) state" where
  "udp_readback s opt = do {
     g \<leftarrow> call (Getsockopt s opt);
     if rv g < 0 then fail IESETBUF else do {
       bufsize \<leftarrow> gets (\<lambda>t. socket_bufsize (settings t));
       if bufsize \<noteq> 0 \<and> bufsize > rval g then fail IESETBUF2 else do {
         blk \<leftarrow> gets (\<lambda>t. blksize (settings t));
         State_Monad.return (if blk > rval g then 1 else 0) } } }"

definition iperf_udp_buffercheck :: "int \<Rightarrow> (test, int) state" where
  "iperf_udp_buffercheck s = do {
     opt \<leftarrow> gets (\<lambda>t. socket_bufsize (settings t));
     set \<leftarrow> (if opt \<noteq> 0 then do {
         r1 \<leftarrow> call (Setsockopt s SO_RCVBUF opt);
         if rv r1 < 0 then fail IESETBUF else do {
           r2 \<leftarrow> call (Setsockopt s SO_SNDBUF opt);
           if rv r2 < 0 then fail IESETBUF else State_Monad.return 0 } }
       else State_Monad.return 0);
     if set < 0 then State_Monad.return (-1) else do {
       snd \<leftarrow> udp_readback s SO_SNDBUF;
       if snd < 0 then State_Monad.return (-1) else do {
         rcv \<leftarrow> udp_readback s SO_RCVBUF;
         if rcv < 0 then State_Monad.return (-1)
         else State_Monad.return (if rcv = 1 then 1 else snd) } } }"

text \<open>The second attempt of \<open>iperf_udp_accept\<close> and \<open>iperf_udp_connect\<close>, with a larger buffer.\<close>

definition udp_buffers :: "int \<Rightarrow> (test, int) state" where
  "udp_buffers s = do {
     rc \<leftarrow> iperf_udp_buffercheck s;
     if rc < 0 then State_Monad.return rc
     else do {
       bufsize \<leftarrow> gets (\<lambda>t. socket_bufsize (settings t));
       if rc > 0 \<and> bufsize = 0 then do {
         modify (set_settings (\<lambda>st. st\<lparr>socket_bufsize := blksize st + UDP_BUFFER_EXTRA\<rparr>));
         iperf_udp_buffercheck s }
       else State_Monad.return rc } }"

text \<open>Fair-queue pacing: the rate in bytes per second as an \<open>unsigned int\<close>.\<close>

definition fq_pacing :: "int \<Rightarrow> (test, unit) state" where
  "fq_pacing s = do {
     fq \<leftarrow> gets (\<lambda>t. fqrate (settings t));
     let r = (ucast (fq div 8) :: u32);
     if fq \<noteq> 0 \<and> r > 0 then do {
       o1 \<leftarrow> call (Setsockopt s SO_MAX_PACING_RATE (uint r));
       State_Monad.return () }
     else State_Monad.return () }"

section \<open>Setting up a stream\<close>

text \<open>One \<open>write\<close> of an \<open>int\<close> in host order (little endian), whatever it accepts of it.\<close>

definition host_int :: "nat \<Rightarrow> bytes" where
  "host_int n = rev (be 4 n)"

definition swrite :: "int \<Rightarrow> bytes \<Rightarrow> ('a os_scheme, int) state" where
  "swrite fd bs = State (sys_write fd bs)"

definition announce :: "int \<Rightarrow> (test, int) state" where
  "announce proto = do {
     dom \<leftarrow> gets (\<lambda>t. s_domain (settings t));
     addr \<leftarrow> gets bind_address;
     dev \<leftarrow> gets bind_dev;
     port \<leftarrow> gets server_port;
     netannounce dom proto addr dev port }"

definition watch_read :: "int \<Rightarrow> (test, unit) state" where
  "watch_read s = modify (\<lambda>t. t\<lparr>read_set := insert s (read_set t), max_fd := max (max_fd t) s\<rparr>)"

definition iperf_udp_accept :: "(test, int) state" where
  "iperf_udp_accept = do {
     s \<leftarrow> gets prot_listener;
     sz \<leftarrow> call (Recvfrom s);
     if rv sz < 0 then fail IESTREAMACCEPT else do {
       c \<leftarrow> call (Connect s 0);
       if rv c < 0 then fail IESTREAMACCEPT else do {
         rc \<leftarrow> udp_buffers s;
         if rc < 0 then State_Monad.return rc else do {
           fq_pacing s;
           l \<leftarrow> announce Pudp;
           modify (\<lambda>t. t\<lparr>prot_listener := l\<rparr>);
           if l < 0 then fail IESTREAMLISTEN else do {
             watch_read l;
             w \<leftarrow> swrite s (host_int 987654321);
             if w < 0 then fail IESTREAMWRITE else State_Monad.return s } } } } }"

definition iperf_udp_listen :: "(test, int) state" where
  "iperf_udp_listen = do {
     s \<leftarrow> announce Pudp;
     if s < 0 then fail IESTREAMLISTEN else State_Monad.return s }"

definition iperf_udp_connect :: "(test, int) state" where
  "iperf_udp_connect = do {
     dom \<leftarrow> gets (\<lambda>t. s_domain (settings t));
     addr \<leftarrow> gets bind_address;
     dev \<leftarrow> gets bind_dev;
     lport \<leftarrow> gets bind_port;
     host \<leftarrow> gets (\<lambda>t. case server_hostname t of Some h \<Rightarrow> h | None \<Rightarrow> '''');
     port \<leftarrow> gets server_port;
     s \<leftarrow> netdial dom Pudp addr dev lport host port (-1);
     if s < 0 then fail IESTREAMCONNECT else do {
       rc \<leftarrow> udp_buffers s;
       if rc < 0 then State_Monad.return rc else do {
         fq_pacing s;
         o1 \<leftarrow> call (Setsockopt s SO_RCVTIMEO 30);
         w \<leftarrow> swrite s (host_int 123456789);
         if w < 0 then fail IESTREAMWRITE else do {
           sz \<leftarrow> call (Recvfrom s);
           if rv sz < 0 then fail IESTREAMREAD else State_Monad.return s } } } }"

definition iperf_udp_init :: "(test, int) state" where
  "iperf_udp_init = State_Monad.return 0"

section \<open>Lost and reordered datagrams are accounted for exactly\<close>

text \<open>The step over the counters, on unbounded integers.\<close>

lemma udp_count_step:
  assumes "0 \<le> packet_count sp" "packet_count sp < 2147483648"
    and "0 \<le> cnt_error sp" "cnt_error sp \<le> packet_count sp"
    and "0 < uint p" "uint p < 2147483648"
  shows "udp_count p sp =
    (if packet_count sp < uint p then
       sp\<lparr>cnt_error := cnt_error sp + (uint p - 1 - packet_count sp), packet_count := uint p\<rparr>
     else sp\<lparr>outoforder_packets := outoforder_packets sp + 1,
             cnt_error := (if cnt_error sp > 0 then cnt_error sp - 1 else cnt_error sp)\<rparr>)"
proof -
  define c where "c = packet_count sp"
  have uc: "uint (word_of_int (c + 1) :: u64) = c + 1" "uint (word_of_int c :: u64) = c"
    by (rule uint_word_of_int_u64; use assms in \<open>simp add: c_def\<close>)+
  have ge: "p \<ge> word_of_int (c + 1) \<longleftrightarrow> c < uint p"
    unfolding word_le_def uc by linarith
  have gt: "p > word_of_int (c + 1) \<longleftrightarrow> c + 1 < uint p"
    unfolding word_less_def uc by linarith
  have pc: "i32 p = uint p" using assms(6) by (rule i32_small)
  have sum: "(word_of_int (cnt_error sp) + ((p - 1) - word_of_int c) :: u64)
      = word_of_int (cnt_error sp + ((uint p - 1) - c))"
    by simp
  have err: "i32 (word_of_int (cnt_error sp) + ((p - 1) - word_of_int c) :: u64)
      = cnt_error sp + ((uint p - 1) - c)" if "c < uint p"
  proof -
    have "uint (word_of_int (cnt_error sp + ((uint p - 1) - c)) :: u64)
        = cnt_error sp + ((uint p - 1) - c)"
      by (rule uint_word_of_int_u64) (use assms that in \<open>simp_all add: c_def\<close>)
    moreover have "cnt_error sp + ((uint p - 1) - c) < 2147483648"
      using assms that by (simp add: c_def)
    ultimately show ?thesis unfolding sum by (subst i32_small) simp_all
  qed
  have body: "udp_count p sp = (if c < uint p then
      (if c + 1 < uint p then sp\<lparr>cnt_error := i32 (word_of_int (cnt_error sp) + ((p - 1) - word_of_int c) :: u64)\<rparr>
       else sp)\<lparr>packet_count := uint p\<rparr>
    else sp\<lparr>outoforder_packets := outoforder_packets sp + 1,
            cnt_error := (if cnt_error sp > 0 then cnt_error sp - 1 else cnt_error sp)\<rparr>)"
    unfolding udp_count_def Let_def c_def [symmetric] ge gt pc by (cases sp) auto
  have same: "sp = sp\<lparr>cnt_error := cnt_error sp\<rparr>" by simp
  consider "c + 1 < uint p" | "uint p = c + 1" | "\<not> c < uint p" by linarith
  then show ?thesis
  proof cases
    case 1
    then show ?thesis unfolding c_def [symmetric] body by (simp add: err)
  next
    case 2
    then show ?thesis unfolding c_def [symmetric] body by (cases sp) simp
  next
    case 3
    then show ?thesis unfolding c_def [symmetric] body by simp
  qed
qed

definition udp_counts :: "u64 list \<Rightarrow> stream \<Rightarrow> stream" where
  "udp_counts ps sp = foldl (\<lambda>s p. udp_count p s) sp ps"

text \<open>
  What the counters of a stream should say after the sequence numbers \<open>ps\<close>: the highest
  one, and how many arrived behind a higher one.
\<close>

definition highest :: "u64 list \<Rightarrow> int" where
  "highest ps = foldl (\<lambda>m p. max m (uint p)) 0 ps"

definition late :: "u64 list \<Rightarrow> int" where
  "late ps = int (card {i. i < length ps \<and> uint (ps ! i) \<le> highest (take i ps)})"

lemma snoc_simps [simp]:
  "udp_counts [] sp = sp" "udp_counts (ps @ [p]) sp = udp_count p (udp_counts ps sp)"
  "highest [] = 0" "highest (ps @ [p]) = max (highest ps) (uint p)"
  by (simp_all add: udp_counts_def highest_def)

lemma late_Nil [simp]: "late [] = 0"
  by (simp add: late_def)

lemma late_snoc [simp]: "late (ps @ [p]) = late ps + (if uint p \<le> highest ps then 1 else 0)"
proof -
  have "{i. i < length (ps @ [p]) \<and> uint ((ps @ [p]) ! i) \<le> highest (take i (ps @ [p]))}
      = {i. i < length ps \<and> uint (ps ! i) \<le> highest (take i ps)}
        \<union> (if uint p \<le> highest ps then {length ps} else {})"
    by (auto simp: nth_append less_Suc_eq)
  then show ?thesis by (simp add: late_def)
qed

lemma highest_bounds:
  "0 \<le> highest ps" "p \<in> set ps \<Longrightarrow> uint p \<le> highest ps"
  by (induction ps rule: rev_induct) auto

lemma highest_less:
  "(\<And>p. p \<in> set ps \<Longrightarrow> uint p < n) \<Longrightarrow> 0 < n \<Longrightarrow> highest ps < n"
  by (induction ps rule: rev_induct) auto

lemma distinct_below_highest:
  assumes "distinct ps" "\<And>p. p \<in> set ps \<Longrightarrow> 0 < uint p"
  shows "int (length ps) \<le> highest ps"
proof -
  have "uint ` set ps \<subseteq> {1 .. highest ps}"
    using assms(2) highest_bounds(2) by force
  then have "card (uint ` set ps) \<le> card {1 .. highest ps}"
    by (intro card_mono) simp_all
  moreover have "card (uint ` set ps) = length ps"
    using assms(1) by (subst card_image) (simp_all add: inj_on_def distinct_card word_uint_eq_iff)
  ultimately show ?thesis using highest_bounds(1) [of ps] by simp
qed

lemma udp_counts_exact:
  assumes "packet_count sp = 0" "cnt_error sp = 0"
    and "distinct ps" "\<And>p. p \<in> set ps \<Longrightarrow> 0 < uint p \<and> uint p < 2147483648"
  shows "packet_count (udp_counts ps sp) = highest ps
    \<and> cnt_error (udp_counts ps sp) = highest ps - int (length ps)
    \<and> outoforder_packets (udp_counts ps sp) = outoforder_packets sp + late ps"
  using assms(3,4)
proof (induction ps rule: rev_induct)
  case Nil
  then show ?case using assms(1,2) by simp
next
  case (snoc p ps)
  then have IH: "packet_count (udp_counts ps sp) = highest ps"
    "cnt_error (udp_counts ps sp) = highest ps - int (length ps)"
    "outoforder_packets (udp_counts ps sp) = outoforder_packets sp + late ps"
    by auto
  have le: "int (length ps) \<le> highest ps" using snoc.prems by (intro distinct_below_highest) auto
  have lt: "highest ps < 2147483648" using snoc.prems by (intro highest_less) auto
  have p: "0 < uint p" "uint p < 2147483648" using snoc.prems by auto
  have "int (length (ps @ [p])) \<le> highest (ps @ [p])"
    using snoc.prems by (intro distinct_below_highest) auto
  then have missing: "0 < highest ps - int (length ps)" if "\<not> highest ps < uint p" using that by simp
  have "udp_count p (udp_counts ps sp) = (if highest ps < uint p then
      (udp_counts ps sp)\<lparr>cnt_error := highest ps - int (length ps) + (uint p - 1 - highest ps),
        packet_count := uint p\<rparr>
    else (udp_counts ps sp)\<lparr>outoforder_packets := outoforder_packets (udp_counts ps sp) + 1,
        cnt_error := highest ps - int (length ps) - 1\<rparr>)"
    using missing le lt by (subst udp_count_step) (auto simp: IH p highest_bounds(1))
  then show ?case using IH p by (auto simp: max_def)
qed

section \<open>The jitter estimate\<close>

text \<open>
  The estimate is a running average of the change of the transit time: it stays between
  0 and the larger of its old value and the new deviation, in rounded arithmetic too.
\<close>

definition deviation :: "bool \<Rightarrow> iperf_time \<Rightarrow> iperf_time \<Rightarrow> stream \<Rightarrow> rat" where
  "deviation first arrival sent sp =
     (let transit = iperf_time_in_secs (snd (iperf_time_diff arrival sent)) in
      f64 \<bar>transit - (if first then transit else prev_transit sp)\<bar>)"

lemma udp_jitter_eq:
  "udp_jitter first arrival sent sp =
     sp\<lparr>prev_transit := iperf_time_in_secs (snd (iperf_time_diff arrival sent)),
       jitter := f64 (jitter sp + f64 (f64 (deviation first arrival sent sp - jitter sp) / 16))\<rparr>"
proof -
  have "(if f64 x < 0 then - f64 x else f64 x) = f64 \<bar>x\<bar>" for x
    using f64_neg [of x] f64_nonneg [of x] f64_mono [of x 0] by (cases "x < 0") auto
  then show ?thesis by (simp add: udp_jitter_def deviation_def Let_def)
qed

lemma jitter_average:
  assumes "0 \<le> j" "is_double j" "0 \<le> d" "is_double d"
  shows "0 \<le> f64 (j + f64 (f64 (d - j) / 16)) \<and> f64 (j + f64 (f64 (d - j) / 16)) \<le> max j d"
proof
  have "- j \<le> f64 (d - j)" using assms by (intro f64_ge_double) (auto intro: is_double_neg)
  then have "- j \<le> f64 (d - j) / 16" using assms(1) by simp
  then have "- j \<le> f64 (f64 (d - j) / 16)" using assms by (intro f64_ge_double) (auto intro: is_double_neg)
  then show "0 \<le> f64 (j + f64 (f64 (d - j) / 16))" by (intro f64_nonneg) simp
  have "f64 (f64 (d - j) / 16) \<le> max 0 (d - j)"
  proof (cases "d \<le> j")
    case True
    then have "f64 (d - j) \<le> 0" using f64_mono [of "d - j" 0] by simp
    then show ?thesis using f64_mono [of "f64 (d - j) / 16" 0] by simp
  next
    case False
    then have "0 \<le> f64 (d - j)" "f64 (d - j) \<le> 2 * (d - j)"
      by (intro f64_nonneg f64_le_twice; simp)+
    moreover then have "f64 (f64 (d - j) / 16) \<le> 2 * (f64 (d - j) / 16)" by (intro f64_le_twice) simp
    ultimately show ?thesis using False by simp
  qed
  then have "j + f64 (f64 (d - j) / 16) \<le> max j d" by simp
  then show "f64 (j + f64 (f64 (d - j) / 16)) \<le> max j d"
    using assms by (intro f64_le_double) (auto simp: max_def)
qed

lemma udp_jitter_between:
  assumes "0 \<le> jitter sp" "is_double (jitter sp)"
  shows "0 \<le> jitter (udp_jitter first arrival sent sp) \<and> is_double (jitter (udp_jitter first arrival sent sp))
    \<and> jitter (udp_jitter first arrival sent sp) \<le> max (jitter sp) (deviation first arrival sent sp)"
  using jitter_average [OF assms, of "deviation first arrival sent sp"]
  by (simp add: udp_jitter_eq) (simp add: deviation_def Let_def f64_nonneg)

section \<open>Descriptors\<close>

lemma fail_keeps [fd_rules]: "keeps_fds (fail c)"
  unfolding fail_def by (intro fd_rules)

lemma keeps_set_settings [fd_rules]: "keeps_fds (modify (set_settings f))"
  by (rule keeps_modify) (simp add: set_settings_def)

lemma buffercheck_keeps [fd_rules]: "keeps_fds (iperf_udp_buffercheck s)"
  unfolding iperf_udp_buffercheck_def udp_readback_def by (intro fd_rules)

lemma udp_buffers_keeps [fd_rules]: "keeps_fds (udp_buffers s)"
  unfolding udp_buffers_def by (intro fd_rules)

lemma fq_pacing_keeps [fd_rules]: "keeps_fds (fq_pacing s)"
  unfolding fq_pacing_def Let_def by (intro fd_rules)

lemma watch_read_keeps [fd_rules]: "keeps_fds (watch_read s)"
  unfolding watch_read_def by (rule keeps_modify) simp

lemma keeps_swrite [fd_rules]: "keeps_fds (swrite s bs)"
  by (simp add: swrite_def keeps_fds_def wp_simps sys_write_def Let_def trace_after fun_eq_iff)

lemma announce_opened: "fds h (announce proto) (opened h)"
  unfolding announce_def by (intro fd_rules netannounce_fds)

end
