(* ===== verification/Tcp.thy ===== *)
theory Tcp
  imports Udp
begin

text \<open>
  \<open>iperf/src/iperf_tcp.c\<close>: moving blocks over a TCP (or Multipath TCP) stream and counting
  them, accepting a stream by its cookie, re-creating the listener with the options of the
  test, and connecting a stream.
\<close>

definition IPPROTO_MPTCP :: int where "IPPROTO_MPTCP = 262"

section \<open>Data\<close>

definition iperf_tcp_recv :: "stream \<Rightarrow> (test, int \<times> stream) state" where
  "iperf_tcp_recv sp = do {
     size \<leftarrow> gets (\<lambda>t. blksize (settings t));
     got \<leftarrow> nread (stream_socket sp) (nat size);
     let sp1 = sp\<lparr>buffer := put_header (snd got) (buffer sp)\<rparr>;
     if fst got < 0 then State_Monad.return (fst got, sp1) else do {
       running \<leftarrow> gets (\<lambda>t. test_state t = TEST_RUNNING);
       State_Monad.return (fst got,
         if running then sp1\<lparr>result := add_received (fst got) (result sp1)\<rparr> else sp1) } }"

definition nsendfile :: "int \<Rightarrow> int \<Rightarrow> nat \<Rightarrow> ('a os_scheme, int) state" where
  "nsendfile fromfd tofd n = State (Nsendfile fromfd tofd n)"

definition iperf_tcp_send :: "stream \<Rightarrow> (test, int \<times> stream) state" where
  "iperf_tcp_send sp = do {
     size \<leftarrow> gets (\<lambda>t. blksize (settings t));
     let sp1 = (if pending_size sp = 0 then sp\<lparr>pending_size := size\<rparr> else sp);
     zc \<leftarrow> gets zerocopy;
     r \<leftarrow> (if zc then nsendfile (buffer_fd sp1) (stream_socket sp1) (nat (pending_size sp1))
          else nwrite (stream_socket sp1) (take (nat (pending_size sp1)) (buffer sp1)));
     State_Monad.return (r, if r < 0 then sp1
       else sp1\<lparr>pending_size := pending_size sp1 - r, result := add_sent r (result sp1)\<rparr>) }"

section \<open>Accepting a stream\<close>

text \<open>
  \<open>strcmp\<close> on the cookies compares up to the terminating zero. \<open>junk\<close> is the stack buffer
  the received cookie is written over: a short read leaves the rest of it in place.
\<close>

definition c_string :: "bytes \<Rightarrow> bytes" where
  "c_string bs = takeWhile (\<lambda>b. b \<noteq> 0) bs"

definition iperf_tcp_accept :: "bytes \<Rightarrow> (test, int) state" where
  "iperf_tcp_accept junk = do {
     l \<leftarrow> gets listener;
     s \<leftarrow> call (Accept l);
     if rv s < 0 then fail IESTREAMCONNECT else do {
       got \<leftarrow> nread (rv s) COOKIE_SIZE;
       if fst got < 0 then fail IERECVCOOKIE else do {
         mine \<leftarrow> gets cookie;
         if c_string mine \<noteq> c_string (put_header (snd got) junk) then do {
           w \<leftarrow> nwrite (rv s) [word_of_int ACCESS_DENIED];
           c \<leftarrow> call (Close (rv s));
           State_Monad.return (rv s) }
         else State_Monad.return (rv s) } } }"

section \<open>Listening\<close>

text \<open>Close the socket, keep \<open>errno\<close>, report \<open>code\<close>.\<close>

definition abandon :: "int \<Rightarrow> int \<Rightarrow> (test, int) state" where
  "abandon s code = do { r \<leftarrow> close_fail s; fail code }"

text \<open>Options that are set only when the test asks for them; \<open>True\<close> if all went well.\<close>

definition set_opt :: "bool \<Rightarrow> int \<Rightarrow> sockopt \<Rightarrow> int \<Rightarrow> (test, bool) state" where
  "set_opt wanted s opt v = (if wanted then do {
       r \<leftarrow> call (Setsockopt s opt v);
       State_Monad.return (rv r \<ge> 0) }
     else State_Monad.return True)"

text \<open>
  \<open>NODELAY\<close>, \<open>MAXSEG\<close> and the two buffer sizes, in the order of \<open>iperf_tcp_listen\<close> and
  \<open>iperf_tcp_connect\<close>: the error code of the first that fails, or \<open>IENONE\<close>.
\<close>

definition tcp_options :: "int \<Rightarrow> (test, int) state" where
  "tcp_options s = do {
     nd \<leftarrow> gets no_delay;
     ok1 \<leftarrow> set_opt nd s TCP_NODELAY 1;
     if \<not> ok1 then State_Monad.return IESETNODELAY else do {
       m \<leftarrow> gets (\<lambda>t. mss (settings t));
       ok2 \<leftarrow> set_opt (m \<noteq> 0) s TCP_MAXSEG m;
       if \<not> ok2 then State_Monad.return IESETMSS else do {
         b \<leftarrow> gets (\<lambda>t. socket_bufsize (settings t));
         ok3 \<leftarrow> set_opt (b \<noteq> 0) s SO_RCVBUF b;
         if \<not> ok3 then State_Monad.return IESETBUF else do {
           ok4 \<leftarrow> set_opt (b \<noteq> 0) s SO_SNDBUF b;
           State_Monad.return (if ok4 then IENONE else IESETBUF) } } } }"

text \<open>Read back a buffer size: close on an error, keep the socket if it is too small.\<close>

definition tcp_readback :: "int \<Rightarrow> sockopt \<Rightarrow> (test, int) state" where
  "tcp_readback s opt = do {
     g \<leftarrow> call (Getsockopt s opt);
     if rv g < 0 then abandon s IESETBUF else do {
       b \<leftarrow> gets (\<lambda>t. socket_bufsize (settings t));
       if b \<noteq> 0 \<and> b > rval g then fail IESETBUF2 else State_Monad.return 0 } }"

definition tcp_buffers :: "int \<Rightarrow> (test, int) state" where
  "tcp_buffers s = do {
     r1 \<leftarrow> tcp_readback s SO_SNDBUF;
     if r1 < 0 then State_Monad.return (-1) else do {
       r2 \<leftarrow> tcp_readback s SO_RCVBUF;
       State_Monad.return (if r2 < 0 then -1 else s) } }"

text \<open>Does the test need a listener of its own? (\<open>run_server\<close> asks a shorter question.)\<close>

definition wants_own_listener :: "test \<Rightarrow> bool" where
  "wants_own_listener t \<longleftrightarrow> multipath t \<or> no_delay t \<or> mss (settings t) \<noteq> 0 \<or> socket_bufsize (settings t) \<noteq> 0"

text \<open>The new listening socket: its descriptor, or -1 after cleaning up.\<close>

definition tcp_bind_listen :: "int \<Rightarrow> (test, int) state" where
  "tcp_bind_listen s = do {
     port \<leftarrow> gets server_port;
     b \<leftarrow> call (Bind s port);
     if rv b < 0 then abandon s IESTREAMLISTEN else do {
       l \<leftarrow> call (Listen s);
       if rv l < 0 then fail IESTREAMLISTEN else do {
         modify (\<lambda>t. t\<lparr>listener := s\<rparr>);
         State_Monad.return s } } }"

definition tcp_new_listener :: "(test, int) state" where
  "tcp_new_listener = do {
     dom \<leftarrow> gets (\<lambda>t. s_domain (settings t));
     addr \<leftarrow> gets bind_address;
     g \<leftarrow> call (Getaddrinfo addr (if dom = AF_UNSPEC \<and> addr = None then AF_INET6 else dom) SOCK_STREAM True);
     set_gerror (rv g);
     if rv g \<noteq> 0 then fail IESTREAMLISTEN else do {
       mp \<leftarrow> gets multipath;
       sk \<leftarrow> call (Socket (rval g) SOCK_STREAM (if mp then IPPROTO_MPTCP else 0));
       if rv sk < 0 then fail IESTREAMLISTEN else do {
         e \<leftarrow> tcp_options (rv sk);
         if e \<noteq> IENONE then abandon (rv sk) e else do {
           fq_pacing (rv sk);
           ra \<leftarrow> call (Setsockopt (rv sk) SO_REUSEADDR 1);
           if rv ra < 0 then abandon (rv sk) IEREUSEADDR else do {
             ok \<leftarrow> set_opt (rval g = AF_INET6 \<and> (dom = AF_UNSPEC \<or> dom = AF_INET)) (rv sk) IPV6_V6ONLY
                    (if dom = AF_UNSPEC then 0 else 1);
             if \<not> ok then abandon (rv sk) IEV6ONLY else tcp_bind_listen (rv sk) } } } } }"

definition iperf_tcp_listen :: "(test, int) state" where
  "iperf_tcp_listen = do {
     s0 \<leftarrow> gets listener;
     own \<leftarrow> gets wants_own_listener;
     s \<leftarrow> (if own then do {
         modify (\<lambda>t. t\<lparr>read_set := read_set t - {s0}\<rparr>);
         c \<leftarrow> call (Close s0);
         tcp_new_listener }
       else State_Monad.return s0);
     if own \<and> s < 0 then State_Monad.return (-1) else tcp_buffers s }"

section \<open>Connecting a stream\<close>

text \<open>Bind the local end: 0, or -1 after cleaning up.\<close>

definition tcp_bind_local :: "int \<Rightarrow> int \<Rightarrow> (test, int) state" where
  "tcp_bind_local s family = do {
     addr \<leftarrow> gets bind_address;
     port \<leftarrow> gets bind_port;
     if addr \<noteq> None \<or> port \<noteq> 0 then
       (if addr = None \<and> family \<noteq> AF_INET \<and> family \<noteq> AF_INET6 then abandon s IEPROTOCOL
        else do {
          b \<leftarrow> call (Bind s port);
          if rv b < 0 then abandon s IESTREAMCONNECT else State_Monad.return 0 })
     else State_Monad.return 0 }"

definition tcp_flowlabel :: "int \<Rightarrow> int \<Rightarrow> (test, int) state" where
  "tcp_flowlabel s family = do {
     fl \<leftarrow> gets (\<lambda>t. flowlabel (settings t));
     if fl = 0 then State_Monad.return 0
     else if family \<noteq> AF_INET6 then abandon s IESETFLOW
     else do {
       r1 \<leftarrow> call (Setsockopt s IPV6_FLOWLABEL_MGR (fl AND 0xFFFFF));
       if rv r1 < 0 then abandon s IESETFLOW else do {
         r2 \<leftarrow> call (Setsockopt s IPV6_FLOWINFO_SEND 1);
         if rv r2 < 0 then abandon s IESETFLOW else State_Monad.return 0 } } }"

text \<open>The last part: pacing, \<open>connect\<close>, the cookie.\<close>

definition tcp_dial :: "int \<Rightarrow> (test, int) state" where
  "tcp_dial s = do {
     fq_pacing s;
     port \<leftarrow> gets server_port;
     c \<leftarrow> call (Connect s port);
     e \<leftarrow> get_errno;
     if rv c < 0 \<and> e \<noteq> EINPROGRESS then abandon s IESTREAMCONNECT else do {
       ck \<leftarrow> gets cookie;
       w \<leftarrow> nwrite s (take COOKIE_SIZE ck);
       if w < 0 then abandon s IESENDCOOKIE else State_Monad.return s } }"

definition tcp_configure :: "int \<Rightarrow> int \<Rightarrow> (test, int) state" where
  "tcp_configure s family = do {
     b \<leftarrow> tcp_bind_local s family;
     if b < 0 then State_Monad.return (-1) else do {
       e \<leftarrow> tcp_options s;
       if e \<noteq> IENONE then abandon s e else do {
         r \<leftarrow> tcp_buffers s;
         if r < 0 then State_Monad.return (-1) else do {
           f \<leftarrow> tcp_flowlabel s family;
           if f < 0 then State_Monad.return (-1) else tcp_dial s } } } }"

definition iperf_tcp_connect :: "(test, int) state" where
  "iperf_tcp_connect = do {
     dom \<leftarrow> gets (\<lambda>t. s_domain (settings t));
     addr \<leftarrow> gets bind_address;
     lok \<leftarrow> (if addr \<noteq> None then do {
         g \<leftarrow> call (Getaddrinfo addr dom SOCK_STREAM False);
         set_gerror (rv g);
         State_Monad.return (rv g = 0) }
       else State_Monad.return True);
     if \<not> lok then fail IESTREAMCONNECT else do {
       host \<leftarrow> gets server_hostname;
       g \<leftarrow> call (Getaddrinfo host dom SOCK_STREAM False);
       set_gerror (rv g);
       if rv g \<noteq> 0 then fail IESTREAMCONNECT else do {
         mp \<leftarrow> gets multipath;
         sk \<leftarrow> call (Socket (rval g) SOCK_STREAM (if mp then IPPROTO_MPTCP else 0));
         if rv sk < 0 then fail IESTREAMCONNECT
         else tcp_configure (rv sk) (rval g) } } }"

section \<open>Descriptors\<close>

lemma keeps_moving [fd_rules]:
  "keeps_fds (nread fd n)" "keeps_fds (nwrite fd bs)" "keeps_fds (nsendfile a b n)"
  by (simp_all add: moving_keeps_fds keeps_fds_def nread_def nwrite_def nsendfile_def wp_iff_run
      case_prod_beta)

lemma tcp_recv_keeps [fd_rules]: "keeps_fds (iperf_tcp_recv sp)"
  unfolding iperf_tcp_recv_def Let_def by (intro fd_rules)

lemma tcp_send_keeps [fd_rules]: "keeps_fds (iperf_tcp_send sp)"
  unfolding iperf_tcp_send_def Let_def by (intro fd_rules)

lemma udp_recv_keeps [fd_rules]: "keeps_fds (iperf_udp_recv sp)"
  unfolding iperf_udp_recv_def Let_def by (intro fd_rules)

lemma udp_send_keeps [fd_rules]: "keeps_fds (iperf_udp_send sp)"
  unfolding iperf_udp_send_def Let_def by (intro fd_rules)

text \<open>
  \<open>at_most_leaks\<close>: on success the result is the one new descriptor; an error returns what
  was held before, or one descriptor more that nobody refers to.
\<close>

definition may_leak :: "(int \<Rightarrow> int) \<Rightarrow> int \<Rightarrow> (int \<Rightarrow> int) \<Rightarrow> bool" where
  "may_leak h r h' \<longleftrightarrow> (if 0 \<le> r then h' = h(r := h r + 1)
     else h' = h \<or> (\<exists>s. h' = h(s := h s + 1)))"

lemma fds_fail [fd_rules]: "Q (-1) h \<Longrightarrow> fds h (fail c) Q"
  unfolding fail_def by (intro fd_rules)

lemma fds_close_fail [fd_rules]: "Q (-1) (h(s := h s - 1)) \<Longrightarrow> fds h (close_fail s) Q"
  unfolding close_fail_def by (intro fd_rules)

lemma fds_abandon [fd_rules]: "Q (-1) (h(s := h s - 1)) \<Longrightarrow> fds h (abandon s c) Q"
  unfolding abandon_def by (rule fds_seq, rule fds_close_fail [where Q = "\<lambda>r h'. h' = h(s := h s - 1)"])
    (auto intro: fds_fail)

lemma set_opt_keeps [fd_rules]: "keeps_fds (set_opt wanted s opt v)"
  unfolding set_opt_def by (intro fd_rules)

lemma tcp_options_keeps [fd_rules]: "keeps_fds (tcp_options s)"
  unfolding tcp_options_def by (intro fd_rules)

lemma keeps_listener [fd_rules]: "keeps_fds (modify (\<lambda>t :: test. t\<lparr>listener := s\<rparr>))"
  by (rule keeps_modify) simp

lemma tcp_bind_listen_leak:
  assumes "0 \<le> s"
  shows "fds (h(s := h s + 1)) (tcp_bind_listen s) (may_leak h)"
  unfolding tcp_bind_listen_def by (intro fd_rules) (auto simp: may_leak_def assms)

lemma tcp_new_listener_leak: "fds h tcp_new_listener (may_leak h)"
  unfolding tcp_new_listener_def
  by (intro fd_rules tcp_bind_listen_leak) (auto simp: may_leak_def)

lemma fds_tcp_buffers:
  assumes "Q s h" "Q (-1) (h(s := h s - 1))" "Q (-1) h"
  shows "fds h (tcp_buffers s) Q"
proof -
  have r: "fds h (tcp_readback s opt) (\<lambda>r h'. (r = 0 \<and> h' = h) \<or> (r = -1 \<and> (h' = h \<or> h' = h(s := h s - 1))))"
    for opt
    unfolding tcp_readback_def by (intro fd_rules) auto
  have second: "fds h (do { r2 \<leftarrow> tcp_readback s SO_RCVBUF; State_Monad.return (if r2 < 0 then -1 else s) }) Q"
    by (rule fds_seq [OF r]) (use assms in \<open>auto intro: fds_return\<close>)
  show ?thesis
    unfolding tcp_buffers_def
    by (rule fds_seq [OF r]) (use assms second in \<open>auto intro: fds_return\<close>)
qed

lemma tcp_dial_opened:
  assumes "0 \<le> s"
  shows "fds (h(s := h s + 1)) (tcp_dial s) (opened h)"
  unfolding tcp_dial_def by (intro fd_rules) (simp_all add: opened_def assms)

lemma fds_less_0:
  fixes m :: "(test, int) state"
  assumes "fds h m P" "\<And>h'. P 0 h' \<Longrightarrow> h' = h" "\<And>r h'. P r h' \<Longrightarrow> r = 0 \<or> r < 0 \<and> Q (-1) h'" "fds h n Q"
  shows "fds h (do { b \<leftarrow> m; if b < 0 then State_Monad.return (-1) else n }) Q"
proof (rule fds_seq [OF assms(1)])
  fix r h'
  assume "P r h'"
  then show "fds h' (if r < 0 then State_Monad.return (-1) else n) Q"
    using assms(2) [of h'] assms(3) [of r h'] assms(4) by (auto intro: fds_return)
qed

text \<open>The steps of a connection attempt: 0 with the socket kept, or -1 with the socket closed.\<close>

definition kept_or_closed :: "int \<Rightarrow> (int \<Rightarrow> int) \<Rightarrow> int \<Rightarrow> (int \<Rightarrow> int) \<Rightarrow> bool" where
  "kept_or_closed s h r h' \<longleftrightarrow> (r = 0 \<and> h' = h) \<or> (r = -1 \<and> h' = h(s := h s - 1))"

lemma tcp_steps:
  "fds h (tcp_bind_local s family) (kept_or_closed s h)"
  "fds h (tcp_flowlabel s family) (kept_or_closed s h)"
  unfolding tcp_bind_local_def tcp_flowlabel_def
  by (intro fd_rules; simp add: kept_or_closed_def)+

lemma tcp_configure_leak:
  assumes "0 \<le> s"
  shows "fds (h(s := h s + 1)) (tcp_configure s family) (may_leak h)"
proof -
  let ?h = "h(s := h s + 1)"
  have dial: "fds ?h (tcp_dial s) (may_leak h)"
    by (rule fds_mono [OF tcp_dial_opened [OF assms]]) (simp add: opened_def may_leak_def)
  have flow: "fds ?h (do { f \<leftarrow> tcp_flowlabel s family;
      if f < 0 then State_Monad.return (-1) else tcp_dial s }) (may_leak h)"
    by (rule fds_less_0 [OF tcp_steps(2) _ _ dial]) (auto simp: kept_or_closed_def may_leak_def)
  have bufs: "fds ?h (do { r \<leftarrow> tcp_buffers s; if r < 0 then State_Monad.return (-1) else
      do { f \<leftarrow> tcp_flowlabel s family; if f < 0 then State_Monad.return (-1) else tcp_dial s } }) (may_leak h)"
  proof (rule fds_seq [OF fds_tcp_buffers [where Q = "\<lambda>r h'. (r = s \<and> h' = ?h) \<or> (r = -1 \<and> may_leak h (-1) h')"]])
    fix r h'
    assume "(r = s \<and> h' = ?h) \<or> (r = -1 \<and> may_leak h (-1) h')"
    then show "fds h' (if r < 0 then State_Monad.return (-1) else
        do { f \<leftarrow> tcp_flowlabel s family; if f < 0 then State_Monad.return (-1) else tcp_dial s }) (may_leak h)"
      using flow assms fds_return [of "may_leak h" "-1" h'] by auto
  qed (auto simp: may_leak_def)
  have opts: "fds ?h (do { e \<leftarrow> tcp_options s; if e \<noteq> IENONE then abandon s e else
      do { r \<leftarrow> tcp_buffers s; if r < 0 then State_Monad.return (-1) else
        do { f \<leftarrow> tcp_flowlabel s family; if f < 0 then State_Monad.return (-1) else tcp_dial s } } }) (may_leak h)"
    by (intro fds_keep tcp_options_keeps fds_if fds_abandon bufs) (simp_all add: may_leak_def)
  show ?thesis
    unfolding tcp_configure_def
    by (rule fds_less_0 [OF tcp_steps(1) _ _ opts]) (auto simp: kept_or_closed_def may_leak_def)
qed

lemma tcp_connect_leak: "fds h iperf_tcp_connect (may_leak h)"
  unfolding iperf_tcp_connect_def
  by (intro fd_rules tcp_configure_leak) (auto simp: may_leak_def)

section \<open>Multipath\<close>

text \<open>
  The sockets made for streams, of a multipath test and of any other. \<open>since u evs t\<close>: after \<open>u\<close> only such sockets
  have been made, and the calls \<open>evs\<close> are among the new ones.
\<close>

definition chosen_socket :: "bool \<Rightarrow> sysc \<times> int \<Rightarrow> bool" where
  "chosen_socket mp e \<longleftrightarrow> (case fst e of
     Socket d ty p \<Rightarrow> ty = SOCK_STREAM \<and> p = (if mp then IPPROTO_MPTCP else 0) | _ \<Rightarrow> True)"

definition since_then :: "test \<Rightarrow> (sysc \<times> int) list \<Rightarrow> test \<Rightarrow> bool" where
  "since_then u evs t \<longleftrightarrow> multipath t = multipath u
     \<and> (\<exists>new. trace t = new @ trace u \<and> list_all (chosen_socket (multipath u)) new \<and> set evs \<subseteq> set new)"

lemma since_after:
  "since_then u evs w \<Longrightarrow> chosen_socket (multipath u) (c, r) \<Longrightarrow> since_then u evs (after c r w)"
proof -
  assume "since_then u evs w" and c: "chosen_socket (multipath u) (c, r)"
  then obtain new where n: "multipath w = multipath u" "trace w = new @ trace u"
      "list_all (chosen_socket (multipath u)) new" "set evs \<subseteq> set new" by (auto simp: since_then_def)
  have "trace (after c r w) = ((c, r) # new) @ trace u" "multipath (after c r w) = multipath u"
    using n by (simp_all add: after_def)
  moreover have "list_all (chosen_socket (multipath u)) ((c, r) # new)" "set evs \<subseteq> set ((c, r) # new)" using c n by auto
  ultimately show "since_then u evs (after c r w)" unfolding since_then_def by blast
qed

lemma since_adds: "since_then u [] w \<Longrightarrow> chosen_socket (multipath u) (c, r) \<Longrightarrow> since_then u [(c, r)] (after c r w)"
proof -
  assume "since_then u [] w" and c: "chosen_socket (multipath u) (c, r)"
  then obtain new where n: "multipath w = multipath u" "trace w = new @ trace u"
      "list_all (chosen_socket (multipath u)) new" by (auto simp: since_then_def)
  have "trace (after c r w) = ((c, r) # new) @ trace u" "multipath (after c r w) = multipath u"
    using n by (simp_all add: after_def)
  moreover have "list_all (chosen_socket (multipath u)) ((c, r) # new)" "set [(c, r)] \<subseteq> set ((c, r) # new)" using c n by auto
  ultimately show "since_then u [(c, r)] (after c r w)" unfolding since_then_def by blast
qed

lemma since_upd [simp]:
  "since_then u evs (w\<lparr>errno := e\<rparr>) = since_then u evs w" "since_then u evs (w\<lparr>i_errno := e\<rparr>) = since_then u evs w"
  "since_then u evs (w\<lparr>gerror := e\<rparr>) = since_then u evs w" "since_then u evs (w\<lparr>listener := e\<rparr>) = since_then u evs w"
  "since_then u evs (w\<lparr>read_set := fs\<rparr>) = since_then u evs w"
  by (simp_all add: since_then_def)

lemma since_call_rule:
  "(\<And>mp r. chosen_socket mp (c, r)) \<Longrightarrow> preserves (since_then u evs) (call c)"
  by (rule preserves_call) (rule since_after)

lemma since_sets:
  "preserves (since_then u evs) get_errno" "preserves (since_then u evs) (set_errno e)"
  "preserves (since_then u evs) (set_i_errno e)" "preserves (since_then u evs) (set_gerror e)"
  by (simp_all add: preserves_def wp_simps)

lemma since_nwrite: "preserves (since_then u evs) (nwrite fd bs)"
  unfolding preserves_def nwrite_def wp_iff_run state.sel Nwrite_def
  by (intro allI impI, rule Nwrite_loop_inv) (auto intro: since_after simp: chosen_socket_def)

lemmas since_rules = inv_rules preserves_gets preserves_bind since_call_rule since_sets since_nwrite

lemma since_parts:
  "preserves (since_then u evs) (abandon s c)" "preserves (since_then u evs) (fail c)"
  "preserves (since_then u evs) (set_opt b s opt v)" "preserves (since_then u evs) (fq_pacing s)"
  unfolding abandon_def close_fail_def fail_def set_opt_def fq_pacing_def Let_def
  by (intro since_rules; simp add: chosen_socket_def)+

lemma since_steps:
  "preserves (since_then u evs) (tcp_options s)" "preserves (since_then u evs) (tcp_buffers s)"
  "preserves (since_then u evs) (tcp_bind_local s f)" "preserves (since_then u evs) (tcp_flowlabel s f)"
  "preserves (since_then u evs) (tcp_dial s)"
  unfolding tcp_options_def tcp_buffers_def tcp_readback_def tcp_bind_local_def tcp_flowlabel_def tcp_dial_def
  by (intro since_rules since_parts; simp add: chosen_socket_def)+

lemma since_configure: "preserves (since_then u evs) (tcp_configure s f)"
  unfolding tcp_configure_def by (intro since_rules since_parts since_steps)

text \<open>The result of configuring a socket is that socket or an error.\<close>

definition gives :: "(int \<Rightarrow> bool) \<Rightarrow> (test, int) state \<Rightarrow> bool" where
  "gives R m \<longleftrightarrow> (\<forall>t. wp m (\<lambda>r t'. R r) t)"

lemma gives_bind: "(\<And>a. gives R (k a)) \<Longrightarrow> gives R (m \<bind> k)"
  by (simp add: gives_def wp_bind) (simp add: wp_def)

lemma gives_rules:
  "R n \<Longrightarrow> gives R (State_Monad.return n)" "R (-1) \<Longrightarrow> gives R (fail c)"
  "gives R m1 \<Longrightarrow> gives R m2 \<Longrightarrow> gives R (if b then m1 else m2)"
  by (simp_all add: gives_def fail_def wp_simps)

lemma gives_abandon: "R (-1) \<Longrightarrow> gives R (abandon s c)"
  unfolding abandon_def by (intro gives_bind gives_rules)

lemma configure_gives: "gives (\<lambda>r. r < 0 \<or> r = s) (tcp_configure s f)"
  unfolding tcp_configure_def tcp_dial_def by (intro gives_bind gives_rules gives_abandon) auto

definition made_here :: "test \<Rightarrow> int \<Rightarrow> test \<Rightarrow> bool" where
  "made_here u r t \<longleftrightarrow> (\<exists>evs. since_then u evs t
     \<and> (r < 0 \<or> (\<exists>d. (Socket d SOCK_STREAM (if multipath u then IPPROTO_MPTCP else 0), r) \<in> set evs)))"

lemma made_fails: "since_then u evs t \<Longrightarrow> wp (fail c) (made_here u) t"
  by (auto simp: fail_def wp_simps made_here_def)

lemma made_dials:
  assumes "since_then u [] t"
  shows "wp (do { sk \<leftarrow> call (Socket d SOCK_STREAM (if multipath u then IPPROTO_MPTCP else 0));
    if rv sk < 0 then fail c else tcp_configure (rv sk) f }) (made_here u) t"
proof -
  let ?c = "Socket d SOCK_STREAM (if multipath u then IPPROTO_MPTCP else 0)"
  have s: "since_then u [(?c, r)] (after ?c r t)" for r
    using since_adds [OF assms] by (simp add: chosen_socket_def)
  have "wp (tcp_configure r f) (made_here u) (after ?c r t)" for r
  proof -
    have "wp (tcp_configure r f) (\<lambda>n. since_then u [(?c, r)]) (after ?c r t)"
      using since_configure s by (simp add: preserves_def)
    moreover have "wp (tcp_configure r f) (\<lambda>n t. n < 0 \<or> n = r) (after ?c r t)"
      using configure_gives by (simp add: gives_def)
    ultimately show ?thesis unfolding wp_iff_run made_here_def by fastforce
  qed
  then show ?thesis unfolding wp_bind wp_call wp_if using made_fails [OF s] by simp
qed

lemma connect_sockets: "wp iperf_tcp_connect (made_here t) t"
proof -
  have start: "since_then t [] t" by (simp add: since_then_def)
  have look: "preserves (since_then t []) (if b then do {
         g \<leftarrow> call (Getaddrinfo addr dm SOCK_STREAM False);
         set_gerror (rv g);
         State_Monad.return (rv g = 0) }
       else State_Monad.return True)" for b addr dm
    by (intro since_rules) (simp add: chosen_socket_def)
  have rest: "wp (do {
       host \<leftarrow> gets server_hostname;
       g \<leftarrow> call (Getaddrinfo host dm SOCK_STREAM False);
       set_gerror (rv g);
       if rv g \<noteq> 0 then fail IESTREAMCONNECT else do {
         mp \<leftarrow> gets multipath;
         sk \<leftarrow> call (Socket (rval g) SOCK_STREAM (if mp then IPPROTO_MPTCP else 0));
         if rv sk < 0 then fail IESTREAMCONNECT
         else tcp_configure (rv sk) (rval g) } }) (made_here t) w" if "since_then t [] w" for dm w
  proof -
    define v where "v = (after (Getaddrinfo (server_hostname w) dm SOCK_STREAM False) (rv (answer w)) w)\<lparr>gerror := rv (answer w)\<rparr>"
    have v: "since_then t [] v"
      unfolding v_def since_upd(3) using that by (rule since_after) (simp add: chosen_socket_def)
    then have m: "multipath v = multipath t" by (simp add: since_then_def)
    have "wp (set_gerror (rv (answer w))) Q (after (Getaddrinfo (server_hostname w) dm SOCK_STREAM False) (rv (answer w)) w) = Q () v"
      for Q by (simp add: v_def wp_simps)
    then show ?thesis
      using made_fails [OF v] made_dials [OF v] unfolding wp_bind wp_gets wp_call wp_if by (auto simp: m split: if_splits)
  qed
  show ?thesis
    unfolding iperf_tcp_connect_def
    apply (simp only: wp_bind wp_gets)
    apply (rule wp_mono [where P = "\<lambda>r. since_then t []"])
     apply (use look start in \<open>simp add: preserves_def\<close>)
    apply (simp only: wp_if if_not_P)
    using made_fails rest unfolding wp_bind by auto
qed

end
