(* ===== verification/Traffic.thy ===== *)
theory Traffic
  imports Tcp
begin

text \<open>
  Moving data during a test (\<open>iperf/src/iperf_api.c\<close>): sending and receiving on all
  streams, sending from and receiving into a file, throttling a stream to its target rate,
  the server's limit on the total rate, the statistics of an interval and their reset.
\<close>

section \<open>From double to integer\<close>

text \<open>
  A quotient of doubles, \<open>None\<close> for a division by zero, and the conversion of the result
  to \<open>uint64_t\<close>. Where C leaves the conversion undefined (infinity, NaN, out of range) the
  value is \<open>ub\<close>, whatever the machine makes of it.
\<close>

definition double_div :: "rat \<Rightarrow> rat \<Rightarrow> rat option" where
  "double_div a b = (if b = 0 then None else Some (f64 (a / b)))"

definition cast_u64 :: "u64 \<Rightarrow> rat option \<Rightarrow> u64" where
  "cast_u64 ub x = (case x of None \<Rightarrow> ub
     | Some q \<Rightarrow> if - 1 < q \<and> q < 18446744073709551616
                 then of_int (if q < 0 then 0 else \<lfloor>q\<rfloor>) else ub)"

section \<open>The streams of a test\<close>

definition put_stream :: "nat \<Rightarrow> stream \<Rightarrow> test \<Rightarrow> test" where
  "put_stream i sp t = t\<lparr>streams := (streams t)[i := sp]\<rparr>"

section \<open>Throttling\<close>

text \<open>The rate measured over the stream's life, in bits per second.\<close>

definition bits_per_second :: "u64 \<Rightarrow> iperf_time \<Rightarrow> stream \<Rightarrow> u64" where
  "bits_per_second ub now sp =
     (let seconds = iperf_time_in_secs (snd (iperf_time_diff (start_time_fixed (result sp)) now))
      in cast_u64 ub (double_div (f64 (of_nat (unat (bytes_sent (result sp) * 8)))) seconds))"

definition iperf_check_throttle :: "u64 \<Rightarrow> iperf_time \<Rightarrow> nat \<Rightarrow> test \<Rightarrow> test" where
  "iperf_check_throttle ub now i t =
     (let sp = streams t ! i in
      if test_done t \<or> rate (settings t) = 0 then t
      else if bits_per_second ub now sp < rate (settings t)
      then (put_stream i (sp\<lparr>green_light := True\<rparr>) t)\<lparr>write_set := insert (stream_socket sp) (write_set t)\<rparr>
      else (put_stream i (sp\<lparr>green_light := False\<rparr>) t)\<lparr>write_set := write_set t - {stream_socket sp}\<rparr>)"

section \<open>The server's limit on the total rate\<close>

text \<open>
  \<open>None\<close>: the code indexes its array of \<open>MAX_INTERVAL\<close> entries out of bounds. The index
  (\<open>uint64_t\<close>) is compared with an \<open>int\<close>, which is converted.
\<close>

definition sum_traffic :: "int \<Rightarrow> u64 list \<Rightarrow> u64 option" where
  "sum_traffic n xs = (if n > int (length xs) then None else Some (sum_list (take (nat n) xs)))"

definition iperf_check_total_rate :: "u64 \<Rightarrow> u64 \<Rightarrow> test \<Rightarrow> test option" where
  "iperf_check_total_rate ub last_interval_bytes t =
     (if test_done t \<or> bitrate_limit (settings t) = 0 then Some t
      else
        let n = bitrate_limit_stats_per_interval (settings t);
            i1 = bitrate_limit_last_index t + 1;
            i = (if i1 \<ge> word_of_int n then 0 else i1)
        in if unat i \<ge> length (bitrate_limit_traffic t) then None
        else
          let t1 = t\<lparr>bitrate_limit_last_index := i,
                     bitrate_limit_traffic := (bitrate_limit_traffic t)[unat i := last_interval_bytes],
                     bitrate_limit_stats_count := bitrate_limit_stats_count t + 1\<rparr>
          in if bitrate_limit_stats_count t1 < word_of_int n then Some t1
          else
            (case sum_traffic n (bitrate_limit_traffic t1) of
               None \<Rightarrow> None
             | Some tot \<Rightarrow>
                 let seconds = f64 (stats_interval t1 * of_int n);
                     bps = cast_u64 ub (double_div (f64 (of_nat (unat (tot * 8)))) seconds)
                 in Some (if bps > bitrate_limit (settings t1) then t1\<lparr>bitrate_limit_exceeded := True\<rparr> else t1)))"

section \<open>Sending from a file, receiving into a file\<close>

definition proto_snd :: "stream \<Rightarrow> (test, int \<times> stream) state" where
  "proto_snd sp = do {
     p \<leftarrow> gets protocol;
     if p = Pudp then iperf_udp_send sp else iperf_tcp_send sp }"

definition proto_rcv :: "stream \<Rightarrow> (test, int \<times> stream) state" where
  "proto_rcv sp = do {
     p \<leftarrow> gets protocol;
     if p = Pudp then iperf_udp_recv sp else iperf_tcp_recv sp }"

definition sread :: "int \<Rightarrow> nat \<Rightarrow> ('a os_scheme, int \<times> bytes) state" where
  "sread fd n = State (\<lambda>w. case sys_read fd n w of (r, bs, w') \<Rightarrow> ((r, bs), w'))"

text \<open>
  \<open>diskfile_send\<close>. The file is read to the front of the buffer, for as many bytes as are not
  left over from the last block; what \<open>snd2\<close> did not send is moved to the front afterwards.
\<close>

definition diskfile_fill :: "stream \<Rightarrow> (test, int \<times> stream) state" where
  "diskfile_fill sp = do {
     size \<leftarrow> gets (\<lambda>t. blksize (settings t));
     finished \<leftarrow> gets test_done;
     if diskfile_left sp < size \<and> \<not> finished then do {
       got \<leftarrow> sread (diskfile_fd sp) (nat (size - diskfile_left sp));
       let buffer_left = diskfile_left sp + fst got;
       let sp1 = sp\<lparr>buffer := put_header (snd got) (buffer sp)\<rparr>;
       let sp2 = (if buffer_left \<noteq> size then sp1\<lparr>pending_size := buffer_left\<rparr> else sp1);
       if buffer_left = 0 then do {
         modify (\<lambda>t. t\<lparr>test_done := True\<rparr>);
         State_Monad.return (buffer_left, sp2) }
       else State_Monad.return (buffer_left, sp2) }
     else State_Monad.return (diskfile_left sp, sp) }"

definition diskfile_shift :: "int \<Rightarrow> int \<Rightarrow> stream \<Rightarrow> stream" where
  "diskfile_shift bsz left sp =
     (if left \<noteq> 0 \<and> left < bsz
      then sp\<lparr>diskfile_left := left,
              buffer := put_header (take (nat left) (drop (nat (bsz - left)) (buffer sp))) (buffer sp)\<rparr>
      else sp\<lparr>diskfile_left := left\<rparr>)"

definition diskfile_send :: "stream \<Rightarrow> (test, int \<times> stream) state" where
  "diskfile_send sp = do {
     filled \<leftarrow> diskfile_fill sp;
     size \<leftarrow> gets (\<lambda>t. blksize (settings t));
     finished \<leftarrow> gets test_done;
     if finished \<or> fst filled = 0 then do {
       modify (\<lambda>t. t\<lparr>test_done := True\<rparr>);
       State_Monad.return (0, snd filled) }
     else do {
       sent \<leftarrow> proto_snd (snd filled);
       State_Monad.return (fst sent,
         if fst sent < 0 then snd sent else diskfile_shift size (fst filled - fst sent) (snd sent)) } }"

definition diskfile_recv :: "stream \<Rightarrow> (test, int \<times> stream) state" where
  "diskfile_recv sp = do {
     got \<leftarrow> proto_rcv sp;
     if fst got > 0 then do {
       w \<leftarrow> swrite (diskfile_fd sp) (take (nat (fst got)) (buffer (snd got)));
       f \<leftarrow> call (Fsync (diskfile_fd sp));
       State_Monad.return got }
     else State_Monad.return got }"

text \<open>A stream with a file has the two file routines as its \<open>snd\<close> and \<open>rcv\<close>.\<close>

definition stream_snd :: "stream \<Rightarrow> (test, int \<times> stream) state" where
  "stream_snd sp = (if diskfile_fd sp = -1 then proto_snd sp else diskfile_send sp)"

definition stream_rcv :: "stream \<Rightarrow> (test, int \<times> stream) state" where
  "stream_rcv sp = (if diskfile_fd sp = -1 then proto_rcv sp else diskfile_recv sp)"

section \<open>One round of sending and receiving\<close>

text \<open>
  \<open>send_streams\<close>: the loop over the streams for one value of \<open>multisend\<close>. \<open>Inr a\<close>: the loop
  ended or was broken off, \<open>a\<close> says whether a stream sent; \<open>Inl r\<close>: return \<open>r\<close>.
\<close>

definition may_send :: "int set option \<Rightarrow> stream \<Rightarrow> bool" where
  "may_send wset sp \<longleftrightarrow> green_light sp \<and> is_sender sp
     \<and> (case wset of None \<Rightarrow> True | Some s \<Rightarrow> stream_socket sp \<in> s)"

definition quota_reached :: "int \<Rightarrow> test \<Rightarrow> bool" where
  "quota_reached multisnd t \<longleftrightarrow> multisnd > 1 \<and>
     ((s_bytes (settings t) \<noteq> 0 \<and> t_bytes_sent t \<ge> s_bytes (settings t)) \<or>
      (s_blocks (settings t) \<noteq> 0 \<and> t_blocks_sent t \<ge> s_blocks (settings t)))"

primrec send_streams :: "u64 \<Rightarrow> int \<Rightarrow> bool \<Rightarrow> iperf_time \<Rightarrow> int set option \<Rightarrow> nat list \<Rightarrow> bool \<Rightarrow>
    (test, int + bool) state" where
  "send_streams ub multisnd check now wset [] active = State_Monad.return (Inr active)"
| "send_streams ub multisnd check now wset (i # is) active = do {
     sp \<leftarrow> gets (\<lambda>t. streams t ! i);
     quota \<leftarrow> gets (quota_reached multisnd);
     if \<not> may_send wset sp then send_streams ub multisnd check now wset is active
     else if quota then State_Monad.return (Inr active)
     else do {
       sent \<leftarrow> stream_snd sp;
       modify (put_stream i (snd sent));
       if fst sent < 0 then
         (if fst sent = NET_SOFTERROR then State_Monad.return (Inr active)
          else do { set_i_errno IESTREAMWRITE; State_Monad.return (Inl (fst sent)) })
       else do {
         modify (\<lambda>t. t\<lparr>t_bytes_sent := t_bytes_sent t + word_of_int (fst sent),
           t_blocks_sent := (if pending_size (snd sent) = 0 then t_blocks_sent t + 1 else t_blocks_sent t)\<rparr>);
         modify (\<lambda>t. if check then iperf_check_throttle ub now i t else t);
         send_streams ub multisnd check now wset is True } } }"

primrec send_rounds :: "u64 \<Rightarrow> nat \<Rightarrow> bool \<Rightarrow> int set option \<Rightarrow> (test, int) state" where
  "send_rounds ub 0 check wset = State_Monad.return 0"
| "send_rounds ub (Suc m) check wset = do {
     now \<leftarrow> (if check then do { g \<leftarrow> call Gettime; State_Monad.return (rtime g) }
             else State_Monad.return no_time);
     n \<leftarrow> gets (\<lambda>t. length (streams t));
     res \<leftarrow> send_streams ub (int (Suc m)) check now wset [0..<n] False;
     (case res of
        Inl r \<Rightarrow> State_Monad.return r
      | Inr active \<Rightarrow> if active then send_rounds ub m check wset else State_Monad.return 0) }"

definition multisend_of :: "test \<Rightarrow> int" where
  "multisend_of t = (if burst (settings t) \<noteq> 0 then burst (settings t)
     else if rate (settings t) = 0 then multisend t else 1)"

definition throttle_senders :: "u64 \<Rightarrow> iperf_time \<Rightarrow> test \<Rightarrow> test" where
  "throttle_senders ub now t =
     foldl (\<lambda>u i. if is_sender (streams u ! i) then iperf_check_throttle ub now i u else u)
       t [0..<length (streams t)]"

text \<open>
  \<open>iperf_send\<close>: the result and what is left of the caller's set of writable descriptors.
\<close>

definition iperf_send :: "u64 \<Rightarrow> int set option \<Rightarrow> (test, int \<times> int set option) state" where
  "iperf_send ub wset = do {
     m \<leftarrow> gets multisend_of;
     check \<leftarrow> gets (\<lambda>t. rate (settings t) \<noteq> 0 \<and> burst (settings t) = 0);
     r \<leftarrow> send_rounds ub (nat m) check wset;
     if r < 0 then State_Monad.return (r, wset) else do {
       (if \<not> check then do { g \<leftarrow> call Gettime; modify (throttle_senders ub (rtime g)) }
        else State_Monad.return ());
       socks \<leftarrow> gets (\<lambda>t. stream_socket ` set (streams t));
       State_Monad.return (0, map_option (\<lambda>s. s - socks) wset) } }"

primrec recv_streams :: "nat list \<Rightarrow> int set \<Rightarrow> (test, int \<times> int set) state" where
  "recv_streams [] rset = State_Monad.return (0, rset)"
| "recv_streams (i # is) rset = do {
     sp \<leftarrow> gets (\<lambda>t. streams t ! i);
     if stream_socket sp \<in> rset \<and> \<not> is_sender sp then do {
       got \<leftarrow> stream_rcv sp;
       modify (put_stream i (snd got));
       if fst got < 0 then do { set_i_errno IESTREAMREAD; State_Monad.return (fst got, rset) }
       else do {
         modify (\<lambda>t. t\<lparr>t_bytes_received := t_bytes_received t + word_of_int (fst got),
                       t_blocks_received := t_blocks_received t + 1\<rparr>);
         recv_streams is (rset - {stream_socket sp}) } }
     else recv_streams is rset }"

definition iperf_recv :: "int set \<Rightarrow> (test, int \<times> int set) state" where
  "iperf_recv rset = do {
     n \<leftarrow> gets (\<lambda>t. length (streams t));
     recv_streams [0..<n] rset }"

section \<open>Statistics\<close>

text \<open>\<open>iperf_init_test\<close>; reading the clock is taken to succeed, UDP's \<open>init\<close> does nothing.\<close>

definition iperf_init_test :: "(test, int) state" where
  "iperf_init_test = do {
     g \<leftarrow> call Gettime;
     modify (\<lambda>t. t\<lparr>streams := map (\<lambda>sp. sp\<lparr>result := (result sp)\<lparr>start_time := rtime g,
       start_time_fixed := rtime g\<rparr>\<rparr>) (streams t)\<rparr>);
     State_Monad.return 0 }"

text \<open>
  \<open>tcp_info.c\<close>: what the kernel says about a socket. On an error the structure keeps what was in
  it; either way \<open>rinfo\<close> is its content after the call.
\<close>

definition save_tcpinfo :: "int \<Rightarrow> (test, tcp_info) state" where
  "save_tcpinfo s = do { r \<leftarrow> call (Tcpinfo s); State_Monad.return (rinfo r) }"

definition get_total_retransmits :: "tcp_info \<Rightarrow> int" where
  "get_total_retransmits k = uint (tcpi_total_retrans k)"

definition get_snd_cwnd :: "tcp_info \<Rightarrow> int" where
  "get_snd_cwnd k = uint (tcpi_snd_cwnd k * tcpi_snd_mss k)"

definition get_snd_wnd :: "tcp_info \<Rightarrow> int" where
  "get_snd_wnd k = uint (tcpi_snd_wnd k)"

definition get_rtt :: "tcp_info \<Rightarrow> int" where
  "get_rtt k = uint (tcpi_rtt k)"

definition get_rttvar :: "tcp_info \<Rightarrow> int" where
  "get_rttvar k = uint (tcpi_rttvar k)"

definition get_pmtu :: "tcp_info \<Rightarrow> int" where
  "get_pmtu k = uint (tcpi_pmtu k)"

definition reset_stream_stats :: "iperf_time \<Rightarrow> int option \<Rightarrow> stream \<Rightarrow> stream" where
  "reset_stream_stats now retrans sp =
     sp\<lparr>omitted_packet_count := packet_count sp, omitted_cnt_error := cnt_error sp,
        omitted_outoforder_packets := outoforder_packets sp, jitter := 0,
        result := (result sp)\<lparr>bytes_sent_omit := bytes_sent (result sp), bytes_received := 0,
          bytes_sent_this_interval := 0, bytes_received_this_interval := 0,
          stream_prev_total_retrans :=
            (case retrans of Some n \<Rightarrow> n | None \<Rightarrow> stream_prev_total_retrans (result sp)),
          stream_retrans := 0, start_time := now\<rparr>\<rparr>"

definition iperf_reset_stats :: "(test, unit) state" where
  "iperf_reset_stats = do {
     modify (\<lambda>t. t\<lparr>t_bytes_sent := 0, t_blocks_sent := 0\<rparr>);
     g \<leftarrow> call Gettime;
     n \<leftarrow> gets (\<lambda>t. length (streams t));
     for_each [0..<n] (\<lambda>i. do {
       sp \<leftarrow> gets (\<lambda>t. streams t ! i);
       has \<leftarrow> gets (\<lambda>t. sender_has_retransmits t = 1);
       retrans \<leftarrow> (if has then do {
           k \<leftarrow> save_tcpinfo (stream_socket sp);
           State_Monad.return (Some (to_int (get_total_retransmits k))) }
                   else State_Monad.return None);
       modify (put_stream i (reset_stream_stats (rtime g) retrans sp)) }) }"

text \<open>
  \<open>iperf_stats_callback\<close> for one stream: the interval that ends now. \<open>info\<close> is the socket's
  \<open>TCP_INFO\<close>, for TCP. \<open>tcp_interval\<close> is the part for a sender that counts retransmissions: the
  new interval and the extremes and sums of the stream.
\<close>

definition tcp_interval :: "tcp_info \<Rightarrow> stream_result \<times> interval_results \<Rightarrow> stream_result \<times> interval_results" where
  "tcp_interval k = (\<lambda>(rp, ir).
     (let total_retrans = get_total_retransmits k;
          ir1 = ir\<lparr>ir_retrans := to_int (total_retrans - stream_prev_total_retrans rp),
            ir_snd_cwnd := to_int (get_snd_cwnd k), ir_snd_wnd := to_int (get_snd_wnd k),
            ir_rtt := to_int (get_rtt k), ir_rttvar := to_int (get_rttvar k), ir_pmtu := to_int (get_pmtu k)\<rparr>
      in (rp\<lparr>stream_retrans := stream_retrans rp + ir_retrans ir1,
             stream_prev_total_retrans := to_int total_retrans,
             stream_max_snd_cwnd := (if ir_snd_cwnd ir1 > stream_max_snd_cwnd rp then ir_snd_cwnd ir1 else stream_max_snd_cwnd rp),
             stream_max_snd_wnd := (if ir_snd_wnd ir1 > stream_max_snd_wnd rp then ir_snd_wnd ir1 else stream_max_snd_wnd rp),
             stream_max_rtt := (if ir_rtt ir1 > stream_max_rtt rp then ir_rtt ir1 else stream_max_rtt rp),
             stream_min_rtt := (if stream_min_rtt rp = 0 \<or> ir_rtt ir1 < stream_min_rtt rp then ir_rtt ir1 else stream_min_rtt rp),
             stream_sum_rtt := stream_sum_rtt rp + ir_rtt ir1,
             stream_count_rtt := stream_count_rtt rp + 1\<rparr>, ir1)))"

definition udp_interval :: "stream \<Rightarrow> interval_results option \<Rightarrow> interval_results \<Rightarrow> interval_results" where
  "udp_interval sp irp ir =
     (let base = (\<lambda>f. case irp of None \<Rightarrow> 0 | Some last_ir \<Rightarrow> f last_ir)
      in ir\<lparr>ir_interval_packet_count := packet_count sp - base ir_packet_count,
            ir_interval_outoforder := outoforder_packets sp - base ir_outoforder,
            ir_interval_cnt_error := cnt_error sp - base ir_cnt_error,
            ir_packet_count := packet_count sp, ir_jitter := jitter sp,
            ir_outoforder := outoforder_packets sp, ir_cnt_error := cnt_error sp\<rparr>)"

definition empty_interval :: "tcp_info \<Rightarrow> bool \<Rightarrow> interval_results" where
  "empty_interval k om = \<lparr>ir_bytes = 0, ir_start = no_time, ir_end = no_time, ir_interval_packet_count = 0,
     ir_interval_outoforder = 0, ir_interval_cnt_error = 0, ir_packet_count = 0, ir_outoforder = 0,
     ir_cnt_error = 0, ir_jitter = 0, ir_omitted = om, ir_tcp_info = k, ir_retrans = 0, ir_snd_cwnd = 0,
     ir_snd_wnd = 0, ir_rtt = 0, ir_rttvar = 0, ir_pmtu = 0\<rparr>"

definition add_to_interval_list :: "interval_results \<Rightarrow> stream_result \<Rightarrow> stream_result" where
  "add_to_interval_list ir rp = rp\<lparr>interval_results := interval_results rp @ [ir]\<rparr>"

definition stats_interval_of :: "test \<Rightarrow> iperf_time \<Rightarrow> tcp_info option \<Rightarrow> stream \<Rightarrow> stream" where
  "stats_interval_of t now info sp =
     (let rp = result sp;
          irp = (if interval_results rp = [] then None else Some (last (interval_results rp)));
          temp = (empty_interval (case info of None \<Rightarrow> no_info | Some k \<Rightarrow> k) (omitting t))
            \<lparr>ir_bytes := (if is_sender sp then bytes_sent_this_interval rp else bytes_received_this_interval rp),
             ir_start := (if irp = None then start_time rp else end_time rp), ir_end := now\<rparr>;
          rp1 = rp\<lparr>end_time := now\<rparr>;
          (rp2, temp2) =
            (if protocol t = Ptcp then
               (case info of Some k \<Rightarrow> if sender_has_retransmits t = 1 then tcp_interval k (rp1, temp) else (rp1, temp)
                | None \<Rightarrow> (rp1, temp))
             else (rp1, udp_interval sp irp temp))
      in sp\<lparr>result := (add_to_interval_list temp2 rp2)
           \<lparr>bytes_sent_this_interval := 0, bytes_received_this_interval := 0\<rparr>\<rparr>)"

definition interval_traffic :: "test \<Rightarrow> u64" where
  "interval_traffic t = sum_list (map (\<lambda>sp. bytes_sent_this_interval (result sp)
     + bytes_received_this_interval (result sp)) (streams t))"

text \<open>The result says whether the rate check stayed inside its array.\<close>

definition check_server_rate :: "u64 \<Rightarrow> u64 \<Rightarrow> (test, bool) state" where
  "check_server_rate ub traffic = State (\<lambda>t.
     if test_role t = CHR ''s'' then
       (case iperf_check_total_rate ub traffic t of Some t' \<Rightarrow> (True, t') | None \<Rightarrow> (False, t))
     else (True, t))"

definition iperf_stats_callback :: "u64 \<Rightarrow> (test, bool) state" where
  "iperf_stats_callback ub = do {
     traffic \<leftarrow> gets interval_traffic;
     n \<leftarrow> gets (\<lambda>t. length (streams t));
     for_each [0..<n] (\<lambda>i. do {
       g \<leftarrow> call Gettime;
       sp \<leftarrow> gets (\<lambda>t. streams t ! i);
       tcp \<leftarrow> gets (\<lambda>t. protocol t = Ptcp \<and> has_tcpinfo);
       info \<leftarrow> (if tcp then do { k \<leftarrow> save_tcpinfo (stream_socket sp); State_Monad.return (Some k) }
         else State_Monad.return None);
       modify (\<lambda>t. put_stream i (stats_interval_of t (rtime g) info sp) t) });
     check_server_rate ub traffic }"

section \<open>What sending changes, and what it does not\<close>

text \<open>
  \<open>sent_only t sp r sp' t'\<close>: besides the process state and the end-of-file flag nothing of the
  test changed, and the stream's byte counter moved by exactly \<open>r\<close> (not at all for an error).
\<close>

definition same_test :: "test \<Rightarrow> test \<Rightarrow> bool" where
  "same_test t t' \<longleftrightarrow> streams t' = streams t \<and> settings t' = settings t \<and> protocol t' = protocol t
     \<and> t_bytes_sent t' = t_bytes_sent t \<and> t_blocks_sent t' = t_blocks_sent t
     \<and> t_bytes_received t' = t_bytes_received t \<and> t_blocks_received t' = t_blocks_received t
     \<and> test_state t' = test_state t \<and> zerocopy t' = zerocopy t \<and> multisend t' = multisend t"

definition counts :: "(stream_result \<Rightarrow> u64) \<Rightarrow> stream \<Rightarrow> int \<Rightarrow> stream \<Rightarrow> bool" where
  "counts f sp r sp' \<longleftrightarrow> f (result sp') = f (result sp) + (if r < 0 then 0 else word_of_int r)"

lemma same_test_trans: "same_test a b \<Longrightarrow> same_test b c \<Longrightarrow> same_test a c"
  by (simp add: same_test_def)

lemma same_test_os:
  "same_test t (after c r t)" "same_test t (t\<lparr>i_errno := e\<rparr>)" "same_test t (t\<lparr>errno := e\<rparr>)"
  "same_test t t" "same_test t (t\<lparr>test_done := b\<rparr>)"
  by (simp_all add: same_test_def after_def)

lemma after_select [simp]:
  "streams (after c r t) = streams t" "settings (after c r t) = settings t"
  "protocol (after c r t) = protocol t" "test_done (after c r t) = test_done t"
  "test_state (after c r t) = test_state t" "zerocopy (after c r t) = zerocopy t"
  "udp_counters_64bit (after c r t) = udp_counters_64bit t"
  by (simp_all add: after_def)

text \<open>The block-moving loops touch the process state only.\<close>

lemma moving_test:
  fixes w :: test
  shows "same_test w (snd (snd (Nread_loop fd n k buf w)))"
    and "same_test w (snd (Nwrite_loop fd n bs w))"
    and "same_test w (snd (Nsendfile_loop a b n k w))"
  by (rule Nread_loop_inv Nwrite_loop_inv Nsendfile_loop_inv; auto intro: same_test_trans same_test_os)+

text \<open>
  \<open>tells t m P\<close>: \<open>m\<close>, run on a test that differs from \<open>t\<close> at most in the process state and
  the end-of-file flag, leaves it so and returns a value that satisfies \<open>P\<close>.
\<close>

definition tells :: "test \<Rightarrow> (test, 'a) state \<Rightarrow> ('a \<Rightarrow> bool) \<Rightarrow> bool" where
  "tells t m P \<longleftrightarrow> (\<forall>w. same_test t w \<longrightarrow> wp m (\<lambda>r w'. same_test t w' \<and> P r) w)"

named_theorems tell_rules \<open>code that leaves the test alone\<close>

lemma tells_return [tell_rules]: "P a \<Longrightarrow> tells t (State_Monad.return a) P"
  by (simp add: tells_def wp_simps)

lemma tells_bind:
  assumes "tells t m P" "\<And>r. P r \<Longrightarrow> tells t (f r) Q"
  shows "tells t (State_Monad.bind m f) Q"
  unfolding tells_def
proof (intro allI impI)
  fix w
  assume "same_test t w"
  then have "wp m (\<lambda>r w'. same_test t w' \<and> P r) w" using assms(1) by (simp add: tells_def)
  then have "wp m (\<lambda>r. wp (f r) (\<lambda>r w'. same_test t w' \<and> Q r)) w"
    by (rule wp_mono) (use assms(2) in \<open>auto simp: tells_def\<close>)
  then show "wp (State_Monad.bind m f) (\<lambda>r w'. same_test t w' \<and> Q r) w" by (simp add: wp_bind)
qed

lemma tells_bind_any [tell_rules]:
  "tells t m (\<lambda>r. True) \<Longrightarrow> (\<And>r. tells t (f r) Q) \<Longrightarrow> tells t (State_Monad.bind m f) Q"
  by (rule tells_bind)

lemma tells_if [tell_rules]:
  "(b \<Longrightarrow> tells t m P) \<Longrightarrow> (\<not> b \<Longrightarrow> tells t n P) \<Longrightarrow> tells t (if b then m else n) P"
  by simp

lemma tells_let [tell_rules]: "(\<And>v. v = x \<Longrightarrow> tells t (f v) P) \<Longrightarrow> tells t (Let x f) P"
  by simp

lemma tells_gets [tell_rules]: "tells t (gets f) (\<lambda>r. True)"
  by (simp add: tells_def wp_simps)

lemma tells_call [tell_rules]: "tells t (call c) (\<lambda>r. True)"
  by (auto simp: tells_def wp_simps intro: same_test_trans same_test_os)

lemma tells_done [tell_rules]: "tells t (modify (\<lambda>t. t\<lparr>test_done := b\<rparr>)) (\<lambda>r. True)"
  by (auto simp: tells_def wp_simps intro: same_test_trans same_test_os)

lemma tells_moving [tell_rules]:
  "tells t (nread fd n) (\<lambda>r. True)" "tells t (nwrite fd bs) (\<lambda>r. True)"
  "tells t (nsendfile a b n) (\<lambda>r. True)"
  unfolding tells_def nread_def nwrite_def nsendfile_def wp_iff_run state.sel Nread_def Nwrite_def Nsendfile_def
  by (simp_all add: case_prod_beta) (blast intro: same_test_trans moving_test)+

lemma tells_single [tell_rules]: "tells t (sread fd n) (\<lambda>r. True)" "tells t (swrite fd bs) (\<lambda>r. True)"
  by (auto simp: tells_def sread_def swrite_def wp_simps sys_read_def sys_write_def Let_def
      intro: same_test_trans same_test_os)

lemma udp_send_counts: "tells t (iperf_udp_send sp) (\<lambda>(r, sp'). counts bytes_sent sp r sp')"
  unfolding iperf_udp_send_def by (intro tell_rules) (simp add: counts_def add_sent_def)

lemma tcp_send_counts: "tells t (iperf_tcp_send sp) (\<lambda>(r, sp'). counts bytes_sent sp r sp')"
  unfolding iperf_tcp_send_def by (intro tell_rules) (simp_all add: counts_def add_sent_def)

lemma proto_snd_counts: "tells t (proto_snd sp) (\<lambda>(r, sp'). counts bytes_sent sp r sp')"
  unfolding proto_snd_def by (intro tell_rules udp_send_counts tcp_send_counts)

lemma diskfile_fill_result:
  "tells t (diskfile_fill sp) (\<lambda>(n, sp'). result sp' = result sp)"
  unfolding diskfile_fill_def by (intro tell_rules) simp_all

lemma diskfile_send_counts: "tells t (diskfile_send sp) (\<lambda>(r, sp'). counts bytes_sent sp r sp')"
  unfolding diskfile_send_def
proof (rule tells_bind [OF diskfile_fill_result])
  fix filled :: "int \<times> stream"
  assume f: "case filled of (n, sp') \<Rightarrow> result sp' = result sp"
  have send: "tells t (do { sent \<leftarrow> proto_snd (snd filled); State_Monad.return (fst sent,
      if fst sent < 0 then snd sent else diskfile_shift sz (fst filled - fst sent) (snd sent)) })
    (\<lambda>(r, sp'). counts bytes_sent sp r sp')" for sz
    by (rule tells_bind [OF proto_snd_counts], rule tells_return)
      (use f in \<open>auto simp: counts_def diskfile_shift_def split: prod.splits\<close>)
  then show "tells t (do { size \<leftarrow> gets (\<lambda>t. blksize (settings t)); finished \<leftarrow> gets test_done;
      if finished \<or> fst filled = 0 then do {
        modify (\<lambda>t. t\<lparr>test_done := True\<rparr>); State_Monad.return (0, snd filled) }
      else do { sent \<leftarrow> proto_snd (snd filled); State_Monad.return (fst sent,
        if fst sent < 0 then snd sent else diskfile_shift size (fst filled - fst sent) (snd sent)) } })
    (\<lambda>(r, sp'). counts bytes_sent sp r sp')"
    using f by (intro tells_bind_any [OF tells_gets] tells_if send tells_bind_any [OF tells_done] tells_return)
      (auto simp: counts_def split: prod.splits)
qed

lemma stream_snd_counts: "tells t (stream_snd sp) (\<lambda>(r, sp'). counts bytes_sent sp r sp')"
  unfolding stream_snd_def by (intro tell_rules proto_snd_counts diskfile_send_counts)

text \<open>
  The test's total of bytes sent moves with the streams' counters: their difference is
  the same before and after \<open>iperf_send\<close>, whatever happens on the way.
\<close>

definition stream_total :: "(stream_result \<Rightarrow> u64) \<Rightarrow> test \<Rightarrow> u64" where
  "stream_total f t = sum_list (map (\<lambda>sp. f (result sp)) (streams t))"

definition balance :: "test \<Rightarrow> u64" where
  "balance t = t_bytes_sent t - stream_total bytes_sent t"

lemma sum_list_put:
  fixes xs :: "u64 list"
  shows "i < length xs \<Longrightarrow> sum_list (xs[i := y]) = sum_list xs + (y - xs ! i)"
  by (induction xs arbitrary: i) (auto simp: nth_Cons split: nat.splits)

lemma stream_total_put:
  assumes "i < length (streams t)"
  shows "stream_total f (put_stream i sp t) = stream_total f t + (f (result sp) - f (result (streams t ! i)))"
  using sum_list_put [of i "map (\<lambda>sp. f (result sp)) (streams t)" "f (result sp)"] assms
  by (simp add: stream_total_def put_stream_def map_update)

definition ledger :: "u64 \<Rightarrow> nat \<Rightarrow> test \<Rightarrow> bool" where
  "ledger b n t \<longleftrightarrow> balance t = b \<and> length (streams t) = n"

lemma ledger_os: "ledger b n t \<Longrightarrow> ledger b n (after c r t)" "ledger b n (t\<lparr>i_errno := e\<rparr>) = ledger b n t"
  by (simp_all add: ledger_def balance_def stream_total_def after_def)

lemma ledger_throttle:
  "ledger b n t \<Longrightarrow> i < n \<Longrightarrow> ledger b n (iperf_check_throttle ub now i t)"
  using stream_total_put [of i t bytes_sent]
  by (auto simp: ledger_def balance_def iperf_check_throttle_def Let_def stream_total_def put_stream_def)

lemma ledger_sent:
  assumes "ledger b n t" "i < n" "same_test t w" "counts bytes_sent (streams t ! i) r sp'"
  shows "r < 0 \<Longrightarrow> ledger b n (put_stream i sp' w)"
    and "\<not> r < 0 \<Longrightarrow> ledger b n ((put_stream i sp' w)\<lparr>t_bytes_sent := t_bytes_sent (put_stream i sp' w) + word_of_int r,
          t_blocks_sent := k\<rparr>)"
  using assms stream_total_put [of i w bytes_sent sp']
  by (auto simp: ledger_def balance_def counts_def same_test_def stream_total_def put_stream_def algebra_simps)

lemma send_streams_ledger:
  assumes "set is \<subseteq> {..<n}"
  shows "preserves (ledger b n) (send_streams ub m check now wset is active)"
  using assms
proof (induction "is" arbitrary: active)
  case Nil
  then show ?case by (simp add: preserves_return)
next
  case (Cons i "is")
  then have i: "i < n" and IH: "\<And>a. preserves (ledger b n) (send_streams ub m check now wset is a)" by auto
  have throttle: "preserves (ledger b n) (modify (\<lambda>t. if check then iperf_check_throttle ub now i t else t))"
    by (rule preserves_modify) (simp add: ledger_throttle i)
  show ?case
    unfolding preserves_def
  proof (intro allI impI)
    fix t
    assume t: "ledger b n t"
    let ?rest = "\<lambda>sent. do {
       modify (put_stream i (snd sent));
       if fst sent < 0 then
         (if fst sent = NET_SOFTERROR then State_Monad.return (Inr active)
          else do { set_i_errno IESTREAMWRITE; State_Monad.return (Inl (fst sent)) })
       else do {
         modify (\<lambda>t. t\<lparr>t_bytes_sent := t_bytes_sent t + word_of_int (fst sent),
           t_blocks_sent := (if pending_size (snd sent) = 0 then t_blocks_sent t + 1 else t_blocks_sent t)\<rparr>);
         modify (\<lambda>t. if check then iperf_check_throttle ub now i t else t);
         send_streams ub m check now wset is True } }"
    have after_ok: "wp (modify (\<lambda>t. if check then iperf_check_throttle ub now i t else t))
        (\<lambda>u. wp (send_streams ub m check now wset is True) (\<lambda>r. ledger b n)) v" if "ledger b n v" for v
      using preserves_bind [OF throttle IH [of True]] that by (simp add: preserves_def wp_bind)
    have rest: "wp (?rest sent) (\<lambda>r. ledger b n) w"
      if "same_test t w" "counts bytes_sent (streams t ! i) (fst sent) (snd sent)" for sent w
      using ledger_sent [OF t i that] after_ok
      by (auto simp: wp_simps ledger_os)
    have "wp (stream_snd (streams t ! i)) (\<lambda>sent. wp (?rest sent) (\<lambda>r. ledger b n)) t"
    proof -
      have "wp (stream_snd (streams t ! i)) (\<lambda>sent w. same_test t w \<and>
          (case sent of (r, sp') \<Rightarrow> counts bytes_sent (streams t ! i) r sp')) t"
        using stream_snd_counts [of t "streams t ! i"] same_test_os(4) [of t] by (simp add: tells_def)
      then show ?thesis by (rule wp_mono) (rule rest, auto split: prod.splits)
    qed
    moreover have "wp (send_streams ub m check now wset is active) (\<lambda>r. ledger b n) t"
      using IH [of active] t by (simp add: preserves_def)
    ultimately show "wp (send_streams ub m check now wset (i # is) active) (\<lambda>r. ledger b n) t"
      using t by (simp add: wp_bind wp_gets wp_if wp_return)
  qed
qed

lemma wp_plain_modify: "wp (modify f) Q s = Q () (f s)"
  by (rule wp_modify)

lemma send_rounds_ledger: "preserves (ledger b n) (send_rounds ub m check wset)"
proof (induction m)
  case 0
  then show ?case by (simp add: preserves_return)
next
  case (Suc m)
  have time: "preserves (ledger b n) (call Gettime)"
    by (rule preserves_call) (rule ledger_os)
  have inner: "preserves (ledger b n) (do {
      res \<leftarrow> send_streams ub (int (Suc m)) check now wset [0..<k] False;
      (case res of Inl r \<Rightarrow> State_Monad.return r
       | Inr active \<Rightarrow> if active then send_rounds ub m check wset else State_Monad.return 0) })"
    if "k = n" for now k
  proof (rule preserves_bind [OF send_streams_ledger])
    show "set [0..<k] \<subseteq> {..<n}" using that by auto
    show "preserves (ledger b n) (case res of Inl r \<Rightarrow> State_Monad.return r
       | Inr active \<Rightarrow> if active then send_rounds ub m check wset else State_Monad.return 0)" for res
      using Suc by (cases res) (auto intro: inv_rules)
  qed
  show ?case
    unfolding send_rounds.simps
    by (intro preserves_bind preserves_gets inner inv_rules time) (simp add: ledger_def)
qed

lemma throttle_senders_ledger: "ledger b n t \<Longrightarrow> ledger b n (throttle_senders ub now t)"
proof -
  assume t: "ledger b n t"
  have "ledger b n (foldl (\<lambda>u i. if is_sender (streams u ! i) then iperf_check_throttle ub now i u else u) t is)"
    if "set is \<subseteq> {..<n}" for "is"
    using that t by (induction "is" arbitrary: t) (auto intro: ledger_throttle)
  from this [of "[0..<length (streams t)]"] t show ?thesis
    unfolding throttle_senders_def by (simp add: ledger_def atLeast0LessThan)
qed

lemma iperf_send_ledger: "preserves (ledger b n) (iperf_send ub wset)"
proof -
  have time: "preserves (ledger b n) (call Gettime)"
    by (rule preserves_call) (rule ledger_os)
  have thr: "preserves (ledger b n) (modify (throttle_senders ub now))" for now
    by (rule preserves_modify) (rule throttle_senders_ledger)
  show ?thesis
    unfolding iperf_send_def
    by (intro preserves_gets preserves_bind send_rounds_ledger inv_rules time thr)
qed

section \<open>The throttle compares with the exact rate\<close>

text \<open>
  If the exact average is at least the target, the stream is stopped; if it is at least a
  bit per second short of it, the stream may go on. (Rounding decides in between.)
\<close>

lemma cast_u64_in_range:
  assumes "0 \<le> q" "q < 18446744073709551616"
  shows "unat (cast_u64 ub (Some q)) = nat \<lfloor>q\<rfloor>"
proof -
  have "\<lfloor>q\<rfloor> < 18446744073709551616" "0 \<le> \<lfloor>q\<rfloor>"
    using assms by (simp_all add: floor_less_iff)
  then have "uint (word_of_int \<lfloor>q\<rfloor> :: u64) = \<lfloor>q\<rfloor>" by (intro uint_word_of_int_u64)
  then have "nat (uint (word_of_int \<lfloor>q\<rfloor> :: u64)) = nat \<lfloor>q\<rfloor>" by simp
  then show ?thesis using assms by (simp add: cast_u64_def)
qed

lemma double_quotient_bounds:
  assumes "0 < s" "n \<le> 2 ^ 53"
  shows "of_nat n * s \<le> of_nat b \<Longrightarrow> int n \<le> \<lfloor>f64 (of_nat b / s)\<rfloor>"
    and "of_nat b \<le> of_nat n * s \<Longrightarrow> \<lfloor>f64 (of_nat b / s)\<rfloor> \<le> int n"
  using assms by (auto intro!: f64.rounded_reaches f64.rounded_stays_at_most simp: field_simps)

lemma throttle_by_rate:
  assumes bits: "unat (bytes_sent (result sp) * 8) = 8 * unat (bytes_sent (result sp))"
      "8 * unat (bytes_sent (result sp)) \<le> 2 ^ 53"
    and s: "s = iperf_time_in_secs (snd (iperf_time_diff (start_time_fixed (result sp)) now))" "0 < s"
    and range: "of_nat (8 * unat (bytes_sent (result sp))) / s \<le> 2 ^ 62"
    and r: "unat r \<le> 2 ^ 53"
  shows "of_nat (unat r) * s \<le> of_nat (8 * unat (bytes_sent (result sp))) \<Longrightarrow>
      \<not> bits_per_second ub now sp < r"
    and "of_nat (8 * unat (bytes_sent (result sp))) \<le> (of_nat (unat r) - 1) * s \<Longrightarrow>
      bits_per_second ub now sp < r"
proof -
  define b where "b = 8 * unat (bytes_sent (result sp))"
  define q where "q = f64 (of_nat b / s)"
  have exact: "f64 (of_nat b) = of_nat b" using bits(2) by (intro f64_nat) (simp add: b_def)
  have q0: "0 \<le> q" using s(2) by (simp add: q_def f64_nonneg)
  have "q \<le> 2 * (of_nat b / s)" unfolding q_def using s(2) by (intro f64_le_twice) simp
  then have "q \<le> 2 ^ 63" using range unfolding b_def [symmetric] by simp
  then have q1: "q < 18446744073709551616" by simp
  have "bits_per_second ub now sp = cast_u64 ub (Some q)"
    unfolding bits_per_second_def Let_def s(1) [symmetric] bits(1) b_def [symmetric] exact
    using s(2) by (simp add: double_div_def q_def)
  then have bps: "unat (bits_per_second ub now sp) = nat \<lfloor>q\<rfloor>"
    using cast_u64_in_range [OF q0 q1] by simp
  show "\<not> bits_per_second ub now sp < r" if "of_nat (unat r) * s \<le> of_nat (8 * unat (bytes_sent (result sp)))"
  proof -
    have "int (unat r) \<le> \<lfloor>q\<rfloor>"
      unfolding q_def using double_quotient_bounds(1) [OF s(2) r] that unfolding b_def .
    then have "unat r \<le> nat \<lfloor>q\<rfloor>" by (simp only: le_nat_iff) 
    then show ?thesis by (simp add: word_less_nat_alt bps)
  qed
  show "bits_per_second ub now sp < r"
    if le: "of_nat (8 * unat (bytes_sent (result sp))) \<le> (of_nat (unat r) - 1) * s"
  proof (cases "unat r = 0")
    case True
    then have "of_nat b \<le> - s" using le by (simp add: b_def)
    then show ?thesis using s(2) of_nat_0_le_iff [of b, where ?'a = rat] by linarith
  next
    case False
    then have "of_nat (unat r - 1) = (of_nat (unat r) - 1 :: rat)" by (simp add: of_nat_diff)
    then have "\<lfloor>q\<rfloor> \<le> int (unat r - 1)"
      unfolding q_def using le r by (intro double_quotient_bounds(2) [OF s(2)]) (simp_all add: b_def)
    then have "nat \<lfloor>q\<rfloor> \<le> unat r - 1" by (simp only: nat_le_iff)
    then show ?thesis using False unfolding word_less_nat_alt bps by linarith
  qed
qed

section \<open>The total rate is averaged over a sliding window\<close>

text \<open>
  Feeding interval after interval to \<open>iperf_check_total_rate\<close>: \<open>recent n xs\<close> are the last \<open>n\<close>.
\<close>

primrec feed :: "u64 \<Rightarrow> u64 list \<Rightarrow> test \<Rightarrow> test option" where
  "feed ub [] t = Some t"
| "feed ub (x # xs) t = (case iperf_check_total_rate ub x t of None \<Rightarrow> None | Some t' \<Rightarrow> feed ub xs t')"

definition recent :: "nat \<Rightarrow> u64 list \<Rightarrow> u64 list" where
  "recent n xs = drop (length xs - n) xs"

definition over_limit :: "u64 \<Rightarrow> test \<Rightarrow> u64 list \<Rightarrow> bool" where
  "over_limit ub t xs \<longleftrightarrow> bitrate_limit (settings t) <
     cast_u64 ub (double_div (f64 (of_nat (unat (sum_list xs * 8))))
       (f64 (stats_interval t * of_int (bitrate_limit_stats_per_interval (settings t)))))"

lemma feed_append: "feed ub (xs @ ys) t = (case feed ub xs t of None \<Rightarrow> None | Some t' \<Rightarrow> feed ub ys t')"
  by (induction xs arbitrary: t) (auto split: option.splits)

text \<open>The cyclic array after \<open>k\<close> intervals: the cell \<open>i mod n\<close> holds the \<open>i\<close>-th of the last \<open>n\<close>.\<close>

definition window_ok :: "nat \<Rightarrow> test \<Rightarrow> u64 list \<Rightarrow> test \<Rightarrow> bool" where
  "window_ok n t0 xs t \<longleftrightarrow> settings t = settings t0 \<and> stats_interval t = stats_interval t0
     \<and> test_done t = test_done t0
     \<and> length (bitrate_limit_traffic t) = length (bitrate_limit_traffic t0)
     \<and> unat (bitrate_limit_last_index t) = length xs mod n
     \<and> unat (bitrate_limit_stats_count t) = length xs
     \<and> (\<forall>i < length xs. length xs \<le> i + n \<longrightarrow> bitrate_limit_traffic t ! (Suc i mod n) = xs ! i)"

lemma mod_close:
  fixes a b n :: nat
  assumes "a mod n = b mod n" "a \<le> b" "b < a + n"
  shows "a = b"
proof -
  have "n dvd b - a" using assms(1,2) by (metis mod_eq_dvd_iff_nat)
  then show ?thesis using assms(2,3) by (auto dest: dvd_imp_le)
qed

lemma window_sum:
  assumes "window_ok n t0 xs t" "0 < n" "n \<le> length xs" "n \<le> length (bitrate_limit_traffic t)"
  shows "sum_list (take n (bitrate_limit_traffic t)) = sum_list (recent n xs)"
proof -
  let ?a = "bitrate_limit_traffic t" and ?k = "length xs"
  have inj: "inj_on (\<lambda>i. Suc i mod n) {?k - n ..< ?k}"
  proof (rule inj_onI)
    fix i j assume ij: "i \<in> {?k - n ..< ?k}" "j \<in> {?k - n ..< ?k}" "Suc i mod n = Suc j mod n"
    have "i < j + n" "j < i + n" using ij(1,2) by auto
    then show "i = j"
      using ij(3) mod_close [where a = "Suc i" and b = "Suc j" and n = n]
        mod_close [where a = "Suc j" and b = "Suc i" and n = n]
      by (cases "i \<le> j") auto
  qed
  have "(\<lambda>i. Suc i mod n) ` {?k - n ..< ?k} \<subseteq> {0..<n}" using assms(2) by auto
  moreover have "card ((\<lambda>i. Suc i mod n) ` {?k - n ..< ?k}) = n"
    using card_image [OF inj] assms(3) by simp
  ultimately have img: "(\<lambda>i. Suc i mod n) ` {?k - n ..< ?k} = {0..<n}"
    by (intro card_subset_eq) auto
  have "sum_list (take n ?a) = (\<Sum>j = 0..<n. ?a ! j)"
    using assms(4) by (simp add: sum_list_sum_nth atLeast0LessThan)
  also have "\<dots> = (\<Sum>i = ?k - n ..< ?k. ?a ! (Suc i mod n))"
    unfolding img [symmetric] by (rule sum.reindex [OF inj, unfolded comp_def])
  also have "\<dots> = (\<Sum>i = ?k - n ..< ?k. xs ! i)"
    using assms(1) by (intro sum.cong) (auto simp: window_ok_def)
  also have "\<dots> = sum_list (recent n xs)"
    using assms(3) sum.shift_bounds_nat_ivl [of "\<lambda>i. xs ! i" 0 "?k - n" n]
    by (simp add: recent_def sum_list_sum_nth add.commute)
  finally show ?thesis .
qed

lemma unat_small_Suc: "unat (x :: u64) < 18446744073709551615 \<Longrightarrow> unat (x + 1) = Suc (unat x)"
  by (simp add: unat_plus_u64)

lemma next_index:
  assumes "unat (i :: u64) = k mod n" "0 < n" "n < 2147483648"
  shows "unat (if i + 1 \<ge> word_of_int (int n) then 0 else i + 1) = Suc k mod n"
proof -
  have lt: "k mod n < n" using assms(2) by simp
  have i1: "unat (i + 1) = Suc (k mod n)" using unat_small_Suc [of i] assms lt by simp
  have n: "unat (word_of_int (int n) :: u64) = n" using assms(3) by (simp add: unat_of_nat)
  show ?thesis
    using i1 n lt by (auto simp: word_le_nat_alt mod_Suc)
qed

lemma total_rate_step:
  assumes w: "window_ok n t0 xs t"
    and cfg: "bitrate_limit (settings t0) \<noteq> 0" "\<not> test_done t0"
      "bitrate_limit_stats_per_interval (settings t0) = int n" "0 < n"
      "n \<le> length (bitrate_limit_traffic t0)" "n < 2147483648"
    and len: "Suc (length xs) < 18446744073709551616"
  shows "\<exists>t'. iperf_check_total_rate ub x t = Some t' \<and> window_ok n t0 (xs @ [x]) t'
    \<and> (bitrate_limit_exceeded t' \<longleftrightarrow> bitrate_limit_exceeded t
        \<or> (n \<le> length (xs @ [x]) \<and> over_limit ub t0 (recent n (xs @ [x]))))"
proof -
  define i where "i = (if bitrate_limit_last_index t + 1 \<ge> word_of_int (int n) then 0
    else bitrate_limit_last_index t + 1)"
  define t1 where "t1 = t\<lparr>bitrate_limit_last_index := i,
    bitrate_limit_traffic := (bitrate_limit_traffic t)[unat i := x],
    bitrate_limit_stats_count := bitrate_limit_stats_count t + 1\<rparr>"
  have ui: "unat i = Suc (length xs) mod n"
    unfolding i_def using w cfg by (intro next_index) (auto simp: window_ok_def)
  then have ilt: "unat i < length (bitrate_limit_traffic t)"
    using w cfg by (auto simp: window_ok_def intro: less_le_trans [OF mod_less_divisor])
  have cnt: "unat (bitrate_limit_stats_count t + 1) = Suc (length xs)"
    using w len by (intro trans [OF unat_small_Suc]) (auto simp: window_ok_def)
  have "window_ok n t0 (xs @ [x]) t1"
  proof -
    have "(bitrate_limit_traffic t)[unat i := x] ! (Suc j mod n) = (xs @ [x]) ! j"
      if "j < length (xs @ [x])" "length (xs @ [x]) \<le> j + n" for j
    proof (cases "j = length xs")
      case True
      then show ?thesis using ilt ui by simp
    next
      case False
      then have "j < length xs" using that by simp
      moreover have "Suc j mod n \<noteq> unat i"
        using mod_close [where a = "Suc j" and b = "Suc (length xs)" and n = n] that calculation ui by auto
      ultimately show ?thesis using w that by (simp add: window_ok_def nth_append)
    qed
    then show ?thesis using w ui cnt by (simp add: window_ok_def t1_def)
  qed
  moreover have "iperf_check_total_rate ub x t =
      Some (if n \<le> length (xs @ [x]) \<and> over_limit ub t0 (recent n (xs @ [x]))
            then t1\<lparr>bitrate_limit_exceeded := True\<rparr> else t1)"
  proof -
    have same: "settings t = settings t0" "stats_interval t = stats_interval t0" "test_done t = test_done t0"
        "length (bitrate_limit_traffic t) = length (bitrate_limit_traffic t0)"
      using w by (simp_all add: window_ok_def)
    have t1: "settings t1 = settings t0" "stats_interval t1 = stats_interval t0"
      "bitrate_limit_stats_count t1 = bitrate_limit_stats_count t + 1"
      by (simp_all add: t1_def same)
    have lt: "(bitrate_limit_stats_count t + 1 < word_of_int (int n)) = (\<not> n \<le> length (xs @ [x]))"
      using cfg(6) cnt by (simp add: word_less_nat_alt unat_of_nat not_le)
    have tot: "sum_traffic (int n) (bitrate_limit_traffic t1) = Some (sum_list (recent n (xs @ [x])))"
      if "n \<le> length (xs @ [x])"
      using window_sum [OF \<open>window_ok n t0 (xs @ [x]) t1\<close> cfg(4) that] cfg(5) same(4)
      by (simp add: sum_traffic_def t1_def)
    have off: "(test_done t0 \<or> bitrate_limit (settings t0) = 0) = False"
      "(length (bitrate_limit_traffic t0) \<le> unat i) = False"
      using cfg(1,2) ilt same(4) by simp_all
    have "iperf_check_total_rate ub x t = (if \<not> n \<le> length (xs @ [x]) then Some t1
        else case sum_traffic (int n) (bitrate_limit_traffic t1) of None \<Rightarrow> None
          | Some tot \<Rightarrow> Some (if bitrate_limit (settings t0) < cast_u64 ub (double_div (f64 (of_nat (unat (tot * 8))))
              (f64 (stats_interval t0 * of_int (int n)))) then t1\<lparr>bitrate_limit_exceeded := True\<rparr> else t1))"
      by (simp only: iperf_check_total_rate_def Let_def same cfg(3) i_def [symmetric] off if_False
          t1_def [symmetric] t1 lt)
    then show ?thesis using tot by (simp add: over_limit_def cfg(3))
  qed
  ultimately show ?thesis by (auto simp: window_ok_def t1_def)
qed

lemma ex_le_Suc:
  "(\<exists>k. n \<le> k \<and> k \<le> Suc m \<and> P k) \<longleftrightarrow> (\<exists>k. n \<le> k \<and> k \<le> m \<and> P k) \<or> (n \<le> Suc m \<and> P (Suc m))"
  by (metis le_SucI le_Suc_eq order_refl)

lemma total_rate_windows:
  assumes "bitrate_limit (settings t0) \<noteq> 0" "\<not> test_done t0"
      "bitrate_limit_stats_per_interval (settings t0) = int n" "0 < n"
      "n \<le> length (bitrate_limit_traffic t0)" "n < 2147483648"
    and "bitrate_limit_last_index t0 = 0" "bitrate_limit_stats_count t0 = 0"
    and "length xs < 18446744073709551616"
  shows "\<exists>t'. feed ub xs t0 = Some t' \<and> window_ok n t0 xs t' \<and>
    (bitrate_limit_exceeded t' \<longleftrightarrow> bitrate_limit_exceeded t0
      \<or> (\<exists>k. n \<le> k \<and> k \<le> length xs \<and> over_limit ub t0 (recent n (take k xs))))"
  using assms(9)
proof (induction xs rule: rev_induct)
  case Nil
  then show ?case using assms by (auto simp: window_ok_def)
next
  case (snoc x xs)
  then obtain t where t: "feed ub xs t0 = Some t" "window_ok n t0 xs t"
    "bitrate_limit_exceeded t \<longleftrightarrow> bitrate_limit_exceeded t0
      \<or> (\<exists>k. n \<le> k \<and> k \<le> length xs \<and> over_limit ub t0 (recent n (take k xs)))" by auto
  from total_rate_step [OF t(2) assms(1-6), of ub x] snoc.prems obtain t' where
    t': "iperf_check_total_rate ub x t = Some t'" "window_ok n t0 (xs @ [x]) t'"
      "bitrate_limit_exceeded t' \<longleftrightarrow> bitrate_limit_exceeded t
        \<or> (n \<le> length (xs @ [x]) \<and> over_limit ub t0 (recent n (xs @ [x])))" by auto
  have "(\<exists>k. n \<le> k \<and> k \<le> length (xs @ [x]) \<and> over_limit ub t0 (recent n (take k (xs @ [x])))) \<longleftrightarrow>
      (\<exists>k. n \<le> k \<and> k \<le> length xs \<and> over_limit ub t0 (recent n (take k xs)))
      \<or> (n \<le> length (xs @ [x]) \<and> over_limit ub t0 (recent n (xs @ [x])))"
    by (auto simp: ex_le_Suc)
  then show ?case using t t' by (auto simp: feed_append)
qed

text \<open>With more cells per window than the array has, the 60th interval is written behind it.\<close>

lemma total_rate_overrun_step:
  assumes "bitrate_limit (settings t) \<noteq> 0" "\<not> test_done t"
      "int (length (bitrate_limit_traffic t)) < bitrate_limit_stats_per_interval (settings t)"
      "bitrate_limit_stats_per_interval (settings t) < 2147483648"
      "unat (bitrate_limit_last_index t) < length (bitrate_limit_traffic t)"
      "unat (bitrate_limit_stats_count t) \<le> unat (bitrate_limit_last_index t)"
  shows "if Suc (unat (bitrate_limit_last_index t)) = length (bitrate_limit_traffic t)
    then iperf_check_total_rate ub x t = None
    else \<exists>t'. iperf_check_total_rate ub x t = Some t' \<and> settings t' = settings t \<and> \<not> test_done t'
      \<and> length (bitrate_limit_traffic t') = length (bitrate_limit_traffic t)
      \<and> unat (bitrate_limit_last_index t') = Suc (unat (bitrate_limit_last_index t))
      \<and> unat (bitrate_limit_stats_count t') \<le> unat (bitrate_limit_last_index t')"
proof -
  define n where "n = nat (bitrate_limit_stats_per_interval (settings t))"
  have spi: "bitrate_limit_stats_per_interval (settings t) = int n" using assms(3) by (simp add: n_def)
  have n: "length (bitrate_limit_traffic t) < n" "n < 2147483648" using assms(3,4) spi by simp_all
  have un: "unat (word_of_int (int n) :: u64) = n" using n by (simp add: unat_of_nat)
  have u1: "unat (bitrate_limit_last_index t + 1) = Suc (unat (bitrate_limit_last_index t))"
    "unat (bitrate_limit_stats_count t + 1) = Suc (unat (bitrate_limit_stats_count t))"
    using assms(5,6) n by (auto intro!: unat_small_Suc)
  have big: "\<not> bitrate_limit_last_index t + 1 \<ge> word_of_int (int n)"
    "bitrate_limit_stats_count t + 1 < word_of_int (int n)"
    using assms(5,6) n u1 un by (auto simp: word_le_nat_alt word_less_nat_alt)
  show ?thesis
    unfolding iperf_check_total_rate_def Let_def spi
    using assms(1,2,5,6) big u1 by (auto simp: not_le)
qed

lemma total_rate_overrun:
  assumes "bitrate_limit (settings t) \<noteq> 0" "\<not> test_done t"
      "int (length (bitrate_limit_traffic t)) < bitrate_limit_stats_per_interval (settings t)"
      "bitrate_limit_stats_per_interval (settings t) < 2147483648"
      "unat (bitrate_limit_last_index t) < length (bitrate_limit_traffic t)"
      "unat (bitrate_limit_stats_count t) \<le> unat (bitrate_limit_last_index t)"
      "length (bitrate_limit_traffic t) \<le> unat (bitrate_limit_last_index t) + length xs"
  shows "feed ub xs t = None"
  using assms
proof (induction xs arbitrary: t)
  case Nil
  then show ?case by simp
next
  case (Cons x xs)
  from total_rate_overrun_step [OF Cons.prems(1-6), of ub x] show ?case
  proof (cases "Suc (unat (bitrate_limit_last_index t)) = length (bitrate_limit_traffic t)")
    case False
    then obtain t' where t': "iperf_check_total_rate ub x t = Some t'" "settings t' = settings t" "\<not> test_done t'"
      "length (bitrate_limit_traffic t') = length (bitrate_limit_traffic t)"
      "unat (bitrate_limit_last_index t') = Suc (unat (bitrate_limit_last_index t))"
      "unat (bitrate_limit_stats_count t') \<le> unat (bitrate_limit_last_index t')"
      using total_rate_overrun_step [OF Cons.prems(1-6), of ub x] by auto
    then have "feed ub xs t' = None" using Cons.prems False by (intro Cons.IH) auto
    then show ?thesis using t'(1) by simp
  qed simp
qed

section \<open>A file is sent faithfully if every block is sent whole\<close>

lemma wp_nwrite [wp_simps]: "wp (nwrite fd bs) Q w = (case Nwrite fd bs w of (r, w') \<Rightarrow> Q r w')"
  by (simp add: nwrite_def wp_simps)

lemma wp_sread [wp_simps]: "wp (sread fd n) Q w = (case sys_read fd n w of (r, bs, w') \<Rightarrow> Q (r, bs) w')"
  by (simp add: sread_def wp_simps split: prod.splits)

lemma trace_done [simp]:
  "got (t\<lparr>test_done := b\<rparr>) = got t" "wire (t\<lparr>test_done := b\<rparr>) = wire t"
  by (simp_all add: got_def wire_def fun_eq_iff)

text \<open>
  \<open>file_ready\<close>: nothing is left over from earlier blocks. One call of \<open>diskfile_send\<close> then
  either ends the test at the end of the file, or sends: if the count says that all that was
  read went out, the socket received exactly the bytes taken from the file and the stream
  is ready again.
\<close>

definition file_ready :: "int \<Rightarrow> stream \<Rightarrow> bool" where
  "file_ready blk sp \<longleftrightarrow> diskfile_left sp = 0 \<and> pending_size sp = 0 \<and> int (length (buffer sp)) = blk"

lemma put_header_take [simp]: "take (length hdr) (put_header hdr buf) = hdr"
  by (simp add: put_header_def)

lemma length_put_header: "length hdr \<le> length buf \<Longrightarrow> length (put_header hdr buf) = length buf"
  by (simp add: put_header_def)

lemma nwrite_all:
  assumes "Nwrite fd bs w = (r, w')"
  shows "held w' = held w" "got w' = got w" "r = int (length bs) \<Longrightarrow> wire w' fd = wire w fd @ bs"
    "r < 0 \<or> r \<le> int (length bs)"
  using Nwrite_spec [where fd = fd and buf = bs and w = w] assms
  by (auto simp: write_outcome_def split: if_splits)

lemma tcp_send_whole:
  assumes "\<not> zerocopy t" "0 < pending_size sp" "pending_size sp \<le> int (length (buffer sp))"
  shows "wp (iperf_tcp_send sp) (\<lambda>(r, sp') t'. got t' = got t \<and> r \<le> pending_size sp
      \<and> buffer sp' = buffer sp \<and> diskfile_left sp' = diskfile_left sp
      \<and> (r = pending_size sp \<longrightarrow> pending_size sp' = 0
          \<and> wire t' (stream_socket sp) = wire t (stream_socket sp) @ take (nat (pending_size sp)) (buffer sp))) t"
proof -
  have len: "int (length (take (nat (pending_size sp)) (buffer sp))) = pending_size sp"
    using assms(2,3) by simp
  obtain r w' where e: "Nwrite (stream_socket sp) (take (nat (pending_size sp)) (buffer sp)) t = (r, w')"
    by (cases "Nwrite (stream_socket sp) (take (nat (pending_size sp)) (buffer sp)) t")
  note all = nwrite_all [OF e, unfolded len]
  then have "r \<le> pending_size sp" using assms(2) by linarith
  with all show ?thesis using assms by (simp add: iperf_tcp_send_def wp_simps Let_def e)
qed

lemma tcp_send_whole_block:
  assumes "\<not> zerocopy t" "pending_size sp = 0" "0 < blksize (settings t)"
    "blksize (settings t) \<le> int (length (buffer sp))"
  shows "wp (iperf_tcp_send sp) (\<lambda>(r, sp') t'. got t' = got t \<and> r \<le> blksize (settings t)
      \<and> buffer sp' = buffer sp \<and> diskfile_left sp' = diskfile_left sp
      \<and> (r = blksize (settings t) \<longrightarrow> pending_size sp' = 0
          \<and> wire t' (stream_socket sp) = wire t (stream_socket sp) @ take (nat (blksize (settings t))) (buffer sp))) t"
proof -
  have "wp (iperf_tcp_send sp) Q t = wp (iperf_tcp_send (sp\<lparr>pending_size := blksize (settings t)\<rparr>)) Q t" for Q
    using assms by (simp add: iperf_tcp_send_def wp_simps Let_def)
  then show ?thesis
    using tcp_send_whole [of t "sp\<lparr>pending_size := blksize (settings t)\<rparr>"] assms by simp
qed

lemma diskfile_send_whole:
  assumes "protocol t = Ptcp" "\<not> zerocopy t" "\<not> test_done t" "0 < blksize (settings t)"
    "file_ready (blksize (settings t)) sp"
  shows "wp (diskfile_send sp) (\<lambda>(r, sp') t'. rv (answer t) < 0 \<or>
      (\<exists>bs. got t' (diskfile_fd sp) = got t (diskfile_fd sp) @ bs
        \<and> (r = int (length bs) \<longrightarrow> file_ready (blksize (settings t)) sp'
            \<and> wire t' (stream_socket sp) = wire t (stream_socket sp) @ bs))) t"
proof (cases "rv (answer t) < 0")
  case True
  then show ?thesis by (simp add: wp_iff_run case_prod_beta)
next
  case False
  define blk where "blk = blksize (settings t)"
  define bs where "bs = take (nat blk) (rbytes (answer t))"
  define t1 where "t1 = after (Read (diskfile_fd sp) bs) (int (length bs)) t"
  have rd: "sys_read (diskfile_fd sp) (nat blk) t = (int (length bs), bs, t1)"
    using False by (simp add: sys_read_def Let_def bs_def t1_def)
  have t1: "got t1 (diskfile_fd sp) = got t (diskfile_fd sp) @ bs" "wire t1 = wire t"
    by (simp_all add: t1_def trace_after fun_eq_iff)
  have lb: "length bs \<le> nat blk" by (simp add: bs_def)
  have ready: "diskfile_left sp = 0" "pending_size sp = 0" "length (buffer sp) = nat blk"
    using assms(4,5) by (auto simp: file_ready_def blk_def)
  let ?sp = "sp\<lparr>buffer := put_header bs (buffer sp)\<rparr>"
  have len: "length (buffer ?sp) = nat blk" using lb ready by (simp add: length_put_header)
  have finish: "case (fst sent, if fst sent < 0 then snd sent
        else diskfile_shift blk (int (length bs) - fst sent) (snd sent)) of (r, sp') \<Rightarrow> rv (answer t) < 0 \<or>
      (\<exists>bs. got t' (diskfile_fd sp) = got t (diskfile_fd sp) @ bs
        \<and> (r = int (length bs) \<longrightarrow> file_ready blk sp'
            \<and> wire t' (stream_socket sp) = wire t (stream_socket sp) @ bs))"
    if sent_ok: "case sent of (r, sp') \<Rightarrow> got t' = got t1 \<and> r \<le> int (length bs)
        \<and> buffer sp' = buffer ?sp \<and> diskfile_left sp' = 0
        \<and> (r = int (length bs) \<longrightarrow> pending_size sp' = 0
            \<and> wire t' (stream_socket sp) = wire t1 (stream_socket sp) @ bs)"
    for sent :: "int \<times> stream" and t' :: test
  proof -
    obtain r sp' where sent: "sent = (r, sp')" by (cases sent)
    have g: "got t' (diskfile_fd sp) = got t (diskfile_fd sp) @ bs" using that t1 by (simp add: sent)
    have "file_ready blk (diskfile_shift blk 0 sp') \<and> wire t' (stream_socket sp) = wire t (stream_socket sp) @ bs"
      if "r = int (length bs)"
      using sent_ok that t1 len assms(4)
      by (simp add: sent file_ready_def diskfile_shift_def blk_def)
    then show ?thesis using g by (auto simp: sent)
  qed
  consider "bs = []" | "bs \<noteq> []" "length bs < nat blk" | "bs \<noteq> []" "length bs = nat blk" using lb by linarith
  then show ?thesis
  proof cases
    case 1
    then show ?thesis
      using rd ready assms t1 len
      by (auto simp: diskfile_send_def diskfile_fill_def wp_simps Let_def blk_def file_ready_def put_header_def
          intro!: exI [of _ "[]"])
  next
    case 2
    let ?sp2 = "?sp\<lparr>pending_size := int (length bs)\<rparr>"
    have ne: "int (length bs) \<noteq> blk" "0 < blk" using 2 assms(4) by (auto simp: blk_def)
    have send: "wp (iperf_tcp_send ?sp2) (\<lambda>(r, sp') t'. got t' = got t1 \<and> r \<le> int (length bs)
        \<and> buffer sp' = buffer ?sp \<and> diskfile_left sp' = 0
        \<and> (r = int (length bs) \<longrightarrow> pending_size sp' = 0
            \<and> wire t' (stream_socket sp) = wire t1 (stream_socket sp) @ bs)) t1"
      using tcp_send_whole [of t1 ?sp2] 2 assms(2) len ready by (simp add: t1_def)
    have step: "wp (diskfile_send sp) Q t = wp (iperf_tcp_send ?sp2) (\<lambda>sent. Q (fst sent,
        if fst sent < 0 then snd sent else diskfile_shift blk (int (length bs) - fst sent) (snd sent))) t1" for Q
      using rd ready assms 2 ne
      by (simp add: diskfile_send_def diskfile_fill_def wp_simps Let_def blk_def [symmetric] t1_def
          proto_snd_def wp_return_fun cong: if_cong)
    show ?thesis
      unfolding step blk_def [symmetric]
      by (rule wp_mono [OF send]) (use finish in \<open>simp only: case_prod_beta\<close>)
  next
    case 3
    have ne: "int (length bs) = blk" "0 < blk" using 3 assms(4) by (auto simp: blk_def)
    have hd: "take (nat blk) (buffer ?sp) = bs"
      using 3 by (simp add: put_header_def)
    have send: "wp (iperf_tcp_send ?sp) (\<lambda>(r, sp') t'. got t' = got t1 \<and> r \<le> int (length bs)
        \<and> buffer sp' = buffer ?sp \<and> diskfile_left sp' = 0
        \<and> (r = int (length bs) \<longrightarrow> pending_size sp' = 0
            \<and> wire t' (stream_socket sp) = wire t1 (stream_socket sp) @ bs)) t1"
      using tcp_send_whole_block [of t1 ?sp] assms(2,4) len ready hd ne(1) by (simp add: t1_def blk_def)
    have step: "wp (diskfile_send sp) Q t = wp (iperf_tcp_send ?sp) (\<lambda>sent. Q (fst sent,
        if fst sent < 0 then snd sent else diskfile_shift blk (int (length bs) - fst sent) (snd sent))) t1" for Q
      using rd ready assms 3 ne
      by (simp add: diskfile_send_def diskfile_fill_def wp_simps Let_def blk_def [symmetric] t1_def
          proto_snd_def wp_return_fun cong: if_cong)
    show ?thesis
      unfolding step blk_def [symmetric]
      by (rule wp_mono [OF send]) (use finish in \<open>simp only: case_prod_beta\<close>)
  qed
qed

end
