(* ===== verification/Json.thy ===== *)
theory Json
  imports Traffic "HOL-Library.Char_ord"
begin

text \<open>
  The part of \<open>iperf/src/cjson.c\<close> that the control messages use (items, numbers, looking up
  an object member without regard to case), and \<open>JSON_write\<close> and \<open>JSON_read\<close> of
  \<open>iperf_api.c\<close>, which put a length in front of the text. The printer and the parser of
  the text are arguments; \<open>cjson.c\<close>'s own follow in \<open>Json_Print\<close>, \<open>Json_Parse\<close> and \<open>Wire\<close>.
\<close>

section \<open>Items\<close>

text \<open>
  A parsed \<open>true\<close> has \<open>valueint\<close> 1; an item without a string has a null \<open>valuestring\<close>.
\<close>

fun valuedouble :: "json \<Rightarrow> rat" where
  "valuedouble (JNumber d) = d"
| "valuedouble _ = 0"

text \<open>The integer of a number: truncated, saturated at the bounds of \<open>int64_t\<close>.\<close>

definition saturate :: "rat \<Rightarrow> int" where
  "saturate d = (if d \<ge> 9223372036854775807 then 9223372036854775807
     else if d \<le> - 9223372036854775808 then - 9223372036854775808
     else if d < 0 then - \<lfloor>- d\<rfloor> else \<lfloor>d\<rfloor>)"

fun valueint :: "json \<Rightarrow> int" where
  "valueint (JNumber d) = saturate d"
| "valueint JTrue = 1"
| "valueint _ = 0"

fun valuestring :: "json \<Rightarrow> string option" where
  "valuestring (JString s) = Some s"
| "valuestring _ = None"

definition tolower :: "char \<Rightarrow> char" where
  "tolower c = (let n = of_char c :: nat in if 65 \<le> n \<and> n \<le> 90 then char_of (n + 32) else c)"

definition lower :: "string \<Rightarrow> string" where
  "lower s = map tolower s"

definition case_insensitive_eq :: "string \<Rightarrow> string \<Rightarrow> bool" where
  "case_insensitive_eq a b \<longleftrightarrow> lower a = lower b"

fun get_member :: "string \<Rightarrow> (string \<times> json) list \<Rightarrow> json option" where
  "get_member name [] = None"
| "get_member name ((k, v) # ms) = (if case_insensitive_eq name k then Some v else get_member name ms)"

fun cJSON_GetObjectItem :: "json \<Rightarrow> string \<Rightarrow> json option" where
  "cJSON_GetObjectItem (JObject ms) name = get_member name ms"
| "cJSON_GetObjectItem _ name = None"

fun elements :: "json \<Rightarrow> json list" where
  "elements (JArray xs) = xs"
| "elements (JObject ms) = map snd ms"
| "elements _ = []"

definition cJSON_GetArraySize :: "json \<Rightarrow> int" where
  "cJSON_GetArraySize j = int (length (elements j))"

definition cJSON_GetArrayItem :: "json \<Rightarrow> int \<Rightarrow> json option" where
  "cJSON_GetArrayItem j i = (if i < 0 \<or> int (length (elements j)) \<le> i then None
     else Some (elements j ! nat i))"

text \<open>\<open>cJSON_DetachItemFromObject\<close>: the item found and the object without it.\<close>

fun remove_member :: "string \<Rightarrow> (string \<times> json) list \<Rightarrow> (string \<times> json) list" where
  "remove_member name [] = []"
| "remove_member name ((k, v) # ms) =
     (if case_insensitive_eq name k then ms else (k, v) # remove_member name ms)"

definition cJSON_DetachItemFromObject :: "json \<Rightarrow> string \<Rightarrow> json option \<times> json" where
  "cJSON_DetachItemFromObject j name = (cJSON_GetObjectItem j name,
     case j of JObject ms \<Rightarrow> JObject (remove_member name ms) | _ \<Rightarrow> j)"

text \<open>\<open>cJSON_CreateNumber\<close> takes a \<open>double\<close>: an integer argument is converted first.\<close>

definition json_int :: "int \<Rightarrow> json" where
  "json_int n = JNumber (f64 (of_int n))"

definition json_u64 :: "u64 \<Rightarrow> json" where
  "json_u64 n = JNumber (f64 (of_nat (unat n)))"

lemma saturate_int: "- 9223372036854775808 \<le> n \<Longrightarrow> n \<le> 9223372036854775807 \<Longrightarrow> saturate (of_int n) = n"
proof -
  assume n: "- 9223372036854775808 \<le> n" "n \<le> 9223372036854775807"
  have i: "(of_int n \<ge> (9223372036854775807 :: rat)) = (n \<ge> 9223372036854775807)"
    "(of_int n \<le> (- 9223372036854775808 :: rat)) = (n \<le> - 9223372036854775808)"
    by linarith+
  have "- \<lfloor>- of_int n :: rat\<rfloor> = n" "\<lfloor>of_int n :: rat\<rfloor> = n"
    using floor_of_int [of "- n", where ?'a = rat] by simp_all
  then show ?thesis using n unfolding saturate_def i by auto
qed

lemma valueint_json_int: "\<bar>n\<bar> \<le> 2 ^ 53 \<Longrightarrow> valueint (json_int n) = n"
  by (simp add: json_int_def f64_int saturate_int)

lemma valueint_json_u64: "unat n \<le> 2 ^ 53 \<Longrightarrow> valueint (json_u64 n) = uint n"
proof -
  assume n: "unat n \<le> 2 ^ 53"
  have "(2 :: nat) ^ 53 = 9007199254740992" by simp
  then have b: "- 9223372036854775808 \<le> int (unat n)" "int (unat n) \<le> 9223372036854775807"
    using n by linarith+
  have "saturate (of_nat (unat n)) = saturate (of_int (int (unat n)))" by simp
  also have "\<dots> = int (unat n)" by (rule saturate_int [OF b])
  finally show ?thesis using f64_nat [OF n] by (simp add: json_u64_def)
qed

section \<open>Messages on the control connection\<close>

text \<open>\<open>JSON_write\<close>: the length as an \<open>uint32_t\<close>, then the text; \<open>None\<close> is text that could not be printed.\<close>

definition JSON_write :: "(json \<Rightarrow> bytes option) \<Rightarrow> int \<Rightarrow> json \<Rightarrow> ('a os_scheme, int) state" where
  "JSON_write pr fd j = (case pr j of None \<Rightarrow> State_Monad.return (-1)
     | Some str \<Rightarrow> do {
         let hsize = (of_nat (length str) :: u32);
         r \<leftarrow> nwrite fd (be 4 (unat hsize));
         if r < 0 then State_Monad.return (-1) else do {
           r2 \<leftarrow> nwrite fd (take (unat hsize) str);
           State_Monad.return (if r2 < 0 then -1 else 0) } })"

text \<open>
  \<open>JSON_read\<close>. A short read of the length leaves the rest of it to what was on the stack,
  \<open>junk\<close>. The buffer is allocated with \<open>hsize + 1\<close> bytes in 32 bits; \<open>Overrun\<close> says that
  more was stored than that. \<open>Got None\<close> is the null pointer that reports an error.
\<close>

datatype json_in = Got "json option" | Overrun

definition alloc_size :: "u32 \<Rightarrow> nat" where
  "alloc_size hsize = unat (hsize + 1)"

definition JSON_read :: "(bytes \<Rightarrow> json option) \<Rightarrow> bytes \<Rightarrow> int \<Rightarrow> ('a os_scheme, json_in) state" where
  "JSON_read ps junk fd = do {
     n \<leftarrow> nread fd 4;
     if fst n < 0 then State_Monad.return (Got None) else do {
       let hsize = (of_nat (be_value (take 4 (put_header (snd n) junk))) :: u32);
       got \<leftarrow> nread fd (unat hsize);
       State_Monad.return
         (if length (snd got) > alloc_size hsize then Overrun
          else if fst got = int (unat hsize) then Got (ps (c_string (snd got @ [0])))
          else Got None) } }"

section \<open>The length of a message and its buffer\<close>

lemma alloc_size_cases: "alloc_size h = (if unat h = 4294967295 then 0 else Suc (unat h))"
proof (cases "unat h = 4294967295")
  case True
  then show ?thesis by (simp add: alloc_size_def unat_plus_u32)
next
  case False
  then have "unat h + 1 < 4294967296" using unat_lt_u32 [of h] by linarith
  with False show ?thesis by (simp add: alloc_size_def unat_plus_u32)
qed

lemma wp_nread [wp_simps]: "wp (nread fd n) Q w = (case Nread fd n w of (r, bs, w') \<Rightarrow> Q (r, bs) w')"
  by (simp add: nread_def wp_simps split: prod.splits)

lemma Nread_len: "length (fst (snd (Nread fd n w))) \<le> n"
  using Nread_spec [where fd = fd and count = n and w = w] by (auto simp: read_outcome_def)

lemma Nread_full:
  assumes "Nread fd n w = (r, bs, w')"
  shows "got w' fd = got w fd @ bs" "length bs \<le> n" "0 \<le> r \<Longrightarrow> r = int (length bs)"
  using Nread_spec [where fd = fd and count = n and w = w] assms
  by (auto simp: read_outcome_def split: if_splits)

text \<open>Writing: on success the length and the text are on the wire.\<close>

lemma JSON_write_wire:
  assumes "pr j = Some str" "length str < 4294967296"
  shows "wp (JSON_write pr fd j) (\<lambda>r w'. (r = 0 \<or> r = -1) \<and> held w' = held w \<and>
    (r = 0 \<longrightarrow> (\<exists>a b. wire w' fd = wire w fd @ take a (be 4 (length str)) @ take b str))) w"
proof -
  have h: "unat (of_nat (length str) :: u32) = length str" using assms(2) by (simp add: unat_of_nat)
  obtain r1 w1 where e1: "Nwrite fd (be 4 (length str)) w = (r1, w1)" by (cases "Nwrite fd (be 4 (length str)) w")
  obtain r2 w2 where e2: "Nwrite fd str w1 = (r2, w2)" by (cases "Nwrite fd str w1")
  obtain a where 1: "held w1 = held w" "wire w1 fd = wire w fd @ take a (be 4 (length str))"
    using Nwrite_spec [where fd = fd and buf = "be 4 (length str)" and w = w] e1
    by (auto simp: write_outcome_def)
  obtain b where 2: "held w2 = held w1" "wire w2 fd = wire w1 fd @ take b str"
    using Nwrite_spec [where fd = fd and buf = "str" and w = w1] e2
    by (auto simp: write_outcome_def)
  have "\<exists>a b. wire w2 fd = wire w fd @ take a (be 4 (length str)) @ take b str"
    using 1(2) 2(2) by (intro exI [of _ a] exI [of _ b]) simp
  then show ?thesis using 1 2 by (simp add: JSON_write_def wp_simps Let_def h e1 e2 assms(1))
qed

text \<open>Reading what was written, when the length arrives whole.\<close>

lemma JSON_read_frame:
  assumes hdr: "Nread fd 4 v = (4, be 4 (length str), v1)"
    and body: "Nread fd (length str) v1 = (r, bs, v2)" "bs = take (length bs) str"
    and str: "0 \<notin> set str" "length str < 4294967295"
  shows "run_state (JSON_read ps junk fd) v = (Got (if r = int (length str) then ps str else None), v2)"
proof -
  have h: "unat (of_nat (length str) :: u32) = length str" using str(2) by (simp add: unat_of_nat)
  have hv: "be_value (take 4 (put_header (be 4 (length str)) junk)) = length str"
    using str(2) by (simp add: put_header_def be_value_be)
  have len: "length bs \<le> length str" "0 \<le> r \<Longrightarrow> r = int (length bs)"
    using Nread_full [OF body(1)] by auto
  have all: "bs = str" if "r = int (length str)"
  proof -
    have "length bs = length str" using len(2) that by simp
    then show ?thesis using body(2) by (metis order_refl take_all)
  qed
  have cs: "c_string (str @ [0]) = str"
  proof -
    have "takeWhile (\<lambda>b. b \<noteq> 0) (str @ [0]) = str @ takeWhile (\<lambda>b. b \<noteq> 0) [0 :: u8]"
      by (rule takeWhile_append2) (use str(1) in auto)
    then show ?thesis by (simp add: c_string_def)
  qed
  have small: "\<not> alloc_size (of_nat (length str) :: u32) < length bs"
    using len(1) str(2) by (simp add: alloc_size_cases h)
  have "run_state (JSON_read ps junk fd) v = (Got (if r = int (length str) then ps (c_string (bs @ [0])) else None), v2)"
    by (simp add: JSON_read_def run_simps Let_def nread_def hdr hv h body(1) small)
  then show ?thesis using all cs by simp
qed

lemma JSON_read_overrun_only:
  assumes "run_state (JSON_read ps junk fd) v = (Overrun, v')" "Nread fd 4 v = (r, bs, v1)"
  shows "be_value (take 4 (put_header bs junk)) mod 4294967296 = 4294967295"
proof (rule ccontr)
  let ?h = "of_nat (be_value (take 4 (put_header bs junk))) :: u32"
  assume "\<not> ?thesis"
  then have "alloc_size ?h = Suc (unat ?h)" by (simp add: alloc_size_cases unat_of_nat)
  moreover obtain r2 bs2 v2 where e: "Nread fd (unat ?h) v1 = (r2, bs2, v2)" by (cases "Nread fd (unat ?h) v1")
  moreover have "length bs2 \<le> unat ?h" using Nread_full(2) [OF e] .
  ultimately show False
    using assms by (auto simp: JSON_read_def run_simps Let_def nread_def split: if_splits)
qed

end
