(* ===== verification/Auth.thy ===== *)
theory Auth
  imports Test
begin

text \<open>
  \<open>iperf/src/iperf_auth.c\<close>: the authentication token (user name, password and time, printed,
  encrypted and encoded; decoded, decrypted and scanned) and the check against the file of
  authorised users. OpenSSL and the file system are parameters, a record of functions; what
  \<open>sprintf\<close>, \<open>sscanf\<close>, \<open>fgets\<close> and \<open>strtok\<close> do with the formats of this file is written out.
\<close>

section \<open>Numbers and white space\<close>

text \<open>A decimal number as \<open>printf\<close> writes it.\<close>

fun digits :: "nat \<Rightarrow> string" where
  "digits n = (if n < 10 then [char_of (48 + n)] else digits (n div 10) @ [char_of (48 + n mod 10)])"

definition show_int :: "int \<Rightarrow> string" where
  "show_int n = (if n < 0 then CHR ''-'' # digits (nat (- n)) else digits (nat n))"

definition is_digit :: "char \<Rightarrow> bool" where
  "is_digit c \<longleftrightarrow> 48 \<le> (of_char c :: nat) \<and> (of_char c :: nat) \<le> 57"

definition isspace :: "char \<Rightarrow> bool" where
  "isspace c \<longleftrightarrow> (of_char c :: nat) = 32 \<or> 9 \<le> (of_char c :: nat) \<and> (of_char c :: nat) \<le> 13"

definition digits_value :: "string \<Rightarrow> nat" where
  "digits_value s = foldl (\<lambda>a c. a * 10 + (of_char c - 48)) 0 s"

text \<open>The range of \<open>int64_t\<close>, to which the conversion of a longer number is cut.\<close>

definition clamp64 :: "int \<Rightarrow> int" where
  "clamp64 n = max (- 9223372036854775808) (min 9223372036854775807 n)"

section \<open>Scanning\<close>

text \<open>
  \<open>sscanf\<close> with literal characters, white space (any amount of it, or none), \<open>%s\<close> and a
  decimal number: the conversions made until the input no longer fits.
\<close>

datatype directive = Lit char | White | Str | Num
datatype scanned = Text string | Number int

definition skip_space :: "string \<Rightarrow> string" where
  "skip_space s = dropWhile isspace s"

definition scan_int :: "string \<Rightarrow> (int \<times> string) option" where
  "scan_int s0 =
     (let s = skip_space s0;
          neg = (s \<noteq> [] \<and> hd s = CHR ''-'');
          s1 = (if s \<noteq> [] \<and> (hd s = CHR ''-'' \<or> hd s = CHR ''+'') then tl s else s);
          ds = takeWhile is_digit s1
      in if ds = [] then None
         else Some (clamp64 (if neg then - int (digits_value ds) else int (digits_value ds)), dropWhile is_digit s1))"

fun scan :: "directive list \<Rightarrow> string \<Rightarrow> scanned list" where
  "scan [] s = []"
| "scan (Lit c # ds) s = (case s of [] \<Rightarrow> [] | x # xs \<Rightarrow> if x = c then scan ds xs else [])"
| "scan (White # ds) s = scan ds (skip_space s)"
| "scan (Str # ds) s = (let t = skip_space s; w = takeWhile (\<lambda>c. \<not> isspace c) t in
     if w = [] then [] else Text w # scan ds (dropWhile (\<lambda>c. \<not> isspace c) t))"
| "scan (Num # ds) s = (case scan_int s of None \<Rightarrow> [] | Some (n, t) \<Rightarrow> Number n # scan ds t)"

text \<open>\<open>auth_text_format\<close>: \<open>user: %s\<close>, \<open>pwd:  %s\<close>, \<open>ts:   %ld\<close>, each on a line. Blanks of a format are white space.\<close>

definition newline :: char where "newline = CHR 0x0A"

definition auth_scan :: "directive list" where
  "auth_scan = map Lit ''user:'' @ [White, Str, White] @ map Lit ''pwd:'' @ [White, Str, White]
     @ map Lit ''ts:'' @ [White, Num]"

definition auth_text :: "string \<Rightarrow> string \<Rightarrow> int \<Rightarrow> string" where
  "auth_text username password ts =
     ''user: '' @ username @ [newline] @ ''pwd:  '' @ password @ [newline] @ ''ts:   '' @ show_int ts"

section \<open>The token\<close>

text \<open>
  What the program asks of OpenSSL, of the password database and of \<open>fopen\<close>. A key is an opaque
  string, \<open>None\<close> the error return. \<open>bio_decode\<close> is \<open>BIO_read\<close> through the base64 filter.
\<close>

record crypto =
  bio_encode :: "bytes \<Rightarrow> string"
  bio_decode :: "string \<Rightarrow> bytes option"
  rsa_size :: "string \<Rightarrow> nat"
  rsa_public_encrypt :: "string \<Rightarrow> string \<Rightarrow> bytes option"
  rsa_private_decrypt :: "bytes \<Rightarrow> string \<Rightarrow> string option"
  sha_digest :: "string \<Rightarrow> bytes"
  read_file :: "string \<Rightarrow> string option"

text \<open>
  \<open>calcDecodeLength\<close>; \<open>None\<close> is the read before the start of an empty string (or of a single
  \<open>=\<close>). \<open>Base64Decode\<close>; \<open>None\<close> is the end of the process in the failed assertion.
\<close>

definition calcDecodeLength :: "string \<Rightarrow> nat option" where
  "calcDecodeLength b64input =
     (let len = length b64input in
      if len = 0 then None
      else if b64input ! (len - 1) \<noteq> CHR ''='' then Some (len * 3 div 4)
      else if len = 1 then None
      else if b64input ! (len - 2) = CHR ''='' then Some (len * 3 div 4 - 2)
      else Some (len * 3 div 4 - 1))"

definition Base64Decode :: "crypto \<Rightarrow> string \<Rightarrow> bytes option" where
  "Base64Decode cr b64message =
     (case (calcDecodeLength b64message, bio_decode cr b64message) of
        (Some decodeLen, Some bs) \<Rightarrow> if length bs = decodeLen then Some bs else None
      | _ \<Rightarrow> None)"

text \<open>The work buffer of both directions holds twice the size of the key.\<close>

definition encrypt_rsa_message :: "crypto \<Rightarrow> string \<Rightarrow> string \<Rightarrow> bytes option" where
  "encrypt_rsa_message cr plaintext key = rsa_public_encrypt cr (take (rsa_size cr key * 2) plaintext) key"

definition decrypt_rsa_message :: "crypto \<Rightarrow> bytes \<Rightarrow> string \<Rightarrow> string option" where
  "decrypt_rsa_message cr encryptedtext key = rsa_private_decrypt cr (take (rsa_size cr key * 2) encryptedtext) key"

text \<open>
  \<open>encode_auth_setting\<close>. The buffer of \<open>snprintf\<close> is as long as the format, the two strings and
  32 characters. \<open>None\<close> is the non-zero return.
\<close>

definition encode_auth_setting :: "crypto \<Rightarrow> string \<Rightarrow> string \<Rightarrow> string \<Rightarrow> (test, string option) state" where
  "encode_auth_setting cr username password public_key = do {
     t \<leftarrow> call Clock_Time;
     let text_len = 27 + length username + length password + 32;
     State_Monad.return (map_option (bio_encode cr)
       (encrypt_rsa_message cr (take (text_len - 1) (auth_text username password (rv t))) public_key)) }"

text \<open>\<open>decode_auth_setting\<close>; \<open>Aborted\<close> is the end of the process inside \<open>Base64Decode\<close>.\<close>

datatype decoded = Aborted | Refused | Credentials string string int

definition decode_auth_setting :: "crypto \<Rightarrow> string \<Rightarrow> string \<Rightarrow> decoded" where
  "decode_auth_setting cr token private_key =
     (case Base64Decode cr token of
        None \<Rightarrow> Aborted
      | Some encrypted \<Rightarrow>
          (case decrypt_rsa_message cr encrypted private_key of
             None \<Rightarrow> Refused
           | Some plaintext \<Rightarrow>
               (case scan auth_scan (takeWhile (\<lambda>c. c \<noteq> CHR 0x00) plaintext) of
                  [Text u, Text p, Number ts] \<Rightarrow> Credentials u p ts
                | _ \<Rightarrow> Refused)))"

section \<open>The file of authorised users\<close>

text \<open>\<open>fgets\<close> with a buffer of 1024 characters: up to a newline or 1023 characters.\<close>

function fgets_all :: "string \<Rightarrow> string list" where
  "fgets_all s = (if s = [] then [] else
     (let w = takeWhile (\<lambda>c. c \<noteq> newline) s;
          k = min 1023 (length w + 1)
      in take k s # fgets_all (drop k s)))"
  by pat_completeness auto
termination by (relation "measure length") auto

definition strip_line :: "string \<Rightarrow> string" where
  "strip_line s = takeWhile (\<lambda>c. c \<noteq> newline \<and> c \<noteq> CHR 0x0D) s"

definition skipped_line :: "string \<Rightarrow> bool" where
  "skipped_line s \<longleftrightarrow> s = [] \<or> CHR '','' \<notin> set s \<or> hd s = CHR ''#''"

text \<open>\<open>strtok(s, ",")\<close>: the token, if there is one, and the rest.\<close>

definition strtok :: "string \<Rightarrow> string option \<times> string" where
  "strtok s = (let t = dropWhile (\<lambda>c. c = CHR '','') s in
     if t = [] then (None, []) else
       (Some (takeWhile (\<lambda>c. c \<noteq> CHR '','') t), drop 1 (dropWhile (\<lambda>c. c \<noteq> CHR '','') t)))"

text \<open>
  The loop over the lines: \<open>Ret 0\<close> for a match, \<open>Ret 3\<close> at the end, \<open>Crash\<close> when \<open>strcmp\<close> is
  called with the null pointer of a missing token.
\<close>

fun check_lines :: "string \<Rightarrow> string \<Rightarrow> string list \<Rightarrow> outcome" where
  "check_lines username passwordHash [] = Ret 3"
| "check_lines username passwordHash (l # ls) =
     (let buf = strip_line l in
      if skipped_line buf then check_lines username passwordHash ls
      else (case strtok buf of
        (None, rest) \<Rightarrow> Crash
      | (Some s_username, rest) \<Rightarrow>
          if username \<noteq> s_username then check_lines username passwordHash ls
          else (case fst (strtok rest) of
              None \<Rightarrow> Crash
            | Some s_password \<Rightarrow> if passwordHash = s_password then Ret 0
                else check_lines username passwordHash ls)))"

text \<open>\<open>sha256\<close>: the digest, each byte with \<open>%02x\<close>.\<close>

definition hex_digit :: "nat \<Rightarrow> char" where
  "hex_digit n = char_of (if n < 10 then 48 + n else 87 + n)"

definition sha256 :: "crypto \<Rightarrow> string \<Rightarrow> string" where
  "sha256 cr s = concat (map (\<lambda>b. [hex_digit (unat b div 16), hex_digit (unat b mod 16)]) (sha_digest cr s))"

definition salted :: "string \<Rightarrow> string \<Rightarrow> string" where
  "salted username password = ''{'' @ username @ ''}'' @ password"

definition check_authentication :: "crypto \<Rightarrow> string \<Rightarrow> string \<Rightarrow> int \<Rightarrow> string \<Rightarrow> int \<Rightarrow> (test, outcome) state" where
  "check_authentication cr username password ts filename skew_threshold = do {
     t \<leftarrow> call Clock_Time;
     State_Monad.return
       (if rv t - ts > skew_threshold \<or> rv t - ts < - skew_threshold then Ret 1
        else (case read_file cr filename of
            None \<Rightarrow> Ret 2
          | Some contents \<Rightarrow> check_lines username (sha256 cr (salted username password)) (fgets_all contents))) }"

text \<open>\<open>test_is_authorized\<close> of \<open>iperf_api.c\<close>.\<close>

definition test_is_authorized :: "crypto \<Rightarrow> (test, outcome) state" where
  "test_is_authorized cr = do {
     cfg \<leftarrow> gets (\<lambda>t. (server_rsa_private_key t, server_authorized_users t, authtoken (settings t), server_skew_threshold t));
     (case cfg of
        (Some key, Some users, token, skew) \<Rightarrow>
          (case token of
             None \<Rightarrow> State_Monad.return (Ret (-1))
           | Some tok \<Rightarrow>
               (case decode_auth_setting cr tok key of
                  Aborted \<Rightarrow> State_Monad.return Crash
                | Refused \<Rightarrow> State_Monad.return (Ret (-1))
                | Credentials u p ts \<Rightarrow> do {
                    r \<leftarrow> check_authentication cr u p ts users skew;
                    State_Monad.return (case r of Crash \<Rightarrow> Crash | Ret n \<Rightarrow> if n = 0 then Ret 0 else Ret (-1)) }))
      | _ \<Rightarrow> State_Monad.return (Ret 0)) }"

declare digits.simps [simp del] fgets_all.simps [simp del]

section \<open>A token is read back\<close>

text \<open>\<open>word s\<close>: \<open>%s\<close> reads all of \<open>s\<close>.\<close>

definition word :: "string \<Rightarrow> bool" where
  "word s \<longleftrightarrow> s \<noteq> [] \<and> (\<forall>c \<in> set s. \<not> isspace c \<and> c \<noteq> CHR 0x00)"

lemma digits_ok: "digits n \<noteq> [] \<and> (\<forall>c \<in> set (digits n). is_digit c) \<and> digits_value (digits n) = n"
proof (induction n rule: digits.induct)
  case (1 n)
  show ?case
  proof (cases "n < 10")
    case True
    then have "of_char (char_of (48 + n) :: char) = 48 + n" by simp
    then show ?thesis using True by (subst (1 2 3) digits.simps) (simp add: is_digit_def digits_value_def)
  next
    case False
    have "of_char (char_of (48 + n mod 10) :: char) = 48 + n mod 10" by simp
    then show ?thesis
      using 1 False by (subst (1 2 3) digits.simps) (auto simp: is_digit_def digits_value_def)
  qed
qed

lemma is_digit_not: "is_digit c \<Longrightarrow> \<not> isspace c \<and> c \<noteq> CHR ''-'' \<and> c \<noteq> CHR ''+'' \<and> c \<noteq> CHR 0x00"
  by (auto simp: is_digit_def isspace_def)

lemma takeWhile_all: "(\<forall>x \<in> set xs. P x) \<Longrightarrow> takeWhile P xs = xs"
  by (simp add: takeWhile_eq_all_conv)

lemma digits_head:
  "digits k \<noteq> []" "hd (digits k) \<noteq> CHR ''-''" "hd (digits k) \<noteq> CHR ''+''" "\<not> isspace (hd (digits k))"
  using digits_ok [of k] is_digit_not [of "hd (digits k)"] by auto

lemma skip_space_word: "s \<noteq> [] \<Longrightarrow> \<not> isspace (hd s) \<Longrightarrow> skip_space s = s"
  by (cases s) (simp_all add: skip_space_def)

lemma all_digits: "takeWhile is_digit (digits k) = digits k" "dropWhile is_digit (digits k) = []"
  "digits_value (digits k) = k"
  using digits_ok [of k] by (auto simp: takeWhile_eq_all_conv)

lemma scan_shown:
  assumes "- 9223372036854775808 \<le> n" "n \<le> 9223372036854775807"
  shows "scan_int (show_int n) = Some (n, [])"
proof -
  let ?d = "digits (nat \<bar>n\<bar>)"
  have c: "clamp64 n = n" using assms by (simp add: clamp64_def)
  show ?thesis
  proof (cases "n < 0")
    case True
    then have "show_int n = CHR ''-'' # ?d" by (simp add: show_int_def)
    moreover have "\<not> isspace CHR ''-''" by (simp add: isspace_def)
    ultimately show ?thesis
      using True c digits_head(1) by (simp add: scan_int_def skip_space_def Let_def all_digits)
  next
    case False
    then have "show_int n = ?d" by (simp add: show_int_def)
    then show ?thesis
      using False c digits_head [of "nat \<bar>n\<bar>"] skip_space_word [of ?d]
      by (simp add: scan_int_def Let_def all_digits)
  qed
qed

lemma show_int_chars: "\<forall>c \<in> set (show_int n). \<not> isspace c \<and> c \<noteq> CHR 0x00"
proof -
  have "\<forall>c \<in> set (digits k). \<not> isspace c \<and> c \<noteq> CHR 0x00" for k
    using digits_ok [of k] is_digit_not by blast
  then show ?thesis by (auto simp: show_int_def isspace_def)
qed

lemma scan_lits: "scan (map Lit cs @ ds) (cs @ s) = scan ds s"
  by (induction cs) simp_all

lemma scan_word:
  assumes "word w" "isspace c"
  shows "scan (Str # ds) (w @ c # s) = Text w # scan ds (c # s)"
proof -
  obtain x xs where w: "w = x # xs" "\<not> isspace x" "\<forall>y \<in> set xs. \<not> isspace y"
    using assms(1) by (cases w) (auto simp: word_def)
  then show ?thesis using assms(2) by (simp add: skip_space_def Let_def)
qed

lemma skip_blanks: "(\<forall>x \<in> set bl. isspace x) \<Longrightarrow> skip_space (bl @ s) = skip_space s"
  by (induction bl) (simp_all add: skip_space_def)

lemma scan_field:
  assumes "word w" "isspace c" "\<forall>x \<in> set bl. isspace x"
  shows "scan (White # Str # ds) (bl @ w @ c # s) = Text w # scan ds (c # s)"
proof -
  have "w \<noteq> []" "\<not> isspace (hd w)" using assms(1) by (auto simp: word_def)
  then have "skip_space (bl @ w @ c # s) = w @ c # s"
    using skip_blanks [OF assms(3)] skip_space_word [of "w @ c # s"] by simp
  then show ?thesis using scan_word [OF assms(1,2)] by simp
qed

lemma scan_gap:
  assumes "\<forall>x \<in> set bl. isspace x" "s \<noteq> []" "\<not> isspace (hd s)"
  shows "scan (White # ds) (bl @ s) = scan ds s"
  using skip_blanks [OF assms(1), of s] skip_space_word [OF assms(2,3)] by simp

lemma scan_auth_text:
  assumes "word u" "word p" "- 9223372036854775808 \<le> ts" "ts \<le> 9223372036854775807"
  shows "scan auth_scan (auth_text u p ts) = [Text u, Text p, Number ts]"
proof -
  let ?t = "''ts:   '' @ show_int ts" and ?ft = "White # map Lit ''ts:'' @ [White, Num]"
  let ?p = "''pwd:  '' @ p @ newline # ?t" and ?fp = "White # map Lit ''pwd:'' @ White # Str # ?ft"
  have sp: "isspace newline" "\<forall>x \<in> set ('' '' :: string). isspace x" "\<forall>x \<in> set (''  '' :: string). isspace x"
    "\<forall>x \<in> set (''   '' :: string). isspace x" "\<forall>x \<in> set [newline]. isspace x"
    by (simp_all add: isspace_def newline_def)
  have n: "show_int ts \<noteq> []" "\<not> isspace (hd (show_int ts))"
    using digits_head by (simp_all add: show_int_def isspace_def)
  have "scan auth_scan (auth_text u p ts) = scan (White # Str # ?fp) ('' '' @ u @ newline # ?p)"
    using scan_lits [of "''user:''"] unfolding auth_scan_def auth_text_def by simp
  also have "\<dots> = Text u # scan ?fp ([newline] @ ?p)"
    using scan_field [OF assms(1) sp(1,2)] by simp
  also have "scan ?fp ([newline] @ ?p) = scan (map Lit ''pwd:'' @ White # Str # ?ft) ?p"
    by (rule scan_gap [OF sp(5)]) (simp_all add: isspace_def)
  also have "\<dots> = scan (White # Str # ?ft) (''  '' @ p @ newline # ?t)"
    using scan_lits [of "''pwd:''"] by simp
  also have "\<dots> = Text p # scan ?ft ([newline] @ ?t)"
    using scan_field [OF assms(2) sp(1,3)] by simp
  also have "scan ?ft ([newline] @ ?t) = scan (map Lit ''ts:'' @ [White, Num]) ?t"
    by (rule scan_gap [OF sp(5)]) (simp_all add: isspace_def)
  also have "\<dots> = scan [White, Num] (''   '' @ show_int ts)"
    using scan_lits [of "''ts:''"] by simp
  also have "\<dots> = [Number ts]"
    by (subst scan_gap [OF sp(4) n]) (simp add: scan_shown [OF assms(3,4)])
  finally show ?thesis .
qed

lemma digits_short: "n < 10 ^ k \<Longrightarrow> 0 < k \<Longrightarrow> length (digits n) \<le> k"
proof (induction k arbitrary: n)
  case (Suc k)
  show ?case
  proof (cases "n < 10")
    case True
    then show ?thesis by (subst digits.simps) simp
  next
    case False
    then have "0 < k" using Suc.prems(1) by (cases k) auto
    moreover have "n div 10 < 10 ^ k" using Suc.prems(1) by (simp add: div_less_iff_less_mult)
    ultimately show ?thesis using Suc.IH [of "n div 10"] False by (subst digits.simps) simp
  qed
qed simp

lemma auth_text_fits:
  assumes "- 9223372036854775808 \<le> ts" "ts \<le> 9223372036854775807"
  shows "length (auth_text u p ts) \<le> 27 + length u + length p + 32 - 1"
proof -
  have "length (digits (nat \<bar>ts\<bar>)) \<le> 19" using assms by (intro digits_short) auto
  then have "length (show_int ts) \<le> 20" by (auto simp: show_int_def)
  then show ?thesis by (simp add: auth_text_def)
qed

text \<open>
  What is assumed of OpenSSL: base64 has the documented shape (four characters for three bytes,
  padded with \<open>=\<close>) and is decoded again; what PKCS#1 padding leaves room for is encrypted to one
  block of the key's size and decrypted again.
\<close>

definition base64_shape :: "string \<Rightarrow> nat \<Rightarrow> bool" where
  "base64_shape s n \<longleftrightarrow> (\<exists>w. CHR ''='' \<notin> set w \<and> s = w @ replicate ((3 - n mod 3) mod 3) (CHR ''='')
     \<and> length s = 4 * ((n + 2) div 3))"

definition base64_ok :: "crypto \<Rightarrow> bool" where
  "base64_ok cr \<longleftrightarrow> (\<forall>bs. base64_shape (bio_encode cr bs) (length bs) \<and> bio_decode cr (bio_encode cr bs) = Some bs)"

definition rsa_ok :: "crypto \<Rightarrow> string \<Rightarrow> string \<Rightarrow> bool" where
  "rsa_ok cr pub priv \<longleftrightarrow> rsa_size cr pub = rsa_size cr priv \<and> 0 < rsa_size cr pub \<and> (\<forall>x c. rsa_public_encrypt cr x pub = Some c \<longrightarrow>
     length x + 11 \<le> rsa_size cr pub \<and> length c = rsa_size cr pub \<and> rsa_private_decrypt cr c priv = Some x)"

lemma calcDecodeLength_exact:
  assumes "base64_shape s n" "0 < n"
  shows "calcDecodeLength s = Some n"
proof -
  obtain w where w: "CHR ''='' \<notin> set w" "s = w @ replicate ((3 - n mod 3) mod 3) (CHR ''='')"
    "length s = 4 * ((n + 2) div 3)"
    using assms(1) by (auto simp: base64_shape_def)
  have l: "length w + (3 - n mod 3) mod 3 = 4 * ((n + 2) div 3)" using w(2,3) by simp
  moreover have "1 \<le> (n + 2) div 3" using assms(2) by presburger
  moreover have "(3 - n mod 3) mod 3 < 3" by simp
  ultimately have "length w \<noteq> 0" by linarith
  then have "w \<noteq> []" by simp
  then have lw: "w ! (length w - 1) \<noteq> CHR ''=''" using w(1) by (metis last_conv_nth last_in_set)
  have l3: "length s * 3 div 4 = 3 * ((n + 2) div 3)" using w(3) by simp
  have "n mod 3 < 3" by simp
  then consider "n mod 3 = 0" | "n mod 3 = 1" | "n mod 3 = 2" by linarith
  then show ?thesis
  proof cases
    case 1
    then have "s = w" using w(2) by simp
    moreover have "3 * ((n + 2) div 3) = n" using 1 by presburger
    ultimately show ?thesis using lw l3 \<open>w \<noteq> []\<close> by (simp add: calcDecodeLength_def Let_def)
  next
    case 2
    then have "(3 - n mod 3) mod 3 = Suc (Suc 0)" by simp
    then have "s = w @ ''==''" using w(2) by (simp only: replicate.simps)
    moreover have "3 * ((n + 2) div 3) = n + 2" using 2 by presburger
    ultimately show ?thesis using l3 by (simp add: calcDecodeLength_def Let_def nth_append)
  next
    case 3
    then have "(3 - n mod 3) mod 3 = Suc 0" by simp
    then have "s = w @ ''=''" using w(2) by (simp only: replicate.simps)
    moreover have "3 * ((n + 2) div 3) = n + 1" using 3 by presburger
    ultimately show ?thesis using l3 lw \<open>w \<noteq> []\<close> by (simp add: calcDecodeLength_def Let_def nth_append)
  qed
qed

lemma token_read_back:
  assumes "word u" "word p" "- 9223372036854775808 \<le> rv (answer t)" "rv (answer t) \<le> 9223372036854775807"
    and "base64_ok cr" "rsa_ok cr pub priv"
  shows "wp (encode_auth_setting cr u p pub)
    (\<lambda>r t'. \<forall>tok. r = Some tok \<longrightarrow> decode_auth_setting cr tok priv = Credentials u p (rv (answer t))) t"
proof -
  let ?x = "auth_text u p (rv (answer t))"
  have "\<forall>c \<in> set ?x. c \<noteq> CHR 0x00"
    using assms(1,2) show_int_chars by (auto simp: auth_text_def word_def newline_def)
  then have nz: "takeWhile (\<lambda>c. c \<noteq> CHR 0x00) ?x = ?x" by (rule takeWhile_all)
  have all: "take (27 + length u + length p + 32 - 1) ?x = ?x"
    using auth_text_fits [OF assms(3,4), of u p] by simp
  have "decode_auth_setting cr (bio_encode cr c) priv = Credentials u p (rv (answer t))"
    if "encrypt_rsa_message cr ?x pub = Some c" for c
  proof -
    let ?y = "take (rsa_size cr pub * 2) ?x"
    have y: "length ?y + 11 \<le> rsa_size cr pub" "length c = rsa_size cr pub" "rsa_private_decrypt cr c priv = Some ?y"
      "rsa_size cr priv = rsa_size cr pub" "0 < rsa_size cr pub"
      using that assms(6) unfolding encrypt_rsa_message_def rsa_ok_def by (blast, blast, blast, simp, simp)
    have "?y = ?x"
    proof (rule take_all)
      show "length ?x \<le> rsa_size cr pub * 2" using y(1,5) by (auto simp: min_def split: if_splits)
    qed
    moreover have "Base64Decode cr (bio_encode cr c) = Some c"
    proof -
      have "base64_shape (bio_encode cr c) (length c)" "bio_decode cr (bio_encode cr c) = Some c"
        using assms(5) by (simp_all add: base64_ok_def)
      moreover from this(1) have "calcDecodeLength (bio_encode cr c) = Some (length c)"
        by (rule calcDecodeLength_exact) (use y(2,5) in simp)
      ultimately show ?thesis by (simp add: Base64Decode_def)
    qed
    moreover have "decrypt_rsa_message cr c priv = Some ?y"
      using y by (simp add: decrypt_rsa_message_def)
    ultimately show ?thesis
      using scan_auth_text [OF assms(1-4)] nz
      unfolding decode_auth_setting_def by (simp only: option.case list.case scanned.case)
  qed
  then show ?thesis
    unfolding encode_auth_setting_def wp_bind wp_call wp_return Let_def all
    by (cases "encrypt_rsa_message cr ?x pub") (simp_all only: option.map option.inject option.distinct simp_thms)
qed

section \<open>Who is let in\<close>

text \<open>
  \<open>grants u h l\<close>: line \<open>l\<close> of the file gives user \<open>u\<close> the hash \<open>h\<close>. \<open>chokes u l\<close>: on this line the
  comparison is handed a null pointer.
\<close>

definition grants :: "string \<Rightarrow> string \<Rightarrow> string \<Rightarrow> bool" where
  "grants u h l \<longleftrightarrow> (let buf = strip_line l in \<not> skipped_line buf
     \<and> fst (strtok buf) = Some u \<and> fst (strtok (snd (strtok buf))) = Some h)"

definition chokes :: "string \<Rightarrow> string \<Rightarrow> bool" where
  "chokes u l \<longleftrightarrow> (let buf = strip_line l in \<not> skipped_line buf
     \<and> (fst (strtok buf) = None \<or> fst (strtok buf) = Some u \<and> fst (strtok (snd (strtok buf))) = None))"

lemma check_lines_step:
  "check_lines u h (l # ls) = (if chokes u l then Crash else if grants u h l then Ret 0 else check_lines u h ls)"
  by (auto simp: chokes_def grants_def Let_def split: prod.split option.split)

declare check_lines.simps(2) [simp del]

lemma check_lines_iff:
  "check_lines u h ls = Ret 0 \<longleftrightarrow> (\<exists>as l bs. ls = as @ l # bs \<and> grants u h l \<and> (\<forall>a \<in> set (as @ [l]). \<not> chokes u a))"
proof (induction ls)
  case (Cons l ls)
  show ?case
  proof
    assume run: "check_lines u h (l # ls) = Ret 0"
    then have c: "\<not> chokes u l" by (auto simp: check_lines_step)
    show "\<exists>as x bs. l # ls = as @ x # bs \<and> grants u h x \<and> (\<forall>a \<in> set (as @ [x]). \<not> chokes u a)"
    proof (cases "grants u h l")
      case True
      then show ?thesis using c by (intro exI [of _ "[]"] exI [of _ l] exI [of _ ls]) simp
    next
      case False
      then obtain as x bs where "ls = as @ x # bs" "grants u h x" "\<forall>a \<in> set (as @ [x]). \<not> chokes u a"
        using run c Cons.IH by (auto simp: check_lines_step)
      then show ?thesis using c by (intro exI [of _ "l # as"] exI [of _ x] exI [of _ bs]) auto
    qed
  next
    assume "\<exists>as x bs. l # ls = as @ x # bs \<and> grants u h x \<and> (\<forall>a \<in> set (as @ [x]). \<not> chokes u a)"
    then obtain as x bs where x: "l # ls = as @ x # bs" "grants u h x" "\<forall>a \<in> set (as @ [x]). \<not> chokes u a"
      by blast
    show "check_lines u h (l # ls) = Ret 0"
    proof (cases as)
      case Nil
      then show ?thesis using x by (simp add: check_lines_step)
    next
      case (Cons a as')
      then have "check_lines u h ls = Ret 0" using x by (subst Cons.IH) auto
      then show ?thesis using x Cons by (simp add: check_lines_step)
    qed
  qed
qed simp

text \<open>Nobody gets in without a fresh token and a line of the file.\<close>

definition in_window :: "int \<Rightarrow> int \<Rightarrow> int \<Rightarrow> bool" where
  "in_window skew now ts \<longleftrightarrow> \<bar>now - ts\<bar> \<le> skew"

lemma authorized_sound:
  assumes "server_rsa_private_key t = Some key" "server_authorized_users t = Some file"
    and "fst (run_state (test_is_authorized cr) t) = Ret 0"
  shows "\<exists>tok u p ts contents l. authtoken (settings t) = Some tok
    \<and> decode_auth_setting cr tok key = Credentials u p ts
    \<and> in_window (server_skew_threshold t) (rv (answer t)) ts
    \<and> read_file cr file = Some contents \<and> l \<in> set (fgets_all contents)
    \<and> grants u (sha256 cr (salted u p)) l"
proof -
  obtain tok where tok: "authtoken (settings t) = Some tok"
    using assms by (cases "authtoken (settings t)") (auto simp: test_is_authorized_def run_simps)
  obtain u p ts where d: "decode_auth_setting cr tok key = Credentials u p ts"
    using assms tok by (cases "decode_auth_setting cr tok key") (auto simp: test_is_authorized_def run_simps)
  have r: "fst (run_state (check_authentication cr u p ts file (server_skew_threshold t)) t) = Ret 0"
    using assms tok d
    by (auto simp: test_is_authorized_def run_simps split: prod.splits outcome.splits if_splits)
  then have w: "in_window (server_skew_threshold t) (rv (answer t)) ts"
    by (auto simp: check_authentication_def run_simps run_call in_window_def split: if_splits)
  obtain contents where c: "read_file cr file = Some contents"
    using r by (cases "read_file cr file") (auto simp: check_authentication_def run_simps run_call split: if_splits)
  have "check_lines u (sha256 cr (salted u p)) (fgets_all contents) = Ret 0"
    using r c by (auto simp: check_authentication_def run_simps run_call split: if_splits)
  then obtain as l bs where "fgets_all contents = as @ l # bs" "grants u (sha256 cr (salted u p)) l"
    unfolding check_lines_iff by blast
  moreover from this(1) have "l \<in> set (fgets_all contents)" by simp
  ultimately have "\<exists>l. l \<in> set (fgets_all contents) \<and> grants u (sha256 cr (salted u p)) l" by blast
  then show ?thesis using tok d w c by blast
qed

section \<open>A file of users\<close>

text \<open>An entry of the file as documented: the name, a comma, the hash, a newline.\<close>

definition field :: "string \<Rightarrow> bool" where
  "field s \<longleftrightarrow> s \<noteq> [] \<and> set s \<inter> {CHR '','', newline, CHR 0x0D} = {} \<and> hd s \<noteq> CHR ''#''"

definition entry :: "string \<Rightarrow> string \<Rightarrow> string" where
  "entry u h = u @ CHR '','' # h @ [newline]"

lemma strip_entry:
  assumes "field u" "field h"
  shows "strip_line (entry u h) = u @ CHR '','' # h"
proof -
  have "CHR '','' \<noteq> newline" by (simp add: newline_def)
  then have "c \<noteq> newline \<and> c \<noteq> CHR 0x0D" if "c \<in> set (u @ CHR '','' # h)" for c
    using assms that by (auto simp: field_def)
  then have "takeWhile (\<lambda>c. c \<noteq> newline \<and> c \<noteq> CHR 0x0D) ((u @ CHR '','' # h) @ [newline]) =
      (u @ CHR '','' # h) @ takeWhile (\<lambda>c. c \<noteq> newline \<and> c \<noteq> CHR 0x0D) [newline]"
    by (rule takeWhile_append2)
  then show ?thesis by (simp add: strip_line_def entry_def)
qed

lemma strtok_field:
  assumes "field u"
  shows "strtok u = (Some u, [])" "strtok (u @ CHR '','' # s) = (Some u, s)"
proof -
  have c: "CHR '','' \<notin> set u" "u \<noteq> []" using assms by (auto simp: field_def)
  then have d: "dropWhile (\<lambda>c. c = CHR '','') (u @ v) = u @ v" for v by (cases u) auto
  have t: "takeWhile (\<lambda>c. c \<noteq> CHR '','') (u @ v) = u @ takeWhile (\<lambda>c. c \<noteq> CHR '','') v"
    "dropWhile (\<lambda>c. c \<noteq> CHR '','') (u @ v) = dropWhile (\<lambda>c. c \<noteq> CHR '','') v" for v
    using c(1) by (auto intro!: takeWhile_append2 dropWhile_append2)
  show "strtok (u @ CHR '','' # s) = (Some u, s)" using c(2) by (simp add: strtok_def d t)
  have "takeWhile (\<lambda>c. c \<noteq> CHR '','') u = u" "dropWhile (\<lambda>c. c \<noteq> CHR '','') u = []"
    "dropWhile (\<lambda>c. c = CHR '','') u = u"
    using d [of "[]"] t [of "[]"] by (simp_all only: append_Nil2 takeWhile.simps dropWhile.simps)
  then show "strtok u = (Some u, [])" using c(2) by (simp add: strtok_def del: dropWhile_eq_Nil_conv)
qed

lemma entry_kinds:
  assumes "field u" "field h"
  shows "grants v g (entry u h) \<longleftrightarrow> v = u \<and> g = h" "\<not> chokes v (entry u h)"
  using assms
  by (auto simp: grants_def chokes_def strip_entry skipped_line_def strtok_field field_def)

lemma fgets_entry:
  assumes "newline \<notin> set l" "length l < 1023"
  shows "fgets_all (l @ newline # s) = (l @ [newline]) # fgets_all s"
proof -
  have "takeWhile (\<lambda>c. c \<noteq> newline) (l @ newline # s) = l"
    using assms(1) by (subst takeWhile_append2) auto
  then show ?thesis using assms(2) by (subst fgets_all.simps) (simp add: Let_def)
qed

definition users_file :: "(string \<times> string) list \<Rightarrow> string" where
  "users_file es = concat (map (\<lambda>(u, h). entry u h) es)"

definition users_ok :: "(string \<times> string) list \<Rightarrow> bool" where
  "users_ok es \<longleftrightarrow> (\<forall>(u, h) \<in> set es. field u \<and> field h \<and> length u + length h < 1022)"

lemma fgets_users: "users_ok es \<Longrightarrow> fgets_all (users_file es) = map (\<lambda>(u, h). entry u h) es"
proof (induction es)
  case Nil
  then show ?case by (subst fgets_all.simps) (simp add: users_file_def)
next
  case (Cons e es)
  obtain u h where e: "e = (u, h)" by (cases e)
  have "field u" "field h" "length u + length h < 1022" using Cons.prems e by (simp_all add: users_ok_def)
  then have "newline \<notin> set (u @ CHR '','' # h)" "length (u @ CHR '','' # h) < 1023"
    by (auto simp: field_def newline_def)
  from fgets_entry [OF this, of "users_file es"] show ?case
    using Cons e by (simp add: users_file_def entry_def users_ok_def)
qed

lemma check_users:
  assumes "users_ok es"
  shows "check_lines u h (fgets_all (users_file es)) = (if (u, h) \<in> set es then Ret 0 else Ret 3)"
  unfolding fgets_users [OF assms] using assms
proof (induction es)
  case (Cons e es)
  obtain v g where e: "e = (v, g)" by (cases e)
  then have "field v" "field g" "users_ok es" using Cons.prems by (simp_all add: users_ok_def)
  then show ?case using Cons.IH e entry_kinds [of v g] by (auto simp: check_lines_step)
qed simp

lemma authorized_exactly:
  assumes "server_rsa_private_key t = Some key" "server_authorized_users t = Some file"
    "authtoken (settings t) = Some tok" "decode_auth_setting cr tok key = Credentials u p ts"
    "read_file cr file = Some (users_file es)" "users_ok es"
  shows "fst (run_state (test_is_authorized cr) t) =
    (if in_window (server_skew_threshold t) (rv (answer t)) ts \<and> (u, sha256 cr (salted u p)) \<in> set es
     then Ret 0 else Ret (-1))"
  using assms(1-5)
  by (auto simp: test_is_authorized_def check_authentication_def run_simps check_users [OF assms(6)] in_window_def
      split: outcome.splits if_splits)

text \<open>A line that names the user but no hash, or nobody, ends the server.\<close>

lemma incomplete_line_crashes:
  assumes "field u"
  shows "check_lines u h ((u @ '','' @ [newline]) # ls) = Crash" "check_lines u h (('','' @ [newline]) # ls) = Crash"
proof -
  have nl: "CHR '','' \<noteq> newline" by (simp add: newline_def)
  have "takeWhile (\<lambda>c. c \<noteq> newline \<and> c \<noteq> CHR 0x0D) ((u @ '','') @ [newline]) =
      (u @ '','') @ takeWhile (\<lambda>c. c \<noteq> newline \<and> c \<noteq> CHR 0x0D) [newline]"
    by (rule takeWhile_append2) (use assms nl in \<open>auto simp: field_def\<close>)
  then have s: "strip_line (u @ '','' @ [newline]) = u @ '',''" by (simp add: strip_line_def)
  have "\<not> skipped_line (u @ '','')" using assms by (auto simp: skipped_line_def field_def)
  then have "chokes u (u @ '','' @ [newline])"
    using s strtok_field(2) [OF assms, of "[]"] by (simp add: chokes_def strtok_def [of "[]"])
  then show "check_lines u h ((u @ '','' @ [newline]) # ls) = Crash" by (simp add: check_lines_step)
  have "chokes u ('','' @ [newline])"
    using nl by (simp add: chokes_def strip_line_def skipped_line_def strtok_def)
  then show "check_lines u h (('','' @ [newline]) # ls) = Crash" by (simp only: check_lines_step if_True)
qed

end
