(* ===== verification/Params.thy ===== *)
theory Params
  imports Json Auth
begin

text \<open>
  The parameter exchange of \<open>iperf/src/iperf_api.c\<close>: the client packs its options into a
  JSON object (\<open>send_parameters\<close>), the server unpacks it into its test (\<open>get_parameters\<close>).
  OpenSSL (theory \<open>Auth\<close>) is a parameter, printer and parser of JSON are arguments (theory \<open>Wire\<close> has those of \<open>cjson.c\<close>).
\<close>

section \<open>Packing\<close>

definition opt_member :: "bool \<Rightarrow> string \<Rightarrow> json \<Rightarrow> (string \<times> json) list" where
  "opt_member b k v = (if b then [(k, v)] else [])"

definition opt_string :: "string \<Rightarrow> string option \<Rightarrow> (string \<times> json) list" where
  "opt_string k s = (case s of None \<Rightarrow> [] | Some v \<Rightarrow> [(k, JString v)])"

definition proto_members :: "int \<Rightarrow> (string \<times> json) list" where
  "proto_members p = (if p = Ptcp then [(''tcp'', JTrue)] else if p = Pudp then [(''udp'', JTrue)]
     else if p = Psctp then [(''sctp'', JTrue)] else [])"

text \<open>The members in the order of \<open>send_parameters\<close>; \<open>token\<close> is the authentication token if one is sent.\<close>

definition params_members :: "string option \<Rightarrow> string \<Rightarrow> test \<Rightarrow> (string \<times> json) list" where
  "params_members token version t = (let s = settings t in concat [
     proto_members (protocol t),
     [(''omit'', json_int (omit t))],
     opt_member (server_affinity t \<noteq> -1) ''server_affinity'' (json_int (server_affinity t)),
     [(''time'', json_int (duration t))],
     opt_member (s_bytes s \<noteq> 0) ''num'' (json_u64 (s_bytes s)),
     opt_member (s_blocks s \<noteq> 0) ''blockcount'' (json_u64 (s_blocks s)),
     opt_member (mss s \<noteq> 0) ''MSS'' (json_int (mss s)),
     opt_member (no_delay t) ''nodelay'' JTrue,
     [(''parallel'', json_int (num_streams t))],
     opt_member (reverse t) ''reverse'' JTrue,
     opt_member (bidirectional t) ''bidirectional'' JTrue,
     opt_member (multipath t) ''multipath'' JTrue,
     opt_member (socket_bufsize s \<noteq> 0) ''window'' (json_int (socket_bufsize s)),
     opt_member (blksize s \<noteq> 0) ''len'' (json_int (blksize s)),
     opt_member (rate s \<noteq> 0) ''bandwidth'' (json_u64 (rate s)),
     opt_member (fqrate s \<noteq> 0) ''fqrate'' (json_u64 (fqrate s)),
     opt_member (pacing_timer s \<noteq> 0) ''pacing_timer'' (json_int (pacing_timer s)),
     opt_member (burst s \<noteq> 0) ''burst'' (json_int (burst s)),
     opt_member (tos s \<noteq> 0) ''TOS'' (json_int (tos s)),
     opt_member (flowlabel s \<noteq> 0) ''flowlabel'' (json_int (flowlabel s)),
     opt_string ''title'' (title t),
     opt_string ''extra_data'' (extra_data t),
     opt_string ''congestion'' (congestion t),
     opt_string ''congestion_used'' (congestion_used t),
     opt_member (get_server_output t) ''get_server_output'' (json_int 1),
     opt_member (udp_counters_64bit t) ''udp_counters_64bit'' (json_int 1),
     opt_member (repeating_payload t) ''repeating_payload'' (json_int 1),
     opt_member (dont_fragment s \<noteq> 0) ''dont_fragment'' (json_int (dont_fragment s)),
     opt_string ''authtoken'' token,
     [(''client_version'', JString version)]])"

definition wants_auth :: "test \<Rightarrow> bool" where
  "wants_auth t \<longleftrightarrow> client_username (settings t) \<noteq> None \<and> client_password (settings t) \<noteq> None
     \<and> client_rsa_pubkey (settings t) \<noteq> None"

definition make_token :: "crypto \<Rightarrow> settings \<Rightarrow> (test, string option) state" where
  "make_token cr s = encode_auth_setting cr (the (client_username s)) (the (client_password s)) (the (client_rsa_pubkey s))"

definition send_parameters :: "crypto \<Rightarrow> (json \<Rightarrow> bytes option) \<Rightarrow> string \<Rightarrow> (test, int) state" where
  "send_parameters cr pr version = do {
     auth \<leftarrow> gets wants_auth;
     s \<leftarrow> gets settings;
     token \<leftarrow> (if auth then make_token cr s else State_Monad.return None);
     if auth \<and> token = None then fail IESENDPARAMS else do {
       modify (set_settings (\<lambda>s. if auth then s\<lparr>authtoken := token\<rparr> else s));
       fd \<leftarrow> gets ctrl_sck;
       j \<leftarrow> gets (\<lambda>t. JObject (params_members token version t));
       r \<leftarrow> JSON_write pr fd j;
       if r < 0 then fail IESENDPARAMS else State_Monad.return 0 } }"

section \<open>Unpacking\<close>

text \<open>
  Each member that is present changes the test. An \<open>int64_t\<close> goes into an \<open>int\<close> or an
  unsigned field by conversion. \<open>None\<close>: \<open>strdup\<close> of a null \<open>valuestring\<close>, when a member
  that should be a string is not one.
\<close>

definition when_member :: "json \<Rightarrow> string \<Rightarrow> (json \<Rightarrow> test \<Rightarrow> test) \<Rightarrow> test \<Rightarrow> test" where
  "when_member j k f t = (case cJSON_GetObjectItem j k of None \<Rightarrow> t | Some v \<Rightarrow> f v t)"

definition when_string :: "json \<Rightarrow> string \<Rightarrow> (string \<Rightarrow> test \<Rightarrow> test) \<Rightarrow> test \<Rightarrow> test option" where
  "when_string j k f t = (case cJSON_GetObjectItem j k of None \<Rightarrow> Some t
     | Some v \<Rightarrow> (case valuestring v of None \<Rightarrow> None | Some s \<Rightarrow> Some (f s t)))"

definition set_int :: "(int \<Rightarrow> settings \<Rightarrow> settings) \<Rightarrow> json \<Rightarrow> test \<Rightarrow> test" where
  "set_int f v = set_settings (f (to_int (valueint v)))"

definition set_u64 :: "(u64 \<Rightarrow> settings \<Rightarrow> settings) \<Rightarrow> json \<Rightarrow> test \<Rightarrow> test" where
  "set_u64 f v = set_settings (f (word_of_int (valueint v)))"

text \<open>The members up to \<open>flowlabel\<close>, in order.\<close>

definition unpack_test :: "json \<Rightarrow> test \<Rightarrow> test" where
  "unpack_test j =
     when_member j ''multipath'' (\<lambda>v t. t\<lparr>multipath := True\<rparr>) \<circ>
     when_member j ''bidirectional'' (\<lambda>v. iperf_set_test_bidirectional True) \<circ>
     when_member j ''reverse'' (\<lambda>v. iperf_set_test_reverse True) \<circ>
     when_member j ''parallel'' (\<lambda>v t. t\<lparr>num_streams := to_int (valueint v)\<rparr>) \<circ>
     when_member j ''nodelay'' (\<lambda>v t. t\<lparr>no_delay := True\<rparr>) \<circ>
     when_member j ''MSS'' (set_int (\<lambda>n s. s\<lparr>mss := n\<rparr>)) \<circ>
     when_member j ''blockcount'' (set_u64 (\<lambda>n s. s\<lparr>s_blocks := n\<rparr>)) \<circ>
     when_member j ''num'' (set_u64 (\<lambda>n s. s\<lparr>s_bytes := n\<rparr>)) \<circ>
     when_member j ''time'' (\<lambda>v t. t\<lparr>duration := to_int (valueint v)\<rparr>) \<circ>
     when_member j ''server_affinity'' (\<lambda>v t. t\<lparr>server_affinity := to_int (valueint v)\<rparr>) \<circ>
     when_member j ''omit'' (\<lambda>v t. t\<lparr>omit := to_int (valueint v)\<rparr>) \<circ>
     when_member j ''sctp'' (\<lambda>v t. snd (set_protocol Psctp t)) \<circ>
     when_member j ''udp'' (\<lambda>v t. snd (set_protocol Pudp t)) \<circ>
     when_member j ''tcp'' (\<lambda>v t. snd (set_protocol Ptcp t))"

definition unpack_settings :: "json \<Rightarrow> test \<Rightarrow> test" where
  "unpack_settings j =
     when_member j ''flowlabel'' (set_int (\<lambda>n s. s\<lparr>flowlabel := n\<rparr>)) \<circ>
     when_member j ''TOS'' (set_int (\<lambda>n s. s\<lparr>tos := n\<rparr>)) \<circ>
     when_member j ''burst'' (set_int (\<lambda>n s. s\<lparr>burst := n\<rparr>)) \<circ>
     when_member j ''pacing_timer'' (set_int (\<lambda>n s. s\<lparr>pacing_timer := n\<rparr>)) \<circ>
     when_member j ''fqrate'' (set_u64 (\<lambda>n s. s\<lparr>fqrate := n\<rparr>)) \<circ>
     when_member j ''bandwidth'' (set_u64 (\<lambda>n s. s\<lparr>rate := n\<rparr>)) \<circ>
     when_member j ''len'' (set_int (\<lambda>n s. s\<lparr>blksize := n\<rparr>)) \<circ>
     when_member j ''window'' (set_int (\<lambda>n s. s\<lparr>socket_bufsize := n\<rparr>))"

definition unpack_strings :: "json \<Rightarrow> test \<Rightarrow> test option" where
  "unpack_strings j t =
     Option.bind (when_string j ''title'' (\<lambda>s t. t\<lparr>title := Some s\<rparr>) t) (\<lambda>t.
     Option.bind (when_string j ''extra_data'' (\<lambda>s t. t\<lparr>extra_data := Some s\<rparr>) t) (\<lambda>t.
     Option.bind (when_string j ''congestion'' (\<lambda>s t. t\<lparr>congestion := Some s\<rparr>) t)
       (when_string j ''congestion_used'' (\<lambda>s t. t\<lparr>congestion_used := Some s\<rparr>))))"

definition unpack_flags :: "json \<Rightarrow> test \<Rightarrow> test" where
  "unpack_flags j =
     when_member j ''dont_fragment'' (set_int (\<lambda>n s. s\<lparr>dont_fragment := n\<rparr>)) \<circ>
     when_member j ''repeating_payload'' (\<lambda>v t. t\<lparr>repeating_payload := True\<rparr>) \<circ>
     when_member j ''udp_counters_64bit'' (\<lambda>v t. t\<lparr>udp_counters_64bit := True\<rparr>) \<circ>
     when_member j ''get_server_output'' (\<lambda>v t. t\<lparr>get_server_output := True\<rparr>)"

definition unpack_params :: "json \<Rightarrow> test \<Rightarrow> test option" where
  "unpack_params j t0 =
     Option.bind (unpack_strings j (unpack_settings j (unpack_test j t0))) (\<lambda>t1.
     Option.bind (when_string j ''authtoken'' (\<lambda>s. set_settings (\<lambda>st. st\<lparr>authtoken := Some s\<rparr>)) (unpack_flags j t1))
       (\<lambda>t. Some (if mode t \<noteq> RECEIVER \<and> protocol t = Ptcp \<and> has_tcpinfo_retransmits
                  then t\<lparr>sender_has_retransmits := 1\<rparr> else t)))"

definition get_parameters :: "(bytes \<Rightarrow> json option) \<Rightarrow> bytes \<Rightarrow> (test, outcome) state" where
  "get_parameters ps junk = do {
     fd \<leftarrow> gets ctrl_sck;
     m \<leftarrow> JSON_read ps junk fd;
     (case m of
        Overrun \<Rightarrow> State_Monad.return Crash
      | Got None \<Rightarrow> do { r \<leftarrow> fail IERECVPARAMS; State_Monad.return (Ret r) }
      | Got (Some j) \<Rightarrow> do {
          t \<leftarrow> gets (unpack_params j);
          (case t of None \<Rightarrow> State_Monad.return Crash
           | Some t' \<Rightarrow> do { modify (\<lambda>u. t'); State_Monad.return (Ret 0) }) }) }"

section \<open>Looking up what was packed\<close>

lemma lower_keys:
  "lower ''tcp'' = ''tcp''"
  "lower ''udp'' = ''udp''"
  "lower ''sctp'' = ''sctp''"
  "lower ''omit'' = ''omit''"
  "lower ''server_affinity'' = ''server_affinity''"
  "lower ''time'' = ''time''"
  "lower ''num'' = ''num''"
  "lower ''blockcount'' = ''blockcount''"
  "lower ''MSS'' = ''mss''"
  "lower ''nodelay'' = ''nodelay''"
  "lower ''parallel'' = ''parallel''"
  "lower ''reverse'' = ''reverse''"
  "lower ''bidirectional'' = ''bidirectional''"
  "lower ''multipath'' = ''multipath''"
  "lower ''window'' = ''window''"
  "lower ''len'' = ''len''"
  "lower ''bandwidth'' = ''bandwidth''"
  "lower ''fqrate'' = ''fqrate''"
  "lower ''pacing_timer'' = ''pacing_timer''"
  "lower ''burst'' = ''burst''"
  "lower ''TOS'' = ''tos''"
  "lower ''flowlabel'' = ''flowlabel''"
  "lower ''title'' = ''title''"
  "lower ''extra_data'' = ''extra_data''"
  "lower ''congestion'' = ''congestion''"
  "lower ''congestion_used'' = ''congestion_used''"
  "lower ''get_server_output'' = ''get_server_output''"
  "lower ''udp_counters_64bit'' = ''udp_counters_64bit''"
  "lower ''repeating_payload'' = ''repeating_payload''"
  "lower ''dont_fragment'' = ''dont_fragment''"
  "lower ''authtoken'' = ''authtoken''"
  "lower ''client_version'' = ''client_version''"
  by (simp_all add: lower_def tolower_def Let_def char_of_def bit_0)

lemma get_member_parts:
  "get_member k (opt_member b k' v @ ms) =
     (if case_insensitive_eq k k' \<and> b then Some v else get_member k ms)"
  "get_member k (opt_string k' s @ ms) =
     (if case_insensitive_eq k k' \<and> s \<noteq> None then Some (JString (the s)) else get_member k ms)"
  "get_member k (proto_members p @ ms) =
     (if case_insensitive_eq k ''tcp'' \<and> p = Ptcp \<or> case_insensitive_eq k ''udp'' \<and> p = Pudp
         \<or> case_insensitive_eq k ''sctp'' \<and> p = Psctp then Some JTrue else get_member k ms)"
  by (auto simp: opt_member_def opt_string_def proto_members_def split: option.splits)

lemmas packed = params_members_def Let_def get_member_parts case_insensitive_eq_def lower_keys

lemma packed_protocol:
  "get_member ''tcp'' (params_members tk ver t) = (if protocol t = Ptcp then Some JTrue else None)"
  "get_member ''udp'' (params_members tk ver t) = (if protocol t = Pudp then Some JTrue else None)"
  "get_member ''sctp'' (params_members tk ver t) = (if protocol t = Psctp then Some JTrue else None)"
  by (simp_all add: packed)

lemma packed_test:
  "get_member ''omit'' (params_members tk ver t) = Some (json_int (omit t))"
  "get_member ''server_affinity'' (params_members tk ver t) =
     (if server_affinity t \<noteq> -1 then Some (json_int (server_affinity t)) else None)"
  "get_member ''time'' (params_members tk ver t) = Some (json_int (duration t))"
  "get_member ''nodelay'' (params_members tk ver t) = (if no_delay t then Some JTrue else None)"
  "get_member ''parallel'' (params_members tk ver t) = Some (json_int (num_streams t))"
  "get_member ''reverse'' (params_members tk ver t) = (if reverse t then Some JTrue else None)"
  "get_member ''bidirectional'' (params_members tk ver t) = (if bidirectional t then Some JTrue else None)"
  "get_member ''multipath'' (params_members tk ver t) = (if multipath t then Some JTrue else None)"
  "get_member ''get_server_output'' (params_members tk ver t) =
     (if get_server_output t then Some (json_int 1) else None)"
  "get_member ''udp_counters_64bit'' (params_members tk ver t) =
     (if udp_counters_64bit t then Some (json_int 1) else None)"
  "get_member ''repeating_payload'' (params_members tk ver t) =
     (if repeating_payload t then Some (json_int 1) else None)"
  by (simp_all add: packed)

lemma packed_settings:
  "get_member ''num'' (params_members tk ver t) =
     (if s_bytes (settings t) \<noteq> 0 then Some (json_u64 (s_bytes (settings t))) else None)"
  "get_member ''blockcount'' (params_members tk ver t) =
     (if s_blocks (settings t) \<noteq> 0 then Some (json_u64 (s_blocks (settings t))) else None)"
  "get_member ''MSS'' (params_members tk ver t) =
     (if mss (settings t) \<noteq> 0 then Some (json_int (mss (settings t))) else None)"
  "get_member ''window'' (params_members tk ver t) =
     (if socket_bufsize (settings t) \<noteq> 0 then Some (json_int (socket_bufsize (settings t))) else None)"
  "get_member ''len'' (params_members tk ver t) =
     (if blksize (settings t) \<noteq> 0 then Some (json_int (blksize (settings t))) else None)"
  "get_member ''bandwidth'' (params_members tk ver t) =
     (if rate (settings t) \<noteq> 0 then Some (json_u64 (rate (settings t))) else None)"
  "get_member ''fqrate'' (params_members tk ver t) =
     (if fqrate (settings t) \<noteq> 0 then Some (json_u64 (fqrate (settings t))) else None)"
  "get_member ''pacing_timer'' (params_members tk ver t) =
     (if pacing_timer (settings t) \<noteq> 0 then Some (json_int (pacing_timer (settings t))) else None)"
  "get_member ''burst'' (params_members tk ver t) =
     (if burst (settings t) \<noteq> 0 then Some (json_int (burst (settings t))) else None)"
  "get_member ''TOS'' (params_members tk ver t) =
     (if tos (settings t) \<noteq> 0 then Some (json_int (tos (settings t))) else None)"
  "get_member ''flowlabel'' (params_members tk ver t) =
     (if flowlabel (settings t) \<noteq> 0 then Some (json_int (flowlabel (settings t))) else None)"
  "get_member ''dont_fragment'' (params_members tk ver t) =
     (if dont_fragment (settings t) \<noteq> 0 then Some (json_int (dont_fragment (settings t))) else None)"
  by (simp_all add: packed)

lemma packed_strings:
  "get_member ''title'' (params_members tk ver t) = map_option JString (title t)"
  "get_member ''extra_data'' (params_members tk ver t) = map_option JString (extra_data t)"
  "get_member ''congestion'' (params_members tk ver t) = map_option JString (congestion t)"
  "get_member ''congestion_used'' (params_members tk ver t) = map_option JString (congestion_used t)"
  "get_member ''authtoken'' (params_members tk ver t) = map_option JString tk"
  subgoal by (cases "title t") (simp_all add: packed)
  subgoal by (cases "extra_data t") (simp_all add: packed)
  subgoal by (cases "congestion t") (simp_all add: packed)
  subgoal by (cases "congestion_used t") (simp_all add: packed)
  subgoal by (cases tk) (simp_all add: packed)
  done

lemmas packed_all = packed_protocol packed_test packed_settings packed_strings

section \<open>The server ends up with the client's options\<close>

text \<open>
  \<open>in_range\<close>: what the option parser lets through fits the wire format. \<open>agrees c s\<close>: the
  server's test \<open>s\<close> has the options of the client's test \<open>c\<close>.
\<close>

definition fits_int :: "int \<Rightarrow> bool" where
  "fits_int n \<longleftrightarrow> - 2147483648 \<le> n \<and> n < 2147483648"

definition fits_double :: "u64 \<Rightarrow> bool" where
  "fits_double n \<longleftrightarrow> unat n \<le> 2 ^ 53"

definition in_range :: "test \<Rightarrow> bool" where
  "in_range t \<longleftrightarrow> fits_int (omit t) \<and> fits_int (server_affinity t) \<and> fits_int (duration t)
     \<and> fits_int (num_streams t) \<and> fits_double (s_bytes (settings t)) \<and> fits_double (s_blocks (settings t))
     \<and> fits_int (mss (settings t)) \<and> fits_int (socket_bufsize (settings t)) \<and> fits_int (blksize (settings t))
     \<and> fits_double (rate (settings t)) \<and> fits_double (fqrate (settings t))
     \<and> fits_int (pacing_timer (settings t)) \<and> fits_int (burst (settings t)) \<and> fits_int (tos (settings t))
     \<and> fits_int (flowlabel (settings t)) \<and> fits_int (dont_fragment (settings t))"

definition agrees :: "test \<Rightarrow> test \<Rightarrow> bool" where
  "agrees c s \<longleftrightarrow> protocol s = protocol c \<and> omit s = omit c \<and> server_affinity s = server_affinity c
     \<and> duration s = duration c \<and> num_streams s = num_streams c \<and> no_delay s = no_delay c
     \<and> reverse s = reverse c \<and> bidirectional s = bidirectional c \<and> multipath s = multipath c
     \<and> title s = title c \<and> extra_data s = extra_data c \<and> congestion s = congestion c
     \<and> get_server_output s = get_server_output c \<and> udp_counters_64bit s = udp_counters_64bit c
     \<and> repeating_payload s = repeating_payload c
     \<and> (let a = settings c; b = settings s in
         s_bytes b = s_bytes a \<and> s_blocks b = s_blocks a \<and> mss b = mss a
         \<and> socket_bufsize b = socket_bufsize a \<and> blksize b = blksize a \<and> rate b = rate a
         \<and> fqrate b = fqrate a \<and> pacing_timer b = pacing_timer a \<and> burst b = burst a \<and> tos b = tos a
         \<and> flowlabel b = flowlabel a \<and> dont_fragment b = dont_fragment a)"

text \<open>A server test that carries no options yet.\<close>

definition unconfigured :: "test \<Rightarrow> bool" where
  "unconfigured s \<longleftrightarrow> server_affinity s = -1 \<and> \<not> no_delay s \<and> \<not> reverse s \<and> \<not> bidirectional s
     \<and> \<not> multipath s \<and> title s = None \<and> extra_data s = None \<and> congestion s = None
     \<and> \<not> get_server_output s \<and> \<not> udp_counters_64bit s \<and> \<not> repeating_payload s
     \<and> (let b = settings s in s_bytes b = 0 \<and> s_blocks b = 0 \<and> mss b = 0 \<and> socket_bufsize b = 0
         \<and> rate b = 0 \<and> fqrate b = 0 \<and> burst b = 0 \<and> tos b = 0 \<and> flowlabel b = 0 \<and> dont_fragment b = 0)"

lemma int_through [simp]: "fits_int n \<Longrightarrow> to_int (valueint (json_int n)) = n"
proof -
  assume n: "fits_int n"
  then have "\<bar>n\<bar> \<le> 2 ^ 53"
    by (auto simp: fits_int_def)
  then have "valueint (json_int n) = n"
    by (rule valueint_json_int)
  then show ?thesis
    using n by (simp add: fits_int_def to_int_def signed_take_bit_int_eq_self)
qed

lemma u64_through [simp]: "fits_double n \<Longrightarrow> (word_of_int (valueint (json_u64 n)) :: u64) = n"
  unfolding fits_double_def by (simp add: valueint_json_u64)

text \<open>A field of the test after one step of the unpacking: untouched, or changed by the member.\<close>

lemma when_hit:
  "g (when_member (JObject ms) k f t) = (case get_member k ms of None \<Rightarrow> g t | Some v \<Rightarrow> g (f v t))"
  by (simp add: when_member_def split: option.split)

lemma when_miss:
  "(\<And>v t. g (f v t) = g t) \<Longrightarrow> g (when_member j k f t) = g t"
  by (simp add: when_member_def split: option.split)

lemma when_string_packed:
  "get_member k ms = map_option JString x \<Longrightarrow>
   when_string (JObject ms) k f t = Some (case x of None \<Rightarrow> t | Some s \<Rightarrow> f s t)"
  by (cases x) (simp_all add: when_string_def)

lemmas hits =
  when_hit [where g = protocol and k = "''tcp''"]
  when_hit [where g = protocol and k = "''udp''"]
  when_hit [where g = protocol and k = "''sctp''"]
  when_hit [where g = omit and k = "''omit''"]
  when_hit [where g = server_affinity and k = "''server_affinity''"]
  when_hit [where g = duration and k = "''time''"]
  when_hit [where g = num_streams and k = "''parallel''"]
  when_hit [where g = no_delay and k = "''nodelay''"]
  when_hit [where g = reverse and k = "''reverse''"]
  when_hit [where g = bidirectional and k = "''bidirectional''"]
  when_hit [where g = multipath and k = "''multipath''"]
  when_hit [where g = get_server_output and k = "''get_server_output''"]
  when_hit [where g = udp_counters_64bit and k = "''udp_counters_64bit''"]
  when_hit [where g = repeating_payload and k = "''repeating_payload''"]
  when_hit [where g = mode and k = "''reverse''"]
  when_hit [where g = mode and k = "''bidirectional''"]
  when_hit [where g = "\<lambda>t. s_bytes (settings t)" and k = "''num''"]
  when_hit [where g = "\<lambda>t. s_blocks (settings t)" and k = "''blockcount''"]
  when_hit [where g = "\<lambda>t. mss (settings t)" and k = "''MSS''"]
  when_hit [where g = "\<lambda>t. socket_bufsize (settings t)" and k = "''window''"]
  when_hit [where g = "\<lambda>t. blksize (settings t)" and k = "''len''"]
  when_hit [where g = "\<lambda>t. rate (settings t)" and k = "''bandwidth''"]
  when_hit [where g = "\<lambda>t. fqrate (settings t)" and k = "''fqrate''"]
  when_hit [where g = "\<lambda>t. pacing_timer (settings t)" and k = "''pacing_timer''"]
  when_hit [where g = "\<lambda>t. burst (settings t)" and k = "''burst''"]
  when_hit [where g = "\<lambda>t. tos (settings t)" and k = "''TOS''"]
  when_hit [where g = "\<lambda>t. flowlabel (settings t)" and k = "''flowlabel''"]
  when_hit [where g = "\<lambda>t. dont_fragment (settings t)" and k = "''dont_fragment''"]

lemmas misses =
  when_miss [where g = protocol]
  when_miss [where g = protocols]
  when_miss [where g = omit]
  when_miss [where g = server_affinity]
  when_miss [where g = duration]
  when_miss [where g = num_streams]
  when_miss [where g = no_delay]
  when_miss [where g = reverse]
  when_miss [where g = bidirectional]
  when_miss [where g = multipath]
  when_miss [where g = title]
  when_miss [where g = extra_data]
  when_miss [where g = congestion]
  when_miss [where g = get_server_output]
  when_miss [where g = udp_counters_64bit]
  when_miss [where g = repeating_payload]
  when_miss [where g = test_role]
  when_miss [where g = mode]
  when_miss [where g = "\<lambda>t. s_bytes (settings t)"]
  when_miss [where g = "\<lambda>t. s_blocks (settings t)"]
  when_miss [where g = "\<lambda>t. mss (settings t)"]
  when_miss [where g = "\<lambda>t. socket_bufsize (settings t)"]
  when_miss [where g = "\<lambda>t. blksize (settings t)"]
  when_miss [where g = "\<lambda>t. rate (settings t)"]
  when_miss [where g = "\<lambda>t. fqrate (settings t)"]
  when_miss [where g = "\<lambda>t. pacing_timer (settings t)"]
  when_miss [where g = "\<lambda>t. burst (settings t)"]
  when_miss [where g = "\<lambda>t. tos (settings t)"]
  when_miss [where g = "\<lambda>t. flowlabel (settings t)"]
  when_miss [where g = "\<lambda>t. dont_fragment (settings t)"]

lemma set_protocol_keeps [simp]:
  "protocols (snd (set_protocol p t)) = protocols t"
  "omit (snd (set_protocol p t)) = omit t"
  "server_affinity (snd (set_protocol p t)) = server_affinity t"
  "duration (snd (set_protocol p t)) = duration t"
  "num_streams (snd (set_protocol p t)) = num_streams t"
  "no_delay (snd (set_protocol p t)) = no_delay t"
  "reverse (snd (set_protocol p t)) = reverse t"
  "bidirectional (snd (set_protocol p t)) = bidirectional t"
  "multipath (snd (set_protocol p t)) = multipath t"
  "title (snd (set_protocol p t)) = title t"
  "extra_data (snd (set_protocol p t)) = extra_data t"
  "congestion (snd (set_protocol p t)) = congestion t"
  "get_server_output (snd (set_protocol p t)) = get_server_output t"
  "udp_counters_64bit (snd (set_protocol p t)) = udp_counters_64bit t"
  "repeating_payload (snd (set_protocol p t)) = repeating_payload t"
  "test_role (snd (set_protocol p t)) = test_role t"
  "settings (snd (set_protocol p t)) = settings t"
  "mode (snd (set_protocol p t)) = mode t"
  by (simp_all add: set_protocol_def check_sender_has_retransmits_def split: option.split)

lemma set_mode_keeps [simp]:
  "protocol (iperf_set_test_reverse b t) = protocol t"
  "protocols (iperf_set_test_reverse b t) = protocols t"
  "omit (iperf_set_test_reverse b t) = omit t"
  "server_affinity (iperf_set_test_reverse b t) = server_affinity t"
  "duration (iperf_set_test_reverse b t) = duration t"
  "num_streams (iperf_set_test_reverse b t) = num_streams t"
  "no_delay (iperf_set_test_reverse b t) = no_delay t"
  "multipath (iperf_set_test_reverse b t) = multipath t"
  "title (iperf_set_test_reverse b t) = title t"
  "extra_data (iperf_set_test_reverse b t) = extra_data t"
  "congestion (iperf_set_test_reverse b t) = congestion t"
  "get_server_output (iperf_set_test_reverse b t) = get_server_output t"
  "udp_counters_64bit (iperf_set_test_reverse b t) = udp_counters_64bit t"
  "repeating_payload (iperf_set_test_reverse b t) = repeating_payload t"
  "test_role (iperf_set_test_reverse b t) = test_role t"
  "settings (iperf_set_test_reverse b t) = settings t"
  "bidirectional (iperf_set_test_reverse b t) = bidirectional t"
  "protocol (iperf_set_test_bidirectional True t) = protocol t"
  "protocols (iperf_set_test_bidirectional True t) = protocols t"
  "omit (iperf_set_test_bidirectional True t) = omit t"
  "server_affinity (iperf_set_test_bidirectional True t) = server_affinity t"
  "duration (iperf_set_test_bidirectional True t) = duration t"
  "num_streams (iperf_set_test_bidirectional True t) = num_streams t"
  "no_delay (iperf_set_test_bidirectional True t) = no_delay t"
  "multipath (iperf_set_test_bidirectional True t) = multipath t"
  "title (iperf_set_test_bidirectional True t) = title t"
  "extra_data (iperf_set_test_bidirectional True t) = extra_data t"
  "congestion (iperf_set_test_bidirectional True t) = congestion t"
  "get_server_output (iperf_set_test_bidirectional True t) = get_server_output t"
  "udp_counters_64bit (iperf_set_test_bidirectional True t) = udp_counters_64bit t"
  "repeating_payload (iperf_set_test_bidirectional True t) = repeating_payload t"
  "test_role (iperf_set_test_bidirectional True t) = test_role t"
  "settings (iperf_set_test_bidirectional True t) = settings t"
  "reverse (iperf_set_test_bidirectional True t) = reverse t"
  "reverse (iperf_set_test_reverse b t) = b"
  "bidirectional (iperf_set_test_bidirectional True t)"
  "mode (iperf_set_test_bidirectional True t) = BIDIRECTIONAL"
  by (simp_all add: iperf_set_test_reverse_def iperf_set_test_bidirectional_def Let_def
      check_sender_has_retransmits_def)

lemma set_reverse_mode [simp]:
  "test_role t = CHR ''s'' \<Longrightarrow> mode (iperf_set_test_reverse b t) = (if b then SENDER else RECEIVER)"
  by (simp add: iperf_set_test_reverse_def Let_def check_sender_has_retransmits_def)

lemma set_protocol_hit:
  "protocols t = [Ptcp, Pudp] \<Longrightarrow> p \<in> {Ptcp, Pudp} \<Longrightarrow> protocol (snd (set_protocol p t)) = p"
  by (auto simp: set_protocol_def check_sender_has_retransmits_def)

lemma set_settings_fields [simp]:
  "settings (set_settings f t) = f (settings t)"
  "protocol (set_settings f t) = protocol t"
  "protocols (set_settings f t) = protocols t"
  "omit (set_settings f t) = omit t"
  "server_affinity (set_settings f t) = server_affinity t"
  "duration (set_settings f t) = duration t"
  "num_streams (set_settings f t) = num_streams t"
  "no_delay (set_settings f t) = no_delay t"
  "reverse (set_settings f t) = reverse t"
  "bidirectional (set_settings f t) = bidirectional t"
  "multipath (set_settings f t) = multipath t"
  "title (set_settings f t) = title t"
  "extra_data (set_settings f t) = extra_data t"
  "congestion (set_settings f t) = congestion t"
  "get_server_output (set_settings f t) = get_server_output t"
  "udp_counters_64bit (set_settings f t) = udp_counters_64bit t"
  "repeating_payload (set_settings f t) = repeating_payload t"
  "test_role (set_settings f t) = test_role t"
  "mode (set_settings f t) = mode t"
  by (simp_all add: set_settings_def)

text \<open>The three stages of the unpacking, field by field.\<close>

lemma unpacked_protocol:
  assumes "protocols s = [Ptcp, Pudp]" "protocol c \<in> {Ptcp, Pudp}"
  shows "protocol (unpack_test (JObject (params_members tk ver c)) s) = protocol c"
  using assms by (auto simp: unpack_test_def hits misses packed_all set_int_def set_u64_def set_protocol_hit)

lemma unpacked_test:
  fixes tk ver c s
  assumes "in_range c" "unconfigured s"
  defines "t \<equiv> unpack_test (JObject (params_members tk ver c)) s"
  shows "omit t = omit c" "server_affinity t = server_affinity c"
    "duration t = duration c" "num_streams t = num_streams c" "no_delay t = no_delay c"
    "reverse t = reverse c" "bidirectional t = bidirectional c" "multipath t = multipath c"
    "s_bytes (settings t) = s_bytes (settings c)" "s_blocks (settings t) = s_blocks (settings c)"
    "mss (settings t) = mss (settings c)"
  using assms(1-2) unfolding t_def
  by (simp_all add: unpack_test_def hits misses packed_all set_int_def set_u64_def in_range_def
      unconfigured_def Let_def)

lemma unpacked_mode:
  "test_role s = CHR ''s'' \<Longrightarrow> mode (unpack_test (JObject (params_members tk ver c)) s) =
     (if bidirectional c then BIDIRECTIONAL else if reverse c then SENDER else mode s)"
  by (simp add: unpack_test_def hits misses packed_all set_int_def set_u64_def)

lemma unpack_test_keeps:
  "title (unpack_test (JObject ms) s) = title s"
  "extra_data (unpack_test (JObject ms) s) = extra_data s"
  "congestion (unpack_test (JObject ms) s) = congestion s"
  "get_server_output (unpack_test (JObject ms) s) = get_server_output s"
  "udp_counters_64bit (unpack_test (JObject ms) s) = udp_counters_64bit s"
  "repeating_payload (unpack_test (JObject ms) s) = repeating_payload s"
  "test_role (unpack_test (JObject ms) s) = test_role s"
  "socket_bufsize (settings (unpack_test (JObject ms) s)) = socket_bufsize (settings s)"
  "blksize (settings (unpack_test (JObject ms) s)) = blksize (settings s)"
  "rate (settings (unpack_test (JObject ms) s)) = rate (settings s)"
  "fqrate (settings (unpack_test (JObject ms) s)) = fqrate (settings s)"
  "pacing_timer (settings (unpack_test (JObject ms) s)) = pacing_timer (settings s)"
  "burst (settings (unpack_test (JObject ms) s)) = burst (settings s)"
  "tos (settings (unpack_test (JObject ms) s)) = tos (settings s)"
  "flowlabel (settings (unpack_test (JObject ms) s)) = flowlabel (settings s)"
  "dont_fragment (settings (unpack_test (JObject ms) s)) = dont_fragment (settings s)"
  by (simp_all add: unpack_test_def misses set_int_def set_u64_def)

lemma unpacked_settings:
  fixes tk ver c s
  assumes "in_range c" "unconfigured s" "blksize (settings c) \<noteq> 0" "pacing_timer (settings c) \<noteq> 0"
  defines "t \<equiv> unpack_settings (JObject (params_members tk ver c)) (unpack_test (JObject (params_members tk ver c)) s)"
  shows
    "socket_bufsize (settings t) = socket_bufsize (settings c)"
    "blksize (settings t) = blksize (settings c)"
    "rate (settings t) = rate (settings c)"
    "fqrate (settings t) = fqrate (settings c)"
    "pacing_timer (settings t) = pacing_timer (settings c)"
    "burst (settings t) = burst (settings c)"
    "tos (settings t) = tos (settings c)"
    "flowlabel (settings t) = flowlabel (settings c)"
  using assms(1-4) unfolding t_def
  by (simp_all add: unpack_settings_def hits misses packed_all set_int_def set_u64_def in_range_def
      unconfigured_def unpack_test_keeps Let_def)

lemma unpack_settings_keeps:
  "protocol (unpack_settings (JObject ms) s) = protocol s"
  "protocols (unpack_settings (JObject ms) s) = protocols s"
  "omit (unpack_settings (JObject ms) s) = omit s"
  "server_affinity (unpack_settings (JObject ms) s) = server_affinity s"
  "duration (unpack_settings (JObject ms) s) = duration s"
  "num_streams (unpack_settings (JObject ms) s) = num_streams s"
  "no_delay (unpack_settings (JObject ms) s) = no_delay s"
  "reverse (unpack_settings (JObject ms) s) = reverse s"
  "bidirectional (unpack_settings (JObject ms) s) = bidirectional s"
  "multipath (unpack_settings (JObject ms) s) = multipath s"
  "title (unpack_settings (JObject ms) s) = title s"
  "extra_data (unpack_settings (JObject ms) s) = extra_data s"
  "congestion (unpack_settings (JObject ms) s) = congestion s"
  "get_server_output (unpack_settings (JObject ms) s) = get_server_output s"
  "udp_counters_64bit (unpack_settings (JObject ms) s) = udp_counters_64bit s"
  "repeating_payload (unpack_settings (JObject ms) s) = repeating_payload s"
  "test_role (unpack_settings (JObject ms) s) = test_role s"
  "mode (unpack_settings (JObject ms) s) = mode s"
  "s_bytes (settings (unpack_settings (JObject ms) s)) = s_bytes (settings s)"
  "s_blocks (settings (unpack_settings (JObject ms) s)) = s_blocks (settings s)"
  "mss (settings (unpack_settings (JObject ms) s)) = mss (settings s)"
  "dont_fragment (settings (unpack_settings (JObject ms) s)) = dont_fragment (settings s)"
  by (simp_all add: unpack_settings_def misses set_int_def set_u64_def)

lemma unpacked_strings:
  fixes tk ver c s
  obtains t where "unpack_strings (JObject (params_members tk ver c)) s = Some t"
    "title s = None \<Longrightarrow> title t = title c" "extra_data s = None \<Longrightarrow> extra_data t = extra_data c"
    "congestion s = None \<Longrightarrow> congestion t = congestion c"
    "protocol t = protocol s"
    "protocols t = protocols s"
    "omit t = omit s"
    "server_affinity t = server_affinity s"
    "duration t = duration s"
    "num_streams t = num_streams s"
    "no_delay t = no_delay s"
    "reverse t = reverse s"
    "bidirectional t = bidirectional s"
    "multipath t = multipath s"
    "get_server_output t = get_server_output s"
    "udp_counters_64bit t = udp_counters_64bit s"
    "repeating_payload t = repeating_payload s"
    "test_role t = test_role s"
    "mode t = mode s"
    "settings t = settings s"
proof
  show "unpack_strings (JObject (params_members tk ver c)) s =
    Some (s\<lparr>title := (if title c = None then title s else title c),
      extra_data := (if extra_data c = None then extra_data s else extra_data c),
      congestion := (if congestion c = None then congestion s else congestion c),
      congestion_used := (if congestion_used c = None then congestion_used s else congestion_used c)\<rparr>)"
    unfolding unpack_strings_def when_string_packed [OF packed_strings(1)]
      when_string_packed [OF packed_strings(2)] when_string_packed [OF packed_strings(3)]
      when_string_packed [OF packed_strings(4)] Option.bind.simps
    by (simp split: option.split)
qed simp_all

lemma unpacked_flags:
  fixes tk ver c s
  assumes "in_range c" "dont_fragment (settings s) = 0" "\<not> get_server_output s" "\<not> udp_counters_64bit s"
    "\<not> repeating_payload s"
  defines "t \<equiv> unpack_flags (JObject (params_members tk ver c)) s"
  shows "dont_fragment (settings t) = dont_fragment (settings c)" "get_server_output t = get_server_output c"
    "udp_counters_64bit t = udp_counters_64bit c" "repeating_payload t = repeating_payload c"
  using assms(1-5) unfolding t_def
  by (simp_all add: unpack_flags_def hits misses packed_all set_int_def set_u64_def in_range_def Let_def)

lemma unpack_flags_keeps:
  "protocol (unpack_flags (JObject ms) s) = protocol s"
  "protocols (unpack_flags (JObject ms) s) = protocols s"
  "omit (unpack_flags (JObject ms) s) = omit s"
  "server_affinity (unpack_flags (JObject ms) s) = server_affinity s"
  "duration (unpack_flags (JObject ms) s) = duration s"
  "num_streams (unpack_flags (JObject ms) s) = num_streams s"
  "no_delay (unpack_flags (JObject ms) s) = no_delay s"
  "reverse (unpack_flags (JObject ms) s) = reverse s"
  "bidirectional (unpack_flags (JObject ms) s) = bidirectional s"
  "multipath (unpack_flags (JObject ms) s) = multipath s"
  "title (unpack_flags (JObject ms) s) = title s"
  "extra_data (unpack_flags (JObject ms) s) = extra_data s"
  "congestion (unpack_flags (JObject ms) s) = congestion s"
  "test_role (unpack_flags (JObject ms) s) = test_role s"
  "mode (unpack_flags (JObject ms) s) = mode s"
  "s_bytes (settings (unpack_flags (JObject ms) s)) = s_bytes (settings s)"
  "s_blocks (settings (unpack_flags (JObject ms) s)) = s_blocks (settings s)"
  "mss (settings (unpack_flags (JObject ms) s)) = mss (settings s)"
  "socket_bufsize (settings (unpack_flags (JObject ms) s)) = socket_bufsize (settings s)"
  "blksize (settings (unpack_flags (JObject ms) s)) = blksize (settings s)"
  "rate (settings (unpack_flags (JObject ms) s)) = rate (settings s)"
  "fqrate (settings (unpack_flags (JObject ms) s)) = fqrate (settings s)"
  "pacing_timer (settings (unpack_flags (JObject ms) s)) = pacing_timer (settings s)"
  "burst (settings (unpack_flags (JObject ms) s)) = burst (settings s)"
  "tos (settings (unpack_flags (JObject ms) s)) = tos (settings s)"
  "flowlabel (settings (unpack_flags (JObject ms) s)) = flowlabel (settings s)"
  by (simp_all add: unpack_flags_def misses set_int_def set_u64_def)

text \<open>The whole object.\<close>

definition complement :: "test_mode \<Rightarrow> test_mode" where
  "complement m = (case m of SENDER \<Rightarrow> RECEIVER | RECEIVER \<Rightarrow> SENDER | BIDIRECTIONAL \<Rightarrow> BIDIRECTIONAL)"

text \<open>A client's direction, as its option parser leaves it.\<close>

definition client_mode :: "test \<Rightarrow> test_mode" where
  "client_mode c = (if bidirectional c then BIDIRECTIONAL else if reverse c then RECEIVER else SENDER)"

definition idle_server :: "test \<Rightarrow> bool" where
  "idle_server s \<longleftrightarrow> unconfigured s \<and> protocols s = [Ptcp, Pudp] \<and> test_role s = CHR ''s'' \<and> mode s = RECEIVER"

definition sendable :: "test \<Rightarrow> bool" where
  "sendable c \<longleftrightarrow> in_range c \<and> protocol c \<in> {Ptcp, Pudp} \<and> blksize (settings c) \<noteq> 0
     \<and> pacing_timer (settings c) \<noteq> 0"

lemma unpack_packed:
  fixes tk ver c s
  assumes "sendable c" "idle_server s"
  obtains s' where "unpack_params (JObject (params_members tk ver c)) s = Some s'"
    "agrees c s'" "mode s' = complement (client_mode c)"
proof -
  let ?j = "JObject (params_members tk ver c)"
  let ?t = "unpack_settings ?j (unpack_test ?j s)"
  have c: "in_range c" "protocol c \<in> {Ptcp, Pudp}" "blksize (settings c) \<noteq> 0" "pacing_timer (settings c) \<noteq> 0"
    and s: "unconfigured s" "protocols s = [Ptcp, Pudp]" "test_role s = CHR ''s''" "mode s = RECEIVER"
    using assms by (simp_all add: sendable_def idle_server_def)
  obtain u where u: "unpack_strings ?j ?t = Some u"
    "title ?t = None \<Longrightarrow> title u = title c" "extra_data ?t = None \<Longrightarrow> extra_data u = extra_data c"
    "congestion ?t = None \<Longrightarrow> congestion u = congestion c"
    "protocol u = protocol ?t" "protocols u = protocols ?t" "omit u = omit ?t"
    "server_affinity u = server_affinity ?t" "duration u = duration ?t" "num_streams u = num_streams ?t"
    "no_delay u = no_delay ?t" "reverse u = reverse ?t" "bidirectional u = bidirectional ?t"
    "multipath u = multipath ?t" "get_server_output u = get_server_output ?t"
    "udp_counters_64bit u = udp_counters_64bit ?t" "repeating_payload u = repeating_payload ?t"
    "test_role u = test_role ?t" "mode u = mode ?t" "settings u = settings ?t"
    using unpacked_strings [of tk ver c ?t] by blast
  let ?v = "unpack_flags ?j u"
  have none: "title s = None" "extra_data s = None" "congestion s = None" "dont_fragment (settings s) = 0"
    "\<not> get_server_output s" "\<not> udp_counters_64bit s" "\<not> repeating_payload s"
    using s(1) by (simp_all add: unconfigured_def Let_def)
  have flags: "dont_fragment (settings ?v) = dont_fragment (settings c)"
    "get_server_output ?v = get_server_output c" "udp_counters_64bit ?v = udp_counters_64bit c"
    "repeating_payload ?v = repeating_payload c"
    by (rule unpacked_flags [OF c(1)]; simp add: u unpack_settings_keeps unpack_test_keeps none)+
  have agree: "agrees c ?v"
    unfolding agrees_def Let_def
    by (simp add: flags unpack_flags_keeps u unpack_settings_keeps unpack_test_keeps none
        unpacked_protocol [OF s(2) c(2)] unpacked_test [OF c(1) s(1)] unpacked_settings [OF c(1) s(1) c(3,4)])
  have mode: "mode ?v = complement (client_mode c)"
    by (simp add: unpack_flags_keeps u unpack_settings_keeps unpacked_mode [OF s(3)] s(4)
        complement_def client_mode_def)
  let ?w = "case tk of None \<Rightarrow> ?v | Some x \<Rightarrow> set_settings (\<lambda>st. st\<lparr>authtoken := Some x\<rparr>) ?v"
  have w: "agrees c ?w" "mode ?w = complement (client_mode c)"
    using agree mode by (cases tk; simp add: agrees_def Let_def)+
  show thesis
  proof
    show "unpack_params ?j s = Some (if mode ?w \<noteq> RECEIVER \<and> protocol ?w = Ptcp \<and> has_tcpinfo_retransmits
        then ?w\<lparr>sender_has_retransmits := 1\<rparr> else ?w)"
      unfolding unpack_params_def u(1) Option.bind.simps when_string_packed [OF packed_strings(5)] by simp
    show "agrees c (if mode ?w \<noteq> RECEIVER \<and> protocol ?w = Ptcp \<and> has_tcpinfo_retransmits
        then ?w\<lparr>sender_has_retransmits := 1\<rparr> else ?w)"
      using w(1) by (simp add: agrees_def Let_def)
    show "mode (if mode ?w \<noteq> RECEIVER \<and> protocol ?w = Ptcp \<and> has_tcpinfo_retransmits
        then ?w\<lparr>sender_has_retransmits := 1\<rparr> else ?w) = complement (client_mode c)"
      using w(2) by simp
  qed
qed

text \<open>Reading from a connection leaves the data of the test alone.\<close>

lemma Nread_data:
  assumes "Nread fd n w = (r, bs, w')"
  shows "os.more w' = os.more w"
proof -
  have "os.more (snd (snd (Nread_loop fd n n [] w))) = os.more w"
    by (rule Nread_loop_inv) (auto simp: after_def)
  then show ?thesis using assms by (simp add: Nread_def)
qed

lemma same_data_idle:
  assumes "os.more t' = os.more (t :: test)"
  shows "idle_server t' = idle_server t" "ctrl_sck t' = ctrl_sck t" "settings t' = settings t"
  using assms by (cases t; cases t'; simp add: idle_server_def unconfigured_def Let_def)+

lemma parameters_arrive:
  fixes s :: test
  assumes "sendable c" "idle_server s"
    and str: "pr (JObject (params_members tk ver c)) = Some str" "ps str = Some (JObject (params_members tk ver c))"
      "0 \<notin> set str" "length str < 4294967295"
    and hdr: "Nread (ctrl_sck s) 4 s = (4, be 4 (length str), s1)"
    and body: "Nread (ctrl_sck s) (length str) s1 = (int (length str), str, s2)"
  shows "wp (get_parameters ps junk) (\<lambda>r s'. r = Ret 0 \<and> agrees c s' \<and> mode s' = complement (client_mode c)) s"
proof -
  have read: "run_state (JSON_read ps junk (ctrl_sck s)) s = (Got (Some (JObject (params_members tk ver c))), s2)"
    using JSON_read_frame [OF hdr body _ str(3,4), of ps junk] str(2) by simp
  have "os.more s2 = os.more s" using Nread_data [OF hdr] Nread_data [OF body] by simp
  then have "idle_server s2" using assms(2) same_data_idle(1) by metis
  from unpack_packed [OF assms(1) this, of tk ver] obtain s' where s':
    "unpack_params (JObject (params_members tk ver c)) s2 = Some s'"
    "agrees c s'" "mode s' = complement (client_mode c)" .
  show ?thesis
    unfolding get_parameters_def
    by (simp add: wp_simps wp_iff_run [of "JSON_read ps junk (ctrl_sck s)"] read s')
qed

end
