(* ===== verification/Results.thy ===== *)
theory Results
  imports Params
begin

text \<open>
  The exchange of results at the end of a test: \<open>send_results\<close> and \<open>get_results\<close> of
  \<open>iperf/src/iperf_api.c\<close>, member by member, and what arrives at the other end.
\<close>

section \<open>Packing\<close>

text \<open>The bytes a stream has moved since the omitted part, its retransmissions, its life time.\<close>

definition transferred :: "stream \<Rightarrow> u64" where
  "transferred sp = (if is_sender sp then bytes_sent (result sp) - bytes_sent_omit (result sp)
     else bytes_received (result sp))"

definition sent_retransmits :: "test \<Rightarrow> stream \<Rightarrow> int" where
  "sent_retransmits t sp = (if is_sender sp \<and> sender_has_retransmits t \<noteq> 0 then stream_retrans (result sp) else -1)"

definition time_since :: "iperf_time \<Rightarrow> iperf_time \<Rightarrow> rat" where
  "time_since a b = iperf_time_in_secs (snd (iperf_time_diff a b))"

definition stream_members :: "test \<Rightarrow> stream \<Rightarrow> (string \<times> json) list" where
  "stream_members t sp =
     [(''id'', json_int (stream_id sp)),
      (''bytes'', json_u64 (transferred sp)),
      (''retransmits'', json_int (sent_retransmits t sp)),
      (''jitter'', JNumber (jitter sp)),
      (''errors'', json_int (cnt_error sp)),
      (''packets'', json_int (packet_count sp)),
      (''start_time'', JNumber (time_since (start_time (result sp)) (start_time (result sp)))),
      (''end_time'', JNumber (time_since (start_time (result sp)) (end_time (result sp))))]"

text \<open>The server's output: a reference to its JSON report, or the lines it printed.\<close>

definition output_members :: "test \<Rightarrow> (string \<times> json) list" where
  "output_members t =
     (if test_role t = CHR ''s'' \<and> get_server_output t then
        (if json_output t then (case json_top t of None \<Rightarrow> [] | Some j \<Rightarrow> [(''server_output_json'', j)])
         else [(''server_output_text'', JString (concat (server_output_list t)))])
      else [])"

definition results_members :: "test \<Rightarrow> (string \<times> json) list" where
  "results_members t =
     [(''cpu_util_total'', JNumber (cpu_util t ! 0)), (''cpu_util_user'', JNumber (cpu_util t ! 1)),
      (''cpu_util_system'', JNumber (cpu_util t ! 2)),
      (''sender_has_retransmits'', json_int (if mode t = RECEIVER then -1 else sender_has_retransmits t))]
     @ opt_string ''congestion_used'' (congestion_used t) @ output_members t
     @ [(''streams'', JArray (map (\<lambda>sp. JObject (stream_members t sp)) (streams t)))]"

definition send_results :: "(json \<Rightarrow> bytes option) \<Rightarrow> (test, int) state" where
  "send_results pr = do {
     t \<leftarrow> gets (\<lambda>t. t);
     r \<leftarrow> JSON_write pr (ctrl_sck t) (JObject (results_members t));
     if r < 0 then fail IESENDRESULTS else State_Monad.return 0 }"

section \<open>Unpacking\<close>

text \<open>One stream's results: the return value so far and the test. An error does not end the loop.\<close>

definition stream_time :: "json \<Rightarrow> rat" where
  "stream_time j = (case (cJSON_GetObjectItem j ''start_time'', cJSON_GetObjectItem j ''end_time'') of
     (Some a, Some b) \<Rightarrow> f64 (valuedouble b - valuedouble a) | _ \<Rightarrow> 0)"

definition apply_results :: "json \<Rightarrow> u64 \<Rightarrow> int \<Rightarrow> rat \<Rightarrow> int \<Rightarrow> int \<Rightarrow> stream \<Rightarrow> stream" where
  "apply_results j bytes_transferred retransmits jit cerror pcount sp =
     (if is_sender sp then
        sp\<lparr>jitter := jit, cnt_error := cerror, peer_packet_count := pcount,
           result := (result sp)\<lparr>bytes_received := bytes_transferred, receiver_time := stream_time j\<rparr>\<rparr>
      else
        sp\<lparr>peer_packet_count := pcount,
           result := (result sp)\<lparr>bytes_sent := bytes_transferred, stream_retrans := retransmits,
             sender_time := stream_time j\<rparr>\<rparr>)"

fun update_first :: "(stream \<Rightarrow> bool) \<Rightarrow> (stream \<Rightarrow> stream) \<Rightarrow> stream list \<Rightarrow> stream list option" where
  "update_first P f [] = None"
| "update_first P f (x # xs) = (if P x then Some (f x # xs) else map_option ((#) x) (update_first P f xs))"

definition get_stream_results :: "json \<Rightarrow> int \<times> test \<Rightarrow> int \<times> test" where
  "get_stream_results j = (\<lambda>(r, t).
     (case (cJSON_GetObjectItem j ''id'', cJSON_GetObjectItem j ''bytes'', cJSON_GetObjectItem j ''retransmits'',
            cJSON_GetObjectItem j ''jitter'', cJSON_GetObjectItem j ''errors'', cJSON_GetObjectItem j ''packets'') of
        (Some j_id, Some j_bytes, Some j_retransmits, Some j_jitter, Some j_errors, Some j_packets) \<Rightarrow>
          (case update_first (\<lambda>sp. stream_id sp = to_int (valueint j_id))
              (apply_results j (word_of_int (valueint j_bytes)) (to_int (valueint j_retransmits))
                (valuedouble j_jitter) (to_int (valueint j_errors)) (to_int (valueint j_packets))) (streams t) of
             None \<Rightarrow> (-1, t\<lparr>i_errno := IESTREAMID\<rparr>)
           | Some sps \<Rightarrow> (r, t\<lparr>streams := sps\<rparr>))
      | _ \<Rightarrow> (-1, t\<lparr>i_errno := IERECVRESULTS\<rparr>)))"

text \<open>
  The server's output, for a client that asked for it. \<open>None\<close>: \<open>strdup\<close> of a null pointer.
\<close>

definition get_server_text :: "json \<Rightarrow> test \<Rightarrow> test option" where
  "get_server_text j t =
     (if test_role t = CHR ''c'' \<and> get_server_output t then
        (case cJSON_DetachItemFromObject j ''server_output_json'' of
           (Some item, rest) \<Rightarrow> Some (t\<lparr>json_server_output := Some item\<rparr>)
         | (None, rest) \<Rightarrow> when_string j ''server_output_text'' (\<lambda>s t. t\<lparr>server_output_text := Some s\<rparr>) t)
      else Some t)"

definition get_retransmits :: "json \<Rightarrow> test \<Rightarrow> test" where
  "get_retransmits v t = (let result_has_retransmits = to_int (valueint v) in
     if mode t = RECEIVER then t\<lparr>sender_has_retransmits := result_has_retransmits, other_side_has_retransmits := 0\<rparr>
     else if mode t = BIDIRECTIONAL then t\<lparr>other_side_has_retransmits := result_has_retransmits\<rparr>
     else t)"

definition unpack_results :: "json \<Rightarrow> test \<Rightarrow> (int \<times> test) option" where
  "unpack_results j t0 =
     (let body =
        (case (cJSON_GetObjectItem j ''cpu_util_total'', cJSON_GetObjectItem j ''cpu_util_user'',
               cJSON_GetObjectItem j ''cpu_util_system'', cJSON_GetObjectItem j ''sender_has_retransmits'') of
           (Some c_total, Some c_user, Some c_system, Some retrans) \<Rightarrow>
             (let t1 = get_retransmits retrans
                (t0\<lparr>remote_cpu_util := [valuedouble c_total, valuedouble c_user, valuedouble c_system]\<rparr>)
              in case cJSON_GetObjectItem j ''streams'' of
                   None \<Rightarrow> Some (-1, t1\<lparr>i_errno := IERECVRESULTS\<rparr>)
                 | Some j_streams \<Rightarrow>
                     (case fold get_stream_results (elements j_streams) (0, t1) of
                        (r, t2) \<Rightarrow> map_option (Pair r) (get_server_text j t2)))
         | _ \<Rightarrow> Some (-1, t0\<lparr>i_errno := IERECVRESULTS\<rparr>))
      in Option.bind body (\<lambda>(r, t).
           map_option (Pair r) (when_string j ''congestion_used'' (\<lambda>s t. t\<lparr>remote_congestion_used := Some s\<rparr>) t)))"

definition get_results :: "(bytes \<Rightarrow> json option) \<Rightarrow> bytes \<Rightarrow> (test, outcome) state" where
  "get_results ps junk = do {
     fd \<leftarrow> gets ctrl_sck;
     m \<leftarrow> JSON_read ps junk fd;
     (case m of
        Overrun \<Rightarrow> State_Monad.return Crash
      | Got None \<Rightarrow> do { r \<leftarrow> fail IERECVRESULTS; State_Monad.return (Ret r) }
      | Got (Some j) \<Rightarrow> do {
          u \<leftarrow> gets (unpack_results j);
          (case u of None \<Rightarrow> State_Monad.return Crash
           | Some (r, t) \<Rightarrow> do { modify (\<lambda>_. t); State_Monad.return (Ret r) }) }) }"

section \<open>What arrives\<close>

text \<open>
  The reference: stream \<open>sp\<close> after the results of the peer's stream \<open>p\<close> (of test \<open>s\<close>). A sender
  learns what was received, a receiver what was sent.
\<close>

definition merge_peer :: "test \<Rightarrow> stream \<Rightarrow> stream \<Rightarrow> stream" where
  "merge_peer s p sp = (let life = time_since (start_time (result p)) (end_time (result p)) in
     if is_sender sp then
       sp\<lparr>jitter := jitter p, cnt_error := cnt_error p, peer_packet_count := packet_count p,
          result := (result sp)\<lparr>bytes_received := transferred p, receiver_time := life\<rparr>\<rparr>
     else
       sp\<lparr>peer_packet_count := packet_count p,
          result := (result sp)\<lparr>bytes_sent := transferred p, stream_retrans := sent_retransmits s p,
            sender_time := life\<rparr>\<rparr>)"

text \<open>The numbers fit the \<open>double\<close> they travel in.\<close>

definition stream_fits :: "test \<Rightarrow> stream \<Rightarrow> bool" where
  "stream_fits s p \<longleftrightarrow> fits_int (stream_id p) \<and> fits_double (transferred p) \<and> fits_int (sent_retransmits s p)
     \<and> fits_int (cnt_error p) \<and> fits_int (packet_count p)"

lemma lower_results:
  "lower ''id'' = ''id''" "lower ''bytes'' = ''bytes''" "lower ''retransmits'' = ''retransmits''"
  "lower ''jitter'' = ''jitter''" "lower ''errors'' = ''errors''" "lower ''packets'' = ''packets''"
  "lower ''start_time'' = ''start_time''" "lower ''end_time'' = ''end_time''"
  "lower ''cpu_util_total'' = ''cpu_util_total''" "lower ''cpu_util_user'' = ''cpu_util_user''"
  "lower ''cpu_util_system'' = ''cpu_util_system''" "lower ''sender_has_retransmits'' = ''sender_has_retransmits''"
  "lower ''congestion_used'' = ''congestion_used''" "lower ''streams'' = ''streams''"
  "lower ''server_output_text'' = ''server_output_text''" "lower ''server_output_json'' = ''server_output_json''"
  by (simp_all add: lower_def tolower_def Let_def char_of_def bit_0)

lemma get_output [simp]:
  "get_member k (output_members t @ ms) =
     (if test_role t = CHR ''s'' \<and> get_server_output t then
        (if json_output t then
           (if case_insensitive_eq k ''server_output_json'' \<and> json_top t \<noteq> None then json_top t else get_member k ms)
         else if case_insensitive_eq k ''server_output_text'' then Some (JString (concat (server_output_list t)))
         else get_member k ms)
      else get_member k ms)"
  by (simp add: output_members_def split: option.split)

lemma stream_lookup:
  "get_member ''id'' (stream_members t sp) = Some (json_int (stream_id sp))"
  "get_member ''bytes'' (stream_members t sp) = Some (json_u64 (transferred sp))"
  "get_member ''retransmits'' (stream_members t sp) = Some (json_int (sent_retransmits t sp))"
  "get_member ''jitter'' (stream_members t sp) = Some (JNumber (jitter sp))"
  "get_member ''errors'' (stream_members t sp) = Some (json_int (cnt_error sp))"
  "get_member ''packets'' (stream_members t sp) = Some (json_int (packet_count sp))"
  "get_member ''start_time'' (stream_members t sp) =
     Some (JNumber (time_since (start_time (result sp)) (start_time (result sp))))"
  "get_member ''end_time'' (stream_members t sp) =
     Some (JNumber (time_since (start_time (result sp)) (end_time (result sp))))"
  by (simp_all add: stream_members_def case_insensitive_eq_def lower_results)

lemma results_lookup:
  "get_member ''cpu_util_total'' (results_members t) = Some (JNumber (cpu_util t ! 0))"
  "get_member ''cpu_util_user'' (results_members t) = Some (JNumber (cpu_util t ! 1))"
  "get_member ''cpu_util_system'' (results_members t) = Some (JNumber (cpu_util t ! 2))"
  "get_member ''sender_has_retransmits'' (results_members t) =
     Some (json_int (if mode t = RECEIVER then -1 else sender_has_retransmits t))"
  "get_member ''congestion_used'' (results_members t) = map_option JString (congestion_used t)"
  "get_member ''streams'' (results_members t) =
     Some (JArray (map (\<lambda>sp. JObject (stream_members t sp)) (streams t)))"
  "get_member ''server_output_text'' (results_members t) =
     (if test_role t = CHR ''s'' \<and> get_server_output t \<and> \<not> json_output t
      then Some (JString (concat (server_output_list t))) else None)"
  "get_member ''server_output_json'' (results_members t) =
     (if test_role t = CHR ''s'' \<and> get_server_output t \<and> json_output t then json_top t else None)"
  by (cases "congestion_used t";
      simp add: results_members_def get_member_parts case_insensitive_eq_def lower_results split: option.split)+

lemma time_since_self: "time_since a a = 0"
  by (cases a) (simp add: time_since_def iperf_time_diff_def iperf_time_compare_def iperf_time_in_secs_def)

lemma stream_time_packed:
  "stream_time (JObject (stream_members s p)) = time_since (start_time (result p)) (end_time (result p))"
  by (simp add: stream_time_def stream_lookup time_since_self) (simp add: time_since_def iperf_time_in_secs_def is_double_f64 [unfolded is_double_def])

lemma stream_step:
  assumes "stream_fits s p"
  shows "get_stream_results (JObject (stream_members s p)) (r, t) =
    (case update_first (\<lambda>sp. stream_id sp = stream_id p) (merge_peer s p) (streams t) of
       None \<Rightarrow> (-1, t\<lparr>i_errno := IESTREAMID\<rparr>) | Some sps \<Rightarrow> (r, t\<lparr>streams := sps\<rparr>))"
proof -
  have f: "to_int (valueint (json_int (stream_id p))) = stream_id p"
    "(word_of_int (valueint (json_u64 (transferred p))) :: u64) = transferred p"
    "to_int (valueint (json_int (sent_retransmits s p))) = sent_retransmits s p"
    "to_int (valueint (json_int (cnt_error p))) = cnt_error p"
    "to_int (valueint (json_int (packet_count p))) = packet_count p"
    using assms by (simp_all add: stream_fits_def)
  have "apply_results (JObject (stream_members s p)) (transferred p) (sent_retransmits s p) (jitter p)
      (cnt_error p) (packet_count p) = merge_peer s p"
    by (rule ext) (simp add: apply_results_def merge_peer_def stream_time_packed Let_def)
  then show ?thesis by (simp add: get_stream_results_def stream_lookup f)
qed

lemma merge_peer_id [simp]: "stream_id (merge_peer s p sp) = stream_id sp"
  by (simp add: merge_peer_def Let_def)

lemma update_first_at:
  "(\<forall>y \<in> set ys. \<not> P y) \<Longrightarrow> P x \<Longrightarrow> update_first P f (ys @ x # xs) = Some (ys @ f x # xs)"
  by (induction ys) auto

lemma streams_merge:
  assumes "\<forall>p \<in> set ps. stream_fits s p" "distinct (map stream_id (ys @ xs))"
    "map stream_id xs = map stream_id ps" "streams t = ys @ xs"
  shows "fold get_stream_results (map (\<lambda>p. JObject (stream_members s p)) ps) (r, t) =
    (r, t\<lparr>streams := ys @ map2 (merge_peer s) ps xs\<rparr>)"
  using assms
proof (induction ps arbitrary: ys xs t)
  case Nil
  then show ?case by simp
next
  case (Cons p ps)
  then obtain x xs' where xs: "xs = x # xs'" "stream_id x = stream_id p" "map stream_id xs' = map stream_id ps"
    by (cases xs) auto
  have "\<forall>y \<in> set ys. stream_id y \<noteq> stream_id p"
    using Cons.prems(2) xs(1,2) by (auto simp: rev_image_eqI)
  then have step: "get_stream_results (JObject (stream_members s p)) (r, t) =
      (r, t\<lparr>streams := ys @ merge_peer s p x # xs'\<rparr>)"
    using stream_step [of s p r t] Cons.prems(1,4) xs(1,2)
      update_first_at [of ys "\<lambda>sp. stream_id sp = stream_id p" x "merge_peer s p" xs'] by simp
  have "fold get_stream_results (map (\<lambda>p. JObject (stream_members s p)) ps)
      (r, t\<lparr>streams := ys @ merge_peer s p x # xs'\<rparr>) =
    (r, t\<lparr>streams := ys @ merge_peer s p x # xs'\<rparr>\<lparr>streams := (ys @ [merge_peer s p x]) @ map2 (merge_peer s) ps xs'\<rparr>)"
    using Cons.prems(1,2) xs(1,3) by (intro Cons.IH) auto
  then show ?case using step xs(1) by simp
qed

text \<open>
  What the peer gets: every stream merged with its counterpart, the processor load, the
  congestion algorithm, whether retransmissions were counted, the server's output.
\<close>

definition peer_retransmits :: "test \<Rightarrow> int" where
  "peer_retransmits s = (if mode s = RECEIVER then -1 else sender_has_retransmits s)"

definition results_merged :: "test \<Rightarrow> test \<Rightarrow> test \<Rightarrow> bool" where
  "results_merged s c c' \<longleftrightarrow>
     streams c' = map2 (merge_peer s) (streams s) (streams c)
     \<and> remote_cpu_util c' = cpu_util s
     \<and> remote_congestion_used c' = (if congestion_used s = None then remote_congestion_used c else congestion_used s)
     \<and> sender_has_retransmits c' = (if mode c = RECEIVER then peer_retransmits s else sender_has_retransmits c)
     \<and> other_side_has_retransmits c' = (case mode c of RECEIVER \<Rightarrow> 0 | BIDIRECTIONAL \<Rightarrow> peer_retransmits s
          | SENDER \<Rightarrow> other_side_has_retransmits c)
     \<and> (test_role s = CHR ''s'' \<and> get_server_output s \<and> \<not> json_output s
          \<and> test_role c = CHR ''c'' \<and> get_server_output c
        \<longrightarrow> server_output_text c' = Some (concat (server_output_list s)))"

text \<open>The two ends number their streams alike.\<close>

definition same_streams :: "test \<Rightarrow> test \<Rightarrow> bool" where
  "same_streams s c \<longleftrightarrow> map stream_id (streams c) = map stream_id (streams s) \<and> distinct (map stream_id (streams c))"

definition results_fit :: "test \<Rightarrow> bool" where
  "results_fit s \<longleftrightarrow> (\<forall>p \<in> set (streams s). stream_fits s p) \<and> fits_int (peer_retransmits s) \<and> length (cpu_util s) = 3"

lemma get_retransmits_keeps [simp]:
  "streams (get_retransmits v t) = streams t" "remote_cpu_util (get_retransmits v t) = remote_cpu_util t"
  "test_role (get_retransmits v t) = test_role t" "get_server_output (get_retransmits v t) = get_server_output t"
  "remote_congestion_used (get_retransmits v t) = remote_congestion_used t"
  "sender_has_retransmits (get_retransmits v t) =
     (if mode t = RECEIVER then to_int (valueint v) else sender_has_retransmits t)"
  "other_side_has_retransmits (get_retransmits v t) = (case mode t of RECEIVER \<Rightarrow> 0
     | BIDIRECTIONAL \<Rightarrow> to_int (valueint v) | SENDER \<Rightarrow> other_side_has_retransmits t)"
  by (simp_all add: get_retransmits_def Let_def split: test_mode.split)

lemma three_items: "length xs = 3 \<Longrightarrow> [xs ! 0, xs ! 1, xs ! 2] = xs"
  by (cases xs; cases "tl xs"; cases "tl (tl xs)") (auto simp: nth_Cons')

lemma get_server_text_asked:
  assumes "test_role t = CHR ''c'' \<and> get_server_output t"
  shows "get_server_text j t =
    (case cJSON_DetachItemFromObject j ''server_output_json'' of
       (Some item, rest) \<Rightarrow> Some (t\<lparr>json_server_output := Some item\<rparr>)
     | (None, rest) \<Rightarrow> when_string j ''server_output_text'' (\<lambda>s t. t\<lparr>server_output_text := Some s\<rparr>) t)"
  unfolding get_server_text_def by (rule if_P [OF assms])

lemma get_server_text_lookup:
  assumes "test_role t = CHR ''c''" "get_server_output t"
  shows "get_server_text (JObject ms) t =
    (case get_member ''server_output_json'' ms of
       Some item \<Rightarrow> Some (t\<lparr>json_server_output := Some item\<rparr>)
     | None \<Rightarrow> (case get_member ''server_output_text'' ms of None \<Rightarrow> Some t
         | Some v \<Rightarrow> (case valuestring v of None \<Rightarrow> None | Some x \<Rightarrow> Some (t\<lparr>server_output_text := Some x\<rparr>))))"
  unfolding get_server_text_asked [OF conjI [OF assms]] cJSON_DetachItemFromObject_def when_string_def
    cJSON_GetObjectItem.simps prod.case by (rule refl)

lemma server_text_arrives:
  assumes "test_role t = CHR ''c''" "get_server_output t"
  shows "get_server_text (JObject (results_members s)) t = Some
    (if test_role s = CHR ''s'' \<and> get_server_output s then
       (if json_output s then (case json_top s of None \<Rightarrow> t | Some j \<Rightarrow> t\<lparr>json_server_output := Some j\<rparr>)
        else t\<lparr>server_output_text := Some (concat (server_output_list s))\<rparr>)
     else t)"
proof -
  let ?S = "test_role s = CHR ''s'' \<and> get_server_output s"
  have S: "(test_role s = CHR ''s'' \<and> get_server_output s \<and> Q) = (?S \<and> Q)" for Q by blast
  show ?thesis
    unfolding get_server_text_lookup [OF assms] results_lookup S
    by (cases ?S; cases "json_output s"; cases "json_top s";
        simp only: simp_thms if_True if_False option.case valuestring.simps)
qed

lemma server_text_told:
  "\<exists>a b. get_server_text (JObject (results_members s)) t = Some (t\<lparr>json_server_output := a, server_output_text := b\<rparr>)
    \<and> (test_role s = CHR ''s'' \<and> get_server_output s \<and> \<not> json_output s \<and> test_role t = CHR ''c'' \<and> get_server_output t
       \<longrightarrow> b = Some (concat (server_output_list s)))"
proof -
  let ?g = "get_server_text (JObject (results_members s)) t"
  let ?u = "\<lambda>a b. Some (t\<lparr>json_server_output := a, server_output_text := b\<rparr>)"
  have same: "Some t = ?u (json_server_output t) (server_output_text t)" by simp
  consider "\<not> (test_role t = CHR ''c'' \<and> get_server_output t)"
    | "test_role t = CHR ''c''" "get_server_output t" "\<not> (test_role s = CHR ''s'' \<and> get_server_output s)"
    | "test_role t = CHR ''c''" "get_server_output t" "test_role s = CHR ''s''" "get_server_output s" "json_output s"
    | "test_role t = CHR ''c''" "get_server_output t" "test_role s = CHR ''s''" "get_server_output s" "\<not> json_output s"
    by blast
  then show ?thesis
  proof cases
    case 1
    then have "?g = Some t" unfolding get_server_text_def by (rule if_not_P)
    then have "?g = ?u (json_server_output t) (server_output_text t)" unfolding same .
    with 1 show ?thesis by blast
  next
    case 2
    then have "?g = Some t" using server_text_arrives [of t s] by (simp only: if_False)
    then have "?g = ?u (json_server_output t) (server_output_text t)" unfolding same .
    with 2 show ?thesis by blast
  next
    case 3
    have "?g = (case json_top s of None \<Rightarrow> Some t | Some j \<Rightarrow> Some (t\<lparr>json_server_output := Some j\<rparr>))"
      using server_text_arrives [OF 3(1,2), of s] 3(3-5) by (cases "json_top s") (simp_all only: simp_thms if_True option.case)
    then have "?g = ?u (json_server_output t) (server_output_text t) \<or> (\<exists>j. ?g = ?u (Some j) (server_output_text t))"
      by (cases "json_top s") (simp, intro disjI2 exI, simp)
    with 3 show ?thesis by blast
  next
    case 4
    have "?g = ?u (json_server_output t) (Some (concat (server_output_list s)))"
      using server_text_arrives [OF 4(1,2), of s] 4(3-5) by (simp only: simp_thms if_True if_False) simp
    then show ?thesis by blast
  qed
qed

lemma unpack_packed_results:
  assumes "results_fit s" "same_streams s c"
  shows "\<exists>c'. unpack_results (JObject (results_members s)) c = Some (0, c') \<and> results_merged s c c'"
proof -
  let ?j = "JObject (results_members s)"
  have fit: "\<forall>p \<in> set (streams s). stream_fits s p" "fits_int (peer_retransmits s)" "length (cpu_util s) = 3"
    using assms(1) by (simp_all add: results_fit_def)
  define c1 where "c1 = get_retransmits (json_int (peer_retransmits s)) (c\<lparr>remote_cpu_util := cpu_util s\<rparr>)"
  define c2 where "c2 = c1\<lparr>streams := map2 (merge_peer s) (streams s) (streams c)\<rparr>"
  have merge: "fold get_stream_results (map (\<lambda>p. JObject (stream_members s p)) (streams s)) (0, c1) = (0, c2)"
  proof -
    have "distinct (map stream_id ([] @ streams c))" "map stream_id (streams c) = map stream_id (streams s)"
      using assms(2) by (auto simp: same_streams_def)
    then have "fold get_stream_results (map (\<lambda>p. JObject (stream_members s p)) (streams s)) (0, c1) =
        (0, c1\<lparr>streams := [] @ map2 (merge_peer s) (streams s) (streams c)\<rparr>)"
      by (rule streams_merge [OF fit(1)]) (simp add: c1_def)
    then show ?thesis by (simp add: c2_def)
  qed
  obtain a b where ab: "get_server_text ?j c2 = Some (c2\<lparr>json_server_output := a, server_output_text := b\<rparr>)"
    "test_role s = CHR ''s'' \<and> get_server_output s \<and> \<not> json_output s \<and> test_role c = CHR ''c'' \<and> get_server_output c
       \<longrightarrow> b = Some (concat (server_output_list s))"
    using server_text_told [of s c2] by (auto simp: c2_def c1_def)
  define c3 where "c3 = c2\<lparr>json_server_output := a, server_output_text := b\<rparr>"
  define c4 where "c4 = (if congestion_used s = None then c3 else c3\<lparr>remote_congestion_used := congestion_used s\<rparr>)"
  have "unpack_results ?j c = Some (0, c4)"
    unfolding unpack_results_def
    by (cases "congestion_used s")
      (simp_all add: results_lookup three_items [OF fit(3), simplified] Let_def peer_retransmits_def [symmetric]
        c1_def [symmetric] merge ab(1) c3_def [symmetric] when_string_def c4_def)
  moreover have "results_merged s c c4"
    using ab(2) fit(2) by (auto simp: results_merged_def c4_def c3_def c2_def c1_def split: test_mode.split)
  ultimately show ?thesis by blast
qed

lemma results_arrive:
  fixes c :: test
  assumes "results_fit s" "same_streams s c"
    and str: "pr (JObject (results_members s)) = Some str" "ps str = Some (JObject (results_members s))"
      "0 \<notin> set str" "length str < 4294967295"
    and hdr: "Nread (ctrl_sck c) 4 c = (4, be 4 (length str), c1)"
    and body: "Nread (ctrl_sck c) (length str) c1 = (int (length str), str, c2)"
  shows "wp (get_results ps junk) (\<lambda>r c'. r = Ret 0 \<and> results_merged s c c') c"
proof -
  have read: "run_state (JSON_read ps junk (ctrl_sck c)) c = (Got (Some (JObject (results_members s))), c2)"
    using JSON_read_frame [OF hdr body _ str(3,4), of ps junk] str(2) by simp
  have "os.more c2 = os.more c" using Nread_data [OF hdr] Nread_data [OF body] by simp
  then have same: "streams c2 = streams c" "remote_congestion_used c2 = remote_congestion_used c"
    "mode c2 = mode c" "sender_has_retransmits c2 = sender_has_retransmits c"
    "other_side_has_retransmits c2 = other_side_has_retransmits c" "test_role c2 = test_role c"
    "get_server_output c2 = get_server_output c"
    by (cases c; cases c2; simp)+
  from unpack_packed_results [OF assms(1), of c2] assms(2) obtain c' where c':
    "unpack_results (JObject (results_members s)) c2 = Some (0, c')" "results_merged s c2 c'"
    by (auto simp: same_streams_def same)
  have "results_merged s c c'" using c'(2) unfolding results_merged_def same .
  then show ?thesis
    unfolding get_results_def
    by (simp add: wp_simps wp_iff_run [of "JSON_read ps junk (ctrl_sck c)"] read c'(1))
qed

section \<open>What is refused\<close>

text \<open>
  \<open>get_results\<close> is content exactly with an object that has the five members of a report, each
  stream of it with its six, and with the id of a stream of the test.
\<close>

definition has_members :: "json \<Rightarrow> string list \<Rightarrow> bool" where
  "has_members j ks \<longleftrightarrow> (\<forall>k \<in> set ks. cJSON_GetObjectItem j k \<noteq> None)"

definition known_stream :: "int set \<Rightarrow> json \<Rightarrow> bool" where
  "known_stream ids j \<longleftrightarrow> has_members j [''id'', ''bytes'', ''retransmits'', ''jitter'', ''errors'', ''packets'']
     \<and> to_int (valueint (the (cJSON_GetObjectItem j ''id''))) \<in> ids"

definition valid_results :: "int set \<Rightarrow> json \<Rightarrow> bool" where
  "valid_results ids j \<longleftrightarrow> has_members j [''cpu_util_total'', ''cpu_util_user'', ''cpu_util_system'',
       ''sender_has_retransmits'', ''streams'']
     \<and> (\<forall>x \<in> set (elements (the (cJSON_GetObjectItem j ''streams''))). known_stream ids x)"

lemma update_first_none: "update_first P f xs = None \<longleftrightarrow> (\<forall>x \<in> set xs. \<not> P x)"
  by (induction xs) auto

lemma update_first_ids:
  "(\<And>x. stream_id (f x) = stream_id x) \<Longrightarrow> update_first P f xs = Some ys \<Longrightarrow> map stream_id ys = map stream_id xs"
  by (induction xs arbitrary: ys) (auto split: if_splits)

lemma apply_results_id: "stream_id (apply_results j b k q c n sp) = stream_id sp"
  by (simp add: apply_results_def)

lemma get_stream_results_valid:
  assumes "get_stream_results j (r, t) = (r', t')"
  shows "stream_id ` set (streams t') = stream_id ` set (streams t)" (is ?T1)
    "r' = (if known_stream (stream_id ` set (streams t)) j then r else -1)" (is ?T2)
proof -
  let ?g = "cJSON_GetObjectItem j"
  have "?T1 \<and> ?T2" if "has_members j [''id'', ''bytes'', ''retransmits'', ''jitter'', ''errors'', ''packets'']"
  proof -
    from that obtain a b c d e f where g: "?g ''id'' = Some a" "?g ''bytes'' = Some b" "?g ''retransmits'' = Some c"
      "?g ''jitter'' = Some d" "?g ''errors'' = Some e" "?g ''packets'' = Some f"
      by (auto simp: has_members_def)
    let ?P = "\<lambda>sp. stream_id sp = to_int (valueint a)"
    let ?f = "apply_results j (word_of_int (valueint b)) (to_int (valueint c)) (valuedouble d)
      (to_int (valueint e)) (to_int (valueint f))"
    have run: "get_stream_results j (r, t) = (case update_first ?P ?f (streams t) of
        None \<Rightarrow> (-1, t\<lparr>i_errno := IESTREAMID\<rparr>) | Some sps \<Rightarrow> (r, t\<lparr>streams := sps\<rparr>))"
      by (simp add: get_stream_results_def g)
    show ?thesis
    proof (cases "update_first ?P ?f (streams t)")
      case None
      then have "to_int (valueint a) \<notin> stream_id ` set (streams t)" by (auto simp: update_first_none)
      then show ?thesis using run None assms that by (auto simp: known_stream_def g)
    next
      case (Some ys)
      then have "stream_id ` set ys = stream_id ` set (streams t)"
        using update_first_ids [of ?f ?P "streams t" ys] apply_results_id by (metis set_map)
      moreover have "to_int (valueint a) \<in> stream_id ` set (streams t)"
        using Some update_first_none [of ?P ?f "streams t"] by (auto simp: rev_image_eqI)
      ultimately show ?thesis using run Some assms that by (auto simp: known_stream_def g)
    qed
  qed
  moreover have "?T1 \<and> ?T2" if "\<not> has_members j [''id'', ''bytes'', ''retransmits'', ''jitter'', ''errors'', ''packets'']"
    using assms that by (auto simp: get_stream_results_def known_stream_def has_members_def split: option.splits)
  ultimately show ?T1 ?T2 by blast+
qed

lemma streams_valid:
  "fold get_stream_results js (r, t) = (r', t') \<Longrightarrow>
    r' = (if \<forall>j \<in> set js. known_stream (stream_id ` set (streams t)) j then r else -1)"
proof (induction js arbitrary: r t)
  case (Cons j js)
  obtain r1 t1 where s: "get_stream_results j (r, t) = (r1, t1)" by (cases "get_stream_results j (r, t)")
  have "fold get_stream_results js (r1, t1) = (r', t')" using Cons.prems s by simp
  from Cons.IH [OF this] get_stream_results_valid [OF s] show ?case by auto
qed simp

lemma unpack_results_valid:
  assumes "unpack_results j c = Some (r, c')"
  shows "r = (if valid_results (stream_id ` set (streams c)) j then 0 else -1)"
proof -
  let ?g = "cJSON_GetObjectItem j"
  show ?thesis
  proof (cases "has_members j [''cpu_util_total'', ''cpu_util_user'', ''cpu_util_system'', ''sender_has_retransmits'']")
    case True
    then obtain a b d e where g: "?g ''cpu_util_total'' = Some a" "?g ''cpu_util_user'' = Some b"
      "?g ''cpu_util_system'' = Some d" "?g ''sender_has_retransmits'' = Some e" by (auto simp: has_members_def)
    define t1 where "t1 = get_retransmits e (c\<lparr>remote_cpu_util := [valuedouble a, valuedouble b, valuedouble d]\<rparr>)"
    show ?thesis
    proof (cases "?g ''streams''")
      case None
      then show ?thesis using assms g
        by (auto simp: unpack_results_def Let_def valid_results_def has_members_def)
    next
      case (Some js)
      obtain r2 t2 where f: "fold get_stream_results (elements js) (0, t1) = (r2, t2)"
        by (cases "fold get_stream_results (elements js) (0, t1)")
      have "r = r2" using assms g Some f
        by (auto simp: unpack_results_def Let_def t1_def bind_eq_Some_conv)
      then show ?thesis
        using streams_valid [OF f] g Some by (simp add: valid_results_def has_members_def t1_def)
    qed
  next
    case False
    then show ?thesis
      using assms by (auto simp: unpack_results_def Let_def valid_results_def has_members_def split: option.splits)
  qed
qed

text \<open>
  When no result comes back: a text that is copied is a member, but not a string, and \<open>strdup\<close> gets a null
  pointer. The server's text is looked for only behind the five members, by a client that asked for it.
\<close>

definition unreadable :: "json \<Rightarrow> string \<Rightarrow> bool" where
  "unreadable j k \<longleftrightarrow> (case cJSON_GetObjectItem j k of None \<Rightarrow> False | Some v \<Rightarrow> valuestring v = None)"

definition null_text :: "test \<Rightarrow> json \<Rightarrow> bool" where
  "null_text c j \<longleftrightarrow> unreadable j ''congestion_used''
     \<or> has_members j [''cpu_util_total'', ''cpu_util_user'', ''cpu_util_system'', ''sender_has_retransmits'', ''streams'']
       \<and> test_role c = CHR ''c'' \<and> get_server_output c
       \<and> cJSON_GetObjectItem j ''server_output_json'' = None \<and> unreadable j ''server_output_text''"

lemma stream_results_asked:
  "fold get_stream_results js (r, t) = (r', t') \<Longrightarrow>
    test_role t' = test_role t \<and> get_server_output t' = get_server_output t"
proof (induction js arbitrary: r t)
  case (Cons j js)
  obtain r1 t1 where s: "get_stream_results j (r, t) = (r1, t1)" by (cases "get_stream_results j (r, t)")
  then have "test_role t1 = test_role t \<and> get_server_output t1 = get_server_output t"
    by (auto simp: get_stream_results_def split: option.splits)
  moreover have "fold get_stream_results js (r1, t1) = (r', t')" using Cons.prems s by simp
  ultimately show ?case using Cons.IH by simp
qed simp

lemma when_string_none: "when_string j k f t = None \<longleftrightarrow> unreadable j k"
  by (simp add: when_string_def unreadable_def split: option.split)

lemma server_text_none: "get_server_text j t = None \<longleftrightarrow> test_role t = CHR ''c'' \<and> get_server_output t
    \<and> cJSON_GetObjectItem j ''server_output_json'' = None \<and> unreadable j ''server_output_text''"
  by (auto simp: get_server_text_def cJSON_DetachItemFromObject_def when_string_none split: option.split)

lemma bind_none: "Option.bind m (\<lambda>(r, t). map_option (Pair r) (when_string j k f t)) = None \<longleftrightarrow> m = None \<or> unreadable j k"
  by (cases m) (auto simp: when_string_none)

lemma unpack_results_none: "unpack_results j c = None \<longleftrightarrow> null_text c j"
proof (cases "has_members j [''cpu_util_total'', ''cpu_util_user'', ''cpu_util_system'', ''sender_has_retransmits'', ''streams'']")
  case True
  let ?g = "cJSON_GetObjectItem j"
  from True obtain a b d e js where g: "?g ''cpu_util_total'' = Some a" "?g ''cpu_util_user'' = Some b"
    "?g ''cpu_util_system'' = Some d" "?g ''sender_has_retransmits'' = Some e" "?g ''streams'' = Some js"
    by (auto simp: has_members_def)
  define t1 where "t1 = get_retransmits e (c\<lparr>remote_cpu_util := [valuedouble a, valuedouble b, valuedouble d]\<rparr>)"
  obtain r2 t2 where f: "fold get_stream_results (elements js) (0, t1) = (r2, t2)"
    by (cases "fold get_stream_results (elements js) (0, t1)")
  have "test_role t2 = test_role c" "get_server_output t2 = get_server_output c"
    using stream_results_asked [OF f] by (simp_all add: t1_def get_retransmits_def Let_def)
  then show ?thesis
    using True unfolding unpack_results_def Let_def bind_none
    by (auto simp: g f [unfolded t1_def] server_text_none null_text_def)
next
  case False
  then show ?thesis unfolding unpack_results_def Let_def bind_none
    by (auto simp: null_text_def has_members_def split: option.split)
qed

lemma unpack_results_ends:
  "map_option fst (unpack_results j c) =
    (if null_text c j then None else Some (if valid_results (stream_id ` set (streams c)) j then 0 else -1))"
  using unpack_results_none [of j c] unpack_results_valid [of j c] by (cases "unpack_results j c") auto

end
