(* ===== verification/Streams.thy ===== *)
theory Streams
  imports Traffic
begin

text \<open>
  Making a stream: \<open>iperf_new_stream\<close> and \<open>iperf_init_stream\<close> of \<open>iperf/src/iperf_api.c\<close>, and
  the helpers of \<open>iperf_util.c\<close> they use: the payload pattern, random bytes, the cookie of a
  test, the test for a closed descriptor.
\<close>

section \<open>Payload, cookie\<close>

text \<open>\<open>pattern n counter\<close>: the loop of \<open>fill_with_repeating_pattern\<close> with \<open>n\<close> bytes to go.\<close>

primrec pattern :: "nat \<Rightarrow> nat \<Rightarrow> bytes" where
  "pattern 0 counter = []"
| "pattern (Suc n) counter = of_nat (48 + counter) # pattern n (if counter \<ge> 9 then 0 else counter + 1)"

definition fill_with_repeating_pattern :: "bytes \<Rightarrow> nat \<Rightarrow> bytes" where
  "fill_with_repeating_pattern out outsize = pattern outsize 0 @ drop outsize out"

text \<open>
  \<open>readentropy\<close> delivers as many bytes as asked for: a short read ends the program.
\<close>

definition readentropy :: "nat \<Rightarrow> (test, bytes) state" where
  "readentropy n = (if n = 0 then State_Monad.return [] else do {
     r \<leftarrow> call (Entropy n);
     State_Monad.return (take n (rbytes r @ replicate n 0)) })"

definition rndchars :: bytes where
  "rndchars = map of_char ''abcdefghijklmnopqrstuvwxyz234567''"

definition make_cookie :: "(test, unit) state" where
  "make_cookie = do {
     out \<leftarrow> readentropy COOKIE_SIZE;
     modify (\<lambda>t. t\<lparr>cookie := map (\<lambda>b. rndchars ! (unat b mod 32)) (take (COOKIE_SIZE - 1) out) @ [0]\<rparr>) }"

definition is_closed :: "int \<Rightarrow> (test, bool) state" where
  "is_closed fd = do {
     r \<leftarrow> call (Select (fd + 1) (Some (0, 0)));
     e \<leftarrow> get_errno;
     State_Monad.return (rv r < 0 \<and> e = EBADF) }"

section \<open>A new stream\<close>

text \<open>Linux's \<open>IP_PMTUDISC_DO\<close>.\<close>

definition IP_PMTUDISC_DO :: int where "IP_PMTUDISC_DO = 2"

definition set_stream_tos :: "stream \<Rightarrow> (test, int) state" where
  "set_stream_tos sp = do {
     opt \<leftarrow> gets (\<lambda>t. tos (settings t));
     if opt \<noteq> 0 then do {
       d \<leftarrow> getsockdomain (stream_socket sp);
       if d = AF_INET6 then do {
         r \<leftarrow> call (Setsockopt (stream_socket sp) IPV6_TCLASS opt);
         if rv r < 0 then fail IESETCOS else State_Monad.return 0 }
       else do {
         r \<leftarrow> call (Setsockopt (stream_socket sp) IP_TOS opt);
         if rv r < 0 then fail IESETTOS else State_Monad.return 0 } }
     else State_Monad.return 0 }"

definition set_stream_df :: "stream \<Rightarrow> (test, int) state" where
  "set_stream_df sp = do {
     p \<leftarrow> gets protocol;
     if p = Pudp then do {
       d \<leftarrow> getsockdomain (stream_socket sp);
       df \<leftarrow> gets (\<lambda>t. dont_fragment (settings t));
       if d = AF_INET \<and> df \<noteq> 0 then do {
         r \<leftarrow> call (Setsockopt (stream_socket sp) IP_MTU_DISCOVER IP_PMTUDISC_DO);
         if rv r < 0 then fail IESETDONTFRAGMENT else State_Monad.return 0 }
       else State_Monad.return 0 }
     else State_Monad.return 0 }"

definition iperf_init_stream :: "stream \<Rightarrow> (test, int) state" where
  "iperf_init_stream sp = do {
     a \<leftarrow> call (Getsockname (stream_socket sp));
     if rv a < 0 then fail IEINITSTREAM else do {
       b \<leftarrow> call (Getpeername (stream_socket sp));
       if rv b < 0 then fail IEINITSTREAM else do {
         c \<leftarrow> set_stream_tos sp;
         if c < 0 then State_Monad.return (-1) else set_stream_df sp } } }"

text \<open>
  \<open>iperf_new_stream\<close>: the new stream, already in the list of the test, or \<open>None\<close> for the null
  pointer. The temporary file is made wherever \<open>mkstemp\<close> puts it; memory does not run out. The
  descriptor of the buffer file is closed only if the last step fails; the other error exits
  forget it, and the last one forgets the descriptor of the disk file.
\<close>

definition open_diskfile :: "bool \<Rightarrow> (test, int option) state" where
  "open_diskfile sender = do {
     name \<leftarrow> gets diskfile_name;
     (case name of
        None \<Rightarrow> State_Monad.return (Some (-1))
      | Some path \<Rightarrow> do {
          f \<leftarrow> call (Open path (\<not> sender));
          if rv f = -1 then do { set_i_errno IEFILE; State_Monad.return None }
          else State_Monad.return (Some (rv f)) }) }"

definition fill_buffer :: "nat \<Rightarrow> (test, bytes) state" where
  "fill_buffer n = do {
     rep \<leftarrow> gets repeating_payload;
     if rep then State_Monad.return (fill_with_repeating_pattern (replicate n 0) n) else readentropy n }"

definition refuse_stream :: "int \<Rightarrow> (test, stream option) state" where
  "refuse_stream code = do { set_i_errno code; State_Monad.return None }"

definition finish_stream :: "int \<Rightarrow> bool \<Rightarrow> int \<Rightarrow> nat \<Rightarrow> (test, stream option) state" where
  "finish_stream s sender buf bsz = do {
     df \<leftarrow> open_diskfile sender;
     (case df of
        None \<Rightarrow> State_Monad.return None
      | Some dfd \<Rightarrow> do {
          bytes \<leftarrow> fill_buffer bsz;
          let sp = (zero_stream s sender)\<lparr>buffer_fd := buf, buffer := bytes, diskfile_fd := dfd\<rparr>;
          r \<leftarrow> iperf_init_stream sp;
          if r < 0 then do { c \<leftarrow> call (Close buf); State_Monad.return None }
          else do {
            modify (iperf_add_stream sp);
            State_Monad.return (Some sp) } }) }"

definition iperf_new_stream :: "int \<Rightarrow> bool \<Rightarrow> (test, stream option) state" where
  "iperf_new_stream s sender = do {
     size \<leftarrow> gets (\<lambda>t. blksize (settings t));
     buf \<leftarrow> call Mkstemp;
     if rv buf = -1 then refuse_stream IECREATESTREAM else do {
       u \<leftarrow> call Unlink;
       if rv u < 0 then refuse_stream IECREATESTREAM else do {
         f \<leftarrow> call (Ftruncate (rv buf) size);
         if rv f < 0 then refuse_stream IECREATESTREAM else do {
           m \<leftarrow> call (Mmap (rv buf) size);
           if rv m < 0 then refuse_stream IECREATESTREAM
           else finish_stream s sender (rv buf) (nat size) } } } }"

text \<open>\<open>connect_msg\<close> only prints, but looks up the address family first.\<close>

definition connect_msg :: "stream \<Rightarrow> (test, unit) state" where
  "connect_msg sp = do { d \<leftarrow> getsockdomain (stream_socket sp); State_Monad.return () }"

section \<open>The pattern and the cookie\<close>

lemma pattern_nth:
  "c < 10 \<Longrightarrow> i < n \<Longrightarrow> pattern n c ! i = of_nat (48 + (c + i) mod 10)"
proof (induction n arbitrary: c i)
  case (Suc n)
  show ?case
  proof (cases i)
    case 0
    then show ?thesis using Suc.prems by simp
  next
    case (Suc j)
    have "((if c \<ge> 9 then 0 else c + 1) + j) mod 10 = (c + i) mod 10"
    proof (cases "c = 9")
      case True
      then show ?thesis using Suc by (simp add: mod_Suc_eq [symmetric] add.commute)
    next
      case False
      then show ?thesis using Suc Suc.prems by simp
    qed
    moreover have "(if c \<ge> 9 then 0 else c + 1) < 10" using Suc.prems by simp
    ultimately show ?thesis
      using Suc.IH [of "if c \<ge> 9 then 0 else c + 1" j] Suc.prems(2) Suc by simp
  qed
qed simp

lemma length_pattern [simp]: "length (pattern n c) = n"
  by (induction n arbitrary: c) simp_all

lemma pattern_filled:
  assumes "length out = n"
  shows "fill_with_repeating_pattern out n = map (\<lambda>i. of_nat (48 + i mod 10)) [0..<n]"
  by (rule nth_equalityI) (use assms in \<open>simp_all add: fill_with_repeating_pattern_def pattern_nth\<close>)

text \<open>A cookie is a C string of 36 letters and digits.\<close>

lemma cookie_shape:
  "wp make_cookie (\<lambda>u t'. length (cookie t') = COOKIE_SIZE \<and> length (c_string (cookie t')) = COOKIE_SIZE - 1
    \<and> set (c_string (cookie t')) \<subseteq> set rndchars) t"
proof -
  have "length rndchars = 32" by (simp add: rndchars_def)
  then have in_chars: "rndchars ! (unat (b :: u8) mod 32) \<in> set rndchars" for b by simp
  have "(0 :: u8) \<notin> set rndchars" by code_simp
  then have nz: "rndchars ! (unat (b :: u8) mod 32) \<noteq> 0" for b using in_chars by metis
  have "c_string (map (\<lambda>b. rndchars ! (unat b mod 32)) (bs :: bytes) @ [0]) = map (\<lambda>b. rndchars ! (unat b mod 32)) bs" for bs
    unfolding c_string_def by (subst takeWhile_append2) (auto simp: nz)
  then have str: "c_string (map (\<lambda>b. rndchars ! (unat b mod 32)) bs @ [0]) = map (\<lambda>b. rndchars ! (unat b mod 32)) bs"
    for bs :: bytes .
  define out where "out = take (COOKIE_SIZE - 1) (take COOKIE_SIZE (rbytes (answer t) @ replicate COOKIE_SIZE 0))"
  have "length out = COOKIE_SIZE - 1" by (simp add: out_def)
  moreover have "wp make_cookie (\<lambda>u t'. cookie t' = map (\<lambda>b. rndchars ! (unat b mod 32)) out @ [0]) t"
    unfolding make_cookie_def readentropy_def out_def by (simp only: wp_simps if_False) (simp add: wp_simps)
  ultimately show ?thesis
    by (elim wp_mono) (auto simp: str in_chars)
qed

end
