(* ===== verification/Callbacks.thy ===== *)
theory Callbacks
  imports Traffic
begin

text \<open>
  What the program hangs on its timers: the callbacks and the functions that create the
  timers, of \<open>iperf/src/iperf_client_api.c\<close>, \<open>iperf_server_api.c\<close> and \<open>iperf_api.c\<close>. The timer
  list is the field \<open>tm\<close> of the test; \<open>malloc\<close> says where the next node would be allocated.
  The reporter callback writes its report (theory \<open>Reports\<close>) and leaves the test alone.
\<close>

section \<open>The callbacks\<close>

definition reset_timer :: "iperf_time \<Rightarrow> nat option \<Rightarrow> test \<Rightarrow> test option" where
  "reset_timer now p t = (case p of None \<Rightarrow> Some t
     | Some q \<Rightarrow> (case tmr_reset (tm t) now (Some now) q of None \<Rightarrow> None | Some st \<Rightarrow> Some (t\<lparr>tm := st\<rparr>)))"

definition omit_timer_proc :: "iperf_time \<Rightarrow> test \<Rightarrow> test option" where
  "omit_timer_proc now t =
     (let t1 = snd (run_state iperf_reset_stats (t\<lparr>omit_timer := None, omitting := False\<rparr>))
      in case reset_timer now (stats_timer t1) t1 of None \<Rightarrow> None
         | Some t2 \<Rightarrow> reset_timer now (reporter_timer t2) t2)"

definition test_timer_proc :: "test \<Rightarrow> test" where
  "test_timer_proc t = t\<lparr>test_timer := None, test_done := True\<rparr>"

definition stats_timer_proc :: "u64 \<Rightarrow> test \<Rightarrow> test option" where
  "stats_timer_proc ub t = (if test_done t then Some t
     else (case run_state (iperf_stats_callback ub) t of (ok, t') \<Rightarrow> if ok then Some t' else None))"

definition server_timer_proc :: "(test, unit) state" where
  "server_timer_proc = do {
     modify (\<lambda>t. t\<lparr>test_timer := None\<rparr>);
     finished \<leftarrow> gets test_done;
     if finished then State_Monad.return () else do {
       modify (\<lambda>t. t\<lparr>test_done := True\<rparr>);
       sps \<leftarrow> gets streams;
       for_each sps (\<lambda>sp. do {
         modify (\<lambda>t. t\<lparr>streams := tl (streams t)\<rparr>);
         c \<leftarrow> call (Close (stream_socket sp));
         iperf_free_stream sp });
       fd \<leftarrow> gets ctrl_sck;
       c \<leftarrow> call (Close fd);
       State_Monad.return () } }"

definition send_timer_proc :: "u64 \<Rightarrow> iperf_time \<Rightarrow> int \<Rightarrow> test \<Rightarrow> test" where
  "send_timer_proc ub now i t = iperf_check_throttle ub now (nat i) t"

text \<open>
  The call through the function pointer of a timer. \<open>None\<close>: the callback dereferences a stream
  that was freed or writes outside an array; of \<open>run_timers\<close> it also is that \<open>tmr_run\<close> never returns.
\<close>

definition run_callback :: "u64 \<Rightarrow> tproc \<Rightarrow> iperf_time \<Rightarrow> test \<Rightarrow> test option" where
  "run_callback ub proc now t = (case proc of
     Send_Timer i \<Rightarrow> if nat i < length (streams t) then Some (send_timer_proc ub now i t) else None
   | Server_Timer \<Rightarrow> Some (snd (run_state server_timer_proc t))
   | Server_Stats \<Rightarrow> stats_timer_proc ub t
   | Server_Reporter \<Rightarrow> Some t
   | Server_Omit \<Rightarrow> omit_timer_proc now t
   | Test_Timer \<Rightarrow> Some (test_timer_proc t)
   | Client_Stats \<Rightarrow> stats_timer_proc ub t
   | Client_Reporter \<Rightarrow> Some t
   | Client_Omit \<Rightarrow> omit_timer_proc now t)"

definition fire :: "u64 \<Rightarrow> tproc \<Rightarrow> iperf_time \<Rightarrow> tproc tmrs \<Rightarrow> test \<Rightarrow> (tproc tmrs \<times> test) option" where
  "fire ub proc now st w = (case run_callback ub proc now (w\<lparr>tm := st\<rparr>) of
     None \<Rightarrow> None | Some w' \<Rightarrow> Some (tm w', w'))"

text \<open>\<open>tmr_run(&now)\<close> on the timers of the test.\<close>

definition run_timers :: "u64 \<Rightarrow> iperf_time \<Rightarrow> test \<Rightarrow> test option" where
  "run_timers ub now t = (case tmr_run (fire ub) now (Some now) (tm t) t of
     None \<Rightarrow> None | Some (st, w) \<Rightarrow> Some (w\<lparr>tm := st\<rparr>))"

section \<open>Creating the timers\<close>

text \<open>A \<open>double\<close> number of seconds as the \<open>int64_t\<close> number of microseconds.\<close>

definition interval_us :: "rat \<Rightarrow> u64" where
  "interval_us sec = of_int (if f64 (sec * 1000000) < 0 then \<lceil>f64 (sec * 1000000)\<rceil> else \<lfloor>f64 (sec * 1000000)\<rfloor>)"

definition new_timer :: "(tproc tmrs \<Rightarrow> nat option) \<Rightarrow> iperf_time \<Rightarrow> tproc \<Rightarrow> u64 \<Rightarrow> bool \<Rightarrow>
    (test, nat option) state" where
  "new_timer malloc now proc us per = State (\<lambda>t.
     (case tmr_create (tm t) (malloc (tm t)) now (Some now) proc us per of
        None \<Rightarrow> (None, t)
      | Some (st, p) \<Rightarrow> (p, t\<lparr>tm := st\<rparr>)))"

text \<open>\<open>tmr_create\<close>, the pointer stored by \<open>f\<close>, and the test against the null pointer.\<close>

definition hang_timer :: "(tproc tmrs \<Rightarrow> nat option) \<Rightarrow> iperf_time \<Rightarrow> tproc \<Rightarrow> u64 \<Rightarrow> bool \<Rightarrow>
    (nat option \<Rightarrow> test \<Rightarrow> test) \<Rightarrow> (test, bool) state" where
  "hang_timer malloc now proc us per f = do {
     p \<leftarrow> new_timer malloc now proc us per;
     modify (f p);
     State_Monad.return (p \<noteq> None) }"

definition stats_timers :: "(tproc tmrs \<Rightarrow> nat option) \<Rightarrow> iperf_time \<Rightarrow> tproc \<Rightarrow> tproc \<Rightarrow> (test, int) state" where
  "stats_timers malloc now stats_proc reporter_proc = do {
     si \<leftarrow> gets stats_interval;
     ok1 \<leftarrow> (if si \<noteq> 0 then hang_timer malloc now stats_proc (interval_us si) True (\<lambda>p t. t\<lparr>stats_timer := p\<rparr>)
       else State_Monad.return True);
     if \<not> ok1 then fail IEINITTEST else do {
       ri \<leftarrow> gets reporter_interval;
       ok2 \<leftarrow> (if ri \<noteq> 0 then hang_timer malloc now reporter_proc (interval_us ri) True (\<lambda>p t. t\<lparr>reporter_timer := p\<rparr>)
         else State_Monad.return True);
       if \<not> ok2 then fail IEINITTEST else State_Monad.return 0 } }"

definition create_timers :: "(tproc tmrs \<Rightarrow> nat option) \<Rightarrow> tproc \<Rightarrow> int \<Rightarrow> tproc \<Rightarrow> tproc \<Rightarrow> (test, int) state" where
  "create_timers malloc end_proc grace stats_proc reporter_proc = do {
     g \<leftarrow> call Gettime;
     if rv g < 0 then fail IEINITTEST else do {
       modify (\<lambda>t. t\<lparr>test_timer := None, stats_timer := None, reporter_timer := None\<rparr>);
       d \<leftarrow> gets (\<lambda>t. (duration t, duration t + omit t + grace));
       ok \<leftarrow> (if fst d \<noteq> 0 then do {
           modify (\<lambda>t. t\<lparr>test_done := False\<rparr>);
           hang_timer malloc (rtime g) end_proc (word_of_int (snd d * SEC_TO_US)) False
             (\<lambda>p t. t\<lparr>test_timer := p\<rparr>) }
         else State_Monad.return True);
       if \<not> ok then fail IEINITTEST
       else stats_timers malloc (rtime g) stats_proc reporter_proc } }"

definition create_client_timers :: "(tproc tmrs \<Rightarrow> nat option) \<Rightarrow> (test, int) state" where
  "create_client_timers malloc = create_timers malloc Test_Timer 0 Client_Stats Client_Reporter"

text \<open>The server adds a grace period: 10 state transitions of at most 4 seconds each.\<close>

definition create_server_timers :: "(tproc tmrs \<Rightarrow> nat option) \<Rightarrow> (test, int) state" where
  "create_server_timers malloc = create_timers malloc Server_Timer (4 * 10) Server_Stats Server_Reporter"

definition create_omit_timer :: "(tproc tmrs \<Rightarrow> nat option) \<Rightarrow> tproc \<Rightarrow> (test, int) state" where
  "create_omit_timer malloc proc = do {
     om \<leftarrow> gets omit;
     if om = 0 then do {
       modify (\<lambda>t. t\<lparr>omit_timer := None, omitting := False\<rparr>);
       State_Monad.return 0 }
     else do {
       g \<leftarrow> call Gettime;
       if rv g < 0 then fail IEINITTEST else do {
         modify (\<lambda>t. t\<lparr>omitting := True\<rparr>);
         ok \<leftarrow> hang_timer malloc (rtime g) proc (word_of_int (om * SEC_TO_US)) False
           (\<lambda>p t. t\<lparr>omit_timer := p\<rparr>);
         if \<not> ok then fail IEINITTEST else State_Monad.return 0 } } }"

definition create_client_omit_timer :: "(tproc tmrs \<Rightarrow> nat option) \<Rightarrow> (test, int) state" where
  "create_client_omit_timer malloc = create_omit_timer malloc Client_Omit"

definition create_server_omit_timer :: "(tproc tmrs \<Rightarrow> nat option) \<Rightarrow> (test, int) state" where
  "create_server_omit_timer malloc = create_omit_timer malloc Server_Omit"

text \<open>\<open>iperf_create_send_timers\<close>: every stream gets a green light, a paced sender a timer.\<close>

primrec send_timers_from :: "(tproc tmrs \<Rightarrow> nat option) \<Rightarrow> nat list \<Rightarrow> (test, int) state" where
  "send_timers_from malloc [] = State_Monad.return 0"
| "send_timers_from malloc (i # is) = do {
     modify (\<lambda>t. put_stream i ((streams t ! i)\<lparr>green_light := True\<rparr>) t);
     paced \<leftarrow> gets (\<lambda>t. (rate (settings t) \<noteq> 0 \<and> is_sender (streams t ! i), pacing_timer (settings t)));
     if fst paced then do {
       g \<leftarrow> call Gettime;
       ok \<leftarrow> hang_timer malloc (rtime g) (Send_Timer (int i)) (word_of_int (snd paced)) True
         (\<lambda>p t. put_stream i ((streams t ! i)\<lparr>send_timer := p\<rparr>) t);
       if \<not> ok then fail IEINITTEST else send_timers_from malloc is }
     else send_timers_from malloc is }"

definition iperf_create_send_timers :: "(tproc tmrs \<Rightarrow> nat option) \<Rightarrow> (test, int) state" where
  "iperf_create_send_timers malloc = do {
     g \<leftarrow> call Gettime;
     if rv g < 0 then fail IEINITTEST else do {
       n \<leftarrow> gets (\<lambda>t. length (streams t));
       send_timers_from malloc [0..<n] } }"

section \<open>The callbacks meet the contract of the timer list\<close>

text \<open>
  \<open>timers_known A B st a b xs\<close>: the callbacks of the active timers are in \<open>A\<close>, the periodic
  timers are those of the periodic callbacks, each period is between a microsecond and \<open>B\<close>
  microseconds, and the statistics and reporter timers the test remembers are active and
  periodic. The server's grace timer, whose callback frees the streams and their timers,
  must not be due. On a server with a bitrate limit the averaging window must fit its array.
\<close>

definition rate_window_ok :: "test \<Rightarrow> bool" where
  "rate_window_ok t \<longleftrightarrow> (test_role t = CHR ''s'' \<and> bitrate_limit (settings t) \<noteq> 0 \<longrightarrow>
     0 \<le> bitrate_limit_stats_per_interval (settings t)
     \<and> bitrate_limit_stats_per_interval (settings t) \<le> int (length (bitrate_limit_traffic t))
     \<and> bitrate_limit_stats_per_interval (settings t) < 2147483648 \<and> bitrate_limit_traffic t \<noteq> [])"

definition one_shot :: "tproc \<Rightarrow> bool" where
  "one_shot p \<longleftrightarrow> p \<in> {Server_Timer, Test_Timer, Client_Omit, Server_Omit}"

definition remembers :: "tproc tmrs \<Rightarrow> nat list \<Rightarrow> nat option \<Rightarrow> bool" where
  "remembers st xs x \<longleftrightarrow> (\<forall>p. x = Some p \<longrightarrow> p \<in> set xs \<and> periodic (theap st p))"

definition period_ok :: "nat \<Rightarrow> u64 \<Rightarrow> bool" where
  "period_ok B us \<longleftrightarrow> 0 < unat us \<and> unat us \<le> B"

definition timers_known :: "tproc set \<Rightarrow> nat \<Rightarrow> tproc tmrs \<Rightarrow> nat option \<Rightarrow> nat option \<Rightarrow> nat list \<Rightarrow> bool" where
  "timers_known A B st stats rep xs \<longleftrightarrow>
     (\<forall>p \<in> set xs. (periodic (theap st p) \<longleftrightarrow> \<not> one_shot (timer_proc (theap st p)))
        \<and> timer_proc (theap st p) \<in> A \<and> period_ok B (t_usecs (theap st p)))
     \<and> remembers st xs stats \<and> remembers st xs rep"

definition streams_there :: "tproc set \<Rightarrow> nat \<Rightarrow> bool" where
  "streams_there A n \<longleftrightarrow> (\<forall>i. Send_Timer i \<in> A \<longleftrightarrow> 0 \<le> i \<and> i < int n)"

definition callbacks_ok :: "tproc set \<Rightarrow> nat \<Rightarrow> iperf_time \<Rightarrow> tproc tmrs \<Rightarrow> test \<Rightarrow> nat list \<Rightarrow> bool" where
  "callbacks_ok A B now st t xs \<longleftrightarrow> timers_known A B st (stats_timer t) (reporter_timer t) xs
     \<and> (\<forall>p \<in> set xs. timer_proc (theap st p) = Server_Timer \<longrightarrow> now < due st p)
     \<and> streams_there A (length (streams t)) \<and> rate_window_ok t"

text \<open>What a callback other than the grace timer's does to the timers: nothing, or a reset.\<close>

definition same_timers :: "tproc tmrs \<Rightarrow> nat option \<Rightarrow> nat option \<Rightarrow> nat \<Rightarrow> test \<Rightarrow> bool" where
  "same_timers st a b n t \<longleftrightarrow> tm t = st \<and> stats_timer t = a \<and> reporter_timer t = b \<and> length (streams t) = n
     \<and> rate_window_ok t"

lemma rate_window_same:
  assumes "test_role t' = test_role t" "settings t' = settings t"
    "length (bitrate_limit_traffic t') = length (bitrate_limit_traffic t)"
  shows "rate_window_ok t' = rate_window_ok t"
proof -
  have "(bitrate_limit_traffic t' = []) = (bitrate_limit_traffic t = [])" using assms(3) by (metis length_0_conv)
  then show ?thesis using assms by (simp add: rate_window_ok_def)
qed

lemma rate_window_simps [simp]:
  "rate_window_ok (after c r t) = rate_window_ok t"
  "rate_window_ok (t\<lparr>i_errno := e\<rparr>) = rate_window_ok t"
  "rate_window_ok (t\<lparr>tm := x\<rparr>) = rate_window_ok t"
  "rate_window_ok (t\<lparr>omit_timer := y\<rparr>) = rate_window_ok t"
  "rate_window_ok (t\<lparr>test_timer := y\<rparr>) = rate_window_ok t"
  "rate_window_ok (t\<lparr>stats_timer := y\<rparr>) = rate_window_ok t"
  "rate_window_ok (t\<lparr>reporter_timer := y\<rparr>) = rate_window_ok t"
  "rate_window_ok (t\<lparr>omitting := b\<rparr>) = rate_window_ok t"
  "rate_window_ok (t\<lparr>test_done := b\<rparr>) = rate_window_ok t"
  "rate_window_ok (t\<lparr>t_bytes_sent := n\<rparr>) = rate_window_ok t"
  "rate_window_ok (t\<lparr>t_blocks_sent := n\<rparr>) = rate_window_ok t"
  "rate_window_ok (t\<lparr>streams := sps\<rparr>) = rate_window_ok t"
  by (rule rate_window_same; simp add: after_def)+

lemma same_timers_call: "same_timers st a b n t \<Longrightarrow> same_timers st a b n (after c r t)"
  by (simp add: same_timers_def after_def rate_window_ok_def)

lemma same_timers_put: "same_timers st a b n t \<Longrightarrow> same_timers st a b n (put_stream i sp t)"
  by (simp add: same_timers_def put_stream_def rate_window_ok_def)

lemma throttle_timers: "same_timers st a b n t \<Longrightarrow> same_timers st a b n (iperf_check_throttle ub now i t)"
  by (simp add: same_timers_def iperf_check_throttle_def Let_def put_stream_def rate_window_ok_def)

lemma total_rate_keeps:
  assumes "iperf_check_total_rate ub k t = Some t'"
  shows "tm t' = tm t" "stats_timer t' = stats_timer t" "reporter_timer t' = reporter_timer t"
    "streams t' = streams t" "test_role t' = test_role t" "settings t' = settings t"
    "length (bitrate_limit_traffic t') = length (bitrate_limit_traffic t)"
  using assms by (auto simp: iperf_check_total_rate_def Let_def split: if_splits option.splits)

lemma total_rate_timers:
  "iperf_check_total_rate ub k t = Some t' \<Longrightarrow> same_timers st a b n t \<Longrightarrow> same_timers st a b n t'"
  using total_rate_keeps [of ub k t t'] rate_window_same [of t' t] by (simp add: same_timers_def)

lemma total_rate_in_bounds:
  assumes "rate_window_ok t" "test_role t = CHR ''s''"
  shows "iperf_check_total_rate ub k t \<noteq> None"
proof (cases "bitrate_limit (settings t) = 0")
  case True
  then show ?thesis by (simp add: iperf_check_total_rate_def)
next
  case False
  define n where "n = bitrate_limit_stats_per_interval (settings t)"
  have n: "0 \<le> n" "n \<le> int (length (bitrate_limit_traffic t))" "n < 2147483648" "bitrate_limit_traffic t \<noteq> []"
    using assms False by (simp_all add: rate_window_ok_def n_def)
  have u: "unat (word_of_int n :: u64) = nat n"
    using n(1,3) by (simp add: unat_eq_nat_uint uint_word_of_int_u64)
  have "unat i < length (bitrate_limit_traffic t)" if "\<not> word_of_int n \<le> i" for i :: u64
  proof -
    have "unat i < unat (word_of_int n :: u64)" using that by (simp add: word_less_nat_alt word_le_nat_alt)
    then show ?thesis using u n(1,2) by linarith
  qed
  from this [of "bitrate_limit_last_index t + 1"] show ?thesis
    using n(2,4) False
    by (auto simp: iperf_check_total_rate_def Let_def sum_traffic_def n_def [symmetric])
qed

lemma preserves_tcpinfo: "preserves (same_timers st a b n) (save_tcpinfo s)"
  unfolding save_tcpinfo_def by (intro preserves_bind inv_rules preserves_call same_timers_call)

lemma reset_stats_timers: "preserves (same_timers st a b n) iperf_reset_stats"
  unfolding iperf_reset_stats_def
  by (intro preserves_bind preserves_gets inv_rules preserves_call preserves_tcpinfo
      preserves_modify same_timers_call same_timers_put) (simp_all add: same_timers_def)

lemma server_rate_timers:
  assumes "same_timers st a b n t"
  shows "fst (run_state (check_server_rate ub k) t)" "same_timers st a b n (snd (run_state (check_server_rate ub k) t))"
proof -
  have "rate_window_ok t" using assms by (simp add: same_timers_def)
  then obtain t' where "test_role t = CHR ''s'' \<Longrightarrow> iperf_check_total_rate ub k t = Some t'"
    using total_rate_in_bounds [of t ub k] by blast
  then show "fst (run_state (check_server_rate ub k) t)" "same_timers st a b n (snd (run_state (check_server_rate ub k) t))"
    using assms total_rate_timers [of ub k t t'] by (cases "test_role t = CHR ''s''"; simp add: check_server_rate_def)+
qed

lemma stats_callback_timers:
  assumes "same_timers st a b n t"
  shows "wp (iperf_stats_callback ub) (\<lambda>ok t'. ok \<and> same_timers st a b n t') t"
proof -
  have last: "wp (check_server_rate ub k) (\<lambda>ok t'. ok \<and> same_timers st a b n t') t1" if "same_timers st a b n t1" for k t1
    using server_rate_timers [OF that, of ub k] by (simp add: wp_iff_run split: prod.split)
  have "preserves (same_timers st a b n) (for_each [0..<m] (\<lambda>i. do {
       g \<leftarrow> call Gettime;
       sp \<leftarrow> gets (\<lambda>t. streams t ! i);
       tcp \<leftarrow> gets (\<lambda>t. protocol t = Ptcp \<and> has_tcpinfo);
       info \<leftarrow> (if tcp then do { k \<leftarrow> save_tcpinfo (stream_socket sp); State_Monad.return (Some k) }
         else State_Monad.return None);
       modify (\<lambda>t. put_stream i (stats_interval_of t (rtime g) info sp) t) }))" for m
    by (intro preserves_bind preserves_gets inv_rules preserves_call preserves_tcpinfo
      preserves_modify same_timers_call same_timers_put)
  then show ?thesis
    using assms unfolding iperf_stats_callback_def
    by (simp add: wp_simps) (rule wp_mono [of _ "\<lambda>_. same_timers st a b n"], simp add: preserves_def, rule last)
qed

text \<open>
  \<open>retimed now st xs fs x st'\<close>: of the active timers at most \<open>x\<close> was moved, past \<open>now\<close>.
\<close>

definition retimed :: "iperf_time \<Rightarrow> tproc tmrs \<Rightarrow> nat list \<Rightarrow> nat list \<Rightarrow> nat set \<Rightarrow> tproc tmrs \<Rightarrow> nat list \<Rightarrow> bool" where
  "retimed now st xs fs X st' ys \<longleftrightarrow> timers_ok st' ys fs \<and> set ys = set xs \<and> regular now st' ys
     \<and> (\<forall>q. timer_proc (theap st' q) = timer_proc (theap st q) \<and> periodic (theap st' q) = periodic (theap st q)
          \<and> t_usecs (theap st' q) = t_usecs (theap st q))
     \<and> (\<forall>q. due st' q = due st q \<or> q \<in> X \<and> now < due st' q)"

lemma retimed_refl: "timers_ok st xs fs \<Longrightarrow> regular now st xs \<Longrightarrow> retimed now st xs fs X st xs"
  by (simp add: retimed_def)

lemma retimed_trans:
  assumes "retimed now st xs fs X st1 ys" "retimed now st1 ys fs Y st2 zs"
  shows "retimed now st xs fs (X \<union> Y) st2 zs"
proof -
  have "due st2 q = due st q \<or> q \<in> X \<union> Y \<and> now < due st2 q" for q
    using assms unfolding retimed_def by (cases "due st2 q = due st1 q") auto
  then show ?thesis using assms by (simp add: retimed_def)
qed

lemma reset_timer_retimes:
  assumes "timers_ok (tm t) xs fs" "regular now (tm t) xs" "remembers (tm t) xs x" "rate_window_ok t"
  shows "\<exists>t' ys. reset_timer now x t = Some t' \<and> retimed now (tm t) xs fs (set_option x) (tm t') ys
    \<and> stats_timer t' = stats_timer t \<and> reporter_timer t' = reporter_timer t
    \<and> length (streams t') = length (streams t) \<and> rate_window_ok t'"
proof (cases x)
  case None
  then show ?thesis using assms(1,2,4) by (auto simp: reset_timer_def intro: retimed_refl)
next
  case (Some p)
  then have p: "p \<in> set xs" using assms(3) by (simp add: remembers_def)
  let ?d = "iperf_time_add_usecs now (t_usecs (theap (tm t) p))"
  have r: "normal_time now" "0 < unat (t_usecs (theap (tm t) p))"
    "micros now + unat (t_usecs (theap (tm t) p)) < 4294967296000000"
    using assms(2) p by (auto simp: regular_def)
  have d: "normal_time ?d" "micros ?d = micros now + unat (t_usecs (theap (tm t) p))"
    using add_usecs_exact [OF r(1)] r(3) by auto
  then have later: "now < ?d" using r(2) micros_less_iff [OF r(1) d(1)] by simp
  from tmr_reset_ok [OF assms(1) p, of now "Some now"] obtain st' ys where st':
    "tmr_reset (tm t) now (Some now) p = Some st'" "timers_ok st' ys fs" "set ys = set xs"
    "due st' = (due (tm t))(p := ?d)"
    "\<forall>q. timer_proc (theap st' q) = timer_proc (theap (tm t) q) \<and> periodic (theap st' q) = periodic (theap (tm t) q)
      \<and> t_usecs (theap st' q) = t_usecs (theap (tm t) q)"
    by (auto simp: getnow_def)
  have "regular now st' ys" using assms(2) st'(3-5) d(1) by (auto simp: regular_def)
  then have "retimed now (tm t) xs fs {p} st' ys" using st' later by (auto simp: retimed_def)
  then show ?thesis using Some st'(1) assms(4) by (auto simp: reset_timer_def)
qed

lemma omit_timer_retimes:
  assumes "timers_ok (tm t) xs fs" "regular now (tm t) xs"
    "remembers (tm t) xs (stats_timer t)" "remembers (tm t) xs (reporter_timer t)"
    "rate_window_ok t"
  shows "\<exists>t' ys. omit_timer_proc now t = Some t'
    \<and> retimed now (tm t) xs fs (set_option (stats_timer t) \<union> set_option (reporter_timer t)) (tm t') ys
    \<and> stats_timer t' = stats_timer t \<and> reporter_timer t' = reporter_timer t
    \<and> length (streams t') = length (streams t) \<and> rate_window_ok t'"
proof -
  define t1 where "t1 = snd (run_state iperf_reset_stats (t\<lparr>omit_timer := None, omitting := False\<rparr>))"
  have "same_timers (tm t) (stats_timer t) (reporter_timer t) (length (streams t)) t1"
    unfolding t1_def by (rule preservesD [OF reset_stats_timers]) (simp add: same_timers_def assms(5))
  then have t1: "tm t1 = tm t" "stats_timer t1 = stats_timer t" "reporter_timer t1 = reporter_timer t"
    "length (streams t1) = length (streams t)" "rate_window_ok t1"
    by (simp_all add: same_timers_def)
  from reset_timer_retimes [of t1 xs fs now "stats_timer t1"] assms t1 obtain t2 ys where t2:
    "reset_timer now (stats_timer t1) t1 = Some t2"
    "retimed now (tm t) xs fs (set_option (stats_timer t)) (tm t2) ys"
    "stats_timer t2 = stats_timer t" "reporter_timer t2 = reporter_timer t"
    "length (streams t2) = length (streams t)" "rate_window_ok t2" by auto
  have "remembers (tm t2) ys (reporter_timer t2)"
    using t2(2,4) assms(4) by (simp add: remembers_def retimed_def)
  from reset_timer_retimes [of t2 ys fs now "reporter_timer t2", OF _ _ this] t2 obtain t3 zs where t3:
    "reset_timer now (reporter_timer t2) t2 = Some t3"
    "retimed now (tm t2) ys fs (set_option (reporter_timer t)) (tm t3) zs"
    "stats_timer t3 = stats_timer t" "reporter_timer t3 = reporter_timer t"
    "length (streams t3) = length (streams t)" "rate_window_ok t3" by (auto simp: retimed_def)
  have "omit_timer_proc now t = Some t3"
    by (simp add: omit_timer_proc_def t1_def [symmetric] t2(1) t3(1))
  then show ?thesis using retimed_trans [OF t2(2) t3(2)] t3(3-6) by blast
qed

definition moved_by :: "tproc \<Rightarrow> test \<Rightarrow> nat set" where
  "moved_by proc t = (if one_shot proc then set_option (stats_timer t) \<union> set_option (reporter_timer t) else {})"

lemma callback_retimes:
  assumes "timers_ok (tm t) xs fs" "regular now (tm t) xs" "callbacks_ok A B now (tm t) t xs"
    and "proc \<noteq> Server_Timer" "proc \<in> A"
  shows "\<exists>t' ys. run_callback ub proc now t = Some t'
    \<and> retimed now (tm t) xs fs (moved_by proc t) (tm t') ys
    \<and> stats_timer t' = stats_timer t \<and> reporter_timer t' = reporter_timer t
    \<and> length (streams t') = length (streams t) \<and> rate_window_ok t'"
proof -
  have quiet: ?thesis if "run_callback ub proc now t = Some t'"
    "same_timers (tm t) (stats_timer t) (reporter_timer t) (length (streams t)) t'" for t'
    using that retimed_refl [OF assms(1,2)] by (auto simp: same_timers_def)
  have self: "same_timers (tm t) (stats_timer t) (reporter_timer t) (length (streams t)) t"
    using assms(3) by (simp add: same_timers_def callbacks_ok_def)
  have stats: ?thesis if "run_callback ub proc now t = stats_timer_proc ub t"
  proof -
    have "\<exists>t'. stats_timer_proc ub t = Some t'
        \<and> same_timers (tm t) (stats_timer t) (reporter_timer t) (length (streams t)) t'"
      using stats_callback_timers [OF self, of ub] self
      by (auto simp: stats_timer_proc_def wp_iff_run split: prod.split)
    then show ?thesis using that quiet by auto
  qed
  have omit: ?thesis if "run_callback ub proc now t = omit_timer_proc now t" "one_shot proc"
    using omit_timer_retimes [OF assms(1,2)] assms(3) that
    by (simp add: callbacks_ok_def timers_known_def moved_by_def)
  show ?thesis
  proof (cases proc)
    case (Send_Timer i)
    then have "nat i < length (streams t)" using assms(3,5) by (auto simp: callbacks_ok_def streams_there_def)
    with Send_Timer show ?thesis
      by (intro quiet [of "send_timer_proc ub now i t"])
        (simp_all add: run_callback_def send_timer_proc_def throttle_timers self)
  next
    case Test_Timer
    then show ?thesis
      by (intro quiet [of "test_timer_proc t"]) (use self in \<open>simp_all add: run_callback_def test_timer_proc_def same_timers_def\<close>)
  next
    case Server_Stats
    then show ?thesis by (intro stats) (simp add: run_callback_def)
  next
    case Client_Stats
    then show ?thesis by (intro stats) (simp add: run_callback_def)
  next
    case Server_Reporter
    then show ?thesis by (intro quiet [OF _ self]) (simp add: run_callback_def)
  next
    case Client_Reporter
    then show ?thesis by (intro quiet [OF _ self]) (simp add: run_callback_def)
  next
    case Server_Omit
    then show ?thesis by (intro omit) (simp_all add: run_callback_def one_shot_def)
  next
    case Client_Omit
    then show ?thesis by (intro omit) (simp_all add: run_callback_def one_shot_def)
  next
    case Server_Timer
    with assms(4) show ?thesis by simp
  qed
qed

interpretation test_timers: retiming_callbacks "fire ub" "callbacks_ok A B" for ub A B
proof unfold_locales
  fix st :: "tproc tmrs" and xs fs now w p
  assume a: "timers_ok st xs fs" "regular now st xs" "callbacks_ok A B now st w xs" "p \<in> set xs" "due st p \<le> now"
  let ?t = "w\<lparr>tm := st\<rparr>" and ?proc = "timer_proc (theap st p)"
  have "?proc \<noteq> Server_Timer" using a(3-5) by (auto simp: callbacks_ok_def)
  moreover have "callbacks_ok A B now (tm ?t) ?t xs" using a(3) by (simp add: callbacks_ok_def)
  moreover have "?proc \<in> A" using a(3,4) by (simp add: callbacks_ok_def timers_known_def)
  moreover have "moved_by ?proc ?t = moved_by ?proc w" by (simp add: moved_by_def)
  ultimately obtain w' ys where w':
    "run_callback ub ?proc now ?t = Some w'" "retimed now st xs fs (moved_by ?proc w) (tm w') ys"
    "stats_timer w' = stats_timer w" "reporter_timer w' = reporter_timer w"
    "length (streams w') = length (streams w)" "rate_window_ok w'"
    using callback_retimes [where A = A and B = B and t = ?t and xs = xs and fs = fs and now = now and proc = ?proc and ub = ub] a(1,2) by auto
  have known: "timers_known A B st (stats_timer w) (reporter_timer w) xs" using a(3) by (simp add: callbacks_ok_def)
  then have "p \<notin> moved_by ?proc w"
    using a(4) by (auto simp: moved_by_def timers_known_def remembers_def)
  then have p: "due (tm w') p = due st p" using w'(2) by (auto simp: retimed_def)
  have "distinct ys" using w'(2) by (simp add: retimed_def timers_ok_def timer_lists_def)
  moreover have "now < due (tm w') q" if "q \<in> set xs" "timer_proc (theap st q) = Server_Timer" for q
    using a(3) that w'(2) unfolding callbacks_ok_def retimed_def by metis
  ultimately have "callbacks_ok A B now (tm w') w' (if periodic (theap st p) then ys else remove1 p ys)"
    using known w'(2-6) a(3) by (auto simp: callbacks_ok_def timers_known_def remembers_def retimed_def)
  moreover have "fire ub ?proc now st w = Some (tm w', w')"
    by (simp add: fire_def w'(1))
  ultimately show "\<exists>st' w' ys. fire ub ?proc now st w = Some (st', w') \<and> timers_ok st' ys fs
      \<and> set ys = set xs \<and> regular now st' ys \<and> (\<forall>q. periodic (theap st' q) = periodic (theap st q))
      \<and> (\<forall>q. due st' q = due st q \<or> now < due st' q) \<and> due st' p = due st p
      \<and> callbacks_ok A B now st' w' (if periodic (theap st p) then ys else remove1 p ys)"
    using p w'(2) by (intro exI [of _ "tm w'"] exI [of _ w'] exI [of _ ys]) (auto simp: retimed_def)
next
  fix now st w xs ys st'
  assume "callbacks_ok A B now st w xs" "set xs = set ys"
    "\<And>q. timer_proc (theap st' q) = timer_proc (theap st q) \<and> periodic (theap st' q) = periodic (theap st q)
      \<and> t_usecs (theap st' q) = t_usecs (theap st q) \<and> (due st' q = due st q \<or> periodic (theap st q))"
  then show "callbacks_ok A B now st' w ys"
    unfolding callbacks_ok_def timers_known_def remembers_def one_shot_def by (metis insert_iff)
qed

text \<open>\<open>tmr_run\<close> on the timers of a test returns, with the timer list intact.\<close>

lemma run_timers_total:
  assumes "timers_ok (tm t) xs fs" "regular now (tm t) xs" "callbacks_ok A B now (tm t) t xs"
  shows "\<exists>t' ys gs. run_timers ub now t = Some t' \<and> timers_ok (tm t') ys gs \<and> set ys \<subseteq> set xs
    \<and> set ys \<union> set gs = set xs \<union> set fs \<and> callbacks_ok A B now (tm t') t' ys \<and> regular now (tm t') ys"
proof -
  from test_timers.run_total [of "tm t" xs fs "Some now" now A B t ub] assms obtain st' w' ys gs where
    "tmr_run (fire ub) now (Some now) (tm t) t = Some (st', w')" "timers_ok st' ys gs" "set ys \<subseteq> set xs"
    "set ys \<union> set gs = set xs \<union> set fs" "callbacks_ok A B now st' w' ys" "regular now st' ys"
    by (auto simp: getnow_def)
  then show ?thesis by (auto simp: run_timers_def callbacks_ok_def)
qed

section \<open>Setting up the timers establishes the contract\<close>

text \<open>
  \<open>malloc_ok\<close>: memory that is handed out is not in use by an active or a free timer.
  \<open>set_up A B t\<close>: the timers of \<open>t\<close> are in order, each period is between a microsecond and
  \<open>B\<close> microseconds, and the clock reads normalised times.
\<close>

definition malloc_ok :: "(tproc tmrs \<Rightarrow> nat option) \<Rightarrow> bool" where
  "malloc_ok malloc \<longleftrightarrow> (\<forall>st xs fs p. timer_lists st xs fs \<longrightarrow> malloc st = Some p \<longrightarrow> p \<notin> set (xs @ fs))"

definition clock_ok :: "test \<Rightarrow> bool" where
  "clock_ok t \<longleftrightarrow> (\<forall>n. normal_time (rtime (orc t n)))"

definition timers_set_up :: "tproc set \<Rightarrow> nat \<Rightarrow> test \<Rightarrow> nat list \<Rightarrow> nat list \<Rightarrow> bool" where
  "timers_set_up A B t xs fs \<longleftrightarrow> timers_ok (tm t) xs fs
     \<and> timers_known A B (tm t) (stats_timer t) (reporter_timer t) xs
     \<and> (\<forall>p \<in> set xs. normal_time (due (tm t) p)) \<and> streams_there A (length (streams t))
     \<and> rate_window_ok t"

text \<open>The periods the options ask for.\<close>

definition periods_ok :: "nat \<Rightarrow> int \<Rightarrow> test \<Rightarrow> bool" where
  "periods_ok B grace t \<longleftrightarrow>
     (stats_interval t = 0 \<or> period_ok B (interval_us (stats_interval t)))
     \<and> (reporter_interval t = 0 \<or> period_ok B (interval_us (reporter_interval t)))
     \<and> (duration t = 0 \<or> period_ok B (word_of_int ((duration t + omit t + grace) * SEC_TO_US)))
     \<and> (omit t = 0 \<or> period_ok B (word_of_int (omit t * SEC_TO_US)))
     \<and> (rate (settings t) = 0 \<or> period_ok B (word_of_int (pacing_timer (settings t))))"

definition set_up :: "tproc set \<Rightarrow> nat \<Rightarrow> int \<Rightarrow> test \<Rightarrow> bool" where
  "set_up A B grace t \<longleftrightarrow> clock_ok t \<and> periods_ok B grace t \<and> (\<exists>xs fs. timers_set_up A B t xs fs)"

lemma set_up_regular:
  assumes "timers_set_up A B t xs fs" "normal_time now" "micros now + B < 4294967296000000"
  shows "timers_ok (tm t) xs fs" "regular now (tm t) xs"
  using assms by (force simp: timers_set_up_def timers_known_def regular_def period_ok_def)+

lemma new_timer_set_up:
  assumes "malloc_ok malloc" "normal_time now" "period_ok B us" "per \<longleftrightarrow> \<not> one_shot proc" "proc \<in> A"
    and "timers_set_up A B t xs fs"
  shows "wp (new_timer malloc now proc us per) (\<lambda>p t'. (\<exists>st. t' = t\<lparr>tm := st\<rparr>) \<and>
    (\<exists>ys gs. timers_set_up A B t' ys gs \<and> (\<forall>q. p = Some q \<longrightarrow> q \<in> set ys \<and> periodic (theap (tm t') q) = per))) t"
proof (cases "fs = [] \<and> malloc (tm t) = None")
  case True
  then have "free_timers (tm t) = None"
    using assms(6) by (auto simp: timers_set_up_def timers_ok_def timer_lists_def)
  then have "tmr_create (tm t) (malloc (tm t)) now (Some now) proc us per = Some (tm t, None)"
    using True by (simp add: tmr_create_def Let_def)
  then show ?thesis using assms(6) by (auto simp: new_timer_def wp_simps intro!: exI [of _ "tm t"])
next
  case False
  have ok: "timers_ok (tm t) xs fs" using assms(6) by (simp add: timers_set_up_def)
  have fresh: "m \<notin> set (xs @ fs)" if "malloc (tm t) = Some m" for m
    using assms(1) ok that by (auto simp: malloc_ok_def timers_ok_def)
  have room: "fs \<noteq> [] \<or> malloc (tm t) \<noteq> None" using False by blast
  obtain st q gs where
    new: "tmr_create (tm t) (malloc (tm t)) now (Some now) proc us per = Some (st, Some q)"
      "q \<notin> set xs" "timers_ok st (insert_due st q xs) gs" "timer_proc (theap st q) = proc"
      "periodic (theap st q) = per" "due st q = iperf_time_add_usecs now us" "t_usecs (theap st q) = us"
      "\<forall>x \<in> set xs. due st x = due (tm t) x"
      "\<forall>x \<in> set xs. timer_proc (theap st x) = timer_proc (theap (tm t) x)
        \<and> periodic (theap st x) = periodic (theap (tm t) x) \<and> t_usecs (theap st x) = t_usecs (theap (tm t) x)"
    using tmr_create_ok [OF ok fresh room, of now "Some now" proc us per] by (auto simp: getnow_def)
  have "normal_time (due st q)" using new(6) add_usecs_exact [OF assms(2)] by simp
  then have "timers_set_up A B (t\<lparr>tm := st\<rparr>) (insert_due st q xs) gs"
    using new assms(3-6) by (auto simp: timers_set_up_def timers_known_def remembers_def)
  then show ?thesis
    using new(1,5) by (simp add: new_timer_def wp_simps) (metis set_insert_due insertI1)
qed

text \<open>Creating a timer and storing the pointer.\<close>

lemma hang_timer_set_up:
  assumes "malloc_ok malloc" "normal_time now" "period_ok B us" "per \<longleftrightarrow> \<not> one_shot proc" "proc \<in> A"
    and store: "\<And>p t xs fs. set_up A B grace t \<Longrightarrow> timers_set_up A B t xs fs \<Longrightarrow>
      (\<forall>q. p = Some q \<longrightarrow> q \<in> set xs \<and> periodic (theap (tm t) q) = per) \<Longrightarrow> set_up A B grace (f p t)"
  shows "preserves (set_up A B grace) (hang_timer malloc now proc us per f)"
  unfolding preserves_def
proof (intro allI impI)
  fix t
  assume t: "set_up A B grace t"
  then obtain xs fs where xs: "timers_set_up A B t xs fs" by (auto simp: set_up_def)
  have go: "wp (do { modify (f p); State_Monad.return (p \<noteq> None) }) (\<lambda>r. set_up A B grace) t'"
    if st: "t' = t\<lparr>tm := st\<rparr>" and ys: "timers_set_up A B t' ys gs"
      "\<forall>q. p = Some q \<longrightarrow> q \<in> set ys \<and> periodic (theap (tm t') q) = per" for p t' st ys gs
  proof -
    have "set_up A B grace t'" using t ys(1) by (auto simp: st set_up_def clock_ok_def periods_ok_def)
    then have "set_up A B grace (f p t')" using ys by (rule store)
    then show ?thesis by (simp add: wp_simps)
  qed
  show "wp (hang_timer malloc now proc us per f) (\<lambda>r. set_up A B grace) t"
    unfolding hang_timer_def wp_bind [where m = "new_timer malloc now proc us per"]
    by (rule wp_mono [OF new_timer_set_up [OF assms(1-5) xs]]) (use go in blast)
qed

lemma set_up_fields:
  "timers_set_up A B (after c r t) xs fs = timers_set_up A B t xs fs" 
  "periods_ok B grace (after c r t) = periods_ok B grace t" "clock_ok (after c r t) = clock_ok t"
  "set_up A B grace (t\<lparr>i_errno := e\<rparr>) = set_up A B grace t"
  "set_up A B grace (put_stream i sp t) = set_up A B grace t"
  by (simp_all add: timers_set_up_def periods_ok_def clock_ok_def set_up_def put_stream_def after_def rate_window_ok_def)

lemma set_up_call: "set_up A B grace t \<Longrightarrow> set_up A B grace (after c r t)"
  by (simp add: set_up_def set_up_fields)

lemma set_up_fail: "preserves (set_up A B grace) (fail e)"
  unfolding fail_def by (intro preserves_bind inv_rules) (simp add: preserves_def wp_simps set_up_fields)

lemma set_up_gettime:
  assumes "\<And>g. normal_time (rtime g) \<Longrightarrow> preserves (set_up A B grace) (f g)"
  shows "preserves (set_up A B grace) (do { g \<leftarrow> call Gettime; f g })"
  unfolding preserves_def
proof (intro allI impI)
  fix t :: test assume t: "set_up A B grace t"
  then have "normal_time (rtime (answer t))" by (simp add: set_up_def clock_ok_def answer_def)
  from assms [OF this] set_up_call [OF t] show "wp (do { g \<leftarrow> call Gettime; f g }) (\<lambda>r. set_up A B grace) t"
    by (simp add: wp_simps preserves_def)
qed

lemma set_up_store:
  "set_up A B grace t \<Longrightarrow> set_up A B grace (t\<lparr>test_timer := p\<rparr>)"
  "set_up A B grace t \<Longrightarrow> set_up A B grace (t\<lparr>omit_timer := p\<rparr>)"
  "set_up A B grace t \<Longrightarrow> set_up A B grace (t\<lparr>test_done := b\<rparr>)"
  "set_up A B grace t \<Longrightarrow> set_up A B grace (t\<lparr>omitting := b\<rparr>)"
  "set_up A B grace t \<Longrightarrow> set_up A B grace (t\<lparr>stats_timer := None\<rparr>)"
  "set_up A B grace t \<Longrightarrow> set_up A B grace (t\<lparr>reporter_timer := None\<rparr>)"
  by (auto simp: set_up_def timers_set_up_def timers_known_def remembers_def periods_ok_def clock_ok_def)

lemma set_up_remember:
  assumes "set_up A B grace t" "timers_set_up A B t xs fs"
    "\<forall>q. p = Some q \<longrightarrow> q \<in> set xs \<and> periodic (theap (tm t) q) = True"
  shows "set_up A B grace (t\<lparr>stats_timer := p\<rparr>)" "set_up A B grace (t\<lparr>reporter_timer := p\<rparr>)"
proof -
  have "timers_set_up A B (t\<lparr>stats_timer := p\<rparr>) xs fs" "timers_set_up A B (t\<lparr>reporter_timer := p\<rparr>) xs fs"
    using assms(2,3) by (auto simp: timers_set_up_def timers_known_def remembers_def)
  then show "set_up A B grace (t\<lparr>stats_timer := p\<rparr>)" "set_up A B grace (t\<lparr>reporter_timer := p\<rparr>)"
    using assms(1) by (auto simp: set_up_def periods_ok_def clock_ok_def)
qed

lemma set_up_periods:
  assumes "set_up A B grace t"
  shows "stats_interval t \<noteq> 0 \<Longrightarrow> period_ok B (interval_us (stats_interval t))"
    "reporter_interval t \<noteq> 0 \<Longrightarrow> period_ok B (interval_us (reporter_interval t))"
    "duration t \<noteq> 0 \<Longrightarrow> period_ok B (word_of_int ((duration t + omit t + grace) * SEC_TO_US))"
    "omit t \<noteq> 0 \<Longrightarrow> period_ok B (word_of_int (omit t * SEC_TO_US))"
    "rate (settings t) \<noteq> 0 \<Longrightarrow> period_ok B (word_of_int (pacing_timer (settings t)))"
  using assms by (auto simp: set_up_def periods_ok_def)

lemma stats_timers_set_up:
  assumes "malloc_ok malloc" "normal_time now" "\<not> one_shot sp" "\<not> one_shot rp" "{sp, rp} \<subseteq> A"
  shows "preserves (set_up A B grace) (stats_timers malloc now sp rp)"
  unfolding stats_timers_def
proof (intro preserves_gets preserves_bind inv_rules set_up_fail hang_timer_set_up [OF assms(1,2)])
qed (use assms(3-5) in \<open>simp_all add: set_up_periods set_up_remember\<close>)

lemma create_timers_set_up:
  assumes "malloc_ok malloc" "one_shot ep" "ep \<in> A" "\<not> one_shot sp" "\<not> one_shot rp" "{sp, rp} \<subseteq> A"
  shows "preserves (set_up A B grace) (create_timers malloc ep grace sp rp)"
  unfolding create_timers_def
proof (intro set_up_gettime preserves_gets preserves_bind preserves_modify inv_rules set_up_fail
    hang_timer_set_up [OF assms(1)] stats_timers_set_up [OF assms(1) _ assms(4-6)])
  show "period_ok B (word_of_int (snd (duration t, duration t + omit t + grace) * SEC_TO_US))"
    if "set_up A B grace t" "fst (duration t, duration t + omit t + grace) \<noteq> 0" for t
    using that set_up_periods(3) by simp
qed (use assms(2,3) in \<open>simp_all add: set_up_store\<close>)

lemma create_omit_timer_set_up:
  assumes "malloc_ok malloc" "one_shot proc" "proc \<in> A"
  shows "preserves (set_up A B grace) (create_omit_timer malloc proc)"
  unfolding create_omit_timer_def
proof (intro preserves_gets set_up_gettime preserves_bind preserves_modify inv_rules set_up_fail
    hang_timer_set_up [OF assms(1)])
  show "period_ok B (word_of_int (omit t * SEC_TO_US))" if "set_up A B grace t" "omit t \<noteq> 0" for t
    using that by (rule set_up_periods(4))
qed (use assms(2,3) in \<open>simp_all add: set_up_store\<close>)

lemma send_timers_set_up:
  assumes "malloc_ok malloc" "(Send_Timer \<circ> int) ` set is \<subseteq> A"
  shows "preserves (set_up A B grace) (send_timers_from malloc is)"
  using assms(2)
proof (induction "is")
  case Nil
  then show ?case by (simp add: preserves_return)
next
  case (Cons i "is")
  then have IH: "preserves (set_up A B grace) (send_timers_from malloc is)" and i: "Send_Timer (int i) \<in> A" by auto
  show ?case
    unfolding send_timers_from.simps
  proof (intro preserves_gets set_up_gettime preserves_bind preserves_modify inv_rules set_up_fail
      hang_timer_set_up [OF assms(1)] IH)
    show "period_ok B (word_of_int (snd (rate (settings t) \<noteq> 0 \<and> is_sender (streams t ! i), pacing_timer (settings t))))"
      if "set_up A B grace t" "fst (rate (settings t) \<noteq> 0 \<and> is_sender (streams t ! i), pacing_timer (settings t))" for t
      using that set_up_periods(5) by simp
  qed (use i in \<open>auto simp: set_up_fields one_shot_def\<close>)
qed

lemma iperf_create_send_timers_set_up:
  assumes "malloc_ok malloc"
  shows "preserves (set_up A B grace) (iperf_create_send_timers malloc)"
  unfolding iperf_create_send_timers_def
proof (intro set_up_gettime preserves_gets inv_rules set_up_fail send_timers_set_up [OF assms])
  show "(Send_Timer \<circ> int) ` set [0..<length (streams t)] \<subseteq> A" if "set_up A B grace t" for t
    using that by (auto simp: set_up_def timers_set_up_def streams_there_def)
qed

text \<open>The callbacks of a client with \<open>n\<close> streams.\<close>

definition client_procs :: "nat \<Rightarrow> tproc set" where
  "client_procs n = {Test_Timer, Client_Stats, Client_Reporter, Client_Omit} \<union> Send_Timer ` {0..<int n}"

section \<open>The timers of a client never hang\<close>

text \<open>Running the timers again and again, at the times \<open>nows\<close>.\<close>

primrec run_at :: "u64 \<Rightarrow> iperf_time list \<Rightarrow> test \<Rightarrow> test option" where
  "run_at ub [] t = Some t"
| "run_at ub (now # nows) t = (case run_timers ub now t of None \<Rightarrow> None | Some t' \<Rightarrow> run_at ub nows t')"

definition reachable_time :: "nat \<Rightarrow> iperf_time \<Rightarrow> bool" where
  "reachable_time B now \<longleftrightarrow> normal_time now \<and> micros now + B < 4294967296000000"

lemma run_timers_set_up:
  assumes "timers_set_up A B t xs fs" "Server_Timer \<notin> A" "reachable_time B now"
  shows "\<exists>t' ys gs. run_timers ub now t = Some t' \<and> timers_set_up A B t' ys gs"
proof -
  have "callbacks_ok A B now (tm t) t xs"
    using assms(1,2) by (auto simp: callbacks_ok_def timers_set_up_def timers_known_def)
  with run_timers_total [of t xs fs now A B ub] set_up_regular [OF assms(1), of now] assms(3)
  obtain t' ys gs where t': "run_timers ub now t = Some t'" "timers_ok (tm t') ys gs"
    "callbacks_ok A B now (tm t') t' ys" "regular now (tm t') ys" by (auto simp: reachable_time_def)
  then have "timers_set_up A B t' ys gs"
    by (auto simp: timers_set_up_def callbacks_ok_def regular_def)
  with t'(1) show ?thesis by blast
qed

lemma run_at_total:
  assumes "timers_set_up A B t xs fs" "Server_Timer \<notin> A" "\<forall>now \<in> set nows. reachable_time B now"
  shows "\<exists>t' ys gs. run_at ub nows t = Some t' \<and> timers_set_up A B t' ys gs"
  using assms(1,3)
proof (induction nows arbitrary: t xs fs)
  case (Cons now nows)
  then obtain t' ys gs where "run_timers ub now t = Some t'" "timers_set_up A B t' ys gs"
    using run_timers_set_up [OF Cons.prems(1) assms(2), of now ub] by auto
  with Cons.IH [OF this(2)] Cons.prems(2) show ?case by simp
qed auto

text \<open>The part of \<open>TEST_START\<close> in \<open>iperf_handle_message_client\<close> that creates the timers.\<close>

definition client_start_timers :: "(tproc tmrs \<Rightarrow> nat option) \<Rightarrow> (test, int) state" where
  "client_start_timers malloc = do {
     r1 \<leftarrow> create_client_timers malloc;
     if r1 < 0 then State_Monad.return (-1) else do {
       r2 \<leftarrow> create_client_omit_timer malloc;
       if r2 < 0 then State_Monad.return (-1) else do {
         m \<leftarrow> gets mode;
         if m \<noteq> RECEIVER then iperf_create_send_timers malloc else State_Monad.return 0 } } }"

lemma client_start_timers_set_up:
  assumes "malloc_ok malloc"
  shows "preserves (set_up (client_procs n) B 0) (client_start_timers malloc)"
  unfolding client_start_timers_def create_client_timers_def create_client_omit_timer_def
  by (intro preserves_bind inv_rules create_timers_set_up [OF assms] create_omit_timer_set_up [OF assms]
      iperf_create_send_timers_set_up [OF assms])
    (auto simp: one_shot_def client_procs_def)

text \<open>An allocator that never hands out a node of the two lists: one past the largest address.\<close>

partial_function (option) top_node :: "(nat \<Rightarrow> 'c timer) \<Rightarrow> nat option \<Rightarrow> nat \<Rightarrow> nat option" where
  "top_node h p m = (case p of None \<Rightarrow> Some m | Some q \<Rightarrow> top_node h (nxt (h q)) (max m q))"

definition next_node :: "tproc tmrs \<Rightarrow> nat option" where
  "next_node st = Option.bind (top_node (theap st) (timers st) 0)
     (\<lambda>m. map_option Suc (top_node (theap st) (free_timers st) m))"

lemma top_node_sll: "sll h p xs \<Longrightarrow> top_node h p m = Some (foldl max m xs)"
  by (induction xs arbitrary: p m) (subst top_node.simps, simp)+

lemma top_node_dls: "dls h pv p xs lst None \<Longrightarrow> top_node h p m = Some (foldl max m xs)"
  by (induction xs arbitrary: pv p m) (subst top_node.simps, auto)+

lemma foldl_max_ge: "m \<le> foldl max m xs \<and> (\<forall>x \<in> set xs. x \<le> foldl max m (xs :: nat list))"
proof (induction xs arbitrary: m)
  case (Cons y ys)
  then have "max m y \<le> foldl max (max m y) ys" "\<forall>x \<in> set ys. x \<le> foldl max (max m y) ys" by blast+
  then show ?case by auto
qed simp

lemma next_node_ok: "malloc_ok next_node"
proof -
  have "p \<notin> set (xs @ fs)" if l: "timer_lists st xs fs" and p: "next_node st = Some p" for st xs fs p
  proof -
    obtain lst where "dls (theap st) None (timers st) xs lst None" "sll (theap st) (free_timers st) fs"
      using l by (auto simp: timer_lists_def)
    then have "p = Suc (foldl max (foldl max 0 xs) fs)"
      using p top_node_dls [of "theap st" None "timers st" xs lst 0] top_node_sll [of "theap st" "free_timers st" fs]
      by (simp add: next_node_def)
    then show ?thesis
      using foldl_max_ge [of 0 xs] foldl_max_ge [of "foldl max 0 xs" fs] by fastforce
  qed
  then show ?thesis by (auto simp: malloc_ok_def)
qed

section \<open>The grace timer of the server does hang\<close>

lemma same_payload_upd:
  assumes "\<And>n. timer_proc (f n) = timer_proc n \<and> t_usecs (f n) = t_usecs n \<and> periodic (f n) = periodic n \<and> t_time (f n) = t_time n"
  shows "same_payload st (upd st p f)"
  by (simp add: same_payload_def assms)

lemma same_payload_remove: "same_payload st (list_remove st p)"
proof -
  define st1 where "st1 = (case prev (theap st p) of None \<Rightarrow> st\<lparr>timers := nxt (theap st p)\<rparr>
    | Some q \<Rightarrow> upd st q (\<lambda>n. n\<lparr>nxt := nxt (theap st p)\<rparr>))"
  have "same_payload st st1" by (simp add: st1_def same_payload_def split: option.split)
  moreover have "same_payload st1 (case nxt (theap st1 p) of Some q \<Rightarrow> upd st1 q (\<lambda>n. n\<lparr>prev := prev (theap st1 p)\<rparr>) | None \<Rightarrow> st1)"
    by (simp add: same_payload_def split: option.split)
  ultimately show ?thesis
    unfolding list_remove_def Let_def st1_def [symmetric] by (rule same_payload_trans)
qed

lemma same_payload_cancel: "same_payload st (tmr_cancel st p)"
proof -
  have "same_payload (list_remove st p) (tmr_cancel st p)"
    by (simp add: tmr_cancel_def Let_def same_payload_def)
  then show ?thesis by (rule same_payload_trans [OF same_payload_remove])
qed

text \<open>Freeing the streams: none is left, and the timers keep what is not a link.\<close>

definition freeing :: "tproc tmrs \<Rightarrow> nat \<Rightarrow> test \<Rightarrow> bool" where
  "freeing st n t \<longleftrightarrow> same_payload st (tm t) \<and> length (streams t) = n"

lemma freeing_call: "freeing st n t \<Longrightarrow> freeing st n (after c r t)"
  by (simp add: freeing_def after_def)

lemma freeing_stream: "preserves (freeing st n) (iperf_free_stream sp)"
  unfolding iperf_free_stream_def
  by (intro preserves_bind inv_rules preserves_call preserves_modify freeing_call)
    (auto simp: freeing_def cancel_opt_def intro: same_payload_trans [OF _ same_payload_cancel] split: option.split)

lemma server_timer_frees:
  assumes "\<not> test_done t"
  shows "wp server_timer_proc (\<lambda>u t'. freeing (tm t) 0 t') t"
proof -
  let ?body = "\<lambda>sp. do { modify (\<lambda>t. t\<lparr>streams := tl (streams t)\<rparr>); c \<leftarrow> call (Close (stream_socket sp)); iperf_free_stream sp }"
  have each: "wp (for_each sps ?body) (\<lambda>u. freeing st 0) s" if "freeing st (length sps) s" for sps st s
    using that
  proof (induction sps arbitrary: s)
    case Nil
    then show ?case by (simp add: wp_simps)
  next
    case (Cons sp sps)
    let ?s = "after (Close (stream_socket sp)) (rv (answer (s\<lparr>streams := tl (streams s)\<rparr>))) (s\<lparr>streams := tl (streams s)\<rparr>)"
    have "freeing st (length sps) ?s" using Cons.prems by (intro freeing_call) (simp add: freeing_def)
    then have "wp (iperf_free_stream sp) (\<lambda>u. freeing st (length sps)) ?s"
      using freeing_stream [of st "length sps" sp] by (simp add: preserves_def)
    then have "wp (iperf_free_stream sp) (\<lambda>u. wp (for_each sps ?body) (\<lambda>u. freeing st 0)) ?s"
      by (rule wp_mono) (rule Cons.IH)
    then show ?case by (simp add: wp_simps)
  qed
  have fin: "wp (do { fd \<leftarrow> gets ctrl_sck; c \<leftarrow> call (Close fd); State_Monad.return () }) (\<lambda>u. freeing (tm t) 0) s"
    if "freeing (tm t) 0 s" for s
    using that by (simp add: wp_simps freeing_call)
  have init: "freeing (tm t) (length (streams t)) (t\<lparr>test_timer := None, test_done := True\<rparr>)"
    by (simp add: freeing_def)
  have "wp (for_each (streams t) ?body)
      (\<lambda>u. wp (do { fd \<leftarrow> gets ctrl_sck; c \<leftarrow> call (Close fd); State_Monad.return () }) (\<lambda>u. freeing (tm t) 0))
      (t\<lparr>test_timer := None, test_done := True\<rparr>)"
    by (rule wp_mono [OF each [OF init]]) (rule fin)
  then show ?thesis
    using assms by (simp add: server_timer_proc_def wp_bind wp_modify wp_gets)
qed

lemma grace_timer_crash:
  assumes "timers (tm t) = Some p" "nxt (theap (tm t) p) = Some q"
    and "timer_proc (theap (tm t) p) = Server_Timer" "\<not> periodic (theap (tm t) p)"
    and "timer_proc (theap (tm t) q) = Send_Timer i"
    and "due (tm t) p \<le> now" "due (tm t) q \<le> now" "\<not> test_done t"
  shows "run_timers ub now t = None"
proof -
  define w where "w = snd (run_state server_timer_proc t)"
  have "freeing (tm t) 0 w"
    using server_timer_frees [OF assms(8)] by (simp add: w_def wp_iff_run)
  then have w: "same_payload (tm t) (tm w)" "streams w = []" by (simp_all add: freeing_def)
  have pay: "same_payload (tm t) (tmr_cancel (tm w) p)"
    by (rule same_payload_trans [OF w(1) same_payload_cancel])
  have "t\<lparr>tm := tm t\<rparr> = t" by simp
  then have first: "fire ub Server_Timer now (tm t) t = Some (tm w, w)"
    by (simp add: fire_def run_callback_def w_def)
  have second: "fire ub (Send_Timer i) now st w = None" for st
    using w(2) by (simp add: fire_def run_callback_def)
  have notlater: "\<not> 0 < iperf_time_compare (t_time (theap (tm t) p)) now"
    "\<not> 0 < iperf_time_compare (t_time (theap (tmr_cancel (tm w) p) q)) now"
    using assms(6,7) pay by (simp_all add: compare_iffs due_def not_less same_payload_def)
  have "tmr_run_loop (fire ub) now (Some q) (tmr_cancel (tm w) p) w = None"
    using notlater(2) pay assms(5) second by (subst tmr_run_loop.simps) (simp add: same_payload_def)
  then have "tmr_run_loop (fire ub) now (Some p) (tm t) t = None"
    using notlater(1) first assms(2-4) w(1) by (subst tmr_run_loop.simps) (simp add: same_payload_def)
  then show ?thesis using assms(1) by (simp add: run_timers_def tmr_run_def getnow_def)
qed

section \<open>Properties\<close>

text \<open>
  C13: Once a client has created its timers, running them always returns: for every sequence of
  clock readings, whatever the system calls answered, no call of \<open>tmr_run\<close> loops, and the list is
  in order at the end. What is asked for: the clock reads normalised times that stay \<open>B\<close> microseconds below the wrap-around
  of the seconds, and every period of the options in use (statistics, reporter, test, omitted time, and, if there is a
  target rate, the pacing timer) is between 1 and \<open>B\<close> microseconds, so not 0 (\<open>set_up\<close>).
\<close>

theorem client_timers_return:
  assumes "malloc_ok malloc" "set_up (client_procs n) B 0 t0" "\<forall>now \<in> set nows. reachable_time B now"
  shows "\<exists>t' xs fs. run_at ub nows (snd (run_state (client_start_timers malloc) t0)) = Some t' \<and> timers_ok (tm t') xs fs"
proof -
  have "set_up (client_procs n) B 0 (snd (run_state (client_start_timers malloc) t0))"
    using preservesD [OF client_start_timers_set_up [OF assms(1)] assms(2)] .
  then obtain xs fs where "timers_set_up (client_procs n) B (snd (run_state (client_start_timers malloc) t0)) xs fs"
    by (auto simp: set_up_def)
  moreover have "Server_Timer \<notin> client_procs n" by (auto simp: client_procs_def)
  ultimately obtain t' ys gs where
    "run_at ub nows (snd (run_state (client_start_timers malloc) t0)) = Some t'" "timers_set_up (client_procs n) B t' ys gs"
    using run_at_total assms(3) by blast
  then show ?thesis by (auto simp: timers_set_up_def)
qed

lemma interval_us_1: "interval_us 1 = 1000000"
proof -
  have "f64 1000000 = 1000000" using f64_nat [of 1000000] by simp
  then show ?thesis by (simp add: interval_us_def)
qed

lemma blank_set_up: "set_up (client_procs 0) 100000000 0 (blank_test [])"
proof -
  have clock: "clock_ok (blank_test [])"
    by (simp add: clock_ok_def blank_test_def iperf_defaults_def iperf_new_test_def fresh_os_def script_def
        ok_resp_def no_time_def normal_time_def set_protocol_def check_sender_has_retransmits_def Let_def)
  have "periods_ok 100000000 0 (blank_test [])"
    by (simp add: periods_ok_def period_ok_def blank_test_def iperf_defaults_def iperf_new_test_def
        set_protocol_def check_sender_has_retransmits_def Let_def interval_us_1 default_settings_def)
  moreover have "timers_set_up (client_procs 0) 100000000 (blank_test []) [] []"
    by (simp add: timers_set_up_def timers_ok_def timer_lists_def due_sorted_def timers_known_def remembers_def rate_window_ok_def
        streams_there_def client_procs_def blank_test_def iperf_defaults_def iperf_new_test_def no_timers_def
        set_protocol_def check_sender_has_retransmits_def Let_def)
  ultimately show ?thesis using clock by (auto simp: set_up_def)
qed

theorem client_timers_return_witness:
  "\<exists>t' xs fs. run_at 0 [Time 1 0, Time 2 0] (snd (run_state (client_start_timers next_node) (blank_test []))) = Some t'
    \<and> timers_ok (tm t') xs fs"
  by (rule client_timers_return [OF next_node_ok blank_set_up])
    (auto simp: reachable_time_def normal_time_def micros_def)

text \<open>
  C40: The server's grace timer frees the streams and cancels their timers from inside the loop
  of \<open>tmr_run\<close>, which has already saved a pointer to the next timer. If that is a due send
  timer, its callback is run on the freed stream.
\<close>

theorem server_grace_timer_uses_freed_stream:
  assumes "timers (tm t) = Some p" "nxt (theap (tm t) p) = Some q"
    and "timer_proc (theap (tm t) p) = Server_Timer" "\<not> periodic (theap (tm t) p)"
    and "timer_proc (theap (tm t) q) = Send_Timer i"
    and "due (tm t) p \<le> now" "due (tm t) q \<le> now" "\<not> test_done t"
  shows "run_timers ub now t = None"
  using assms by (rule grace_timer_crash)

text \<open>A server that sends on one stream paced at 41 seconds, its test of one second set up.\<close>

declare top_node.simps [code] find_slot.simps [code]

definition paced_server :: test where
  "paced_server = (let t = blank_test [] in t\<lparr>test_role := CHR ''s'', mode := SENDER, stats_interval := 0,
     reporter_interval := 0, duration := 1, ctrl_sck := 4, streams := [zero_stream 5 True],
     settings := (settings t)\<lparr>rate := 1000, pacing_timer := 41000000\<rparr>\<rparr>)"

definition server_started :: test where
  "server_started = snd (run_state
     (do { r \<leftarrow> create_server_timers next_node; iperf_create_send_timers next_node }) paced_server)"

theorem server_grace_timer_uses_freed_stream_witness:
  "run_timers 0 (Time 41 0) server_started = None"
proof (rule server_grace_timer_uses_freed_stream [where p = 1 and q = 2 and i = 0])
  show "timers (tm server_started) = Some 1" by code_simp
  show "nxt (theap (tm server_started) 1) = Some 2" by code_simp
  show "timer_proc (theap (tm server_started) 1) = Server_Timer" by code_simp
  show "\<not> periodic (theap (tm server_started) 1)" by code_simp
  show "timer_proc (theap (tm server_started) 2) = Send_Timer 0" by code_simp
  show "due (tm server_started) 1 \<le> Time 41 0" by code_simp
  show "due (tm server_started) 2 \<le> Time 41 0" by code_simp
  show "\<not> test_done server_started" by code_simp
qed

end
