(* ===== verification/Messages.thy ===== *)
theory Messages
  imports Results Streams Callbacks
begin

text \<open>
  The control connection as both sides use it (\<open>iperf/src/iperf_api.c\<close>): announcing a state,
  exchanging parameters and results, what is done on a new connection; with the plumbing the
  main loops of client and server share. Printing and the entries of the JSON report are left out.
\<close>

section \<open>The surroundings, early returns\<close>

text \<open>
  What these definitions do not fix: OpenSSL and files, the printer and the parser of JSON, stale stack bytes, the
  value of an undefined conversion, the allocator of timer nodes, the version string.
\<close>

record env =
  e_crypto :: crypto
  e_print :: "json \<Rightarrow> bytes option"
  e_parse :: "bytes \<Rightarrow> json option"
  e_junk :: bytes
  e_undef :: u64
  e_malloc :: "tproc tmrs \<Rightarrow> nat option"
  e_version :: string

text \<open>\<open>Stop r\<close>: the function at hand returns \<open>r\<close> (or the process dies). \<open>Go a\<close>: it carries on with \<open>a\<close>.\<close>

datatype 'a step = Go 'a | Stop outcome

definition seq :: "('s, 'a step) state \<Rightarrow> ('a \<Rightarrow> ('s, 'b step) state) \<Rightarrow> ('s, 'b step) state" where
  "seq m k = do { r \<leftarrow> m; (case r of Stop x \<Rightarrow> State_Monad.return (Stop x) | Go a \<Rightarrow> k a) }"

definition lift :: "('s, int) state \<Rightarrow> ('s, outcome) state" where
  "lift m = do { r \<leftarrow> m; State_Monad.return (Ret r) }"

definition just :: "('s, 'a) state \<Rightarrow> ('s, 'a step) state" where
  "just m = do { r \<leftarrow> m; State_Monad.return (Go r) }"

text \<open>\<open>if (f() < 0) return -1;\<close>\<close>

definition attempt :: "('s, outcome) state \<Rightarrow> ('s, int step) state" where
  "attempt m = do { r \<leftarrow> m; State_Monad.return
     (case r of Crash \<Rightarrow> Stop Crash | Ret n \<Rightarrow> if n < 0 then Stop (Ret (-1)) else Go n) }"

definition refuse :: "int \<Rightarrow> (test, 'a step) state" where
  "refuse e = do { r \<leftarrow> fail e; State_Monad.return (Stop (Ret r)) }"

text \<open>The end of a function: what is left of it returns 0.\<close>

definition finish :: "('s, 'a step) state \<Rightarrow> ('s, outcome) state" where
  "finish m = do { r \<leftarrow> m; State_Monad.return (case r of Stop x \<Rightarrow> x | Go a \<Rightarrow> Ret 0) }"

section \<open>Announcing a state\<close>

text \<open>\<open>iperf_set_send_state\<close>; the state is a \<open>signed char\<close> on the wire.\<close>

definition iperf_set_send_state :: "int \<Rightarrow> (test, int) state" where
  "iperf_set_send_state st = do {
     fd \<leftarrow> gets ctrl_sck;
     if fd \<ge> 0 then do {
       modify (\<lambda>t. t\<lparr>test_state := st\<rparr>);
       w \<leftarrow> nwrite fd [word_of_int st];
       if w < 0 then fail IESENDMESSAGE else State_Monad.return 0 }
     else State_Monad.return 0 }"

text \<open>One \<open>int32_t\<close> in network order.\<close>

definition send_int32 :: "int \<Rightarrow> (test, int) state" where
  "send_int32 n = do {
     fd \<leftarrow> gets ctrl_sck;
     w \<leftarrow> nwrite fd (be 4 (unat (word_of_int n :: u32)));
     if w < 0 then fail IECTRLWRITE else State_Monad.return 0 }"

text \<open>The load of the processor since the last call without an argument.\<close>

definition cpu_util_start :: "(test, unit) state" where
  "cpu_util_start = do { r \<leftarrow> call Cpu_Util; State_Monad.return () }"

definition cpu_util_read :: "(test, unit) state" where
  "cpu_util_read = do { r \<leftarrow> call Cpu_Util; modify (\<lambda>t. t\<lparr>cpu_util := rcpu r\<rparr>) }"

text \<open>\<open>iperf_on_connect\<close> prints; it asks for the time and the server for the client's address.\<close>

definition iperf_on_connect :: "(test, unit) state" where
  "iperf_on_connect = do {
     n \<leftarrow> call Clock_Time;
     ro \<leftarrow> gets test_role;
     if ro = CHR ''c'' then State_Monad.return () else do {
       fd \<leftarrow> gets ctrl_sck;
       p \<leftarrow> call (Getpeername fd);
       d \<leftarrow> getsockdomain fd;
       State_Monad.return () } }"

definition stats_or_die :: "env \<Rightarrow> (test, unit step) state" where
  "stats_or_die e = do {
     ok \<leftarrow> iperf_stats_callback (e_undef e);
     State_Monad.return (if ok then Go () else Stop Crash) }"

section \<open>The exchanges\<close>

text \<open>
  The server's answer to parameters it cannot use: \<open>SERVER_ERROR\<close> and the error code. After a
  failed \<open>listen\<close> it also sends \<open>errno\<close>, after a failed authentication it does not.
\<close>

definition reject_client :: "(test, outcome) state" where
  "reject_client = finish (seq (attempt (lift (iperf_set_send_state SERVER_ERROR))) (\<lambda>_. do {
     set_i_errno IEAUTHTEST;
     w \<leftarrow> send_int32 IEAUTHTEST;
     State_Monad.return (Stop (Ret (-1)) :: unit step) }))"

definition report_listen_error :: "(test, outcome) state" where
  "report_listen_error = finish (seq (attempt (lift (iperf_set_send_state SERVER_ERROR))) (\<lambda>_. do {
     ie \<leftarrow> gets i_errno;
     seq (attempt (lift (send_int32 ie))) (\<lambda>_. do {
       en \<leftarrow> gets errno;
       w \<leftarrow> send_int32 en;
       State_Monad.return (Stop (Ret (-1)) :: unit step) }) }))"

definition proto_listen :: "(test, int) state" where
  "proto_listen = do { p \<leftarrow> gets protocol; if p = Pudp then iperf_udp_listen else iperf_tcp_listen }"

definition open_listener :: "(test, outcome) state" where
  "open_listener = do {
     s \<leftarrow> proto_listen;
     if s < 0 then report_listen_error else do {
       watch_read s;
       modify (\<lambda>t. t\<lparr>prot_listener := s\<rparr>);
       finish (attempt (lift (iperf_set_send_state CREATE_STREAMS))) } }"

definition iperf_exchange_parameters :: "env \<Rightarrow> (test, outcome) state" where
  "iperf_exchange_parameters e = do {
     ro \<leftarrow> gets test_role;
     if ro = CHR ''c'' then finish (attempt (lift (send_parameters (e_crypto e) (e_print e) (e_version e))))
     else do {
       g \<leftarrow> get_parameters (e_parse e) (e_junk e);
       (case g of Crash \<Rightarrow> State_Monad.return Crash
        | Ret n \<Rightarrow> if n < 0 then State_Monad.return (Ret (-1)) else do {
            a \<leftarrow> test_is_authorized (e_crypto e);
            (case a of Crash \<Rightarrow> State_Monad.return Crash
             | Ret k \<Rightarrow> if k < 0 then reject_client else open_listener) }) } }"

definition iperf_exchange_results :: "env \<Rightarrow> (test, outcome) state" where
  "iperf_exchange_results e = do {
     ro \<leftarrow> gets test_role;
     finish (if ro = CHR ''c'' then
         seq (attempt (lift (send_results (e_print e)))) (\<lambda>_. attempt (get_results (e_parse e) (e_junk e)))
       else
         seq (attempt (get_results (e_parse e) (e_junk e))) (\<lambda>_. attempt (lift (send_results (e_print e))))) }"

section \<open>Files, processors, reports\<close>

definition iperf_open_logfile :: "(test, int) state" where
  "iperf_open_logfile = do {
     name \<leftarrow> gets logfile;
     f \<leftarrow> call (Open (case name of Some s \<Rightarrow> s | None \<Rightarrow> '''') True);
     if rv f < 0 then fail IELOGFILE else State_Monad.return 0 }"

definition iperf_setaffinity :: "int \<Rightarrow> (test, int) state" where
  "iperf_setaffinity n = do {
     r \<leftarrow> call (Setaffinity n);
     if rv r \<noteq> 0 then fail IEAFFINITY else State_Monad.return 0 }"

text \<open>All processors again.\<close>

definition iperf_clearaffinity :: "(test, int) state" where
  "iperf_clearaffinity = do {
     r \<leftarrow> call (Setaffinity (-1));
     if rv r \<noteq> 0 then fail IEAFFINITY else State_Monad.return 0 }"

text \<open>The skeleton of the report; memory does not run out.\<close>

definition iperf_json_start :: "(test, int) state" where
  "iperf_json_start = do {
     modify (\<lambda>t. t\<lparr>json_top := Some (JObject [(''start'', JObject [(''connected'', JArray [])]),
       (''intervals'', JArray []), (''end'', JObject [])])\<rparr>);
     State_Monad.return 0 }"

definition iperf_json_finish :: "(test, int) state" where
  "iperf_json_finish = do {
     modify (\<lambda>t. t\<lparr>json_top := None, json_server_output := None\<rparr>);
     State_Monad.return 0 }"

text \<open>The first steps of both \<open>iperf_run_server\<close> and \<open>iperf_run_client\<close>, with the result of a failed \<open>sched_setaffinity\<close>.\<close>

definition prepare :: "int \<Rightarrow> (test, unit step) state" where
  "prepare bad = do {
     lf \<leftarrow> gets logfile;
     seq (if lf \<noteq> None then attempt (lift iperf_open_logfile) else State_Monad.return (Go 0)) (\<lambda>_. do {
       a \<leftarrow> gets affinity;
       r \<leftarrow> (if a \<noteq> -1 then iperf_setaffinity a else State_Monad.return 0);
       if r \<noteq> 0 then State_Monad.return (Stop (Ret bad)) else do {
         js \<leftarrow> gets json_output;
         j \<leftarrow> (if js then iperf_json_start else State_Monad.return 0);
         State_Monad.return (if j < 0 then Stop (Ret bad) else Go ()) } }) }"

section \<open>Waiting\<close>

text \<open>
  \<open>select\<close> over the descriptor sets of the test: the result, what is ready, and whether a
  timeout was given of which, as Linux writes back, nothing is left. After an error the sets
  are as before.
\<close>

record ready =
  sel_result :: int
  sel_read :: "int set"
  sel_write :: "int set"
  sel_expired :: bool

definition wait_ready :: "(nat \<times> nat) option \<Rightarrow> (test, ready) state" where
  "wait_ready timeout = do {
     n \<leftarrow> gets max_fd;
     rs \<leftarrow> gets read_set;
     ws \<leftarrow> gets write_set;
     r \<leftarrow> call (Select (n + 1) timeout);
     State_Monad.return \<lparr>sel_result = rv r,
       sel_read = (if rv r < 0 then rs else if rv r = 0 then {} else rs \<inter> rready r),
       sel_write = (if rv r < 0 then ws else if rv r = 0 then {} else ws \<inter> rwritable r),
       sel_expired = (timeout \<noteq> None \<and> rtime r = no_time)\<rparr> }"

text \<open>The receive timeout in microseconds, and a timer's timeout cut down to it.\<close>

definition rcv_timeout_us :: "test \<Rightarrow> int" where
  "rcv_timeout_us t = (case rcv_timeout (settings t) of Time s us \<Rightarrow> int (unat s) * SEC_TO_US + int (unat us))"

definition capped_timeout :: "test \<Rightarrow> int \<Rightarrow> (nat \<times> nat) option \<Rightarrow> nat \<times> nat" where
  "capped_timeout t limit timeout =
     (case rcv_timeout (settings t) of Time s us \<Rightarrow>
       (case timeout of None \<Rightarrow> (unat s, unat us)
        | Some (tv_sec, tv_usec) \<Rightarrow>
            if int tv_sec * SEC_TO_US + int tv_usec > limit then (unat s, unat us) else (tv_sec, tv_usec)))"

text \<open>The time since \<open>before\<close> in microseconds, if the clock has moved on.\<close>

definition since :: "iperf_time \<Rightarrow> iperf_time \<Rightarrow> int option" where
  "since now before = (case iperf_time_diff now before of (past, diff) \<Rightarrow>
     if past = 0 then Some (sint (iperf_time_in_usecs diff)) else None)"

text \<open>
  The value \<open>None\<close> of \<open>run_timers\<close> is a memory error in a callback or a loop of \<open>tmr_run\<close> that never ends,
  as with a periodic timer of period 0; in both the caller does not go on.
\<close>

definition run_due_timers :: "env \<Rightarrow> (test, unit step) state" where
  "run_due_timers e = do {
     g \<leftarrow> call Gettime;
     State (\<lambda>t. case run_timers (e_undef e) (rtime g) t of None \<Rightarrow> (Stop Crash, t) | Some t' \<Rightarrow> (Go (), t')) }"

lemma wp_seq [wp_simps]:
  "wp (seq m k) Q s = wp m (\<lambda>r s'. case r of Stop x \<Rightarrow> Q (Stop x) s' | Go a \<Rightarrow> wp (k a) Q s') s"
proof -
  have "wp (case r of Stop x \<Rightarrow> State_Monad.return (Stop x) | Go a \<Rightarrow> k a) Q =
      (\<lambda>s'. case r of Stop x \<Rightarrow> Q (Stop x) s' | Go a \<Rightarrow> wp (k a) Q s')" for r
    by (cases r) (simp_all add: fun_eq_iff wp_return)
  then show ?thesis by (simp add: seq_def wp_bind)
qed

lemma wp_step [wp_simps]:
  "wp (case r of Stop x \<Rightarrow> f x | Go a \<Rightarrow> k a) Q s = (case r of Stop x \<Rightarrow> wp (f x) Q s | Go a \<Rightarrow> wp (k a) Q s)"
  "wp (case x of Crash \<Rightarrow> c | Ret n \<Rightarrow> h n) Q s = (case x of Crash \<Rightarrow> wp c Q s | Ret n \<Rightarrow> wp (h n) Q s)"
  by (simp_all split: step.split outcome.split)

lemma wp_lift [wp_simps]: "wp (lift m) Q s = wp m (\<lambda>r. Q (Ret r)) s"
  by (simp add: lift_def wp_bind wp_return_fun)

lemma wp_just [wp_simps]: "wp (just m) Q s = wp m (\<lambda>r. Q (Go r)) s"
  by (simp add: just_def wp_bind wp_return_fun)

lemma wp_attempt [wp_simps]:
  "wp (attempt m) Q s = wp m (\<lambda>r. case r of Crash \<Rightarrow> Q (Stop Crash)
     | Ret n \<Rightarrow> if n < 0 then Q (Stop (Ret (-1))) else Q (Go n)) s"
  unfolding attempt_def wp_bind wp_return_fun
  by (rule arg_cong [of _ _ "\<lambda>p. wp m p s"]) (auto simp: fun_eq_iff split: outcome.split)

lemma wp_finish [wp_simps]:
  "wp (finish m) Q s = wp m (\<lambda>r. case r of Stop x \<Rightarrow> Q x | Go a \<Rightarrow> Q (Ret 0)) s"
  unfolding finish_def wp_bind wp_return_fun
  by (rule arg_cong [of _ _ "\<lambda>p. wp m p s"]) (auto simp: fun_eq_iff split: step.split)

lemma preserves_seq:
  "preserves J m \<Longrightarrow> (\<And>a. preserves J (k a)) \<Longrightarrow> preserves J (seq m k)"
  unfolding seq_def by (rule preserves_bind) (auto split: step.split intro: preserves_return)

lemma preserves_wrap [inv_rules]:
  "preserves J m \<Longrightarrow> preserves J (lift m)" "preserves J m \<Longrightarrow> preserves J (just m)"
  "preserves J n \<Longrightarrow> preserves J (attempt n)" "preserves J k \<Longrightarrow> preserves J (finish k)"
  unfolding lift_def just_def attempt_def finish_def
  by (erule preserves_bind, rule preserves_return)+

lemma preserves_outcome [inv_rules]:
  "preserves J m \<Longrightarrow> (\<And>n. preserves J (f n)) \<Longrightarrow> preserves J (case x of Crash \<Rightarrow> m | Ret n \<Rightarrow> f n)"
  by (simp split: outcome.split)

end
