(* ===== verification/Lifecycle.thy ===== *)
theory Lifecycle
  imports Params Callbacks
begin

text \<open>
  From one test to the next: the ids that \<open>iperf_add_stream\<close> gives out, and what
  \<open>iperf_reset_test\<close> leaves for the next client.
\<close>

section \<open>Stream ids\<close>

text \<open>The id of the \<open>i\<close>-th stream of a test: 1, then 3, 4, 5 and so on.\<close>

definition nth_id :: "nat \<Rightarrow> int" where
  "nth_id i = (if i = 0 then 1 else int i + 2)"

definition numbered :: "test \<Rightarrow> bool" where
  "numbered t \<longleftrightarrow> map stream_id (streams t) = map nth_id [0..<length (streams t)]"

lemma count_up: "foldl (\<lambda>i n. i + 1) (a :: int) xs = a + int (length xs)"
  by (induction xs arbitrary: a) auto

lemma add_stream_numbered:
  "numbered t \<Longrightarrow> numbered (iperf_add_stream sp t)"
  "length (streams (iperf_add_stream sp t)) = Suc (length (streams t))"
  by (auto simp: numbered_def iperf_add_stream_def Let_def count_up nth_id_def)

definition add_streams :: "stream list \<Rightarrow> test \<Rightarrow> test" where
  "add_streams sps t = foldl (\<lambda>t sp. iperf_add_stream sp t) t sps"

lemma add_streams_numbered:
  "numbered t \<Longrightarrow> numbered (add_streams sps t) \<and> length (streams (add_streams sps t)) = length (streams t) + length sps"
  unfolding add_streams_def
  by (induction sps arbitrary: t) (simp_all add: add_stream_numbered)

lemma numbered_distinct:
  assumes "numbered t"
  shows "distinct (map stream_id (streams t))"
proof -
  have "inj_on nth_id A" for A
    by (auto simp: inj_on_def nth_id_def split: if_splits)
  then show ?thesis using assms by (simp add: numbered_def distinct_map)
qed

section \<open>What a reset keeps\<close>

text \<open>Fields that \<open>iperf_reset_test\<close> does not touch, whatever they are.\<close>

definition kept :: "test \<Rightarrow> test \<Rightarrow> bool" where
  "kept t0 t \<longleftrightarrow> multipath t = multipath t0 \<and> congestion t = congestion t0
     \<and> get_server_output t = get_server_output t0 \<and> repeating_payload t = repeating_payload t0
     \<and> protocols t = protocols t0
     \<and> s_bytes (settings t) = s_bytes (settings t0) \<and> s_blocks (settings t) = s_blocks (settings t0)
     \<and> fqrate (settings t) = fqrate (settings t0) \<and> flowlabel (settings t) = flowlabel (settings t0)
     \<and> pacing_timer (settings t) = pacing_timer (settings t0)"

text \<open>What it sets.\<close>

definition cleared :: "test \<Rightarrow> bool" where
  "cleared t \<longleftrightarrow> streams t = [] \<and> ctrl_sck t = -1 \<and> prot_listener t = -1 \<and> test_role t = CHR ''s''
     \<and> mode t = RECEIVER \<and> \<not> test_done t \<and> test_state t = 0 \<and> num_streams t = 1
     \<and> server_affinity t = -1 \<and> \<not> no_delay t \<and> \<not> reverse t \<and> \<not> bidirectional t
     \<and> title t = None \<and> extra_data t = None \<and> \<not> udp_counters_64bit t
     \<and> omit t = 0 \<and> duration t = 10 \<and> read_set t = {} \<and> write_set t = {}
     \<and> omit_timer t = None \<and> test_timer t = None \<and> stats_timer t = None \<and> reporter_timer t = None
     \<and> t_bytes_sent t = 0 \<and> t_bytes_received t = 0 \<and> \<not> bitrate_limit_exceeded t
     \<and> cookie t = replicate COOKIE_SIZE 0
     \<and> (let s = settings t in mss s = 0 \<and> socket_bufsize s = 0 \<and> rate s = 0 \<and> burst s = 0 \<and> tos s = 0
          \<and> dont_fragment s = 0 \<and> blksize s = DEFAULT_TCP_BLKSIZE \<and> authtoken s = None)"

lemma free_stream_data:
  assumes "\<And>t c r. J (after c r t) = J t" "\<And>t x. J (t\<lparr>tm := x\<rparr>) = J t"
  shows "preserves J (iperf_free_stream sp)"
  unfolding iperf_free_stream_def
  by (intro preserves_bind inv_rules preserves_call preserves_modify) (simp_all add: assms)

lemma free_streams_data:
  assumes "\<And>t c r. J (after c r t) = J t" "\<And>t x. J (t\<lparr>tm := x\<rparr>) = J t" "\<And>t x. J (t\<lparr>streams := x\<rparr>) = J t"
  shows "preserves J free_streams"
  unfolding free_streams_def
  by (intro preserves_gets preserves_bind inv_rules preserves_modify free_stream_data) (simp_all add: assms)

lemma kept_simps:
  "kept t0 (after c r t) = kept t0 t" "kept t0 (t\<lparr>tm := x\<rparr>) = kept t0 t" "kept t0 (t\<lparr>streams := y\<rparr>) = kept t0 t"
  by (simp_all add: kept_def after_def)

lemma reset_fields_spec:
  "kept t0 t \<Longrightarrow> kept t0 (reset_fields (cancel_test_timers t))"
  "Ptcp \<in> set (protocols t) \<Longrightarrow> protocol (reset_fields (cancel_test_timers t)) = Ptcp"
  "cleared (reset_fields (cancel_test_timers t))"
proof -
  have shape: "\<exists>i q h. snd (set_protocol p u) = u\<lparr>i_errno := i, protocol := q, sender_has_retransmits := h\<rparr>" for p u
  proof (cases "find (\<lambda>x. x = p) (protocols u)")
    case None
    then have "snd (set_protocol p u) = u\<lparr>i_errno := IEPROTOCOL, protocol := protocol u,
        sender_has_retransmits := sender_has_retransmits u\<rparr>" by (simp add: set_protocol_def)
    then show ?thesis by blast
  next
    case (Some x)
    have "check_sender_has_retransmits v = v\<lparr>sender_has_retransmits := sender_has_retransmits (check_sender_has_retransmits v)\<rparr>" for v
      by (simp add: check_sender_has_retransmits_def)
    note v = this [of "u\<lparr>protocol := x\<rparr>"]
    show ?thesis
      by (rule exI [of _ "i_errno u"], rule exI [of _ x],
          rule exI [of _ "sender_has_retransmits (check_sender_has_retransmits (u\<lparr>protocol := x\<rparr>))"])
        (use v Some in \<open>simp add: set_protocol_def\<close>)
  qed
  let ?u = "(cancel_test_timers t)\<lparr>test_done := False, streams := [], remote_congestion_used := None,
        test_role := CHR ''s'', mode := RECEIVER, sender_has_retransmits := 0\<rparr>"
  obtain i q h where s: "snd (set_protocol Ptcp ?u) = ?u\<lparr>i_errno := i, protocol := q, sender_has_retransmits := h\<rparr>"
    using shape by blast
  show "kept t0 t \<Longrightarrow> kept t0 (reset_fields (cancel_test_timers t))"
    unfolding reset_fields_def Let_def s by (simp add: kept_def cancel_test_timers_def reset_settings_def)
  show "cleared (reset_fields (cancel_test_timers t))"
    unfolding reset_fields_def Let_def s by (simp add: cleared_def cancel_test_timers_def reset_settings_def Let_def)
  show "Ptcp \<in> set (protocols t) \<Longrightarrow> protocol (reset_fields (cancel_test_timers t)) = Ptcp"
    unfolding reset_fields_def Let_def
    by (auto simp: set_protocol_def check_sender_has_retransmits_def cancel_test_timers_def
        find_None_iff find_Some_iff split: option.split)
qed

lemma reset_keeps: "wp iperf_reset_test (\<lambda>u t'. kept t t' \<and> cleared t') t"
proof -
  have "wp free_streams (\<lambda>u. kept t) t"
    using free_streams_data [of "kept t"] by (simp add: preserves_def kept_simps) (simp add: kept_def)
  then show ?thesis
    unfolding iperf_reset_test_def wp_bind wp_modify
    by (rule wp_mono) (simp add: reset_fields_spec)
qed

text \<open>No parameters switch the multipath flag off.\<close>

lemma unpack_params_multipath:
  assumes "unpack_params (JObject ms) t = Some t'" "multipath t"
  shows "multipath t'"
proof -
  have hit: "multipath (when_member (JObject ms) ''multipath'' (\<lambda>v t. t\<lparr>multipath := True\<rparr>) u)" if "multipath u" for u
    using that by (simp add: when_member_def split: option.split)
  have u: "multipath (unpack_settings (JObject ms) (unpack_test (JObject ms) t))"
    unfolding unpack_settings_keeps unpack_test_def comp_def
    by (rule hit) (simp add: misses set_int_def set_u64_def assms(2))
  have str: "multipath u'" if "when_string (JObject ms) k f u = Some u'" "multipath u"
    "\<And>s v. multipath (f s v) = multipath v" for k f u u'
    using that by (auto simp: when_string_def split: option.splits)
  have strs: "multipath u'" if "unpack_strings (JObject ms) u = Some u'" "multipath u" for u u'
  proof -
    from that(1) obtain a b c where abc:
      "when_string (JObject ms) ''title'' (\<lambda>s t. t\<lparr>title := Some s\<rparr>) u = Some a"
      "when_string (JObject ms) ''extra_data'' (\<lambda>s t. t\<lparr>extra_data := Some s\<rparr>) a = Some b"
      "when_string (JObject ms) ''congestion'' (\<lambda>s t. t\<lparr>congestion := Some s\<rparr>) b = Some c"
      "when_string (JObject ms) ''congestion_used'' (\<lambda>s t. t\<lparr>congestion_used := Some s\<rparr>) c = Some u'"
      unfolding unpack_strings_def bind_eq_Some_conv by blast
    show ?thesis
      using str [OF abc(4)] str [OF abc(3)] str [OF abc(2)] str [OF abc(1)] that(2) by simp
  qed
  from assms(1) obtain t1 t2 where t12:
    "unpack_strings (JObject ms) (unpack_settings (JObject ms) (unpack_test (JObject ms) t)) = Some t1"
    "when_string (JObject ms) ''authtoken'' (\<lambda>s. set_settings (\<lambda>st. st\<lparr>authtoken := Some s\<rparr>)) (unpack_flags (JObject ms) t1) = Some t2"
    "t' = (if mode t2 \<noteq> RECEIVER \<and> protocol t2 = Ptcp \<and> has_tcpinfo_retransmits then t2\<lparr>sender_has_retransmits := 1\<rparr> else t2)"
    unfolding unpack_params_def bind_eq_Some_conv by auto
  show ?thesis
    using strs [OF t12(1) u] str [OF t12(2)] t12(3) by (simp add: unpack_flags_keeps)
qed

end
