(* ===== verification/Server.thy ===== *)
theory Server
  imports Messages Lifecycle
begin

text \<open>
  The server's side of the control connection, \<open>iperf/src/iperf_server_api.c\<close>: listening,
  accepting a client, its messages, accepting the streams, the main loop, cleaning up.
\<close>

section \<open>Listening and accepting a client\<close>

text \<open>\<open>iperf_server_listen\<close>. The jump back happens once: the second time the domain is \<open>AF_INET\<close>.\<close>

definition control_listener :: "(test, int) state" where
  "control_listener = do {
     l \<leftarrow> announce Ptcp;
     modify (\<lambda>t. t\<lparr>listener := l\<rparr>);
     State_Monad.return l }"

definition start_listening :: "(test, int) state" where
  "start_listening = do {
     modify (\<lambda>t. t\<lparr>read_set := {listener t}, write_set := {}, max_fd := max (max_fd t) (listener t)\<rparr>);
     State_Monad.return 0 }"

definition iperf_server_listen :: "(test, int) state" where
  "iperf_server_listen = do {
     l \<leftarrow> control_listener;
     if l \<ge> 0 then start_listening else do {
       en \<leftarrow> get_errno;
       dom \<leftarrow> gets (\<lambda>t. s_domain (settings t));
       if en = EAFNOSUPPORT \<and> (dom = AF_INET6 \<or> dom = AF_UNSPEC) then do {
         modify (set_settings (\<lambda>s. s\<lparr>s_domain := AF_INET\<rparr>));
         l2 \<leftarrow> control_listener;
         if l2 < 0 then fail IELISTEN else start_listening }
       else fail IELISTEN } }"

text \<open>\<open>iperf_accept\<close>: the first client gets the control connection, everybody else is turned away.\<close>

definition receive_cookie :: "(test, unit step) state" where
  "receive_cookie = do {
     fd \<leftarrow> gets ctrl_sck;
     got \<leftarrow> nread fd COOKIE_SIZE;
     modify (\<lambda>t. t\<lparr>cookie := put_header (snd got) (cookie t)\<rparr>);
     if fst got < 0 then refuse IERECVCOOKIE else State_Monad.return (Go ()) }"

definition accept_client :: "env \<Rightarrow> int \<Rightarrow> (test, outcome) state" where
  "accept_client e s = do {
     modify (\<lambda>t. t\<lparr>ctrl_sck := s\<rparr>);
     o1 \<leftarrow> call (Setsockopt s TCP_NODELAY 1);
     if rv o1 \<noteq> 0 then do { r \<leftarrow> fail IESETNODELAY; State_Monad.return (Ret r) } else
     finish (seq receive_cookie (\<lambda>_. do {
       watch_read s;
       seq (attempt (lift (iperf_set_send_state PARAM_EXCHANGE))) (\<lambda>_.
       seq (attempt (iperf_exchange_parameters e)) (\<lambda>_. do {
         aff \<leftarrow> gets server_affinity;
         r \<leftarrow> (if aff \<noteq> -1 then iperf_setaffinity aff else State_Monad.return 0);
         if r \<noteq> 0 then State_Monad.return (Stop (Ret (-1))) else do {
           iperf_on_connect;
           State_Monad.return (Go ()) } })) })) }"

definition turn_away :: "int \<Rightarrow> (test, outcome) state" where
  "turn_away s = do {
     w \<leftarrow> nwrite s [word_of_int ACCESS_DENIED];
     c \<leftarrow> call (Close s);
     State_Monad.return (Ret 0) }"

definition iperf_accept :: "env \<Rightarrow> (test, outcome) state" where
  "iperf_accept e = do {
     l \<leftarrow> gets listener;
     s \<leftarrow> call (Accept l);
     if rv s < 0 then do { r \<leftarrow> fail IEACCEPT; State_Monad.return (Ret r) } else do {
       busy \<leftarrow> gets ctrl_sck;
       if busy = -1 then accept_client e (rv s) else turn_away (rv s) } }"

section \<open>Messages of the client\<close>

definition forget_fd :: "int \<Rightarrow> test \<Rightarrow> test" where
  "forget_fd fd t = t\<lparr>read_set := read_set t - {fd}, write_set := write_set t - {fd}\<rparr>"

definition close_streams :: "(test, unit) state" where
  "close_streams = do {
     sps \<leftarrow> gets streams;
     for_each sps (\<lambda>sp. do {
       modify (forget_fd (stream_socket sp));
       c \<leftarrow> call (Close (stream_socket sp));
       State_Monad.return () }) }"

text \<open>\<open>TEST_END\<close>: the last statistics, the sockets closed, the results exchanged.\<close>

definition test_ended :: "env \<Rightarrow> (test, outcome) state" where
  "test_ended e = do {
     modify (\<lambda>t. t\<lparr>test_done := True\<rparr>);
     cpu_util_read;
     finish (seq (stats_or_die e) (\<lambda>_. do {
       close_streams;
       seq (attempt (lift (iperf_set_send_state EXCHANGE_RESULTS))) (\<lambda>_.
       seq (attempt (iperf_exchange_results e)) (\<lambda>_.
       attempt (lift (iperf_set_send_state DISPLAY_RESULTS)))) })) }"

definition client_terminated :: "(test, outcome) state" where
  "client_terminated = do {
     set_i_errno IECLIENTTERM;
     cpu_util_read;
     close_streams;
     modify (\<lambda>t. t\<lparr>test_state := IPERF_DONE\<rparr>);
     State_Monad.return (Ret 0) }"

definition dispatch_server :: "env \<Rightarrow> int \<Rightarrow> (test, outcome) state" where
  "dispatch_server e st =
     (if st = TEST_START then State_Monad.return (Ret 0)
      else if st = TEST_END then test_ended e
      else if st = IPERF_DONE then State_Monad.return (Ret 0)
      else if st = CLIENT_TERMINATE then client_terminated
      else do { r \<leftarrow> fail IEMESSAGE; State_Monad.return (Ret r) })"

definition iperf_handle_message_server :: "env \<Rightarrow> (test, outcome) state" where
  "iperf_handle_message_server e = do {
     fd \<leftarrow> gets ctrl_sck;
     got \<leftarrow> nread fd 1;
     if fst got \<le> 0 then
       (if fst got = 0 then do {
          set_i_errno IECTRLCLOSE;
          modify (\<lambda>t. t\<lparr>test_state := IPERF_DONE\<rparr>);
          State_Monad.return (Ret 0) }
        else do { r \<leftarrow> fail IERECVMESSAGE; State_Monad.return (Ret r) })
     else do {
       modify (\<lambda>t. t\<lparr>test_state := sint (hd (snd got))\<rparr>);
       dispatch_server e (sint (hd (snd got))) } }"

section \<open>Cleaning up\<close>

definition close_when :: "bool \<Rightarrow> int \<Rightarrow> (test, unit) state" where
  "close_when b fd = (if b then do { c \<leftarrow> call (Close fd); State_Monad.return () } else State_Monad.return ())"

definition close_connections :: "(test, unit) state" where
  "close_connections = do {
     close_streams;
     c \<leftarrow> gets ctrl_sck;
     close_when (c \<noteq> 0) c;
     l \<leftarrow> gets listener;
     close_when (l \<noteq> 0) l;
     p \<leftarrow> gets prot_listener;
     close_when (p > -1) p }"

definition stop_timers :: "test \<Rightarrow> test" where
  "stop_timers t = t\<lparr>tm := cancel_opt (test_timer t) (cancel_opt (omit_timer t) (cancel_opt (reporter_timer t)
       (cancel_opt (stats_timer t) (tm t)))),
     stats_timer := None, reporter_timer := None, omit_timer := None, congestion_used := None, test_timer := None\<rparr>"

definition cleanup_server :: "(test, unit) state" where
  "cleanup_server = do { close_connections; modify stop_timers }"

text \<open>\<open>if (f() < 0) \<open>{\<close> cleanup_server(test); return -1; \<open>}\<close>\<close>, and the same with an error code.\<close>

definition guarded :: "(test, outcome) state \<Rightarrow> (test, int step) state" where
  "guarded m = do {
     r \<leftarrow> m;
     (case r of Crash \<Rightarrow> State_Monad.return (Stop Crash)
      | Ret n \<Rightarrow> if n < 0 then do { cleanup_server; State_Monad.return (Stop (Ret (-1))) }
          else State_Monad.return (Go n)) }"

definition give_up :: "int \<Rightarrow> (test, 'a step) state" where
  "give_up code = do { cleanup_server; set_i_errno code; State_Monad.return (Stop (Ret (-1))) }"

section \<open>Accepting the streams\<close>

text \<open>
  The variables of \<open>iperf_run_server\<close> that live across iterations. \<open>accept_flag\<close> is set by
  no statement before the first stream is accepted.
\<close>

record server_run =
  last_receive :: iperf_time
  send_accepted :: int
  rec_accepted :: int
  to_send :: int
  to_rec :: int
  accept_flag :: int

definition set_stream_numbers :: "test \<Rightarrow> server_run \<Rightarrow> server_run" where
  "set_stream_numbers t r = (case mode t of
     BIDIRECTIONAL \<Rightarrow> r\<lparr>to_send := num_streams t, to_rec := num_streams t\<rparr>
   | RECEIVER \<Rightarrow> r\<lparr>to_rec := num_streams t, to_send := 0\<rparr>
   | SENDER \<Rightarrow> r\<lparr>to_send := num_streams t, to_rec := 0\<rparr>)"

definition count_stream :: "server_run \<Rightarrow> server_run" where
  "count_stream r =
     (if rec_accepted r \<noteq> to_rec r then r\<lparr>accept_flag := 0, rec_accepted := rec_accepted r + 1\<rparr>
      else if send_accepted r \<noteq> to_send r then r\<lparr>accept_flag := 1, send_accepted := send_accepted r + 1\<rparr>
      else r)"

definition abort_congestion :: "int \<Rightarrow> (test, unit step) state" where
  "abort_congestion s = do {
     saved \<leftarrow> get_errno;
     c \<leftarrow> call (Close s);
     cleanup_server;
     set_errno saved;
     set_i_errno IESETCONGESTION;
     State_Monad.return (Stop (Ret (-1))) }"

definition read_congestion :: "int \<Rightarrow> (test, unit step) state" where
  "read_congestion s = do {
     want \<leftarrow> gets congestion;
     g \<leftarrow> call (Getcongestion s);
     if rv g < 0 \<and> want \<noteq> None then abort_congestion s else do {
       modify (\<lambda>t. t\<lparr>congestion_used := Some (if rv g < 0 then ''unknown'' else rname g)\<rparr>);
       State_Monad.return (Go ()) } }"

definition server_congestion :: "int \<Rightarrow> (test, unit step) state" where
  "server_congestion s = do {
     p \<leftarrow> gets protocol;
     if p = Ptcp then do {
       want \<leftarrow> gets congestion;
       (case want of None \<Rightarrow> read_congestion s
        | Some name \<Rightarrow> do {
            r \<leftarrow> call (Setcongestion s name);
            en \<leftarrow> get_errno;
            if rv r < 0 \<and> en \<noteq> ENOENT then abort_congestion s else read_congestion s }) }
     else State_Monad.return (Go ()) }"

definition add_accepted :: "int \<Rightarrow> server_run \<Rightarrow> (test, server_run step) state" where
  "add_accepted s r =
     (if accept_flag r = -1 then State_Monad.return (Go r) else do {
        sp \<leftarrow> iperf_new_stream s (accept_flag r \<noteq> 0);
        (case sp of None \<Rightarrow> do { cleanup_server; State_Monad.return (Stop (Ret (-1))) }
         | Some x \<Rightarrow> do {
             modify (\<lambda>t. if is_sender x then t\<lparr>write_set := insert s (write_set t)\<rparr>
               else t\<lparr>read_set := insert s (read_set t)\<rparr>);
             modify (\<lambda>t. t\<lparr>max_fd := max (max_fd t) s\<rparr>);
             p \<leftarrow> gets protocol;
             n \<leftarrow> (if p \<noteq> Pudp \<or> \<not> is_sender x then setnonblocking s True else State_Monad.return 0);
             connect_msg x;
             State_Monad.return (Go (r\<lparr>accept_flag := -1\<rparr>)) }) })"

definition proto_accept :: "env \<Rightarrow> (test, int) state" where
  "proto_accept e = do { p \<leftarrow> gets protocol; if p = Pudp then iperf_udp_accept else iperf_tcp_accept (e_junk e) }"

definition accept_stream :: "env \<Rightarrow> server_run \<Rightarrow> (test, server_run step) state" where
  "accept_stream e r = seq (guarded (lift (proto_accept e))) (\<lambda>s. do {
     closed \<leftarrow> is_closed s;
     if closed then State_Monad.return (Go r)
     else seq (server_congestion s) (\<lambda>_. add_accepted s (count_stream r)) })"

text \<open>All streams are there: a new listener if the old one had options of its own, the rate limit, the start.\<close>

definition renew_listener :: "(test, unit step) state" where
  "renew_listener = do {
     p \<leftarrow> gets protocol;
     pl \<leftarrow> gets prot_listener;
     own \<leftarrow> gets (\<lambda>t. no_delay t \<or> mss (settings t) \<noteq> 0 \<or> socket_bufsize (settings t) \<noteq> 0);
     if p \<noteq> Ptcp then do {
       modify (\<lambda>t. t\<lparr>read_set := read_set t - {pl}\<rparr>);
       c \<leftarrow> call (Close pl);
       State_Monad.return (Go ()) }
     else if own then do {
       l \<leftarrow> gets listener;
       modify (\<lambda>t. t\<lparr>read_set := read_set t - {l}\<rparr>);
       c \<leftarrow> call (Close l);
       modify (\<lambda>t. t\<lparr>listener := 0\<rparr>);
       s \<leftarrow> announce Ptcp;
       if s < 0 then give_up IELISTEN else do {
         modify (\<lambda>t. t\<lparr>listener := s\<rparr>);
         watch_read s;
         State_Monad.return (Go ()) } }
     else State_Monad.return (Go ()) }"

definition requested_rate :: "test \<Rightarrow> u64" where
  "requested_rate t = word_of_int (num_streams t) * rate (settings t) * (if mode t = BIDIRECTIONAL then 2 else 1)"

definition start_test :: "env \<Rightarrow> (test, unit step) state" where
  "start_test e = seq renew_listener (\<lambda>_. do {
     modify (\<lambda>t. t\<lparr>prot_listener := -1\<rparr>);
     over \<leftarrow> gets (\<lambda>t. bitrate_limit (settings t) > 0 \<and> requested_rate t > bitrate_limit (settings t));
     if over then give_up IETOTALRATE else do {
       cpu_util_start;
       seq (guarded (lift (iperf_set_send_state TEST_START))) (\<lambda>_.
       seq (guarded (lift iperf_init_test)) (\<lambda>_.
       seq (guarded (lift (create_server_timers (e_malloc e)))) (\<lambda>_.
       seq (guarded (lift (create_server_omit_timer (e_malloc e)))) (\<lambda>_. do {
         m \<leftarrow> gets mode;
         seq (if m \<noteq> RECEIVER then guarded (lift (iperf_create_send_timers (e_malloc e)))
              else State_Monad.return (Go 0)) (\<lambda>_.
         seq (guarded (lift (iperf_set_send_state TEST_RUNNING))) (\<lambda>_. State_Monad.return (Go ()))) })))) } })"

definition create_phase :: "env \<Rightarrow> int set \<Rightarrow> server_run \<Rightarrow> (test, (server_run \<times> int set) step) state" where
  "create_phase e rset r = do {
     pl \<leftarrow> gets prot_listener;
     seq (if pl \<in> rset then accept_stream e r else State_Monad.return (Go r)) (\<lambda>r'. do {
       pl' \<leftarrow> gets prot_listener;
       let rset' = (if pl \<in> rset then rset - {pl'} else rset);
       if rec_accepted r' = to_rec r' \<and> send_accepted r' = to_send r'
       then seq (start_test e) (\<lambda>_. State_Monad.return (Go (r', rset')))
       else State_Monad.return (Go (r', rset')) }) }"

section \<open>One turn of the main loop\<close>

definition move_data :: "env \<Rightarrow> int set \<Rightarrow> int set \<Rightarrow> (test, unit step) state" where
  "move_data e rset wset = do {
     m \<leftarrow> gets mode;
     let recv = do { x \<leftarrow> iperf_recv rset; State_Monad.return (fst x) };
     let send = do { x \<leftarrow> iperf_send (e_undef e) (Some wset); State_Monad.return (fst x) };
     (case m of
        BIDIRECTIONAL \<Rightarrow> seq (guarded (lift recv)) (\<lambda>_. seq (guarded (lift send)) (\<lambda>_. State_Monad.return (Go ())))
      | SENDER \<Rightarrow> seq (guarded (lift send)) (\<lambda>_. State_Monad.return (Go ()))
      | RECEIVER \<Rightarrow> seq (guarded (lift recv)) (\<lambda>_. State_Monad.return (Go ()))) }"

text \<open>The timeout of \<open>select\<close>: an idle server may restart, one that receives must hear something.\<close>

definition server_timeout :: "int \<Rightarrow> (nat \<times> nat) option \<Rightarrow> test \<Rightarrow> (nat \<times> nat) option" where
  "server_timeout limit timeout t =
     (if test_state t = IPERF_START then
        (if timeout = None \<and> idle_timeout (settings t) > 0 then Some (nat (idle_timeout (settings t)), 0) else timeout)
      else if mode t \<noteq> SENDER then Some (capped_timeout t limit timeout)
      else timeout)"

definition nothing_came :: "int \<Rightarrow> server_run \<Rightarrow> (test, unit step) state" where
  "nothing_came limit r = do {
     g \<leftarrow> call Gettime;
     idle \<leftarrow> gets (\<lambda>t. test_state t = IPERF_START);
     rest \<leftarrow> gets (\<lambda>t. idle_timeout (settings t));
     m \<leftarrow> gets mode;
     (case since (rtime g) (last_receive r) of
        None \<Rightarrow> State_Monad.return (Go ())
      | Some us \<Rightarrow>
          if idle then
            (if rest > 0 \<and> us \<ge> rest * SEC_TO_US then do { cleanup_server; State_Monad.return (Stop (Ret 2)) }
             else State_Monad.return (Go ()))
          else if m \<noteq> SENDER \<and> us > limit then do {
            set_i_errno IENOMSG;
            cleanup_server;
            State_Monad.return (Stop (Ret (-1))) }
          else State_Monad.return (Go ())) }"

definition client_events :: "env \<Rightarrow> int set \<Rightarrow> server_run \<Rightarrow> (test, (server_run \<times> int set) step) state" where
  "client_events e rset r = do {
     l \<leftarrow> gets listener;
     st \<leftarrow> gets test_state;
     if l \<in> rset \<and> st \<noteq> CREATE_STREAMS then
       seq (guarded (iperf_accept e)) (\<lambda>_. do {
         l' \<leftarrow> gets listener;
         r' \<leftarrow> gets (\<lambda>t. set_stream_numbers t r);
         State_Monad.return (Go (r', rset - {l'})) })
     else State_Monad.return (Go (r, rset)) }"

definition control_events :: "env \<Rightarrow> int set \<Rightarrow> (test, int set step) state" where
  "control_events e rset = do {
     c \<leftarrow> gets ctrl_sck;
     if c \<in> rset then seq (guarded (iperf_handle_message_server e)) (\<lambda>_. do {
       c' \<leftarrow> gets ctrl_sck;
       State_Monad.return (Go (rset - {c'})) })
     else State_Monad.return (Go rset) }"

definition handle_events :: "env \<Rightarrow> ready \<Rightarrow> server_run \<Rightarrow> (test, server_run step) state" where
  "handle_events e rd r0 = do {
     g \<leftarrow> call Gettime;
     seq (client_events e (sel_read rd) (r0\<lparr>last_receive := rtime g\<rparr>)) (\<lambda>(r1, rs1).
     seq (control_events e rs1) (\<lambda>rs2. do {
       st \<leftarrow> gets test_state;
       seq (if st = CREATE_STREAMS then create_phase e rs2 r1 else State_Monad.return (Go (r1, rs2))) (\<lambda>(r2, rs3). do {
         st2 \<leftarrow> gets test_state;
         seq (if st2 = TEST_RUNNING then move_data e rs3 (sel_write rd) else State_Monad.return (Go ())) (\<lambda>_.
         State_Monad.return (Go r2)) }) })) }"

definition server_turn :: "env \<Rightarrow> int \<Rightarrow> server_run \<Rightarrow> (test, server_run step) state" where
  "server_turn e limit r = do {
     over \<leftarrow> gets bitrate_limit_exceeded;
     if over then give_up IETOTALRATE else do {
       g \<leftarrow> call Gettime;
       timeout \<leftarrow> gets (\<lambda>t. server_timeout limit (tmr_timeout (tm t) (rtime g) (Some (rtime g))) t);
       rd \<leftarrow> wait_ready timeout;
       en \<leftarrow> get_errno;
       if sel_result rd < 0 \<and> en \<noteq> EINTR then give_up IESELECT
       else seq (if sel_result rd = 0 then nothing_came limit r else State_Monad.return (Go ())) (\<lambda>_.
         seq (if sel_result rd > 0 then handle_events e rd r else State_Monad.return (Go r)) (\<lambda>r'.
         seq (if sel_result rd = 0 \<or> sel_expired rd then run_due_timers e else State_Monad.return (Go ())) (\<lambda>_.
         State_Monad.return (Go r')))) } }"

text \<open>The loop; \<open>None\<close> if it never ends.\<close>

partial_function (option) server_loop :: "env \<Rightarrow> int \<Rightarrow> server_run \<Rightarrow> test \<Rightarrow> (unit step \<times> test) option" where
  "server_loop e limit r t =
     (if test_state t = IPERF_DONE then Some (Go (), t)
      else (case run_state (server_turn e limit r) t of
          (Stop x, t') \<Rightarrow> Some (Stop x, t')
        | (Go r', t') \<Rightarrow> server_loop e limit r' t'))"

definition server_setup :: "(test, iperf_time step) state" where
  "server_setup = seq (prepare (-2)) (\<lambda>_. do {
     l \<leftarrow> iperf_server_listen;
     if l < 0 then State_Monad.return (Stop (Ret (-2))) else do {
       g \<leftarrow> call Gettime;
       modify (\<lambda>t. t\<lparr>test_state := IPERF_START\<rparr>);
       State_Monad.return (Go (rtime g)) } })"

definition server_end :: "(test, outcome) state" where
  "server_end = do {
     cleanup_server;
     js \<leftarrow> gets json_output;
     j \<leftarrow> (if js then iperf_json_finish else State_Monad.return 0);
     if j < 0 then State_Monad.return (Ret (-1)) else do {
       aff \<leftarrow> gets server_affinity;
       r \<leftarrow> (if aff \<noteq> -1 then iperf_clearaffinity else State_Monad.return 0);
       State_Monad.return (Ret (if r \<noteq> 0 then -1 else 0)) } }"

definition iperf_run_server :: "env \<Rightarrow> int \<Rightarrow> test \<Rightarrow> (outcome \<times> test) option" where
  "iperf_run_server e stale t = (case run_state server_setup t of
     (Stop x, t1) \<Rightarrow> Some (x, t1)
   | (Go start, t1) \<Rightarrow>
       (case server_loop e (rcv_timeout_us t1) \<lparr>last_receive = start, send_accepted = 0, rec_accepted = 0,
            to_send = 0, to_rec = 0, accept_flag = stale\<rparr> t1 of
          None \<Rightarrow> None
        | Some (Stop x, t2) \<Rightarrow> Some (x, t2)
        | Some (Go u, t2) \<Rightarrow> Some (run_state server_end t2)))"

end
