(* ===== verification/Client.thy ===== *)
theory Client
  imports Messages Lifecycle
begin

text \<open>
  The client's side of the control connection, \<open>iperf/src/iperf_client_api.c\<close>: connecting,
  creating the streams, the server's messages, the main loop.
\<close>

section \<open>Connecting\<close>

text \<open>\<open>iperf_connect\<close>; the MSS of the control connection decides the default block size of UDP.\<close>

definition open_control :: "(test, int) state" where
  "open_control = do {
     fd \<leftarrow> gets ctrl_sck;
     if fd < 0 then do {
       dom \<leftarrow> gets (\<lambda>t. s_domain (settings t));
       addr \<leftarrow> gets bind_address;
       dev \<leftarrow> gets bind_dev;
       host \<leftarrow> gets (\<lambda>t. case server_hostname t of Some h \<Rightarrow> h | None \<Rightarrow> '''');
       port \<leftarrow> gets server_port;
       tmo \<leftarrow> gets (\<lambda>t. connect_timeout (settings t));
       s \<leftarrow> netdial dom Ptcp addr dev 0 host port tmo;
       modify (\<lambda>t. t\<lparr>ctrl_sck := s\<rparr>);
       State_Monad.return s }
     else State_Monad.return fd }"

definition control_mss :: "int \<Rightarrow> (test, unit) state" where
  "control_mss fd = do {
     o2 \<leftarrow> call (Getsockopt fd TCP_MAXSEG);
     modify (\<lambda>t. t\<lparr>ctrl_sck_mss := (if rv o2 < 0 then 0
       else if rval o2 > 0 \<and> rval o2 \<le> MAX_UDP_BLOCKSIZE then rval o2 else 0)\<rparr>) }"

definition default_udp_block :: "test \<Rightarrow> test" where
  "default_udp_block t =
     (if protocol t = Pudp \<and> blksize (settings t) = 0
      then set_settings (\<lambda>s. s\<lparr>blksize := (if ctrl_sck_mss t \<noteq> 0 then ctrl_sck_mss t else DEFAULT_UDP_BLKSIZE)\<rparr>) t
      else t)"

definition iperf_connect :: "(test, int) state" where
  "iperf_connect = do {
     modify (\<lambda>t. t\<lparr>read_set := {}, write_set := {}\<rparr>);
     make_cookie;
     fd \<leftarrow> open_control;
     if fd < 0 then fail IECONNECT else do {
       o1 \<leftarrow> call (Setsockopt fd TCP_NODELAY 1);
       if rv o1 \<noteq> 0 then fail IESETNODELAY else do {
         ck \<leftarrow> gets cookie;
         w \<leftarrow> nwrite fd ck;
         if w < 0 then fail IESENDCOOKIE else do {
           watch_read fd;
           control_mss fd;
           modify default_udp_block;
           State_Monad.return 0 } } } }"

section \<open>Creating the streams\<close>

definition client_abort :: "int \<Rightarrow> (test, int) state" where
  "client_abort s = do {
     saved \<leftarrow> get_errno;
     c \<leftarrow> call (Close s);
     set_errno saved;
     fail IESETCONGESTION }"

definition client_read_congestion :: "int \<Rightarrow> (test, int) state" where
  "client_read_congestion s = do {
     want \<leftarrow> gets congestion;
     g \<leftarrow> call (Getcongestion s);
     if rv g < 0 \<and> want \<noteq> None then client_abort s else do {
       modify (\<lambda>t. t\<lparr>congestion_used := Some (if rv g < 0 then ''unknown'' else rname g)\<rparr>);
       State_Monad.return 0 } }"

definition client_congestion :: "int \<Rightarrow> (test, int) state" where
  "client_congestion s = do {
     p \<leftarrow> gets protocol;
     if p = Ptcp then do {
       want \<leftarrow> gets congestion;
       (case want of None \<Rightarrow> client_read_congestion s
        | Some name \<Rightarrow> do {
            r \<leftarrow> call (Setcongestion s name);
            if rv r < 0 then client_abort s else client_read_congestion s }) }
     else State_Monad.return 0 }"

definition proto_connect :: "(test, int) state" where
  "proto_connect = do { p \<leftarrow> gets protocol; if p = Pudp then iperf_udp_connect else iperf_tcp_connect }"

text \<open>One round of the loop of \<open>iperf_create_streams\<close>, and the loop.\<close>

definition create_stream :: "bool \<Rightarrow> int \<Rightarrow> nat \<Rightarrow> (test, int) state" where
  "create_stream sender orig i = do {
     modify (\<lambda>t. t\<lparr>bind_port := (if orig \<noteq> 0 then orig + int i else orig)\<rparr>);
     s \<leftarrow> proto_connect;
     if s < 0 then State_Monad.return (-1) else do {
       c \<leftarrow> client_congestion s;
       if c < 0 then State_Monad.return (-1) else do {
         modify (\<lambda>t. if sender then t\<lparr>write_set := insert s (write_set t)\<rparr> else t\<lparr>read_set := insert s (read_set t)\<rparr>);
         modify (\<lambda>t. t\<lparr>max_fd := max (max_fd t) s\<rparr>);
         sp \<leftarrow> iperf_new_stream s sender;
         (case sp of None \<Rightarrow> State_Monad.return (-1)
          | Some x \<Rightarrow> do { connect_msg x; State_Monad.return 0 }) } } }"

primrec create_streams_from :: "bool \<Rightarrow> int \<Rightarrow> nat list \<Rightarrow> (test, int) state" where
  "create_streams_from sender orig [] = State_Monad.return 0"
| "create_streams_from sender orig (i # is) = do {
     r \<leftarrow> create_stream sender orig i;
     if r < 0 then State_Monad.return (-1) else create_streams_from sender orig is }"

definition iperf_create_streams :: "bool \<Rightarrow> (test, int) state" where
  "iperf_create_streams sender = do {
     orig \<leftarrow> gets bind_port;
     n \<leftarrow> gets num_streams;
     create_streams_from sender orig [0..<nat n] }"

section \<open>Messages of the server\<close>

text \<open>\<open>iperf_client_end\<close>, which ends the last summary with a word to the server.\<close>

definition iperf_client_end :: "(test, int) state" where
  "iperf_client_end = do {
     sps \<leftarrow> gets streams;
     for_each sps (\<lambda>sp. do { c \<leftarrow> call (Close (stream_socket sp)); State_Monad.return () });
     st \<leftarrow> gets test_state;
     r \<leftarrow> (if st > 0 then iperf_set_send_state IPERF_DONE else State_Monad.return 0);
     if r \<noteq> 0 then State_Monad.return (-1) else do {
       fd \<leftarrow> gets ctrl_sck;
       if fd \<ge> 0 then do { c \<leftarrow> call (Close fd); State_Monad.return 0 } else State_Monad.return 0 } }"

definition streams_wanted :: "(test, outcome) state" where
  "streams_wanted = do {
     m \<leftarrow> gets mode;
     finish (case m of
         BIDIRECTIONAL \<Rightarrow> seq (attempt (lift (iperf_create_streams True))) (\<lambda>_. attempt (lift (iperf_create_streams False)))
       | SENDER \<Rightarrow> attempt (lift (iperf_create_streams True))
       | RECEIVER \<Rightarrow> attempt (lift (iperf_create_streams False))) }"

definition start_wanted :: "env \<Rightarrow> (test, outcome) state" where
  "start_wanted e = finish (
     seq (attempt (lift iperf_init_test)) (\<lambda>_.
     seq (attempt (lift (create_client_timers (e_malloc e)))) (\<lambda>_.
     seq (attempt (lift (create_client_omit_timer (e_malloc e)))) (\<lambda>_. do {
       m \<leftarrow> gets mode;
       if m \<noteq> RECEIVER then attempt (lift (iperf_create_send_timers (e_malloc e)))
       else State_Monad.return (Go 0) }))))"

text \<open>
  \<open>SERVER_ERROR\<close>: two numbers follow, read into the same variable; a short read leaves the
  rest of it as it was.
\<close>

definition read_int32 :: "bytes \<Rightarrow> (test, (bytes \<times> int) step) state" where
  "read_int32 err = do {
     fd \<leftarrow> gets ctrl_sck;
     got \<leftarrow> nread fd 4;
     if fst got < 0 then refuse IECTRLREAD
     else (let err' = put_header (snd got) err
           in State_Monad.return (Go (err', to_int (int (be_value (take 4 err')))))) }"

definition server_error :: "bytes \<Rightarrow> (test, outcome) state" where
  "server_error err = finish (seq (read_int32 err) (\<lambda>(err1, n1). do {
     set_i_errno n1;
     seq (read_int32 err1) (\<lambda>(err2, n2). do {
       set_errno n2;
       State_Monad.return (Stop (Ret (-1)) :: unit step) }) }))"

definition fail_with :: "int \<Rightarrow> (test, outcome) state" where
  "fail_with code = do { r \<leftarrow> fail code; State_Monad.return (Ret r) }"

definition dispatch_client :: "env \<Rightarrow> int \<Rightarrow> (test, outcome) state" where
  "dispatch_client e st =
     (if st = PARAM_EXCHANGE then finish (seq (attempt (iperf_exchange_parameters e)) (\<lambda>_. just iperf_on_connect))
      else if st = CREATE_STREAMS then streams_wanted
      else if st = TEST_START then start_wanted e
      else if st = TEST_RUNNING then State_Monad.return (Ret 0)
      else if st = EXCHANGE_RESULTS then finish (attempt (iperf_exchange_results e))
      else if st = DISPLAY_RESULTS then do { r \<leftarrow> iperf_client_end; State_Monad.return (Ret 0) }
      else if st = IPERF_DONE then State_Monad.return (Ret 0)
      else if st = SERVER_TERMINATE then do { set_i_errno IESERVERTERM; cpu_util_read; State_Monad.return (Ret (-1)) }
      else if st = ACCESS_DENIED then fail_with IEACCESSDENIED
      else if st = SERVER_ERROR then server_error (e_junk e)
      else fail_with IEMESSAGE)"

definition iperf_handle_message_client :: "env \<Rightarrow> (test, outcome) state" where
  "iperf_handle_message_client e = do {
     fd \<leftarrow> gets ctrl_sck;
     got \<leftarrow> sread fd 1;
     if fst got \<le> 0 then fail_with (if fst got = 0 then IECTRLCLOSE else IERECVMESSAGE)
     else do {
       modify (\<lambda>t. t\<lparr>test_state := sint (hd (snd got))\<rparr>);
       dispatch_client e (sint (hd (snd got))) } }"

section \<open>One turn of the main loop\<close>

record client_run =
  startup :: bool
  last_heard :: iperf_time

text \<open>
  How the process goes on: the function returns, or \<open>iperf_errexit\<close> ends the program, or the process is lost
  (\<open>Crash\<close>: a memory error, or a run of the timers that never returns).
\<close>

datatype ending = Returned int | Exited int | Died

text \<open>
  The label \<open>cleanup_and_fail\<close>: \<open>iperf_errexit\<close> does not return, so that the statements behind
  it (closing the connections, finishing the report) are never reached.
\<close>

definition or_exit :: "('s, outcome) state \<Rightarrow> ('s, ending + int) state" where
  "or_exit m = do { r \<leftarrow> m; State_Monad.return
     (case r of Crash \<Rightarrow> Inl Died | Ret n \<Rightarrow> if n < 0 then Inl (Exited 1) else Inr n) }"

definition go_on :: "('s, ending + 'a) state \<Rightarrow> ('a \<Rightarrow> ('s, ending + 'b) state) \<Rightarrow> ('s, ending + 'b) state" where
  "go_on m k = do { r \<leftarrow> m; (case r of Inl x \<Rightarrow> State_Monad.return (Inl x) | Inr a \<Rightarrow> k a) }"

definition set_blocking :: "bool \<Rightarrow> (test, unit) state" where
  "set_blocking nb = do {
     p \<leftarrow> gets protocol;
     if p \<noteq> Pudp then do {
       sps \<leftarrow> gets streams;
       for_each sps (\<lambda>sp. do { r \<leftarrow> setnonblocking (stream_socket sp) nb; State_Monad.return () }) }
     else State_Monad.return () }"

definition client_receive :: "int set \<Rightarrow> (test, outcome) state" where
  "client_receive rset = do { x \<leftarrow> iperf_recv rset; State_Monad.return (Ret (fst x)) }"

definition client_send :: "env \<Rightarrow> int set \<Rightarrow> (test, outcome) state" where
  "client_send e wset = do { x \<leftarrow> iperf_send (e_undef e) (Some wset); State_Monad.return (Ret (fst x)) }"

definition client_data :: "env \<Rightarrow> int set \<Rightarrow> int set \<Rightarrow> (test, ending + int) state" where
  "client_data e rset wset = do {
     m \<leftarrow> gets mode;
     (case m of
        BIDIRECTIONAL \<Rightarrow> go_on (or_exit (client_send e wset)) (\<lambda>_. or_exit (client_receive rset))
      | SENDER \<Rightarrow> or_exit (client_send e wset)
      | RECEIVER \<Rightarrow> or_exit (client_receive rset)) }"

text \<open>The end of the test: by time, bytes or blocks, but not while omitting.\<close>

definition test_over :: "test \<Rightarrow> bool" where
  "test_over t \<longleftrightarrow> \<not> omitting t \<and> (test_done t
     \<or> s_bytes (settings t) \<noteq> 0 \<and> (t_bytes_sent t \<ge> s_bytes (settings t) \<or> t_bytes_received t \<ge> s_bytes (settings t))
     \<or> s_blocks (settings t) \<noteq> 0 \<and> (t_blocks_sent t \<ge> s_blocks (settings t) \<or> t_blocks_received t \<ge> s_blocks (settings t)))"

definition end_test :: "env \<Rightarrow> (test, ending + int) state" where
  "end_test e = do {
     set_blocking False;
     modify (\<lambda>t. t\<lparr>test_done := True\<rparr>);
     cpu_util_read;
     or_exit (finish (seq (stats_or_die e) (\<lambda>_. attempt (lift (iperf_set_send_state TEST_END))))) }"

definition client_running :: "env \<Rightarrow> int set \<Rightarrow> int set \<Rightarrow> client_run \<Rightarrow> (test, ending + client_run) state" where
  "client_running e rset wset r = do {
     (if startup r then set_blocking True else State_Monad.return ());
     go_on (client_data e rset wset) (\<lambda>_. 
     go_on (or_exit (finish (run_due_timers e))) (\<lambda>_. do {
       over \<leftarrow> gets test_over;
       go_on (if over then end_test e else State_Monad.return (Inr 0)) (\<lambda>_.
         State_Monad.return (Inr (r\<lparr>startup := False\<rparr>))) })) }"

definition client_timeout :: "int \<Rightarrow> (nat \<times> nat) option \<Rightarrow> test \<Rightarrow> (nat \<times> nat) option" where
  "client_timeout limit timeout t =
     (if test_state t = TEST_RUNNING \<and> limit > 0 then Some (capped_timeout t limit timeout) else timeout)"

definition silence :: "int \<Rightarrow> client_run \<Rightarrow> (test, ending + int) state" where
  "silence limit r = do {
     g \<leftarrow> call Gettime;
     (case since (rtime g) (last_heard r) of
        None \<Rightarrow> State_Monad.return (Inr 0)
      | Some us \<Rightarrow> if us > limit then or_exit (fail_with IENOMSG) else State_Monad.return (Inr 0)) }"

definition hear_server :: "env \<Rightarrow> int \<Rightarrow> ready \<Rightarrow> client_run \<Rightarrow> (test, ending + (client_run \<times> int set)) state" where
  "hear_server e limit rd r = do {
     r1 \<leftarrow> (if limit > 0 then do { g \<leftarrow> call Gettime; State_Monad.return (r\<lparr>last_heard := rtime g\<rparr>) }
       else State_Monad.return r);
     fd \<leftarrow> gets ctrl_sck;
     if fd \<in> sel_read rd then go_on (or_exit (iperf_handle_message_client e)) (\<lambda>_. do {
       fd' \<leftarrow> gets ctrl_sck;
       State_Monad.return (Inr (r1, sel_read rd - {fd'})) })
     else State_Monad.return (Inr (r1, sel_read rd)) }"

definition client_turn :: "env \<Rightarrow> int \<Rightarrow> client_run \<Rightarrow> (test, ending + client_run) state" where
  "client_turn e limit r = do {
     g \<leftarrow> call Gettime;
     timeout \<leftarrow> gets (\<lambda>t. client_timeout limit (tmr_timeout (tm t) (rtime g) (Some (rtime g))) t);
     rd \<leftarrow> wait_ready timeout;
     en \<leftarrow> get_errno;
     running \<leftarrow> gets (\<lambda>t. test_state t = TEST_RUNNING);
     if sel_result rd < 0 \<and> en \<noteq> EINTR then go_on (or_exit (fail_with IESELECT)) (\<lambda>_. State_Monad.return (Inr r))
     else go_on (if sel_result rd = 0 \<and> running \<and> limit > 0 then silence limit r else State_Monad.return (Inr 0)) (\<lambda>_.
       go_on (if sel_result rd > 0 then hear_server e limit rd r else State_Monad.return (Inr (r, sel_read rd)))
       (\<lambda>(r1, rset). do {
         st \<leftarrow> gets test_state;
         m \<leftarrow> gets mode;
         if st = TEST_RUNNING then client_running e rset (sel_write rd) r1
         else if m = RECEIVER \<and> st = TEST_END then
           go_on (or_exit (client_receive rset)) (\<lambda>_. State_Monad.return (Inr r1))
         else State_Monad.return (Inr r1) })) }"

text \<open>The loop; \<open>None\<close> if it never ends.\<close>

partial_function (option) client_loop :: "env \<Rightarrow> int \<Rightarrow> client_run \<Rightarrow> test \<Rightarrow> (ending option \<times> test) option" where
  "client_loop e limit r t =
     (if test_state t = IPERF_DONE then Some (None, t)
      else (case run_state (client_turn e limit r) t of
          (Inl x, t') \<Rightarrow> Some (Some x, t')
        | (Inr r', t') \<Rightarrow> client_loop e limit r' t'))"

definition client_setup :: "(test, ending + int) state" where
  "client_setup = do {
     p \<leftarrow> prepare (-1);
     (case p of
        Stop Crash \<Rightarrow> State_Monad.return (Inl Died)
      | Stop (Ret n) \<Rightarrow> State_Monad.return (Inl (Returned n))
      | Go u \<Rightarrow> go_on (or_exit (lift iperf_connect)) (\<lambda>_. do {
          cpu_util_start;
          limit \<leftarrow> gets (\<lambda>t. if mode t \<noteq> SENDER then rcv_timeout_us t else 0);
          State_Monad.return (Inr limit) })) }"

definition client_finish :: "(test, int) state" where
  "client_finish = do {
     js \<leftarrow> gets json_output;
     if js then iperf_json_finish else State_Monad.return 0 }"

text \<open>\<open>iperf_run_client\<close>; \<open>stale\<close> is what was on the stack where the last time of reception is kept.\<close>

definition iperf_run_client :: "env \<Rightarrow> iperf_time \<Rightarrow> test \<Rightarrow> (ending \<times> test) option" where
  "iperf_run_client e stale t = (case run_state client_setup t of
     (Inl x, t1) \<Rightarrow> Some (x, t1)
   | (Inr limit, t1) \<Rightarrow>
       (case client_loop e limit \<lparr>startup = True, last_heard = stale\<rparr> t1 of
          None \<Rightarrow> None
        | Some (Some x, t2) \<Rightarrow> Some (x, t2)
        | Some (None, t2) \<Rightarrow> (case run_state client_finish t2 of (n, t3) \<Rightarrow> Some (Returned n, t3))))"

end
