(* ===== verification/Session.thy ===== *)
theory Session
  imports Server Client
begin

text \<open>
  The program around the two main loops: \<open>run\<close> of \<open>iperf/src/main.c\<close>, in which a server serves
  one test after the other, and what a termination signal does. Daemon mode and the PID file
  are left out.
\<close>

definition after_run :: "int \<Rightarrow> test \<Rightarrow> test" where
  "after_run rc t1 =
     (let t2 = t1\<lparr>server_last_run_rc := rc\<rparr>
      in if rc < 0 \<and> json_output t2 then snd (run_state iperf_json_finish t2) else t2)"

definition next_test :: "int \<Rightarrow> test \<Rightarrow> test" where
  "next_test rc t1 = snd (run_state iperf_reset_test (after_run rc t1))"

definition serve_again :: "int \<Rightarrow> test \<Rightarrow> bool" where
  "serve_again rc t \<longleftrightarrow> \<not> one_off t \<or> rc = 2 \<or> (rc < 0 \<and> i_errno t = IEAUTHTEST)"

partial_function (option) serve :: "env \<Rightarrow> int \<Rightarrow> test \<Rightarrow> (ending \<times> test) option" where
  "serve e stale t = (case iperf_run_server e stale t of
     None \<Rightarrow> None
   | Some (r, t1) \<Rightarrow>
       (case r of
          Crash \<Rightarrow> Some (Died, t1)
        | Ret rc \<Rightarrow>
            if rc < -1 then Some (Exited 1, after_run rc t1)
            else if serve_again rc (next_test rc t1) then serve e stale (next_test rc t1)
            else Some (Returned 0, next_test rc t1)))"

text \<open>The states in which a server that was started in \<open>t0\<close> begins its tests.\<close>

inductive begun :: "env \<Rightarrow> int \<Rightarrow> test \<Rightarrow> test \<Rightarrow> bool" for e stale t0 where
  first: "begun e stale t0 t0"
| again: "begun e stale t0 t \<Longrightarrow> iperf_run_server e stale t = Some (Ret rc, t1) \<Longrightarrow> -1 \<le> rc \<Longrightarrow>
    serve_again rc (next_test rc t1) \<Longrightarrow> begun e stale t0 (next_test rc t1)"

definition run_client :: "env \<Rightarrow> iperf_time \<Rightarrow> test \<Rightarrow> (ending \<times> test) option" where
  "run_client e stale t = (case iperf_run_client e stale t of
     None \<Rightarrow> None
   | Some (Returned n, t1) \<Rightarrow> Some (if n < 0 then Exited 1 else Returned 0, t1)
   | Some (x, t1) \<Rightarrow> Some (x, t1))"

definition run :: "env \<Rightarrow> int \<Rightarrow> iperf_time \<Rightarrow> test \<Rightarrow> (ending \<times> test) option" where
  "run e stale_flag stale_time t =
     (if test_role t = CHR ''s'' then serve e stale_flag t
      else if test_role t = CHR ''c'' then run_client e stale_time t
      else Some (Returned 0, t))"

definition iperf_got_sigend :: "env \<Rightarrow> (test, ending) state" where
  "iperf_got_sigend e = do {
     active \<leftarrow> gets (\<lambda>t. test_role t = CHR ''c'' \<or> test_role t = CHR ''s'' \<and> test_state t = TEST_RUNNING);
     ok \<leftarrow> (if active then do {
         modify (\<lambda>t. t\<lparr>test_done := True\<rparr>);
         cpu_util_read;
         r \<leftarrow> iperf_stats_callback (e_undef e);
         modify (\<lambda>t. t\<lparr>test_state := DISPLAY_RESULTS\<rparr>);
         State_Monad.return r }
       else State_Monad.return True);
     if \<not> ok then State_Monad.return Died else do {
       fd \<leftarrow> gets ctrl_sck;
       ro \<leftarrow> gets test_role;
       let word = (if ro = CHR ''c'' then CLIENT_TERMINATE else SERVER_TERMINATE);
       (if fd \<ge> 0 then do {
          modify (\<lambda>t. t\<lparr>test_state := word\<rparr>);
          w \<leftarrow> nwrite fd [word_of_int word];
          State_Monad.return () }
        else State_Monad.return ());
       set_i_errno (if ro = CHR ''c'' then IECLIENTTERM else IESERVERTERM);
       State_Monad.return (Exited 1) } }"

end
