(* ===== verification/Frames.thy ===== *)
theory Frames
  imports Server Client
begin

text \<open>
  What the code leaves alone. A property of the test that does not look at the statistics, the
  streams, the timers, the descriptor sets and the error numbers is kept by everything except
  the code that announces or receives a state, the parameter exchange and the reset. The
  interface is the locale \<open>framed\<close>; the control state of a test (theory \<open>Start\<close>) is an instance.
\<close>

text \<open>A run of the timers keeps what every callback keeps.\<close>

lemma tmr_run_loop_inv:
  assumes "\<And>proc st w st' w'. cb proc now st w = Some (st', w') \<Longrightarrow> I w \<Longrightarrow> I w'"
    and "tmr_run_loop cb now p st w = Some (st', w')" "I w"
  shows "I w'"
proof -
  have "f = cb \<longrightarrow> n = now \<longrightarrow> I w \<longrightarrow> I (snd y)" if "tmr_run_loop f n p st w = Some y" for f n p st w y
    using that
  proof (rule tmr_run_loop.raw_induct [rotated], goal_cases)
    case (1 loop f n p st w y)
    then show ?case using assms(1) by (auto split: option.splits if_splits prod.splits; blast)
  qed
  then show ?thesis using assms(2,3) by force
qed

lemma wp_preserved: "preserves J m \<Longrightarrow> J s \<Longrightarrow> wp m (\<lambda>r. J) s"
  by (simp add: preserves_def)

lemma preserves_mode [inv_rules]:
  "preserves J x \<Longrightarrow> preserves J y \<Longrightarrow> preserves J z \<Longrightarrow>
    preserves J (case m of SENDER \<Rightarrow> x | RECEIVER \<Rightarrow> y | BIDIRECTIONAL \<Rightarrow> z)"
  by (simp split: test_mode.split)

locale framed =
  fixes J :: "test \<Rightarrow> bool"
  assumes after: "\<And>c r t. J t \<Longrightarrow> J (after c r t)"
    and numbers: "\<And>t e. J (t\<lparr>errno := e\<rparr>) = J t" "\<And>t e. J (t\<lparr>i_errno := e\<rparr>) = J t" "\<And>t e. J (t\<lparr>gerror := e\<rparr>) = J t"
    and configured: "\<And>t s. authtoken s = authtoken (settings t) \<Longrightarrow> J (t\<lparr>settings := s\<rparr>) = J t"
    and streams: "\<And>t x. J (t\<lparr>streams := x\<rparr>) = J t"
    and sent: "\<And>t a. J (t\<lparr>t_bytes_sent := a\<rparr>) = J t" "\<And>t a. J (t\<lparr>t_blocks_sent := a\<rparr>) = J t"
    and received: "\<And>t a. J (t\<lparr>t_bytes_received := a\<rparr>) = J t" "\<And>t a. J (t\<lparr>t_blocks_received := a\<rparr>) = J t"
    and timers: "\<And>t x. J (t\<lparr>tm := x\<rparr>) = J t" "\<And>t p. J (t\<lparr>omit_timer := p\<rparr>) = J t" "\<And>t p. J (t\<lparr>test_timer := p\<rparr>) = J t"
      "\<And>t p. J (t\<lparr>stats_timer := p\<rparr>) = J t" "\<And>t p. J (t\<lparr>reporter_timer := p\<rparr>) = J t"
    and phases: "\<And>t b. J (t\<lparr>omitting := b\<rparr>) = J t" "\<And>t b. J (t\<lparr>test_done := b\<rparr>) = J t"
    and limit: "\<And>t n. J (t\<lparr>bitrate_limit_stats_count := n\<rparr>) = J t" "\<And>t xs. J (t\<lparr>bitrate_limit_traffic := xs\<rparr>) = J t"
      "\<And>t n. J (t\<lparr>bitrate_limit_last_index := n\<rparr>) = J t" "\<And>t b. J (t\<lparr>bitrate_limit_exceeded := b\<rparr>) = J t"
    and sets: "\<And>t s. J (t\<lparr>read_set := s\<rparr>) = J t" "\<And>t s. J (t\<lparr>write_set := s\<rparr>) = J t" "\<And>t n. J (t\<lparr>max_fd := n\<rparr>) = J t"
    and listeners: "\<And>t s. J (t\<lparr>listener := s\<rparr>) = J t" "\<And>t s. J (t\<lparr>prot_listener := s\<rparr>) = J t"
    and reports: "\<And>t x. J (t\<lparr>cpu_util := x\<rparr>) = J t" "\<And>t x. J (t\<lparr>remote_cpu_util := x\<rparr>) = J t"
      "\<And>t s. J (t\<lparr>congestion_used := s\<rparr>) = J t" "\<And>t s. J (t\<lparr>remote_congestion_used := s\<rparr>) = J t"
      "\<And>t n. J (t\<lparr>sender_has_retransmits := n\<rparr>) = J t" "\<And>t n. J (t\<lparr>other_side_has_retransmits := n\<rparr>) = J t"
      "\<And>t s. J (t\<lparr>server_output_text := s\<rparr>) = J t" "\<And>t j. J (t\<lparr>json_server_output := j\<rparr>) = J t"
begin

lemmas frame_eqs = numbers configured streams sent received timers phases limit sets listeners reports

lemma calls [inv_rules]: "preserves J (call c)"
  by (rule preserves_call) (simp add: after)

lemma mods [inv_rules]: "(\<And>t. J (f t) = J t) \<Longrightarrow> preserves J (modify f)"
  by (simp add: preserves_modify)

lemma errnos [inv_rules]: "preserves J get_errno" "preserves J (set_errno e)" "preserves J (set_i_errno e)"
  "preserves J (set_gerror e)" "preserves J (fail e)"
  by (simp_all add: preserves_def wp_simps numbers fail_def)

lemma block_moves: "J w \<Longrightarrow> J (snd (snd (Nread fd n w)))" "J w \<Longrightarrow> J (snd (Nwrite fd bs w))"
  "J w \<Longrightarrow> J (snd (Nsendfile a b n w))"
  unfolding Nread_def Nwrite_def Nsendfile_def
  by (rule Nread_loop_inv Nwrite_loop_inv Nsendfile_loop_inv; simp add: after)+

lemma blocks [inv_rules]: "preserves J (nread fd n)" "preserves J (nwrite fd bs)" "preserves J (nsendfile a b n)"
  "preserves J (sread fd n)" "preserves J (swrite fd bs)"
  by (simp_all add: preserves_def wp_iff_run nread_def nwrite_def nsendfile_def sread_def swrite_def after
      sys_read_def sys_write_def Let_def case_prod_unfold block_moves)

lemma send_int: "preserves J (send_int32 n)"
  unfolding send_int32_def by (intro preserves_bind preserves_gets inv_rules)

section \<open>Sockets\<close>

lemma socket_frames [inv_rules]: "preserves J (close_fail s)" "preserves J (setnonblocking fd nb)" "preserves J (getsockdomain fd)"
  "preserves J (timeout_connect s p n)"
  unfolding close_fail_def setnonblocking_def getsockdomain_def timeout_connect_def
  by (intro preserves_bind inv_rules)+

lemma announcing [inv_rules]: "preserves J (netannounce_listen s proto port)"
  "preserves J (netannounce domain proto local dev port)"
proof -
  show 1: "preserves J (netannounce_listen s proto port)" for s proto port
    unfolding netannounce_listen_def by (intro preserves_bind inv_rules)
  show "preserves J (netannounce domain proto local dev port)"
    unfolding netannounce_def by (intro preserves_bind inv_rules 1)
qed

lemma announce_frame [inv_rules]: "preserves J (announce proto)"
  unfolding announce_def by (intro preserves_gets preserves_bind inv_rules)

lemma watching [inv_rules]: "preserves J (watch_read s)"
  unfolding watch_read_def by (intro inv_rules) (simp add: frame_eqs)

lemma udp_frames [inv_rules]: "preserves J (udp_readback s opt)" "preserves J (iperf_udp_buffercheck s)"
  "preserves J (udp_buffers s)"
proof -
  show 1: "preserves J (udp_readback s opt)" for opt
    unfolding udp_readback_def by (intro preserves_gets preserves_bind inv_rules)
  show 2: "preserves J (iperf_udp_buffercheck s)"
    unfolding iperf_udp_buffercheck_def by (intro preserves_gets preserves_bind inv_rules 1)
  show "preserves J (udp_buffers s)"
    unfolding udp_buffers_def by (intro preserves_gets preserves_bind inv_rules 2) (simp add: set_settings_def frame_eqs)
qed

lemma pacing [inv_rules]: "preserves J (fq_pacing s)"
  unfolding fq_pacing_def by (intro preserves_gets preserves_bind inv_rules)

lemma accepting [inv_rules]: "preserves J iperf_udp_accept" "preserves J (iperf_tcp_accept junk)" "preserves J (proto_accept e)"
proof -
  show 1: "preserves J iperf_udp_accept"
    unfolding iperf_udp_accept_def by (intro preserves_gets preserves_bind inv_rules) (simp add: frame_eqs)
  show 2: "preserves J (iperf_tcp_accept junk)" for junk
    unfolding iperf_tcp_accept_def by (intro preserves_gets preserves_bind inv_rules)
  show "preserves J (proto_accept e)"
    unfolding proto_accept_def by (intro preserves_gets inv_rules 1 2)
qed

section \<open>Streams\<close>

lemma stream_options [inv_rules]: "preserves J (readentropy n)" "preserves J (is_closed fd)"
  "preserves J (set_stream_tos sp)" "preserves J (set_stream_df sp)" "preserves J (iperf_init_stream sp)"
  "preserves J (connect_msg sp)"
  unfolding readentropy_def is_closed_def set_stream_tos_def set_stream_df_def iperf_init_stream_def connect_msg_def
  by (intro preserves_gets preserves_bind inv_rules)+

lemma new_stream [inv_rules]: "preserves J (iperf_new_stream s b)"
  unfolding iperf_new_stream_def finish_stream_def open_diskfile_def fill_buffer_def refuse_stream_def
    iperf_add_stream_def
  by (intro preserves_gets preserves_bind inv_rules) (simp add: Let_def frame_eqs)

lemma steps [inv_rules]:
  "preserves J m \<Longrightarrow> (\<And>a. preserves J (k a)) \<Longrightarrow> preserves J (seq m k)"
  "preserves J (State_Monad.return r)"
  by (rule preserves_seq preserves_return; assumption)+

section \<open>Cleaning up\<close>

lemma closing [inv_rules]: "preserves J close_streams" "preserves J (close_when b fd)" "preserves J close_connections"
  "preserves J cleanup_server"
proof -
  show 1: "preserves J close_streams"
    unfolding close_streams_def by (intro preserves_gets preserves_bind inv_rules) (simp add: forget_fd_def frame_eqs)
  show 2: "preserves J (close_when b fd)" for b fd
    unfolding close_when_def by (intro preserves_bind inv_rules)
  show 3: "preserves J close_connections"
    unfolding close_connections_def by (intro preserves_gets preserves_bind inv_rules 1 2)
  show "preserves J cleanup_server"
    unfolding cleanup_server_def by (intro preserves_bind inv_rules 3) (simp add: stop_timers_def frame_eqs)
qed

lemma giving_up [inv_rules]: "preserves J m \<Longrightarrow> preserves J (guarded m)" "preserves J (give_up e)"
  "preserves J (abort_congestion s)"
  unfolding guarded_def give_up_def abort_congestion_def
  by (intro preserves_bind inv_rules; simp)+

lemma congestion_frames [inv_rules]: "preserves J (read_congestion s)" "preserves J (server_congestion s)"
proof -
  show 1: "preserves J (read_congestion s)"
    unfolding read_congestion_def by (intro preserves_gets preserves_bind inv_rules) (simp add: frame_eqs)
  show "preserves J (server_congestion s)"
    unfolding server_congestion_def by (intro preserves_gets preserves_bind inv_rules 1)
qed

lemma accepted [inv_rules]: "preserves J (add_accepted s r)" "preserves J (accept_stream e r)"
proof -
  show 1: "preserves J (add_accepted s r)" for s r
    unfolding add_accepted_def by (intro preserves_gets preserves_bind inv_rules) (simp_all add: frame_eqs)
  show "preserves J (accept_stream e r)"
    unfolding accept_stream_def by (intro preserves_bind inv_rules 1)
qed

lemma renewing [inv_rules]: "preserves J renew_listener"
  unfolding renew_listener_def by (intro preserves_gets preserves_bind inv_rules) (simp_all add: frame_eqs)

section \<open>Traffic\<close>

lemma stream_io [inv_rules]: "preserves J (proto_snd sp)" "preserves J (proto_rcv sp)" "preserves J (diskfile_fill sp)"
  "preserves J (stream_snd sp)" "preserves J (stream_rcv sp)"
proof -
  show 1: "preserves J (proto_snd sp)" for sp
    unfolding proto_snd_def iperf_udp_send_def iperf_tcp_send_def
    by (intro preserves_gets preserves_bind inv_rules)
  show 2: "preserves J (proto_rcv sp)" for sp
    unfolding proto_rcv_def iperf_udp_recv_def iperf_tcp_recv_def
    by (intro preserves_gets preserves_bind inv_rules)
  show 3: "preserves J (diskfile_fill sp)" for sp
    unfolding diskfile_fill_def by (intro preserves_gets preserves_bind inv_rules) (simp add: frame_eqs)
  show "preserves J (stream_snd sp)" "preserves J (stream_rcv sp)"
    unfolding stream_snd_def stream_rcv_def diskfile_send_def diskfile_recv_def
    by (intro preserves_gets preserves_bind inv_rules 1 2 3; simp add: frame_eqs)+
qed

lemma put_throttle: "J (put_stream i sp t) = J t" "J (iperf_check_throttle ub now i t) = J t"
  by (simp_all add: put_stream_def iperf_check_throttle_def Let_def frame_eqs)

lemma receiving [inv_rules]: "preserves J (recv_streams is rset)" "preserves J (iperf_recv rset)"
proof -
  show 1: "preserves J (recv_streams is rset)" for "is" rset
  proof (induction "is" arbitrary: rset)
    case Nil
    then show ?case by (simp add: preserves_return)
  next
    case (Cons i "is")
    then show ?case unfolding recv_streams.simps
      by (intro preserves_gets preserves_bind inv_rules) (simp_all add: frame_eqs put_throttle)
  qed
  show "preserves J (iperf_recv rset)"
    unfolding iperf_recv_def by (intro preserves_gets 1)
qed

lemma sending [inv_rules]: "preserves J (send_streams ub m check now wset is active)" "preserves J (send_rounds ub k check wset)"
  "preserves J (iperf_send ub wset)"
proof -
  show 1: "preserves J (send_streams ub m check now wset is active)" for m check now wset "is" active
  proof (induction "is" arbitrary: active)
    case Nil
    then show ?case by (simp add: preserves_return)
  next
    case (Cons i "is")
    then show ?case unfolding send_streams.simps
      by (intro preserves_gets preserves_bind inv_rules) (simp_all add: frame_eqs put_throttle)
  qed
  show 2: "preserves J (send_rounds ub k check wset)" for k check wset
  proof (induction k)
    case 0
    then show ?case by (simp add: preserves_return)
  next
    case (Suc k)
    have "preserves J (case res of Inl r \<Rightarrow> State_Monad.return r
      | Inr active \<Rightarrow> if active then send_rounds ub k check wset else State_Monad.return 0)" for res :: "int + bool"
      using Suc by (cases res) (simp_all add: preserves_return)
    then show ?case unfolding send_rounds.simps
      by (intro preserves_gets preserves_bind inv_rules 1)
  qed
  have throttle: "J (throttle_senders ub now t) = J t" for now t
  proof -
    have "J (foldl (\<lambda>u i. if is_sender (streams u ! i) then iperf_check_throttle ub now i u else u) t is) = J t" for "is"
      by (induction "is" arbitrary: t) (simp_all add: put_throttle)
    then show ?thesis by (simp add: throttle_senders_def)
  qed
  show "preserves J (iperf_send ub wset)"
    unfolding iperf_send_def by (intro preserves_gets preserves_bind inv_rules 2) (simp add: throttle)
qed

section \<open>Statistics and timers\<close>

lemma stats_frames [inv_rules]: "preserves J (save_tcpinfo s)" "preserves J (check_server_rate ub n)"
  "preserves J (iperf_stats_callback ub)" "preserves J (stats_or_die e)" "preserves J iperf_reset_stats"
  "preserves J cpu_util_start" "preserves J cpu_util_read" "preserves J iperf_init_test"
proof -
  have total: "J t' = J t" if "iperf_check_total_rate ub n t = Some t'" for n t t'
    using that by (auto simp: iperf_check_total_rate_def Let_def frame_eqs split: if_splits option.splits)
  show 1: "preserves J (save_tcpinfo s)" for s
    unfolding save_tcpinfo_def by (intro preserves_bind inv_rules)
  show 2: "preserves J (check_server_rate ub n)" for ub n
    unfolding check_server_rate_def preserves_def wp_State
    by (auto simp: iperf_check_total_rate_def Let_def frame_eqs split: if_splits option.splits)
  show 3: "preserves J (iperf_stats_callback ub)" for ub
    unfolding iperf_stats_callback_def
    by (intro preserves_gets preserves_bind inv_rules 1 2) (simp add: put_throttle)
  show "preserves J (stats_or_die e)"
    unfolding stats_or_die_def by (intro preserves_bind inv_rules 3)
  show "preserves J iperf_reset_stats"
    unfolding iperf_reset_stats_def
    by (intro preserves_gets preserves_bind inv_rules 1) (simp_all add: put_throttle frame_eqs)
  show "preserves J cpu_util_start" "preserves J cpu_util_read" "preserves J iperf_init_test"
    unfolding cpu_util_start_def cpu_util_read_def iperf_init_test_def
    by (intro preserves_bind inv_rules; simp add: frame_eqs)+
qed

lemma timer_frames [inv_rules]: "preserves J (create_server_timers malloc)" "preserves J (create_server_omit_timer malloc)"
  "preserves J (create_client_timers malloc)" "preserves J (create_client_omit_timer malloc)"
  "preserves J (iperf_create_send_timers malloc)"
proof -
  have new: "preserves J (new_timer malloc now proc us per)" for now proc us per
    unfolding new_timer_def preserves_def wp_State by (auto simp: frame_eqs split: option.split)
  have hang: "preserves J (hang_timer malloc now proc us per f)" if "\<And>p t. J (f p t) = J t" for now proc us per f
    unfolding hang_timer_def by (intro preserves_bind inv_rules new that)
  have stats: "preserves J (stats_timers malloc now a b)" for now a b
    unfolding stats_timers_def by (intro preserves_gets preserves_bind inv_rules hang) (simp_all add: frame_eqs)
  have both: "preserves J (create_timers malloc a g b c)" for a g b c
    unfolding create_timers_def by (intro preserves_gets preserves_bind inv_rules hang stats) (simp_all add: frame_eqs)
  have om: "preserves J (create_omit_timer malloc a)" for a
    unfolding create_omit_timer_def by (intro preserves_gets preserves_bind inv_rules hang) (simp_all add: frame_eqs)
  show "preserves J (create_server_timers malloc)" "preserves J (create_client_timers malloc)"
    "preserves J (create_server_omit_timer malloc)" "preserves J (create_client_omit_timer malloc)"
    unfolding create_server_timers_def create_client_timers_def create_server_omit_timer_def create_client_omit_timer_def
    by (rule both om)+
  have from_list: "preserves J (send_timers_from malloc is)" for "is"
  proof (induction "is")
    case Nil
    then show ?case by (simp add: preserves_return)
  next
    case (Cons i "is")
    then show ?case unfolding send_timers_from.simps
      by (intro preserves_gets preserves_bind inv_rules hang) (simp_all add: put_throttle)
  qed
  show "preserves J (iperf_create_send_timers malloc)"
    unfolding iperf_create_send_timers_def by (intro preserves_gets preserves_bind inv_rules from_list)
qed

lemma free_stream_frame [inv_rules]: "preserves J (iperf_free_stream sp)"
  unfolding iperf_free_stream_def by (intro preserves_bind inv_rules) (simp add: frame_eqs)

lemma reset_timer_frame: "reset_timer now p t = Some t' \<Longrightarrow> J t' = J t"
  by (auto simp: reset_timer_def frame_eqs split: option.splits)

lemma callback_frame:
  assumes "run_callback ub proc now t = Some t'"
  shows "J t \<Longrightarrow> J t'"
proof -
  have grace: "preserves J server_timer_proc"
    unfolding server_timer_proc_def by (intro preserves_gets preserves_bind inv_rules) (simp_all add: frame_eqs)
  have om: "omit_timer_proc now t = Some t' \<Longrightarrow> J t \<Longrightarrow> J t'"
  proof -
    assume o: "omit_timer_proc now t = Some t'" and j: "J t"
    let ?t1 = "snd (run_state iperf_reset_stats (t\<lparr>omit_timer := None, omitting := False\<rparr>))"
    from o obtain t2 where t2: "reset_timer now (stats_timer ?t1) ?t1 = Some t2"
      "reset_timer now (reporter_timer t2) t2 = Some t'"
      by (auto simp: omit_timer_proc_def Let_def split: option.splits)
    have "J ?t1" by (rule preservesD [OF stats_frames(5)]) (simp add: frame_eqs j)
    then show "J t'" using reset_timer_frame [OF t2(1)] reset_timer_frame [OF t2(2)] by simp
  qed
  have st: "stats_timer_proc ub t = Some t' \<Longrightarrow> J t \<Longrightarrow> J t'"
    using preservesD [OF stats_frames(3), of t ub] by (auto simp: stats_timer_proc_def split: if_splits prod.splits)
  show "J t \<Longrightarrow> J t'"
    using assms om st preservesD [OF grace, of t]
    by (auto simp: run_callback_def send_timer_proc_def put_throttle test_timer_proc_def frame_eqs
        split: tproc.splits if_splits)
qed

lemma fire_frame: "fire ub proc now st w = Some (st', w') \<Longrightarrow> J w \<Longrightarrow> J w'"
  using callback_frame [of ub proc now "w\<lparr>tm := st\<rparr>"]
  by (auto simp: fire_def frame_eqs split: option.splits)

lemma run_timers_frame [inv_rules]: "preserves J (run_due_timers e)"
proof -
  have "J t'" if "run_timers ub now t = Some t'" "J t" for ub now t t'
  proof -
    obtain st w where r: "tmr_run (fire ub) now (Some now) (tm t) t = Some (st, w)" "t' = w\<lparr>tm := st\<rparr>"
      using \<open>run_timers ub now t = Some t'\<close> by (auto simp: run_timers_def split: option.splits)
    have "J w" using fire_frame r(1) \<open>J t\<close> unfolding tmr_run_def by (rule tmr_run_loop_inv)
    then show ?thesis using r(2) by (simp add: frame_eqs)
  qed
  then have "preserves J (State (\<lambda>t. case run_timers ub now t of None \<Rightarrow> (Stop Crash, t) | Some t' \<Rightarrow> (Go (), t')))" for ub now
    by (auto simp: preserves_def wp_State split: option.split)
  then show ?thesis unfolding run_due_timers_def by (intro preserves_bind inv_rules)
qed

section \<open>Results\<close>

lemma json_frames [inv_rules]: "preserves J (JSON_write pr fd j)" "preserves J (JSON_read ps junk fd)"
  unfolding JSON_write_def JSON_read_def by (intro preserves_bind inv_rules)+

lemma stream_results_frame: "get_stream_results j (r, t) = (r', t') \<Longrightarrow> J t' = J t"
  by (auto simp: get_stream_results_def frame_eqs split: option.splits)

lemma all_results_frame: "fold get_stream_results js (r, t) = (r', t') \<Longrightarrow> J t' = J t"
proof (induction js arbitrary: r t)
  case (Cons j js)
  obtain r1 t1 where 1: "get_stream_results j (r, t) = (r1, t1)" by (cases "get_stream_results j (r, t)")
  then have "J t' = J t1" using Cons by simp
  then show ?case using stream_results_frame [OF 1] by simp
qed simp

lemma server_text_frame: "get_server_text j t = Some t' \<Longrightarrow> J t' = J t"
  by (auto simp: get_server_text_def when_string_def frame_eqs split: if_splits option.splits prod.splits)

lemma retransmits_frame: "J (get_retransmits v t) = J t"
  by (simp add: get_retransmits_def Let_def frame_eqs)

lemma unpack_results_frame:
  assumes "unpack_results j t = Some (r, t')"
  shows "J t' = J t"
proof -
  have body: "J u = J t"
    if "(case (a, b, c, d) of
           (Some c_total, Some c_user, Some c_system, Some retrans) \<Rightarrow>
             (let t1 = get_retransmits retrans
                (t\<lparr>remote_cpu_util := [valuedouble c_total, valuedouble c_user, valuedouble c_system]\<rparr>)
              in case js of
                   None \<Rightarrow> Some (-1, t1\<lparr>i_errno := IERECVRESULTS\<rparr>)
                 | Some j_streams \<Rightarrow>
                     (case fold get_stream_results (elements j_streams) (0, t1) of
                        (r, t2) \<Rightarrow> map_option (Pair r) (get_server_text j t2)))
         | _ \<Rightarrow> Some (-1, t\<lparr>i_errno := IERECVRESULTS\<rparr>)) = Some (r, u)" for a b c d js r u
    using that
    by (cases a; cases b; cases c; cases d; cases js)
      (auto simp: Let_def frame_eqs retransmits_frame split: prod.splits dest!: server_text_frame all_results_frame)
  have last: "J t' = J u" if "when_string j k (\<lambda>s t. t\<lparr>remote_congestion_used := Some s\<rparr>) u = Some t'" for k u
    using that by (auto simp: when_string_def frame_eqs split: option.splits)
  have bind: "\<exists>u. B = Some (r, u) \<and> when_string j k f u = Some t'"
    if "Option.bind B (\<lambda>(r, t). map_option (Pair r) (when_string j k f t)) = Some (r, t')" for B k f
    using that by (auto simp: bind_eq_Some_conv)
  from bind [OF assms [unfolded unpack_results_def Let_def]]
  obtain u where "J u = J t" "when_string j ''congestion_used'' (\<lambda>s t. t\<lparr>remote_congestion_used := Some s\<rparr>) u = Some t'"
    using body [unfolded Let_def] by blast
  then show ?thesis using last by simp
qed

lemma result_frames [inv_rules]: "preserves J (send_results pr)" "preserves J (get_results ps junk)"
  "preserves J (iperf_exchange_results e)"
proof -
  show 1: "preserves J (send_results pr)" for pr
    unfolding send_results_def by (intro preserves_gets preserves_bind inv_rules)
  have replace: "preserves J (do {
      u \<leftarrow> gets (unpack_results j);
      (case u of None \<Rightarrow> State_Monad.return Crash
       | Some (r, t) \<Rightarrow> do { modify (\<lambda>_. t); State_Monad.return (Ret r) }) })" for j
    unfolding preserves_def
    by (auto simp: wp_simps wp_return split: option.splits dest: unpack_results_frame)
  show 2: "preserves J (get_results ps junk)" for ps junk
    unfolding get_results_def
    by (intro preserves_gets preserves_bind inv_rules)
      (auto split: json_in.split option.split intro!: replace preserves_bind inv_rules)
  show "preserves J (iperf_exchange_results e)"
    unfolding iperf_exchange_results_def by (intro preserves_gets inv_rules 1 2)
qed

lemma silent_server [inv_rules]: "preserves J (nothing_came n r)" "preserves J (wait_ready tmo)" "preserves J (move_data e a b)"
proof -
  show "preserves J (wait_ready tmo)"
    unfolding wait_ready_def by (intro preserves_gets preserves_bind inv_rules)
  show "preserves J (nothing_came n r)"
    unfolding nothing_came_def by (intro preserves_gets preserves_bind inv_rules)
  show "preserves J (move_data e a b)"
    unfolding move_data_def Let_def by (intro preserves_gets preserves_bind inv_rules)
qed

section \<open>Opening a listener, letting a client in\<close>

lemma listening [inv_rules]: "preserves J (abandon s code)" "preserves J (set_opt b s opt v)" "preserves J (tcp_options s)"
  "preserves J (tcp_buffers s)" "preserves J iperf_tcp_listen" "preserves J proto_listen"
proof -
  show 1: "preserves J (abandon s code)" for s code
    unfolding abandon_def by (intro preserves_bind inv_rules)
  show 2: "preserves J (set_opt b s opt v)" for b s opt v
    unfolding set_opt_def by (intro preserves_bind inv_rules)
  show 3: "preserves J (tcp_options s)" for s
    unfolding tcp_options_def by (intro preserves_gets preserves_bind inv_rules 2)
  have 4: "preserves J (tcp_readback s opt)" for s opt
    unfolding tcp_readback_def by (intro preserves_gets preserves_bind inv_rules 1)
  show 5: "preserves J (tcp_buffers s)" for s
    unfolding tcp_buffers_def by (intro preserves_bind inv_rules 4)
  have 6: "preserves J (tcp_bind_listen s)" for s
    unfolding tcp_bind_listen_def by (intro preserves_gets preserves_bind inv_rules 1) (simp add: frame_eqs)
  have 7: "preserves J tcp_new_listener"
    unfolding tcp_new_listener_def by (intro preserves_gets preserves_bind inv_rules 1 2 3 6)
  show 8: "preserves J iperf_tcp_listen"
    unfolding iperf_tcp_listen_def by (intro preserves_gets preserves_bind inv_rules 5 7) (simp add: frame_eqs)
  show "preserves J proto_listen"
    unfolding proto_listen_def iperf_udp_listen_def by (intro preserves_gets preserves_bind inv_rules 8)
qed

lemma admitting [inv_rules]: "preserves J (test_is_authorized cr)" "preserves J (iperf_setaffinity n)"
  "preserves J iperf_on_connect" "preserves J (send_int32 n)" "preserves J (turn_away s)"
proof -
  have auth: "preserves J (check_authentication cr u p ts f k)" for u p ts f k
    unfolding check_authentication_def by (intro preserves_bind inv_rules)
  show "preserves J (test_is_authorized cr)"
    unfolding test_is_authorized_def
    by (rule preserves_gets)
      (auto split: option.split decoded.split intro!: preserves_bind inv_rules auth)
  show "preserves J (iperf_setaffinity n)" "preserves J iperf_on_connect"
    unfolding iperf_setaffinity_def iperf_on_connect_def by (intro preserves_gets preserves_bind inv_rules)+
  show "preserves J (send_int32 n)" "preserves J (turn_away s)"
    unfolding turn_away_def by (intro send_int preserves_bind inv_rules)+
qed

section \<open>Connecting\<close>

lemma dialling [inv_rules]: "preserves J (netdial_connect s port tmo)" "preserves J (netdial_bind s family local lp port tmo)"
  "preserves J (netdial domain proto local dev lp server port tmo)"
proof -
  show 1: "preserves J (netdial_connect s port tmo)" for s port tmo
    unfolding netdial_connect_def by (intro preserves_bind inv_rules)
  show 2: "preserves J (netdial_bind s family local lp port tmo)" for s family local lp port tmo
    unfolding netdial_bind_def by (intro preserves_bind inv_rules 1)
  show "preserves J (netdial domain proto local dev lp server port tmo)"
    unfolding netdial_def by (intro preserves_bind inv_rules 2)
qed

lemma connecting [inv_rules]: "preserves J iperf_udp_connect" "preserves J iperf_tcp_connect" "preserves J proto_connect"
  "preserves J (client_congestion s)"
proof -
  have 1: "preserves J (tcp_bind_local s f)" "preserves J (tcp_flowlabel s f)" for s f
    unfolding tcp_bind_local_def tcp_flowlabel_def by (intro preserves_gets preserves_bind inv_rules)+
  have 2: "preserves J (tcp_dial s)" for s
    unfolding tcp_dial_def by (intro preserves_gets preserves_bind inv_rules)
  have 3: "preserves J (tcp_configure s f)" for s f
    unfolding tcp_configure_def by (intro preserves_gets preserves_bind inv_rules 1 2)
  show 4: "preserves J iperf_udp_connect" "preserves J iperf_tcp_connect"
    unfolding iperf_udp_connect_def iperf_tcp_connect_def by (intro preserves_gets preserves_bind inv_rules 3)+
  show "preserves J proto_connect"
    unfolding proto_connect_def by (intro preserves_gets inv_rules 4)
  have 5: "preserves J (client_abort s)" "preserves J (client_read_congestion s)" for s
    unfolding client_read_congestion_def client_abort_def
    by (intro preserves_gets preserves_bind inv_rules; simp add: frame_eqs)+
  show "preserves J (client_congestion s)"
    unfolding client_congestion_def by (intro preserves_gets preserves_bind inv_rules 5)
qed

end

end
