(* ===== verification/Start.thy ===== *)
theory Start
  imports Session Frames
begin

text \<open>
  When the server runs a test: the invariant of its main loop that ties the state \<open>TEST_RUNNING\<close>
  to the streams it has accepted, by a Hoare triple for code with early exits.
\<close>

section \<open>Triples for code with early exits\<close>

text \<open>From \<open>J\<close>, \<open>m\<close> either leaves the function or ends in \<open>K\<close>.\<close>

definition ensures :: "('s \<Rightarrow> bool) \<Rightarrow> ('s, 'a step) state \<Rightarrow> ('a \<Rightarrow> 's \<Rightarrow> bool) \<Rightarrow> bool" where
  "ensures J m K \<longleftrightarrow> (\<forall>s a s'. J s \<longrightarrow> run_state m s = (Go a, s') \<longrightarrow> K a s')"

lemma ensuresD: "ensures J m K \<Longrightarrow> J s \<Longrightarrow> run_state m s = (Go a, s') \<Longrightarrow> K a s'"
  by (simp add: ensures_def)

lemma run_seq: "run_state (seq m k) s = (Go a, s') \<longleftrightarrow>
    (\<exists>b s1. run_state m s = (Go b, s1) \<and> run_state (k b) s1 = (Go a, s'))"
  by (auto simp: seq_def run_simps split: prod.splits step.splits)

lemma ensures_seq: "ensures J m K \<Longrightarrow> (\<And>a. ensures (K a) (k a) L) \<Longrightarrow> ensures J (seq m k) L"
  by (auto simp: ensures_def run_seq)

lemma ensures_bind: "preserves J m \<Longrightarrow> (\<And>a. ensures J (k a) L) \<Longrightarrow> ensures J (State_Monad.bind m k) L"
  by (auto simp: ensures_def run_simps split: prod.splits dest: preservesD)

lemma ensures_gets:
  "(\<And>x. ensures (\<lambda>s. J s \<and> f s = x) (k x) L) \<Longrightarrow> ensures J (State_Monad.bind (gets f) k) L"
  by (simp add: ensures_def run_simps)

lemma ensures_modify:
  "(\<And>s. J s \<Longrightarrow> K (f s)) \<Longrightarrow> ensures K (k ()) L \<Longrightarrow> ensures J (State_Monad.bind (modify f) k) L"
  by (auto simp: ensures_def run_simps)

lemma ensures_leave: "ensures J (State_Monad.return (Stop x)) K"
  by (simp add: ensures_def run_simps)

lemma ensures_go: "(\<And>s. J s \<Longrightarrow> K a s) \<Longrightarrow> ensures J (State_Monad.return (Go a)) K"
  by (simp add: ensures_def run_simps)

lemma ensures_if: "(b \<Longrightarrow> ensures J m K) \<Longrightarrow> (\<not> b \<Longrightarrow> ensures J n K) \<Longrightarrow> ensures J (if b then m else n) K"
  by simp

lemma ensures_weaken: "ensures J m K \<Longrightarrow> (\<And>s. I s \<Longrightarrow> J s) \<Longrightarrow> (\<And>a s. K a s \<Longrightarrow> L a s) \<Longrightarrow> ensures I m L"
  unfolding ensures_def by blast

lemma ensures_frame: "preserves J m \<Longrightarrow> ensures J m (\<lambda>a. J)"
  by (auto simp: ensures_def dest: preservesD)

lemma ensures_both: "ensures J m K \<Longrightarrow> ensures I m L \<Longrightarrow> ensures (\<lambda>s. J s \<and> I s) m (\<lambda>a s. K a s \<and> L a s)"
  by (auto simp: ensures_def)

text \<open>After a guarded call the call returned something non-negative.\<close>

definition yields :: "('s \<Rightarrow> bool) \<Rightarrow> ('s, outcome) state \<Rightarrow> ('s \<Rightarrow> bool) \<Rightarrow> bool" where
  "yields J m K \<longleftrightarrow> (\<forall>s n s'. J s \<longrightarrow> run_state m s = (Ret n, s') \<longrightarrow> 0 \<le> n \<longrightarrow> K s')"

lemma yieldsD: "yields J m K \<Longrightarrow> J s \<Longrightarrow> run_state m s = (Ret n, s') \<Longrightarrow> 0 \<le> n \<Longrightarrow> K s'"
  by (simp add: yields_def)

lemma ensures_guarded: "yields J m K \<Longrightarrow> ensures J (guarded m) (\<lambda>n. K)"
  by (auto simp: ensures_def guarded_def run_simps split: prod.splits outcome.splits if_splits dest: yieldsD)

lemma yields_attempt: "yields J m K \<Longrightarrow> ensures J (attempt m) (\<lambda>n. K)"
  by (auto simp: ensures_def attempt_def run_simps split: prod.splits outcome.splits if_splits dest: yieldsD)

text \<open>Code that leaves its function only with a negative result (or dies).\<close>

definition fails :: "('s, 'a step) state \<Rightarrow> bool" where
  "fails m \<longleftrightarrow> (\<forall>s n s'. run_state m s = (Stop (Ret n), s') \<longrightarrow> n < 0)"

named_theorems fail_rules \<open>early exits of code, by its shape\<close>

lemma fails_seq [fail_rules]: "fails m \<Longrightarrow> (\<And>a. fails (k a)) \<Longrightarrow> fails (seq m k)"
  by (auto simp: fails_def seq_def run_simps split: prod.splits step.splits)

lemma fails_bind [fail_rules]: "(\<And>a. fails (k a)) \<Longrightarrow> fails (State_Monad.bind m k)"
  by (auto simp: fails_def run_simps split: prod.splits)

lemma fails_basic [fail_rules]: "fails (State_Monad.return (Go a))" "fails (State_Monad.return (Stop (Ret (-1))))"
  "fails (attempt m')" "fails (refuse e)"
  by (auto simp: fails_def run_simps attempt_def refuse_def fail_def split: prod.splits outcome.splits if_splits)

lemma fails_if [fail_rules]: "fails m \<Longrightarrow> fails n \<Longrightarrow> fails (if b then m else n)"
  by simp

lemma yields_finish: "ensures J m (\<lambda>a. K) \<Longrightarrow> fails m \<Longrightarrow> yields J (finish m) K"
  unfolding yields_def finish_def run_simps fails_def
  by (fastforce split: prod.splits step.splits dest: ensuresD)

lemma yields_frame: "preserves J m \<Longrightarrow> yields J m J"
  by (auto simp: yields_def dest: preservesD)

section \<open>The control state of a test\<close>

type_synonym phase = "int \<times> test_mode \<times> int \<times> int"

definition phase :: "test \<Rightarrow> phase" where
  "phase t = (test_state t, mode t, num_streams t, ctrl_sck t)"

interpretation control: framed "\<lambda>t. P (phase t)" for P
  by unfold_locales (simp_all add: phase_def after_def)

interpretation state_only: framed "\<lambda>t. P (test_state t)" for P
  by unfold_locales (simp_all add: after_def)

interpretation numbers_only: framed "\<lambda>t. P (mode t) (num_streams t)" for P
  by unfold_locales (simp_all add: after_def)

interpretation socket_only: framed "\<lambda>t. P (ctrl_sck t)" for P
  by unfold_locales (simp_all add: after_def)

lemma send_state_only: "P st \<Longrightarrow> preserves (\<lambda>t. P (test_state t)) (iperf_set_send_state st)"
  unfolding iperf_set_send_state_def
  by (intro preserves_gets preserves_bind inv_rules preserves_modify) simp_all

lemma send_state_numbers: "preserves (\<lambda>t. P (mode t) (num_streams t)) (iperf_set_send_state st)"
  unfolding iperf_set_send_state_def
  by (intro preserves_gets preserves_bind inv_rules preserves_modify) simp_all

text \<open>
  \<open>announced p r\<close>: the server expects the streams the client asked for. \<open>counted p r\<close>: it does so
  while it accepts streams, and it runs the test only when all are there.
\<close>

definition announced :: "test_mode \<Rightarrow> int \<Rightarrow> server_run \<Rightarrow> bool" where
  "announced m n r \<longleftrightarrow> to_rec r = (if m = SENDER then 0 else n) \<and> to_send r = (if m = RECEIVER then 0 else n)"

definition complete :: "server_run \<Rightarrow> bool" where
  "complete r \<longleftrightarrow> rec_accepted r = to_rec r \<and> send_accepted r = to_send r"

definition counted :: "server_run \<Rightarrow> phase \<Rightarrow> bool" where
  "counted r = (\<lambda>(st, m, n, c). (st \<in> {CREATE_STREAMS, TEST_RUNNING} \<longrightarrow> announced m n r)
     \<and> (st = TEST_RUNNING \<longrightarrow> complete r))"

lemma set_stream_numbers_announced: "announced (mode t) (num_streams t) (set_stream_numbers t r)"
  by (simp add: announced_def set_stream_numbers_def split: test_mode.split)

lemma set_stream_numbers_again: "announced (mode t) (num_streams t) r \<Longrightarrow> set_stream_numbers t r = r"
  by (cases r) (auto simp: announced_def set_stream_numbers_def split: test_mode.splits)

section \<open>A message of the client\<close>

abbreviation (input) quiet :: "int \<Rightarrow> bool" where
  "quiet st \<equiv> st \<notin> {CREATE_STREAMS, TEST_RUNNING}"

lemma test_ended_quiet: "preserves (\<lambda>t. quiet (test_state t)) (test_ended e)"
  unfolding test_ended_def
  by (intro preserves_bind inv_rules send_state_only [where P = quiet] preserves_modify) simp_all

lemma dispatch_quiet: "st \<noteq> CREATE_STREAMS \<Longrightarrow> yields (\<lambda>t. test_state t = st) (dispatch_server e st) (\<lambda>t. quiet (test_state t))"
proof -
  have ended: "yields (\<lambda>t. test_state t = TEST_END) (test_ended e) (\<lambda>t. quiet (test_state t))"
    unfolding yields_def
  proof (intro allI impI)
    fix t n t'
    assume "test_state t = TEST_END" "run_state (test_ended e) t = (Ret n, t')"
    then show "quiet (test_state t')" using preservesD [OF test_ended_quiet [of e], of t] by simp
  qed
  have finished: "yields J client_terminated (\<lambda>t. quiet (test_state t))" for J
    by (auto simp: yields_def client_terminated_def run_simps split: prod.splits)
  show ?thesis
    using ended finished [of "\<lambda>t. test_state t = CLIENT_TERMINATE"]
    by (auto simp: dispatch_server_def yields_def run_simps fail_def)
qed

lemma message_quiet: "yields (\<lambda>t. True) (iperf_handle_message_server e) (\<lambda>t. quiet (test_state t))"
  unfolding yields_def
proof (intro allI impI)
  fix t n t'
  assume run: "run_state (iperf_handle_message_server e) t = (Ret n, t')" and n: "0 \<le> n"
  obtain r bs t1 where got: "run_state (nread (ctrl_sck t) 1) t = ((r, bs), t1)" by (metis prod.exhaust)
  show "quiet (test_state t')"
  proof (cases "r \<le> 0")
    case True
    then show ?thesis using run n got
      by (auto simp: iperf_handle_message_server_def run_simps fail_def split: if_splits)
  next
    case False
    let ?st = "sint (hd bs)"
    have run2: "run_state (dispatch_server e ?st) (t1\<lparr>test_state := ?st\<rparr>) = (Ret n, t')"
      using run False got by (simp add: iperf_handle_message_server_def run_simps)
    have "?st \<noteq> CREATE_STREAMS"
    proof
      assume "?st = CREATE_STREAMS"
      then show False using run2 n by (simp add: dispatch_server_def run_simps fail_def)
    qed
    then show ?thesis by (rule yieldsD [OF dispatch_quiet _ run2 n]) simp
  qed
qed

section \<open>A new client\<close>

lemma when_keeps: "(\<And>v t. g (f v t) = g t) \<Longrightarrow> g (when_member j k f t) = g t"
  by (simp add: when_member_def split: option.split)

text \<open>
  The interface of what the parameters of a client cannot touch, but for the token, which is stored as it comes.
\<close>

locale untold =
  fixes g :: "test \<Rightarrow> 'g"
  assumes proto: "\<And>p t. g (snd (set_protocol p t)) = g t"
    and reversed: "\<And>b t. g (iperf_set_test_reverse b t) = g t"
    and both_ways: "\<And>t b. g (t\<lparr>bidirectional := b\<rparr>) = g t" "\<And>t b. g (t\<lparr>bidirectional := b, mode := BIDIRECTIONAL\<rparr>) = g t"
    and configured: "\<And>f t. (\<And>s. authtoken (f s) = authtoken s) \<Longrightarrow> g (set_settings f t) = g t"
    and members: "\<And>t b. g (t\<lparr>multipath := b\<rparr>) = g t" "\<And>t n. g (t\<lparr>num_streams := n\<rparr>) = g t"
      "\<And>t b. g (t\<lparr>no_delay := b\<rparr>) = g t" "\<And>t n. g (t\<lparr>duration := n\<rparr>) = g t"
      "\<And>t n. g (t\<lparr>server_affinity := n\<rparr>) = g t" "\<And>t n. g (t\<lparr>omit := n\<rparr>) = g t"
      "\<And>t b. g (t\<lparr>repeating_payload := b\<rparr>) = g t" "\<And>t b. g (t\<lparr>udp_counters_64bit := b\<rparr>) = g t"
      "\<And>t b. g (t\<lparr>get_server_output := b\<rparr>) = g t" "\<And>t s. g (t\<lparr>title := s\<rparr>) = g t"
      "\<And>t s. g (t\<lparr>extra_data := s\<rparr>) = g t" "\<And>t s. g (t\<lparr>congestion := s\<rparr>) = g t"
      "\<And>t s. g (t\<lparr>congestion_used := s\<rparr>) = g t" "\<And>t n. g (t\<lparr>sender_has_retransmits := n\<rparr>) = g t"
begin

lemma settings_kept: "(\<And>n s. authtoken (f n s) = authtoken s) \<Longrightarrow> g (set_int f v t) = g t"
  "(\<And>n s. authtoken (h n s) = authtoken s) \<Longrightarrow> g (set_u64 h v t) = g t"
  by (simp_all add: set_int_def set_u64_def configured)

lemma string_kept:
  "when_string j k f t = Some t' \<Longrightarrow> (\<And>s t. g (f s t) = g t) \<Longrightarrow> g t' = g t"
  by (auto simp: when_string_def split: option.splits)

lemma unpacking:
  assumes "unpack_params j t = Some t'"
  shows "\<exists>t1 t2. g t1 = g t \<and> g t' = g t2
    \<and> when_string j ''authtoken'' (\<lambda>s. set_settings (\<lambda>st. st\<lparr>authtoken := Some s\<rparr>)) t1 = Some t2"
proof -
  have bidi: "g (iperf_set_test_bidirectional b u) = g u" for b u
    by (simp add: iperf_set_test_bidirectional_def Let_def reversed both_ways)
  have wh: "g (when_member j k f u) = g u" if "\<And>v u. g (f v u) = g u" for j k f u
    using that by (rule when_keeps)
  have a: "g (unpack_settings j (unpack_test j t)) = g t" "g (unpack_flags j u) = g u" for u
    by (simp_all add: unpack_settings_def unpack_test_def unpack_flags_def wh proto reversed bidi settings_kept members)
  from assms obtain t1 t2 where t12: "unpack_strings j (unpack_settings j (unpack_test j t)) = Some t1"
    "when_string j ''authtoken'' (\<lambda>s. set_settings (\<lambda>st. st\<lparr>authtoken := Some s\<rparr>)) (unpack_flags j t1) = Some t2"
    "t' = (if mode t2 \<noteq> RECEIVER \<and> protocol t2 = Ptcp \<and> has_tcpinfo_retransmits then t2\<lparr>sender_has_retransmits := 1\<rparr> else t2)"
    unfolding unpack_params_def bind_eq_Some_conv by auto
  have "g t1 = g (unpack_settings j (unpack_test j t))"
    using t12(1) unfolding unpack_strings_def bind_eq_Some_conv by (auto dest!: string_kept simp: members)
  then have "g (unpack_flags j t1) = g t" "g t' = g t2" using t12(3) a members by simp_all
  with t12(2) show ?thesis by blast
qed

end

text \<open>What concerns the server alone; the trace of the calls; the token.\<close>

definition server_only :: "test \<Rightarrow> int \<times> int \<times> string option \<times> string option \<times> int \<times> bool \<times> char \<times> (sysc \<times> int) list" where
  "server_only t = (test_state t, ctrl_sck t, server_rsa_private_key t, server_authorized_users t, server_skew_threshold t,
     one_off t, test_role t, trace t)"

interpretation server_untold: untold server_only
  by unfold_locales (simp_all add: server_only_def set_protocol_def check_sender_has_retransmits_def
      iperf_set_test_reverse_def set_settings_def Let_def split: option.split)

interpretation token_untold: untold "\<lambda>t. authtoken (settings t)"
  by unfold_locales (simp_all add: set_protocol_def check_sender_has_retransmits_def
      iperf_set_test_reverse_def set_settings_def Let_def split: option.split)

lemma unpack_params_server_only:
  assumes "unpack_params j t = Some t'"
  shows "server_only t' = server_only t"
proof -
  obtain t1 t2 where t: "server_only t1 = server_only t" "server_only t' = server_only t2"
    "when_string j ''authtoken'' (\<lambda>s. set_settings (\<lambda>st. st\<lparr>authtoken := Some s\<rparr>)) t1 = Some t2"
    using server_untold.unpacking [OF assms] by blast
  have "server_only t2 = server_only t1"
    using t(3) by (rule server_untold.string_kept) (simp add: server_only_def set_settings_def)
  with t show ?thesis by simp
qed

text \<open>The token of a test is the one in its parameters; without one it stays.\<close>

lemma unpack_params_token:
  assumes "unpack_params j t = Some t'"
  shows "authtoken (settings t') = (case cJSON_GetObjectItem j ''authtoken'' of None \<Rightarrow> authtoken (settings t)
    | Some v \<Rightarrow> valuestring v)"
proof -
  obtain t1 t2 where t: "authtoken (settings t1) = authtoken (settings t)" "authtoken (settings t') = authtoken (settings t2)"
    "when_string j ''authtoken'' (\<lambda>s. set_settings (\<lambda>st. st\<lparr>authtoken := Some s\<rparr>)) t1 = Some t2"
    using token_untold.unpacking [OF assms] by blast
  show ?thesis
  proof (cases "cJSON_GetObjectItem j ''authtoken''")
    case (Some v)
    then obtain x where "valuestring v = Some x" "t2 = set_settings (\<lambda>st. st\<lparr>authtoken := Some x\<rparr>) t1"
      using t(3) by (auto simp: when_string_def split: option.splits)
    then show ?thesis using Some t(2) by (simp add: set_settings_def)
  qed (use t in \<open>simp add: when_string_def\<close>)
qed

lemma unpack_params_state: "unpack_params j t = Some t' \<Longrightarrow> test_state t' = test_state t"
  using unpack_params_server_only by (force simp: server_only_def)

lemma get_parameters_state: "preserves (\<lambda>t. P (test_state t)) (get_parameters ps junk)"
proof -
  have "preserves (\<lambda>t. P (test_state t)) (do {
      u \<leftarrow> gets (unpack_params j);
      (case u of None \<Rightarrow> State_Monad.return Crash
       | Some t' \<Rightarrow> do { modify (\<lambda>u. t'); State_Monad.return (Ret 0) }) })" for j
    unfolding preserves_def by (auto simp: wp_simps split: option.splits dest: unpack_params_state)
  then show ?thesis unfolding get_parameters_def
    by (intro preserves_gets preserves_bind inv_rules) (auto split: json_in.split option.split intro!: preserves_bind inv_rules)
qed

lemma exchange_parameters_state:
  assumes "P SERVER_ERROR" "P CREATE_STREAMS"
  shows "preserves (\<lambda>t. P (test_state t)) (iperf_exchange_parameters e)"
proof -
  have send: "preserves (\<lambda>t. P (test_state t)) (send_parameters cr pr v)" for cr pr v
    unfolding send_parameters_def make_token_def encode_auth_setting_def Let_def
    by (intro preserves_gets preserves_bind inv_rules preserves_modify) (simp_all add: set_settings_def)
  have reject: "preserves (\<lambda>t. P (test_state t)) reject_client" "preserves (\<lambda>t. P (test_state t)) report_listen_error"
    unfolding reject_client_def report_listen_error_def
    by (intro preserves_gets preserves_bind inv_rules send_state_only assms)+
  have opened: "preserves (\<lambda>t. P (test_state t)) open_listener"
    unfolding open_listener_def by (intro preserves_bind inv_rules preserves_modify send_state_only reject assms) simp
  show ?thesis
    unfolding iperf_exchange_parameters_def
    by (intro preserves_gets preserves_bind inv_rules send reject opened get_parameters_state)
qed

abbreviation (input) not_running :: "int \<Rightarrow> bool" where
  "not_running st \<equiv> st \<noteq> TEST_RUNNING"

lemma send_state_sets: "0 \<le> s \<Longrightarrow> yields (\<lambda>t. ctrl_sck t = s) (lift (iperf_set_send_state st)) (\<lambda>t. test_state t = st)"
proof -
  assume s: "0 \<le> s"
  have "test_state t' = st" if "run_state (iperf_set_send_state st) t = (n, t')" "ctrl_sck t = s" for t n t'
  proof -
    have "preserves (\<lambda>t. test_state t = st) (do {
        w \<leftarrow> nwrite s [word_of_int st];
        if w < 0 then fail IESENDMESSAGE else State_Monad.return 0 })"
      by (intro preserves_bind inv_rules)
    from preservesD [OF this, of "t\<lparr>test_state := st\<rparr>"] show ?thesis
      using that s by (simp add: iperf_set_send_state_def run_simps)
  qed
  then show ?thesis by (auto simp: yields_def lift_def run_simps split: prod.splits)
qed

lemma accept_client_state: "0 \<le> s \<Longrightarrow> yields (\<lambda>t. True) (accept_client e s) (\<lambda>t. not_running (test_state t))"
proof -
  assume s: "0 \<le> s"
  let ?J = "\<lambda>t :: test. ctrl_sck t = s" and ?K = "\<lambda>t :: test. not_running (test_state t)"
  define rest where "rest = seq (attempt (iperf_exchange_parameters e)) (\<lambda>_. do {
         aff \<leftarrow> gets server_affinity;
         r \<leftarrow> (if aff \<noteq> -1 then iperf_setaffinity aff else State_Monad.return 0);
         if r \<noteq> 0 then State_Monad.return (Stop (Ret (-1))) else do {
           iperf_on_connect;
           State_Monad.return (Go ()) } })"
  define body where "body = seq receive_cookie (\<lambda>_. do {
       watch_read s;
       seq (attempt (lift (iperf_set_send_state PARAM_EXCHANGE))) (\<lambda>_. rest) })"
  have rest: "preserves ?K rest"
    unfolding rest_def
    by (intro preserves_gets preserves_bind inv_rules exchange_parameters_state [where P = not_running]) simp_all
  have "ensures (\<lambda>t. test_state t = PARAM_EXCHANGE) rest (\<lambda>_. ?K)"
    by (rule ensures_weaken [OF ensures_frame [OF rest]]) simp_all
  then have "ensures ?J (seq (attempt (lift (iperf_set_send_state PARAM_EXCHANGE))) (\<lambda>_. rest)) (\<lambda>_. ?K)"
    by (rule ensures_seq [OF yields_attempt [OF send_state_sets [OF s]]])
  moreover have keep: "preserves ?J receive_cookie" "preserves ?J (watch_read s)"
    unfolding receive_cookie_def refuse_def by (intro preserves_gets preserves_bind inv_rules preserves_modify; simp)+
  ultimately have "ensures ?J body (\<lambda>_. ?K)"
    unfolding body_def by (intro ensures_seq [OF ensures_frame [OF keep(1)]] ensures_bind [OF keep(2)])
  moreover have "fails body"
    unfolding body_def rest_def receive_cookie_def by (intro fail_rules)
  ultimately have fin: "yields ?J (finish body) ?K" by (rule yields_finish)
  have shape: "accept_client e s = do {
     modify (\<lambda>t. t\<lparr>ctrl_sck := s\<rparr>);
     o1 \<leftarrow> call (Setsockopt s TCP_NODELAY 1);
     if rv o1 \<noteq> 0 then do { r \<leftarrow> fail IESETNODELAY; State_Monad.return (Ret r) } else finish body }"
    unfolding accept_client_def body_def rest_def ..
  show ?thesis
    unfolding yields_def shape
  proof (intro allI impI)
    fix t n t'
    assume run: "run_state (do {
       modify (\<lambda>t. t\<lparr>ctrl_sck := s\<rparr>);
       o1 \<leftarrow> call (Setsockopt s TCP_NODELAY 1);
       if rv o1 \<noteq> 0 then do { r \<leftarrow> fail IESETNODELAY; State_Monad.return (Ret r) } else finish body }) t = (Ret n, t')"
      and n: "0 \<le> n"
    let ?t = "after (Setsockopt s TCP_NODELAY 1) (rv (answer (t\<lparr>ctrl_sck := s\<rparr>))) (t\<lparr>ctrl_sck := s\<rparr>)"
    have "run_state (finish body) ?t = (Ret n, t')"
      using run n by (auto simp: run_simps fail_def split: if_splits)
    then show "?K t'" by (rule yieldsD [OF fin, rotated]) (simp_all add: after_def n)
  qed
qed

lemma accept_phase:
  "yields (\<lambda>t. phase t = x) (iperf_accept e) (\<lambda>t. phase t = x \<or> not_running (test_state t))"
  unfolding yields_def
proof (intro allI impI)
  fix t n t'
  assume x: "phase t = x" and run: "run_state (iperf_accept e) t = (Ret n, t')" and n: "0 \<le> n"
  let ?s = "rv (answer t)" and ?t = "after (Accept (listener t)) (rv (answer t)) t"
  have s: "0 \<le> ?s" using run n by (auto simp: iperf_accept_def run_simps fail_def split: if_splits)
  show "phase t' = x \<or> not_running (test_state t')"
  proof (cases "ctrl_sck ?t = -1")
    case True
    then have "run_state (accept_client e ?s) ?t = (Ret n, t')"
      using run s by (simp add: iperf_accept_def run_simps)
    then show ?thesis using yieldsD [OF accept_client_state [OF s] _ _ n] by blast
  next
    case False
    then have "run_state (turn_away ?s) ?t = (Ret n, t')" using run s by (simp add: iperf_accept_def run_simps)
    moreover have "phase ?t = x" using x by (simp add: phase_def after_def)
    ultimately show ?thesis
      using preservesD [OF control.admitting(5) [of "\<lambda>p. p = x"], of ?t ?s] by simp
  qed
qed

lemma accept_counted:
  "counted r (phase t) \<Longrightarrow> phase t' = phase t \<or> not_running (test_state t') \<Longrightarrow> counted (set_stream_numbers t' r) (phase t')"
proof -
  assume c: "counted r (phase t)" and t': "phase t' = phase t \<or> not_running (test_state t')"
  have a: "announced (mode t') (num_streams t') (set_stream_numbers t' r)" by (rule set_stream_numbers_announced)
  have "complete (set_stream_numbers t' r)" if "test_state t' = TEST_RUNNING"
  proof -
    have p: "phase t' = phase t" using t' that by simp
    then have "counted r (phase t')" using c by simp
    then have "announced (mode t') (num_streams t') r" "complete r" using that by (simp_all add: counted_def phase_def)
    then show ?thesis using set_stream_numbers_again by simp
  qed
  with a show ?thesis by (simp add: counted_def phase_def)
qed

section \<open>Accepting streams\<close>

lemma ensures_pure: "(\<And>s a s'. run_state m s = (Go a, s') \<Longrightarrow> Q a) \<Longrightarrow> ensures (\<lambda>s. True) m (\<lambda>a s. Q a)"
  by (auto simp: ensures_def)

lemma count_stream_numbers: "to_rec (count_stream r) = to_rec r" "to_send (count_stream r) = to_send r"
  by (simp_all add: count_stream_def)

lemma add_accepted_numbers:
  "run_state (add_accepted s r) t = (Go r', t') \<Longrightarrow> to_rec r' = to_rec r \<and> to_send r' = to_send r"
  by (auto simp: add_accepted_def run_simps split: if_splits prod.splits option.splits)

lemma accept_stream_numbers:
  assumes "run_state (accept_stream e r) t = (Go r', t')"
  shows "to_rec r' = to_rec r \<and> to_send r' = to_send r"
proof -
  from assms obtain s t1 where 1: "run_state (do {
      closed \<leftarrow> is_closed s;
      if closed then State_Monad.return (Go r)
      else seq (server_congestion s) (\<lambda>_. add_accepted s (count_stream r)) }) t1 = (Go r', t')"
    unfolding accept_stream_def run_seq by blast
  obtain b t2 where "run_state (is_closed s) t1 = (b, t2)" by (cases "run_state (is_closed s) t1")
  with 1 have "r' = r \<or> (\<exists>t3. run_state (add_accepted s (count_stream r)) t3 = (Go r', t'))"
    by (auto simp: run_simps run_seq split: if_splits)
  then show ?thesis using add_accepted_numbers [of s "count_stream r"] by (auto simp: count_stream_numbers)
qed

lemma accept_stream_counted:
  "ensures (\<lambda>t. phase t = x) (accept_stream e r) (\<lambda>r' t. phase t = x \<and> to_rec r' = to_rec r \<and> to_send r' = to_send r)"
proof -
  have "ensures (\<lambda>t. phase t = x \<and> True) (accept_stream e r)
      (\<lambda>r' t. phase t = x \<and> to_rec r' = to_rec r \<and> to_send r' = to_send r)"
    by (intro ensures_both ensures_frame inv_rules control.accepted(2) [where P = "\<lambda>p. p = x"])
      (auto simp: ensures_def dest: accept_stream_numbers)
  then show ?thesis by simp
qed

lemma start_test_numbers: "preserves (\<lambda>t. P (mode t) (num_streams t)) (start_test e)"
  unfolding start_test_def
  by (intro preserves_gets preserves_bind inv_rules send_state_numbers preserves_modify) simp_all

lemma create_phase_counted:
  "ensures (\<lambda>t. counted r (phase t) \<and> test_state t = CREATE_STREAMS) (create_phase e rset r) (\<lambda>x t. counted (fst x) (phase t))"
proof -
  have "ensures (\<lambda>t. phase t = (CREATE_STREAMS, m, n, c)) (create_phase e rset r) (\<lambda>x t. counted (fst x) (phase t))"
    if a: "announced m n r" for m n c
  proof -
    let ?x = "(CREATE_STREAMS, m, n, c)"
    let ?K = "\<lambda>r' t. phase t = ?x \<and> to_rec r' = to_rec r \<and> to_send r' = to_send r"
    have go: "ensures (\<lambda>t. ?K r' t) (do {
        pl' \<leftarrow> gets prot_listener;
        let rset' = (if pl \<in> rset then rset - {pl'} else rset);
        if rec_accepted r' = to_rec r' \<and> send_accepted r' = to_send r'
        then seq (start_test e) (\<lambda>_. State_Monad.return (Go (r', rset')))
        else State_Monad.return (Go (r', rset')) }) (\<lambda>x t. counted (fst x) (phase t))" for r' pl
    proof (cases "to_rec r' = to_rec r \<and> to_send r' = to_send r")
      case True
      then have a': "announced m n r'" using a by (simp add: announced_def)
      have start: "ensures (\<lambda>t. phase t = ?x) (start_test e) (\<lambda>_ t. mode t = m \<and> num_streams t = n)"
        by (rule ensures_weaken [OF ensures_frame [OF start_test_numbers [of "\<lambda>a b. a = m \<and> b = n"]]])
          (simp_all add: phase_def)
      have "counted r' (phase t)" if "complete r'" "mode t = m" "num_streams t = n" for t
        using that a' by (simp add: counted_def phase_def)
      moreover have "counted r' ?x" using a' by (simp add: counted_def)
      ultimately show ?thesis
        unfolding Let_def
        by (intro ensures_gets ensures_if ensures_seq [OF ensures_weaken [OF start]] ensures_go)
          (auto simp: complete_def)
    qed (auto simp: ensures_def)
    show ?thesis
      unfolding create_phase_def
      by (intro ensures_gets ensures_seq [OF _ go] ensures_if)
        (auto intro: ensures_weaken [OF accept_stream_counted [of ?x]] ensures_go)
  qed
  then show ?thesis
    by (auto simp: ensures_def counted_def phase_def)
qed

section \<open>The main loop\<close>

text \<open>
  An invariant of the variables of \<open>iperf_run_server\<close> and the test. What has to be shown of it is
  that it survives a new client, a message, and the acceptance of a stream.
\<close>

locale turn_invariant =
  fixes e :: env and I :: "server_run \<Rightarrow> test \<Rightarrow> bool"
  assumes frame: "\<And>r. framed (I r)"
    and time: "\<And>r x. I (r\<lparr>last_receive := x\<rparr>) = I r"
    and accepts: "\<And>r. ensures (I r) (guarded (iperf_accept e)) (\<lambda>n t. I (set_stream_numbers t r) t)"
    and message: "\<And>r. ensures (I r) (guarded (iperf_handle_message_server e)) (\<lambda>n. I r)"
    and create: "\<And>r rset. ensures (\<lambda>t. I r t \<and> test_state t = CREATE_STREAMS) (create_phase e rset r) (\<lambda>x. I (fst x))"
begin

lemma client_events_keep: "ensures (I r) (client_events e rset r) (\<lambda>x. I (fst x))"
proof -
  note accepts [of r]
  then show ?thesis
    unfolding client_events_def
    by (intro ensures_gets ensures_if ensures_go)
      (auto intro!: ensures_seq [of _ _ "\<lambda>n t. I (set_stream_numbers t r) t"] ensures_gets ensures_go
        elim!: ensures_weaken)
qed

lemma control_events_keep: "ensures (I r) (control_events e rset) (\<lambda>x. I r)"
proof -
  note message [of r]
  then show ?thesis
    unfolding control_events_def
    by (intro ensures_gets ensures_if ensures_go)
      (auto intro!: ensures_seq [of _ _ "\<lambda>n. I r"] ensures_gets ensures_go elim!: ensures_weaken)
qed

lemma handle_events_keep: "ensures (I r) (handle_events e rd r) I"
proof -
  have data: "ensures (I r2) (do {
      st2 \<leftarrow> gets test_state;
      seq (if st2 = TEST_RUNNING then move_data e rs3 w else State_Monad.return (Go ())) (\<lambda>_. State_Monad.return (Go r2)) })
      (I)" for r2 rs3 w
  proof (rule ensures_gets)
    fix st2
    have "ensures (I r2) (move_data e rs3 w) (\<lambda>_. I r2)" by (intro ensures_frame framed.silent_server(3) [OF frame])
    then have "ensures (I r2) (if st2 = TEST_RUNNING then move_data e rs3 w else State_Monad.return (Go ())) (\<lambda>_. I r2)"
      by (intro ensures_if ensures_go) simp_all
    note d = ensures_weaken [OF this, of "\<lambda>t. I r2 t \<and> test_state t = st2" "\<lambda>_. I r2"]
    show "ensures (\<lambda>t. I r2 t \<and> test_state t = st2)
        (seq (if st2 = TEST_RUNNING then move_data e rs3 w else State_Monad.return (Go ())) (\<lambda>_. State_Monad.return (Go r2)))
        (I)"
      by (rule ensures_seq [OF d ensures_go]) simp_all
  qed
  have create: "ensures (\<lambda>t. I r1 t \<and> test_state t = st)
      (if st = CREATE_STREAMS then create_phase e rs2 r1 else State_Monad.return (Go (r1, rs2))) (\<lambda>x. I (fst x))" for st rs2 r1
    using create [of r1 rs2] by (intro ensures_if ensures_go) simp_all
  have control: "ensures (I r1) (seq (control_events e rs1) (\<lambda>rs2. do {
      st \<leftarrow> gets test_state;
      seq (if st = CREATE_STREAMS then create_phase e rs2 r1 else State_Monad.return (Go (r1, rs2))) (\<lambda>(r2, rs3). do {
         st2 \<leftarrow> gets test_state;
         seq (if st2 = TEST_RUNNING then move_data e rs3 (sel_write rd) else State_Monad.return (Go ())) (\<lambda>_.
         State_Monad.return (Go r2)) }) })) (I)" for r1 rs1
    by (rule ensures_seq [OF control_events_keep], rule ensures_gets, rule ensures_seq [OF create])
      (auto intro: data split: prod.split)
  show ?thesis
    unfolding handle_events_def
    by (rule ensures_bind, rule framed.calls [OF frame], rule ensures_seq [OF client_events_keep [of "r\<lparr>last_receive := _\<rparr>", unfolded time]])
      (auto intro: control split: prod.split)
qed

lemma turn_keeps: "ensures (I r) (server_turn e limit r) I"
proof -
  have quiet: "ensures (I r) (if b then nothing_came limit r else State_Monad.return (Go ())) (\<lambda>_. I r)" for b
    by (intro ensures_if ensures_go ensures_frame framed.silent_server(1) [OF frame]) simp
  have busy: "ensures (I r) (if b then handle_events e rd r else State_Monad.return (Go r)) (\<lambda>r'. I r')" for b rd
    by (intro ensures_if ensures_go handle_events_keep) simp
  have timers: "ensures (I r') (if b then run_due_timers e else State_Monad.return (Go ())) (\<lambda>_. I r')" for b r'
    by (intro ensures_if ensures_go ensures_frame framed.run_timers_frame [OF frame]) simp
  have stop: "ensures J (give_up code) K" for J code and K :: "'a \<Rightarrow> test \<Rightarrow> bool"
    by (auto simp: ensures_def give_up_def run_simps split: prod.splits)
  have turn: "ensures (I r) (do {
      en \<leftarrow> get_errno;
      if sel_result rd < 0 \<and> en \<noteq> EINTR then give_up IESELECT
      else seq (if sel_result rd = 0 then nothing_came limit r else State_Monad.return (Go ())) (\<lambda>_.
        seq (if sel_result rd > 0 then handle_events e rd r else State_Monad.return (Go r)) (\<lambda>r'.
        seq (if sel_result rd = 0 \<or> sel_expired rd then run_due_timers e else State_Monad.return (Go ())) (\<lambda>_.
        State_Monad.return (Go r')))) }) (I)" for rd
    by (intro ensures_bind [OF framed.errnos(1) [OF frame]] ensures_if stop ensures_seq [OF quiet] ensures_seq [OF busy]
        ensures_seq [OF timers] ensures_go)
  have wait: "ensures (I r) (do {
      g \<leftarrow> call Gettime;
      timeout \<leftarrow> gets (\<lambda>t. server_timeout limit (tmr_timeout (tm t) (rtime g) (Some (rtime g))) t);
      rd \<leftarrow> wait_ready timeout;
      en \<leftarrow> get_errno;
      if sel_result rd < 0 \<and> en \<noteq> EINTR then give_up IESELECT
      else seq (if sel_result rd = 0 then nothing_came limit r else State_Monad.return (Go ())) (\<lambda>_.
        seq (if sel_result rd > 0 then handle_events e rd r else State_Monad.return (Go r)) (\<lambda>r'.
        seq (if sel_result rd = 0 \<or> sel_expired rd then run_due_timers e else State_Monad.return (Go ())) (\<lambda>_.
        State_Monad.return (Go r')))) }) (I)"
  proof (rule ensures_bind [OF framed.calls [OF frame]], rule ensures_gets)
    fix g x
    show "ensures (\<lambda>t. I r t \<and> server_timeout limit (tmr_timeout (tm t) (rtime g) (Some (rtime g))) t = x) (do {
      rd \<leftarrow> wait_ready x;
      en \<leftarrow> get_errno;
      if sel_result rd < 0 \<and> en \<noteq> EINTR then give_up IESELECT
      else seq (if sel_result rd = 0 then nothing_came limit r else State_Monad.return (Go ())) (\<lambda>_.
        seq (if sel_result rd > 0 then handle_events e rd r else State_Monad.return (Go r)) (\<lambda>r'.
        seq (if sel_result rd = 0 \<or> sel_expired rd then run_due_timers e else State_Monad.return (Go ())) (\<lambda>_.
        State_Monad.return (Go r')))) }) (I)"
      by (rule ensures_weaken [OF ensures_bind [OF framed.silent_server(2) [OF frame] turn]]) simp_all
  qed
  show ?thesis
    unfolding server_turn_def
    by (rule ensures_gets, rule ensures_if, rule stop, rule ensures_weaken [OF wait]) simp_all
qed

end

lemma accept_keeps_counted:
  "ensures (\<lambda>t. counted r (phase t)) (guarded (iperf_accept e)) (\<lambda>n t. counted (set_stream_numbers t r) (phase t))"
  unfolding ensures_def
proof (intro allI impI)
  fix t n t'
  assume c: "counted r (phase t)" and run: "run_state (guarded (iperf_accept e)) t = (Go n, t')"
  show "counted (set_stream_numbers t' r) (phase t')"
    by (rule accept_counted [OF c ensuresD [OF ensures_guarded [OF accept_phase] refl run]])
qed

interpretation counting: turn_invariant e "\<lambda>r t. counted r (phase t)" for e
proof (rule turn_invariant.intro)
  show "framed (\<lambda>t. counted r (phase t))" for r by (rule control.framed_axioms)
  show "(\<lambda>t. counted (r\<lparr>last_receive := x\<rparr>) (phase t)) = (\<lambda>t. counted r (phase t))" for r x
    by (simp add: counted_def announced_def complete_def)
  show "ensures (\<lambda>t. counted r (phase t)) (guarded (iperf_handle_message_server e)) (\<lambda>n t. counted r (phase t))" for r
    by (rule ensures_weaken [OF ensures_guarded [OF message_quiet]]) (simp_all add: counted_def phase_def)
qed (rule accept_keeps_counted create_phase_counted)+

lemmas server_turn_counted = counting.turn_keeps

end
