(* ===== verification/Control.thy ===== *)
theory Control
  imports Start
begin

text \<open>
  What the control connection guarantees: a busy server is not disturbed, nobody starts a test
  without a valid token, the reason of a refusal reaches the client, a finished server leaves no
  timer behind.
\<close>

section \<open>A busy server\<close>

lemma Nwrite_data: "os.more (snd (Nwrite fd bs w)) = os.more w"
  unfolding Nwrite_def by (rule Nwrite_loop_inv) (auto simp: after_def)

lemma turn_away_quietly:
  "wp (turn_away s) (\<lambda>r t'. r = Ret 0 \<and> os.more t' = os.more t
     \<and> (\<exists>k. wire t' s = wire t s @ take k [-1]) \<and> (\<forall>f. f \<noteq> s \<longrightarrow> wire t' f = wire t f)
     \<and> held t' = (held t)(s := held t s - 1)) t"
proof -
  obtain r w where w: "Nwrite s [-1] t = (r, w)" by (cases "Nwrite s [-1] t")
  have "\<exists>k. wire w s = wire t s @ take k [-1]" "\<forall>f. f \<noteq> s \<longrightarrow> wire w f = wire t f" "held w = held t"
    using Nwrite_spec [where fd = s and buf = "[-1]" and w = t] w by (auto simp: write_outcome_def)
  moreover have "os.more w = os.more t" using Nwrite_data [of s "[-1]" t] w by simp
  ultimately show ?thesis
    unfolding turn_away_def
    by (auto simp: wp_simps w wire_after held_after fun_eq_iff) (simp_all add: after_def)
qed

lemma busy_accept:
  assumes "ctrl_sck t \<noteq> -1" "0 \<le> rv (answer t)"
  defines "s \<equiv> rv (answer t)"
  shows "wp (iperf_accept e) (\<lambda>r t'. r = Ret 0 \<and> os.more t' = os.more t
     \<and> (\<exists>k. wire t' s = wire t s @ take k [-1]) \<and> (\<forall>f. f \<noteq> s \<longrightarrow> wire t' f = wire t f)
     \<and> held t' = held t) t"
proof -
  let ?t = "after (Accept (listener t)) s t"
  have "os.more ?t = os.more t" "ctrl_sck ?t = ctrl_sck t" "wire ?t = wire t" "held ?t = (held t)(s := held t s + 1)"
    using assms(2) by (auto simp: after_def wire_def held_def fun_eq_iff s_def)
  then show ?thesis
    using turn_away_quietly [of s ?t] assms
    unfolding iperf_accept_def by (simp add: wp_simps)
qed

section \<open>No test without a token\<close>


text \<open>
  With a key and a file of users configured, the server goes on after the parameters only if
  they came with a fresh token that decrypts to a user whose salted hash is in the file.
\<close>

definition lets_in :: "crypto \<Rightarrow> test \<Rightarrow> string \<Rightarrow> string \<Rightarrow> bool" where
  "lets_in cr t key file \<longleftrightarrow> (\<exists>tok u p ts contents l. authtoken (settings t) = Some tok
    \<and> decode_auth_setting cr tok key = Credentials u p ts
    \<and> in_window (server_skew_threshold t) (rv (answer t)) ts
    \<and> read_file cr file = Some contents \<and> l \<in> set (fgets_all contents)
    \<and> grants u (sha256 cr (salted u p)) l)"

interpretation keys_only: framed "\<lambda>t. P (server_rsa_private_key t) (server_authorized_users t)" for P
  by unfold_locales (simp_all add: after_def)

lemma get_parameters_keeps_auth:
  "preserves (\<lambda>t. P (server_rsa_private_key t) (server_authorized_users t)) (get_parameters ps junk)"
proof -
  have keep: "server_rsa_private_key t' = server_rsa_private_key t \<and> server_authorized_users t' = server_authorized_users t"
    if "unpack_params j t = Some t'" for j t t'
    using unpack_params_server_only [OF that] by (simp add: server_only_def)
  have "preserves (\<lambda>t. P (server_rsa_private_key t) (server_authorized_users t)) (do {
      u \<leftarrow> gets (unpack_params j);
      (case u of None \<Rightarrow> State_Monad.return Crash
       | Some t' \<Rightarrow> do { modify (\<lambda>u. t'); State_Monad.return (Ret 0) }) })" for j
    unfolding preserves_def by (auto simp: wp_simps split: option.splits dest: keep)
  then show ?thesis unfolding get_parameters_def
    by (intro preserves_gets preserves_bind inv_rules) (auto split: json_in.split option.split intro!: preserves_bind inv_rules)
qed

lemma get_parameters_result: "run_state (get_parameters ps junk) t = (Ret n, t') \<Longrightarrow> n = 0 \<or> n = -1"
  by (auto simp: get_parameters_def run_simps fail_def split: prod.splits json_in.splits option.splits)

lemma authorized_result: "fst (run_state (test_is_authorized cr) t) \<in> {Ret 0, Ret (-1), Crash}"
  by (auto simp: test_is_authorized_def run_simps split: option.splits decoded.splits prod.splits outcome.splits)

lemma authorized_reads_clock:
  assumes "server_rsa_private_key t = Some key" "server_authorized_users t = Some file" "authtoken (settings t) = Some tok"
    "decode_auth_setting cr tok key = Credentials u p ts"
  shows "trace (snd (run_state (test_is_authorized cr) t)) = (Clock_Time, rv (answer t)) # trace t"
  using assms by (simp add: test_is_authorized_def check_authentication_def run_simps after_def)

lemma reject_negative: "run_state reject_client t = (Ret n, t') \<Longrightarrow> n < 0"
  by (auto simp: reject_client_def finish_def seq_def attempt_def run_simps
      split: prod.splits outcome.splits step.splits if_splits)

lemma exchange_needs_token:
  assumes "test_role t \<noteq> CHR ''c''" "server_rsa_private_key t = Some key" "server_authorized_users t = Some file"
    and run: "run_state (iperf_exchange_parameters e) t = (Ret n, t')" and n: "0 \<le> n"
  shows "\<exists>t1. run_state (get_parameters (e_parse e) (e_junk e)) t = (Ret 0, t1) \<and> lets_in (e_crypto e) t1 key file"
proof -
  obtain g t1 where g: "run_state (get_parameters (e_parse e) (e_junk e)) t = (g, t1)" by (metis prod.exhaust)
  have g0: "g = Ret 0"
    using run n assms(1) g get_parameters_result [of "e_parse e" "e_junk e" t _ t1]
    by (cases g) (auto simp: iperf_exchange_parameters_def run_simps split: if_splits)
  obtain a t2 where a: "run_state (test_is_authorized (e_crypto e)) t1 = (a, t2)" by (metis prod.exhaust)
  have k: "server_rsa_private_key t1 = Some key" "server_authorized_users t1 = Some file"
    using preservesD [OF get_parameters_keeps_auth [of "\<lambda>a b. a = Some key \<and> b = Some file"
          "e_parse e" "e_junk e"], of t] assms(2,3) g by simp_all
  have "a = Ret 0"
  proof -
    have "run_state (case a of Crash \<Rightarrow> State_Monad.return Crash
        | Ret k \<Rightarrow> if k < 0 then reject_client else open_listener) t2 = (Ret n, t')"
      using run assms(1) g g0 a by (simp add: iperf_exchange_parameters_def run_simps)
    then obtain k where "a = Ret k" "0 \<le> k"
      using n reject_negative [of t2 n t'] by (cases a) (auto simp: run_simps split: if_splits)
    then show ?thesis using authorized_result [of "e_crypto e" t1] a by auto
  qed
  then have "lets_in (e_crypto e) t1 key file"
    using authorized_sound [OF k, of "e_crypto e"] a unfolding lets_in_def by simp
  then show ?thesis using g g0 by blast
qed

section \<open>The reason of a refusal\<close>

text \<open>
  \<open>takes_all t\<close>: every \<open>write\<close> from now on accepts what it is given (up to eight bytes).
\<close>

definition takes_all :: "'a os_scheme \<Rightarrow> bool" where
  "takes_all t \<longleftrightarrow> (\<forall>n. 8 \<le> rv (orc t n))"

definition writes :: "int \<Rightarrow> bytes \<Rightarrow> test \<Rightarrow> test" where
  "writes fd bs t = after (Write fd bs) (int (length bs)) t"

lemma Nwrite_all:
  assumes "takes_all t" "bs \<noteq> []" "length bs \<le> 8"
  shows "Nwrite fd bs t = (int (length bs), after (Write fd bs) (int (length bs)) t)"
proof -
  have "8 \<le> rv (answer t)" using assms(1) by (simp add: takes_all_def answer_def)
  then have w: "sys_write fd bs t = (int (length bs), after (Write fd bs) (int (length bs)) t)"
    using assms(3) by (simp add: sys_write_def Let_def)
  show ?thesis
    unfolding Nwrite_def using assms(2) by (simp add: Nwrite_loop_steps(4) [OF assms(2) w] Nwrite_loop_steps(1))
qed

lemma after_write_simps [simp]:
  "takes_all (writes fd bs t) = takes_all t" "wire (writes fd bs t) fd = wire t fd @ bs"
  "ctrl_sck (writes fd bs t) = ctrl_sck t" "i_errno (writes fd bs t) = i_errno t" "errno (writes fd bs t) = errno t"
  by (simp_all add: writes_def takes_all_def after_def wire_def)

lemma takes_upd [simp]: "takes_all (t\<lparr>test_state := x\<rparr>) = takes_all t" "takes_all (t\<lparr>i_errno := y\<rparr>) = takes_all t"
  "wire (t\<lparr>test_state := x\<rparr>) fd = wire t fd" "wire (t\<lparr>i_errno := y\<rparr>) fd = wire t fd"
  by (simp_all add: takes_all_def wire_def)

lemma wp_send_state:
  assumes "takes_all t" "0 \<le> ctrl_sck t"
  shows "wp (iperf_set_send_state st) Q t = Q 0 (writes (ctrl_sck t) [word_of_int st] (t\<lparr>test_state := st\<rparr>))"
  using assms by (simp add: iperf_set_send_state_def wp_simps Nwrite_all writes_def)

lemma wp_send_int:
  assumes "takes_all t"
  shows "wp (send_int32 n) Q t = Q 0 (writes (ctrl_sck t) (be 4 (unat (word_of_int n :: u32))) t)"
proof -
  have "be 4 (unat (word_of_int n :: u32)) \<noteq> []" by (metis length_be length_0_conv zero_neq_numeral)
  then show ?thesis using assms by (simp add: send_int32_def wp_simps Nwrite_all writes_def)
qed

text \<open>After a failed \<open>listen\<close> the server tells the client the error code and \<open>errno\<close>; after a failed
  authentication only the error code.\<close>

lemma listen_error_told:
  assumes "takes_all t" "0 \<le> ctrl_sck t"
  shows "wp report_listen_error (\<lambda>r t'. r = Ret (-1) \<and> wire t' (ctrl_sck t) = wire t (ctrl_sck t)
    @ [word_of_int SERVER_ERROR] @ be 4 (unat (word_of_int (i_errno t) :: u32)) @ be 4 (unat (word_of_int (errno t) :: u32))) t"
  using assms by (simp add: report_listen_error_def wp_simps wp_send_state wp_send_int)

lemma rejection_told:
  assumes "takes_all t" "0 \<le> ctrl_sck t"
  shows "wp reject_client (\<lambda>r t'. r = Ret (-1) \<and> wire t' (ctrl_sck t) = wire t (ctrl_sck t)
    @ [word_of_int SERVER_ERROR] @ be 4 (unat (word_of_int IEAUTHTEST :: u32))) t"
  using assms by (simp add: reject_client_def wp_simps wp_send_state wp_send_int)

text \<open>
  What the client makes of it. The bytes the peer sent arrive whole, or the connection ends.
\<close>

lemma word_int32:
  assumes "- 2147483648 \<le> n" "n < 2147483648"
  shows "to_int (uint (word_of_int n :: u32)) = n"
proof -
  have "uint (word_of_int n :: u32) = take_bit 32 n" by (simp add: uint_word_of_int take_bit_eq_mod)
  moreover have "signed_take_bit 31 (take_bit 32 n) = signed_take_bit 31 n" by (simp add: signed_take_bit_take_bit)
  ultimately show ?thesis using assms by (simp add: to_int_def signed_take_bit_int_eq_self)
qed

lemma int32_read:
  assumes "- 2147483648 \<le> n" "n < 2147483648"
  shows "to_int (int (be_value (take 4 (put_header (be 4 (unat (word_of_int n :: u32))) err)))) = n"
proof -
  have "be_value (be 4 (unat (word_of_int n :: u32))) = unat (word_of_int n :: u32)"
    using unat_lt_u32 [of "word_of_int n"] by (simp add: be_value_be)
  then show ?thesis by (simp add: put_header_def word_int32 [OF assms])
qed

lemma wp_read_int32:
  assumes "Nread (ctrl_sck t) 4 t = (k, bs, t')" "0 \<le> k"
  shows "wp (read_int32 err) Q t =
    Q (Go (put_header bs err, to_int (int (be_value (take 4 (put_header bs err)))))) t'"
  using assms unfolding read_int32_def nread_def Let_def
  by (simp add: wp_bind wp_gets wp_State wp_if wp_return)

lemma client_hears:
  assumes fd: "fd = ctrl_sck c" and st: "sys_read fd 1 c = (1, [word_of_int SERVER_ERROR], c0)"
    and one: "Nread fd 4 (c0\<lparr>test_state := SERVER_ERROR\<rparr>) = (4, be 4 (unat (word_of_int ie :: u32)), c1)"
    and two: "Nread fd 4 (c1\<lparr>i_errno := ie\<rparr>) = (k, rest, c2)" "0 \<le> k"
    and ie: "- 2147483648 \<le> ie" "ie < 2147483648"
  shows "wp (iperf_handle_message_client e) (\<lambda>r c'. r = Ret (-1) \<and> test_state c' = SERVER_ERROR \<and> i_errno c' = i_errno c2
    \<and> errno c' = to_int (int (be_value (take 4 (put_header rest (put_header (be 4 (unat (word_of_int ie :: u32))) (e_junk e))))))) c"
proof -
  have m: "os.more c1 = os.more (c0\<lparr>test_state := SERVER_ERROR\<rparr>)" "os.more c2 = os.more (c1\<lparr>i_errno := ie\<rparr>)"
    using Nread_data one two(1) by blast+
  have "c0 = after (Read fd (take 1 (rbytes (answer c)))) (int (length (take 1 (rbytes (answer c))))) c"
    using st by (auto simp: sys_read_def Let_def split: if_splits)
  then have c0: "ctrl_sck c0 = fd" using fd by (simp add: after_def)
  have c1: "ctrl_sck c1 = fd" using m(1) c0 by (cases c0; cases c1) simp
  have c2: "test_state c2 = SERVER_ERROR" using m by (cases c0; cases c1; cases c2) simp
  have neg: "sint (- 2 :: 8 word) = - 2" by simp
  have "wp (iperf_handle_message_client e) Q c = wp (dispatch_client e SERVER_ERROR) Q (c0\<lparr>test_state := SERVER_ERROR\<rparr>)" for Q
    unfolding iperf_handle_message_client_def sread_def
    by (simp add: wp_bind wp_gets wp_State wp_modify fd [symmetric] st [simplified] neg)
  moreover have "dispatch_client e SERVER_ERROR = server_error (e_junk e)" by (simp add: dispatch_client_def)
  ultimately show ?thesis
    using c0 c1 c2
    unfolding server_error_def
    by (simp add: wp_finish wp_seq wp_bind wp_set_i_errno wp_set_errno wp_return
        wp_read_int32 one two int32_read [OF ie])
qed

lemma Nread_keeps_i_errno: "i_errno (snd (snd (Nread fd n w))) = i_errno w"
  unfolding Nread_def by (rule Nread_loop_inv) (simp_all add: after_def)

section \<open>A finished server leaves no timer behind\<close>

definition pointers :: "nat option list \<Rightarrow> nat list" where
  "pointers ps = concat (map (\<lambda>p. case p of None \<Rightarrow> [] | Some q \<Rightarrow> [q]) ps)"

definition test_timers :: "test \<Rightarrow> nat option list" where
  "test_timers t = [stats_timer t, reporter_timer t, omit_timer t, test_timer t]"

lemma pointers_simps [simp]: "pointers [] = []" "pointers (None # ps) = pointers ps" "pointers (Some q # ps) = q # pointers ps"
  "pointers (ps @ qs) = pointers ps @ pointers qs"
  by (simp_all add: pointers_def)

definition without :: "nat list \<Rightarrow> nat list \<Rightarrow> nat list" where
  "without qs xs = filter (\<lambda>p. p \<notin> set qs) xs"

lemma without_simps [simp]: "without [] xs = xs" "without qs (without rs xs) = without (rs @ qs) xs"
  "set (without qs xs) = set xs - set qs"
  by (auto simp: without_def)

lemma cancel_opt_ok:
  assumes "timers_ok st xs fs" "set (pointers [p]) \<subseteq> set xs"
  shows "\<exists>fs'. timers_ok (cancel_opt p st) (without (pointers [p]) xs) fs'"
proof (cases p)
  case None
  then show ?thesis using assms(1) by (auto simp: cancel_opt_def)
next
  case (Some q)
  have "distinct xs" using assms(1) by (auto simp: timers_ok_def timer_lists_def)
  then have "remove1 q xs = without [q] xs"
    by (simp add: without_def distinct_remove1_removeAll removeAll_filter_not_eq eq_commute [of q])
  then show ?thesis
    using tmr_cancel_ok [OF assms(1), of q] assms(2) Some by (auto simp: cancel_opt_def)
qed

text \<open>Cancelling one timer after the other.\<close>

primrec cancel_opts :: "nat option list \<Rightarrow> tproc tmrs \<Rightarrow> tproc tmrs" where
  "cancel_opts [] st = st"
| "cancel_opts (p # ps) st = cancel_opts ps (cancel_opt p st)"

lemma cancel_opts_ok:
  "timers_ok st xs fs \<Longrightarrow> distinct (pointers ps) \<Longrightarrow> set (pointers ps) \<subseteq> set xs \<Longrightarrow>
    \<exists>fs'. timers_ok (cancel_opts ps st) (without (pointers ps) xs) fs'"
proof (induction ps arbitrary: st xs fs)
  case Nil
  then show ?case by auto
next
  case (Cons p ps)
  have one: "pointers (p # ps) = pointers [p] @ pointers ps" by (cases p) simp_all
  then have sub: "set (pointers [p]) \<subseteq> set xs" "distinct (pointers ps)" "set (pointers ps) \<subseteq> set (without (pointers [p]) xs)"
    using Cons.prems by auto
  obtain fs' where "timers_ok (cancel_opt p st) (without (pointers [p]) xs) fs'"
    using cancel_opt_ok [OF Cons.prems(1) sub(1)] by blast
  from Cons.IH [OF this sub(2,3)] show ?case by (simp add: one)
qed

lemma close_connections_timers:
  "preserves (\<lambda>t. P (tm t) (test_timers t) (streams t)) close_connections"
proof -
  have c: "preserves (\<lambda>t. P (tm t) (test_timers t) (streams t)) (call c)" for c
    by (rule preserves_call) (simp add: after_def test_timers_def)
  have s: "preserves (\<lambda>t. P (tm t) (test_timers t) (streams t)) close_streams"
    unfolding close_streams_def
    by (intro preserves_gets preserves_bind inv_rules preserves_modify c) (simp add: forget_fd_def test_timers_def)
  have w: "preserves (\<lambda>t. P (tm t) (test_timers t) (streams t)) (close_when b fd)" for b fd
    unfolding close_when_def by (intro preserves_bind inv_rules c)
  show ?thesis
    unfolding close_connections_def by (intro preserves_gets preserves_bind inv_rules s w)
qed

lemma cleanup_cancels:
  "wp cleanup_server (\<lambda>u t'. tm t' = cancel_opts (test_timers t) (tm t) \<and> test_timers t' = [None, None, None, None]
    \<and> streams t' = streams t) t"
proof -
  have "wp close_connections (\<lambda>u t'. tm t' = tm t \<and> test_timers t' = test_timers t \<and> streams t' = streams t) t"
    using close_connections_timers [of "\<lambda>a b c. a = tm t \<and> b = test_timers t \<and> c = streams t"]
    by (simp add: preserves_def)
  then show ?thesis
    unfolding cleanup_server_def wp_bind wp_modify
    by (rule wp_mono) (simp add: stop_timers_def test_timers_def)
qed

lemma free_streams_cancels:
  "wp (for_each sps (\<lambda>sp. do { modify (\<lambda>t. t\<lparr>streams := tl (streams t)\<rparr>); iperf_free_stream sp }))
    (\<lambda>u t'. tm t' = cancel_opts (map send_timer sps) (tm t) \<and> test_timers t' = test_timers t) t"
proof (induction sps arbitrary: t)
  case Nil
  then show ?case by (simp add: wp_simps)
next
  case (Cons sp sps)
  have "wp (do { modify (\<lambda>t. t\<lparr>streams := tl (streams t)\<rparr>); iperf_free_stream sp })
      (\<lambda>u t'. tm t' = cancel_opt (send_timer sp) (tm t) \<and> test_timers t' = test_timers t) t"
    unfolding iperf_free_stream_def by (simp add: wp_simps after_def test_timers_def)
  then show ?case
    unfolding for_each.simps wp_bind [of _ "\<lambda>u. for_each _ _"]
    by (rule wp_mono) (rule wp_mono [OF Cons], simp)
qed

lemma reset_fields_timers: "tm (reset_fields t) = tm t"
  by (simp add: reset_fields_def set_protocol_def check_sender_has_retransmits_def Let_def split: option.split)

lemma cleanup_and_reset:
  assumes "timers_ok (tm t) xs fs" "distinct (pointers (test_timers t @ map send_timer (streams t)))"
    "set xs = set (pointers (test_timers t @ map send_timer (streams t)))"
  shows "wp (do { cleanup_server; iperf_reset_test }) (\<lambda>u t'. \<exists>fs'. timers_ok (tm t') [] fs') t"
proof -
  obtain fs1 where 1: "timers_ok (cancel_opts (test_timers t) (tm t)) (without (pointers (test_timers t)) xs) fs1"
    using cancel_opts_ok [OF assms(1), of "test_timers t"] assms(2,3) by auto
  have "\<exists>fs2. timers_ok (cancel_opts (map send_timer (streams t)) (cancel_opts (test_timers t) (tm t)))
      (without (pointers (map send_timer (streams t))) (without (pointers (test_timers t)) xs)) fs2"
    by (rule cancel_opts_ok [OF 1]) (use assms(2,3) in auto)
  moreover have "without (pointers (map send_timer (streams t))) (without (pointers (test_timers t)) xs) = []"
    using assms(3) by (auto simp: without_def filter_empty_conv)
  ultimately obtain fs2 where 2: "timers_ok (cancel_opts (map send_timer (streams t)) (cancel_opts (test_timers t) (tm t))) [] fs2"
    by auto
  have "wp iperf_reset_test (\<lambda>u t'. \<exists>fs'. timers_ok (tm t') [] fs') t1"
    if "tm t1 = cancel_opts (test_timers t) (tm t)" "test_timers t1 = [None, None, None, None]" "streams t1 = streams t" for t1
    unfolding iperf_reset_test_def free_streams_def wp_bind wp_gets wp_modify that(3)
    by (rule wp_mono [OF free_streams_cancels])
      (use that(1,2) 2 in \<open>auto simp: reset_fields_timers cancel_test_timers_def test_timers_def cancel_opt_def\<close>)
  then show ?thesis
    unfolding wp_bind by (intro wp_mono [OF cleanup_cancels]) simp
qed

section \<open>An option that outlives its test\<close>

text \<open>
  The multipath flag is only ever switched on: neither the reset nor the parameters of the next
  client, whatever they are, switch it off.
\<close>

lemma unpack_params_sticks: "unpack_params j t = Some t' \<Longrightarrow> multipath t \<Longrightarrow> multipath t'"
proof (cases "\<exists>ms. j = JObject ms")
  case False
  assume u: "unpack_params j t = Some t'" and m: "multipath t"
  from False have none: "cJSON_GetObjectItem j k = None" for k by (cases j) auto
  then have miss: "when_member j k f u = u" "when_string j k g u = Some u" for k f g u
    by (simp_all add: when_member_def when_string_def)
  show ?thesis
    using u m by (auto simp: unpack_params_def unpack_strings_def unpack_flags_def unpack_settings_def unpack_test_def miss)
next
  case True
  assume "unpack_params j t = Some t'" "multipath t"
  then show ?thesis using True unpack_params_multipath by blast
qed

interpretation multipath_only: framed multipath
  by unfold_locales (simp_all add: after_def)

lemma multipath_sticks:
  assumes "multipath t"
  shows "wp (do { iperf_reset_test; get_parameters ps junk }) (\<lambda>r t'. multipath t') t"
proof -
  have "preserves multipath (do {
      u \<leftarrow> gets (unpack_params j);
      (case u of None \<Rightarrow> State_Monad.return Crash
       | Some t' \<Rightarrow> do { modify (\<lambda>u. t'); State_Monad.return (Ret 0) }) })" for j
    unfolding preserves_def by (auto simp: wp_simps unpack_params_sticks split: option.splits)
  then have "preserves multipath (get_parameters ps junk)"
    unfolding get_parameters_def
    by (intro preserves_gets preserves_bind inv_rules) (auto split: json_in.split option.split intro!: preserves_bind inv_rules)
  then show ?thesis
    unfolding wp_bind by (intro wp_mono [OF reset_keeps]) (use assms in \<open>simp add: kept_def preserves_def\<close>)
qed

section \<open>Stream ids\<close>

text \<open>A new stream is the next one of the list, or the list is as before.\<close>

lemma streams_kept:
  "preserves (\<lambda>t. streams t = xs) (call c)" "preserves (\<lambda>t. streams t = xs) (set_i_errno n)"
  "preserves (\<lambda>t. streams t = xs) (fail n)"
  "preserves (\<lambda>t. streams t = xs) (open_diskfile b)" "preserves (\<lambda>t. streams t = xs) (fill_buffer k)"
  "preserves (\<lambda>t. streams t = xs) (iperf_init_stream sp)" "preserves (\<lambda>t. streams t = xs) (refuse_stream n)"
proof -
  let ?J = "\<lambda>t. streams t = xs"
  show c: "preserves ?J (call c)" for c by (rule preserves_call) (simp add: after_def)
  show i: "preserves ?J (set_i_errno n)" "preserves ?J (fail n)" for n by (simp_all add: preserves_def wp_simps fail_def)
  have d: "preserves ?J (getsockdomain s)" for s unfolding getsockdomain_def by (intro preserves_bind inv_rules c)
  show "preserves ?J (open_diskfile b)" "preserves ?J (fill_buffer k)" "preserves ?J (refuse_stream n)"
    unfolding open_diskfile_def fill_buffer_def refuse_stream_def readentropy_def
    by (intro preserves_gets preserves_bind inv_rules c i)+
  have "preserves ?J (set_stream_tos sp)" "preserves ?J (set_stream_df sp)"
    unfolding set_stream_tos_def set_stream_df_def by (intro preserves_gets preserves_bind inv_rules c d i)+
  then show "preserves ?J (iperf_init_stream sp)"
    unfolding iperf_init_stream_def by (intro preserves_gets preserves_bind inv_rules c i)
qed

definition one_more :: "stream list \<Rightarrow> stream option \<Rightarrow> test \<Rightarrow> bool" where
  "one_more xs r t \<longleftrightarrow> (case r of None \<Rightarrow> streams t = xs
     | Some sp \<Rightarrow> \<exists>u. streams u = xs \<and> streams t = streams (iperf_add_stream sp u))"

lemma wp_streams_kept:
  "preserves (\<lambda>t. streams t = xs) m \<Longrightarrow> streams t = xs \<Longrightarrow> (\<And>a t'. streams t' = xs \<Longrightarrow> wp (k a) Q t') \<Longrightarrow>
    wp (State_Monad.bind m k) Q t"
  unfolding wp_bind preserves_def by (blast intro: wp_mono)

lemma refuse_adds: "streams t = xs \<Longrightarrow> wp (refuse_stream n) (one_more xs) t"
  "streams t = xs \<Longrightarrow> wp (State_Monad.return None) (one_more xs) t"
  by (simp_all add: refuse_stream_def wp_simps one_more_def)

lemma finish_adds: "streams t = xs \<Longrightarrow> wp (finish_stream s sender buf n) (one_more xs) t"
  unfolding finish_stream_def Let_def
  by (rule wp_streams_kept [OF streams_kept(4)], assumption)
    (auto simp: wp_if wp_bind [of "modify _"] wp_modify wp_return split: option.split
      intro!: wp_streams_kept [OF streams_kept(5)] wp_streams_kept [OF streams_kept(6)]
        wp_streams_kept [OF streams_kept(1)] refuse_adds, auto simp: one_more_def)

lemma new_stream_adds: "streams t = xs \<Longrightarrow> wp (iperf_new_stream s sender) (one_more xs) t"
  unfolding iperf_new_stream_def wp_bind [of "gets _"] wp_gets
  by ((rule wp_streams_kept [OF streams_kept(1)], assumption) | (rule refuse_adds finish_adds, assumption)
      | (simp only: wp_if split: if_split, intro conjI impI))+

lemma new_stream_numbered:
  assumes "numbered t"
  shows "wp (iperf_new_stream s sender) (\<lambda>r t'. numbered t'
    \<and> length (streams t') = length (streams t) + (if r = None then 0 else 1)) t"
proof (rule wp_mono [OF new_stream_adds [OF refl]])
  fix r t' assume m: "one_more (streams t) r t'"
  show "numbered t' \<and> length (streams t') = length (streams t) + (if r = None then 0 else 1)"
  proof (cases r)
    case None
    then show ?thesis using m assms by (simp add: one_more_def numbered_def)
  next
    case (Some sp)
    then obtain u where u: "streams u = streams t" "streams t' = streams (iperf_add_stream sp u)"
      using m by (auto simp: one_more_def)
    then have "numbered u" using assms by (simp add: numbered_def)
    then show ?thesis using add_stream_numbered(1) [of u sp] add_stream_numbered(2) [of sp u] u Some by (simp add: numbered_def)
  qed
qed

section \<open>Local ports\<close>

text \<open>
  The loop over the streams of one direction leaves the port of its last stream behind, from
  which a second loop, for the other direction, starts counting.
\<close>

interpretation port_only: framed "\<lambda>t. P (bind_port t)" for P
  by unfold_locales (simp_all add: after_def)

lemma create_stream_port:
  "wp (create_stream sender orig i) (\<lambda>r t'. bind_port t' = (if orig \<noteq> 0 then orig + int i else orig)) t"
proof -
  let ?b = "if orig \<noteq> 0 then orig + int i else orig"
  have "preserves (\<lambda>t. bind_port t = ?b) (do {
     s \<leftarrow> proto_connect;
     if s < 0 then State_Monad.return (-1) else do {
       c \<leftarrow> client_congestion s;
       if c < 0 then State_Monad.return (-1) else do {
         modify (\<lambda>t. if sender then t\<lparr>write_set := insert s (write_set t)\<rparr> else t\<lparr>read_set := insert s (read_set t)\<rparr>);
         modify (\<lambda>t. t\<lparr>max_fd := max (max_fd t) s\<rparr>);
         sp \<leftarrow> iperf_new_stream s sender;
         (case sp of None \<Rightarrow> State_Monad.return (-1)
          | Some x \<Rightarrow> do { connect_msg x; State_Monad.return 0 }) } } })"
    by (intro preserves_gets preserves_bind inv_rules preserves_modify) simp_all
  note body = this [unfolded preserves_def, rule_format]
  show ?thesis
    unfolding create_stream_def wp_bind [of "modify _"] wp_modify by (rule body) simp
qed

lemma create_streams_port:
  "wp (create_streams_from sender orig is) (\<lambda>r t'. r = 0 \<and> is \<noteq> [] \<and> orig \<noteq> 0 \<longrightarrow> bind_port t' = orig + int (last is)) t"
proof (induction "is" arbitrary: t)
  case Nil
  then show ?case by (simp add: wp_simps)
next
  case (Cons i "is")
  have rest: "wp (if r < 0 then State_Monad.return (-1) else create_streams_from sender orig is)
      (\<lambda>r t'. r = 0 \<and> i # is \<noteq> [] \<and> orig \<noteq> 0 \<longrightarrow> bind_port t' = orig + int (last (i # is))) t1"
    if "bind_port t1 = (if orig \<noteq> 0 then orig + int i else orig)" for r t1
  proof (cases "is")
    case Nil
    then show ?thesis using that by (simp add: wp_simps)
  next
    case (Cons j js)
    have "wp (create_streams_from sender orig is) (\<lambda>r t'. r = 0 \<and> i # is \<noteq> [] \<and> orig \<noteq> 0 \<longrightarrow> bind_port t' = orig + int (last (i # is))) t1"
      by (rule wp_mono [OF Cons.IH]) (use Cons in auto)
    then show ?thesis by (simp add: wp_simps)
  qed
  show ?case
    unfolding create_streams_from.simps wp_bind [of "create_stream _ _ _"]
    by (rule wp_mono [OF create_stream_port]) (rule rest)
qed

lemma ports_used:
  assumes "bind_port t \<noteq> 0" "0 < num_streams t"
  shows "wp (iperf_create_streams sender) (\<lambda>r t'. r = 0 \<longrightarrow> bind_port t' = bind_port t + num_streams t - 1) t"
proof -
  have "[0..<nat (num_streams t)] \<noteq> []" "int (last [0..<nat (num_streams t)]) = num_streams t - 1"
    using assms(2) by (auto simp: last_upt)
  then show ?thesis
    unfolding iperf_create_streams_def wp_bind wp_gets
    by (intro wp_mono [OF create_streams_port]) (use assms(1) in simp)
qed

end
