(* ===== verification/Reach.thy ===== *)
theory Reach
  imports Control
begin

text \<open>
  The server over many turns and many clients: what no client can change, which states the main
  loop reaches, how it ends.
\<close>

section \<open>What no client can change\<close>

text \<open>
  Three interfaces, each of a property that looks at less than the one before. \<open>staged\<close>: a property that also does
  not look at the state of the control connection; the messages of a client keep it. \<open>informed\<close>: one that the
  parameters of a client do not touch either. \<open>steady\<close>: one that the reset keeps; the whole life of a
  server keeps it.
\<close>

locale staged = framed +
  assumes stage: "\<And>t x. J (t\<lparr>test_state := x\<rparr>) = J t" "\<And>t x. J (t\<lparr>json_top := x\<rparr>) = J t"
begin

lemmas staged_eqs = frame_eqs stage

lemma announcing_state [inv_rules]: "preserves J (iperf_set_send_state st)"
  unfolding iperf_set_send_state_def
  by (intro preserves_gets preserves_bind inv_rules) (simp add: staged_eqs)

lemma refusing [inv_rules]: "preserves J reject_client" "preserves J report_listen_error"
  unfolding reject_client_def report_listen_error_def
  by (intro preserves_gets preserves_bind inv_rules)+

lemma opening_listener [inv_rules]: "preserves J open_listener"
  unfolding open_listener_def by (intro preserves_bind inv_rules) (simp add: staged_eqs)

lemma messages [inv_rules]: "preserves J (iperf_handle_message_server e)"
proof -
  have "preserves J (test_ended e)" "preserves J client_terminated"
    unfolding test_ended_def client_terminated_def
    by (intro preserves_gets preserves_bind inv_rules; simp add: staged_eqs)+
  then show ?thesis
    unfolding iperf_handle_message_server_def dispatch_server_def
    by (intro preserves_gets preserves_bind inv_rules) (simp_all add: staged_eqs)
qed

lemma starting [inv_rules]: "preserves J (start_test e)"
  unfolding start_test_def by (intro preserves_gets preserves_bind inv_rules) (simp_all add: staged_eqs)

lemma creating [inv_rules]: "preserves J (create_phase e rset r)"
  unfolding create_phase_def by (intro preserves_gets preserves_bind inv_rules)

lemma setting_up: "preserves J (prepare n)" "preserves J server_setup"
proof -
  have 1: "preserves J iperf_open_logfile" "preserves J iperf_json_start" "preserves J iperf_json_finish"
    unfolding iperf_open_logfile_def iperf_json_start_def iperf_json_finish_def
    by (intro preserves_gets preserves_bind inv_rules; simp add: staged_eqs)+
  show 2: "preserves J (prepare n)" for n
    unfolding prepare_def by (intro preserves_gets preserves_bind inv_rules 1)
  have 3: "preserves J iperf_server_listen"
    unfolding iperf_server_listen_def start_listening_def control_listener_def
    by (intro preserves_gets preserves_bind inv_rules) (simp_all add: staged_eqs set_settings_def)
  show "preserves J server_setup"
    unfolding server_setup_def by (intro preserves_bind inv_rules 2 3) (simp add: staged_eqs)
qed

end

locale informed = staged +
  assumes told: "\<And>t c. J (t\<lparr>cookie := c\<rparr>) = J t" "\<And>t s. J (t\<lparr>settings := s\<rparr>) = J t"
    and unpacked: "\<And>j t t'. unpack_params j t = Some t' \<Longrightarrow> J t \<Longrightarrow> J t'"
begin

lemmas informed_eqs = staged_eqs told

lemma params [inv_rules]: "preserves J (get_parameters ps junk)"
proof -
  have "preserves J (do {
      u \<leftarrow> gets (unpack_params j);
      (case u of None \<Rightarrow> State_Monad.return Crash
       | Some t' \<Rightarrow> do { modify (\<lambda>u. t'); State_Monad.return (Ret 0) }) })" for j
    unfolding preserves_def by (auto simp: wp_simps unpacked split: option.splits)
  then show ?thesis unfolding get_parameters_def
    by (intro preserves_gets preserves_bind inv_rules) (auto split: json_in.split option.split intro!: preserves_bind inv_rules)
qed

lemma exchange [inv_rules]: "preserves J (iperf_exchange_parameters e)"
proof -
  have send: "preserves J (send_parameters cr pr v)" for cr pr v
    unfolding send_parameters_def make_token_def encode_auth_setting_def Let_def
    by (intro preserves_gets preserves_bind inv_rules) (simp_all add: set_settings_def informed_eqs)
  show ?thesis
    unfolding iperf_exchange_parameters_def by (intro preserves_gets preserves_bind inv_rules send)
qed

lemma receiving_cookie [inv_rules]: "preserves J receive_cookie"
  unfolding receive_cookie_def refuse_def by (intro preserves_gets preserves_bind inv_rules) (simp add: informed_eqs)

lemma accepting_on:
  assumes "J (t\<lparr>ctrl_sck := s\<rparr>)"
  shows "wp (accept_client e s) (\<lambda>r. J) t"
proof -
  have rest: "accept_client e s = do { modify (\<lambda>t. t\<lparr>ctrl_sck := s\<rparr>); m }" if "m = do {
     o1 \<leftarrow> call (Setsockopt s TCP_NODELAY 1);
     if rv o1 \<noteq> 0 then do { r \<leftarrow> fail IESETNODELAY; State_Monad.return (Ret r) } else
     finish (seq receive_cookie (\<lambda>_. do {
       watch_read s;
       seq (attempt (lift (iperf_set_send_state PARAM_EXCHANGE))) (\<lambda>_.
       seq (attempt (iperf_exchange_parameters e)) (\<lambda>_. do {
         aff \<leftarrow> gets server_affinity;
         r \<leftarrow> (if aff \<noteq> -1 then iperf_setaffinity aff else State_Monad.return 0);
         if r \<noteq> 0 then State_Monad.return (Stop (Ret (-1))) else do {
           iperf_on_connect;
           State_Monad.return (Go ()) } })) })) }" for m
    unfolding that accept_client_def ..
  show ?thesis
    unfolding rest [OF refl] wp_bind [of "modify _"] wp_modify
    by (rule wp_preserved [of J, OF _ assms]) (intro preserves_gets preserves_bind inv_rules)
qed

end

locale steady = informed +
  assumes connection: "\<And>t s. J (t\<lparr>ctrl_sck := s\<rparr>) = J t"
    and run_data: "\<And>t n. J (t\<lparr>server_last_run_rc := n\<rparr>) = J t"
    and reset: "\<And>t. J t \<Longrightarrow> J (reset_fields t)"
begin

lemmas steady_eqs = informed_eqs connection run_data

lemma accepting_client [inv_rules]: "preserves J (iperf_accept e)"
proof -
  have "preserves J (accept_client e s)" for s
    using accepting_on by (simp add: preserves_def connection)
  then show ?thesis
    unfolding iperf_accept_def by (intro preserves_gets preserves_bind inv_rules)
qed

lemma prod_rule [inv_rules]: "(\<And>a b. preserves J (f a b)) \<Longrightarrow> preserves J (case x of (a, b) \<Rightarrow> f a b)"
  by (simp split: prod.split)

lemma turn [inv_rules]: "preserves J (server_turn e limit r)"
proof -
  have 2: "preserves J (client_events e rset r)" "preserves J (control_events e rset)" for rset r
    unfolding client_events_def control_events_def by (intro preserves_gets preserves_bind inv_rules)+
  have 3: "preserves J (handle_events e rd r)" for rd
    unfolding handle_events_def by (intro preserves_gets preserves_bind inv_rules 2)
  show ?thesis
    unfolding server_turn_def by (intro preserves_gets preserves_bind inv_rules 3)
qed

lemma loop:
  assumes "server_loop e limit r t = Some (x, t')" "J t"
  shows "J t'"
proof -
  have "ee = e \<longrightarrow> l = limit \<longrightarrow> J t \<longrightarrow> J (snd y)" if "server_loop ee l r t = Some y" for ee l r t y
    using that
  proof (rule server_loop.raw_induct [rotated], goal_cases)
    case (1 loop ee l r t y)
    then show ?case using preservesD [OF turn [of e limit r], of t]
      by (auto split: if_splits step.splits prod.splits) (metis prod.collapse)
  qed
  then show ?thesis using assms by force
qed

lemma ending_server: "preserves J server_end" "preserves J iperf_json_finish"
proof -
  show 1: "preserves J iperf_json_finish"
    unfolding iperf_json_finish_def by (intro preserves_bind inv_rules) (simp add: steady_eqs)
  show "preserves J server_end"
    unfolding server_end_def iperf_clearaffinity_def by (intro preserves_gets preserves_bind inv_rules 1)
qed

lemma one_run:
  assumes "iperf_run_server e stale t = Some (x, t')" "J t"
  shows "J t'"
proof -
  obtain s t1 where s: "run_state server_setup t = (s, t1)" by (metis prod.exhaust)
  then have t1: "J t1" using preservesD [OF setting_up(2)] assms(2) by force
  show ?thesis
  proof (cases s)
    case (Stop y)
    then show ?thesis using assms s t1 by (simp add: iperf_run_server_def)
  next
    case (Go start)
    let ?r = "\<lparr>last_receive = start, send_accepted = 0, rec_accepted = 0, to_send = 0, to_rec = 0, accept_flag = stale\<rparr>"
    obtain y t2 where l: "server_loop e (rcv_timeout_us t1) ?r t1 = Some (y, t2)"
      using assms(1) s Go by (auto simp: iperf_run_server_def split: option.splits)
    have t2: "J t2" by (rule loop [OF l t1])
    show ?thesis
      using assms(1) s Go l t2 preservesD [OF ending_server(1) t2]
      by (cases y) (auto simp: iperf_run_server_def)
  qed
qed

lemma resetting: "preserves J iperf_reset_test"
  unfolding iperf_reset_test_def free_streams_def
  by (intro preserves_gets preserves_bind preserves_modify [of J reset_fields] inv_rules reset)
    (simp_all add: steady_eqs cancel_test_timers_def)

lemma closing_run: "J t \<Longrightarrow> J (after_run rc t)"
  using preservesD [OF ending_server(2)] by (simp add: after_run_def Let_def steady_eqs)

text \<open>Between two tests.\<close>

lemma next_client: "J t \<Longrightarrow> J (snd (run_state iperf_reset_test (after_run rc t)))"
  by (rule preservesD [OF resetting closing_run])

end

section \<open>A server's options\<close>

text \<open>The options of the server that matter for who may run a test, and for how many.\<close>

type_synonym options = "bool \<times> string option \<times> string option \<times> int"

definition server_options :: "test \<Rightarrow> options" where
  "server_options t = (one_off t, server_rsa_private_key t, server_authorized_users t, server_skew_threshold t)"

interpretation options_stay: steady "\<lambda>t. P (server_options t)" for P
proof unfold_locales
  show "P (server_options t')" if "unpack_params j t = Some t'" "P (server_options t)" for j t t'
    using unpack_params_server_only [OF that(1)] that(2) by (simp add: server_options_def server_only_def)
qed (simp_all add: server_options_def after_def reset_fields_def set_protocol_def check_sender_has_retransmits_def
    Let_def split: option.split)

interpretation role_stays: steady "\<lambda>t. test_role t \<noteq> CHR ''c''"
proof unfold_locales
  show "test_role t' \<noteq> CHR ''c''" if "unpack_params j t = Some t'" "test_role t \<noteq> CHR ''c''" for j t t'
    using unpack_params_server_only [OF that(1)] that(2) by (simp add: server_only_def)
qed (simp_all add: after_def reset_fields_def set_protocol_def check_sender_has_retransmits_def
    Let_def split: option.split)

section \<open>The states of the main loop\<close>

text \<open>What the main loop of a server passes through, from the end of its set-up.\<close>

definition first_run :: "int \<Rightarrow> iperf_time \<Rightarrow> server_run" where
  "first_run stale start = \<lparr>last_receive = start, send_accepted = 0, rec_accepted = 0, to_send = 0, to_rec = 0,
     accept_flag = stale\<rparr>"

inductive reaches :: "env \<Rightarrow> int \<Rightarrow> server_run \<Rightarrow> test \<Rightarrow> server_run \<Rightarrow> test \<Rightarrow> bool"
  for e limit r0 t0 where
  start: "reaches e limit r0 t0 r0 t0"
| turn: "reaches e limit r0 t0 r t \<Longrightarrow> test_state t \<noteq> IPERF_DONE \<Longrightarrow>
    run_state (server_turn e limit r) t = (Go r', t') \<Longrightarrow> reaches e limit r0 t0 r' t'"

inductive_simps reaches_simps: "reaches e limit r0 t0 r t"

lemma reaches_counted:
  "reaches e limit r0 t0 r t \<Longrightarrow> counted r0 (phase t0) \<Longrightarrow> counted r (phase t)"
proof (induction rule: reaches.induct)
  case (turn r t r' t')
  then show ?case using ensuresD [OF server_turn_counted] by blast
qed

lemma set_up_state: "run_state server_setup t = (Go start, t') \<Longrightarrow> test_state t' = IPERF_START"
  by (auto simp: server_setup_def seq_def run_simps split: prod.splits step.splits if_splits)

lemma running_counts:
  assumes "run_state server_setup t = (Go start, t0)" "reaches e limit (first_run stale start) t0 r t1"
    "test_state t1 = TEST_RUNNING"
  shows "rec_accepted r = (if mode t1 = SENDER then 0 else num_streams t1)
    \<and> send_accepted r = (if mode t1 = RECEIVER then 0 else num_streams t1)"
proof -
  have "counted (first_run stale start) (phase t0)"
    using set_up_state [OF assms(1)] by (simp add: counted_def phase_def)
  then show ?thesis
    using reaches_counted [OF assms(2)] assms(3) by (simp add: counted_def phase_def announced_def complete_def)
qed

section \<open>No test without a token\<close>

text \<open>
  \<open>presented e fd evs tok\<close>: in these calls (the last one first) a text was read from \<open>fd\<close> that the parser makes into a
  document with the token \<open>tok\<close>. \<open>vouched e old t\<close>: if the server has a key and a file of users, then in
  the calls since \<open>old\<close> the client has presented a token on the control connection that names a
  user of the file with the right password, and whose time was within the skew of a reading of the clock.
\<close>

definition presented :: "env \<Rightarrow> int \<Rightarrow> (sysc \<times> int) list \<Rightarrow> string \<Rightarrow> bool" where
  "presented e fd evs tok \<longleftrightarrow> (\<exists>bs sofar rest j v. concat (map (got_of fd) (rev evs)) = sofar @ bs @ rest
     \<and> e_parse e (c_string (bs @ [0])) = Some j \<and> cJSON_GetObjectItem j ''authtoken'' = Some v
     \<and> valuestring v = Some tok)"

definition vouched :: "env \<Rightarrow> (sysc \<times> int) list \<Rightarrow> test \<Rightarrow> bool" where
  "vouched e old t \<longleftrightarrow> (\<forall>key file. server_rsa_private_key t = Some key \<longrightarrow> server_authorized_users t = Some file \<longrightarrow>
     (\<exists>new tok u p ts now contents l. trace t = new @ old \<and> presented e (ctrl_sck t) new tok
        \<and> decode_auth_setting (e_crypto e) tok key = Credentials u p ts
        \<and> (Clock_Time, now) \<in> set new \<and> in_window (server_skew_threshold t) now ts
        \<and> read_file (e_crypto e) file = Some contents \<and> l \<in> set (fgets_all contents)
        \<and> grants u (sha256 (e_crypto e) (salted u p)) l))"

lemma presented_later: "presented e fd evs tok \<Longrightarrow> presented e fd (c # evs) tok"
  unfolding presented_def by (metis (no_types, opaque_lifting) append.assoc concat_append map_append rev.simps(2))

lemma vouched_later: "vouched e old t \<Longrightarrow> vouched e old (after c r t)"
proof -
  assume v: "vouched e old t"
  show "vouched e old (after c r t)"
    unfolding vouched_def
  proof (intro allI impI)
    fix key users
    let ?t = "after c r t"
    assume k: "server_rsa_private_key ?t = Some key" "server_authorized_users ?t = Some users"
    then have "server_rsa_private_key t = Some key" "server_authorized_users t = Some users" by (simp_all add: after_def)
    then obtain new tok u p ts now contents l where n: "trace t = new @ old" "presented e (ctrl_sck t) new tok"
        "decode_auth_setting (e_crypto e) tok key = Credentials u p ts" "(Clock_Time, now) \<in> set new"
        "in_window (server_skew_threshold t) now ts" "read_file (e_crypto e) users = Some contents"
        "l \<in> set (fgets_all contents)" "grants u (sha256 (e_crypto e) (salted u p)) l"
      using v unfolding vouched_def by blast
    have "trace ?t = ((c, r) # new) @ old" "presented e (ctrl_sck ?t) ((c, r) # new) tok"
      "(Clock_Time, now) \<in> set ((c, r) # new)" "in_window (server_skew_threshold ?t) now ts"
      using n(1,2,4,5) presented_later by (simp_all add: after_def)
    with n(3,6-8) show "\<exists>new tok u p ts now contents l. trace ?t = new @ old \<and> presented e (ctrl_sck ?t) new tok
        \<and> decode_auth_setting (e_crypto e) tok key = Credentials u p ts
        \<and> (Clock_Time, now) \<in> set new \<and> in_window (server_skew_threshold ?t) now ts
        \<and> read_file (e_crypto e) users = Some contents \<and> l \<in> set (fgets_all contents)
        \<and> grants u (sha256 (e_crypto e) (salted u p)) l" by blast
  qed
qed

interpretation vouching: staged "vouched e old" for e old
  by unfold_locales (erule vouched_later | simp add: vouched_def)+

text \<open>The calls of a test, and a test for which no token has come.\<close>

definition goes_on :: "(sysc \<times> int) list \<Rightarrow> test \<Rightarrow> bool" where
  "goes_on old t \<longleftrightarrow> test_role t \<noteq> CHR ''c'' \<and> (\<exists>new. trace t = new @ old)"

lemma goes_on_later: "goes_on old t \<Longrightarrow> goes_on old (after c r t)"
  by (auto simp: goes_on_def after_def)

interpretation going: steady "goes_on old" for old
proof unfold_locales
  show "goes_on old (after c r t)" if "goes_on old t" for c r t using that by (rule goes_on_later)
  show "goes_on old t'" if "unpack_params j t = Some t'" "goes_on old t" for j t t'
    using unpack_params_server_only [OF that(1)] that(2) by (simp add: goes_on_def server_only_def)
qed (simp_all add: goes_on_def reset_fields_def set_protocol_def check_sender_has_retransmits_def
    Let_def split: option.split)

definition tokenless :: "(sysc \<times> int) list \<Rightarrow> test \<Rightarrow> bool" where
  "tokenless old t \<longleftrightarrow> goes_on old t \<and> authtoken (settings t) = None"

interpretation waiting: staged "tokenless old" for old
  by unfold_locales (auto simp: tokenless_def goes_on_later, auto simp: tokenless_def goes_on_def after_def)

interpretation socket: informed "\<lambda>t. P (ctrl_sck t)" for P
proof unfold_locales
  show "P (ctrl_sck t')" if "unpack_params j t = Some t'" "P (ctrl_sck t)" for j t t'
    using unpack_params_server_only [OF that(1)] that(2) by (simp add: server_only_def)
qed simp_all

interpretation socket_token: staged "\<lambda>t. P (ctrl_sck t) (authtoken (settings t))" for P
  by unfold_locales (simp_all add: after_def)

text \<open>What a block read adds to the trace.\<close>

lemma Nread_adds:
  assumes "Nread fd n w = (r, bs, w')"
  shows "\<exists>new. trace w' = new @ trace w \<and> concat (map (got_of fd) (rev new)) = bs"
proof -
  have "\<exists>new. trace (snd (snd (Nread fd n w))) = new @ trace w"
    unfolding Nread_def by (rule Nread_loop_inv) (auto simp: after_def)
  then obtain new where new: "trace w' = new @ trace w" using assms by auto
  moreover have "got w' fd = got w fd @ bs" using Nread_spec [of fd n w] assms by (auto simp: read_outcome_def)
  ultimately show ?thesis by (simp add: got_def)
qed

lemma JSON_read_adds:
  assumes "run_state (JSON_read ps junk fd) w = (Got (Some j), w')"
  shows "\<exists>new bs sofar. trace w' = new @ trace w \<and> concat (map (got_of fd) (rev new)) = sofar @ bs \<and> ps (c_string (bs @ [0])) = Some j"
proof -
  obtain r hdr w1 where h: "Nread fd 4 w = (r, hdr, w1)" by (cases "Nread fd 4 w")
  obtain k bs w2 where b: "Nread fd (unat (of_nat (be_value (take 4 (put_header hdr junk))) :: u32)) w1 = (k, bs, w2)"
    by (cases "Nread fd (unat (of_nat (be_value (take 4 (put_header hdr junk))) :: u32)) w1")
  have w2: "w' = w2" "ps (c_string (bs @ [0])) = Some j"
    using assms h b by (auto simp: JSON_read_def run_simps nread_def Let_def split: if_splits)
  with Nread_adds [OF h] Nread_adds [OF b] show ?thesis by fastforce
qed

lemma parameters_presented:
  assumes "run_state (get_parameters (e_parse e) junk) t = (Ret 0, t1)" "authtoken (settings t) = None"
    "authtoken (settings t1) = Some tok" "trace t = before @ old"
  shows "\<exists>new. trace t1 = new @ old \<and> presented e (ctrl_sck t1) new tok"
proof -
  obtain m w where m: "run_state (JSON_read (e_parse e) junk (ctrl_sck t)) t = (m, w)" by (metis prod.exhaust)
  obtain j where j: "m = Got (Some j)" "unpack_params j w = Some t1"
    using assms(1) m by (auto simp: get_parameters_def run_simps fail_def split: json_in.splits option.splits)
  obtain new bs sofar where n: "trace w = new @ trace t" "concat (map (got_of (ctrl_sck t)) (rev new)) = sofar @ bs"
      "e_parse e (c_string (bs @ [0])) = Some j"
    using JSON_read_adds [OF m [unfolded j(1)]] by blast
  have w: "authtoken (settings w) = None" "ctrl_sck w = ctrl_sck t"
    using preservesD [OF socket_token.json_frames(2) [of "\<lambda>s tok. s = ctrl_sck t \<and> tok = None" "e_parse e" junk "ctrl_sck t"], of t]
      assms(2) m by simp_all
  have t1: "trace t1 = trace w" "ctrl_sck t1 = ctrl_sck t"
    using unpack_params_server_only [OF j(2)] w(2) by (simp_all add: server_only_def)
  obtain v where "cJSON_GetObjectItem j ''authtoken'' = Some v" "valuestring v = Some tok"
    using unpack_params_token [OF j(2)] assms(3) w(1) by (auto split: option.splits)
  then have "presented e (ctrl_sck t1) (new @ before) tok"
    unfolding presented_def using n(2,3) t1(2)
    by (intro exI [of _ bs] exI [of _ "concat (map (got_of (ctrl_sck t)) (rev before)) @ sofar"] exI [of _ "[]"]) auto
  then show ?thesis using t1(1) n(1) assms(4) by (intro exI [of _ "new @ before"]) simp
qed

text \<open>After the check, the rest of the exchange leaves this alone.\<close>

lemma exchange_vouches:
  "yields (tokenless old) (iperf_exchange_parameters e) (vouched e old)"
  unfolding yields_def
proof (intro allI impI)
  fix t n t'
  assume t: "tokenless old t" and run: "run_state (iperf_exchange_parameters e) t = (Ret n, t')" and n: "0 \<le> n"
  then obtain before where role: "test_role t \<noteq> CHR ''c''" "authtoken (settings t) = None" "trace t = before @ old"
    by (auto simp: tokenless_def goes_on_def)
  obtain g t1 where g: "run_state (get_parameters (e_parse e) (e_junk e)) t = (g, t1)" by (metis prod.exhaust)
  obtain a t2 where a: "run_state (test_is_authorized (e_crypto e)) t1 = (a, t2)" by (metis prod.exhaust)
  have g0: "g = Ret 0"
    using run n role g get_parameters_result [of "e_parse e" "e_junk e" t _ t1]
    by (cases g) (auto simp: iperf_exchange_parameters_def run_simps split: if_splits)
  have rest: "run_state (case a of Crash \<Rightarrow> State_Monad.return Crash
      | Ret k \<Rightarrow> if k < 0 then reject_client else open_listener) t2 = (Ret n, t')"
    using run role g g0 a by (simp add: iperf_exchange_parameters_def run_simps)
  then have o: "run_state open_listener t2 = (Ret n, t')"
    using n reject_negative [of t2 n t'] by (cases a) (auto simp: run_simps split: if_splits)
  have opts: "server_options t1 = server_options t"
    using preservesD [OF options_stay.params [of "\<lambda>q. q = server_options t" "e_parse e" "e_junk e"], of t] g by simp
  have opts2: "server_options t2 = server_options t1"
    using preservesD [OF options_stay.admitting(1) [of "\<lambda>q. q = server_options t1" "e_crypto e"], of t1] a by simp
  have fd: "ctrl_sck t2 = ctrl_sck t1"
    using preservesD [OF socket_only.admitting(1) [of "\<lambda>s. s = ctrl_sck t1" "e_crypto e"], of t1] a by simp
  have "vouched e old t2"
  proof (cases "server_rsa_private_key t = None \<or> server_authorized_users t = None")
    case True
    then show ?thesis using opts opts2 by (auto simp: vouched_def server_options_def)
  next
    case False
    then obtain key users where k: "server_rsa_private_key t = Some key" "server_authorized_users t = Some users" by auto
    then have k1: "server_rsa_private_key t1 = Some key" "server_authorized_users t1 = Some users"
      using opts by (simp_all add: server_options_def)
    have l: "lets_in (e_crypto e) t1 key users" using exchange_needs_token [OF role(1) k run n] g by auto
    have clock: "trace t2 = (Clock_Time, rv (answer t1)) # trace t1"
      using authorized_reads_clock [OF k1, of _ "e_crypto e"] a l by (fastforce simp: lets_in_def)
    obtain tok where tok: "authtoken (settings t1) = Some tok" using l by (auto simp: lets_in_def)
    obtain new where new: "trace t1 = new @ old" "presented e (ctrl_sck t1) new tok"
      using parameters_presented [OF g [unfolded g0] role(2) tok role(3)] by blast
    have "presented e (ctrl_sck t2) ((Clock_Time, rv (answer t1)) # new) tok" using new(2) fd presented_later by simp
    moreover have "trace t2 = ((Clock_Time, rv (answer t1)) # new) @ old" using clock new(1) by simp
    moreover have "server_skew_threshold t2 = server_skew_threshold t1" "server_rsa_private_key t2 = Some key"
        "server_authorized_users t2 = Some users"
      using opts2 k1 by (simp_all add: server_options_def)
    ultimately show ?thesis
      using l tok unfolding vouched_def lets_in_def by (metis list.set_intros(1) option.inject)
  qed
  then show "vouched e old t'"
    using preservesD [OF vouching.opening_listener [of e old], of t2] o by simp
qed

lemma accept_client_vouches: "yields (tokenless old) (accept_client e s) (vouched e old)"
proof -
  let ?J = "tokenless old" and ?K = "vouched e old"
  define tail where "tail = (do {
         aff \<leftarrow> gets server_affinity;
         r \<leftarrow> (if aff \<noteq> -1 then iperf_setaffinity aff else State_Monad.return 0);
         if r \<noteq> 0 then State_Monad.return (Stop (Ret (-1))) else do {
           iperf_on_connect;
           State_Monad.return (Go ()) } } :: (test, unit step) state)"
  define body where "body = seq receive_cookie (\<lambda>_. do {
       watch_read s;
       seq (attempt (lift (iperf_set_send_state PARAM_EXCHANGE))) (\<lambda>_.
       seq (attempt (iperf_exchange_parameters e)) (\<lambda>_. tail)) })"
  have k: "preserves ?K tail"
    unfolding tail_def by (intro preserves_gets preserves_bind inv_rules)
  have exchange: "ensures ?J (seq (attempt (iperf_exchange_parameters e)) (\<lambda>_. tail)) (\<lambda>_. ?K)"
    by (rule ensures_seq [OF yields_attempt [OF exchange_vouches] ensures_frame [OF k]])
  have c: "ensures ?J receive_cookie (\<lambda>_. ?J)"
    unfolding receive_cookie_def refuse_def
    by (rule ensures_frame) (intro preserves_gets preserves_bind inv_rules preserves_modify, simp add: tokenless_def goes_on_def)
  have p: "ensures ?J (attempt (lift (iperf_set_send_state PARAM_EXCHANGE))) (\<lambda>_. ?J)"
    by (rule ensures_frame) (intro inv_rules)
  have "ensures ?J body (\<lambda>_. ?K)"
    unfolding body_def
    by (rule ensures_seq [OF c ensures_bind [OF waiting.watching ensures_seq [OF p exchange]]])
  moreover have "fails body"
    unfolding body_def tail_def receive_cookie_def by (intro fail_rules)
  ultimately have fin: "yields ?J (finish body) ?K" by (rule yields_finish)
  show ?thesis
    unfolding yields_def
  proof (intro allI impI)
    fix t n t'
    assume t: "?J t" and run: "run_state (accept_client e s) t = (Ret n, t')" and n: "0 \<le> n"
    let ?t = "after (Setsockopt s TCP_NODELAY 1) (rv (answer (t\<lparr>ctrl_sck := s\<rparr>))) (t\<lparr>ctrl_sck := s\<rparr>)"
    have "run_state (finish body) ?t = (Ret n, t')"
      using run n by (auto simp: accept_client_def body_def tail_def run_simps fail_def split: if_splits)
    moreover have "?J ?t" using t by (intro waiting.after) (simp add: tokenless_def goes_on_def)
    ultimately show "?K t'" using yieldsD [OF fin] n by blast
  qed
qed

text \<open>
  The invariant of the main loop: as long as there is no client there is no token, and the streams are accepted only for a
  client that is vouched for.
\<close>

definition admitted :: "env \<Rightarrow> (sysc \<times> int) list \<Rightarrow> test \<Rightarrow> bool" where
  "admitted e old t \<longleftrightarrow> goes_on old t \<and> (ctrl_sck t = -1 \<longrightarrow> authtoken (settings t) = None)
     \<and> (test_state t \<in> {CREATE_STREAMS, TEST_RUNNING} \<longrightarrow> vouched e old t)"

lemma admitted_later: "admitted e old t \<Longrightarrow> admitted e old (after c r t)"
  using goes_on_later [of old t c r] vouched_later [of e old t c r] by (auto simp: admitted_def) (auto simp: after_def)

interpretation admission: framed "admitted e old" for e old
  by unfold_locales (erule admitted_later | simp add: admitted_def goes_on_def vouched_def)+

lemma accept_admits: "yields (admitted e old) (iperf_accept e) (admitted e old)"
  unfolding yields_def
proof (intro allI impI)
  fix t n t'
  assume t: "admitted e old t" and run: "run_state (iperf_accept e) t = (Ret n, t')" and n: "0 \<le> n"
  let ?s = "rv (answer t)" and ?t = "after (Accept (listener t)) (rv (answer t)) t"
  have s: "0 \<le> ?s" using run n by (auto simp: iperf_accept_def run_simps fail_def split: if_splits)
  have t1: "admitted e old ?t" using t by (rule admission.after)
  have go: "goes_on old t'"
    using preservesD [OF going.accepting_client [of old e], of t] t run by (simp add: admitted_def)
  show "admitted e old t'"
  proof (cases "ctrl_sck ?t = -1")
    case True
    then have a: "run_state (accept_client e ?s) ?t = (Ret n, t')"
      using run s by (simp add: iperf_accept_def run_simps)
    have "vouched e old t'"
      by (rule yieldsD [OF accept_client_vouches _ a n]) (use t1 True in \<open>simp add: admitted_def tokenless_def\<close>)
    moreover have "ctrl_sck t' = ?s"
      using socket.accepting_on [of "\<lambda>x. x = ?s" ?s ?t e] a by (simp add: wp_iff_run)
    ultimately show ?thesis using go s by (simp add: admitted_def)
  next
    case False
    then have "run_state (turn_away ?s) ?t = (Ret n, t')" using run s by (simp add: iperf_accept_def run_simps)
    then show ?thesis using preservesD [OF admission.admitting(5) [of e old ?s], of ?t] t1 by simp
  qed
qed

lemma message_admits: "yields (admitted e old) (iperf_handle_message_server e) (admitted e old)"
  unfolding yields_def
proof (intro allI impI)
  fix t n t'
  assume t: "admitted e old t" and run: "run_state (iperf_handle_message_server e) t = (Ret n, t')" and n: "0 \<le> n"
  have "goes_on old t'" using preservesD [OF going.messages [of old e], of t] t run by (simp add: admitted_def)
  moreover have "ctrl_sck t' = -1 \<longrightarrow> authtoken (settings t') = None"
    using preservesD [OF socket_token.messages [of "\<lambda>s tok. s = -1 \<longrightarrow> tok = None" e], of t] t run
    by (simp add: admitted_def)
  ultimately show "admitted e old t'" using yieldsD [OF message_quiet _ run n] by (simp add: admitted_def)
qed

lemma create_admits:
  "ensures (\<lambda>t. admitted e old t \<and> test_state t = CREATE_STREAMS) (create_phase e rset r) (\<lambda>x. admitted e old)"
  by (rule ensures_weaken [OF ensures_both [OF ensures_frame [OF going.creating [of old]]
        ensures_both [OF ensures_frame [OF socket_token.creating [of "\<lambda>s tok. s = -1 \<longrightarrow> tok = None"]]
          ensures_frame [OF vouching.creating [of e old]]]]])
    (simp_all add: admitted_def)

interpretation admitting: turn_invariant e "\<lambda>r. admitted e old" for e old
  by (rule turn_invariant.intro [OF admission.framed_axioms refl ensures_guarded [OF accept_admits]
        ensures_guarded [OF message_admits] create_admits])

lemma reaches_admitted: "reaches e limit r0 t0 r t \<Longrightarrow> admitted e old t0 \<Longrightarrow> admitted e old t"
proof (induction rule: reaches.induct)
  case (turn r t r' t')
  then show ?case using ensuresD [OF admitting.turn_keeps] by blast
qed

text \<open>Every test of a server begins without a token.\<close>

lemma next_test_clean: "test_role (next_test rc t) = CHR ''s'' \<and> authtoken (settings (next_test rc t)) = None"
proof -
  have "cleared (next_test rc t)"
    using reset_keeps [of "after_run rc t"] by (simp add: next_test_def wp_iff_run)
  then show ?thesis by (simp add: cleared_def Let_def)
qed

lemma begun_clean:
  "begun e stale t0 t \<Longrightarrow> test_role t0 \<noteq> CHR ''c'' \<Longrightarrow> authtoken (settings t0) = None \<Longrightarrow>
    test_role t \<noteq> CHR ''c'' \<and> authtoken (settings t) = None"
  by (induction rule: begun.induct) (simp_all add: next_test_clean)

lemma no_test_without_token:
  assumes "test_role t0 \<noteq> CHR ''c''" "authtoken (settings t0) = None" "begun e stale t0 t"
    "run_state server_setup t = (Go start, t1)" "reaches e limit (first_run stale start) t1 r t2"
    "test_state t2 \<in> {CREATE_STREAMS, TEST_RUNNING}"
  shows "vouched e (trace t) t2"
proof -
  have "tokenless (trace t) t" using begun_clean [OF assms(3,1,2)] by (simp add: tokenless_def goes_on_def)
  then have "tokenless (trace t) t1" using preservesD [OF waiting.setting_up(2)] assms(4) by (metis snd_conv)
  then have "admitted e (trace t) t1" using set_up_state [OF assms(4)] by (simp add: admitted_def tokenless_def)
  then show ?thesis using reaches_admitted [OF assms(5)] assms(6) by (auto simp: admitted_def)
qed

section \<open>How the server ends\<close>

text \<open>The results with which the main loop may be left early.\<close>

definition stops :: "('s, 'a step) state \<Rightarrow> bool" where
  "stops m \<longleftrightarrow> (\<forall>s x s'. run_state m s = (Stop x, s') \<longrightarrow> x \<in> {Crash, Ret (-1), Ret 2})"

named_theorems stop_rules \<open>results of early exits, by the shape of the code\<close>

lemma stops_seq [stop_rules]: "stops m \<Longrightarrow> (\<And>a. stops (k a)) \<Longrightarrow> stops (seq m k)"
  by (fastforce simp: stops_def seq_def run_simps split: prod.splits step.splits)

lemma stops_bind [stop_rules]: "(\<And>a. stops (k a)) \<Longrightarrow> stops (State_Monad.bind m k)"
  by (auto simp: stops_def run_simps split: prod.splits)

lemma stops_if [stop_rules]: "stops m \<Longrightarrow> stops n \<Longrightarrow> stops (if b then m else n)"
  by simp

lemma stops_basic [stop_rules]: "stops (State_Monad.return (Go a))" "stops (State_Monad.return (Stop (Ret (-1))))"
  "stops (State_Monad.return (Stop (Ret 2)))" "stops (guarded m')" "stops (give_up code)" "stops (run_due_timers e)"
  by (auto simp: stops_def run_simps guarded_def give_up_def run_due_timers_def split: prod.splits outcome.splits if_splits option.splits)

lemma stops_case [stop_rules]: "stops m \<Longrightarrow> (\<And>a. stops (k a)) \<Longrightarrow> stops (case x of None \<Rightarrow> m | Some a \<Rightarrow> k a)"
  "(\<And>a b. stops (f a b)) \<Longrightarrow> stops (case y of (a, b) \<Rightarrow> f a b)"
  "stops m1 \<Longrightarrow> stops m2 \<Longrightarrow> stops m3 \<Longrightarrow> stops (case d of SENDER \<Rightarrow> m1 | RECEIVER \<Rightarrow> m2 | BIDIRECTIONAL \<Rightarrow> m3)"
  by (auto split: option.split prod.split test_mode.split)

lemma server_turn_stops: "stops (server_turn e limit r)"
  unfolding server_turn_def handle_events_def client_events_def control_events_def nothing_came_def create_phase_def
    accept_stream_def add_accepted_def server_congestion_def read_congestion_def abort_congestion_def
    start_test_def renew_listener_def move_data_def Let_def
  by (intro stop_rules)

lemma server_loop_stops:
  assumes "server_loop e limit r t = Some (Stop x, t')"
  shows "x \<in> {Crash, Ret (-1), Ret 2}"
proof -
  have "l = limit \<longrightarrow> (\<forall>x. fst y = Stop x \<longrightarrow> x \<in> {Crash, Ret (-1), Ret 2})"
    if "server_loop ee l r t = Some y" for ee l r t y
    using that
  proof (rule server_loop.raw_induct [rotated], goal_cases)
    case (1 loop ee l r t y)
    then show ?case using server_turn_stops [of ee limit r]
      by (auto simp: stops_def split: if_splits step.splits prod.splits) (metis fst_conv)+
  qed
  then show ?thesis using assms by force
qed

lemma run_server_codes:
  assumes "iperf_run_server e stale t = Some (Ret n, t')"
  shows "n \<in> {0, -1, 2} \<or> n = -2 \<and> run_state server_setup t = (Stop (Ret (-2)), t')"
proof -
  obtain s t1 where s: "run_state server_setup t = (s, t1)" by (metis prod.exhaust)
  show ?thesis
  proof (cases s)
    case (Stop x)
    then have x: "x = Ret n" "t' = t1" using assms s by (simp_all add: iperf_run_server_def)
    have "n \<in> {-1, -2}"
      using s Stop x by (auto simp: server_setup_def prepare_def seq_def attempt_def lift_def run_simps
          split: prod.splits step.splits outcome.splits if_splits)
    then show ?thesis using s Stop x by auto
  next
    case (Go start)
    let ?r = "\<lparr>last_receive = start, send_accepted = 0, rec_accepted = 0, to_send = 0, to_rec = 0, accept_flag = stale\<rparr>"
    obtain y t2 where l: "server_loop e (rcv_timeout_us t1) ?r t1 = Some (y, t2)"
      using assms s Go by (auto simp: iperf_run_server_def split: option.splits)
    show ?thesis
    proof (cases y)
      case (Stop x)
      then have "x = Ret n" using assms s Go l by (simp add: iperf_run_server_def)
      then show ?thesis using server_loop_stops [of e "rcv_timeout_us t1" ?r t1 x t2] l Stop by auto
    next
      case (Go u)
      then have "run_state server_end t2 = (Ret n, t')" using assms s \<open>s = Go start\<close> l by (simp add: iperf_run_server_def)
      then show ?thesis by (auto simp: server_end_def run_simps split: prod.splits if_splits)
    qed
  qed
qed

text \<open>A server without the one-off option serves client after client, until it cannot listen any more.\<close>

lemma next_options:
  assumes "iperf_run_server e stale t = Some (x, t1)"
  shows "server_options (next_test rc t1) = server_options t"
  unfolding next_test_def
  using options_stay.next_client [of "\<lambda>q. q = server_options t"] options_stay.one_run [OF assms, of "\<lambda>q. q = server_options t"]
  by simp

lemma begun_options: "begun e stale t t0 \<Longrightarrow> server_options t0 = server_options t"
  by (induction rule: begun.induct) (simp_all add: next_options)

lemma serve_goes_on:
  assumes "begun e stale t t0" "\<not> one_off t" "iperf_run_server e stale t0 = Some (Ret rc, t1)"
  shows "rc = -2 \<and> run_state server_setup t0 = (Stop (Ret (-2)), t1) \<and> serve e stale t0 = Some (Exited 1, after_run (-2) t1)
    \<or> begun e stale t (next_test rc t1) \<and> serve e stale t0 = serve e stale (next_test rc t1)
      \<and> server_options (next_test rc t1) = server_options t"
proof (cases "rc < -1")
  case True
  then have "rc = -2" "run_state server_setup t0 = (Stop (Ret (-2)), t1)" using run_server_codes [OF assms(3)] by auto
  moreover have "serve e stale t0 = Some (Exited 1, after_run (-2) t1)"
    using assms(3) calculation(1) by (subst serve.simps) simp
  ultimately show ?thesis by blast
next
  case False
  have o: "server_options (next_test rc t1) = server_options t"
    using next_options [OF assms(3)] begun_options [OF assms(1)] by simp
  then have a: "serve_again rc (next_test rc t1)"
    using assms(2) by (simp add: serve_again_def server_options_def)
  then have "serve e stale t0 = serve e stale (next_test rc t1)"
    using assms(3) False by (subst serve.simps) simp
  then show ?thesis using begun.again [OF assms(1,3) _ a] False o by simp
qed

end
