(* ===== verification/Json_Number.thy ===== *)
theory Json_Number
  imports Json Auth
begin

text \<open>
  How \<open>iperf/src/cjson.c\<close> writes a \<open>double\<close> and reads it: the formats \<open>%1.15g\<close> and \<open>%1.17g\<close>,
  \<open>strtod\<close>, the comparison that decides between the two formats. A rational beyond the largest
  \<open>double\<close> stands for infinity; the sign of zero is not kept.
\<close>

section \<open>Powers of ten\<close>

definition pow10 :: "int \<Rightarrow> rat" where
  "pow10 e = (if 0 \<le> e then 10 ^ nat e else 1 / 10 ^ nat (- e))"

text \<open>The exponent \<open>e\<close> with \<open>10 ^ e \<le> x < 10 ^ (e + 1)\<close>.\<close>

definition expo10 :: "rat \<Rightarrow> int" where
  "expo10 x = (case quotient_of x of (a, b) \<Rightarrow>
     let k = int (floorlog 10 (nat a)) - int (floorlog 10 (nat b)) in
     if pow10 k \<le> x then k else k - 1)"

section \<open>The format %g\<close>

text \<open>
  The first \<open>P\<close> significant digits of a positive number, rounded, as an integer, and the exponent
  of its scientific notation.
\<close>

definition significant :: "nat \<Rightarrow> rat \<Rightarrow> int \<times> int" where
  "significant P x = (let e = expo10 x; m = round_half_even (x / pow10 (e - int P + 1)) in
     if 10 ^ P \<le> m then (m div 10, e + 1) else (m, e))"

definition no_trailing_zeros :: "string \<Rightarrow> string" where
  "no_trailing_zeros ds = rev (dropWhile (\<lambda>c. c = CHR ''0'') (rev ds))"

text \<open>The decimal point goes with the last digit behind it.\<close>

definition fraction :: "string \<Rightarrow> string" where
  "fraction ds = (let f = no_trailing_zeros ds in if f = [] then [] else CHR ''.'' # f)"

definition exponent :: "int \<Rightarrow> string" where
  "exponent e = CHR ''e'' # (if e < 0 then CHR ''-'' else CHR ''+'')
     # (if \<bar>e\<bar> < 10 then CHR ''0'' # digits (nat \<bar>e\<bar>) else digits (nat \<bar>e\<bar>))"

definition layout :: "nat \<Rightarrow> string \<Rightarrow> int \<Rightarrow> string" where
  "layout P ds e =
     (if e < - 4 \<or> int P \<le> e then take 1 ds @ fraction (drop 1 ds) @ exponent e
      else if 0 \<le> e then take (nat e + 1) ds @ fraction (drop (nat e + 1) ds)
      else ''0'' @ fraction (replicate (nat (- e) - 1) (CHR ''0'') @ ds))"

definition format_g :: "nat \<Rightarrow> rat \<Rightarrow> string" where
  "format_g P x = (if x = 0 then ''0''
     else case significant P \<bar>x\<bar> of (m, e) \<Rightarrow> (if x < 0 then ''-'' else []) @ layout P (digits (nat m)) e)"

section \<open>strtod\<close>

text \<open>
  The longest prefix that is a decimal number; \<open>None\<close> is no conversion. The text has no white
  space, hexadecimal numbers or words in it: \<open>parse_number\<close> copies digits, signs, points and \<open>e\<close> only.
\<close>

definition scan_sign :: "string \<Rightarrow> bool \<times> string" where
  "scan_sign s = (case s of c # r \<Rightarrow> if c = CHR ''-'' then (True, r) else if c = CHR ''+'' then (False, r)
     else (False, s) | [] \<Rightarrow> (False, s))"

definition scan_exponent :: "string \<Rightarrow> int \<times> string" where
  "scan_exponent s = (case s of
       [] \<Rightarrow> (0, s)
     | c # r \<Rightarrow> if c = CHR ''e'' \<or> c = CHR ''E''
         then (case scan_sign r of (neg, r1) \<Rightarrow>
           let ds = takeWhile is_digit r1 in
           if ds = [] then (0, s)
           else (if neg then - int (digits_value ds) else int (digits_value ds), dropWhile is_digit r1))
         else (0, s))"

definition scan_fraction :: "string \<Rightarrow> string \<times> string" where
  "scan_fraction s = (case s of c # r \<Rightarrow> if c = CHR ''.'' then (takeWhile is_digit r, dropWhile is_digit r)
     else ([], s) | [] \<Rightarrow> ([], s))"

definition strtod :: "string \<Rightarrow> (rat \<times> string) option" where
  "strtod s = (case scan_sign s of (neg, s1) \<Rightarrow>
     let ip = takeWhile is_digit s1 in
     case scan_fraction (dropWhile is_digit s1) of (fp, s3) \<Rightarrow>
       if ip = [] \<and> fp = [] then None
       else (case scan_exponent s3 of (e, s4) \<Rightarrow>
         let x = f64 (of_nat (digits_value (ip @ fp)) * pow10 (e - int (length fp))) in
         Some (if neg then - x else x, s4)))"

section \<open>Printing a number\<close>

definition DBL_EPSILON :: rat where "DBL_EPSILON = pow2 (- 52)"

definition compare_double :: "rat \<Rightarrow> rat \<Rightarrow> bool" where
  "compare_double a b = (let maxVal = (if \<bar>a\<bar> > \<bar>b\<bar> then \<bar>a\<bar> else \<bar>b\<bar>) in
     \<bar>f64 (a - b)\<bar> \<le> f64 (maxVal * DBL_EPSILON))"

definition isinf :: "rat \<Rightarrow> bool" where "isinf d \<longleftrightarrow> 2 ^ 1024 \<le> \<bar>d\<bar>"

text \<open>The text that \<open>print_number\<close> puts in its buffer of 26 bytes.\<close>

definition number_text :: "rat \<Rightarrow> string" where
  "number_text d = (if isinf d then ''null''
     else case strtod (format_g 15 d) of
         Some (test, r) \<Rightarrow> if compare_double test d then format_g 15 d else format_g 17 d
       | None \<Rightarrow> format_g 17 d)"

section \<open>Powers and exponents\<close>

lemma pow10_powi: "pow10 e = 10 powi e"
  by (simp add: pow10_def power_int_def power_one_over inverse_eq_divide)

lemma pow10_pos [simp]: "0 < pow10 e" by (simp add: pow10_def)

lemma pow10_nonzero [simp]: "pow10 e \<noteq> 0" using pow10_pos [of e] by linarith

lemma pow10_add: "pow10 (a + b) = pow10 a * pow10 b"
  by (simp add: pow10_powi power_int_add)

lemma pow10_diff: "pow10 (a - b) = pow10 a / pow10 b"
  by (simp add: pow10_powi power_int_diff)

lemma pow10_mono: "a \<le> b \<Longrightarrow> pow10 a \<le> pow10 b"
  by (simp add: pow10_powi power_int_increasing)

lemma pow10_nat: "pow10 (int n) = 10 ^ n" by (simp add: pow10_def)

lemma pow10_Suc: "pow10 (a + 1) = 10 * pow10 a"
  using pow10_add [of a 1] by (simp add: pow10_def)

lemma floorlog10_bounds:
  assumes "0 < a"
  shows "pow10 (int (floorlog 10 (nat a)) - 1) \<le> of_int a" "of_int a < pow10 (int (floorlog 10 (nat a)))"
proof -
  have b: "10 ^ (floorlog 10 (nat a) - 1) \<le> nat a \<and> nat a < 10 ^ floorlog 10 (nat a)"
    using floorlog_bounds [of "nat a" 10] assms by simp
  have pos: "0 < floorlog 10 (nat a)" using assms by (simp add: floorlog_def)
  have "int (10 ^ (floorlog 10 (nat a) - 1)) \<le> a" "a < int (10 ^ floorlog 10 (nat a))"
    using b assms by (simp_all add: nat_less_iff le_nat_iff)
  then have "(of_int (10 ^ (floorlog 10 (nat a) - 1)) :: rat) \<le> of_int a"
    "(of_int a :: rat) < of_int (10 ^ floorlog 10 (nat a))"
    unfolding of_int_le_iff of_int_less_iff by simp_all
  then show "pow10 (int (floorlog 10 (nat a)) - 1) \<le> of_int a" "of_int a < pow10 (int (floorlog 10 (nat a)))"
    using pos by (simp_all add: pow10_def nat_diff_distrib')
qed

lemma expo10_bounds:
  assumes "0 < x"
  shows "pow10 (expo10 x) \<le> x" "x < pow10 (expo10 x + 1)"
proof -
  obtain a b where q: "quotient_of x = (a, b)" by (cases "quotient_of x")
  have b: "0 < b" using quotient_of_denom_pos [OF q] .
  have x: "x = of_int a / of_int b" using quotient_of_div [OF q] .
  have a: "0 < a" using assms b by (simp add: x zero_less_divide_iff)
  define k where "k = int (floorlog 10 (nat a)) - int (floorlog 10 (nat b))"
  note fa = floorlog10_bounds [OF a] and fb = floorlog10_bounds [OF b]
  have "x < pow10 (int (floorlog 10 (nat a))) / pow10 (int (floorlog 10 (nat b)) - 1)"
    unfolding x using fa(2) fb(1) b by (intro frac_less) (auto simp: less_imp_le a)
  also have "\<dots> = pow10 (k + 1)" by (simp add: k_def pow10_diff [symmetric] algebra_simps)
  finally have hi: "x < pow10 (k + 1)" .
  have "pow10 (int (floorlog 10 (nat a)) - 1) / pow10 (int (floorlog 10 (nat b))) < x"
    unfolding x using fa(1) fb(2) b by (intro frac_less2) (auto simp: less_imp_le)
  also have "pow10 (int (floorlog 10 (nat a)) - 1) / pow10 (int (floorlog 10 (nat b))) = pow10 (k - 1)"
    by (simp add: k_def pow10_diff [symmetric] algebra_simps)
  finally have lo: "pow10 (k - 1) < x" .
  have e: "expo10 x = (if pow10 k \<le> x then k else k - 1)" by (simp add: expo10_def q k_def Let_def)
  show "pow10 (expo10 x) \<le> x" using lo by (simp add: e)
  show "x < pow10 (expo10 x + 1)" using hi by (simp add: e not_le)
qed

section \<open>Rounding to significant digits\<close>

lemma round_half_even_error: "\<bar>of_int (round_half_even x) - x\<bar> \<le> 1 / 2"
proof -
  have "of_int \<lfloor>x\<rfloor> \<le> x" "x < of_int \<lfloor>x\<rfloor> + 1" by linarith+
  then show ?thesis by (auto simp: round_half_even_def Let_def abs_le_iff)
qed

definition decimal :: "nat \<Rightarrow> rat \<Rightarrow> rat" where
  "decimal P x = (case significant P x of (m, e) \<Rightarrow> of_int m * pow10 (e - int P + 1))"

lemma significant_digits:
  assumes "0 < x" "0 < P" "significant P x = (m, e)"
  shows "10 ^ (P - 1) \<le> m" "m < 10 ^ P" "e = expo10 x \<or> e = expo10 x + 1"
    "of_int m * pow10 (e - int P + 1) = of_int (round_half_even (x / pow10 (expo10 x - int P + 1)))
      * pow10 (expo10 x - int P + 1)"
proof -
  define g where "g = expo10 x - int P + 1"
  define k where "k = round_half_even (x / pow10 g)"
  have P: "int P - 1 = int (P - 1)" using assms(2) by simp
  have "int (P - 1) + g = expo10 x" unfolding g_def using P by linarith
  then have "10 ^ (P - 1) * pow10 g = pow10 (expo10 x)" using pow10_add [of "int (P - 1)" g] by (simp add: pow10_nat)
  then have "of_int (10 ^ (P - 1)) \<le> x / pow10 g"
    using expo10_bounds(1) [OF assms(1)] by (simp add: le_divide_eq)
  then have lo: "10 ^ (P - 1) \<le> k" unfolding k_def by (rule round_half_even_ge)
  have "x / pow10 g \<le> of_int (10 ^ P)"
    using expo10_bounds(2) [OF assms(1)] pow10_add [of "int P" g]
    by (simp add: g_def divide_le_eq pow10_nat)
  then have hi: "k \<le> 10 ^ P" unfolding k_def by (rule round_half_even_le)
  have ten: "(10 :: int) ^ P = 10 ^ (P - 1) * 10" using assms(2) by (cases P) simp_all
  have me: "(m, e) = (if 10 ^ P \<le> k then (k div 10, expo10 x + 1) else (k, expo10 x))"
    using assms(3) by (auto simp: significant_def Let_def k_def g_def)
  have "(0 :: int) < 10 ^ (P - 1)" by simp
  then show "10 ^ (P - 1) \<le> m" "m < 10 ^ P" "e = expo10 x \<or> e = expo10 x + 1"
    using me lo hi unfolding ten by (auto split: if_splits)
  have "of_int m * pow10 (e - int P + 1) = of_int k * pow10 g"
  proof (cases "10 ^ P \<le> k")
    case True
    then have k: "k = 10 ^ P" using hi by simp
    then have "m = 10 ^ (P - 1)" "e - int P + 1 = g + 1" using me ten by (simp_all add: g_def)
    then show ?thesis using pow10_Suc [of g] by (simp add: k ten)
  next
    case False
    then show ?thesis using me by (simp add: g_def)
  qed
  then show "of_int m * pow10 (e - int P + 1) = of_int (round_half_even (x / pow10 (expo10 x - int P + 1)))
      * pow10 (expo10 x - int P + 1)" by (simp add: k_def g_def)
qed

lemma decimal_eq:
  assumes "0 < x" "0 < P"
  shows "decimal P x = of_int (round_half_even (x / pow10 (expo10 x - int P + 1))) * pow10 (expo10 x - int P + 1)"
  using significant_digits(4) [OF assms] by (cases "significant P x") (simp add: decimal_def)

lemma decimal_error:
  assumes "0 < x" "0 < P"
  shows "\<bar>decimal P x - x\<bar> \<le> x / (2 * 10 ^ (P - 1))"
proof -
  define g where "g = expo10 x - int P + 1"
  have "\<bar>decimal P x - x\<bar> = \<bar>(of_int (round_half_even (x / pow10 g)) - x / pow10 g) * pow10 g\<bar>"
    by (simp add: decimal_eq [OF assms] g_def algebra_simps)
  also have "\<dots> = \<bar>of_int (round_half_even (x / pow10 g)) - x / pow10 g\<bar> * pow10 g"
    by (simp add: abs_mult less_imp_le)
  also have "\<dots> \<le> 1 / 2 * pow10 g"
    by (rule mult_right_mono [OF round_half_even_error]) (simp add: less_imp_le)
  also have "pow10 g = pow10 (expo10 x) / 10 ^ (P - 1)"
  proof -
    have "g = expo10 x - int (P - 1)" unfolding g_def using assms(2) by linarith
    then show ?thesis by (simp only: pow10_diff pow10_nat)
  qed
  also have "1 / 2 * (pow10 (expo10 x) / 10 ^ (P - 1)) = pow10 (expo10 x) / (2 * 10 ^ (P - 1))" by simp
  also have "\<dots> \<le> x / (2 * 10 ^ (P - 1))"
    by (rule divide_right_mono [OF expo10_bounds(1) [OF assms(1)]]) simp
  finally show ?thesis .
qed

text \<open>An integer of at most \<open>P\<close> digits loses nothing.\<close>

lemma decimal_int:
  assumes "0 < n" "n < 10 ^ P"
  shows "decimal P (of_int n) = of_int n"
proof -
  have x: "(0 :: rat) < of_int n" using assms(1) by simp
  have P: "0 < P" using assms by (cases P) auto
  have "pow10 (expo10 (of_int n)) < pow10 (int P)"
    using expo10_bounds(1) [OF x] assms(2) pow10_nat [of P]
    by (metis le_less_trans of_int_less_iff of_int_numeral of_int_power)
  then have "expo10 (of_int n :: rat) < int P"
    by (metis pow10_mono not_le)
  define k where "k = nat (int P - 1 - expo10 (of_int n :: rat))"
  have k: "expo10 (of_int n :: rat) - int P + 1 = - int k"
    using \<open>expo10 (of_int n :: rat) < int P\<close> unfolding k_def by linarith
  have p: "pow10 (- int k) = 1 / of_int (10 ^ k)" by (simp add: pow10_def)
  have "(of_int n :: rat) / pow10 (- int k) = of_int (n * 10 ^ k)" by (simp add: p)
  then show ?thesis
    unfolding decimal_eq [OF x P] k by (simp only: round_half_even_int) (simp add: p)
qed

section \<open>Reading back what was printed\<close>

definition all_digit :: "string \<Rightarrow> bool" where "all_digit s \<longleftrightarrow> (\<forall>c \<in> set s. is_digit c)"

lemma all_digit_simps [simp]:
  "all_digit []" "all_digit (c # s) = (is_digit c \<and> all_digit s)" "all_digit (s @ t) = (all_digit s \<and> all_digit t)"
  "all_digit (replicate n CHR ''0'')"
  by (auto simp: all_digit_def is_digit_def)

lemma all_digit_digits [simp]: "all_digit (digits n)"
  using digits_ok [of n] by (simp add: all_digit_def)

lemma all_digit_parts: "all_digit s \<Longrightarrow> all_digit (take n s)" "all_digit s \<Longrightarrow> all_digit (drop n s)"
  by (auto simp: all_digit_def dest: in_set_takeD in_set_dropD)

lemma digits_value_foldl: "foldl (\<lambda>a c. a * 10 + (of_char c - 48)) n s = n * 10 ^ length s + digits_value s"
proof (induction s arbitrary: n)
  case (Cons c s)
  show ?case
    using Cons [of "n * 10 + (of_char c - 48)"] Cons [of "of_char c - 48"]
    by (simp add: digits_value_def algebra_simps)
qed (simp add: digits_value_def)

lemma digits_value_append: "digits_value (s @ t) = digits_value s * 10 ^ length t + digits_value t"
  using digits_value_foldl [of "digits_value s" t] by (simp add: digits_value_def)

lemma digits_value_zeros [simp]: "digits_value (replicate n CHR ''0'') = 0"
proof (induction n)
  case (Suc n)
  then show ?case using digits_value_append [of "[CHR ''0'']" "replicate n CHR ''0''"] by (simp add: digits_value_def)
qed (simp add: digits_value_def)

lemma digits_value_digits [simp]: "digits_value (digits n) = n"
  using digits_ok [of n] by simp

lemma length_digits: "0 < P \<Longrightarrow> n < 10 ^ P \<Longrightarrow> 10 ^ (P - 1) \<le> n \<or> P = 1 \<Longrightarrow> length (digits n) = P"
proof (induction P arbitrary: n)
  case (Suc P)
  show ?case
  proof (cases "P = 0")
    case True
    then show ?thesis using Suc.prems by (subst digits.simps) simp
  next
    case False
    then obtain Q where Q: "P = Suc Q" by (cases P) auto
    have "length (digits (n div 10)) = P"
      using Suc.prems Q by (intro Suc.IH) (auto simp: div_less_iff_less_mult less_eq_div_iff_mult_less_eq)
    moreover have "10 * 10 ^ Q \<le> n" "1 \<le> (10 :: nat) ^ Q" using Suc.prems Q by simp_all
    then have "\<not> n < 10" by linarith
    ultimately show ?thesis by (subst digits.simps) simp
  qed
qed simp

lemma no_trailing_zeros_split: "\<exists>k. ds = no_trailing_zeros ds @ replicate k CHR ''0''"
proof -
  let ?z = "\<lambda>c. c = CHR ''0''"
  have "takeWhile ?z (rev ds) = replicate (length (takeWhile ?z (rev ds))) CHR ''0''"
    by (rule replicate_eqI) (auto dest: set_takeWhileD)
  then have "rev (takeWhile ?z (rev ds)) = replicate (length (takeWhile ?z (rev ds))) CHR ''0''"
    by (metis rev_replicate)
  moreover have "ds = no_trailing_zeros ds @ rev (takeWhile ?z (rev ds))"
    by (simp add: no_trailing_zeros_def rev_append [symmetric])
  ultimately show ?thesis by metis
qed

text \<open>What follows the digits: nothing, or an exponent.\<close>

definition ends_number :: "string \<Rightarrow> bool" where
  "ends_number r \<longleftrightarrow> r = [] \<or> hd r = CHR ''e''"

lemma ends_number_e: "ends_number (c # r) \<longleftrightarrow> c = CHR ''e''" by (simp add: ends_number_def)

lemma not_digit_e [simp]: "\<not> is_digit CHR ''e''" "\<not> is_digit CHR ''.''" "\<not> is_digit CHR ''-''" "\<not> is_digit CHR ''+''"
  by (simp_all add: is_digit_def)

lemma span_digits:
  assumes "all_digit ds" "r = [] \<or> \<not> is_digit (hd r)"
  shows "takeWhile is_digit (ds @ r) = ds" "dropWhile is_digit (ds @ r) = r"
  using assms by (cases r; auto simp: all_digit_def takeWhile_append dropWhile_append dropWhile_eq_Nil_conv
      takeWhile_eq_all_conv)+

lemma scan_fraction_printed:
  assumes "all_digit fs" "ends_number r"
  shows "scan_fraction (fraction fs @ r) = (no_trailing_zeros fs, r)"
proof -
  obtain k where k: "fs = no_trailing_zeros fs @ replicate k CHR ''0''" using no_trailing_zeros_split by blast
  have d: "all_digit (no_trailing_zeros fs)" using assms(1) by (subst (asm) k) simp
  have r: "r = [] \<or> \<not> is_digit (hd r)" using assms(2) by (auto simp: ends_number_def)
  show ?thesis
    using span_digits [OF d r] assms(2)
    by (cases r) (auto simp: fraction_def Let_def scan_fraction_def ends_number_e)
qed

lemma strtod_parts:
  assumes ip: "all_digit ip" "ip \<noteq> []" and fs: "all_digit fs" and r: "ends_number r" "scan_exponent r = (e, [])"
  shows "strtod (ip @ fraction fs @ r) = Some (f64 (of_nat (digits_value (ip @ fs)) * pow10 (e - int (length fs))), [])"
proof -
  define f where "f = no_trailing_zeros fs"
  obtain k where k: "fs = f @ replicate k CHR ''0''" using no_trailing_zeros_split f_def by blast
  have "scan_sign (ip @ fraction fs @ r) = (False, ip @ fraction fs @ r)"
    using ip by (cases ip) (auto simp: scan_sign_def is_digit_def)
  moreover have "fraction fs @ r = [] \<or> \<not> is_digit (hd (fraction fs @ r))"
    using r(1) by (auto simp: fraction_def Let_def ends_number_def)
  moreover have "digits_value (ip @ fs) = digits_value (ip @ f) * 10 ^ k"
    unfolding k by (simp only: append_assoc [symmetric] digits_value_append [of "ip @ f"]) simp
  moreover have "pow10 (e - int (length f)) = 10 ^ k * pow10 (e - int (length fs))"
    using pow10_add [of "int k" "e - int (length fs)"] by (simp add: k pow10_nat)
  ultimately show ?thesis
    using span_digits [OF ip(1)] scan_fraction_printed [OF fs r(1)] ip r(2)
    by (simp add: strtod_def Let_def f_def mult.assoc)
qed

lemma scan_exponent_printed: "scan_exponent (exponent e) = (e, [])"
proof -
  define ds where "ds = (if \<bar>e\<bar> < 10 then CHR ''0'' # digits (nat \<bar>e\<bar>) else digits (nat \<bar>e\<bar>))"
  have "all_digit ds" "ds \<noteq> []" by (auto simp: ds_def is_digit_def digits_head)
  moreover have "digits_value ds = nat \<bar>e\<bar>"
    using digits_value_append [of "[CHR ''0'']" "digits (nat \<bar>e\<bar>)"] by (simp add: ds_def digits_value_def [of "[CHR ''0'']"])
  moreover have tw: "takeWhile is_digit ds = ds" "dropWhile is_digit ds = []"
    using span_digits [of ds "[]"] \<open>all_digit ds\<close> by auto
  ultimately show ?thesis
    by (simp add: exponent_def scan_exponent_def scan_sign_def Let_def ds_def [symmetric] tw del: takeWhile_eq_all_conv)
qed

lemma strtod_layout:
  assumes "all_digit ds" "length ds = P" "0 < P"
  shows "strtod (layout P ds e) = Some (f64 (of_nat (digits_value ds) * pow10 (e - int P + 1)), [])"
proof -
  have none: "ends_number []" "scan_exponent [] = (0, [])" by (simp_all add: ends_number_def scan_exponent_def)
  have ne: "ds \<noteq> []" using assms by auto
  consider "e < - 4 \<or> int P \<le> e" | "0 \<le> e" "e < int P" | "- 4 \<le> e" "e < 0" by linarith
  then show ?thesis
  proof cases
    case 1
    have "ends_number (exponent e)" by (simp add: ends_number_def exponent_def)
    from strtod_parts [OF all_digit_parts(1) [OF assms(1), of 1] _ all_digit_parts(2) [OF assms(1), of 1] this
      scan_exponent_printed] show ?thesis
      using 1 assms ne by (simp add: layout_def of_nat_diff algebra_simps)
  next
    case 2
    have "int (length (drop (nat e + 1) ds)) = int P - e - 1" using 2 assms(2) by simp
    then have "0 - int (length (drop (nat e + 1) ds)) = e - int P + 1" by linarith
    with strtod_parts [OF all_digit_parts(1) [OF assms(1), of "nat e + 1"] _
      all_digit_parts(2) [OF assms(1), of "nat e + 1"] none] show ?thesis
      using 2 ne by (simp add: layout_def del: length_drop)
  next
    case 3
    let ?z = "replicate (nat (- e) - 1) CHR ''0''"
    have len: "int (length (?z @ ds)) = int P - e - 1" using 3 assms(2) by simp
    have "strtod (''0'' @ fraction (?z @ ds) @ []) =
        Some (f64 (of_nat (digits_value (''0'' @ ?z @ ds)) * pow10 (0 - int (length (?z @ ds)))), [])"
      by (rule strtod_parts [OF _ _ _ none]) (use assms(1) in \<open>simp_all add: is_digit_def\<close>)
    moreover have "digits_value (''0'' @ ?z @ ds) = digits_value ds"
      using digits_value_append [of "replicate (Suc (nat (- e) - 1)) CHR ''0''" ds]
        digits_value_zeros [of "Suc (nat (- e) - 1)"] by (simp del: digits_value_zeros)
    moreover have "0 - int (length (?z @ ds)) = e - int P + 1" using len by simp
    ultimately show ?thesis using 3 assms(3) by (simp add: layout_def del: length_append length_replicate)
  qed
qed

definition signed_decimal :: "nat \<Rightarrow> rat \<Rightarrow> rat" where
  "signed_decimal P x = (if x = 0 then 0 else if x < 0 then - decimal P (- x) else decimal P x)"

lemma strtod_zero: "strtod ''0'' = Some (0, [])"
  using strtod_parts [of "''0''" "[]" "[]" 0]
  by (simp add: fraction_def no_trailing_zeros_def ends_number_def scan_exponent_def digits_value_def is_digit_def)

lemma layout_head:
  assumes "all_digit ds" "ds \<noteq> []" "0 < P"
  shows "\<exists>c r. layout P ds e = c # r \<and> is_digit c"
  using assms by (cases ds) (auto simp: layout_def is_digit_def take_Cons')

lemma strtod_negative:
  assumes "is_digit c" "strtod (c # r) = Some (x, t)"
  shows "strtod (CHR ''-'' # c # r) = Some (- x, t)"
proof -
  have "scan_sign (CHR ''-'' # c # r) = (True, c # r)" "scan_sign (c # r) = (False, c # r)"
    using assms(1) by (auto simp: scan_sign_def is_digit_def)
  then show ?thesis using assms(2) by (auto simp: strtod_def Let_def split: prod.splits if_splits)
qed

lemma significant_text:
  assumes "0 < x" "0 < P" "significant P x = (m, e)"
  shows "strtod (layout P (digits (nat m)) e) = Some (f64 (decimal P x), [])"
proof -
  note m = significant_digits [OF assms]
  have pos: "0 < m" using m(1) less_le_trans [of 0 "10 ^ (P - 1)" m] by simp
  have "nat m < 10 ^ P" using m(2) pos by (simp add: nat_less_iff)
  moreover have "10 ^ (P - 1) \<le> nat m" using m(1) pos by (simp add: le_nat_iff)
  ultimately have len: "length (digits (nat m)) = P" using assms(2) by (simp add: length_digits)
  have "(of_nat (nat m) :: rat) = of_int m" using pos by (metis int_nat_eq of_int_of_nat_eq order_less_imp_le)
  then show ?thesis using strtod_layout [OF _ len assms(2), of e]
    by (simp add: decimal_def assms(3))
qed

theorem strtod_format_g:
  assumes "0 < P"
  shows "strtod (format_g P x) = Some (f64 (signed_decimal P x), [])"
proof (cases "x = 0")
  case True
  then show ?thesis by (simp add: format_g_def signed_decimal_def strtod_zero)
next
  case False
  obtain m e where s: "significant P \<bar>x\<bar> = (m, e)" by (cases "significant P \<bar>x\<bar>")
  have x: "0 < \<bar>x\<bar>" using False by simp
  note t = significant_text [OF x assms s]
  obtain c r where h: "layout P (digits (nat m)) e = c # r" "is_digit c"
    using layout_head [OF all_digit_digits _ assms, of "nat m" e] digits_head(1) by blast
  show ?thesis
  proof (cases "x < 0")
    case True
    then show ?thesis
      using strtod_negative [OF h(2)] t s unfolding h
      by (simp add: format_g_def h signed_decimal_def f64_neg)
  next
    case False
    then show ?thesis using t s \<open>x \<noteq> 0\<close> by (simp add: format_g_def s signed_decimal_def)
  qed
qed

section \<open>Seventeen digits are enough\<close>

lemma round_half_even_near:
  assumes "\<bar>x - of_int k\<bar> < 1 / 2"
  shows "round_half_even x = k"
proof -
  have x: "of_int k - 1 / 2 < x" "x < of_int k + 1 / 2" using assms by linarith+
  have "\<lfloor>x\<rfloor> = k \<or> \<lfloor>x\<rfloor> = k - 1" using x by linarith
  then show ?thesis using x by (auto simp: round_half_even_def Let_def)
qed

lemma f64_pos_nearest:
  assumes "\<bar>y - of_int k * pow2 g\<bar> < pow2 g / 2" "max (expo y - 52) (- 1074) = g"
  shows "f64_pos y = of_int k * pow2 g"
proof -
  have "\<bar>y / pow2 g - of_int k\<bar> = \<bar>y - of_int k * pow2 g\<bar> / pow2 g"
    by (simp add: field_simps abs_divide [symmetric] less_imp_le)
  also have "\<dots> < pow2 g / 2 / pow2 g" by (rule divide_strict_right_mono [OF assms(1)]) simp
  finally have "\<bar>y / pow2 g - of_int k\<bar> < 1 / 2" by simp
  then show ?thesis using assms(2) by (simp add: f64_pos_def Let_def round_half_even_near)
qed

lemma pow2_down: "pow2 (a - int n) = pow2 a / 2 ^ n"
  using pow2_add_nat [of "a - int n" n] by (simp add: field_simps)

lemma expo_unique:
  assumes "0 < x" "pow2 e \<le> x" "x < pow2 (e + 1)"
  shows "expo x = e"
proof -
  note b = expo_bounds [OF assms(1)]
  have "\<not> e + 1 \<le> expo x" using pow2_mono [of "e + 1" "expo x"] assms b by (auto simp: not_le [symmetric])
  moreover have "\<not> expo x + 1 \<le> e" using pow2_mono [of "expo x + 1" e] assms b by (auto simp: not_le [symmetric])
  ultimately show ?thesis by simp
qed

lemma pow2_not_neg [simp]: "\<not> pow2 e < 0" using pow2_pos [of e] by (simp add: not_less less_imp_le)

lemma pow2_grid: "g \<le> a \<Longrightarrow> pow2 a = of_int (2 ^ nat (a - g)) * pow2 g"
  using pow2_add_nat [of g "nat (a - g)"] by simp

lemma grid_step:
  assumes "of_int k * pow2 g < of_int n * pow2 g"
  shows "of_int k * pow2 g + pow2 g \<le> of_int n * pow2 g"
proof -
  have "k < n" using assms by (simp add: mult_less_cancel_right_disj)
  then have "(of_int (k + 1) :: rat) \<le> of_int n" unfolding of_int_le_iff by simp
  then have "of_int (k + 1) * pow2 g \<le> of_int n * pow2 g" by (rule mult_right_mono) (simp add: less_imp_le)
  then show ?thesis by (simp add: algebra_simps)
qed

lemma f64_close:
  assumes d: "0 < d" "is_double d" and y: "\<bar>y - d\<bar> \<le> d / (2 * 10 ^ 16)"
  shows "f64 y = d"
proof -
  define e where "e = expo d"
  define g where "g = max (e - 52) (- 1074)"
  define k where "k = round_half_even (d / pow2 g)"
  have dk: "d = of_int k * pow2 g" using d by (simp add: is_double_def f64_def f64_pos_def Let_def k_def g_def e_def)
  have b: "pow2 e \<le> d" "d < 2 * pow2 e" using expo_bounds [OF d(1)] by (simp_all add: e_def pow2_Suc)
  have "0 < k" using d(1) by (simp add: dk zero_less_mult_iff)
  then have "1 * pow2 g \<le> d" unfolding dk by (intro mult_right_mono) (simp_all add: less_imp_le)
  then have "pow2 g < pow2 (e + 1)" using b(2) by (simp add: pow2_Suc)
  then have "\<not> e + 1 \<le> g" using pow2_mono [of "e + 1" g] by (metis not_le)
  then have ge: "g \<le> e" by simp
  have "pow2 (e - 52) \<le> pow2 g" by (rule pow2_mono) (simp add: g_def)
  then have g: "pow2 e / 2 ^ 52 \<le> pow2 g" using pow2_down [of e 52] by simp
  have "\<bar>y - d\<bar> * (2 * 10 ^ 16) \<le> d" using y by simp
  then have err: "\<bar>y - d\<bar> < pow2 e / 2 ^ 53" using b by simp
  moreover have "pow2 e / 2 ^ 53 \<le> pow2 e / 2 ^ 52" by (simp add: divide_left_mono less_imp_le)
  ultimately have small: "\<bar>y - d\<bar> < pow2 g" using g by linarith
  have "pow2 e / 2 ^ 53 < pow2 e" by simp
  then have pos: "0 < y" using err b by linarith
  have "f64_pos y = d"
  proof (cases "max (expo y - 52) (- 1074) = g")
    case True
    then show ?thesis using f64_pos_nearest [of y k g] err g dk by simp
  next
    case False
    then have ne: "expo y \<noteq> e" by (auto simp: g_def)
    show ?thesis
    proof (cases "pow2 e \<le> y")
      case True
      then have up: "2 * pow2 e \<le> y" using expo_unique [OF pos True] ne by (auto simp: pow2_Suc not_less [symmetric])
      have "d + pow2 g \<le> 2 * pow2 e"
        using grid_step [of k g "2 ^ nat (e + 1 - g)"] b(2) pow2_grid [of g "e + 1"] ge dk by (simp add: pow2_Suc)
      then have "pow2 g \<le> y - d" using up by linarith
      then show ?thesis using small by linarith
    next
      case False
      then have low: "y < pow2 e" by simp
      have "d = pow2 e"
      proof (rule ccontr)
        assume "d \<noteq> pow2 e"
        then have "pow2 e < d" using b(1) by simp
        then have "pow2 e + pow2 g \<le> d"
          using grid_step [of "2 ^ nat (e - g)" g k] pow2_grid [OF ge] dk by simp
        then have "pow2 g \<le> d - y" using low by linarith
        then show False using small by linarith
      qed
      have half: "pow2 e = 2 * pow2 (e - 1)" using pow2_Suc [of "e - 1"] by simp
      have "pow2 e / 2 ^ 53 \<le> pow2 e / 2" by (simp add: divide_left_mono less_imp_le)
      then have "\<bar>y - d\<bar> < pow2 (e - 1)" using err half by linarith
      then have "pow2 (e - 1) \<le> y" using \<open>d = pow2 e\<close> half by linarith
      then have ey: "expo y = e - 1" using low pos by (intro expo_unique) simp_all
      have g': "max (expo y - 52) (- 1074) = e - 53" using \<open>max (expo y - 52) (- 1074) \<noteq> g\<close>
        by (auto simp: ey g_def max_def split: if_splits)
      have p: "pow2 (e - 53) = pow2 e / 2 ^ 53" using pow2_down [of e 53] by simp
      have "\<bar>y - d\<bar> * (2 * 10 ^ 16) \<le> pow2 e" using y \<open>d = pow2 e\<close> by simp
      moreover have "z < a / 2 ^ 54" if "z * (2 * 10 ^ 16) \<le> a" "0 < a" "0 \<le> z" for z a :: rat
        using that by simp
      ultimately have "\<bar>y - d\<bar> < pow2 e / 2 ^ 54" by (meson abs_ge_zero pow2_pos)
      then show ?thesis
        using f64_pos_nearest [OF _ g', of "2 ^ 53"] \<open>d = pow2 e\<close> by (simp add: p)
    qed
  qed
  then show ?thesis using pos by (simp add: f64_def)
qed

lemma seventeen_digits:
  assumes "is_double d"
  shows "f64 (signed_decimal 17 d) = d"
proof -
  have close: "f64 (decimal 17 x) = x" if "0 < x" "is_double x" for x
    using f64_close [OF that, of "decimal 17 x"] decimal_error [OF that(1), of 17] by simp
  have neg: "is_double (- d)" using is_double_neg [OF assms] .
  show ?thesis
    using close [OF _ assms] close [OF _ neg] by (auto simp: signed_decimal_def f64_neg)
qed

section \<open>The number that the peer reads\<close>

definition readback :: "rat \<Rightarrow> rat" where
  "readback d = (if compare_double (f64 (signed_decimal 15 d)) d then f64 (signed_decimal 15 d) else d)"

lemma number_text_cases:
  assumes "is_double d" "\<not> isinf d"
  obtains "number_text d = format_g 15 d" "readback d = f64 (signed_decimal 15 d)"
  | "number_text d = format_g 17 d" "readback d = d"
  using assms strtod_format_g [of 15 d]
  by (cases "compare_double (f64 (signed_decimal 15 d)) d") (simp_all add: number_text_def readback_def)

lemma strtod_number_text:
  assumes "is_double d" "\<not> isinf d"
  shows "strtod (number_text d) = Some (readback d, [])"
  by (rule number_text_cases [OF assms]) (simp_all add: strtod_format_g seventeen_digits [OF assms(1)])

lemma readback_close: "compare_double (readback d) d"
proof -
  have "0 \<le> \<bar>d\<bar> * DBL_EPSILON" by (simp add: DBL_EPSILON_def less_imp_le)
  then have "compare_double d d" using f64_nonneg by (simp add: compare_double_def Let_def)
  then show ?thesis by (auto simp: readback_def)
qed

lemma readback_int:
  assumes "\<bar>n\<bar> < 10 ^ 15"
  shows "readback (of_int n) = of_int n"
proof -
  have "signed_decimal 15 (of_int n) = of_int n"
    using decimal_int [of n 15] decimal_int [of "- n" 15] assms by (auto simp: signed_decimal_def)
  moreover have "f64 (of_int n) = of_int n" using assms by (intro f64_int) simp
  ultimately show ?thesis by (simp add: readback_def)
qed

text \<open>The characters that \<open>parse_number\<close> takes.\<close>

definition number_char :: "char \<Rightarrow> bool" where
  "number_char c \<longleftrightarrow> is_digit c \<or> c \<in> set ''+-eE.''"

lemma number_char_digits: "all_digit s \<Longrightarrow> \<forall>c \<in> set s. number_char c"
  by (simp add: all_digit_def number_char_def)

lemma no_trailing_zeros_sub: "set (no_trailing_zeros ds) \<subseteq> set ds" "length (no_trailing_zeros ds) \<le> length ds"
  using set_dropWhileD length_dropWhile_le [of _ "rev ds"] by (fastforce simp: no_trailing_zeros_def)+

lemma fraction_chars: "all_digit ds \<Longrightarrow> \<forall>c \<in> set (fraction ds). number_char c" "length (fraction ds) \<le> length ds + 1"
  using no_trailing_zeros_sub [of ds] by (auto simp: fraction_def Let_def all_digit_def number_char_def)

lemma length_digits_le: "n < 1000 \<Longrightarrow> length (digits n) \<le> 3"
  by (subst digits.simps, subst digits.simps, subst digits.simps) auto

lemma exponent_chars: "\<forall>c \<in> set (exponent e). number_char c" "\<bar>e\<bar> < 1000 \<Longrightarrow> length (exponent e) \<le> 5"
proof -
  show "\<forall>c \<in> set (exponent e). number_char c"
    using number_char_digits [OF all_digit_digits, of "nat \<bar>e\<bar>"] by (auto simp: exponent_def number_char_def is_digit_def)
  assume "\<bar>e\<bar> < 1000"
  then have "length (digits (nat \<bar>e\<bar>)) \<le> 3" by (intro length_digits_le) simp
  moreover have "n < 10 \<Longrightarrow> length (digits n) = 1" for n by (subst digits.simps) simp
  ultimately show "length (exponent e) \<le> 5" by (simp add: exponent_def)
qed

lemma layout_chars:
  assumes "all_digit ds"
  shows "\<forall>c \<in> set (layout P ds e). number_char c"
proof -
  note f = fraction_chars(1) [THEN bspec] and e = exponent_chars(1) [THEN bspec]
  have "number_char c" if "c \<in> set ds" for c
    using number_char_digits [OF assms] that by blast
  moreover have "number_char c" if "c \<in> set (take n ds)" for c n
    using number_char_digits [OF all_digit_parts(1) [OF assms]] that by blast
  moreover have "number_char CHR ''0''" by (simp add: number_char_def is_digit_def)
  ultimately show ?thesis
    unfolding layout_def
    using f [OF all_digit_parts(2) [OF assms]] f [of "replicate (nat (- e) - 1) CHR ''0'' @ ds"] e assms
    by auto
qed

lemma layout_length:
  assumes "length ds = P" "0 < P" "\<bar>e\<bar> < 1000"
  shows "length (layout P ds e) \<le> P + 6"
proof -
  consider "e < - 4 \<or> int P \<le> e" | "0 \<le> e" "e < int P" | "- 4 \<le> e" "e < 0" by linarith
  then show ?thesis
  proof cases
    case 1
    then show ?thesis using fraction_chars(2) [of "drop 1 ds"] exponent_chars(2) [OF assms(3)] assms by (simp add: layout_def)
  next
    case 2
    then show ?thesis using fraction_chars(2) [of "drop (nat e + 1) ds"] assms by (simp add: layout_def)
  next
    case 3
    then show ?thesis
      using fraction_chars(2) [of "replicate (nat (- e) - 1) CHR ''0'' @ ds"] assms by (simp add: layout_def)
  qed
qed

lemma pow10_neg_nat: "pow10 (- int n) = 1 / 10 ^ n" by (simp add: pow10_def)

lemma pow2_neg_nat: "pow2 (- int n) = 1 / 2 ^ n" by (simp add: pow2_def)

lemma double_exponent:
  assumes "0 < x" "is_double x" "x < 2 ^ 1024"
  shows "\<bar>expo10 x\<bar> < 999"
proof -
  have "(2 :: rat) ^ 1800 = (2 ^ 2) ^ 900" by (simp only: power_mult [symmetric]) simp
  also have "\<dots> < 10 ^ 900" by (rule power_strict_mono) simp_all
  finally have big: "(2 :: rat) ^ 1800 < 10 ^ 900" .
  obtain m e where m: "x = of_int m * pow2 e" "0 \<le> m" "- 1074 \<le> e"
    using f64_pos_on_grid [OF assms(1)] assms(1,2) by (auto simp: is_double_def f64_def)
  have "1 \<le> m" using assms(1) m by (cases "m = 0") auto
  then have "1 * pow2 e \<le> x" unfolding m(1) by (intro mult_right_mono) (simp_all add: less_imp_le)
  then have "pow2 (- 1074) \<le> x" using pow2_mono [OF m(3)] by simp
  moreover have "pow10 (- int 900) < pow2 (- int 1074)"
  proof -
    have "(2 :: rat) ^ 1074 < 10 ^ 900" using power_increasing [of 1074 1800 "2 :: rat"] big by linarith
    then have "(1 :: rat) / 10 ^ 900 < 1 / 2 ^ 1074"
      by (rule divide_strict_left_mono [OF _ zero_less_one]) (intro mult_pos_pos zero_less_power zero_less_numeral)
    then show ?thesis unfolding pow10_neg_nat pow2_neg_nat .
  qed
  ultimately have "pow10 (- int 900) < pow10 (expo10 x + 1)" using expo10_bounds(2) [OF assms(1)] by simp
  then have lo: "- int 900 < expo10 x + 1" by (metis pow10_mono not_le)
  have "x < 10 ^ 900" using power_increasing [of 1024 1800 "2 :: rat"] big assms(3) by linarith
  then have "pow10 (expo10 x) < pow10 (int 900)" unfolding pow10_nat using expo10_bounds(1) [OF assms(1)] by linarith
  then have "expo10 x < int 900" by (metis pow10_mono not_le)
  with lo show ?thesis by simp
qed

lemma format_g_shape:
  assumes "is_double x" "\<not> isinf x" "0 < P"
  shows "(\<forall>c \<in> set (format_g P x). number_char c) \<and> length (format_g P x) \<le> P + 7
    \<and> (\<exists>c r. format_g P x = c # r \<and> (c = CHR ''-'' \<or> is_digit c))"
proof (cases "x = 0")
  case True
  then show ?thesis by (simp add: format_g_def number_char_def is_digit_def)
next
  case False
  obtain m e where s: "significant P \<bar>x\<bar> = (m, e)" by (cases "significant P \<bar>x\<bar>")
  have x: "0 < \<bar>x\<bar>" "is_double \<bar>x\<bar>" "\<bar>x\<bar> < 2 ^ 1024"
    using assms False is_double_neg [of x] by (auto simp: isinf_def abs_if)
  note sd = significant_digits [OF x(1) assms(3) s]
  have pos: "0 < m" using sd(1) less_le_trans [of 0 "10 ^ (P - 1)" m] by simp
  have "nat m < 10 ^ P" using sd(2) pos by (simp add: nat_less_iff)
  moreover have "10 ^ (P - 1) \<le> nat m" using sd(1) pos by (simp add: le_nat_iff)
  ultimately have len: "length (digits (nat m)) = P" using assms(3) by (simp add: length_digits)
  have "\<bar>e\<bar> < 1000" using double_exponent [OF x] sd(3) by auto
  from layout_length [OF len assms(3) this] layout_chars [OF all_digit_digits, of P "nat m" e]
    layout_head [OF all_digit_digits _ assms(3), of "nat m" e] digits_head(1)
  show ?thesis using False by (auto simp: format_g_def s number_char_def)
qed

lemma number_text_shape:
  assumes "is_double d" "\<not> isinf d"
  shows "\<forall>c \<in> set (number_text d). number_char c" "length (number_text d) \<le> 24"
    "\<exists>c r. number_text d = c # r \<and> (c = CHR ''-'' \<or> is_digit c)"
proof -
  have "\<exists>P. number_text d = format_g P d \<and> 0 < P \<and> P \<le> 17"
    by (rule number_text_cases [OF assms]) (rule exI [of _ 15], simp, rule exI [of _ 17], simp)
  then obtain P where P: "number_text d = format_g P d" "0 < P" "P \<le> 17" by blast
  note s = format_g_shape [OF assms P(2)]
  show "\<forall>c \<in> set (number_text d). number_char c" "length (number_text d) \<le> 24"
    "\<exists>c r. number_text d = c # r \<and> (c = CHR ''-'' \<or> is_digit c)"
    using s P(3) unfolding P(1) by auto
qed

section \<open>Integers print as integers\<close>

lemma char_of_48 [simp]: "char_of (48 :: nat) = CHR ''0''"
  by (simp add: char_of_def bit_0)

lemma digits_shift: "0 < n \<Longrightarrow> digits (n * 10 ^ k) = digits n @ replicate k CHR ''0''"
proof (induction k)
  case (Suc k)
  have "1 * 1 \<le> n * 10 ^ k" using Suc.prems by (intro mult_le_mono) simp_all
  then have "\<not> n * 10 ^ k * 10 < 10" by simp
  then have "digits (n * 10 ^ k * 10) = digits (n * 10 ^ k) @ ''0''" by (subst digits.simps) simp
  then show ?case using Suc by (simp add: replicate_append_same algebra_simps)
qed simp

lemma fraction_zeros: "fraction (replicate k CHR ''0'') = []"
  by (simp add: fraction_def no_trailing_zeros_def)

lemma expo10_int:
  assumes "0 < n"
  shows "0 \<le> expo10 (of_int n)" "n < 10 ^ P \<Longrightarrow> expo10 (of_int n) < int P"
proof -
  have x: "(1 :: rat) \<le> of_int n" using assms by simp
  have "pow10 0 < pow10 (expo10 (of_int n) + 1)"
    using x expo10_bounds(2) [of "of_int n"] assms by (simp add: pow10_def [of 0])
  then have "0 < expo10 (of_int n :: rat) + 1" by (metis pow10_mono not_le)
  then show "0 \<le> expo10 (of_int n)" by simp
  assume "n < 10 ^ P"
  then have "pow10 (expo10 (of_int n)) < pow10 (int P)"
    using expo10_bounds(1) [of "of_int n"] assms pow10_nat [of P]
    by (metis le_less_trans of_int_0_less_iff of_int_less_iff of_int_numeral of_int_power)
  then show "expo10 (of_int n) < int P" by (metis pow10_mono not_le)
qed

lemma format_g_pos_int:
  assumes "0 < n" "n < 10 ^ P"
  shows "format_g P (of_int n) = digits (nat n)"
proof -
  let ?x = "of_int n :: rat"
  have x: "0 < ?x" using assms(1) by simp
  have P: "0 < P" using assms by (cases P) auto
  define k where "k = nat (int P - 1 - expo10 ?x)"
  have e: "0 \<le> expo10 ?x" "expo10 ?x < int P" using expo10_int [OF assms(1)] assms(2) by blast+
  then have g: "expo10 ?x - int P + 1 = - int k" by (simp add: k_def)
  have "?x / pow10 (- int k) = of_int (n * 10 ^ k)" by (simp add: pow10_neg_nat)
  then have r: "round_half_even (?x / pow10 (expo10 ?x - int P + 1)) = n * 10 ^ k" unfolding g by (simp only: round_half_even_int)
  obtain m d where s: "significant P ?x = (m, d)" by (cases "significant P ?x")
  note sd = significant_digits [OF x P s]
  have small: "\<not> 10 ^ P \<le> n * 10 ^ k"
  proof
    assume "10 ^ P \<le> n * 10 ^ k"
    then have "(of_int (10 ^ P) :: rat) \<le> of_int (n * 10 ^ k)" unfolding of_int_le_iff .
    moreover have "?x * 10 ^ k < pow10 (expo10 ?x + 1) * 10 ^ k"
      by (rule mult_strict_right_mono [OF expo10_bounds(2) [OF x]]) simp
    moreover have "pow10 (expo10 ?x + 1) * pow10 (int k) = pow10 (int P)"
      using pow10_add [of "expo10 ?x + 1" "int k"] e by (simp add: k_def)
    ultimately show False unfolding pow10_nat of_int_mult of_int_power of_int_numeral by linarith
  qed
  have md: "m = n * 10 ^ k" "d = expo10 ?x" using s small by (auto simp: significant_def Let_def r)
  have "nat m < 10 ^ P" "10 ^ (P - 1) \<le> nat m" using sd(1,2) by (simp_all add: nat_less_iff le_nat_iff)
  then have len: "length (digits (nat m)) = P" using P by (simp add: length_digits)
  have ds: "digits (nat m) = digits (nat n) @ replicate k CHR ''0''"
    using digits_shift [of "nat n" k] assms(1) by (simp add: md nat_mult_distrib nat_power_eq)
  have n: "length (digits (nat n)) = nat d + 1" using len e unfolding ds md(2) k_def by simp
  show ?thesis
    using x s e n by (simp add: format_g_def layout_def md(2) ds fraction_zeros)
qed

theorem number_text_int:
  assumes "\<bar>n\<bar> < 10 ^ 15"
  shows "number_text (of_int n) = show_int n"
proof -
  have fmt: "format_g 15 (of_int n) = show_int n"
  proof -
    consider "n = 0" | "0 < n" | "n < 0" by linarith
    then show ?thesis
    proof cases
      case 1
      then show ?thesis by (subst show_int_def) (simp add: format_g_def digits.simps)
    next
      case 2
      then show ?thesis using format_g_pos_int [of n 15] assms by (simp add: show_int_def)
    next
      case 3
      then have "format_g 15 (of_int n) = CHR ''-'' # format_g 15 (of_int (- n))"
        by (simp add: format_g_def split: prod.splits)
      then show ?thesis using format_g_pos_int [of "- n" 15] assms 3 by (simp add: show_int_def)
    qed
  qed
  have "signed_decimal 15 (of_int n) = of_int n"
    using decimal_int [of n 15] decimal_int [of "- n" 15] assms by (auto simp: signed_decimal_def)
  moreover have "f64 (of_int n) = of_int n" using assms by (intro f64_int) simp
  moreover have "compare_double (of_int n) (of_int n)"
    using readback_close [of "of_int n"] readback_int [OF assms] by simp
  moreover have "\<not> isinf (of_int n)"
  proof -
    have "(10 :: rat) ^ 15 < 2 ^ 1024" using power_increasing [of 50 1024 "2 :: rat"] by simp
    moreover have "\<bar>of_int n :: rat\<bar> < 10 ^ 15" using assms by (metis of_int_abs of_int_less_iff of_int_numeral of_int_power)
    ultimately show ?thesis by (simp add: isinf_def)
  qed
  moreover have "strtod (show_int n) = Some (f64 (signed_decimal 15 (of_int n)), [])"
    using strtod_format_g [of 15 "of_int n"] by (simp add: fmt)
  ultimately show ?thesis by (simp add: number_text_def fmt)
qed

text \<open>
  Above 10^15 the comparison accepts the 15 digits although the number is an integer that they do
  not give.
\<close>

lemma big_integer_is_changed: "readback 9007199254740991 = 9007199254740990"
proof -
  let ?x = "of_int 9007199254740991 :: rat"
  have x: "0 < ?x" by simp
  have "expo10 ?x < int 16" by (rule expo10_int(2)) simp_all
  moreover have "\<not> expo10 ?x + 1 \<le> int 15"
    using expo10_bounds(2) [OF x] pow10_mono [of "expo10 ?x + 1" "int 15"] unfolding pow10_nat by auto
  ultimately have e: "expo10 ?x - int 15 + 1 = 1" by simp
  have "round_half_even (?x / pow10 1) = 900719925474099"
    by (rule round_half_even_near) (simp add: pow10_def abs_if)
  then have "decimal 15 ?x = 9007199254740990"
    using decimal_eq [OF x, of 15] unfolding e by (simp add: pow10_def)
  then have d: "signed_decimal 15 9007199254740991 = of_int 9007199254740990" by (simp add: signed_decimal_def)
  have f: "f64 (of_int 9007199254740990) = of_int 9007199254740990" by (rule f64_int) simp
  have one: "f64 (- 1) = - 1" using f64_int [of "- 1"] by simp
  have "1 \<le> f64 (9007199254740991 * DBL_EPSILON)"
    using f64_mono [of 1 "9007199254740991 * DBL_EPSILON"] f64_int [of 1] by (simp add: DBL_EPSILON_def pow2_def)
  then have "compare_double 9007199254740990 9007199254740991" by (simp add: compare_double_def one)
  then show ?thesis using f unfolding readback_def d by simp
qed

end
