(* ===== verification/Json_Print.thy ===== *)
theory Json_Print
  imports Json_Number
begin

text \<open>
  Printing of \<open>iperf/src/cjson.c\<close>: the buffer that grows, \<open>print_value\<close> and its kind, \<open>cJSON_Print\<close>
  and \<open>cJSON_PrintUnformatted\<close>. The text it is meant to give is a function of its own, \<open>json_text\<close>;
  the code is shown to write just that, and never outside the buffer.
\<close>

section \<open>The buffer\<close>

text \<open>
  The buffer is all of the memory at \<open>p->buffer\<close>, so that its length is \<open>p->length\<close>. The allocator says
  whether a request succeeds and what new memory holds.
\<close>

record allocator =
  available :: "nat \<Rightarrow> bool"
  garbage :: "nat \<Rightarrow> char"

record printbuffer =
  pb_buffer :: string
  pb_offset :: nat
  pb_depth :: nat
  pb_format :: bool

abbreviation NUL :: char where "NUL \<equiv> CHR 0x00"

definition SIZE_MAX :: nat where "SIZE_MAX = 18446744073709551615"

definition grow :: "allocator \<Rightarrow> nat \<Rightarrow> printbuffer \<Rightarrow> printbuffer option" where
  "grow al newsize p = (if available al newsize
     then Some (p\<lparr>pb_buffer := pb_buffer p @ map (garbage al) [length (pb_buffer p)..<newsize]\<rparr>) else None)"

definition ensure :: "allocator \<Rightarrow> nat \<Rightarrow> printbuffer \<Rightarrow> printbuffer option" where
  "ensure al n p = (if 0 < length (pb_buffer p) \<and> length (pb_buffer p) \<le> pb_offset p then None
     else let needed = (n + pb_offset p + 1) mod (SIZE_MAX + 1) in
       if needed \<le> length (pb_buffer p) then Some p
       else if SIZE_MAX div 2 < needed then grow al SIZE_MAX p
       else grow al (needed * 2) p)"

text \<open>
  What printing gives: \<open>None\<close> if memory outside the buffer is touched, otherwise the code's truth value
  and the buffer. \<open>emit\<close> is \<open>ensure\<close>, then writing at the pointer it returns, then moving the offset.
\<close>

type_synonym printing = "(bool \<times> printbuffer) option"

definition and_then :: "printing \<Rightarrow> (printbuffer \<Rightarrow> printing) \<Rightarrow> printing" where
  "and_then r f = (case r of None \<Rightarrow> None | Some (ok, p) \<Rightarrow> if ok then f p else Some (False, p))"

definition emit :: "allocator \<Rightarrow> nat \<Rightarrow> string \<Rightarrow> nat \<Rightarrow> printbuffer \<Rightarrow> printing" where
  "emit al n s adv p = (case ensure al n p of
       None \<Rightarrow> Some (False, p)
     | Some p1 \<Rightarrow> if pb_offset p1 + length s \<le> length (pb_buffer p1)
         then Some (True, p1\<lparr>pb_buffer := take (pb_offset p1) (pb_buffer p1) @ s
                @ drop (pb_offset p1 + length s) (pb_buffer p1), pb_offset := pb_offset p1 + adv\<rparr>)
         else None)"

definition update_offset :: "printbuffer \<Rightarrow> printing" where
  "update_offset p = (let rest = drop (pb_offset p) (pb_buffer p) in
     if NUL \<in> set rest then Some (True, p\<lparr>pb_offset := pb_offset p + length (takeWhile (\<lambda>c. c \<noteq> NUL) rest)\<rparr>)
     else None)"

section \<open>Strings and numbers\<close>

definition c_str :: "string \<Rightarrow> string" where "c_str s = takeWhile (\<lambda>c. c \<noteq> NUL) s"

text \<open>The two passes of \<open>print_string_ptr\<close>: counting the additional characters, then writing.\<close>

definition short_escape :: "char \<Rightarrow> char option" where
  "short_escape c = (if c = CHR 0x22 then Some (CHR 0x22) else if c = CHR 0x5C then Some (CHR 0x5C)
     else if c = CHR 0x08 then Some (CHR ''b'') else if c = CHR 0x0C then Some (CHR ''f'')
     else if c = CHR 0x0A then Some (CHR ''n'') else if c = CHR 0x0D then Some (CHR ''r'')
     else if c = CHR 0x09 then Some (CHR ''t'') else None)"

fun escape_characters :: "string \<Rightarrow> nat" where
  "escape_characters [] = 0"
| "escape_characters (c # s) = (if short_escape c \<noteq> None then 1 else if (of_char c :: nat) < 32 then 5 else 0)
     + escape_characters s"

definition escaped :: "char \<Rightarrow> string" where
  "escaped c = (if 31 < (of_char c :: nat) \<and> c \<noteq> CHR 0x22 \<and> c \<noteq> CHR 0x5C then [c]
     else CHR 0x5C # (case short_escape c of Some e \<Rightarrow> [e]
       | None \<Rightarrow> [CHR ''u'', CHR ''0'', CHR ''0'', hex_digit (of_char c div 16), hex_digit (of_char c mod 16)]))"

definition string_text :: "string \<Rightarrow> string" where
  "string_text s = CHR 0x22 # concat (map escaped (c_str s)) @ [CHR 0x22]"

definition print_string_ptr :: "allocator \<Rightarrow> string \<Rightarrow> printbuffer \<Rightarrow> printing" where
  "print_string_ptr al s p = (let output_length = length (c_str s) + escape_characters (c_str s) in
     emit al (output_length + 3) (string_text s @ [NUL]) 0 p)"

definition print_number :: "allocator \<Rightarrow> rat \<Rightarrow> printbuffer \<Rightarrow> printing" where
  "print_number al d p = (let number = number_text d in
     if length number > 25 then Some (False, p)
     else emit al (length number + 1) (number @ [NUL]) (length number) p)"

section \<open>Values\<close>

definition deeper :: "(nat \<Rightarrow> nat) \<Rightarrow> printbuffer \<Rightarrow> printing" where
  "deeper f p = Some (True, p\<lparr>pb_depth := f (pb_depth p)\<rparr>)"

definition tab :: char where "tab = CHR 0x09"

definition print_opening :: "allocator \<Rightarrow> printbuffer \<Rightarrow> printing" where
  "print_opening al p = (let n = if pb_format p then 2 else 1 in
     emit al (n + 1) (CHR ''{'' # (if pb_format p then [newline] else [])) n p)"

definition print_indent :: "allocator \<Rightarrow> printbuffer \<Rightarrow> printing" where
  "print_indent al p = (if pb_format p then emit al (pb_depth p) (replicate (pb_depth p) tab) (pb_depth p) p
     else Some (True, p))"

definition print_colon :: "allocator \<Rightarrow> printbuffer \<Rightarrow> printing" where
  "print_colon al p = (let n = if pb_format p then 2 else 1 in
     emit al n (CHR '':'' # (if pb_format p then [tab] else [])) n p)"

definition print_comma :: "allocator \<Rightarrow> bool \<Rightarrow> printbuffer \<Rightarrow> printing" where
  "print_comma al again p = (let n = (if pb_format p then 1 else 0) + (if again then 1 else 0) in
     emit al (n + 1) ((if again then '','' else []) @ (if pb_format p then [newline] else []) @ [NUL]) n p)"

definition print_closing :: "allocator \<Rightarrow> printbuffer \<Rightarrow> printing" where
  "print_closing al p = emit al (if pb_format p then pb_depth p + 1 else 2)
     ((if pb_format p then replicate (pb_depth p - 1) tab else []) @ [CHR ''}'', NUL]) 0 p"

definition print_separator :: "allocator \<Rightarrow> printbuffer \<Rightarrow> printing" where
  "print_separator al p = (let n = if pb_format p then 2 else 1 in
     emit al (n + 1) ('','' @ (if pb_format p then '' '' else []) @ [NUL]) n p)"

fun print_value :: "allocator \<Rightarrow> json \<Rightarrow> printbuffer \<Rightarrow> printing"
  and print_elements :: "allocator \<Rightarrow> json list \<Rightarrow> printbuffer \<Rightarrow> printing"
  and print_members :: "allocator \<Rightarrow> (string \<times> json) list \<Rightarrow> printbuffer \<Rightarrow> printing" where
  "print_value al JNull p = emit al 5 (''null'' @ [NUL]) 0 p"
| "print_value al JFalse p = emit al 6 (''false'' @ [NUL]) 0 p"
| "print_value al JTrue p = emit al 5 (''true'' @ [NUL]) 0 p"
| "print_value al (JNumber d) p = print_number al d p"
| "print_value al (JString s) p = print_string_ptr al s p"
| "print_value al (JArray xs) p =
     and_then (emit al 1 ''['' 1 p) (\<lambda>p1.
     and_then (deeper Suc p1) (\<lambda>p2.
     and_then (print_elements al xs p2) (\<lambda>p3.
     and_then (emit al 2 ('']'' @ [NUL]) 0 p3) (deeper (\<lambda>d. d - 1)))))"
| "print_value al (JObject ms) p =
     and_then (print_opening al p) (\<lambda>p1.
     and_then (deeper Suc p1) (\<lambda>p2.
     and_then (print_members al ms p2) (\<lambda>p3.
     and_then (print_closing al p3) (deeper (\<lambda>d. d - 1)))))"
| "print_elements al [] p = Some (True, p)"
| "print_elements al (x # xs) p =
     and_then (print_value al x p) (\<lambda>p1.
     and_then (update_offset p1) (\<lambda>p2.
     if xs = [] then Some (True, p2)
     else and_then (print_separator al p2) (\<lambda>p3. print_elements al xs p3)))"
| "print_members al [] p = Some (True, p)"
| "print_members al ((k, v) # ms) p =
     and_then (print_indent al p) (\<lambda>p1.
     and_then (print_string_ptr al k p1) (\<lambda>p2.
     and_then (update_offset p2) (\<lambda>p3.
     and_then (print_colon al p3) (\<lambda>p4.
     and_then (print_value al v p4) (\<lambda>p5.
     and_then (update_offset p5) (\<lambda>p6.
     and_then (print_comma al (ms \<noteq> []) p6) (\<lambda>p7. print_members al ms p7)))))))"

text \<open>\<open>print\<close>: \<open>Null\<close> is the null pointer.\<close>

datatype printed = Wild | Null | Printed string

definition print_json :: "allocator \<Rightarrow> bool \<Rightarrow> json \<Rightarrow> printed" where
  "print_json al fmt j = (if \<not> available al 256 then Null
     else case and_then (print_value al j \<lparr>pb_buffer = map (garbage al) [0..<256], pb_offset = 0, pb_depth = 0,
            pb_format = fmt\<rparr>) update_offset of
         None \<Rightarrow> Wild
       | Some (ok, p) \<Rightarrow> if ok \<and> available al (pb_offset p + 1) then Printed (c_str (take (pb_offset p + 1) (pb_buffer p)))
           else Null)"

definition cJSON_Print :: "allocator \<Rightarrow> json \<Rightarrow> printed" where
  "cJSON_Print al j = print_json al True j"

definition cJSON_PrintUnformatted :: "allocator \<Rightarrow> json \<Rightarrow> printed" where
  "cJSON_PrintUnformatted al j = print_json al False j"

section \<open>The text\<close>

fun json_text :: "bool \<Rightarrow> nat \<Rightarrow> json \<Rightarrow> string"
  and elements_text :: "bool \<Rightarrow> nat \<Rightarrow> json list \<Rightarrow> string"
  and members_text :: "bool \<Rightarrow> nat \<Rightarrow> (string \<times> json) list \<Rightarrow> string" where
  "json_text f d JNull = ''null''"
| "json_text f d JFalse = ''false''"
| "json_text f d JTrue = ''true''"
| "json_text f d (JNumber x) = number_text x"
| "json_text f d (JString s) = string_text s"
| "json_text f d (JArray xs) = ''['' @ elements_text f (Suc d) xs @ '']''"
| "json_text f d (JObject ms) = ''{'' @ (if f then [newline] else []) @ members_text f (Suc d) ms
     @ (if f then replicate d tab else []) @ ''}''"
| "elements_text f d [] = []"
| "elements_text f d (x # xs) = json_text f d x
     @ (if xs = [] then [] else '','' @ (if f then '' '' else [])) @ elements_text f d xs"
| "members_text f d [] = []"
| "members_text f d ((k, v) # ms) = (if f then replicate d tab else []) @ string_text k
     @ '':'' @ (if f then [tab] else []) @ json_text f d v
     @ (if ms = [] then [] else '','') @ (if f then [newline] else []) @ members_text f d ms"

section \<open>What the buffer holds\<close>

text \<open>\<open>fresh_at p t\<close>: \<open>t\<close> has been written, the offset is behind it and inside the buffer.\<close>

definition fresh_at :: "printbuffer \<Rightarrow> string \<Rightarrow> bool" where
  "fresh_at p t \<longleftrightarrow> (\<exists>tail. tail \<noteq> [] \<and> pb_buffer p = t @ tail \<and> pb_offset p = length t)"

text \<open>\<open>ended p t\<close>: \<open>t\<close> and a terminator have been written; the offset is somewhere in \<open>t\<close>.\<close>

definition ended :: "printbuffer \<Rightarrow> string \<Rightarrow> bool" where
  "ended p t \<longleftrightarrow> (\<exists>tail. pb_buffer p = t @ NUL # tail \<and> pb_offset p \<le> length t \<and> NUL \<notin> set (drop (pb_offset p) t))"

text \<open>\<open>plenty al n\<close>: the allocator grants every request of at most \<open>2 (n + 1)\<close> bytes.\<close>

definition plenty :: "allocator \<Rightarrow> nat \<Rightarrow> bool" where
  "plenty al n \<longleftrightarrow> (\<forall>m \<le> 2 * (n + 1). available al m) \<and> 2 * (n + 1) \<le> SIZE_MAX"

text \<open>\<open>prints al n r Q\<close>: \<open>r\<close> stays in the buffer, ends in \<open>Q\<close>, or fails for want of memory.\<close>

definition prints :: "allocator \<Rightarrow> nat \<Rightarrow> printing \<Rightarrow> (printbuffer \<Rightarrow> bool) \<Rightarrow> bool" where
  "prints al n r Q \<longleftrightarrow> (n < SIZE_MAX \<longrightarrow> (case r of None \<Rightarrow> False | Some (ok, p) \<Rightarrow> if ok then Q p else \<not> plenty al n))"

lemma writes_return: "Q p \<Longrightarrow> prints al n (Some (True, p)) Q"
  by (simp add: prints_def)

lemma writes_mono:
  assumes "prints al m r P" "m \<le> n" "\<And>p. P p \<Longrightarrow> Q p"
  shows "prints al n r Q"
proof -
  have "plenty al n \<Longrightarrow> plenty al m" using assms(2) by (auto simp: plenty_def)
  then show ?thesis using assms(1,2,3) by (auto simp: prints_def split: option.splits if_splits)
qed

lemma writes_and_then:
  assumes "prints al m r P" "m \<le> n" "\<And>p. P p \<Longrightarrow> prints al n (f p) Q"
  shows "prints al n (and_then r f) Q"
proof -
  have r: "prints al n r P" by (rule writes_mono [OF assms(1,2)])
  show ?thesis
  proof (cases r)
    case None
    then show ?thesis using r by (simp add: prints_def)
  next
    case (Some op)
    then show ?thesis using r assms(3) [of "snd op"]
      by (cases op) (cases "fst op"; simp add: prints_def and_then_def)
  qed
qed

text \<open>\<open>same p q\<close>: the depth and the format are the same.\<close>

definition same :: "printbuffer \<Rightarrow> printbuffer \<Rightarrow> bool" where
  "same p q \<longleftrightarrow> pb_depth q = pb_depth p \<and> pb_format q = pb_format p"

lemma same_refl [simp]: "same p p"
  by (simp add: same_def)

lemma same_trans: "same p q \<Longrightarrow> same q r \<Longrightarrow> same p r"
  by (simp add: same_def)

lemma ensure_room:
  assumes p: "fresh_at p t" and n: "length t + n < SIZE_MAX"
  shows "case ensure al n p of None \<Rightarrow> \<not> plenty al (length t + n)
    | Some q \<Rightarrow> same p q \<and> (\<exists>tail. pb_buffer q = t @ tail \<and> n < length tail \<and> pb_offset q = length t)"
proof -
  obtain tail where tail: "tail \<noteq> []" "pb_buffer p = t @ tail" "pb_offset p = length t"
    using p by (auto simp: fresh_at_def)
  have need: "(n + pb_offset p + 1) mod (SIZE_MAX + 1) = length t + n + 1" using n tail by simp
  have start: "\<not> (0 < length (pb_buffer p) \<and> length (pb_buffer p) \<le> pb_offset p)" using tail by simp
  show ?thesis
  proof (cases "length t + n + 1 \<le> length (pb_buffer p)")
    case True
    then show ?thesis using start need tail by (simp add: ensure_def Let_def)
  next
    case small: False
    show ?thesis
    proof (cases "SIZE_MAX div 2 < length t + n + 1")
      case True
      moreover have "\<not> plenty al (length t + n)" using True by (auto simp: plenty_def)
      moreover have "n < SIZE_MAX - length t" using n by simp
      ultimately show ?thesis
        using start need tail small unfolding ensure_def Let_def need by (simp add: grow_def same_def)
    next
      case False
      have "plenty al (length t + n) \<Longrightarrow> available al ((length t + n + 1) * 2)" by (simp add: plenty_def)
      then show ?thesis
        using start need tail small False unfolding ensure_def Let_def need by (auto simp: grow_def same_def)
    qed
  qed
qed

lemma emit_cases:
  assumes p: "fresh_at p t" and s: "length s \<le> n"
  shows "prints al (length t + n) (emit al n s adv p)
    (\<lambda>q. same p q \<and> pb_offset q = length t + adv \<and> (\<exists>tail. pb_buffer q = t @ s @ tail \<and> n < length s + length tail))"
proof (cases "length t + n < SIZE_MAX")
  case True
  show ?thesis
  proof (cases "ensure al n p")
    case None
    then show ?thesis using ensure_room [OF p True, of al] by (simp add: prints_def emit_def)
  next
    case (Some q)
    then obtain tail where q: "same p q" "pb_buffer q = t @ tail" "n < length tail" "pb_offset q = length t"
      using ensure_room [OF p True, of al] by auto
    then have "t @ s @ drop (length s) tail = take (pb_offset q) (pb_buffer q) @ s @ drop (pb_offset q + length s) (pb_buffer q)"
      "length s \<le> length tail" using s by simp_all
    then show ?thesis using Some q s
      by (auto simp: prints_def emit_def same_def intro!: exI [of _ "drop (length s) tail"])
  qed
qed (simp add: prints_def)

lemma emit_fresh:
  assumes "fresh_at p t" "length s = adv" "adv \<le> n"
  shows "prints al (length t + n) (emit al n s adv p) (\<lambda>q. same p q \<and> fresh_at q (t @ s))"
  by (rule writes_mono [OF emit_cases [OF assms(1)]]) (use assms in \<open>auto simp: fresh_at_def\<close>)

lemma emit_text:
  assumes "fresh_at p t" "length s < n" "adv \<le> length s" "NUL \<notin> set s"
  shows "prints al (length t + n) (emit al n (s @ [NUL]) adv p) (\<lambda>q. same p q \<and> ended q (t @ s))"
  by (rule writes_mono [OF emit_cases [OF assms(1)]]) (use assms in \<open>auto simp: ended_def dest: in_set_dropD\<close>)

lemma emit_text_fresh:
  assumes "fresh_at p t" "length s < n"
  shows "prints al (length t + n) (emit al n (s @ [NUL]) (length s) p) (\<lambda>q. same p q \<and> fresh_at q (t @ s))"
  by (rule writes_mono [OF emit_cases [OF assms(1)]]) (use assms in \<open>auto simp: fresh_at_def\<close>)

lemma update_offset_ended:
  assumes "ended p t"
  shows "prints al n (update_offset p) (\<lambda>q. same p q \<and> fresh_at q t)"
proof -
  obtain tail where tail: "pb_buffer p = t @ NUL # tail" "pb_offset p \<le> length t" "NUL \<notin> set (drop (pb_offset p) t)"
    using assms by (auto simp: ended_def)
  have "takeWhile (\<lambda>c. c \<noteq> NUL) (drop (pb_offset p) t @ NUL # tail) = drop (pb_offset p) t"
    using tail(3) by (subst takeWhile_append2) auto
  then show ?thesis using tail
    by (simp add: prints_def update_offset_def Let_def same_def fresh_at_def)
qed

section \<open>The code writes the text\<close>

fun every :: "(json \<Rightarrow> bool) \<Rightarrow> json \<Rightarrow> bool" where
  "every Q (JArray xs) = (Q (JArray xs) \<and> (\<forall>x \<in> set xs. every Q x))"
| "every Q (JObject ms) = (Q (JObject ms) \<and> (\<forall>m \<in> set ms. every Q (snd m)))"
| "every Q j = Q j"

definition double_number :: "json \<Rightarrow> bool" where
  "double_number j = (case j of JNumber d \<Rightarrow> is_double d | _ \<Rightarrow> True)"

lemma hex_digit_not_nul: "n < 16 \<Longrightarrow> hex_digit n \<noteq> NUL"
proof -
  assume "n < 16"
  then have "of_char (hex_digit n) \<noteq> (0 :: nat)" by (simp add: hex_digit_def)
  then show ?thesis by auto
qed


lemma of_char_div_16: "(of_char c :: nat) div 16 < 16" "(of_char c :: nat) mod 16 < 16"
  by (simp_all add: less_mult_imp_div_less)

lemma escaped_not_nul: "c \<noteq> NUL \<Longrightarrow> NUL \<notin> set (escaped c)"
  using hex_digit_not_nul [OF of_char_div_16(1), of c] hex_digit_not_nul [OF of_char_div_16(2), of c]
  by (auto simp: escaped_def short_escape_def)

lemma escaped_length:
  "length (escaped c) = 1 + (if short_escape c \<noteq> None then 1 else if (of_char c :: nat) < 32 then 5 else 0)"
  by (auto simp: escaped_def short_escape_def)

lemma concat_escaped_length: "length (concat (map escaped s)) = length s + escape_characters s"
proof (induction s)
  case (Cons c s)
  then show ?case by (simp add: escaped_length)
qed simp

lemma c_str_not_nul: "NUL \<notin> set (c_str s)"
  by (auto simp: c_str_def dest: set_takeWhileD)

lemma string_text_not_nul: "NUL \<notin> set (string_text s)"
proof -
  have "NUL \<notin> set (escaped c)" if "c \<in> set (c_str s)" for c
    using that c_str_not_nul [of s] by (intro escaped_not_nul) metis
  then have "NUL \<notin> set (concat (map escaped (c_str s)))" by (simp only: set_concat set_map) blast
  then show ?thesis by (simp add: string_text_def)
qed

lemma string_text_length: "length (string_text s) = length (c_str s) + escape_characters (c_str s) + 2"
  by (simp add: string_text_def concat_escaped_length)

lemma print_string_ptr_writes:
  assumes "fresh_at p t"
  shows "prints al (length (t @ string_text s) + 1) (print_string_ptr al s p) (\<lambda>q. same p q \<and> ended q (t @ string_text s))"
  unfolding print_string_ptr_def Let_def
  by (rule writes_mono [OF emit_text [OF assms]]) (simp_all add: string_text_length string_text_not_nul)

lemma number_text_written:
  assumes "is_double d"
  shows "length (number_text d) \<le> 24" "NUL \<notin> set (number_text d)"
proof -
  have "\<not> number_char NUL" by (simp add: number_char_def is_digit_def)
  then show "length (number_text d) \<le> 24" "NUL \<notin> set (number_text d)"
    using number_text_shape [OF assms] by (cases "isinf d"; auto simp: number_text_def)+
qed

lemma print_number_writes:
  assumes "fresh_at p t" "is_double d"
  shows "prints al (length (t @ number_text d) + 1) (print_number al d p) (\<lambda>q. same p q \<and> ended q (t @ number_text d))"
  using number_text_written [OF assms(2)] unfolding print_number_def Let_def
  by (simp add: writes_mono [OF emit_text [OF assms(1)]])

lemma emit_ended:
  assumes "fresh_at p t" "length s + 1 = n" "NUL \<notin> set s"
  shows "prints al (length (t @ s) + 1) (emit al n (s @ [NUL]) 0 p) (\<lambda>q. same p q \<and> ended q (t @ s))"
  by (rule writes_mono [OF emit_text [OF assms(1)]]) (use assms in simp_all)

definition writes_value :: "allocator \<Rightarrow> json \<Rightarrow> bool" where
  "writes_value al j \<longleftrightarrow> (\<forall>p t. fresh_at p t \<longrightarrow>
     prints al (length (t @ json_text (pb_format p) (pb_depth p) j) + 1) (print_value al j p)
       (\<lambda>q. same p q \<and> ended q (t @ json_text (pb_format p) (pb_depth p) j)))"

lemma writes_valueD:
  "writes_value al j \<Longrightarrow> fresh_at p t \<Longrightarrow> pb_format p = f \<Longrightarrow> pb_depth p = d \<Longrightarrow>
    prints al (length (t @ json_text f d j) + 1) (print_value al j p) (\<lambda>q. same p q \<and> ended q (t @ json_text f d j))"
  by (auto simp: writes_value_def)

lemma separator_writes:
  assumes "fresh_at p t"
  shows "prints al (length t + (if pb_format p then 3 else 2)) (print_separator al p)
    (\<lambda>q. same p q \<and> fresh_at q (t @ '','' @ (if pb_format p then '' '' else [])))"
  using emit_text_fresh [OF assms, of "'', ''" 3 al] emit_text_fresh [OF assms, of "'',''" 2 al]
  by (cases "pb_format p") (simp_all add: print_separator_def eval_nat_numeral)

lemma print_elements_writes:
  assumes "\<forall>x \<in> set xs. writes_value al x" "fresh_at p t"
  shows "prints al (length (t @ elements_text (pb_format p) (pb_depth p) xs) + 1) (print_elements al xs p)
    (\<lambda>q. same p q \<and> fresh_at q (t @ elements_text (pb_format p) (pb_depth p) xs))"
  using assms
proof (induction xs arbitrary: p t)
  case Nil
  then show ?case by (simp add: writes_return)
next
  case (Cons x xs)
  let ?f = "pb_format p" and ?d = "pb_depth p"
  let ?x = "json_text ?f ?d x"
  let ?L = "length (t @ elements_text ?f ?d (x # xs)) + 1"
  let ?Q = "\<lambda>q. same p q \<and> fresh_at q (t @ elements_text ?f ?d (x # xs))"
  have rest: "prints al ?L (if xs = [] then Some (True, q) else and_then (print_separator al q) (print_elements al xs)) ?Q"
    if q: "same p q" "fresh_at q (t @ ?x)" for q
  proof (cases "xs = []")
    case True
    then show ?thesis using q by (simp add: writes_return)
  next
    case False
    let ?u = "(t @ ?x) @ '','' @ (if ?f then '' '' else [])"
    have fd: "pb_format q = ?f" "pb_depth q = ?d" using q(1) by (simp_all add: same_def)
    have "prints al ?L (and_then (print_separator al q) (print_elements al xs)) ?Q"
    proof (rule writes_and_then [OF separator_writes [OF q(2)]])
      show "length (t @ ?x) + (if pb_format q then 3 else 2) \<le> ?L" using False by (simp add: fd)
      fix r assume r: "same q r \<and> fresh_at r ((t @ ?x) @ '','' @ (if pb_format q then '' '' else []))"
      then have "fresh_at r ?u" "same p r" using fd same_trans [OF q(1)] by auto
      then show "prints al ?L (print_elements al xs r) ?Q"
        using Cons.IH [of r ?u] Cons.prems(1) False
        by (auto simp: same_def intro!: writes_mono [where al = al])
    qed
    then show ?thesis using False by simp
  qed
  show ?case
    unfolding print_elements.simps
  proof (rule writes_and_then [OF writes_valueD [OF _ Cons.prems(2) refl refl]])
    show "writes_value al x" using Cons.prems(1) by simp
    show "length (t @ ?x) + 1 \<le> ?L" by simp
    fix q assume q: "same p q \<and> ended q (t @ ?x)"
    show "prints al ?L (and_then (update_offset q) (\<lambda>p2. if xs = [] then Some (True, p2)
        else and_then (print_separator al p2) (print_elements al xs))) ?Q"
      by (rule writes_and_then [OF update_offset_ended [of q "t @ ?x"] order_refl])
        (use q rest same_trans in blast)+
  qed
qed

definition line_start :: "bool \<Rightarrow> nat \<Rightarrow> string" where
  "line_start f d = (if f then replicate d tab else [])"

definition line_end :: "bool \<Rightarrow> bool \<Rightarrow> string" where
  "line_end f again = (if again then '','' else []) @ (if f then [newline] else [])"

lemma members_text_Cons: "members_text f d ((k, v) # ms) =
    line_start f d @ string_text k @ ('':'' @ (if f then [tab] else [])) @ json_text f d v @ line_end f (ms \<noteq> []) @ members_text f d ms"
  by (simp add: line_start_def line_end_def)

lemma indent_writes:
  assumes "fresh_at p t"
  shows "prints al (length t + length (line_start (pb_format p) (pb_depth p))) (print_indent al p)
    (\<lambda>q. same p q \<and> fresh_at q (t @ line_start (pb_format p) (pb_depth p)))"
  using emit_fresh [OF assms, of "replicate (pb_depth p) tab" "pb_depth p" "pb_depth p" al] assms
  by (simp add: print_indent_def line_start_def writes_return)

lemma colon_writes:
  assumes "fresh_at p t"
  shows "prints al (length t + (if pb_format p then 2 else 1)) (print_colon al p)
    (\<lambda>q. same p q \<and> fresh_at q (t @ '':'' @ (if pb_format p then [tab] else [])))"
  using emit_fresh [OF assms, of "CHR '':'' # [tab]" 2 2 al] emit_fresh [OF assms, of "'':''" 1 1 al]
  by (cases "pb_format p") (simp_all add: print_colon_def eval_nat_numeral)

lemma comma_writes:
  assumes "fresh_at p t"
  shows "prints al (length t + length (line_end (pb_format p) again) + 1) (print_comma al again p)
    (\<lambda>q. same p q \<and> fresh_at q (t @ line_end (pb_format p) again))"
  using emit_text_fresh [OF assms, of "line_end (pb_format p) again" "length (line_end (pb_format p) again) + 1" al]
  by (cases "pb_format p"; cases again) (simp_all add: print_comma_def line_end_def)

lemma closing_writes:
  assumes "fresh_at p t" "pb_depth p = Suc d"
  shows "prints al (length (t @ line_start (pb_format p) d @ ''}'') + 1) (print_closing al p)
    (\<lambda>q. same p q \<and> ended q (t @ line_start (pb_format p) d @ ''}''))"
  using emit_ended [OF assms(1), of "line_start (pb_format p) d @ ''}''" "length (line_start (pb_format p) d) + 2" al] assms(2)
  by (cases "pb_format p") (simp_all add: print_closing_def line_start_def tab_def eval_nat_numeral)

lemma opening_writes:
  assumes "fresh_at p t"
  shows "prints al (length t + (if pb_format p then 3 else 2)) (print_opening al p)
    (\<lambda>q. same p q \<and> fresh_at q (t @ ''{'' @ (if pb_format p then [newline] else [])))"
  using emit_fresh [OF assms, of "CHR ''{'' # [newline]" 2 3 al] emit_fresh [OF assms, of "''{''" 1 2 al]
  by (cases "pb_format p") (simp_all add: print_opening_def eval_nat_numeral)

lemma update_then:
  assumes "ended p t" "\<And>q. same p q \<Longrightarrow> fresh_at q t \<Longrightarrow> prints al n (f q) Q"
  shows "prints al n (and_then (update_offset p) f) Q"
  by (rule writes_and_then [OF update_offset_ended [OF assms(1), where n = n] order_refl]) (use assms(2) in blast)

lemma print_members_writes:
  assumes "\<forall>m \<in> set ms. writes_value al (snd m)" "fresh_at p t"
  shows "prints al (length (t @ members_text (pb_format p) (pb_depth p) ms) + 1) (print_members al ms p)
    (\<lambda>q. same p q \<and> fresh_at q (t @ members_text (pb_format p) (pb_depth p) ms))"
  using assms
proof (induction ms arbitrary: p t)
  case Nil
  then show ?case by (simp add: writes_return)
next
  case (Cons m ms)
  obtain k v where m: "m = (k, v)" by (cases m)
  define f d where "f = pb_format p" and "d = pb_depth p"
  define t1 where "t1 = t @ line_start f d"
  define t2 where "t2 = t1 @ string_text k"
  define t3 where "t3 = t2 @ '':'' @ (if f then [tab] else [])"
  define t4 where "t4 = t3 @ json_text f d v"
  define t5 where "t5 = t4 @ line_end f (ms \<noteq> [])"
  define t6 where "t6 = t @ members_text f d ((k, v) # ms)"
  define L where "L = length t6 + 1"
  define Q where "Q q \<longleftrightarrow> same p q \<and> fresh_at q t6" for q
  define comma where "comma q = and_then (print_comma al (ms \<noteq> []) q) (\<lambda>p7. print_members al ms p7)" for q
  define colon where "colon q = and_then (print_colon al q) (\<lambda>p4. and_then (print_value al v p4) (\<lambda>p5.
      and_then (update_offset p5) comma))" for q
  have t6: "t6 = t5 @ members_text f d ms"
    by (simp add: t6_def members_text_Cons t1_def t2_def t3_def t4_def t5_def del: members_text.simps)
  have len: "length t1 = length t + length (line_start f d)" "length t2 = length t1 + length (string_text k)"
    "length t3 = length t2 + (if f then 2 else 1)" "length t4 = length t3 + length (json_text f d v)"
    "length t5 = length t4 + length (line_end f (ms \<noteq> []))" "L = length t5 + length (members_text f d ms) + 1"
    by (simp_all add: t1_def t2_def t3_def t4_def t5_def t6 L_def)
  have fd: "pb_format q = f" "pb_depth q = d" if "same p q" for q using that by (simp_all add: same_def f_def d_def)
  have s5: "prints al L (print_members al ms q) Q" if q: "same p q" "fresh_at q t5" for q
  proof -
    have "prints al L (print_members al ms q) (\<lambda>r. same q r \<and> fresh_at r t6)"
      using Cons.IH [OF _ q(2)] Cons.prems(1) by (simp add: fd [OF q(1)] L_def t6)
    then show ?thesis by (rule writes_mono) (use same_trans [OF q(1)] in \<open>auto simp: Q_def\<close>)
  qed
  have s4: "prints al L (comma q) Q" if q: "same p q" "fresh_at q t4" for q
    unfolding comma_def
  proof (rule writes_and_then [OF comma_writes [OF q(2)]])
    show "length t4 + length (line_end (pb_format q) (ms \<noteq> [])) + 1 \<le> L" using len fd(1) [OF q(1)] by simp
  qed (use s5 fd [OF q(1)] same_trans [OF q(1)] in \<open>simp add: t5_def\<close>)
  have s2: "prints al L (colon q) Q" if q: "same p q" "fresh_at q t2" for q
    unfolding colon_def
  proof (rule writes_and_then [OF colon_writes [OF q(2)]])
    show "length t2 + (if pb_format q then 2 else 1) \<le> L" using len fd(1) [OF q(1)] by simp
    fix r assume "same q r \<and> fresh_at r (t2 @ '':'' @ (if pb_format q then [tab] else []))"
    then have r: "same p r" "fresh_at r t3" using fd(1) [OF q(1)] same_trans [OF q(1)] by (auto simp: t3_def)
    show "prints al L (and_then (print_value al v r) (\<lambda>p5. and_then (update_offset p5) comma)) Q"
    proof (rule writes_and_then [OF writes_valueD [OF _ r(2) fd [OF r(1)]]])
      show "writes_value al v" using Cons.prems(1) m by simp
      show "length (t3 @ json_text f d v) + 1 \<le> L" using len by simp
      fix u assume u: "same r u \<and> ended u (t3 @ json_text f d v)"
      show "prints al L (and_then (update_offset u) comma) Q"
        by (rule update_then [where t = t4]) (use s4 u same_trans [OF r(1)] in \<open>auto simp: t4_def intro: same_trans\<close>)
    qed
  qed
  have "prints al L (and_then (print_indent al p) (\<lambda>p1. and_then (print_string_ptr al k p1) (\<lambda>p2.
      and_then (update_offset p2) colon))) Q"
  proof (rule writes_and_then [OF indent_writes [OF Cons.prems(2)]])
    show "length t + length (line_start (pb_format p) (pb_depth p)) \<le> L" using len by (simp add: f_def d_def)
    fix q assume "same p q \<and> fresh_at q (t @ line_start (pb_format p) (pb_depth p))"
    then have q: "same p q" "fresh_at q t1" by (simp_all add: t1_def f_def d_def)
    show "prints al L (and_then (print_string_ptr al k q) (\<lambda>p2. and_then (update_offset p2) colon)) Q"
    proof (rule writes_and_then [OF print_string_ptr_writes [OF q(2)]])
      show "length (t1 @ string_text k) + 1 \<le> L" using len by (cases f) simp_all
      fix u assume u: "same q u \<and> ended u (t1 @ string_text k)"
      show "prints al L (and_then (update_offset u) colon) Q"
        by (rule update_then [where t = t2]) (use s2 u same_trans [OF q(1)] in \<open>auto simp: t2_def intro: same_trans\<close>)
    qed
  qed
  then show ?case
    unfolding m print_members.simps f_def [symmetric] d_def [symmetric] t6_def [symmetric] L_def [symmetric]
      colon_def comma_def Q_def by (simp add: comma_def)
qed

lemma and_then_deeper:
  assumes "prints al n r (\<lambda>q. pb_format q = f \<and> pb_depth q = d \<and> ended q t)"
  shows "prints al n (and_then r (deeper g)) (\<lambda>q. pb_format q = f \<and> pb_depth q = g d \<and> ended q t)"
  by (rule writes_and_then [OF assms order_refl]) (auto simp: deeper_def ended_def intro!: writes_return)

lemma array_writes:
  assumes "\<forall>x \<in> set xs. writes_value al x"
  shows "writes_value al (JArray xs)"
  unfolding writes_value_def
proof (intro allI impI)
  fix p t assume p: "fresh_at p t"
  define f d where "f = pb_format p" and "d = pb_depth p"
  let ?t = "t @ json_text f d (JArray xs)"
  let ?u = "(t @ ''['') @ elements_text f (Suc d) xs"
  let ?L = "length ?t + 1"
  have "prints al ?L (print_value al (JArray xs) p) (\<lambda>q. pb_format q = f \<and> pb_depth q = Suc d - 1 \<and> ended q ?t)"
    unfolding print_value.simps
  proof (rule writes_and_then [OF emit_fresh [OF p]])
    show "length t + 1 \<le> ?L" by simp
    fix q assume q: "same p q \<and> fresh_at q (t @ ''['')"
    let ?q = "q\<lparr>pb_depth := Suc (pb_depth q)\<rparr>"
    have fq: "fresh_at ?q (t @ ''['')" "pb_format ?q = f" "pb_depth ?q = Suc d"
      using q by (auto simp: fresh_at_def same_def f_def d_def)
    have "prints al ?L (and_then (print_elements al xs ?q) (\<lambda>p3. and_then (emit al 2 ('']'' @ [NUL]) 0 p3) (deeper (\<lambda>d. d - 1))))
      (\<lambda>q. pb_format q = f \<and> pb_depth q = Suc d - 1 \<and> ended q ?t)"
    proof (rule writes_and_then [OF print_elements_writes [OF assms fq(1)]])
      show "length ((t @ ''['') @ elements_text (pb_format ?q) (pb_depth ?q) xs) + 1 \<le> ?L" unfolding fq by simp
      fix r assume "same ?q r \<and> fresh_at r ((t @ ''['') @ elements_text (pb_format ?q) (pb_depth ?q) xs)"
      then have r: "pb_format r = f" "pb_depth r = Suc d" "fresh_at r ?u" using fq by (auto simp: same_def)
      show "prints al ?L (and_then (emit al 2 ('']'' @ [NUL]) 0 r) (deeper (\<lambda>d. d - 1)))
        (\<lambda>q. pb_format q = f \<and> pb_depth q = Suc d - 1 \<and> ended q ?t)"
        by (rule and_then_deeper, rule writes_mono [OF emit_ended [OF r(3)]]) (use r in \<open>auto simp: same_def\<close>)
    qed
    then show "prints al ?L (and_then (deeper Suc q) (\<lambda>p2. and_then (print_elements al xs p2)
        (\<lambda>p3. and_then (emit al 2 ('']'' @ [NUL]) 0 p3) (deeper (\<lambda>d. d - 1)))))
      (\<lambda>q. pb_format q = f \<and> pb_depth q = Suc d - 1 \<and> ended q ?t)"
      by (simp add: deeper_def and_then_def)
  qed simp_all
  then show "prints al (length (t @ json_text (pb_format p) (pb_depth p) (JArray xs)) + 1) (print_value al (JArray xs) p)
    (\<lambda>q. same p q \<and> ended q (t @ json_text (pb_format p) (pb_depth p) (JArray xs)))"
    unfolding f_def d_def by (rule writes_mono) (auto simp: same_def)
qed

lemma object_writes:
  assumes "\<forall>m \<in> set ms. writes_value al (snd m)"
  shows "writes_value al (JObject ms)"
  unfolding writes_value_def
proof (intro allI impI)
  fix p t assume p: "fresh_at p t"
  define f d where "f = pb_format p" and "d = pb_depth p"
  let ?t = "t @ json_text f d (JObject ms)"
  let ?s = "t @ ''{'' @ (if f then [newline] else [])"
  let ?u = "?s @ members_text f (Suc d) ms"
  let ?L = "length ?t + 1"
  have "prints al ?L (print_value al (JObject ms) p) (\<lambda>q. pb_format q = f \<and> pb_depth q = Suc d - 1 \<and> ended q ?t)"
    unfolding print_value.simps
  proof (rule writes_and_then [OF opening_writes [OF p]])
    show "length t + (if pb_format p then 3 else 2) \<le> ?L" by (simp add: f_def)
    fix q assume q: "same p q \<and> fresh_at q (t @ ''{'' @ (if pb_format p then [newline] else []))"
    let ?q = "q\<lparr>pb_depth := Suc (pb_depth q)\<rparr>"
    have fq: "fresh_at ?q ?s" "pb_format ?q = f" "pb_depth ?q = Suc d"
      using q by (auto simp: fresh_at_def same_def f_def d_def)
    have "prints al ?L (and_then (print_members al ms ?q) (\<lambda>p3. and_then (print_closing al p3) (deeper (\<lambda>d. d - 1))))
      (\<lambda>q. pb_format q = f \<and> pb_depth q = Suc d - 1 \<and> ended q ?t)"
    proof (rule writes_and_then [OF print_members_writes [OF assms fq(1)]])
      show "length (?s @ members_text (pb_format ?q) (pb_depth ?q) ms) + 1 \<le> ?L" unfolding fq by simp
      fix r assume "same ?q r \<and> fresh_at r (?s @ members_text (pb_format ?q) (pb_depth ?q) ms)"
      then have r: "pb_format r = f" "pb_depth r = Suc d" "fresh_at r ?u" using fq by (auto simp: same_def)
      show "prints al ?L (and_then (print_closing al r) (deeper (\<lambda>d. d - 1)))
        (\<lambda>q. pb_format q = f \<and> pb_depth q = Suc d - 1 \<and> ended q ?t)"
        by (rule and_then_deeper, rule writes_mono [OF closing_writes [OF r(3,2)]])
          (use r in \<open>auto simp: same_def line_start_def\<close>)
    qed
    then show "prints al ?L (and_then (deeper Suc q) (\<lambda>p2. and_then (print_members al ms p2)
        (\<lambda>p3. and_then (print_closing al p3) (deeper (\<lambda>d. d - 1)))))
      (\<lambda>q. pb_format q = f \<and> pb_depth q = Suc d - 1 \<and> ended q ?t)"
      by (simp add: deeper_def and_then_def)
  qed
  then show "prints al (length (t @ json_text (pb_format p) (pb_depth p) (JObject ms)) + 1) (print_value al (JObject ms) p)
    (\<lambda>q. same p q \<and> ended q (t @ json_text (pb_format p) (pb_depth p) (JObject ms)))"
    unfolding f_def d_def by (rule writes_mono) (auto simp: same_def)
qed

lemma every_value_writes: "every double_number j \<Longrightarrow> writes_value al j"
proof (induction j)
  case (JArray xs)
  then show ?case by (intro array_writes) simp
next
  case (JObject ms)
  have "writes_value al (snd m)" if "m \<in> set ms" for m
    using JObject.IH [OF that, of "snd m"] JObject.prems that by (cases m) auto
  then show ?case by (intro object_writes) simp
next
  case (JNumber d)
  then show ?case using print_number_writes [of _ _ d al] by (simp add: writes_value_def double_number_def)
next
  case (JString s)
  then show ?case using print_string_ptr_writes [of _ _ al s] by (simp add: writes_value_def)
next
  case JNull
  then show ?case using emit_ended [of _ _ "''null''" 5 al] by (simp add: writes_value_def)
next
  case JFalse
  then show ?case using emit_ended [of _ _ "''false''" 6 al] by (simp add: writes_value_def)
next
  case JTrue
  then show ?case using emit_ended [of _ _ "''true''" 5 al] by (simp add: writes_value_def)
qed

lemma elements_text_not_nul: "\<forall>x \<in> set xs. NUL \<notin> set (json_text f d x) \<Longrightarrow> NUL \<notin> set (elements_text f d xs)"
  by (induction xs) (auto split: if_splits)

lemma members_text_not_nul: "\<forall>m \<in> set ms. NUL \<notin> set (json_text f d (snd m)) \<Longrightarrow> NUL \<notin> set (members_text f d ms)"
proof (induction ms)
  case (Cons m ms)
  then show ?case using string_text_not_nul [of "fst m"]
    by (cases m) (auto simp: tab_def newline_def split: if_splits)
qed simp

lemma json_text_not_nul: "every double_number j \<Longrightarrow> NUL \<notin> set (json_text f d j)"
proof (induction j arbitrary: d)
  case (JArray xs)
  then show ?case using elements_text_not_nul [of xs f "Suc d"] by simp
next
  case (JObject ms)
  have "NUL \<notin> set (json_text f (Suc d) (snd m))" if "m \<in> set ms" for m
    using JObject.IH [OF that, of "snd m"] JObject.prems that by (cases m) auto
  then have "NUL \<notin> set (members_text f (Suc d) ms)" by (intro members_text_not_nul) simp
  then show ?case by (auto simp: tab_def newline_def)
qed (use number_text_written(2) string_text_not_nul in \<open>auto simp: double_number_def\<close>)

lemma print_json_text:
  assumes "every double_number j" "length (json_text fmt 0 j) + 1 < SIZE_MAX"
  shows "print_json al fmt j \<in> {Null, Printed (json_text fmt 0 j)}
    \<and> (plenty al (length (json_text fmt 0 j) + 256) \<longrightarrow> print_json al fmt j = Printed (json_text fmt 0 j))"
proof -
  let ?x = "json_text fmt 0 j" and ?p = "\<lparr>pb_buffer = map (garbage al) [0..<256], pb_offset = 0, pb_depth = 0, pb_format = fmt\<rparr>"
  have "fresh_at ?p []" by (simp add: fresh_at_def)
  then have w: "prints al (length ?x + 1) (print_value al j ?p) (\<lambda>q. same ?p q \<and> ended q ?x)"
    using writes_valueD [OF every_value_writes [OF assms(1)], of ?p "[]" fmt 0 al] by simp
  have "prints al (length ?x + 1) (and_then (print_value al j ?p) update_offset) (\<lambda>q. fresh_at q ?x \<and> ended q ?x)"
  proof (rule writes_and_then [OF w order_refl])
    fix q assume "same ?p q \<and> ended q ?x"
    then show "prints al (length ?x + 1) (update_offset q) (\<lambda>q. fresh_at q ?x \<and> ended q ?x)"
      using update_offset_ended [of q ?x al "length ?x + 1"]
      by (auto simp: prints_def update_offset_def Let_def ended_def fresh_at_def split: if_splits)
  qed
  then have res: "case and_then (print_value al j ?p) update_offset of None \<Rightarrow> False
      | Some (ok, q) \<Rightarrow> if ok then fresh_at q ?x \<and> ended q ?x else \<not> plenty al (length ?x + 1)"
    using assms(2) unfolding prints_def by blast
  have copy: "c_str (take (pb_offset q + 1) (pb_buffer q)) = ?x \<and> pb_offset q = length ?x" if q: "fresh_at q ?x" "ended q ?x" for q
  proof -
    have "pb_offset q = length ?x" using q(1) by (auto simp: fresh_at_def)
    moreover obtain tail where "pb_buffer q = ?x @ NUL # tail" using q(2) by (auto simp: ended_def)
    ultimately show ?thesis
      using json_text_not_nul [OF assms(1), of fmt 0] by (simp add: c_str_def) (subst takeWhile_append2; auto)
  qed
  have fewer: "plenty al (length ?x + 256) \<Longrightarrow> available al 256 \<and> available al (length ?x + 1) \<and> plenty al (length ?x + 1)"
    by (auto simp: plenty_def)
  show ?thesis
  proof (cases "available al 256")
    case True
    obtain ok q where r: "and_then (print_value al j ?p) update_offset = Some (ok, q)" using res by (auto split: option.splits)
    show ?thesis using True res copy [of q] fewer unfolding r by (cases ok) (auto simp: print_json_def r)
  next
    case False
    then show ?thesis using fewer by (auto simp: print_json_def)
  qed
qed

end
