(* ===== verification/Json_Parse.thy ===== *)
theory Json_Parse
  imports Json_Print
begin

text \<open>
  Parsing of \<open>iperf/src/cjson.c\<close>. The buffer at an offset is the list of the bytes that are left;
  reading at the offset of an empty list, or writing behind the memory allocated for a string, is
  \<open>Faulty\<close>. Allocation of items is taken to succeed, the position of an error is not kept.
\<close>

section \<open>The buffer\<close>

datatype 'a parsed = Parsed 'a string | Rejected | Faulty

definition is_ws :: "char \<Rightarrow> bool" where "is_ws c \<longleftrightarrow> (of_char c :: nat) \<le> 32"

text \<open>White space is every byte up to 32, the terminator included; at the end the offset goes one back.\<close>

definition buffer_skip_whitespace :: "string \<Rightarrow> string" where
  "buffer_skip_whitespace s = (if s = [] then [] else
     let r = dropWhile is_ws s in if r = [] then [last s] else r)"

definition skip_utf8_bom :: "string \<Rightarrow> string" where
  "skip_utf8_bom s = (if 4 < length s \<and> take 3 s = [CHR 0xEF, CHR 0xBB, CHR 0xBF] then drop 3 s else s)"

section \<open>Numbers\<close>

definition parse_number :: "string \<Rightarrow> json parsed" where
  "parse_number s = (let number = takeWhile number_char (take 63 s) in
     case strtod number of None \<Rightarrow> Rejected
     | Some (d, rest) \<Rightarrow> Parsed (JNumber d) (drop (length number - length rest) s))"

section \<open>Strings\<close>

definition hex_value :: "char \<Rightarrow> nat option" where
  "hex_value c = (let n = of_char c in
     if 48 \<le> n \<and> n \<le> 57 then Some (n - 48)
     else if 65 \<le> n \<and> n \<le> 70 then Some (10 + n - 65)
     else if 97 \<le> n \<and> n \<le> 102 then Some (10 + n - 97) else None)"

fun hex_digits :: "nat \<Rightarrow> string \<Rightarrow> nat" where
  "hex_digits h [] = h"
| "hex_digits h (c # s) = (case hex_value c of None \<Rightarrow> 0 | Some v \<Rightarrow> hex_digits (16 * h + v) s)"

definition parse_hex4 :: "string \<Rightarrow> nat" where
  "parse_hex4 s = hex_digits 0 (take 4 s)"

definition continuation :: "nat \<Rightarrow> char" where
  "continuation codepoint = char_of (128 + codepoint mod 64)"

definition utf8 :: "nat \<Rightarrow> string" where
  "utf8 codepoint =
     (if codepoint < 128 then [char_of codepoint]
      else if codepoint < 2048 then [char_of (192 + codepoint div 64), continuation codepoint]
      else if codepoint < 65536 then [char_of (224 + codepoint div 4096), continuation (codepoint div 64), continuation codepoint]
      else [char_of (240 + codepoint div 262144), continuation (codepoint div 4096), continuation (codepoint div 64),
        continuation codepoint])"

text \<open>
  \<open>n\<close> bytes are left before the end of the string. The bytes for the code point, and whether it took
  two sequences; \<open>None\<close> is the return value 0.
\<close>

definition utf16_literal_to_utf8 :: "nat \<Rightarrow> string \<Rightarrow> (string \<times> bool) option" where
  "utf16_literal_to_utf8 n s = (if n < 6 then None
     else let first_code = parse_hex4 (drop 2 s) in
       if 56320 \<le> first_code \<and> first_code \<le> 57343 then None
       else if 55296 \<le> first_code \<and> first_code \<le> 56319 then
         (if n - 6 < 6 \<or> s ! 6 \<noteq> CHR 0x5C \<or> s ! 7 \<noteq> CHR ''u'' then None
          else let second_code = parse_hex4 (drop 8 s) in
            if second_code < 56320 \<or> 57343 < second_code then None
            else Some (utf8 (65536 + (first_code mod 1024 * 1024 + second_code mod 1024)), True))
       else Some (utf8 first_code, False))"

text \<open>The first pass of \<open>parse_string\<close>: the distance to the closing quote, and how many escapes there are.\<close>

fun string_end :: "string \<Rightarrow> (nat \<times> nat) option" where
  "string_end [] = None"
| "string_end (c # s) = (if c = CHR 0x22 then Some (0, 0)
     else if c = CHR 0x5C then (case s of [] \<Rightarrow> None | e # r \<Rightarrow> map_option (\<lambda>(n, k). (n + 2, k + 1)) (string_end r))
     else map_option (\<lambda>(n, k). (n + 1, k)) (string_end s))"

definition simple_escape :: "char \<Rightarrow> char option" where
  "simple_escape e = (if e = CHR ''b'' then Some (CHR 0x08) else if e = CHR ''f'' then Some (CHR 0x0C)
     else if e = CHR ''n'' then Some (CHR 0x0A) else if e = CHR ''r'' then Some (CHR 0x0D)
     else if e = CHR ''t'' then Some (CHR 0x09)
     else if e = CHR 0x22 \<or> e = CHR 0x5C \<or> e = CHR ''/'' then Some e else None)"

definition prepend :: "string \<Rightarrow> string parsed \<Rightarrow> string parsed" where
  "prepend bs p = (case p of Parsed t r \<Rightarrow> Parsed (bs @ t) r | Rejected \<Rightarrow> Rejected | Faulty \<Rightarrow> Faulty)"

text \<open>
  The second pass: \<open>room\<close> bytes of the output are not yet used, \<open>n\<close> bytes of the input are left (a step
  may lead past the end, where the loop stops as well).
\<close>

function unescape :: "nat \<Rightarrow> nat \<Rightarrow> string \<Rightarrow> string parsed" where
  "unescape room n s =
     (if n = 0 then (if room = 0 then Faulty else Parsed [] s)
      else case s of [] \<Rightarrow> Faulty
        | c # r \<Rightarrow>
          if c \<noteq> CHR 0x5C then (if room = 0 then Faulty else prepend [c] (unescape (room - 1) (n - 1) r))
          else case r of [] \<Rightarrow> Faulty
            | e # r1 \<Rightarrow>
              (case simple_escape e of
                 Some x \<Rightarrow> if room = 0 then Faulty else prepend [x] (unescape (room - 1) (n - 2) r1)
               | None \<Rightarrow>
                 if e = CHR ''u'' then
                   (case utf16_literal_to_utf8 n s of None \<Rightarrow> Rejected
                    | Some (bs, two) \<Rightarrow> if room < length bs then Faulty
                        else prepend bs (unescape (room - length bs) (n - (if two then 12 else 6)) (drop (if two then 12 else 6) s)))
                 else Rejected))"
  by pat_completeness auto
termination by (relation "measure (\<lambda>(room, n, s). n)") auto

declare unescape.simps [simp del]

definition parse_string :: "string \<Rightarrow> string parsed" where
  "parse_string s = (case s of [] \<Rightarrow> Faulty
     | c # r \<Rightarrow> if c \<noteq> CHR 0x22 then Rejected
         else case string_end r of None \<Rightarrow> Rejected
           | Some (n, skipped_bytes) \<Rightarrow>
             (case unescape (n + 1 - skipped_bytes + 1) n r of
                Parsed t _ \<Rightarrow> Parsed (c_str t) (drop (n + 1) r)
              | Rejected \<Rightarrow> Rejected | Faulty \<Rightarrow> Faulty))"

section \<open>Values\<close>

definition CJSON_NESTING_LIMIT :: nat where "CJSON_NESTING_LIMIT = 1000"

function (sequential) parse_value :: "nat \<Rightarrow> string \<Rightarrow> json parsed"
  and parse_array :: "nat \<Rightarrow> string \<Rightarrow> json parsed"
  and parse_elements :: "nat \<Rightarrow> string \<Rightarrow> json list parsed"
  and parse_object :: "nat \<Rightarrow> string \<Rightarrow> json parsed"
  and parse_members :: "nat \<Rightarrow> string \<Rightarrow> (string \<times> json) list parsed" where
  "parse_value depth s =
     (if take 4 s = ''null'' then Parsed JNull (drop 4 s)
      else if take 5 s = ''false'' then Parsed JFalse (drop 5 s)
      else if take 4 s = ''true'' then Parsed JTrue (drop 4 s)
      else if s = [] then Rejected
      else if hd s = CHR 0x22 then
        (case parse_string s of Parsed t r \<Rightarrow> Parsed (JString t) r | Rejected \<Rightarrow> Rejected | Faulty \<Rightarrow> Faulty)
      else if hd s = CHR ''-'' \<or> is_digit (hd s) then parse_number s
      else if hd s = CHR ''['' then parse_array depth s
      else if hd s = CHR ''{'' then parse_object depth s
      else Rejected)"
| "parse_array depth s =
     (if CJSON_NESTING_LIMIT \<le> depth then Rejected
      else if s = [] then Faulty
      else if hd s \<noteq> CHR ''['' then Rejected
      else let s1 = buffer_skip_whitespace (tl s) in
        if s1 = [] then Rejected
        else if hd s1 = CHR '']'' then Parsed (JArray []) (tl s1)
        else (case parse_elements (Suc depth) s1 of
                Parsed vs r \<Rightarrow> Parsed (JArray vs) r | Rejected \<Rightarrow> Rejected | Faulty \<Rightarrow> Faulty))"
| "parse_elements depth s =
     (case parse_value depth (buffer_skip_whitespace s) of
        Rejected \<Rightarrow> Rejected | Faulty \<Rightarrow> Faulty
      | Parsed v r \<Rightarrow> (case buffer_skip_whitespace r of [] \<Rightarrow> Rejected
          | c # r1 \<Rightarrow> if c = CHR '','' then (case parse_elements depth r1 of
                Parsed vs r2 \<Rightarrow> Parsed (v # vs) r2 | Rejected \<Rightarrow> Rejected | Faulty \<Rightarrow> Faulty)
            else if c = CHR '']'' then Parsed [v] r1
            else Rejected))"
| "parse_object depth s =
     (if CJSON_NESTING_LIMIT \<le> depth then Rejected
      else if s = [] \<or> hd s \<noteq> CHR ''{'' then Rejected
      else let s1 = buffer_skip_whitespace (tl s) in
        if s1 = [] then Rejected
        else if hd s1 = CHR ''}'' then Parsed (JObject []) (tl s1)
        else (case parse_members (Suc depth) s1 of
                Parsed ms r \<Rightarrow> Parsed (JObject ms) r | Rejected \<Rightarrow> Rejected | Faulty \<Rightarrow> Faulty))"
| "parse_members depth s =
     (case parse_string (buffer_skip_whitespace s) of
        Rejected \<Rightarrow> Rejected | Faulty \<Rightarrow> Faulty
      | Parsed k r \<Rightarrow> (case buffer_skip_whitespace r of [] \<Rightarrow> Rejected
          | c # r1 \<Rightarrow> if c \<noteq> CHR '':'' then Rejected
            else (case parse_value depth (buffer_skip_whitespace r1) of
                Rejected \<Rightarrow> Rejected | Faulty \<Rightarrow> Faulty
              | Parsed v r2 \<Rightarrow> (case buffer_skip_whitespace r2 of [] \<Rightarrow> Rejected
                  | c # r3 \<Rightarrow> if c = CHR '','' then (case parse_members depth r3 of
                        Parsed ms r4 \<Rightarrow> Parsed ((k, v) # ms) r4 | Rejected \<Rightarrow> Rejected | Faulty \<Rightarrow> Faulty)
                    else if c = CHR ''}'' then Parsed [(k, v)] r3
                    else Rejected))))"
  by pat_completeness auto

section \<open>What a parser consumes\<close>

text \<open>\<open>eats s r\<close>: from \<open>s\<close> to \<open>r\<close> at least one byte was read, the last one not a terminator.\<close>

definition eats :: "string \<Rightarrow> string \<Rightarrow> bool" where
  "eats s r \<longleftrightarrow> (\<exists>u. s = u @ r \<and> u \<noteq> [] \<and> last u \<noteq> NUL)"

lemma eats_shorter: "eats s r \<Longrightarrow> length r < length s"
  by (auto simp: eats_def)

lemma eats_trans: "eats a b \<Longrightarrow> eats b c \<Longrightarrow> eats a c"
  unfolding eats_def
proof (elim exE conjE)
  fix u v assume "a = u @ b" "b = v @ c" "v \<noteq> []" "last v \<noteq> NUL"
  then show "\<exists>u. a = u @ c \<and> u \<noteq> [] \<and> last u \<noteq> NUL" by (intro exI [of _ "u @ v"]) simp
qed

lemma eats_Cons: "c \<noteq> NUL \<Longrightarrow> eats (c # s) s"
  unfolding eats_def by (intro exI [of _ "[c]"]) simp

lemma eats_drop: "n < length s \<Longrightarrow> s ! n \<noteq> NUL \<Longrightarrow> eats s (drop (Suc n) s)"
  unfolding eats_def by (intro exI [of _ "take (Suc n) s"]) (simp add: take_Suc_conv_app_nth id_take_nth_drop [symmetric])

lemma skip_suffix: "\<exists>w. s = w @ buffer_skip_whitespace s"
proof (cases "dropWhile is_ws s = []")
  case True
  then show ?thesis
    by (cases "s = []") (auto simp: buffer_skip_whitespace_def intro: exI [of _ "butlast s"])
next
  case False
  then have "buffer_skip_whitespace s = dropWhile is_ws s" by (auto simp: buffer_skip_whitespace_def Let_def)
  then show ?thesis by (metis takeWhile_dropWhile_id)
qed

lemma skip_eats:
  assumes "eats (buffer_skip_whitespace s) r" shows "eats s r"
proof -
  obtain w where "s = w @ buffer_skip_whitespace s" using skip_suffix by blast
  moreover obtain u where "buffer_skip_whitespace s = u @ r" "u \<noteq> []" "last u \<noteq> NUL"
    using assms by (auto simp: eats_def)
  ultimately show ?thesis unfolding eats_def by (intro exI [of _ "w @ u"]) simp
qed

lemma skip_shorter: "length (buffer_skip_whitespace s) \<le> length s"
  using skip_suffix [of s] by (metis length_append le_add2)

lemma skip_Cons: "buffer_skip_whitespace s = c # r \<Longrightarrow> c \<noteq> NUL \<Longrightarrow> eats s r"
  by (rule skip_eats) (simp add: eats_Cons)

lemma strtod_consumes:
  assumes "strtod s = Some (d, r)"
  shows "\<exists>u. u \<noteq> [] \<and> s = u @ r"
proof -
  obtain neg s1 where sgn: "scan_sign s = (neg, s1)" by (cases "scan_sign s")
  define ip s2 where "ip = takeWhile is_digit s1" and "s2 = dropWhile is_digit s1"
  obtain fp s3 where fr: "scan_fraction s2 = (fp, s3)" by (cases "scan_fraction s2")
  obtain e s4 where ex: "scan_exponent s3 = (e, s4)" by (cases "scan_exponent s3")
  have r: "r = s4" "ip \<noteq> [] \<or> fp \<noteq> []"
    using assms sgn fr ex by (auto simp: strtod_def Let_def ip_def s2_def split: if_splits)
  have 1: "\<exists>u. s = u @ s1" using sgn by (cases s) (auto simp: scan_sign_def split: if_splits)
  have 2: "s1 = ip @ s2" by (simp add: ip_def s2_def)
  have 3: "\<exists>u. s2 = u @ s3 \<and> (fp \<noteq> [] \<longrightarrow> u \<noteq> [])"
  proof (cases s2)
    case (Cons c t)
    show ?thesis
    proof (cases "c = CHR ''.''")
      case True
      then have "s2 = (c # fp) @ s3" using fr Cons by (auto simp: scan_fraction_def)
      then show ?thesis by blast
    qed (use fr Cons in \<open>auto simp: scan_fraction_def\<close>)
  qed (use fr in \<open>auto simp: scan_fraction_def\<close>)
  have sg: "\<exists>u. t = u @ snd (scan_sign t)" for t
    by (cases t) (auto simp: scan_sign_def)
  have 4: "\<exists>u. s3 = u @ s4"
  proof (cases s3)
    case (Cons c t)
    obtain neg t1 where t1: "scan_sign t = (neg, t1)" by (cases "scan_sign t")
    obtain u where u: "t = u @ t1" using sg [of t] t1 by auto
    have "s4 = s3 \<or> s4 = dropWhile is_digit t1" using ex Cons t1 by (auto simp: scan_exponent_def Let_def split: if_splits)
    moreover have "s3 = (c # u @ takeWhile is_digit t1) @ dropWhile is_digit t1" by (simp add: Cons u)
    ultimately show ?thesis by (metis append_Nil)
  qed (use ex in \<open>auto simp: scan_exponent_def\<close>)
  from 1 obtain u1 where u1: "s = u1 @ s1" ..
  from 3 obtain u3 where u3: "s2 = u3 @ s3" "fp \<noteq> [] \<longrightarrow> u3 \<noteq> []" by blast
  from 4 obtain u4 where u4: "s3 = u4 @ s4" ..
  have "s = (u1 @ ip @ u3 @ u4) @ r" using u1 2 u3 u4 r by simp
  moreover have "u1 @ ip @ u3 @ u4 \<noteq> []" using r(2) u3(2) by auto
  ultimately show ?thesis by (intro exI [of _ "u1 @ ip @ u3 @ u4"] conjI)
qed

lemma parse_number_eats:
  assumes "parse_number s = Parsed v r" shows "eats s r"
proof -
  define number where "number = takeWhile number_char (take 63 s)"
  obtain d rest where d: "strtod number = Some (d, rest)" "r = drop (length number - length rest) s"
    using assms by (auto simp: parse_number_def Let_def number_def split: option.splits)
  obtain u where u: "u \<noteq> []" "number = u @ rest" using strtod_consumes [OF d(1)] by blast
  define t where "t = dropWhile number_char (take 63 s) @ drop 63 s"
  have s: "s = u @ rest @ t"
    using u(2) unfolding number_def t_def by (metis append_assoc append_take_drop_id takeWhile_dropWhile_id)
  moreover have "last u \<noteq> NUL"
  proof -
    have "last u \<in> set number" using u by simp
    then have "number_char (last u)" unfolding number_def by (rule set_takeWhileD [THEN conjunct2])
    then show ?thesis by (auto simp: number_char_def is_digit_def)
  qed
  moreover have "r = rest @ t" using d(2) u(2) unfolding s by simp
  ultimately show ?thesis unfolding eats_def using u(1) by blast
qed

lemma string_end_quote: "string_end s = Some (n, k) \<Longrightarrow> n < length s \<and> s ! n = CHR 0x22"
proof (induction s arbitrary: n k rule: string_end.induct)
  case (2 c s)
  then show ?case by (auto split: if_splits list.splits)
qed simp

lemma parse_string_eats:
  assumes "parse_string s = Parsed t r" shows "eats s r"
proof -
  obtain c s1 n k where s: "s = c # s1" "string_end s1 = Some (n, k)" "r = drop (n + 1) s1"
    using assms by (auto simp: parse_string_def split: list.splits if_splits option.splits parsed.splits)
  then have "n < length s1" "s1 ! n = CHR 0x22" using string_end_quote by blast+
  then have "eats s (drop (Suc (Suc n)) s)" by (intro eats_drop) (simp_all add: s)
  then show ?thesis by (simp add: s)
qed

lemma eats_word: "take n s = w \<Longrightarrow> length w = n \<Longrightarrow> w \<noteq> [] \<Longrightarrow> last w \<noteq> NUL \<Longrightarrow> eats s (drop n s)"
  unfolding eats_def by (intro exI [of _ w]) auto

text \<open>Every part of the parser that succeeds has read something; this is also why it ends.\<close>

lemma parsers_eat:
  "parse_value_parse_array_parse_elements_parse_object_parse_members_dom (Inl (Inl (depth, s))) \<Longrightarrow>
    parse_value depth s = Parsed v r \<Longrightarrow> eats s r"
  "parse_value_parse_array_parse_elements_parse_object_parse_members_dom (Inl (Inr (depth, s))) \<Longrightarrow>
    parse_array depth s = Parsed v r \<Longrightarrow> eats s r"
  "parse_value_parse_array_parse_elements_parse_object_parse_members_dom (Inr (Inl (depth, s))) \<Longrightarrow>
    parse_elements depth s = Parsed vs r \<Longrightarrow> eats s r"
  "parse_value_parse_array_parse_elements_parse_object_parse_members_dom (Inr (Inr (Inl (depth, s)))) \<Longrightarrow>
    parse_object depth s = Parsed v r \<Longrightarrow> eats s r"
  "parse_value_parse_array_parse_elements_parse_object_parse_members_dom (Inr (Inr (Inr (depth, s)))) \<Longrightarrow>
    parse_members depth s = Parsed ms r \<Longrightarrow> eats s r"
proof (induction depth s and depth s and depth s and depth s and depth s
    arbitrary: v r and v r and vs r and v r and ms r
    rule: parse_value_parse_array_parse_elements_parse_object_parse_members.pinduct)
  case (1 depth s)
  note step = parse_value.psimps [OF 1(1)]
  show ?case
    using 1(2-4) unfolding step
    by (auto simp: eats_word parse_number_eats parse_string_eats split: if_splits parsed.splits)
next
  case (2 depth s)
  note step = parse_array.psimps [OF 2(1)]
  define s1 where "s1 = buffer_skip_whitespace (tl s)"
  have s: "s = CHR ''['' # tl s" "s1 \<noteq> []"
    using 2(3) unfolding step by (cases s; auto simp: Let_def s1_def split: if_splits)+
  have "eats s1 r"
  proof (cases "hd s1 = CHR '']''")
    case True
    then have "r = tl s1" using 2(3) s unfolding step by (auto simp: Let_def s1_def split: if_splits)
    then show ?thesis using True s(2) eats_Cons [of "CHR '']''" "tl s1"] by (cases s1) auto
  next
    case False
    then obtain vs where "parse_elements (Suc depth) s1 = Parsed vs r" "\<not> CJSON_NESTING_LIMIT \<le> depth"
      using 2(3) s unfolding step by (auto simp: Let_def s1_def split: if_splits parsed.splits)
    then show ?thesis using 2(2) [of s1 vs r] s False by (cases s) (auto simp: s1_def)
  qed
  then have "eats (tl s) r" unfolding s1_def by (rule skip_eats)
  then show ?case using eats_trans [OF eats_Cons [of "CHR ''[''" "tl s"]] s(1) by simp
next
  case (3 depth s)
  note step = parse_elements.psimps [OF 3(1)]
  obtain v r1 where v: "parse_value depth (buffer_skip_whitespace s) = Parsed v r1"
    using 3(4) unfolding step by (auto split: parsed.splits)
  have e1: "eats s r1" by (rule skip_eats) (rule 3(2) [OF v])
  obtain c r2 where c: "buffer_skip_whitespace r1 = c # r2"
    using 3(4) v unfolding step by (auto split: list.splits)
  show ?case
  proof (cases "c = CHR '',''")
    case True
    then obtain vs where "parse_elements depth r2 = Parsed vs r"
      using 3(4) v c unfolding step by (auto split: parsed.splits)
    from 3(3) [OF v c True this] skip_Cons [OF c] True show ?thesis using e1 by (blast intro: eats_trans)
  next
    case False
    then have "c = CHR '']''" "r = r2" using 3(4) v c unfolding step by (auto split: if_splits)
    with skip_Cons [OF c] e1 show ?thesis by (blast intro: eats_trans)
  qed
next
  case (4 depth s)
  note step = parse_object.psimps [OF 4(1)]
  define s1 where "s1 = buffer_skip_whitespace (tl s)"
  have s: "s = CHR ''{'' # tl s" "s1 \<noteq> []"
    using 4(3) unfolding step by (cases s; auto simp: Let_def s1_def split: if_splits)+
  have "eats s1 r"
  proof (cases "hd s1 = CHR ''}''")
    case True
    then have "r = tl s1" using 4(3) s unfolding step by (auto simp: Let_def s1_def split: if_splits)
    then show ?thesis using True s(2) eats_Cons [of "CHR ''}''" "tl s1"] by (cases s1) auto
  next
    case False
    then obtain ms where "parse_members (Suc depth) s1 = Parsed ms r" "\<not> CJSON_NESTING_LIMIT \<le> depth"
      using 4(3) s unfolding step by (auto simp: Let_def s1_def split: if_splits parsed.splits)
    then show ?thesis using 4(2) [of s1 ms r] s False by (cases s) (auto simp: s1_def)
  qed
  then have "eats (tl s) r" unfolding s1_def by (rule skip_eats)
  then show ?case using eats_trans [OF eats_Cons [of "CHR ''{''" "tl s"]] s(1) by simp
next
  case (5 depth s)
  note step = parse_members.psimps [OF 5(1)]
  obtain k r1 where k: "parse_string (buffer_skip_whitespace s) = Parsed k r1"
    using 5(4) unfolding step by (auto split: parsed.splits)
  have e1: "eats s r1" by (rule skip_eats) (rule parse_string_eats [OF k])
  obtain c r2 where c: "buffer_skip_whitespace r1 = c # r2" "\<not> c \<noteq> CHR '':''"
    using 5(4) k unfolding step by (auto split: list.splits if_splits)
  have e2: "eats s r2" using skip_Cons [OF c(1)] c(2) e1 by (blast intro: eats_trans)
  obtain v r3 where v: "parse_value depth (buffer_skip_whitespace r2) = Parsed v r3"
    using 5(4) k c unfolding step by (auto split: parsed.splits)
  have "eats r2 r3" by (rule skip_eats) (rule 5(2) [OF k c v])
  then have e3: "eats s r3" by (rule eats_trans [OF e2])
  obtain c' r4 where c': "buffer_skip_whitespace r3 = c' # r4"
    using 5(4) k c v unfolding step by (auto split: list.splits)
  show ?case
  proof (cases "c' = CHR '',''")
    case True
    then obtain ms' where "parse_members depth r4 = Parsed ms' r"
      using 5(4) k c v c' unfolding step by (auto split: parsed.splits)
    from 5(3) [OF k c v c' True this] skip_Cons [OF c'] True show ?thesis using e3 by (blast intro: eats_trans)
  next
    case False
    then have "c' = CHR ''}''" "r = r4" using 5(4) k c v c' unfolding step by (auto split: if_splits)
    with skip_Cons [OF c'] e3 show ?thesis by (blast intro: eats_trans)
  qed
qed

lemma skip_tl_shorter: "s \<noteq> [] \<Longrightarrow> Suc (Suc (3 * length (buffer_skip_whitespace (tl s)))) < 3 * length s"
  using skip_shorter [of "tl s"] by (cases s) auto

lemma skip_less_Suc: "3 * length (buffer_skip_whitespace s) < Suc (3 * length s)"
  using skip_shorter [of s] by simp

lemma eats_skip_shorter:
  assumes "eats (buffer_skip_whitespace s) r" "buffer_skip_whitespace r = c # r1" "c \<noteq> NUL"
  shows "length r1 < length s"
  using eats_shorter [OF eats_trans [OF skip_eats [OF assms(1)] skip_Cons [OF assms(2,3)]]] .

lemma parse_string_skip_shorter:
  assumes "parse_string (buffer_skip_whitespace s) = Parsed k r" "buffer_skip_whitespace r = c # r1" "c \<noteq> NUL"
  shows "length r1 < length s"
  by (rule eats_skip_shorter [OF parse_string_eats [OF assms(1)] assms(2,3)])

definition parser_size :: "((nat \<times> string + nat \<times> string) + (nat \<times> string + nat \<times> string + nat \<times> string)) \<Rightarrow> nat" where
  "parser_size x = (case x of
     Inl (Inl (depth, s)) \<Rightarrow> 3 * length s + 1
   | Inl (Inr (depth, s)) \<Rightarrow> 3 * length s
   | Inr (Inl (depth, s)) \<Rightarrow> 3 * length s + 2
   | Inr (Inr (Inl (depth, s))) \<Rightarrow> 3 * length s
   | Inr (Inr (Inr (depth, s))) \<Rightarrow> 3 * length s + 2)"

lemma parsers_total: "All parse_value_parse_array_parse_elements_parse_object_parse_members_dom"
proof (rule "parse_value_parse_array_parse_elements_parse_object_parse_members.termination" [of "measure parser_size"])
  fix depth s k r c r1 v r2 c' r3
  show "wf (measure parser_size)" by simp
  assume k: "parse_string (buffer_skip_whitespace s) = Parsed k r" "buffer_skip_whitespace r = c # r1" "\<not> c \<noteq> CHR '':''"
  then have "length r1 < length s" using parse_string_skip_shorter [OF k(1,2)] by simp
  then show "(Inl (Inl (depth, buffer_skip_whitespace r1)), Inr (Inr (Inr (depth, s)))) \<in> measure parser_size"
    using skip_less_Suc [of r1] by (simp add: parser_size_def)
  assume v: "parse_value depth (buffer_skip_whitespace r1) = Parsed v r2" "buffer_skip_whitespace r2 = c' # r3" "c' = CHR '',''"
    "parse_value_parse_array_parse_elements_parse_object_parse_members_dom (Inl (Inl (depth, buffer_skip_whitespace r1)))"
  have "length r3 < length r1" using eats_skip_shorter [OF parsers_eat(1) [OF v(4,1)] v(2)] v(3) by simp
  then show "(Inr (Inr (Inr (depth, r3))), Inr (Inr (Inr (depth, s)))) \<in> measure parser_size"
    using \<open>length r1 < length s\<close> by (simp add: parser_size_def)
next
  fix depth s v r c r1
  assume v: "parse_value depth (buffer_skip_whitespace s) = Parsed v r" "buffer_skip_whitespace r = c # r1" "c = CHR '',''"
    "parse_value_parse_array_parse_elements_parse_object_parse_members_dom (Inl (Inl (depth, buffer_skip_whitespace s)))"
  show "(Inr (Inl (depth, r1)), Inr (Inl (depth, s))) \<in> measure parser_size"
    using eats_skip_shorter [OF parsers_eat(1) [OF v(4,1)] v(2)] v(3) by (simp add: parser_size_def)
qed (auto simp: parser_size_def skip_tl_shorter skip_less_Suc)

termination parse_value by (rule parsers_total)

declare parse_value.simps [simp del] parse_array.simps [simp del] parse_elements.simps [simp del]
  parse_object.simps [simp del] parse_members.simps [simp del]

section \<open>Documents\<close>

text \<open>\<open>cJSON_ParseWithLengthOpts\<close> and its callers; \<open>Rejected\<close> is the null pointer.\<close>

definition cJSON_ParseWithLengthOpts :: "bool \<Rightarrow> string \<Rightarrow> json parsed" where
  "cJSON_ParseWithLengthOpts require_null_terminated s = (if s = [] then Rejected
     else case parse_value 0 (buffer_skip_whitespace (skip_utf8_bom s)) of
         Parsed j r \<Rightarrow>
           if require_null_terminated then
             (let r1 = buffer_skip_whitespace r in if r1 = [] \<or> hd r1 \<noteq> NUL then Rejected else Parsed j r1)
           else Parsed j r
       | Rejected \<Rightarrow> Rejected
       | Faulty \<Rightarrow> Faulty)"

definition cJSON_ParseWithOpts :: "bool \<Rightarrow> string \<Rightarrow> json parsed" where
  "cJSON_ParseWithOpts require_null_terminated s = cJSON_ParseWithLengthOpts require_null_terminated (c_str s @ [NUL])"

definition cJSON_Parse :: "string \<Rightarrow> json parsed" where
  "cJSON_Parse s = cJSON_ParseWithOpts False s"

definition cJSON_ParseWithLength :: "string \<Rightarrow> json parsed" where
  "cJSON_ParseWithLength s = cJSON_ParseWithLengthOpts False s"

section \<open>The two passes over a string\<close>

text \<open>
  \<open>parse_string\<close> sizes its output in a first pass, pair by pair; the second pass takes six bytes for a
  literal whatever they are, so that it may fall out of step with the first one. It fits all the same.
\<close>

lemma string_end_skips: "string_end s = Some (n, k) \<Longrightarrow> 2 * k \<le> n"
  by (induction s arbitrary: n k rule: string_end.induct) (auto split: if_splits list.splits)

lemma string_end_advance:
  "string_end s = Some (n, k) \<Longrightarrow> m \<le> n \<Longrightarrow>
    (\<exists>k'. string_end (drop m s) = Some (n - m, k') \<and> 2 * k \<le> 2 * k' + m)
    \<or> (\<exists>e s' k'. drop m s = e # s' \<and> string_end s' = Some (n - m - 1, k') \<and> m < n \<and> 2 * k \<le> 2 * k' + m + 1)"
proof (induction s arbitrary: n k m rule: string_end.induct)
  case (2 c s)
  show ?case
  proof (cases m)
    case 0
    then show ?thesis using 2(3) by auto
  next
    case (Suc m1)
    then have q: "c \<noteq> CHR 0x22" using 2(3,4) by auto
    show ?thesis
    proof (cases "c = CHR 0x5C")
      case False
      then obtain n1 where n1: "string_end s = Some (n1, k)" "n = n1 + 1"
        using 2(3) q by auto
      then show ?thesis using 2(2) [OF q False n1(1), of m1] 2(4) Suc by auto
    next
      case True
      then obtain e r n1 k1 where r: "s = e # r" "string_end r = Some (n1, k1)" "n = n1 + 2" "k = k1 + 1"
        using 2(3) by (auto split: list.splits)
      show ?thesis
      proof (cases m1)
        case 0
        then show ?thesis using r Suc by auto
      next
        case (Suc m2)
        then show ?thesis using 2(1) [OF q True r(1) r(2), of m2] r 2(4) \<open>m = Suc m1\<close> by auto
      qed
    qed
  qed
qed simp

lemma hex_value_bound: "hex_value c = Some v \<Longrightarrow> v < 16"
  by (auto simp: hex_value_def Let_def split: if_splits)

lemma hex_digits_bound: "hex_digits h s < (h + 1) * 16 ^ length s"
proof (induction s arbitrary: h)
  case (Cons c s)
  show ?case
  proof (cases "hex_value c")
    case (Some v)
    have "hex_digits (16 * h + v) s < (16 * h + v + 1) * 16 ^ length s" by (rule Cons.IH)
    also have "\<dots> \<le> (16 * h + 16) * 16 ^ length s" using hex_value_bound [OF Some] by (intro mult_right_mono) simp_all
    finally show ?thesis using Some by (simp add: algebra_simps)
  qed simp
qed simp

lemma parse_hex4_bound: "parse_hex4 s < 65536"
proof -
  have "(16 :: nat) ^ length (take 4 s) \<le> 16 ^ 4" by (rule power_increasing) simp_all
  then show ?thesis using hex_digits_bound [of 0 "take 4 s"] by (simp add: parse_hex4_def)
qed

lemma literal_room:
  assumes "utf16_literal_to_utf8 n s = Some (bs, two)"
  shows "6 \<le> n" "length bs \<le> (if two then 4 else 3)" "two \<Longrightarrow> 12 \<le> n"
  using assms parse_hex4_bound [of "drop 2 s"]
  by (auto simp: utf16_literal_to_utf8_def Let_def utf8_def split: if_splits)

definition in_step :: "nat \<Rightarrow> nat \<Rightarrow> string \<Rightarrow> bool" where
  "in_step room n s \<longleftrightarrow> (\<exists>k. string_end s = Some (n, k) \<and> n + 1 \<le> room + k)"

definition out_of_step :: "nat \<Rightarrow> nat \<Rightarrow> string \<Rightarrow> bool" where
  "out_of_step room n s \<longleftrightarrow> (\<exists>e s' n' k. s = e # s' \<and> string_end s' = Some (n', k) \<and> n = n' + 1 \<and> n + 1 \<le> room + k)"

lemma after_literal:
  assumes "string_end s = Some (n, k)" "n + 1 \<le> room + k" "m \<le> n" "(m + 1) div 2 + b \<le> m" "b \<le> room"
  shows "in_step (room - b) (n - m) (drop m s) \<or> out_of_step (room - b) (n - m) (drop m s)"
  using string_end_advance [OF assms(1,3)]
proof (elim disjE exE conjE)
  fix k' assume "string_end (drop m s) = Some (n - m, k')" "2 * k \<le> 2 * k' + m"
  then show ?thesis using assms by (intro disjI1) (auto simp: in_step_def)
next
  fix e s' k' assume "drop m s = e # s'" "string_end s' = Some (n - m - 1, k')" "m < n" "2 * k \<le> 2 * k' + m + 1"
  then show ?thesis using assms by (intro disjI2) (auto simp: out_of_step_def)
qed

lemma prepend_faulty [simp]: "prepend bs p = Faulty \<longleftrightarrow> p = Faulty"
  by (cases p) (simp_all add: prepend_def)

abbreviation some_step :: "nat \<Rightarrow> nat \<Rightarrow> string \<Rightarrow> bool" where
  "some_step room n s \<equiv> in_step room n s \<or> out_of_step room n s"

lemma step_room: "some_step room n s \<Longrightarrow> n + 2 \<le> 2 * room"
proof -
  assume "some_step room n s"
  moreover have "n + 2 \<le> 2 * room" if "in_step room n s"
    using that string_end_skips [of s n] by (fastforce simp: in_step_def)
  moreover have "n + 2 \<le> 2 * room" if "out_of_step room n s"
    using that string_end_skips by (fastforce simp: out_of_step_def)
  ultimately show ?thesis by blast
qed

lemma step_char:
  assumes "some_step room n (c # r)" "0 < n" "c \<noteq> CHR 0x5C"
  shows "some_step (room - 1) (n - 1) r"
  using assms(1)
proof
  assume "in_step room n (c # r)"
  then show ?thesis using assms(2,3) by (intro disjI1) (auto simp: in_step_def split: if_splits)
next
  assume "out_of_step room n (c # r)"
  then show ?thesis by (intro disjI1) (auto simp: out_of_step_def in_step_def)
qed

lemma step_pair:
  assumes "some_step room n (c # r)" "0 < n" "c = CHR 0x5C"
  shows "\<exists>e r1. r = e # r1 \<and> (some_step (room - 1) (n - 2) r1 \<or> n - 2 = 0 \<and> 1 < room)"
  using assms(1)
proof
  assume "in_step room n (c # r)"
  then obtain k where k: "string_end (c # r) = Some (n, k)" "n + 1 \<le> room + k" by (auto simp: in_step_def)
  then obtain e r1 n1 k1 where "r = e # r1" "string_end r1 = Some (n1, k1)" "n = n1 + 2" "k = k1 + 1"
    using assms(2,3) by (auto split: list.splits)
  then show ?thesis using k by (auto simp: in_step_def)
next
  assume "out_of_step room n (c # r)"
  then obtain n' k where k: "string_end r = Some (n', k)" "n = n' + 1" "n + 1 \<le> room + k"
    by (auto simp: out_of_step_def)
  then obtain e r1 where r: "r = e # r1" by (cases r) auto
  consider "e = CHR 0x22" | "e = CHR 0x5C" | "e \<noteq> CHR 0x22" "e \<noteq> CHR 0x5C" by blast
  then have "some_step (room - 1) (n - 2) r1 \<or> n - 2 = 0 \<and> 1 < room"
  proof cases
    case 1
    then show ?thesis using k r by auto
  next
    case 2
    then show ?thesis using k r by (auto simp: out_of_step_def split: list.splits)
  next
    case 3
    then show ?thesis using k r by (auto simp: in_step_def)
  qed
  then show ?thesis using r by blast
qed

lemma literal_step:
  assumes "some_step room n s" "utf16_literal_to_utf8 n s = Some (bs, two)" "m = (if two then 12 else 6)"
  shows "length bs \<le> room" "some_step (room - length bs) (n - m) (drop m s)"
proof -
  note lit = literal_room [OF assms(2)]
  have bs: "0 < length bs" using assms(2) by (auto simp: utf16_literal_to_utf8_def Let_def utf8_def split: if_splits)
  have m: "m \<le> n" "(m + 1) div 2 + length bs \<le> m" "m div 2 + (length bs - 1) \<le> m - 1"
    using lit assms(3) bs by (auto split: if_splits)
  show room: "length bs \<le> room" using step_room [OF assms(1)] lit by (auto split: if_splits)
  show "some_step (room - length bs) (n - m) (drop m s)"
    using assms(1)
  proof
    assume "in_step room n s"
    then show ?thesis using after_literal [OF _ _ m(1,2) room] by (auto simp: in_step_def)
  next
    assume "out_of_step room n s"
    then obtain e s' n' k where o: "s = e # s'" "string_end s' = Some (n', k)" "n = n' + 1" "n + 1 \<le> room + k"
      by (auto simp: out_of_step_def)
    obtain m' where m': "m = Suc m'" using assms(3) by (cases m) (auto split: if_splits)
    have "some_step (room - 1 - (length bs - 1)) (n' - m') (drop m' s')"
      by (rule after_literal [OF o(2)]) (use o m m' room bs in auto)
    then show ?thesis using o m' bs by simp
  qed
qed

lemma unescape_0: "0 < room \<Longrightarrow> unescape room 0 s \<noteq> Faulty"
  by (subst unescape.simps) simp

lemma unescape_fits: "some_step room n s \<Longrightarrow> unescape room n s \<noteq> Faulty"
proof (induction n arbitrary: room s rule: less_induct)
  case (less n)
  have room: "0 < room" using step_room [OF less.prems] by simp
  show ?case
  proof (cases "n = 0")
    case True
    then show ?thesis using room unescape_0 by simp
  next
    case False
    obtain c r where s: "s = c # r"
      using less.prems by (cases s) (auto simp: in_step_def out_of_step_def)
    show ?thesis
    proof (cases "c = CHR 0x5C")
      case True
      then obtain e r1 where r: "r = e # r1" "some_step (room - 1) (n - 2) r1 \<or> n - 2 = 0 \<and> 1 < room"
        using step_pair [of room n c r] less.prems s False by auto
      have short: "unescape (room - 1) (n - 2) r1 \<noteq> Faulty"
        using r(2)
      proof
        assume "some_step (room - 1) (n - 2) r1"
        then show ?thesis using less.IH [of "n - 2"] False by simp
      next
        assume "n - 2 = 0 \<and> 1 < room"
        then show ?thesis using unescape_0 [of "room - 1"] by simp
      qed
      have lit: "length bs \<le> room \<and> unescape (room - length bs) (n - (if two then 12 else 6)) (drop (if two then 12 else 6) s) \<noteq> Faulty"
        if "utf16_literal_to_utf8 n s = Some (bs, two)" for bs two
        using literal_step [OF less.prems that refl] less.IH False by auto
      show ?thesis
        using short lit room False True
        by (subst unescape.simps) (auto simp: s r(1) not_less split: option.splits if_splits)
    next
      case c: False
      then show ?thesis
        using less.IH [OF _ step_char [of room n c r]] less.prems room False
        by (subst unescape.simps) (auto simp: s)
    qed
  qed
qed

section \<open>No byte outside the text is read or written\<close>

definition terminated :: "string \<Rightarrow> bool" where
  "terminated s \<longleftrightarrow> s \<noteq> [] \<and> last s = NUL"

lemma terminated_not_Nil [simp]: "\<not> terminated []" by (simp add: terminated_def)

lemma terminated_eats: "terminated s \<Longrightarrow> eats s r \<Longrightarrow> terminated r"
  by (cases "r = []") (auto simp: terminated_def eats_def)

lemma terminated_tl: "terminated s \<Longrightarrow> hd s \<noteq> NUL \<Longrightarrow> terminated (tl s)"
  by (cases s) (auto simp: terminated_def split: if_splits)

lemma terminated_skip: "terminated s \<Longrightarrow> terminated (buffer_skip_whitespace s)"
proof -
  assume t: "terminated s"
  obtain w where w: "s = w @ buffer_skip_whitespace s" using skip_suffix by blast
  have "buffer_skip_whitespace s \<noteq> []" using t by (auto simp: buffer_skip_whitespace_def Let_def terminated_def)
  then show ?thesis using t w unfolding terminated_def by (metis last_append)
qed

lemma terminated_skip_Cons: "terminated s \<Longrightarrow> buffer_skip_whitespace s = c # r \<Longrightarrow> c \<noteq> NUL \<Longrightarrow> terminated r"
  using terminated_eats [OF _ skip_Cons] by blast

lemma parse_string_fits: "s \<noteq> [] \<Longrightarrow> parse_string s \<noteq> Faulty"
proof -
  assume "s \<noteq> []"
  then obtain c r where s: "s = c # r" by (cases s) auto
  have "unescape (n + 1 - k + 1) n r \<noteq> Faulty" if "string_end r = Some (n, k)" for n k
    using that string_end_skips [OF that] by (intro unescape_fits disjI1) (auto simp: in_step_def)
  then show ?thesis by (auto simp: s parse_string_def split: option.splits parsed.splits)
qed

lemma parse_number_safe: "parse_number s \<noteq> Faulty"
  by (auto simp: parse_number_def Let_def split: option.splits)

lemmas parse_value_eats = parsers_eat(1) [OF parsers_total [THEN spec]]

lemma parsers_safe:
  "terminated s \<Longrightarrow> parse_value depth s \<noteq> Faulty"
  "terminated s \<Longrightarrow> parse_array depth s \<noteq> Faulty"
  "terminated s \<Longrightarrow> parse_elements depth s \<noteq> Faulty"
  "terminated s \<Longrightarrow> parse_object depth s \<noteq> Faulty"
  "terminated s \<Longrightarrow> parse_members depth s \<noteq> Faulty"
proof (induction depth s and depth s and depth s and depth s and depth s
    rule: parse_value_parse_array_parse_elements_parse_object_parse_members.induct)
  case (1 depth s)
  then have "s \<noteq> []" by auto
  then show ?case
    using 1 parse_string_fits [of s] parse_number_safe [of s] by (auto simp: parse_value.simps split: parsed.splits)
next
  case (2 depth s)
  have "terminated (buffer_skip_whitespace (tl s))" if "hd s = CHR ''[''"
    using 2(2) that by (intro terminated_skip terminated_tl) simp_all
  moreover have "s \<noteq> []" using 2(2) by auto
  ultimately show ?case using 2 by (auto simp: parse_array.simps Let_def split: parsed.splits)
next
  case (3 depth s)
  have s: "parse_value depth (buffer_skip_whitespace s) \<noteq> Faulty" by (rule 3(1) [OF terminated_skip [OF 3(3)]])
  have "parse_elements depth r1 \<noteq> Faulty"
    if "parse_value depth (buffer_skip_whitespace s) = Parsed v r" "buffer_skip_whitespace r = CHR '','' # r1" for v r r1
  proof -
    have "terminated r" using terminated_eats [OF 3(3)] skip_eats [OF parse_value_eats [OF that(1)]] by blast
    then show ?thesis using 3(2) [OF that refl] terminated_skip_Cons [OF _ that(2)] by simp
  qed
  then show ?case using s by (auto simp: parse_elements.simps [of depth s] split: parsed.splits list.splits)
next
  case (4 depth s)
  have "terminated (buffer_skip_whitespace (tl s))" if "hd s = CHR ''{''"
    using 4(2) that by (intro terminated_skip terminated_tl) simp_all
  moreover have "s \<noteq> []" using 4(2) by auto
  ultimately show ?case using 4 by (auto simp: parse_object.simps Let_def split: parsed.splits)
next
  case (5 depth s)
  have k: "parse_string (buffer_skip_whitespace s) \<noteq> Faulty"
    using terminated_skip [OF 5(3)] by (intro parse_string_fits) auto
  have t: "terminated r1"
    if "parse_string (buffer_skip_whitespace s) = Parsed k r" "buffer_skip_whitespace r = CHR '':'' # r1" for k r r1
    using terminated_eats [OF 5(3)] skip_eats [OF parse_string_eats [OF that(1)]] terminated_skip_Cons [OF _ that(2)] by simp
  have v: "parse_value depth (buffer_skip_whitespace r1) \<noteq> Faulty"
    if "parse_string (buffer_skip_whitespace s) = Parsed k r" "buffer_skip_whitespace r = CHR '':'' # r1" for k r r1
    using 5(1) [OF that] terminated_skip [OF t [OF that]] by simp
  have m: "parse_members depth r3 \<noteq> Faulty"
    if "parse_string (buffer_skip_whitespace s) = Parsed k r" "buffer_skip_whitespace r = CHR '':'' # r1"
      "parse_value depth (buffer_skip_whitespace r1) = Parsed v r2" "buffer_skip_whitespace r2 = CHR '','' # r3" for k r r1 v r2 r3
  proof -
    have "terminated r2" using terminated_eats [OF t [OF that(1,2)] skip_eats [OF parse_value_eats [OF that(3)]]] .
    then show ?thesis using 5(2) [OF that(1,2) _ that(3,4) refl] terminated_skip_Cons [OF _ that(4)] by simp
  qed
  show ?case using k v m by (auto simp: parse_members.simps [of depth s] split: parsed.splits list.splits)
qed

lemma terminated_bom: "terminated s \<Longrightarrow> terminated (skip_utf8_bom s)"
  by (auto simp: skip_utf8_bom_def terminated_def)

lemma cJSON_Parse_safe: "terminated s \<Longrightarrow> cJSON_ParseWithLengthOpts require s \<noteq> Faulty"
  using parsers_safe(1) [OF terminated_skip [OF terminated_bom], of s 0]
  by (auto simp: cJSON_ParseWithLengthOpts_def Let_def split: parsed.splits)

section \<open>What was printed is read back\<close>

text \<open>The document that comes out: the same, with the numbers that their texts stand for.\<close>

fun read_json :: "json \<Rightarrow> json" where
  "read_json (JNumber d) = JNumber (readback d)"
| "read_json (JArray xs) = JArray (map read_json xs)"
| "read_json (JObject ms) = JObject (map (\<lambda>m. (fst m, read_json (snd m))) ms)"
| "read_json j = j"

fun nests_within :: "nat \<Rightarrow> json \<Rightarrow> bool" where
  "nests_within n (JArray xs) = (0 < n \<and> (\<forall>x \<in> set xs. nests_within (n - 1) x))"
| "nests_within n (JObject ms) = (0 < n \<and> (\<forall>m \<in> set ms. nests_within (n - 1) (snd m)))"
| "nests_within n j = True"

text \<open>No string holds a terminator, every number is a finite \<open>double\<close>.\<close>

definition printable :: "json \<Rightarrow> bool" where
  "printable j = (case j of JNumber d \<Rightarrow> is_double d \<and> \<not> isinf d | JString s \<Rightarrow> NUL \<notin> set s
     | JObject ms \<Rightarrow> (\<forall>m \<in> set ms. NUL \<notin> set (fst m)) | _ \<Rightarrow> True)"

definition stops_number :: "string \<Rightarrow> bool" where
  "stops_number r \<longleftrightarrow> r \<noteq> [] \<and> \<not> number_char (hd r)"

lemma stops_simps [simp]: "\<not> stops_number []" "stops_number (c # r) \<longleftrightarrow> \<not> number_char c"
  by (simp_all add: stops_number_def)

lemma parse_number_text:
  assumes "is_double d" "\<not> isinf d" "stops_number r"
  shows "parse_number (number_text d @ r) = Parsed (JNumber (readback d)) r"
proof -
  note n = number_text_shape [OF assms(1,2)]
  have "takeWhile number_char (take 63 (number_text d @ r)) = number_text d"
  proof -
    obtain c t where r: "r = c # t" "\<not> number_char c" using assms(3) by (cases r) auto
    have "take 63 (number_text d @ r) = number_text d @ c # take (62 - length (number_text d)) t"
      using n(2) by (simp add: r(1) take_Cons')
    then show ?thesis using n(1) r(2) by (simp add: takeWhile_append)
  qed
  then show ?thesis using strtod_number_text [OF assms(1,2)] by (simp add: parse_number_def)
qed

lemma simple_escape_short: "short_escape c = Some e \<Longrightarrow> simple_escape e = Some c"
  by (auto simp: short_escape_def simple_escape_def split: if_splits)

lemma hex_value_digit: "n < 16 \<Longrightarrow> hex_value (hex_digit n) = Some n"
  by (auto simp: hex_value_def hex_digit_def Let_def)

lemma parse_hex4_digits:
  assumes "hex_value a = Some u" "hex_value b = Some v" "hex_value c = Some w" "hex_value d = Some x"
  shows "parse_hex4 (a # b # c # d # t) = ((u * 16 + v) * 16 + w) * 16 + x"
  using assms by (simp add: parse_hex4_def)

definition control_escape :: "char \<Rightarrow> string" where
  "control_escape c = [CHR 0x5C, CHR ''u'', CHR ''0'', CHR ''0'', hex_digit (of_char c div 16), hex_digit (of_char c mod 16)]"

lemma escaped_cases:
  obtains "escaped c = [c]" "c \<noteq> CHR 0x22" "c \<noteq> CHR 0x5C"
  | e where "escaped c = [CHR 0x5C, e]" "short_escape c = Some e"
  | "escaped c = control_escape c" "(of_char c :: nat) < 32"
proof (cases "31 < (of_char c :: nat) \<and> c \<noteq> CHR 0x22 \<and> c \<noteq> CHR 0x5C")
  case True
  then show ?thesis using that(1) by (simp add: escaped_def)
next
  case False
  then show ?thesis
  proof (cases "short_escape c")
    case None
    then have "(of_char c :: nat) < 32" using False by (auto simp: short_escape_def split: if_splits)
    then show ?thesis using that(3) None False by (auto simp: escaped_def control_escape_def)
  qed (use that(2) False in \<open>auto simp: escaped_def\<close>)
qed

lemma literal_of_control:
  assumes "(of_char c :: nat) < 32" "6 \<le> n"
  shows "utf16_literal_to_utf8 n (control_escape c @ t) = Some ([c], False)"
proof -
  have "drop 2 (control_escape c @ t) = CHR ''0'' # CHR ''0'' # hex_digit (of_char c div 16) # hex_digit (of_char c mod 16) # t"
    by (simp add: control_escape_def)
  moreover have z: "hex_value CHR ''0'' = Some 0" by (simp add: hex_value_def)
  ultimately have "parse_hex4 (drop 2 (control_escape c @ t)) = of_char c"
    using parse_hex4_digits [OF z z hex_value_digit [OF of_char_div_16(1)] hex_value_digit [OF of_char_div_16(2)], of c c t]
    by simp
  then show ?thesis using assms by (simp add: utf16_literal_to_utf8_def utf8_def)
qed

lemma unescape_escaped:
  assumes "0 < room"
  shows "unescape room (length (escaped c) + n) (escaped c @ t) = prepend [c] (unescape (room - 1) n t)"
proof (rule escaped_cases [of c])
  assume "escaped c = [c]" "c \<noteq> CHR 0x5C"
  then show ?thesis using assms by (subst unescape.simps) simp
next
  fix e assume "escaped c = [CHR 0x5C, e]" "short_escape c = Some e"
  then show ?thesis using assms simple_escape_short [of c e] by (subst unescape.simps) simp
next
  assume c: "escaped c = control_escape c" "(of_char c :: nat) < 32"
  define s where "s = control_escape c @ t"
  have s: "s = CHR 0x5C # CHR ''u'' # drop 2 s" "drop 6 s = t" by (simp_all add: s_def control_escape_def)
  have lit: "utf16_literal_to_utf8 (6 + n) s = Some ([c], False)"
    unfolding s_def by (rule literal_of_control [OF c(2)]) simp
  have u: "simple_escape CHR ''u'' = None" by (simp add: simple_escape_def)
  have len: "length (escaped c) = 6" by (simp add: c(1) control_escape_def)
  have "unescape room (6 + n) s = prepend [c] (unescape (room - 1) n t)"
    using assms lit u s by (subst unescape.simps) (auto split: list.splits)
  then show ?thesis unfolding len unfolding c(1) s_def .
qed

lemma unescape_all:
  "length s < room \<Longrightarrow> unescape room (length (concat (map escaped s))) (concat (map escaped s) @ r) = Parsed s r"
proof (induction s arbitrary: room)
  case Nil
  then show ?case by (subst unescape.simps) simp
next
  case (Cons c s)
  then have "unescape (room - 1) (length (concat (map escaped s))) (concat (map escaped s) @ r) = Parsed s r"
    by (intro Cons.IH) simp
  then show ?case
    using Cons.prems unescape_escaped [of room c "length (concat (map escaped s))" "concat (map escaped s) @ r"]
    by (simp add: prepend_def)
qed

lemma string_end_escaped:
  "\<exists>k. string_end (concat (map escaped s) @ CHR 0x22 # r) = Some (length (concat (map escaped s)), k)
    \<and> length s + k \<le> length (concat (map escaped s))"
proof (induction s)
  case (Cons c s)
  then obtain k where k: "string_end (concat (map escaped s) @ CHR 0x22 # r) = Some (length (concat (map escaped s)), k)"
    "length s + k \<le> length (concat (map escaped s))" by blast
  have hex: "hex_digit m \<noteq> CHR 0x22 \<and> hex_digit m \<noteq> CHR 0x5C" if "m < 16" for m
    using hex_value_digit [OF that] by (auto simp: hex_value_def)
  show ?case
  proof (rule escaped_cases [of c])
    assume "escaped c = [c]" "c \<noteq> CHR 0x22" "c \<noteq> CHR 0x5C"
    then show ?thesis using k by simp
  next
    fix e assume "escaped c = [CHR 0x5C, e]"
    then show ?thesis using k by simp
  next
    assume "escaped c = control_escape c"
    then show ?thesis using k hex [OF of_char_div_16(1), of c] hex [OF of_char_div_16(2), of c] by (simp add: control_escape_def)
  qed
qed simp

lemma parse_string_text:
  assumes "NUL \<notin> set s"
  shows "parse_string (string_text s @ r) = Parsed s r"
proof -
  let ?e = "concat (map escaped s)"
  have cs: "c_str s = s" using assms by (auto simp: c_str_def takeWhile_eq_all_conv)
  obtain k where k: "string_end (?e @ CHR 0x22 # r) = Some (length ?e, k)" "length s + k \<le> length ?e"
    using string_end_escaped by blast
  then have "unescape (length ?e + 1 - k + 1) (length ?e) (?e @ CHR 0x22 # r) = Parsed s (CHR 0x22 # r)"
    by (intro unescape_all) simp
  then show ?thesis using k(1) by (simp add: parse_string_def string_text_def cs)
qed

definition blank :: "string \<Rightarrow> bool" where "blank w \<longleftrightarrow> (\<forall>c \<in> set w. is_ws c)"

lemma blank_simps [simp]: "blank []" "blank (c # w) \<longleftrightarrow> is_ws c \<and> blank w" "blank (v @ w) \<longleftrightarrow> blank v \<and> blank w"
  "blank (replicate n tab)" "is_ws newline" "is_ws tab" "is_ws CHR '' ''"
  by (auto simp: blank_def is_ws_def tab_def newline_def)

lemma skip_blank: "blank w \<Longrightarrow> \<not> is_ws c \<Longrightarrow> buffer_skip_whitespace (w @ c # r) = c # r"
  by (simp add: buffer_skip_whitespace_def blank_def dropWhile_append2)

lemma not_ws [simp]: "\<not> is_ws CHR '',''" "\<not> is_ws CHR '']''" "\<not> is_ws CHR ''}''" "\<not> is_ws CHR '':''" "\<not> is_ws CHR 0x22"
  by (simp_all add: is_ws_def)

lemma not_number_char [simp]: "\<not> number_char CHR '',''" "\<not> number_char CHR '']''" "\<not> number_char CHR ''}''"
  "\<not> number_char CHR 0x22" "\<not> number_char newline" "\<not> number_char tab" "\<not> number_char NUL"
  by (simp_all add: number_char_def is_digit_def newline_def tab_def)

text \<open>How a text begins.\<close>

lemma json_text_head:
  assumes "printable j"
  obtains c r where "json_text f d j = c # r" "\<not> is_ws c" "c \<noteq> CHR '']''" "c \<noteq> CHR 0xEF"
proof -
  have "\<exists>c r. json_text f d j = c # r \<and> \<not> is_ws c \<and> c \<noteq> CHR '']'' \<and> c \<noteq> CHR 0xEF"
  proof (cases j)
    case (JNumber x)
    then have "is_double x" "\<not> isinf x" using assms by (simp_all add: printable_def)
    then obtain c r where "number_text x = c # r" "c = CHR ''-'' \<or> is_digit c"
      using number_text_shape(3) [of x] by blast
    then show ?thesis using JNumber by (auto simp: is_ws_def is_digit_def)
  qed (simp_all add: string_text_def is_ws_def)
  then show thesis using that by blast
qed

lemma skip_text:
  assumes "printable j" "blank w"
  shows "buffer_skip_whitespace (w @ json_text f d j @ r) = json_text f d j @ r"
  using json_text_head [OF assms(1), of f d] skip_blank [OF assms(2)] by (metis append_Cons)

definition reads_back :: "json \<Rightarrow> bool" where
  "reads_back j \<longleftrightarrow> (\<forall>depth f d r. nests_within (CJSON_NESTING_LIMIT - depth) j \<longrightarrow> stops_number r \<longrightarrow>
     parse_value depth (json_text f d j @ r) = Parsed (read_json j) r)"

lemma reads_backD: "reads_back j \<Longrightarrow> nests_within (CJSON_NESTING_LIMIT - depth) j \<Longrightarrow> stops_number r \<Longrightarrow>
    parse_value depth (json_text f d j @ r) = Parsed (read_json j) r"
  by (simp add: reads_back_def)

lemma parse_elements_text:
  assumes "xs \<noteq> []" "\<forall>x \<in> set xs. printable x \<and> reads_back x \<and> nests_within (CJSON_NESTING_LIMIT - depth) x" "blank w"
  shows "parse_elements depth (w @ elements_text f d xs @ CHR '']'' # r) = Parsed (map read_json xs) r"
  using assms
proof (induction xs arbitrary: w)
  case (Cons x xs)
  then have x: "printable x" "reads_back x" "nests_within (CJSON_NESTING_LIMIT - depth) x" by simp_all
  show ?case
  proof (cases "xs = []")
    case True
    have "parse_value depth (json_text f d x @ CHR '']'' # r) = Parsed (read_json x) (CHR '']'' # r)"
      by (rule reads_backD [OF x(2,3)]) simp
    then show ?thesis
      using True skip_text [OF x(1) Cons.prems(3)] skip_blank [of "[]" "CHR '']''" r] by (simp add: parse_elements.simps)
  next
    case False
    define w' where "w' = (if f then '' '' else [])"
    define t where "t = elements_text f d xs @ CHR '']'' # r"
    have "blank w'" by (simp add: w'_def)
    then have rest: "parse_elements depth (w' @ t) = Parsed (map read_json xs) r"
      unfolding t_def using Cons.IH [OF False] Cons.prems(2) by simp
    have "parse_value depth (json_text f d x @ CHR '','' # w' @ t) = Parsed (read_json x) (CHR '','' # w' @ t)"
      by (rule reads_backD [OF x(2,3)]) simp
    moreover have "w @ elements_text f d (x # xs) @ CHR '']'' # r = w @ json_text f d x @ CHR '','' # w' @ t"
      using False by (simp add: w'_def t_def)
    ultimately show ?thesis
      using rest skip_text [OF x(1) Cons.prems(3)] skip_blank [of "[]" "CHR '',''" "w' @ t"]
      by (subst parse_elements.simps) simp
  qed
qed simp

lemma elements_text_head:
  assumes "xs \<noteq> []" "\<forall>x \<in> set xs. printable x"
  obtains c r where "elements_text f d xs = c # r" "\<not> is_ws c" "c \<noteq> CHR '']''"
proof -
  obtain x ys where xs: "xs = x # ys" using assms(1) by (cases xs) auto
  then obtain c r where "json_text f d x = c # r" "\<not> is_ws c" "c \<noteq> CHR '']''"
    using assms(2) by (auto intro: json_text_head [of x f d])
  then show thesis using that xs by simp
qed

lemma parse_array_text:
  assumes "\<forall>x \<in> set xs. printable x \<and> reads_back x" "nests_within (CJSON_NESTING_LIMIT - depth) (JArray xs)"
  shows "parse_array depth (json_text f d (JArray xs) @ r) = Parsed (JArray (map read_json xs)) r"
proof (cases "xs = []")
  case True
  then show ?thesis using assms(2) skip_blank [of "[]" "CHR '']''" r] by (simp add: parse_array.simps)
next
  case False
  let ?t = "elements_text f (Suc d) xs @ CHR '']'' # r"
  obtain c t where h: "elements_text f (Suc d) xs = c # t" "\<not> is_ws c" "c \<noteq> CHR '']''"
    using elements_text_head [OF False] assms(1) by metis
  have "parse_elements (Suc depth) ([] @ ?t) = Parsed (map read_json xs) r"
    by (rule parse_elements_text [OF False]) (use assms in auto)
  moreover have "buffer_skip_whitespace ?t = ?t" using skip_blank [of "[]" c] h by simp
  ultimately show ?thesis using assms(2) h by (simp add: parse_array.simps)
qed

definition printable_member :: "nat \<Rightarrow> string \<times> json \<Rightarrow> bool" where
  "printable_member n m \<longleftrightarrow> NUL \<notin> set (fst m) \<and> printable (snd m) \<and> reads_back (snd m) \<and> nests_within n (snd m)"

lemma skip_string: "blank w \<Longrightarrow> buffer_skip_whitespace (w @ string_text k @ r) = string_text k @ r"
  using skip_blank [of w "CHR 0x22"] by (simp add: string_text_def)

lemma skip_stop: "\<not> is_ws c \<Longrightarrow> buffer_skip_whitespace (c # r) = c # r"
  using skip_blank [of "[]" c r] by simp

lemma parse_members_text:
  assumes "ms \<noteq> []" "\<forall>m \<in> set ms. printable_member (CJSON_NESTING_LIMIT - depth) m" "blank w" "blank e"
  shows "parse_members depth (w @ members_text f d ms @ e @ CHR ''}'' # r) = Parsed (map (\<lambda>m. (fst m, read_json (snd m))) ms) r"
  using assms
proof (induction ms arbitrary: w)
  case (Cons m ms)
  obtain k v where m: "m = (k, v)" by (cases m)
  then have k: "NUL \<notin> set k" and v: "printable v" "reads_back v" "nests_within (CJSON_NESTING_LIMIT - depth) v"
    using Cons.prems(2) by (simp_all add: printable_member_def)
  define t where "t = (if f then [tab] else [])"
  define tail where "tail = line_end f (ms \<noteq> []) @ members_text f d ms @ e @ CHR ''}'' # r"
  have split: "w @ members_text f d (m # ms) @ e @ CHR ''}'' # r =
      (w @ line_start f d) @ string_text k @ CHR '':'' # t @ json_text f d v @ tail"
    unfolding m members_text_Cons by (simp add: t_def tail_def)
  have blank: "blank (w @ line_start f d)" "blank t" using Cons.prems(3) by (simp_all add: line_start_def t_def)
  have "stops_number tail" by (cases ms; cases f; cases e)
      (use Cons.prems(4) in \<open>auto simp: tail_def line_end_def number_char_def is_digit_def is_ws_def newline_def\<close>)
  then have val: "parse_value depth (json_text f d v @ tail) = Parsed (read_json v) tail"
    by (rule reads_backD [OF v(2,3)])
  show ?case
  proof (cases "ms = []")
    case True
    have "blank (line_end f False @ e)" using Cons.prems(4) by (simp add: line_end_def)
    from skip_blank [OF this, of "CHR ''}''" r] have "buffer_skip_whitespace tail = CHR ''}'' # r"
      using True by (simp add: tail_def)
    then show ?thesis
      using True val m unfolding split
      by (subst parse_members.simps)
        (simp add: skip_string [OF blank(1), simplified] parse_string_text [OF k] skip_stop skip_text [OF v(1) blank(2)])
  next
    case False
    define w' where "w' = (if f then [newline] else [])"
    define rest where "rest = members_text f d ms @ e @ CHR ''}'' # r"
    have tail: "tail = CHR '','' # w' @ rest" using False by (simp add: tail_def line_end_def w'_def rest_def)
    have "parse_members depth (w' @ rest) = Parsed (map (\<lambda>m. (fst m, read_json (snd m))) ms) r"
      unfolding rest_def using Cons.IH [OF False, of w'] Cons.prems(2,4) by (simp add: w'_def)
    then show ?thesis
      using val m unfolding split
      by (subst parse_members.simps)
        (simp add: skip_string [OF blank(1), simplified] parse_string_text [OF k] skip_stop skip_text [OF v(1) blank(2)] tail)
  qed
qed simp

lemma parse_object_text:
  assumes "\<forall>m \<in> set ms. printable_member (CJSON_NESTING_LIMIT - depth - 1) m" "depth < CJSON_NESTING_LIMIT"
  shows "parse_object depth (json_text f d (JObject ms) @ r) = Parsed (JObject (map (\<lambda>m. (fst m, read_json (snd m))) ms)) r"
proof -
  define w e where "w = (if f then [newline] else [])" and "e = (if f then replicate d tab else [])"
  have b: "blank w" "blank e" by (simp_all add: w_def e_def)
  let ?t = "w @ members_text f (Suc d) ms @ e @ CHR ''}'' # r"
  have whole: "json_text f d (JObject ms) @ r = CHR ''{'' # ?t" by (simp add: w_def e_def)
  show ?thesis
  proof (cases ms)
    case Nil
    have "buffer_skip_whitespace ?t = CHR ''}'' # r" using skip_blank [of "w @ e" "CHR ''}''" r] b Nil by simp
    then show ?thesis unfolding whole using assms(2) Nil by (simp add: parse_object.simps)
  next
    case (Cons m ms')
    obtain k v where m: "m = (k, v)" by (cases m)
    define s1 where "s1 = members_text f (Suc d) ms @ e @ CHR ''}'' # r"
    obtain u where u: "s1 = line_start f (Suc d) @ string_text k @ u"
      unfolding s1_def Cons m members_text_Cons by (simp del: members_text.simps)
    have "blank (w @ line_start f (Suc d))" using b by (simp add: line_start_def)
    from skip_string [OF this, of k u] have skip: "buffer_skip_whitespace ?t = [] @ string_text k @ u"
      unfolding s1_def [symmetric] u by simp
    have "parse_members (Suc depth) ?t = Parsed (map (\<lambda>m. (fst m, read_json (snd m))) ms) r"
      by (rule parse_members_text [OF _ _ b]) (use Cons assms in simp_all)
    moreover have "parse_members (Suc depth) ?t = parse_members (Suc depth) (string_text k @ u)"
      using skip skip_string [of "[]" k u] by (subst (1 2) parse_members.simps) simp
    ultimately show ?thesis
      unfolding whole using assms(2) skip by (simp add: parse_object.simps string_text_def)
  qed
qed

lemma every_top: "every Q j \<Longrightarrow> Q j" by (cases j) simp_all

lemma printable_reads_back: "every printable j \<Longrightarrow> reads_back j"
proof (induction j)
  case JNull
  then show ?case by (auto simp: reads_back_def parse_value.simps)
next
  case JFalse
  then show ?case by (auto simp: reads_back_def parse_value.simps)
next
  case JTrue
  then show ?case by (auto simp: reads_back_def parse_value.simps)
next
  case (JNumber x)
  then have x: "is_double x" "\<not> isinf x" by (simp_all add: printable_def)
  obtain c t where t: "number_text x = c # t" "c = CHR ''-'' \<or> is_digit c" using number_text_shape(3) [OF x] by blast
  then have "c \<noteq> CHR ''n''" "c \<noteq> CHR ''f''" "c \<noteq> CHR ''t''" "c \<noteq> CHR 0x22" by (auto simp: is_digit_def)
  then show ?case using parse_number_text [OF x] t by (auto simp: reads_back_def parse_value.simps)
next
  case (JString s)
  then show ?case using parse_string_text [of s] by (auto simp: reads_back_def parse_value.simps printable_def string_text_def)
next
  case (JArray xs)
  then have "\<forall>x \<in> set xs. printable x \<and> reads_back x" by (auto elim: every.elims)
  from parse_array_text [OF this] show ?case by (auto simp: reads_back_def parse_value.simps is_digit_def)
next
  case (JObject ms)
  have "parse_object depth (json_text f d (JObject ms) @ r) = Parsed (read_json (JObject ms)) r"
    if n: "nests_within (CJSON_NESTING_LIMIT - depth) (JObject ms)" for depth f d r
  proof -
    have "printable_member (CJSON_NESTING_LIMIT - depth - 1) m" if m: "m \<in> set ms" for m
    proof -
      have "printable (JObject ms)" "every printable (snd m)" using JObject.prems m by simp_all
      then have e: "every printable (snd m)" "NUL \<notin> set (fst m)" using m by (simp_all add: printable_def [of "JObject ms"])
      have "reads_back (snd m)" by (rule JObject.IH [OF m _ e(1)]) (cases m; simp)
      then show ?thesis using e every_top [OF e(1)] n m by (simp add: printable_member_def)
    qed
    then show ?thesis using parse_object_text [of ms depth f d r] n by simp
  qed
  then show ?case by (auto simp: reads_back_def parse_value.simps is_digit_def)
qed

lemma printable_double: "printable j \<Longrightarrow> double_number j"
  by (simp add: printable_def double_number_def split: json.splits)

lemma every_mono: "every P j \<Longrightarrow> (\<And>i. P i \<Longrightarrow> Q i) \<Longrightarrow> every Q j"
proof (induction j)
  case (JObject ms)
  have "every Q (snd m)" if m: "m \<in> set ms" for m
    by (rule JObject.IH [OF m]) (use JObject.prems m in \<open>cases m; auto\<close>)+
  then show ?case using JObject.prems by simp
qed auto

lemma text_is_parsed:
  assumes "every printable j" "nests_within CJSON_NESTING_LIMIT j"
  shows "cJSON_Parse (json_text fmt 0 j) = Parsed (read_json j) [NUL]"
proof -
  let ?x = "json_text fmt 0 j"
  have "NUL \<notin> set ?x" by (rule json_text_not_nul [OF every_mono [OF assms(1) printable_double]])
  then have c: "c_str ?x = ?x" by (auto simp: c_str_def takeWhile_eq_all_conv)
  note p = every_top [OF assms(1)]
  obtain c r where h: "?x = c # r" "c \<noteq> CHR 0xEF" using json_text_head [OF p, of fmt 0] by blast
  have "buffer_skip_whitespace (skip_utf8_bom (?x @ [NUL])) = ?x @ [NUL]"
    using skip_text [OF p blank_simps(1), of fmt 0 "[NUL]"] h by (simp add: skip_utf8_bom_def)
  moreover have "parse_value 0 (?x @ [NUL]) = Parsed (read_json j) [NUL]"
    by (rule reads_backD [OF printable_reads_back [OF assms(1)]]) (use assms(2) in simp_all)
  ultimately show ?thesis
    by (simp add: cJSON_Parse_def cJSON_ParseWithOpts_def cJSON_ParseWithLengthOpts_def c)
qed

section \<open>Whatever was sent, what is parsed is well-formed\<close>

definition well_typed :: "json \<Rightarrow> bool" where
  "well_typed j = (case j of JNumber d \<Rightarrow> is_double d | JString s \<Rightarrow> NUL \<notin> set s
     | JObject ms \<Rightarrow> (\<forall>m \<in> set ms. NUL \<notin> set (fst m)) | _ \<Rightarrow> True)"

definition sound_value :: "nat \<Rightarrow> json \<Rightarrow> bool" where
  "sound_value n j \<longleftrightarrow> every well_typed j \<and> nests_within n j"

lemma sound_atoms [simp]: "sound_value n JNull" "sound_value n JFalse" "sound_value n JTrue"
  "sound_value n (JString s) \<longleftrightarrow> NUL \<notin> set s" "sound_value n (JNumber d) \<longleftrightarrow> is_double d"
  by (simp_all add: sound_value_def well_typed_def)

lemma sound_array: "sound_value n (JArray xs) \<longleftrightarrow> 0 < n \<and> (\<forall>x \<in> set xs. sound_value (n - 1) x)"
  by (auto simp: sound_value_def well_typed_def)

lemma sound_object: "sound_value n (JObject ms) \<longleftrightarrow>
    0 < n \<and> (\<forall>m \<in> set ms. NUL \<notin> set (fst m) \<and> sound_value (n - 1) (snd m))"
  by (auto simp: sound_value_def well_typed_def)

lemma parse_string_sound: "parse_string s = Parsed t r \<Longrightarrow> NUL \<notin> set t"
  using c_str_not_nul by (auto simp: parse_string_def split: list.splits if_splits option.splits parsed.splits)

lemma strtod_double: "strtod s = Some (d, r) \<Longrightarrow> is_double d"
  by (auto simp: strtod_def Let_def is_double_neg split: prod.splits if_splits)

lemma parse_number_sound: "parse_number s = Parsed j r \<Longrightarrow> sound_value n j"
  using strtod_double by (auto simp: parse_number_def Let_def split: option.splits)

lemma parsers_sound:
  "parse_value depth s = Parsed v r \<Longrightarrow> sound_value (CJSON_NESTING_LIMIT - depth) v"
  "parse_array depth s = Parsed v r \<Longrightarrow> sound_value (CJSON_NESTING_LIMIT - depth) v"
  "parse_elements depth s = Parsed vs r \<Longrightarrow> \<forall>x \<in> set vs. sound_value (CJSON_NESTING_LIMIT - depth) x"
  "parse_object depth s = Parsed v r \<Longrightarrow> sound_value (CJSON_NESTING_LIMIT - depth) v"
  "parse_members depth s = Parsed ms r \<Longrightarrow>
    \<forall>m \<in> set ms. NUL \<notin> set (fst m) \<and> sound_value (CJSON_NESTING_LIMIT - depth) (snd m)"
proof (induction depth s and depth s and depth s and depth s and depth s
    arbitrary: v r and v r and vs r and v r and ms r
    rule: parse_value_parse_array_parse_elements_parse_object_parse_members.induct)
  case (1 depth s)
  then show ?case
    by (auto simp: parse_value.simps [of depth s] parse_number_sound dest: parse_string_sound split: if_splits parsed.splits)
next
  case (2 depth s)
  then show ?case
    by (auto simp: parse_array.simps [of depth s] Let_def sound_array split: if_splits parsed.splits)
next
  case (3 depth s)
  then show ?case
    by (auto simp: parse_elements.simps [of depth s] split: if_splits parsed.splits list.splits)
next
  case (4 depth s)
  then show ?case
    by (auto simp: parse_object.simps [of depth s] Let_def sound_object split: if_splits parsed.splits)
next
  case (5 depth s)
  have v: "sound_value (CJSON_NESTING_LIMIT - depth) v"
    if "parse_string (buffer_skip_whitespace s) = Parsed k r1" "buffer_skip_whitespace r1 = CHR '':'' # r2"
      "parse_value depth (buffer_skip_whitespace r2) = Parsed v r3" for k r1 r2 v r3
    using 5(1) [OF that(1,2) _ that(3)] by simp
  have m: "\<forall>m \<in> set ms. NUL \<notin> set (fst m) \<and> sound_value (CJSON_NESTING_LIMIT - depth) (snd m)"
    if "parse_string (buffer_skip_whitespace s) = Parsed k r1" "buffer_skip_whitespace r1 = CHR '':'' # r2"
      "parse_value depth (buffer_skip_whitespace r2) = Parsed v r3" "buffer_skip_whitespace r3 = CHR '','' # r4"
      "parse_members depth r4 = Parsed ms r5" for k r1 r2 v r3 r4 ms r5
    using 5(2) [OF that(1,2) _ that(3,4) refl that(5)] by simp
  show ?case
    using 5(3) v m parse_string_sound
    by (fastforce simp: parse_members.simps [of depth s] split: if_splits parsed.splits list.splits)
qed

lemma parsed_sound:
  assumes "cJSON_ParseWithLengthOpts require s = Parsed j r"
  shows "every well_typed j \<and> nests_within CJSON_NESTING_LIMIT j"
proof -
  obtain r' where "parse_value 0 (buffer_skip_whitespace (skip_utf8_bom s)) = Parsed j r'"
    using assms by (auto simp: cJSON_ParseWithLengthOpts_def Let_def split: if_splits parsed.splits)
  from parsers_sound(1) [OF this] show ?thesis by (simp add: sound_value_def)
qed

end
