(* ===== verification/Wire.thy ===== *)
theory Wire
  imports Results Json_Parse
begin

text \<open>
  The messages of the control connection as \<open>cjson.c\<close> writes and reads them: the printer and the
  parser that the exchange of parameters and results is given, and the documents that survive
  the way unchanged.
\<close>

section \<open>Printer and parser over bytes\<close>

definition cjson_print :: "allocator \<Rightarrow> json \<Rightarrow> bytes option" where
  "cjson_print al j = (case cJSON_PrintUnformatted al j of Printed t \<Rightarrow> Some (map of_char t) | _ \<Rightarrow> None)"

definition cjson_parse :: "bytes \<Rightarrow> json option" where
  "cjson_parse bs = (case cJSON_Parse (map (\<lambda>b. char_of (unat b)) bs) of Parsed j r \<Rightarrow> Some j | _ \<Rightarrow> None)"

lemma byte_of_char: "unat (of_char c :: u8) = of_char c"
proof -
  have "(of_char c :: u8) = of_nat (of_char c)" by (rule of_nat_of_char [symmetric])
  then show ?thesis by (simp add: unat_of_nat)
qed

lemma char_byte_char: "map (\<lambda>b. char_of (unat b)) (map of_char t :: bytes) = t"
  by (simp add: map_idI byte_of_char)

lemma byte_zero: "(0 :: u8) \<in> set (map of_char t) \<longleftrightarrow> NUL \<in> set t"
proof -
  have "(of_char c :: u8) = 0 \<longleftrightarrow> c = NUL" for c
  proof -
    have "(of_char c :: u8) = 0 \<longleftrightarrow> (of_char c :: nat) = of_char NUL"
      using byte_of_char [of c] unat_eq_zero [of "of_char c :: u8"] by simp
    then show ?thesis by (simp only: of_char_eq_iff)
  qed
  then show ?thesis by (auto simp: image_iff)
qed

section \<open>Documents that survive\<close>

definition exact :: "json \<Rightarrow> bool" where
  "exact j \<longleftrightarrow> printable j \<and> (case j of JNumber d \<Rightarrow> readback d = d | _ \<Rightarrow> True)"

lemma exact_read: "every exact j \<Longrightarrow> read_json j = j"
proof (induction j)
  case (JObject ms)
  have "(fst m, read_json (snd m)) = m" if m: "m \<in> set ms" for m
    using JObject.IH [OF m, of "snd m"] JObject.prems m by (cases m) auto
  then show ?case by (simp add: map_idI)
qed (auto simp: exact_def map_idI)

lemma exact_int: "\<bar>n\<bar> < 10 ^ 15 \<Longrightarrow> every exact (json_int n)"
proof -
  assume n: "\<bar>n\<bar> < 10 ^ 15"
  then have "f64 (of_int n) = of_int n" by (intro f64_int) simp
  moreover have "\<not> isinf (of_int n)"
  proof -
    have "(10 :: rat) ^ 15 < 2 ^ 1024" using power_increasing [of 50 1024 "2 :: rat"] by simp
    moreover have "\<bar>of_int n :: rat\<bar> < 10 ^ 15" using n by (metis of_int_abs of_int_less_iff of_int_numeral of_int_power)
    ultimately show ?thesis by (simp add: isinf_def)
  qed
  ultimately show ?thesis
    using readback_int [OF n] by (simp add: json_int_def exact_def printable_def is_double_def)
qed

lemma exact_u64: "unat n < 10 ^ 15 \<Longrightarrow> every exact (json_u64 n)"
proof -
  assume n: "unat n < 10 ^ 15"
  have "json_u64 n = json_int (int (unat n))" by (simp only: json_int_def json_u64_def of_int_of_nat_eq)
  moreover have "\<bar>int k\<bar> < 10 ^ 15" if "k < 10 ^ 15" for k using that by simp
  then have "\<bar>int (unat n)\<bar> < 10 ^ 15" using n .
  ultimately show ?thesis using exact_int by simp
qed

lemma exact_atoms [simp]: "every exact JTrue" "every exact JFalse" "every exact (JString s) \<longleftrightarrow> NUL \<notin> set s"
  by (simp_all add: exact_def printable_def)

lemma nests_number [simp]: "nests_within n (json_int k)" "nests_within n (json_u64 w)"
  by (simp_all add: json_int_def json_u64_def)

lemma exact_object: "every exact (JObject ms) \<longleftrightarrow> (\<forall>m \<in> set ms. NUL \<notin> set (fst m) \<and> every exact (snd m))"
  by (auto simp: exact_def printable_def)

lemma exact_double: "every exact j \<Longrightarrow> every double_number j"
  by (erule every_mono) (simp add: exact_def printable_double)

lemma exact_array: "every exact (JArray js) \<longleftrightarrow> (\<forall>j \<in> set js. every exact j)"
  by (auto simp: exact_def printable_def)

lemma printed_is_parsed:
  assumes "every exact j" "nests_within CJSON_NESTING_LIMIT j" "cjson_print al j = Some str"
    "length (json_text False 0 j) < 4294967295"
  shows "str = map of_char (json_text False 0 j)" "cjson_parse str = Some j" "0 \<notin> set str"
proof -
  have p: "every printable j" by (rule every_mono [OF assms(1)]) (simp add: exact_def)
  have d: "every double_number j" by (rule exact_double [OF assms(1)])
  have "cJSON_PrintUnformatted al j \<in> {Null, Printed (json_text False 0 j)}"
    using print_json_text [OF d, of False al] assms(4) by (simp add: cJSON_PrintUnformatted_def SIZE_MAX_def)
  then show str: "str = map of_char (json_text False 0 j)"
    using assms(3) by (auto simp: cjson_print_def)
  show "cjson_parse str = Some j"
    unfolding str cjson_parse_def char_byte_char text_is_parsed [OF p assms(2)] by (simp add: exact_read [OF assms(1)])
  show "0 \<notin> set str" unfolding str byte_zero by (rule json_text_not_nul [OF d])
qed

section \<open>The parameters of a test\<close>

definition plain_string :: "string option \<Rightarrow> bool" where
  "plain_string s \<longleftrightarrow> (case s of None \<Rightarrow> True | Some t \<Rightarrow> NUL \<notin> set t)"

text \<open>C strings have no terminator in them; the counters stay below 10^15.\<close>

definition plain :: "string option \<Rightarrow> string \<Rightarrow> test \<Rightarrow> bool" where
  "plain token version t \<longleftrightarrow> plain_string token \<and> NUL \<notin> set version \<and> plain_string (title t)
     \<and> plain_string (extra_data t) \<and> plain_string (congestion t) \<and> plain_string (congestion_used t)
     \<and> unat (s_bytes (settings t)) < 10 ^ 15 \<and> unat (s_blocks (settings t)) < 10 ^ 15
     \<and> unat (rate (settings t)) < 10 ^ 15 \<and> unat (fqrate (settings t)) < 10 ^ 15"

definition good_member :: "string \<times> json \<Rightarrow> bool" where
  "good_member m \<longleftrightarrow> NUL \<notin> set (fst m) \<and> every exact (snd m) \<and> nests_within 0 (snd m)"

lemma good_opt_member: "(b \<Longrightarrow> good_member (k, v)) \<Longrightarrow> list_all good_member (opt_member b k v)"
  by (simp add: opt_member_def)

lemma good_string: "NUL \<notin> set k \<Longrightarrow> NUL \<notin> set s \<Longrightarrow> good_member (k, JString s)"
  unfolding good_member_def fst_conv snd_conv exact_atoms by simp

lemma good_opt_string: "NUL \<notin> set k \<Longrightarrow> plain_string s \<Longrightarrow> list_all good_member (opt_string k s)"
  by (cases s) (simp_all add: opt_string_def plain_string_def good_string)

lemma good_true: "NUL \<notin> set k \<Longrightarrow> good_member (k, JTrue)"
  unfolding good_member_def fst_conv snd_conv by (simp only: exact_atoms) simp

lemma good_int: "NUL \<notin> set k \<Longrightarrow> fits_int n \<Longrightarrow> good_member (k, json_int n)"
proof -
  assume "NUL \<notin> set k" "fits_int n"
  moreover then have "every exact (json_int n)" by (intro exact_int) (auto simp: fits_int_def)
  ultimately show ?thesis unfolding good_member_def by (simp only: fst_conv snd_conv nests_number) simp
qed

lemma good_u64: "NUL \<notin> set k \<Longrightarrow> unat n < 10 ^ 15 \<Longrightarrow> good_member (k, json_u64 n)"
  unfolding good_member_def fst_conv snd_conv using exact_u64 [of n] nests_number(2) by blast

lemma good_proto: "list_all good_member (proto_members p)"
  by (simp add: proto_members_def good_true)

lemma good_params:
  assumes "in_range c" "plain tk ver c"
  shows "list_all good_member (params_members tk ver c)"
  using assms
  by (auto simp: params_members_def Let_def in_range_def plain_def good_proto fits_int_def
      intro!: good_opt_member good_opt_string good_int good_u64 good_true good_string)

lemma exact_params:
  assumes "in_range c" "plain tk ver c"
  shows "every exact (JObject (params_members tk ver c))" "nests_within CJSON_NESTING_LIMIT (JObject (params_members tk ver c))"
proof -
  have g: "good_member m" if "m \<in> set (params_members tk ver c)" for m
    using good_params [OF assms] that by (simp add: list_all_iff)
  then show "every exact (JObject (params_members tk ver c))" unfolding exact_object good_member_def by blast
  have "nests_within n j" if "nests_within 0 j" for n j using that by (cases j) simp_all
  then show "nests_within CJSON_NESTING_LIMIT (JObject (params_members tk ver c))"
    using g by (auto simp: good_member_def CJSON_NESTING_LIMIT_def)
qed

end
