(* ===== verification/Units.thy ===== *)
theory Units
  imports Traffic Json_Parse
begin

text \<open>
  Reading the numbers of a command line: the C library's conversions as far as the options use
  them, \<open>iperf/src/units.c\<close> (numbers with a unit) and \<open>iperf/src/dscp.c\<close> (names of the type of
  service). A text is a C string without its terminator.
\<close>

section \<open>The C library\<close>

text \<open>
  What a conversion to \<open>double\<close> gives: a number, an infinity (\<open>True\<close> for the negative one) or no number.
  A number beyond the range becomes infinite.
\<close>

datatype double = Number rat | Infinite bool | NaN

definition finite_or_not :: "rat \<Rightarrow> double" where
  "finite_or_not x = (if isinf x then Infinite (x < 0) else Number x)"

definition begins_with :: "string \<Rightarrow> string \<Rightarrow> bool" where
  "begins_with w s \<longleftrightarrow> lower (take (length w) s) = w"

text \<open>The words; behind \<open>nan\<close> there may be characters in parentheses.\<close>

definition nan_rest :: "string \<Rightarrow> string" where
  "nan_rest s = (case s of c # r \<Rightarrow>
       if c = CHR ''('' then
         (case dropWhile (\<lambda>c. is_digit c \<or> CHR ''a'' \<le> tolower c \<and> tolower c \<le> CHR ''z'' \<or> c = CHR ''_'') r of
            d # r' \<Rightarrow> if d = CHR '')'' then r' else s | [] \<Rightarrow> s)
       else s
     | [] \<Rightarrow> s)"

definition scan_word :: "bool \<Rightarrow> string \<Rightarrow> (double \<times> string) option" where
  "scan_word neg s =
     (if begins_with ''infinity'' s then Some (Infinite neg, drop 8 s)
      else if begins_with ''inf'' s then Some (Infinite neg, drop 3 s)
      else if begins_with ''nan'' s then Some (NaN, nan_rest (drop 3 s))
      else None)"

text \<open>Hexadecimal numbers, with an exponent of 2 behind a \<open>p\<close>.\<close>

definition is_hex :: "char \<Rightarrow> bool" where
  "is_hex c \<longleftrightarrow> hex_value c \<noteq> None"

definition value_in :: "nat \<Rightarrow> string \<Rightarrow> nat" where
  "value_in base s = foldl (\<lambda>a c. a * base + (case hex_value c of None \<Rightarrow> 0 | Some v \<Rightarrow> v)) 0 s"

definition hex_exponent :: "string \<Rightarrow> int \<times> string" where
  "hex_exponent s = (case s of
       [] \<Rightarrow> (0, s)
     | c # r \<Rightarrow> if tolower c = CHR ''p''
         then (case scan_sign r of (neg, r1) \<Rightarrow>
           let ds = takeWhile is_digit r1 in
           if ds = [] then (0, s)
           else (if neg then - int (digits_value ds) else int (digits_value ds), dropWhile is_digit r1))
         else (0, s))"

definition scan_hex :: "bool \<Rightarrow> string \<Rightarrow> (double \<times> string) option" where
  "scan_hex neg s =
     (if \<not> begins_with ''0x'' s then None
      else let s1 = drop 2 s; ip = takeWhile is_hex s1; s2 = dropWhile is_hex s1;
               point = (s2 \<noteq> [] \<and> hd s2 = CHR ''.'');
               fp = (if point then takeWhile is_hex (tl s2) else []);
               s3 = (if point then dropWhile is_hex (tl s2) else s2)
           in if ip = [] \<and> fp = [] then None
              else case hex_exponent s3 of (e, s4) \<Rightarrow>
                let x = f64 (of_nat (value_in 16 (ip @ fp)) * pow2 (e - 4 * int (length fp))) in
                Some (finite_or_not (if neg then - x else x), s4))"

text \<open>
  \<open>strtod\<close> on any text. \<open>sscanf\<close> with \<open>%lf\<close> reads the same; on a text that is only the beginning of a number
  (\<open>0x\<close>, \<open>1e\<close>, \<open>infi\<close>) it may take some more of its characters, which is left out.
\<close>

definition scan_lf :: "string \<Rightarrow> (double \<times> string) option" where
  "scan_lf s0 = (let s = skip_space s0 in
     case scan_sign s of (neg, s1) \<Rightarrow>
       (case scan_word neg s1 of Some r \<Rightarrow> Some r
        | None \<Rightarrow>
          (case scan_hex neg s1 of Some r \<Rightarrow> Some r
           | None \<Rightarrow> map_option (\<lambda>(x, r). (finite_or_not x, r)) (strtod s))))"

definition atof :: "string \<Rightarrow> double" where
  "atof s = (case scan_lf s of None \<Rightarrow> Number 0 | Some (x, r) \<Rightarrow> x)"

text \<open>Arithmetic and conversion: a product with a positive factor; what is not finite has no value as an integer.\<close>

definition times :: "double \<Rightarrow> rat \<Rightarrow> double" where
  "times x u = (case x of Number n \<Rightarrow> finite_or_not (f64 (n * u)) | _ \<Rightarrow> x)"

definition finite_value :: "double \<Rightarrow> rat option" where
  "finite_value x = (case x of Number n \<Rightarrow> Some n | _ \<Rightarrow> None)"

text \<open>\<open>atoi\<close> cuts the \<open>long\<close> that \<open>strtol\<close> gives to an \<open>int\<close>.\<close>

definition atoi :: "string \<Rightarrow> int" where
  "atoi s = (case scan_int s of None \<Rightarrow> 0 | Some (n, r) \<Rightarrow> to_int n)"

text \<open>\<open>strtol\<close> with base 0: the prefix tells the base. \<open>None\<close>: no conversion, the end pointer is the text.\<close>

definition digits_in :: "nat \<Rightarrow> string \<Rightarrow> string" where
  "digits_in base s = takeWhile (\<lambda>c. case hex_value c of None \<Rightarrow> False | Some v \<Rightarrow> v < base) s"

definition strtol0 :: "string \<Rightarrow> (int \<times> string) option" where
  "strtol0 s0 =
     (let s = skip_space s0;
          neg = (s \<noteq> [] \<and> hd s = CHR ''-'');
          s1 = (if s \<noteq> [] \<and> (hd s = CHR ''-'' \<or> hd s = CHR ''+'') then tl s else s);
          number = (\<lambda>base t. let n = int (value_in base (digits_in base t)) in
            (clamp64 (if neg then - n else n), drop (length (digits_in base t)) t))
      in if 2 < length s1 \<and> hd s1 = CHR ''0'' \<and> tolower (s1 ! 1) = CHR ''x'' \<and> digits_in 16 (drop 2 s1) \<noteq> []
         then Some (number 16 (drop 2 s1))
         else if s1 \<noteq> [] \<and> hd s1 = CHR ''0'' then Some (number 8 s1)
         else if digits_in 10 s1 = [] then None
         else Some (number 10 s1))"

section \<open>Numbers with a unit\<close>

definition KILO_UNIT :: rat where "KILO_UNIT = 1024"
definition KILO_RATE_UNIT :: rat where "KILO_RATE_UNIT = 1000"

text \<open>The number and the character behind it; if there is no number, \<open>n\<close> is not initialised.\<close>

definition unit_scan :: "double \<Rightarrow> string \<Rightarrow> double \<times> char" where
  "unit_scan junk s = (case scan_lf s of None \<Rightarrow> (junk, NUL)
     | Some (n, r) \<Rightarrow> (n, case r of [] \<Rightarrow> NUL | c # r' \<Rightarrow> c))"

definition unit_factor :: "rat \<Rightarrow> char \<Rightarrow> rat option" where
  "unit_factor kilo suffix =
     (if suffix = CHR ''t'' \<or> suffix = CHR ''T'' then Some (kilo ^ 4)
      else if suffix = CHR ''g'' \<or> suffix = CHR ''G'' then Some (kilo ^ 3)
      else if suffix = CHR ''m'' \<or> suffix = CHR ''M'' then Some (kilo ^ 2)
      else if suffix = CHR ''k'' \<or> suffix = CHR ''K'' then Some kilo
      else None)"

definition unit_value :: "rat \<Rightarrow> double \<Rightarrow> string \<Rightarrow> double" where
  "unit_value kilo junk s = (case unit_scan junk s of (n, suffix) \<Rightarrow>
     (case unit_factor kilo suffix of None \<Rightarrow> n | Some u \<Rightarrow> times n u))"

definition unit_atof :: "double \<Rightarrow> string \<Rightarrow> double" where
  "unit_atof junk s = unit_value KILO_UNIT junk s"

definition unit_atof_rate :: "double \<Rightarrow> string \<Rightarrow> double" where
  "unit_atof_rate junk s = unit_value KILO_RATE_UNIT junk s"

definition unit_atoi :: "u64 \<Rightarrow> double \<Rightarrow> string \<Rightarrow> u64" where
  "unit_atoi ub junk s = cast_u64 ub (finite_value (unit_value KILO_UNIT junk s))"

section \<open>Types of service\<close>

definition ipqos :: "(string \<times> int) list" where
  "ipqos = [(''af11'', 0x28), (''af12'', 0x30), (''af13'', 0x38), (''af21'', 0x48), (''af22'', 0x50), (''af23'', 0x58),
     (''af31'', 0x68), (''af32'', 0x70), (''af33'', 0x78), (''af41'', 0x88), (''af42'', 0x90), (''af43'', 0x98),
     (''cs0'', 0x00), (''cs1'', 0x20), (''cs2'', 0x40), (''cs3'', 0x60), (''cs4'', 0x80), (''cs5'', 0xa0), (''cs6'', 0xc0),
     (''cs7'', 0xe0), (''ef'', 0xb8), (''lowdelay'', 0x10), (''throughput'', 0x08), (''reliability'', 0x04)]"

definition parse_qos :: "string option \<Rightarrow> int" where
  "parse_qos cp = (case cp of None \<Rightarrow> -1
     | Some s \<Rightarrow>
       (case find (\<lambda>(name, v). case_insensitive_eq s name) ipqos of
          Some (name, v) \<Rightarrow> v
        | None \<Rightarrow>
          (case strtol0 s of None \<Rightarrow> -1
           | Some (val, ep) \<Rightarrow> if ep \<noteq> [] \<or> val < 0 \<or> 255 < val then -1 else val)))"

definition iptos2str :: "int \<Rightarrow> string" where
  "iptos2str iptos0 = (let iptos = (if iptos0 < 0 \<or> 64 < iptos0 then 0 else iptos0) in
     case find (\<lambda>(name, v). v = iptos) ipqos of
       Some (name, v) \<Rightarrow> name
     | None \<Rightarrow> ''0x'' @ [hex_digit (nat iptos div 16), hex_digit (nat iptos mod 16)])"

section \<open>What they give\<close>

lemma find_qos:
  assumes "find (\<lambda>(name, v). P name v) ipqos = Some (name, v)"
  shows "(name, v) \<in> set ipqos" "P name v"
  using assms by (auto simp: find_Some_iff in_set_conv_nth)

lemma ipqos_bounds: "(name, v) \<in> set ipqos \<Longrightarrow> 0 \<le> v \<and> v \<le> 255"
proof -
  have "list_all (\<lambda>x. 0 \<le> snd x \<and> snd x \<le> 255) ipqos" by code_simp
  moreover assume "(name, v) \<in> set ipqos"
  ultimately show ?thesis by (auto simp: list_all_iff)
qed

lemma parse_qos_bounds: "parse_qos s \<in> {-1..255}"
proof (cases s)
  case (Some t)
  then show ?thesis
    using ipqos_bounds find_qos by (fastforce simp: parse_qos_def split: option.splits)
qed (simp add: parse_qos_def)

lemma ipqos_lower: "list_all (\<lambda>x. lower (fst x) = fst x) ipqos"
  by code_simp

lemma ipqos_distinct: "distinct (map fst ipqos)"
  by (simp add: ipqos_def)

lemma find_name: "distinct (map fst xs) \<Longrightarrow> (name, v) \<in> set xs \<Longrightarrow> find (\<lambda>x. fst x = name) xs = Some (name, v)"
  by (induction xs) force+

lemma parse_qos_name: "(name, v) \<in> set ipqos \<Longrightarrow> parse_qos (Some name) = v"
proof -
  assume v: "(name, v) \<in> set ipqos"
  have low: "lower (fst x) = fst x" if "x \<in> set ipqos" for x
    using ipqos_lower that by (simp add: list_all_iff)
  have "find (\<lambda>(n, v). case_insensitive_eq name n) ipqos = find (\<lambda>x. fst x = name) ipqos"
    using low [OF v] low by (intro find_cong refl) (auto simp: case_insensitive_eq_def)
  then show ?thesis
    using find_name [OF ipqos_distinct v] by (simp add: parse_qos_def)
qed

lemma strtol0_hex:
  assumes "n < 256"
  shows "strtol0 (''0x'' @ [hex_digit (n div 16), hex_digit (n mod 16)]) = Some (int n, [])"
proof -
  have "n div 16 < 16" "n mod 16 < 16" using assms by auto
  note h = this [THEN hex_value_digit]
  have "isspace (CHR ''0'') = False" "tolower (CHR ''x'') = CHR ''x''" by code_simp+
  moreover have "clamp64 (int n) = int n" using assms by (simp add: clamp64_def)
  ultimately show ?thesis
    using \<open>n div 16 < 16\<close> by (simp add: strtol0_def skip_space_def digits_in_def value_in_def h Let_def)
qed

lemma qos_round_trip:
  assumes "0 \<le> t" "t \<le> 64"
  shows "parse_qos (Some (iptos2str t)) = t"
proof (cases "find (\<lambda>(name, v). v = t) ipqos")
  case None
  let ?s = "''0x'' @ [hex_digit (nat t div 16), hex_digit (nat t mod 16)]"
  have "list_all (\<lambda>x. case lower (fst x) of [] \<Rightarrow> False | c # r \<Rightarrow> c \<noteq> CHR ''0'') ipqos" by code_simp
  then have "lower name \<noteq> CHR ''0'' # r" if "(name, v) \<in> set ipqos" for name v r
    using that by (fastforce simp: list_all_iff)
  moreover have "lower ?s = CHR ''0'' # lower (tl ?s)" by (simp add: lower_def tolower_def)
  ultimately have "find (\<lambda>(name, v). case_insensitive_eq ?s name) ipqos = None"
    unfolding find_None_iff case_insensitive_eq_def by (auto simp del: append_Cons append_Nil) metis
  then show ?thesis
    using None assms strtol0_hex [of "nat t"] by (simp add: iptos2str_def parse_qos_def)
next
  case (Some x)
  with assms show ?thesis
    using find_qos [of "\<lambda>name v. v = t" "fst x" "snd x"] parse_qos_name [of "fst x" "snd x"]
    by (cases x) (simp add: iptos2str_def)
qed

lemma atoi_bounds: "atoi s \<in> {- 2147483648..2147483647}"
proof -
  have "to_int n \<in> {- 2147483648..2147483647}" for n
    using signed_take_bit_int_greater_eq_minus_exp [of 31 n] signed_take_bit_int_less_exp [of 31 n]
    by (simp add: to_int_def)
  then show ?thesis by (cases "scan_int s") (auto simp: atoi_def)
qed

end
