(* ===== verification/Options.thy ===== *)
theory Options
  imports Units Params
begin

text \<open>
  \<open>iperf_parse_arguments\<close> of \<open>iperf/src/iperf_api.c\<close>, in the build on Linux with OpenSSL and without
  SCTP. What \<open>getopt_long\<close> returns, one flag with its argument after the other, is the input; each case of
  the switch is a definition, and a table leads from the flags to them. Files with keys, the
  password, whether the two blocks of the n-th SCTP address can be allocated, the value of an uninitialised
  variable and of undefined conversions are parameters. What is only printed (help, version, warnings) is left out.
\<close>

section \<open>Flags and the state of the parser\<close>

text \<open>A flag is a character or one of the codes below the printable characters.\<close>

datatype flag = Letter char | Code int

abbreviation (input) OPT_SCTP :: int where "OPT_SCTP \<equiv> 1"
abbreviation (input) OPT_LOGFILE :: int where "OPT_LOGFILE \<equiv> 2"
abbreviation (input) OPT_GET_SERVER_OUTPUT :: int where "OPT_GET_SERVER_OUTPUT \<equiv> 3"
abbreviation (input) OPT_UDP_COUNTERS_64BIT :: int where "OPT_UDP_COUNTERS_64BIT \<equiv> 4"
abbreviation (input) OPT_CLIENT_PORT :: int where "OPT_CLIENT_PORT \<equiv> 5"
abbreviation (input) OPT_NUMSTREAMS :: int where "OPT_NUMSTREAMS \<equiv> 6"
abbreviation (input) OPT_FORCEFLUSH :: int where "OPT_FORCEFLUSH \<equiv> 7"
abbreviation (input) OPT_NO_FQ_SOCKET_PACING :: int where "OPT_NO_FQ_SOCKET_PACING \<equiv> 9"
abbreviation (input) OPT_FQ_RATE :: int where "OPT_FQ_RATE \<equiv> 10"
abbreviation (input) OPT_DSCP :: int where "OPT_DSCP \<equiv> 11"
abbreviation (input) OPT_CLIENT_USERNAME :: int where "OPT_CLIENT_USERNAME \<equiv> 12"
abbreviation (input) OPT_CLIENT_RSA_PUBLIC_KEY :: int where "OPT_CLIENT_RSA_PUBLIC_KEY \<equiv> 13"
abbreviation (input) OPT_SERVER_RSA_PRIVATE_KEY :: int where "OPT_SERVER_RSA_PRIVATE_KEY \<equiv> 14"
abbreviation (input) OPT_SERVER_AUTHORIZED_USERS :: int where "OPT_SERVER_AUTHORIZED_USERS \<equiv> 15"
abbreviation (input) OPT_PACING_TIMER :: int where "OPT_PACING_TIMER \<equiv> 16"
abbreviation (input) OPT_CONNECT_TIMEOUT :: int where "OPT_CONNECT_TIMEOUT \<equiv> 17"
abbreviation (input) OPT_REPEATING_PAYLOAD :: int where "OPT_REPEATING_PAYLOAD \<equiv> 18"
abbreviation (input) OPT_EXTRA_DATA :: int where "OPT_EXTRA_DATA \<equiv> 19"
abbreviation (input) OPT_BIDIRECTIONAL :: int where "OPT_BIDIRECTIONAL \<equiv> 20"
abbreviation (input) OPT_SERVER_BITRATE_LIMIT :: int where "OPT_SERVER_BITRATE_LIMIT \<equiv> 21"
abbreviation (input) OPT_TIMESTAMPS :: int where "OPT_TIMESTAMPS \<equiv> 22"
abbreviation (input) OPT_SERVER_SKEW_THRESHOLD :: int where "OPT_SERVER_SKEW_THRESHOLD \<equiv> 23"
abbreviation (input) OPT_BIND_DEV :: int where "OPT_BIND_DEV \<equiv> 24"
abbreviation (input) OPT_IDLE_TIMEOUT :: int where "OPT_IDLE_TIMEOUT \<equiv> 25"
abbreviation (input) OPT_DONT_FRAGMENT :: int where "OPT_DONT_FRAGMENT \<equiv> 26"
abbreviation (input) OPT_RCV_TIMEOUT :: int where "OPT_RCV_TIMEOUT \<equiv> 27"

record option_env =
  oe_password :: "string option"
  oe_getpass :: "string option"
  oe_load_pubkey :: "string \<Rightarrow> string option"
  oe_load_privkey :: "string \<Rightarrow> string option"
  oe_entry_memory :: "nat \<Rightarrow> bool"
  oe_name_memory :: "nat \<Rightarrow> bool"
  oe_junk :: double
  oe_ub :: u64
  oe_ub_int :: int

text \<open>
  The test with the local variables of the function. The SCTP addresses (\<open>xbind_addrs\<close>) and the flag
  \<open>timestamps\<close> are members of the test that nothing in this model reads; they are kept here.
\<close>

record parsing =
  o_test :: test
  o_blksize :: int
  server_flag :: bool
  client_flag :: bool
  rate_flag :: bool
  duration_flag :: bool
  rcv_timeout_flag :: bool
  o_username :: "string option"
  o_public_key :: "string option"
  o_private_key :: "string option"
  o_xbind_addrs :: "string list"
  o_timestamps :: bool

text \<open>
  \<open>Wrong\<close>: the function returns \<open>-1\<close>, the error in \<open>i_errno\<close>; \<open>Quit\<close>: the program ends with that
  status. \<open>Interval_NaN\<close>: an option has set an interval to NaN, which passes the comparisons of its check (\<open>-i nan\<close>); the program goes on,
  but the members of the test are rational numbers here, so this is as far as the model follows it.
\<close>

datatype parsed_options = Fine parsing | Wrong test | Quit int | Interval_NaN

definition wrong :: "int \<Rightarrow> parsing \<Rightarrow> parsed_options" where
  "wrong e p = Wrong ((o_test p)\<lparr>i_errno := e\<rparr>)"

definition check :: "bool \<Rightarrow> int \<Rightarrow> parsing \<Rightarrow> parsed_options" where
  "check bad e p = (if bad then wrong e p else Fine p)"

definition in_test :: "(test \<Rightarrow> test) \<Rightarrow> parsing \<Rightarrow> parsing" where
  "in_test f p = p\<lparr>o_test := f (o_test p)\<rparr>"

definition for_client :: "parsing \<Rightarrow> parsing" where "for_client p = p\<lparr>client_flag := True\<rparr>"
definition for_server :: "parsing \<Rightarrow> parsing" where "for_server p = p\<lparr>server_flag := True\<rparr>"

definition and_next :: "parsed_options \<Rightarrow> (parsing \<Rightarrow> parsed_options) \<Rightarrow> parsed_options" where
  "and_next r f = (case r of Fine p \<Rightarrow> f p | _ \<Rightarrow> r)"

text \<open>The part of an argument before its first slash, and the part behind it (\<open>strchr\<close>).\<close>

definition cut_at :: "char \<Rightarrow> string \<Rightarrow> string \<times> string option" where
  "cut_at c s = (takeWhile (\<lambda>x. x \<noteq> c) s, case dropWhile (\<lambda>x. x \<noteq> c) s of [] \<Rightarrow> None | y # r \<Rightarrow> Some r)"

text \<open>The limits of the two intervals, \<open>0.1\<close> being the \<open>double\<close> of that name.\<close>

definition MIN_INTERVAL :: rat where "MIN_INTERVAL = f64 (1 / 10)"

definition bad_interval :: "rat \<Rightarrow> bool" where
  "bad_interval x \<longleftrightarrow> (x < MIN_INTERVAL \<or> 60 < x) \<and> x \<noteq> 0"

text \<open>The check of an interval: it is not 0, and below the least or above the greatest; a NaN is neither.\<close>

definition check_interval :: "double \<Rightarrow> int \<Rightarrow> (rat \<Rightarrow> parsing) \<Rightarrow> parsing \<Rightarrow> parsed_options" where
  "check_interval x e set_to p = (case x of
     Number y \<Rightarrow> check (bad_interval y) e (set_to y) | Infinite neg \<Rightarrow> wrong e p | NaN \<Rightarrow> Interval_NaN)"

section \<open>The options\<close>

definition opt_port :: "string \<Rightarrow> parsing \<Rightarrow> parsed_options" where
  "opt_port a p = (let portno = atoi a in
     if portno < 1 \<or> 65535 < portno then wrong IEBADPORT p
     else Fine (in_test (\<lambda>t. t\<lparr>server_port := portno\<rparr>) p))"

definition opt_format :: "string option \<Rightarrow> parsing \<Rightarrow> parsed_options" where
  "opt_format optarg p = (case optarg of None \<Rightarrow> wrong IEBADFORMAT p
     | Some a \<Rightarrow> let c = (if a = [] then NUL else hd a) in
         check (c \<notin> set ''kKmMgGtT'') IEBADFORMAT (in_test (set_settings (\<lambda>s. s\<lparr>unit_format := c\<rparr>)) p))"

definition opt_interval :: "string \<Rightarrow> parsing \<Rightarrow> parsed_options" where
  "opt_interval a p = check_interval (atof a) IEINTERVAL
     (\<lambda>x. in_test (\<lambda>t. t\<lparr>stats_interval := x, reporter_interval := x\<rparr>) p) p"

definition opt_daemon :: "parsing \<Rightarrow> parsed_options" where
  "opt_daemon p = Fine (for_server (in_test (\<lambda>t. t\<lparr>daemon := True\<rparr>) p))"

definition opt_one_off :: "parsing \<Rightarrow> parsed_options" where
  "opt_one_off p = Fine (for_server (in_test (\<lambda>t. t\<lparr>one_off := True\<rparr>) p))"

definition opt_server :: "parsing \<Rightarrow> parsed_options" where
  "opt_server p = (if test_role (o_test p) = CHR ''c'' then wrong IESERVCLIENT p
     else Fine (in_test (iperf_set_test_role (CHR ''s'')) p))"

definition opt_client :: "string \<Rightarrow> parsing \<Rightarrow> parsed_options" where
  "opt_client a p = (if test_role (o_test p) = CHR ''s'' then wrong IESERVCLIENT p
     else Fine (in_test (\<lambda>t. (iperf_set_test_role (CHR ''c'') t)\<lparr>server_hostname := Some a\<rparr>) p))"

definition opt_multipath :: "parsing \<Rightarrow> parsed_options" where
  "opt_multipath p = Fine (in_test (\<lambda>t. (snd (set_protocol Ptcp t))\<lparr>multipath := True\<rparr>) p)"

definition opt_udp :: "parsing \<Rightarrow> parsed_options" where
  "opt_udp p = Fine (for_client (in_test (\<lambda>t. snd (set_protocol Pudp t)) p))"

text \<open>The burst is checked after it has been stored; the rate is converted from a \<open>double\<close>.\<close>

definition opt_bitrate :: "option_env \<Rightarrow> string \<Rightarrow> parsing \<Rightarrow> parsed_options" where
  "opt_bitrate E a p = (case cut_at (CHR ''/'') a of (number, slash) \<Rightarrow>
     and_next (case slash of None \<Rightarrow> Fine p
         | Some b \<Rightarrow> check (atoi b \<le> 0 \<or> MAX_BURST < atoi b) IEBURST (in_test (set_settings (\<lambda>s. s\<lparr>burst := atoi b\<rparr>)) p))
       (\<lambda>q. Fine (for_client ((in_test (set_settings (\<lambda>s. s\<lparr>rate := cast_u64 (oe_ub E)
           (finite_value (unit_atof_rate (oe_junk E) number))\<rparr>)) q)\<lparr>rate_flag := True\<rparr>))))"

text \<open>On Linux the case has no \<open>break\<close> and runs into the next one.\<close>

definition opt_numstreams :: "option_env \<Rightarrow> string \<Rightarrow> parsing \<Rightarrow> parsed_options" where
  "opt_numstreams E a p = opt_bitrate E a (for_client (in_test (set_settings (\<lambda>s. s\<lparr>num_ostreams :=
     to_int (uint (unit_atoi (oe_ub E) (oe_junk E) a))\<rparr>)) p))"

definition opt_bitrate_limit :: "option_env \<Rightarrow> string \<Rightarrow> parsing \<Rightarrow> parsed_options" where
  "opt_bitrate_limit E a p = (case cut_at (CHR ''/'') a of (number, slash) \<Rightarrow>
     and_next (case slash of None \<Rightarrow> Fine p
         | Some b \<Rightarrow> check_interval (atof b) IETOTALINTERVAL
             (\<lambda>x. in_test (set_settings (\<lambda>s. s\<lparr>bitrate_limit_interval := x\<rparr>)) p) p)
       (\<lambda>q. Fine (for_server (in_test (set_settings (\<lambda>s. s\<lparr>bitrate_limit := cast_u64 (oe_ub E)
           (finite_value (unit_atof_rate (oe_junk E) number))\<rparr>)) q))))"

definition opt_time :: "string \<Rightarrow> parsing \<Rightarrow> parsed_options" where
  "opt_time a p = and_next (check (MAX_TIME < atoi a) IEDURATION (in_test (\<lambda>t. t\<lparr>duration := atoi a\<rparr>) p))
     (\<lambda>q. Fine (for_client (q\<lparr>duration_flag := True\<rparr>)))"

definition opt_bytes :: "option_env \<Rightarrow> string \<Rightarrow> parsing \<Rightarrow> parsed_options" where
  "opt_bytes E a p = Fine (for_client (in_test (set_settings (\<lambda>s. s\<lparr>s_bytes := unit_atoi (oe_ub E) (oe_junk E) a\<rparr>)) p))"

definition opt_blockcount :: "option_env \<Rightarrow> string \<Rightarrow> parsing \<Rightarrow> parsed_options" where
  "opt_blockcount E a p = Fine (for_client (in_test (set_settings (\<lambda>s. s\<lparr>s_blocks := unit_atoi (oe_ub E) (oe_junk E) a\<rparr>)) p))"

definition opt_length :: "option_env \<Rightarrow> string \<Rightarrow> parsing \<Rightarrow> parsed_options" where
  "opt_length E a p = Fine (for_client (p\<lparr>o_blksize := to_int (uint (unit_atoi (oe_ub E) (oe_junk E) a))\<rparr>))"

definition opt_parallel :: "string \<Rightarrow> parsing \<Rightarrow> parsed_options" where
  "opt_parallel a p = and_next (check (MAX_STREAMS < atoi a) IENUMSTREAMS (in_test (\<lambda>t. t\<lparr>num_streams := atoi a\<rparr>) p))
     (\<lambda>q. Fine (for_client q))"

definition opt_reverse :: "parsing \<Rightarrow> parsed_options" where
  "opt_reverse p = (if bidirectional (o_test p) then wrong IEREVERSEBIDIR p
     else Fine (for_client (in_test (iperf_set_test_reverse True) p)))"

definition opt_bidir :: "parsing \<Rightarrow> parsed_options" where
  "opt_bidir p = (if reverse (o_test p) then wrong IEREVERSEBIDIR p
     else Fine (for_client (in_test (iperf_set_test_bidirectional True) p)))"

text \<open>
  A \<open>double\<close> below the range of \<open>int\<close> is an undefined conversion, a NaN as well, which is not above the
  limit; the result is some \<open>int\<close>.
\<close>

definition undefined_int :: "option_env \<Rightarrow> int" where
  "undefined_int E = to_int (oe_ub_int E)"

definition opt_window :: "option_env \<Rightarrow> string \<Rightarrow> parsing \<Rightarrow> parsed_options" where
  "opt_window E a p = (let farg = unit_atof (oe_junk E) a;
       store = (\<lambda>n. Fine (for_client (in_test (set_settings (\<lambda>s. s\<lparr>socket_bufsize := n\<rparr>)) p)))
     in case farg of
          Number x \<Rightarrow>
            if of_int MAX_TCP_BUFFER < x then wrong IEBUFSIZE p
            else store (if - 2147483649 < x then (if x < 0 then \<lceil>x\<rceil> else \<lfloor>x\<rfloor>) else undefined_int E)
        | Infinite neg \<Rightarrow> if \<not> neg then wrong IEBUFSIZE p else store (undefined_int E)
        | NaN \<Rightarrow> store (undefined_int E))"

definition opt_bind :: "string \<Rightarrow> parsing \<Rightarrow> parsed_options" where
  "opt_bind a p = Fine (in_test (\<lambda>t. t\<lparr>bind_address := Some a\<rparr>) p)"

definition opt_bind_dev :: "string \<Rightarrow> parsing \<Rightarrow> parsed_options" where
  "opt_bind_dev a p = Fine (in_test (\<lambda>t. t\<lparr>bind_dev := Some a\<rparr>) p)"

definition opt_cport :: "string \<Rightarrow> parsing \<Rightarrow> parsed_options" where
  "opt_cport a p = (let portno = atoi a in
     if portno < 1 \<or> 65535 < portno then wrong IEBADPORT p
     else Fine (in_test (\<lambda>t. t\<lparr>bind_port := portno\<rparr>) p))"

definition opt_mss :: "string \<Rightarrow> parsing \<Rightarrow> parsed_options" where
  "opt_mss a p = and_next (check (MAX_MSS < atoi a) IEMSS (in_test (set_settings (\<lambda>s. s\<lparr>mss := atoi a\<rparr>)) p))
     (\<lambda>q. Fine (for_client q))"

definition opt_no_delay :: "parsing \<Rightarrow> parsed_options" where
  "opt_no_delay p = Fine (for_client (in_test (\<lambda>t. t\<lparr>no_delay := True\<rparr>) p))"

definition opt_version :: "int \<Rightarrow> parsing \<Rightarrow> parsed_options" where
  "opt_version af p = Fine (in_test (set_settings (\<lambda>s. s\<lparr>s_domain := af\<rparr>)) p)"

text \<open>\<open>strtol\<close> with base 0 into an \<open>int\<close>, and whether it converted nothing.\<close>

definition strtol_int :: "string \<Rightarrow> int \<times> bool" where
  "strtol_int a = (case strtol0 a of None \<Rightarrow> (0, True) | Some (n, r) \<Rightarrow> (to_int n, False))"

definition opt_tos :: "string \<Rightarrow> parsing \<Rightarrow> parsed_options" where
  "opt_tos a p = (case strtol_int a of (n, none) \<Rightarrow>
     and_next (check (none \<or> n < 0 \<or> 255 < n) IEBADTOS (in_test (set_settings (\<lambda>s. s\<lparr>tos := n\<rparr>)) p))
       (\<lambda>q. Fine (for_client q)))"

definition opt_dscp :: "string \<Rightarrow> parsing \<Rightarrow> parsed_options" where
  "opt_dscp a p = (let n = parse_qos (Some a) in
     and_next (check (n < 0) IEBADTOS (in_test (set_settings (\<lambda>s. s\<lparr>tos := n\<rparr>)) p)) (\<lambda>q. Fine (for_client q)))"

definition opt_extra_data :: "string \<Rightarrow> parsing \<Rightarrow> parsed_options" where
  "opt_extra_data a p = Fine (for_client (in_test (\<lambda>t. t\<lparr>extra_data := Some a\<rparr>) p))"

definition opt_flowlabel :: "string \<Rightarrow> parsing \<Rightarrow> parsed_options" where
  "opt_flowlabel a p = (case strtol_int a of (n, none) \<Rightarrow>
     and_next (check (none \<or> n < 1 \<or> 0xfffff < n) IESETFLOW (in_test (set_settings (\<lambda>s. s\<lparr>flowlabel := n\<rparr>)) p))
       (\<lambda>q. Fine (for_client q)))"

text \<open>Both blocks of the new entry are allocated; if the second one fails, the first one is lost.\<close>

definition opt_xbind :: "option_env \<Rightarrow> string \<Rightarrow> parsing \<Rightarrow> parsed_options" where
  "opt_xbind E a p = (let n = length (o_xbind_addrs p) in
     if \<not> oe_entry_memory E n then wrong IESETSCTPBINDX p
     else if \<not> oe_name_memory E n then wrong IESETSCTPBINDX p
     else Fine (p\<lparr>o_xbind_addrs := o_xbind_addrs p @ [a]\<rparr>))"

definition opt_zerocopy :: "parsing \<Rightarrow> parsed_options" where
  "opt_zerocopy p = (if \<not> has_sendfile then wrong IENOSENDFILE p
     else Fine (for_client (in_test (\<lambda>t. t\<lparr>zerocopy := True\<rparr>) p)))"

definition opt_repeating_payload :: "parsing \<Rightarrow> parsed_options" where
  "opt_repeating_payload p = Fine (for_client (in_test (\<lambda>t. t\<lparr>repeating_payload := True\<rparr>) p))"

definition opt_timestamps :: "string option \<Rightarrow> parsing \<Rightarrow> parsed_options" where
  "opt_timestamps optarg p = Fine ((in_test (\<lambda>t. t\<lparr>timestamp_format :=
     Some (case optarg of Some f \<Rightarrow> f | None \<Rightarrow> ''%c '')\<rparr>) p)\<lparr>o_timestamps := True\<rparr>)"

definition opt_omit :: "string \<Rightarrow> parsing \<Rightarrow> parsed_options" where
  "opt_omit a p = and_next (check (atoi a < 0 \<or> 60 < atoi a) IEOMIT (in_test (\<lambda>t. t\<lparr>omit := atoi a\<rparr>) p))
     (\<lambda>q. Fine (for_client q))"

definition opt_file :: "string \<Rightarrow> parsing \<Rightarrow> parsed_options" where
  "opt_file a p = Fine (in_test (\<lambda>t. t\<lparr>diskfile_name := Some a\<rparr>) p)"

definition opt_idle_timeout :: "string \<Rightarrow> parsing \<Rightarrow> parsed_options" where
  "opt_idle_timeout a p = and_next (check (atoi a < 1 \<or> MAX_TIME < atoi a) IEIDLETIMEOUT
       (in_test (set_settings (\<lambda>s. s\<lparr>idle_timeout := atoi a\<rparr>)) p))
     (\<lambda>q. Fine (for_server q))"

definition opt_rcv_timeout :: "string \<Rightarrow> parsing \<Rightarrow> parsed_options" where
  "opt_rcv_timeout a p = (let n = atoi a in
     if n < MIN_NO_MSG_RCVD_TIMEOUT \<or> MAX_TIME * 1000 < n then wrong IERCVTIMEOUT p
     else Fine ((in_test (set_settings (\<lambda>s. s\<lparr>rcv_timeout :=
       Time (word_of_int (n div 1000)) (word_of_int (n mod 1000 * 1000))\<rparr>)) p)\<lparr>rcv_timeout_flag := True\<rparr>))"

definition opt_affinity :: "string \<Rightarrow> parsing \<Rightarrow> parsed_options" where
  "opt_affinity a p = (case strtol_int a of (n, none) \<Rightarrow>
     and_next (check (none \<or> n < 0 \<or> 1024 < n) IEAFFINITY (in_test (\<lambda>t. t\<lparr>affinity := n\<rparr>) p))
       (\<lambda>q. case snd (cut_at (CHR '','') a) of None \<Rightarrow> Fine q
          | Some b \<Rightarrow> and_next (check (atoi b < 0 \<or> 1024 < atoi b) IEAFFINITY (in_test (\<lambda>t. t\<lparr>server_affinity := atoi b\<rparr>) q))
              (\<lambda>r. Fine (for_client r))))"

definition opt_title :: "string \<Rightarrow> parsing \<Rightarrow> parsed_options" where
  "opt_title a p = Fine (for_client (in_test (\<lambda>t. t\<lparr>title := Some a\<rparr>) p))"

definition opt_congestion :: "string \<Rightarrow> parsing \<Rightarrow> parsed_options" where
  "opt_congestion a p = Fine (for_client (in_test (\<lambda>t. t\<lparr>congestion := Some a\<rparr>) p))"

definition opt_get_server_output :: "parsing \<Rightarrow> parsed_options" where
  "opt_get_server_output p = Fine (for_client (in_test (\<lambda>t. t\<lparr>get_server_output := True\<rparr>) p))"

definition opt_no_fq_pacing :: "parsing \<Rightarrow> parsed_options" where
  "opt_no_fq_pacing p = Fine (for_client (in_test (set_settings (\<lambda>s. s\<lparr>fqrate := 0\<rparr>)) p))"

definition opt_fq_rate :: "option_env \<Rightarrow> string \<Rightarrow> parsing \<Rightarrow> parsed_options" where
  "opt_fq_rate E a p = Fine (for_client (in_test (set_settings (\<lambda>s. s\<lparr>fqrate := cast_u64 (oe_ub E)
     (finite_value (unit_atof_rate (oe_junk E) a))\<rparr>)) p))"

definition opt_dont_fragment :: "parsing \<Rightarrow> parsed_options" where
  "opt_dont_fragment p = Fine (for_client (in_test (set_settings (\<lambda>s. s\<lparr>dont_fragment := 1\<rparr>)) p))"

definition opt_skew :: "string \<Rightarrow> parsing \<Rightarrow> parsed_options" where
  "opt_skew a p = check (atoi a \<le> 0) IESKEWTHRESHOLD (in_test (\<lambda>t. t\<lparr>server_skew_threshold := atoi a\<rparr>) p)"

definition opt_pacing_timer :: "option_env \<Rightarrow> string \<Rightarrow> parsing \<Rightarrow> parsed_options" where
  "opt_pacing_timer E a p = Fine (for_client (in_test (set_settings (\<lambda>s. s\<lparr>pacing_timer :=
     to_int (uint (unit_atoi (oe_ub E) (oe_junk E) a))\<rparr>)) p))"

definition opt_connect_timeout :: "option_env \<Rightarrow> string \<Rightarrow> parsing \<Rightarrow> parsed_options" where
  "opt_connect_timeout E a p = Fine (for_client (in_test (set_settings (\<lambda>s. s\<lparr>connect_timeout :=
     to_int (uint (unit_atoi (oe_ub E) (oe_junk E) a))\<rparr>)) p))"

section \<open>The table\<close>

text \<open>\<open>getopt_long\<close> gives an argument for every option that requires one.\<close>

definition required :: "(string \<Rightarrow> parsing \<Rightarrow> parsed_options) \<Rightarrow> string option \<Rightarrow> parsing \<Rightarrow> parsed_options" where
  "required f optarg = f (case optarg of None \<Rightarrow> [] | Some a \<Rightarrow> a)"

definition plainly :: "(parsing \<Rightarrow> parsed_options) \<Rightarrow> string option \<Rightarrow> parsing \<Rightarrow> parsed_options" where
  "plainly f optarg = f"

definition switch :: "(test \<Rightarrow> test) \<Rightarrow> string option \<Rightarrow> parsing \<Rightarrow> parsed_options" where
  "switch f = plainly (\<lambda>p. Fine (in_test f p))"

definition both_side_options :: "option_env \<Rightarrow> (flag \<times> (string option \<Rightarrow> parsing \<Rightarrow> parsed_options)) list" where
  "both_side_options E = [
     (Letter CHR ''p'', required opt_port), (Letter CHR ''f'', opt_format), (Letter CHR ''i'', required opt_interval),
     (Letter CHR ''V'', switch (\<lambda>t. t\<lparr>verbose := True\<rparr>)), (Letter CHR ''J'', switch (\<lambda>t. t\<lparr>json_output := True\<rparr>)),
     (Letter CHR ''v'', plainly (\<lambda>p. Quit 0)), (Letter CHR ''s'', plainly opt_server), (Letter CHR ''c'', required opt_client),
     (Letter CHR ''m'', plainly opt_multipath), (Code OPT_SCTP, plainly (wrong IEUNIMP)),
     (Letter CHR ''B'', required opt_bind), (Code OPT_BIND_DEV, required opt_bind_dev), (Code OPT_CLIENT_PORT, required opt_cport),
     (Letter CHR ''4'', plainly (opt_version AF_INET)), (Letter CHR ''6'', plainly (opt_version AF_INET6)),
     (Letter CHR ''X'', required (opt_xbind E)), (Code OPT_TIMESTAMPS, opt_timestamps), (Letter CHR ''F'', required opt_file),
     (Code OPT_RCV_TIMEOUT, required opt_rcv_timeout), (Letter CHR ''A'', required opt_affinity),
     (Letter CHR ''d'', switch (\<lambda>t. t\<lparr>debug := True\<rparr>)), (Letter CHR ''I'', required (\<lambda>a p. Fine (in_test (\<lambda>t. t\<lparr>pidfile := Some a\<rparr>) p))),
     (Code OPT_LOGFILE, required (\<lambda>a p. Fine (in_test (\<lambda>t. t\<lparr>logfile := Some a\<rparr>) p))),
     (Code OPT_FORCEFLUSH, switch (\<lambda>t. t\<lparr>forceflush := True\<rparr>)),
     (Code OPT_UDP_COUNTERS_64BIT, switch (\<lambda>t. t\<lparr>udp_counters_64bit := True\<rparr>)),
     (Code OPT_CLIENT_USERNAME, required (\<lambda>a p. Fine (p\<lparr>o_username := Some a\<rparr>))),
     (Code OPT_CLIENT_RSA_PUBLIC_KEY, required (\<lambda>a p. Fine (p\<lparr>o_public_key := Some a\<rparr>))),
     (Code OPT_SERVER_RSA_PRIVATE_KEY, required (\<lambda>a p. Fine (p\<lparr>o_private_key := Some a\<rparr>))),
     (Code OPT_SERVER_AUTHORIZED_USERS, required (\<lambda>a p. Fine (in_test (\<lambda>t. t\<lparr>server_authorized_users := Some a\<rparr>) p))),
     (Code OPT_SERVER_SKEW_THRESHOLD, required opt_skew), (Letter CHR ''h'', plainly (\<lambda>p. Quit 0))]"

definition server_side_options :: "option_env \<Rightarrow> (flag \<times> (string option \<Rightarrow> parsing \<Rightarrow> parsed_options)) list" where
  "server_side_options E = [
     (Letter CHR ''D'', plainly opt_daemon), (Letter CHR ''1'', plainly opt_one_off),
     (Code OPT_SERVER_BITRATE_LIMIT, required (opt_bitrate_limit E)), (Code OPT_IDLE_TIMEOUT, required opt_idle_timeout)]"

definition client_side_options :: "option_env \<Rightarrow> (flag \<times> (string option \<Rightarrow> parsing \<Rightarrow> parsed_options)) list" where
  "client_side_options E = [
     (Letter CHR ''u'', plainly opt_udp), (Code OPT_NUMSTREAMS, required (opt_numstreams E)), (Letter CHR ''b'', required (opt_bitrate E)),
     (Letter CHR ''t'', required opt_time), (Letter CHR ''n'', required (opt_bytes E)), (Letter CHR ''k'', required (opt_blockcount E)),
     (Letter CHR ''l'', required (opt_length E)), (Letter CHR ''P'', required opt_parallel), (Letter CHR ''R'', plainly opt_reverse),
     (Code OPT_BIDIRECTIONAL, plainly opt_bidir), (Letter CHR ''w'', required (opt_window E)), (Letter CHR ''M'', required opt_mss),
     (Letter CHR ''N'', plainly opt_no_delay), (Letter CHR ''S'', required opt_tos), (Code OPT_DSCP, required opt_dscp),
     (Code OPT_EXTRA_DATA, required opt_extra_data), (Letter CHR ''L'', required opt_flowlabel), (Letter CHR ''Z'', plainly opt_zerocopy),
     (Code OPT_REPEATING_PAYLOAD, plainly opt_repeating_payload), (Letter CHR ''O'', required opt_omit),
     (Letter CHR ''T'', required opt_title), (Letter CHR ''C'', required opt_congestion),
     (Code OPT_GET_SERVER_OUTPUT, plainly opt_get_server_output), (Code OPT_NO_FQ_SOCKET_PACING, plainly opt_no_fq_pacing),
     (Code OPT_FQ_RATE, required (opt_fq_rate E)), (Code OPT_DONT_FRAGMENT, plainly opt_dont_fragment),
     (Code OPT_PACING_TIMER, required (opt_pacing_timer E)), (Code OPT_CONNECT_TIMEOUT, required (opt_connect_timeout E))]"

definition parse_option :: "option_env \<Rightarrow> flag \<Rightarrow> string option \<Rightarrow> parsing \<Rightarrow> parsed_options" where
  "parse_option E f optarg p = (case map_of (both_side_options E @ server_side_options E @ client_side_options E) f of
     Some h \<Rightarrow> h optarg p | None \<Rightarrow> Quit 1)"

fun parse_options :: "option_env \<Rightarrow> (flag \<times> string option) list \<Rightarrow> parsing \<Rightarrow> parsed_options" where
  "parse_options E [] p = Fine p"
| "parse_options E ((f, optarg) # args) p = and_next (parse_option E f optarg p) (parse_options E args)"

section \<open>The checks behind the loop\<close>

definition check_roles :: "parsing \<Rightarrow> parsed_options" where
  "check_roles p = (let role = test_role (o_test p) in
     if role = CHR ''c'' \<and> server_flag p then wrong IESERVERONLY p
     else if role = CHR ''s'' \<and> client_flag p then wrong IECLIENTONLY p
     else Fine p)"

text \<open>The password comes from the environment or the terminal.\<close>

definition client_auth :: "option_env \<Rightarrow> parsing \<Rightarrow> parsed_options" where
  "client_auth E p = (let role = test_role (o_test p); some = (o_username p \<noteq> None \<or> o_public_key p \<noteq> None) in
     if role = CHR ''s'' \<and> some then wrong IECLIENTONLY p
     else case (o_username p, o_public_key p) of
         (Some user, Some file) \<Rightarrow>
           if role = CHR ''c'' then
             (case (if oe_password E \<noteq> None then oe_password E else oe_getpass E) of
                None \<Rightarrow> wrong IESETCLIENTAUTH p
              | Some pw \<Rightarrow>
                (case oe_load_pubkey E file of None \<Rightarrow> wrong IESETCLIENTAUTH p
                 | Some key \<Rightarrow> Fine (in_test (set_settings (\<lambda>s. s\<lparr>client_username := Some user,
                     client_password := Some pw, client_rsa_pubkey := Some key\<rparr>)) p)))
           else Fine p
       | _ \<Rightarrow> if role = CHR ''c'' \<and> some then wrong IESETCLIENTAUTH p else Fine p)"

definition server_auth :: "option_env \<Rightarrow> parsing \<Rightarrow> parsed_options" where
  "server_auth E p = (let t = o_test p; role = test_role t; users = server_authorized_users t in
     if role = CHR ''c'' \<and> (o_private_key p \<noteq> None \<or> users \<noteq> None) then wrong IESERVERONLY p
     else if role = CHR ''c'' \<and> server_skew_threshold t \<noteq> 0 then wrong IESERVERONLY p
     else if role = CHR ''c'' \<and> rcv_timeout_flag p \<and> mode t = SENDER then wrong IERVRSONLYRCVTIMEOUT p
     else if role = CHR ''s'' \<and> (o_private_key p \<noteq> None) \<noteq> (users \<noteq> None) then wrong IESETSERVERAUTH p
     else case o_private_key p of
         Some file \<Rightarrow>
           if role = CHR ''s'' then
             (case oe_load_privkey E file of
                None \<Rightarrow> wrong IESETSERVERAUTH (in_test (\<lambda>t. t\<lparr>server_rsa_private_key := None\<rparr>) p)
              | Some key \<Rightarrow> Fine (in_test (\<lambda>t. t\<lparr>server_rsa_private_key := Some key,
                  server_skew_threshold := (if server_skew_threshold t = 0 then 10 else server_skew_threshold t)\<rparr>) p))
           else Fine p
       | None \<Rightarrow> Fine p)"

definition block_size :: "parsing \<Rightarrow> parsed_options" where
  "block_size p = (let proto = protocol (o_test p);
       n = (if o_blksize p = 0 then
              (if proto = Pudp then 0 else if proto = Psctp then DEFAULT_SCTP_BLKSIZE else DEFAULT_TCP_BLKSIZE)
            else o_blksize p) in
     if (proto \<noteq> Pudp \<and> n \<le> 0) \<or> MAX_BLOCKSIZE < n then wrong IEBLOCKSIZE p
     else if proto = Pudp \<and> 0 < n \<and> (n < MIN_UDP_BLOCKSIZE \<or> MAX_UDP_BLOCKSIZE < n) then wrong IEUDPBLOCKSIZE p
     else Fine ((in_test (set_settings (\<lambda>s. s\<lparr>blksize := n\<rparr>)) p)\<lparr>o_blksize := n\<rparr>))"

definition default_rate :: "parsing \<Rightarrow> parsing" where
  "default_rate p = (if rate_flag p then p
     else in_test (\<lambda>t. set_settings (\<lambda>s. s\<lparr>rate := (if protocol t = Pudp then word_of_int UDP_RATE else 0)\<rparr>) t) p)"

definition end_conditions :: "parsing \<Rightarrow> parsed_options" where
  "end_conditions p0 =
     (let S = settings (o_test p0);
          p = (if (s_bytes S \<noteq> 0 \<or> s_blocks S \<noteq> 0) \<and> \<not> duration_flag p0
               then in_test (\<lambda>t. t\<lparr>duration := 0\<rparr>) p0 else p0) in
      check (duration_flag p \<and> s_bytes S \<noteq> 0 \<or> duration_flag p \<and> s_blocks S \<noteq> 0 \<or> s_bytes S \<noteq> 0 \<and> s_blocks S \<noteq> 0)
        IEENDCONDITIONS p)"

definition need_role :: "parsing \<Rightarrow> parsed_options" where
  "need_role p = check (test_role (o_test p) \<noteq> CHR ''c'' \<and> test_role (o_test p) \<noteq> CHR ''s'') IENOROLE p"

text \<open>\<open>round\<close> takes halves away from zero; with an interval of 0 the quotient is infinite and its conversion undefined.\<close>

definition rounded :: "rat \<Rightarrow> int" where
  "rounded x = (if x < 0 then - \<lfloor>- x + 1 / 2\<rfloor> else \<lfloor>x + 1 / 2\<rfloor>)"

definition total_rate_window :: "option_env \<Rightarrow> parsing \<Rightarrow> parsing" where
  "total_rate_window E p =
     in_test (\<lambda>t. let x = bitrate_limit_interval (settings t); si = stats_interval t in
       if x = 0 then t
       else set_settings (\<lambda>s. s\<lparr>bitrate_limit_stats_per_interval :=
         (if x \<le> si then 1 else case double_div x si of None \<Rightarrow> undefined_int E | Some q \<Rightarrow> rounded q)\<rparr>) t) p"

definition start_parsing :: "test \<Rightarrow> parsing" where
  "start_parsing t = \<lparr>o_test = t, o_blksize = 0, server_flag = False, client_flag = False, rate_flag = False,
     duration_flag = False, rcv_timeout_flag = False, o_username = None, o_public_key = None, o_private_key = None,
     o_xbind_addrs = [], o_timestamps = False\<rparr>"

definition check_options :: "option_env \<Rightarrow> parsing \<Rightarrow> parsed_options" where
  "check_options E p =
     and_next (check_roles p) (\<lambda>p1.
     and_next (client_auth E p1) (\<lambda>p2.
     and_next (server_auth E p2) (\<lambda>p3.
     and_next (block_size p3) (\<lambda>p4.
     and_next (end_conditions (default_rate p4)) (\<lambda>p5.
     and_next (need_role p5) (\<lambda>p6. Fine (total_rate_window E p6)))))))"

definition iperf_parse_arguments :: "option_env \<Rightarrow> (flag \<times> string option) list \<Rightarrow> test \<Rightarrow> parsed_options" where
  "iperf_parse_arguments E args t = and_next (parse_options E args (start_parsing t)) (check_options E)"

section \<open>What every option keeps\<close>

text \<open>
  The state between two options: the numbers are in the ranges that the options check, the mode
  follows from the role and the direction, and a direction has been asked for by an option of the client.
\<close>

definition numbers_ok :: "test \<Rightarrow> bool" where
  "numbers_ok t \<longleftrightarrow> server_port t \<in> {1..65535} \<and> bind_port t \<in> {0..65535} \<and> omit t \<in> {0..60}
     \<and> fits_int (duration t) \<and> duration t \<le> MAX_TIME \<and> fits_int (num_streams t) \<and> num_streams t \<le> MAX_STREAMS
     \<and> affinity t \<in> {-1..1024} \<and> server_affinity t \<in> {-1..1024} \<and> fits_int (server_skew_threshold t) \<and> 0 \<le> server_skew_threshold t
     \<and> \<not> bad_interval (stats_interval t) \<and> reporter_interval t = stats_interval t"

text \<open>The longest wait for a message, in microseconds.\<close>

definition rcv_timeout_ok :: "iperf_time \<Rightarrow> bool" where
  "rcv_timeout_ok x = (case x of Time s us \<Rightarrow> unat us < 1000000
     \<and> MIN_NO_MSG_RCVD_TIMEOUT * 1000 \<le> int (unat s) * 1000000 + int (unat us)
     \<and> int (unat s) * 1000000 + int (unat us) \<le> MAX_TIME * 1000000)"

text \<open>\<open>u\<close> is what an undefined conversion to \<open>int\<close> gives, the only window that may be above the limit.\<close>

definition settings_ok :: "int \<Rightarrow> settings \<Rightarrow> bool" where
  "settings_ok u s \<longleftrightarrow> \<not> bad_interval (bitrate_limit_interval s) \<and> fits_int (mss s) \<and> mss s \<le> MAX_MSS \<and> tos s \<in> {0..255}
     \<and> burst s \<in> {0..MAX_BURST} \<and> flowlabel s \<in> {0..0xfffff} \<and> fits_int (socket_bufsize s)
     \<and> (socket_bufsize s \<le> MAX_TCP_BUFFER \<or> socket_bufsize s = u)
     \<and> fits_int (pacing_timer s) \<and> dont_fragment s \<in> {0, 1}
     \<and> idle_timeout s \<in> {0..MAX_TIME} \<and> rcv_timeout_ok (rcv_timeout s)
     \<and> (unit_format s = CHR ''a'' \<or> unit_format s \<in> set ''kKmMgGtT'')"

definition directed :: "test \<Rightarrow> bool" where
  "directed t \<longleftrightarrow> mode t = (if bidirectional t then BIDIRECTIONAL
       else if reverse t \<longleftrightarrow> test_role t = CHR ''c'' then RECEIVER else SENDER)
     \<and> sender_has_retransmits t = (if mode t \<noteq> RECEIVER \<and> protocol t = Ptcp then 1 else 0)"

definition mode_ok :: "test \<Rightarrow> bool" where
  "mode_ok t \<longleftrightarrow> test_role t \<in> {NUL, CHR ''c'', CHR ''s''} \<and> protocols t = [Ptcp, Pudp] \<and> protocol t \<in> {Ptcp, Pudp}
     \<and> \<not> (reverse t \<and> bidirectional t)
     \<and> (test_role t = CHR ''c'' \<or> test_role t = CHR ''s'' \<and> \<not> bidirectional t \<longrightarrow> directed t)"

definition options_ok :: "int \<Rightarrow> parsing \<Rightarrow> bool" where
  "options_ok u p \<longleftrightarrow> numbers_ok (o_test p) \<and> settings_ok u (settings (o_test p)) \<and> mode_ok (o_test p)
     \<and> (reverse (o_test p) \<or> bidirectional (o_test p) \<longrightarrow> client_flag p) \<and> fits_int (o_blksize p)"

definition option_keeps :: "(parsing \<Rightarrow> bool) \<Rightarrow> (string option \<Rightarrow> parsing \<Rightarrow> parsed_options) \<Rightarrow> bool" where
  "option_keeps Q h \<longleftrightarrow> (\<forall>a p p'. Q p \<longrightarrow> h a p = Fine p' \<longrightarrow> Q p')"

lemma and_next_Fine: "and_next r f = Fine q \<longleftrightarrow> (\<exists>p. r = Fine p \<and> f p = Fine q)"
  by (cases r) (auto simp: and_next_def)

lemma check_Fine: "check bad e p = Fine q \<longleftrightarrow> \<not> bad \<and> q = p"
  by (auto simp: check_def wrong_def)

lemma wrong_not_Fine [simp]: "wrong e p \<noteq> Fine q" by (simp add: wrong_def)

lemma in_test_simps [simp]:
  "o_test (in_test f p) = f (o_test p)" "client_flag (in_test f p) = client_flag p"
  "server_flag (in_test f p) = server_flag p" "o_blksize (in_test f p) = o_blksize p"
  "duration_flag (in_test f p) = duration_flag p" "rate_flag (in_test f p) = rate_flag p"
  "o_test (for_client p) = o_test p" "client_flag (for_client p)" "server_flag (for_client p) = server_flag p"
  "o_blksize (for_client p) = o_blksize p" "o_test (for_server p) = o_test p" "server_flag (for_server p)"
  "client_flag (for_server p) = client_flag p" "o_blksize (for_server p) = o_blksize p"
  by (simp_all add: in_test_def for_client_def for_server_def)

lemma option_required: "(\<And>a p p'. Q p \<Longrightarrow> f a p = Fine p' \<Longrightarrow> Q p') \<Longrightarrow> option_keeps Q (required f)"
  by (simp add: option_keeps_def required_def)

lemma option_plainly: "(\<And>p p'. Q p \<Longrightarrow> f p = Fine p' \<Longrightarrow> Q p') \<Longrightarrow> option_keeps Q (plainly f)"
  by (simp add: option_keeps_def plainly_def)

lemma option_switch: "(\<And>p. Q p \<Longrightarrow> Q (in_test f p)) \<Longrightarrow> option_keeps Q (switch f)"
  by (auto simp: option_keeps_def plainly_def switch_def)

lemma option_raw: "(\<And>a p p'. Q p \<Longrightarrow> f a p = Fine p' \<Longrightarrow> Q p') \<Longrightarrow> option_keeps Q f"
  by (simp add: option_keeps_def)

lemma fits_to_int: "fits_int (to_int n)"
  using signed_take_bit_int_greater_eq_minus_exp [of 31 n] signed_take_bit_int_less_exp [of 31 n]
  by (simp add: to_int_def fits_int_def)

lemma fits_atoi: "fits_int (atoi s)"
  using atoi_bounds [of s] by (auto simp: fits_int_def)

lemma set_protocol_ok: "mode_ok t \<Longrightarrow> n \<in> {Ptcp, Pudp} \<Longrightarrow> mode_ok (snd (set_protocol n t))"
  by (auto simp: mode_ok_def directed_def set_protocol_def check_sender_has_retransmits_def has_tcpinfo_retransmits_def)

lemma set_role_ok: "mode_ok t \<Longrightarrow> r \<in> {CHR ''c'', CHR ''s''} \<Longrightarrow> mode_ok (iperf_set_test_role r t)"
  by (auto simp: mode_ok_def directed_def iperf_set_test_role_def check_sender_has_retransmits_def has_tcpinfo_retransmits_def Let_def)

lemma set_reverse_ok: "mode_ok t \<Longrightarrow> \<not> bidirectional t \<Longrightarrow> mode_ok (iperf_set_test_reverse True t)"
  by (auto simp: mode_ok_def directed_def iperf_set_test_reverse_def check_sender_has_retransmits_def has_tcpinfo_retransmits_def Let_def)

lemma set_bidirectional_ok: "mode_ok t \<Longrightarrow> \<not> reverse t \<Longrightarrow> mode_ok (iperf_set_test_bidirectional True t)"
  by (auto simp: mode_ok_def directed_def iperf_set_test_bidirectional_def Let_def)

lemma set_protocol_fields [simp]:
  "settings (snd (set_protocol n t)) = settings t" "reverse (snd (set_protocol n t)) = reverse t"
  "bidirectional (snd (set_protocol n t)) = bidirectional t" "numbers_ok (snd (set_protocol n t)) = numbers_ok t"
  by (auto simp: set_protocol_def check_sender_has_retransmits_def numbers_ok_def split: option.splits)

lemma set_role_fields [simp]:
  "settings (iperf_set_test_role r t) = settings t" "reverse (iperf_set_test_role r t) = reverse t"
  "bidirectional (iperf_set_test_role r t) = bidirectional t" "numbers_ok (iperf_set_test_role r t) = numbers_ok t"
  by (auto simp: iperf_set_test_role_def check_sender_has_retransmits_def numbers_ok_def Let_def)

lemma set_direction_fields [simp]:
  "settings (iperf_set_test_reverse b t) = settings t" "numbers_ok (iperf_set_test_reverse b t) = numbers_ok t"
  "settings (iperf_set_test_bidirectional b t) = settings t" "numbers_ok (iperf_set_test_bidirectional b t) = numbers_ok t"
  by (auto simp: iperf_set_test_reverse_def iperf_set_test_bidirectional_def check_sender_has_retransmits_def numbers_ok_def Let_def)

lemma settings_set_fields [simp]:
  "settings (set_settings f t) = f (settings t)" "numbers_ok (set_settings f t) = numbers_ok t"
  "mode_ok (set_settings f t) = mode_ok t" "reverse (set_settings f t) = reverse t"
  "bidirectional (set_settings f t) = bidirectional t"
  by (simp_all add: set_settings_def numbers_ok_def mode_ok_def directed_def)

text \<open>Members that none of the conditions mention.\<close>

lemma numbers_ok_other [simp]:
  "numbers_ok (t\<lparr>daemon := b\<rparr>) = numbers_ok t" "numbers_ok (t\<lparr>one_off := b\<rparr>) = numbers_ok t"
  "numbers_ok (t\<lparr>server_hostname := s\<rparr>) = numbers_ok t" "numbers_ok (t\<lparr>multipath := b\<rparr>) = numbers_ok t"
  "numbers_ok (t\<lparr>no_delay := b\<rparr>) = numbers_ok t" "numbers_ok (t\<lparr>bind_address := s\<rparr>) = numbers_ok t"
  "numbers_ok (t\<lparr>bind_dev := s\<rparr>) = numbers_ok t"
  "numbers_ok (t\<lparr>extra_data := s\<rparr>) = numbers_ok t" "numbers_ok (t\<lparr>zerocopy := b\<rparr>) = numbers_ok t"
  "numbers_ok (t\<lparr>repeating_payload := b\<rparr>) = numbers_ok t" "numbers_ok (t\<lparr>timestamp_format := s\<rparr>) = numbers_ok t"
  "numbers_ok (t\<lparr>diskfile_name := s\<rparr>) = numbers_ok t"
  "numbers_ok (t\<lparr>title := s\<rparr>) = numbers_ok t" "numbers_ok (t\<lparr>congestion := s\<rparr>) = numbers_ok t"
  "numbers_ok (t\<lparr>get_server_output := b\<rparr>) = numbers_ok t"
  "numbers_ok (t\<lparr>verbose := b\<rparr>) = numbers_ok t"
  "numbers_ok (t\<lparr>json_output := b\<rparr>) = numbers_ok t" "numbers_ok (t\<lparr>debug := b\<rparr>) = numbers_ok t"
  "numbers_ok (t\<lparr>pidfile := s\<rparr>) = numbers_ok t" "numbers_ok (t\<lparr>logfile := s\<rparr>) = numbers_ok t"
  "numbers_ok (t\<lparr>forceflush := b\<rparr>) = numbers_ok t" "numbers_ok (t\<lparr>udp_counters_64bit := b\<rparr>) = numbers_ok t"
  "numbers_ok (t\<lparr>server_authorized_users := s\<rparr>) = numbers_ok t"
  "numbers_ok (t\<lparr>server_rsa_private_key := s\<rparr>) = numbers_ok t"
  by (simp_all add: numbers_ok_def)

lemma mode_ok_other [simp]:
  "mode_ok (t\<lparr>daemon := b\<rparr>) = mode_ok t" "mode_ok (t\<lparr>one_off := b\<rparr>) = mode_ok t"
  "mode_ok (t\<lparr>server_hostname := s\<rparr>) = mode_ok t" "mode_ok (t\<lparr>multipath := b\<rparr>) = mode_ok t"
  "mode_ok (t\<lparr>no_delay := b\<rparr>) = mode_ok t" "mode_ok (t\<lparr>bind_address := s\<rparr>) = mode_ok t"
  "mode_ok (t\<lparr>bind_dev := s\<rparr>) = mode_ok t" "mode_ok (t\<lparr>bind_port := x\<rparr>) = mode_ok t"
  "mode_ok (t\<lparr>extra_data := s\<rparr>) = mode_ok t" "mode_ok (t\<lparr>zerocopy := b\<rparr>) = mode_ok t"
  "mode_ok (t\<lparr>repeating_payload := b\<rparr>) = mode_ok t" "mode_ok (t\<lparr>timestamp_format := s\<rparr>) = mode_ok t"
  "mode_ok (t\<lparr>diskfile_name := s\<rparr>) = mode_ok t" "mode_ok (t\<lparr>affinity := x\<rparr>) = mode_ok t"
  "mode_ok (t\<lparr>title := s\<rparr>) = mode_ok t" "mode_ok (t\<lparr>congestion := s\<rparr>) = mode_ok t"
  "mode_ok (t\<lparr>get_server_output := b\<rparr>) = mode_ok t" "mode_ok (t\<lparr>server_skew_threshold := x\<rparr>) = mode_ok t"
  "mode_ok (t\<lparr>verbose := b\<rparr>) = mode_ok t" "mode_ok (t\<lparr>json_output := b\<rparr>) = mode_ok t"
  "mode_ok (t\<lparr>debug := b\<rparr>) = mode_ok t" "mode_ok (t\<lparr>pidfile := s\<rparr>) = mode_ok t"
  "mode_ok (t\<lparr>logfile := s\<rparr>) = mode_ok t" "mode_ok (t\<lparr>forceflush := b\<rparr>) = mode_ok t"
  "mode_ok (t\<lparr>udp_counters_64bit := b\<rparr>) = mode_ok t" "mode_ok (t\<lparr>server_authorized_users := s\<rparr>) = mode_ok t"
  "mode_ok (t\<lparr>server_rsa_private_key := s\<rparr>) = mode_ok t" "mode_ok (t\<lparr>server_port := x\<rparr>) = mode_ok t"
  "mode_ok (t\<lparr>omit := x\<rparr>) = mode_ok t" "mode_ok (t\<lparr>duration := x\<rparr>) = mode_ok t"
  "mode_ok (t\<lparr>num_streams := x\<rparr>) = mode_ok t" "mode_ok (t\<lparr>server_affinity := x\<rparr>) = mode_ok t"
  "mode_ok (t\<lparr>stats_interval := y\<rparr>) = mode_ok t" "mode_ok (t\<lparr>reporter_interval := y\<rparr>) = mode_ok t"
  by (simp_all add: mode_ok_def directed_def)

lemma numbers_ok_set:
  assumes "numbers_ok t"
  shows "x \<in> {1..65535} \<Longrightarrow> numbers_ok (t\<lparr>server_port := x\<rparr>)"
    "x \<in> {0..60} \<Longrightarrow> numbers_ok (t\<lparr>omit := x\<rparr>)"
    "fits_int x \<Longrightarrow> x \<le> MAX_TIME \<Longrightarrow> numbers_ok (t\<lparr>duration := x\<rparr>)"
    "fits_int x \<Longrightarrow> x \<le> MAX_STREAMS \<Longrightarrow> numbers_ok (t\<lparr>num_streams := x\<rparr>)"
    "x \<in> {-1..1024} \<Longrightarrow> numbers_ok (t\<lparr>affinity := x\<rparr>)" "x \<in> {-1..1024} \<Longrightarrow> numbers_ok (t\<lparr>server_affinity := x\<rparr>)"
    "x \<in> {0..65535} \<Longrightarrow> numbers_ok (t\<lparr>bind_port := x\<rparr>)"
    "fits_int x \<Longrightarrow> 0 \<le> x \<Longrightarrow> numbers_ok (t\<lparr>server_skew_threshold := x\<rparr>)"
    "\<not> bad_interval y \<Longrightarrow> numbers_ok (t\<lparr>stats_interval := y, reporter_interval := y\<rparr>)"
  using assms by (simp_all add: numbers_ok_def)

lemma options_ok_simps [simp]:
  "options_ok u (p\<lparr>rate_flag := b\<rparr>) = options_ok u p" "options_ok u (p\<lparr>duration_flag := b\<rparr>) = options_ok u p"
  "options_ok u (p\<lparr>rcv_timeout_flag := b\<rparr>) = options_ok u p" "options_ok u (p\<lparr>o_username := v\<rparr>) = options_ok u p"
  "options_ok u (p\<lparr>o_public_key := v\<rparr>) = options_ok u p" "options_ok u (p\<lparr>o_private_key := v\<rparr>) = options_ok u p"
  "options_ok u (p\<lparr>o_xbind_addrs := xs\<rparr>) = options_ok u p" "options_ok u (p\<lparr>o_timestamps := b\<rparr>) = options_ok u p"
  "options_ok u (for_server p) = options_ok u p"
  by (simp_all add: options_ok_def for_server_def)

lemma options_ok_client: "options_ok u p \<Longrightarrow> options_ok u (for_client p)"
  by (simp add: options_ok_def)

lemma options_ok_other:
  assumes "options_ok u p" "\<And>t. numbers_ok (f t) = numbers_ok t" "\<And>t. mode_ok (f t) = mode_ok t"
    "\<And>t. settings (f t) = settings t" "\<And>t. reverse (f t) = reverse t" "\<And>t. bidirectional (f t) = bidirectional t"
  shows "options_ok u (in_test f p)"
  using assms by (simp add: options_ok_def)

lemma options_ok_number:
  assumes "options_ok u p" "numbers_ok (o_test p) \<Longrightarrow> numbers_ok (f (o_test p))" "\<And>t. mode_ok (f t) = mode_ok t"
    "\<And>t. settings (f t) = settings t" "\<And>t. reverse (f t) = reverse t" "\<And>t. bidirectional (f t) = bidirectional t"
  shows "options_ok u (in_test f p)"
  using assms by (simp add: options_ok_def)

lemma options_ok_setting:
  assumes "options_ok u p" "settings_ok u (settings (o_test p)) \<Longrightarrow> settings_ok u (g (settings (o_test p)))"
  shows "options_ok u (in_test (set_settings g) p)"
  using assms by (simp add: options_ok_def)

lemmas option_defs = opt_port_def opt_format_def opt_interval_def opt_daemon_def opt_one_off_def opt_server_def
  opt_client_def opt_multipath_def opt_udp_def opt_bitrate_def opt_numstreams_def opt_bitrate_limit_def opt_time_def
  opt_bytes_def opt_blockcount_def opt_length_def opt_parallel_def opt_reverse_def opt_bidir_def opt_window_def
  opt_bind_def opt_bind_dev_def opt_cport_def opt_mss_def opt_no_delay_def opt_version_def opt_tos_def opt_dscp_def
  opt_extra_data_def opt_flowlabel_def opt_xbind_def opt_zerocopy_def opt_repeating_payload_def opt_timestamps_def
  opt_omit_def opt_file_def opt_idle_timeout_def opt_rcv_timeout_def opt_affinity_def opt_title_def opt_congestion_def
  opt_get_server_output_def opt_no_fq_pacing_def opt_fq_rate_def opt_dont_fragment_def opt_skew_def opt_pacing_timer_def
  opt_connect_timeout_def

lemmas option_rules = option_required option_plainly option_switch option_raw

lemma strtol_int_fits: "strtol_int a = (n, b) \<Longrightarrow> fits_int n"
  by (auto simp: strtol_int_def fits_to_int split: option.splits) (simp add: fits_int_def)

lemma window_fits:
  assumes "\<not> 536870912 < (x :: rat)"
  shows "- 2147483649 < x \<Longrightarrow> fits_int \<lceil>x\<rceil>" "\<not> x < 0 \<Longrightarrow> fits_int \<lfloor>x\<rfloor>"
    "\<lceil>x\<rceil> \<le> MAX_TCP_BUFFER" "\<lfloor>x\<rfloor> \<le> MAX_TCP_BUFFER"
proof -
  show c: "\<lceil>x\<rceil> \<le> MAX_TCP_BUFFER" and f: "\<lfloor>x\<rfloor> \<le> MAX_TCP_BUFFER" using assms by linarith+
  have "- 2147483649 < \<lceil>x\<rceil>" if "- 2147483649 < x" using that by linarith
  with c show "- 2147483649 < x \<Longrightarrow> fits_int \<lceil>x\<rceil>" by (simp add: fits_int_def)
  show "\<not> x < 0 \<Longrightarrow> fits_int \<lfloor>x\<rfloor>" using f by (simp add: fits_int_def)
qed

lemma keeps_port: "options_ok u p \<Longrightarrow> opt_port a p = Fine p' \<Longrightarrow> options_ok u p'"
  by (auto simp: opt_port_def Let_def split: if_splits intro!: options_ok_number numbers_ok_set)

lemma check_interval_Fine:
  "check_interval x e f p = Fine q \<longleftrightarrow> (\<exists>y. x = Number y \<and> \<not> bad_interval y \<and> q = f y)"
  by (auto simp: check_interval_def check_Fine split: double.splits)

lemma keeps_interval: "options_ok u p \<Longrightarrow> opt_interval a p = Fine p' \<Longrightarrow> options_ok u p'"
  by (auto simp: opt_interval_def check_interval_Fine intro!: options_ok_number numbers_ok_set)

lemma keeps_format: "options_ok u p \<Longrightarrow> opt_format a p = Fine p' \<Longrightarrow> options_ok u p'"
  by (auto simp: opt_format_def Let_def check_Fine settings_ok_def split: option.splits intro!: options_ok_setting)

lemma keeps_server: "options_ok u p \<Longrightarrow> opt_server p = Fine p' \<Longrightarrow> options_ok u p'"
  by (auto simp: opt_server_def options_ok_def set_role_ok split: if_splits)

lemma keeps_client: "options_ok u p \<Longrightarrow> opt_client a p = Fine p' \<Longrightarrow> options_ok u p'"
  by (auto simp: opt_client_def options_ok_def set_role_ok split: if_splits)

lemma keeps_multipath: "options_ok u p \<Longrightarrow> opt_multipath p = Fine p' \<Longrightarrow> options_ok u p'"
  by (auto simp: opt_multipath_def options_ok_def set_protocol_ok)

lemma keeps_version: "options_ok u p \<Longrightarrow> opt_version af p = Fine p' \<Longrightarrow> options_ok u p'"
  by (auto simp: opt_version_def settings_ok_def intro!: options_ok_setting)

lemma unat_word_of_int: "0 \<le> k \<Longrightarrow> k < 4294967296 \<Longrightarrow> int (unat (word_of_int k :: u32)) = k"
  by (simp add: uint_word_of_int_eq take_bit_int_eq_self)

lemma rcv_timeout_stored:
  assumes "MIN_NO_MSG_RCVD_TIMEOUT \<le> n" "n \<le> MAX_TIME * 1000"
  shows "rcv_timeout_ok (Time (word_of_int (n div 1000)) (word_of_int (n mod 1000 * 1000)))"
proof -
  have "int (unat (word_of_int (n div 1000) :: u32)) = n div 1000"
    "int (unat (word_of_int (n mod 1000 * 1000) :: u32)) = n mod 1000 * 1000"
    by (rule unat_word_of_int; use assms in linarith)+
  moreover have "1000000 * (n div 1000) + n mod 1000 * 1000 = 1000 * n" using mult_div_mod_eq [of 1000 n] by linarith
  moreover have "n mod 1000 * 1000 < 1000000" by simp
  ultimately show ?thesis using assms unfolding rcv_timeout_ok_def iperf_time.case by linarith
qed

lemma keeps_rcv_timeout: "options_ok u p \<Longrightarrow> opt_rcv_timeout a p = Fine p' \<Longrightarrow> options_ok u p'"
  using rcv_timeout_stored [of "atoi a"]
  by (auto simp: opt_rcv_timeout_def Let_def settings_ok_def split: if_splits intro!: options_ok_setting)

lemma keeps_cport: "options_ok u p \<Longrightarrow> opt_cport a p = Fine p' \<Longrightarrow> options_ok u p'"
  by (auto simp: opt_cport_def Let_def split: if_splits intro!: options_ok_number numbers_ok_set)

lemma keeps_skew: "options_ok u p \<Longrightarrow> opt_skew a p = Fine p' \<Longrightarrow> options_ok u p'"
  by (auto simp: opt_skew_def check_Fine fits_atoi intro!: options_ok_number numbers_ok_set)

lemma keeps_affinity: "options_ok u p \<Longrightarrow> opt_affinity a p = Fine p' \<Longrightarrow> options_ok u p'"
  by (auto simp: opt_affinity_def and_next_Fine check_Fine split: prod.splits option.splits
      intro!: options_ok_client options_ok_number numbers_ok_set intro: options_ok_other)

lemma shared_special:
  "option_keeps (options_ok u) (required opt_port)" "option_keeps (options_ok u) (required opt_interval)"
  "option_keeps (options_ok u) opt_format" "option_keeps (options_ok u) (plainly opt_server)"
  "option_keeps (options_ok u) (required opt_client)" "option_keeps (options_ok u) (plainly opt_multipath)"
  "option_keeps (options_ok u) (plainly (opt_version af))" "option_keeps (options_ok u) (required opt_rcv_timeout)"
  "option_keeps (options_ok u) (required opt_affinity)" "option_keeps (options_ok u) (required opt_cport)"
  "option_keeps (options_ok u) (required opt_skew)"
  by (rule option_required option_plainly option_raw, erule (1) keeps_port keeps_interval keeps_format keeps_server
      keeps_client keeps_multipath keeps_version keeps_rcv_timeout keeps_affinity keeps_cport keeps_skew)+

lemma shared_keep_ok: "\<forall>x \<in> set (both_side_options E). option_keeps (options_ok u) (snd x)"
  unfolding both_side_options_def
  apply (simp only: set_simps ball_simps insert_iff snd_conv)
  apply (intro conjI shared_special option_required option_plainly option_switch option_raw)
  apply (auto simp: option_defs and_next_Fine check_Fine Let_def intro!: options_ok_other split: if_splits)
  done

lemma server_keep_ok: "\<forall>x \<in> set (server_side_options E). option_keeps (options_ok u) (snd x)"
  unfolding server_side_options_def
  apply (simp only: set_simps ball_simps insert_iff snd_conv)
  apply (intro conjI option_required option_plainly)
  apply (auto simp: option_defs and_next_Fine check_Fine check_interval_Fine settings_ok_def split: prod.splits option.splits
      intro!: options_ok_setting)
  apply (rule options_ok_other; simp)+
  done

lemma keeps_numbers: 
  "options_ok u p \<Longrightarrow> opt_time a p = Fine p' \<Longrightarrow> options_ok u p'"
  "options_ok u p \<Longrightarrow> opt_parallel a p = Fine p' \<Longrightarrow> options_ok u p'"
  "options_ok u p \<Longrightarrow> opt_omit a p = Fine p' \<Longrightarrow> options_ok u p'"
  by (auto simp: opt_time_def opt_parallel_def opt_omit_def and_next_Fine check_Fine fits_atoi
      intro!: options_ok_client options_ok_number numbers_ok_set)

lemma keeps_settings: 
  "options_ok u p \<Longrightarrow> opt_bitrate E a p = Fine p' \<Longrightarrow> options_ok u p'"
  "options_ok u p \<Longrightarrow> opt_bytes E a p = Fine p' \<Longrightarrow> options_ok u p'"
  "options_ok u p \<Longrightarrow> opt_blockcount E a p = Fine p' \<Longrightarrow> options_ok u p'"
  "options_ok u p \<Longrightarrow> opt_mss a p = Fine p' \<Longrightarrow> options_ok u p'"
  "options_ok u p \<Longrightarrow> opt_dscp a p = Fine p' \<Longrightarrow> options_ok u p'"
  "options_ok u p \<Longrightarrow> opt_tos a p = Fine p' \<Longrightarrow> options_ok u p'"
  "options_ok u p \<Longrightarrow> opt_flowlabel a p = Fine p' \<Longrightarrow> options_ok u p'"
  "options_ok u p \<Longrightarrow> opt_no_fq_pacing p = Fine p' \<Longrightarrow> options_ok u p'"
  "options_ok u p \<Longrightarrow> opt_fq_rate E a p = Fine p' \<Longrightarrow> options_ok u p'"
  "options_ok u p \<Longrightarrow> opt_dont_fragment p = Fine p' \<Longrightarrow> options_ok u p'"
  "options_ok u p \<Longrightarrow> opt_pacing_timer E a p = Fine p' \<Longrightarrow> options_ok u p'"
  "options_ok u p \<Longrightarrow> opt_connect_timeout E a p = Fine p' \<Longrightarrow> options_ok u p'"
  using parse_qos_bounds [of "Some a"]
  by (auto simp: option_defs and_next_Fine check_Fine fits_atoi fits_to_int settings_ok_def Let_def split: prod.splits option.splits
      intro!: options_ok_client options_ok_setting)

lemma keeps_numstreams: "options_ok u p \<Longrightarrow> opt_numstreams E a p = Fine p' \<Longrightarrow> options_ok u p'"
  unfolding opt_numstreams_def
  by (erule keeps_settings(1) [rotated]) (auto simp: settings_ok_def intro!: options_ok_client options_ok_setting)

lemma window_stored:
  assumes "options_ok u p" "fits_int n" "n \<le> MAX_TCP_BUFFER \<or> n = u"
  shows "options_ok u (for_client (in_test (set_settings (\<lambda>s. s\<lparr>socket_bufsize := n\<rparr>)) p))"
  using assms by (intro options_ok_client options_ok_setting) (auto simp: settings_ok_def)

lemma keeps_window:
  "options_ok (undefined_int E) p \<Longrightarrow> opt_window E a p = Fine p' \<Longrightarrow> options_ok (undefined_int E) p'"
  using window_fits fits_to_int [of "oe_ub_int E"]
  by (auto simp: opt_window_def Let_def undefined_int_def [symmetric] split: if_splits double.splits intro!: window_stored)

lemma keeps_modes: 
  "options_ok u p \<Longrightarrow> opt_udp p = Fine p' \<Longrightarrow> options_ok u p'"
  "options_ok u p \<Longrightarrow> opt_reverse p = Fine p' \<Longrightarrow> options_ok u p'"
  "options_ok u p \<Longrightarrow> opt_bidir p = Fine p' \<Longrightarrow> options_ok u p'"
  "options_ok u p \<Longrightarrow> opt_length E a p = Fine p' \<Longrightarrow> options_ok u p'"
  by (auto simp: opt_udp_def opt_reverse_def opt_bidir_def opt_length_def options_ok_def set_protocol_ok set_reverse_ok
      set_bidirectional_ok fits_to_int split: if_splits)

lemma client_special:
  assumes "u = undefined_int E"
  shows "option_keeps (options_ok u) (required opt_time)" "option_keeps (options_ok u) (required opt_parallel)"
    "option_keeps (options_ok u) (required opt_omit)" "option_keeps (options_ok u) (required (opt_bitrate E))"
    "option_keeps (options_ok u) (required (opt_bytes E))" "option_keeps (options_ok u) (required (opt_blockcount E))"
    "option_keeps (options_ok u) (required opt_mss)" "option_keeps (options_ok u) (required opt_dscp)"
    "option_keeps (options_ok u) (required opt_tos)" "option_keeps (options_ok u) (required opt_flowlabel)"
    "option_keeps (options_ok u) (plainly opt_no_fq_pacing)" "option_keeps (options_ok u) (required (opt_fq_rate E))"
    "option_keeps (options_ok u) (plainly opt_dont_fragment)" "option_keeps (options_ok u) (required (opt_pacing_timer E))"
    "option_keeps (options_ok u) (required (opt_connect_timeout E))" "option_keeps (options_ok u) (required (opt_numstreams E))"
    "option_keeps (options_ok u) (required (opt_window E))" "option_keeps (options_ok u) (plainly opt_udp)"
    "option_keeps (options_ok u) (plainly opt_reverse)" "option_keeps (options_ok u) (plainly opt_bidir)"
    "option_keeps (options_ok u) (required (opt_length E))"
  by (rule option_required option_plainly, erule (1) keeps_numbers keeps_settings keeps_numstreams
      keeps_window [of E, folded assms] keeps_modes)+

lemma client_keep_ok:
  assumes "u = undefined_int E"
  shows "\<forall>x \<in> set (client_side_options E). option_keeps (options_ok u) (snd x)"
  unfolding client_side_options_def
  apply (simp only: set_simps ball_simps insert_iff snd_conv)
  apply (intro conjI client_special [OF assms] option_required option_plainly)
  apply (auto simp: option_defs intro!: options_ok_client options_ok_other split: if_splits)
  done

lemma map_of_tables:
  "map_of (xs @ ys @ zs) f = Some h \<Longrightarrow> (f, h) \<in> set xs \<union> set ys \<union> set zs"
  by (auto dest!: map_of_SomeD)

lemma parse_option_ok:
  assumes "u = undefined_int E" "options_ok u p" "parse_option E f a p = Fine p'"
  shows "options_ok u p'"
proof -
  obtain h where h: "map_of (both_side_options E @ server_side_options E @ client_side_options E) f = Some h" "h a p = Fine p'"
    using assms(3) by (auto simp: parse_option_def split: option.splits)
  have "option_keeps (options_ok u) h"
    using map_of_tables [OF h(1)] shared_keep_ok [of E u] server_keep_ok [of E u] client_keep_ok [OF assms(1)] by auto
  then show ?thesis using assms(2) h(2) by (auto simp: option_keeps_def)
qed

lemma parse_options_ok:
  "parse_options E args p = Fine p' \<Longrightarrow> u = undefined_int E \<Longrightarrow> options_ok u p \<Longrightarrow> options_ok u p'"
  by (induction E args p rule: parse_options.induct) (auto simp: and_next_Fine dest: parse_option_ok [OF refl])

section \<open>Options of one side\<close>

text \<open>The flags that exclude a role are never taken back.\<close>

definition flags_stay :: "(string option \<Rightarrow> parsing \<Rightarrow> parsed_options) \<Rightarrow> bool" where
  "flags_stay h \<longleftrightarrow> (\<forall>a p p'. h a p = Fine p' \<longrightarrow> (client_flag p \<longrightarrow> client_flag p') \<and> (server_flag p \<longrightarrow> server_flag p'))"

definition sets_client :: "(string option \<Rightarrow> parsing \<Rightarrow> parsed_options) \<Rightarrow> bool" where
  "sets_client h \<longleftrightarrow> (\<forall>a p p'. h a p = Fine p' \<longrightarrow> client_flag p')"

definition sets_server :: "(string option \<Rightarrow> parsing \<Rightarrow> parsed_options) \<Rightarrow> bool" where
  "sets_server h \<longleftrightarrow> (\<forall>a p p'. h a p = Fine p' \<longrightarrow> server_flag p')"

lemmas flag_defs = option_defs required_def plainly_def switch_def and_next_Fine check_Fine check_interval_Fine Let_def

lemma shared_flags: "\<forall>x \<in> set (both_side_options E). flags_stay (snd x)"
  unfolding both_side_options_def
  by (simp only: set_simps ball_simps insert_iff snd_conv)
    (auto simp: flag_defs flags_stay_def split: if_splits prod.splits option.splits double.splits)

lemma server_flags: "\<forall>x \<in> set (server_side_options E). flags_stay (snd x) \<and> sets_server (snd x)"
  unfolding server_side_options_def
  by (simp only: set_simps ball_simps insert_iff snd_conv)
    (auto simp: flag_defs flags_stay_def sets_server_def split: if_splits prod.splits option.splits)

lemma client_flags: "\<forall>x \<in> set (client_side_options E). flags_stay (snd x) \<and> sets_client (snd x)"
  unfolding client_side_options_def
  by (simp only: set_simps ball_simps insert_iff snd_conv)
    (auto simp: flag_defs flags_stay_def sets_client_def split: if_splits prod.splits option.splits double.splits)

lemma tables_distinct: "distinct (map fst (both_side_options E @ server_side_options E @ client_side_options E))"
  by (simp add: both_side_options_def server_side_options_def client_side_options_def)

lemma table_option:
  assumes "parse_option E f a p = Fine p'"
  obtains h where "(f, h) \<in> set (both_side_options E) \<union> set (server_side_options E) \<union> set (client_side_options E)" "h a p = Fine p'"
proof -
  obtain h where h: "map_of (both_side_options E @ server_side_options E @ client_side_options E) f = Some h" "h a p = Fine p'"
    using assms by (auto simp: parse_option_def split: option.splits)
  show thesis by (rule that [OF map_of_tables [OF h(1)] h(2)])
qed

lemma option_flags:
  assumes "parse_option E f a p = Fine p'"
  shows "client_flag p \<longrightarrow> client_flag p'" "server_flag p \<longrightarrow> server_flag p'"
    "f \<in> fst ` set (client_side_options E) \<Longrightarrow> client_flag p'" "f \<in> fst ` set (server_side_options E) \<Longrightarrow> server_flag p'"
proof -
  from assms obtain h where h: "(f, h) \<in> set (both_side_options E) \<union> set (server_side_options E) \<union> set (client_side_options E)" "h a p = Fine p'"
    by (rule table_option)
  then have "flags_stay h" using shared_flags [of E] server_flags [of E] client_flags [of E] by fastforce
  with h(2) show "client_flag p \<longrightarrow> client_flag p'" "server_flag p \<longrightarrow> server_flag p'" by (auto simp: flags_stay_def)
  have d: "fst ` set (both_side_options E) \<inter> fst ` set (server_side_options E) = {}" "fst ` set (both_side_options E) \<inter> fst ` set (client_side_options E) = {}"
    "fst ` set (server_side_options E) \<inter> fst ` set (client_side_options E) = {}"
    using tables_distinct [of E] by auto
  have m: "f \<in> fst ` set xs" if "(f, h) \<in> set xs" for xs :: "(flag \<times> (string option \<Rightarrow> parsing \<Rightarrow> parsed_options)) list"
    using that by (force simp: image_iff)
  show "client_flag p'" if "f \<in> fst ` set (client_side_options E)"
  proof -
    have "(f, h) \<in> set (client_side_options E)" using h(1) that d m by blast
    then show ?thesis using client_flags [of E] h(2) by (fastforce simp: sets_client_def)
  qed
  show "server_flag p'" if "f \<in> fst ` set (server_side_options E)"
  proof -
    have "(f, h) \<in> set (server_side_options E)" using h(1) that d m by blast
    then show ?thesis using server_flags [of E] h(2) by (fastforce simp: sets_server_def)
  qed
qed

lemma parse_options_flags:
  "parse_options E args p = Fine p' \<Longrightarrow> (client_flag p \<longrightarrow> client_flag p') \<and> (server_flag p \<longrightarrow> server_flag p')
    \<and> (\<forall>x \<in> set args. (fst x \<in> fst ` set (client_side_options E) \<longrightarrow> client_flag p') \<and> (fst x \<in> fst ` set (server_side_options E) \<longrightarrow> server_flag p'))"
proof (induction E args p rule: parse_options.induct)
  case (2 E f a args p)
  from 2(2) obtain q where q: "parse_option E f a p = Fine q" "parse_options E args q = Fine p'" by (auto simp: and_next_Fine)
  from 2(1) [OF q(2)] option_flags [OF q(1)] show ?case by auto
qed simp

section \<open>Accepted options\<close>

text \<open>What holds of a test whose options have been accepted.\<close>

definition checked_options :: "int \<Rightarrow> test \<Rightarrow> bool" where
  "checked_options u t \<longleftrightarrow> numbers_ok t \<and> settings_ok u (settings t) \<and> directed t
     \<and> test_role t \<in> {CHR ''c'', CHR ''s''} \<and> protocol t \<in> {Ptcp, Pudp}
     \<and> \<not> (reverse t \<and> bidirectional t) \<and> (test_role t = CHR ''s'' \<longrightarrow> \<not> reverse t \<and> \<not> bidirectional t)
     \<and> fits_int (blksize (settings t)) \<and> blksize (settings t) \<le> MAX_BLOCKSIZE
     \<and> (protocol t = Ptcp \<longrightarrow> 0 < blksize (settings t))
     \<and> (protocol t = Pudp \<and> 0 < blksize (settings t) \<longrightarrow> blksize (settings t) \<in> {MIN_UDP_BLOCKSIZE..MAX_UDP_BLOCKSIZE})
     \<and> (s_bytes (settings t) = 0 \<or> s_blocks (settings t) = 0)
     \<and> (s_bytes (settings t) \<noteq> 0 \<or> s_blocks (settings t) \<noteq> 0 \<longrightarrow> duration t = 0)"

lemma check_roles_Fine: "check_roles p = Fine q \<Longrightarrow> q = p \<and> (test_role (o_test p) = CHR ''c'' \<longrightarrow> \<not> server_flag p)
    \<and> (test_role (o_test p) = CHR ''s'' \<longrightarrow> \<not> client_flag p)"
  by (auto simp: check_roles_def Let_def split: if_splits)

lemma client_auth_ok: "options_ok u p \<Longrightarrow> client_auth E p = Fine q \<Longrightarrow> options_ok u q \<and> client_flag q = client_flag p
    \<and> test_role (o_test q) = test_role (o_test p)"
  by (auto simp: client_auth_def Let_def settings_ok_def set_settings_def split: if_splits option.splits intro!: options_ok_setting)

lemma skew_default:
  "numbers_ok t \<Longrightarrow> numbers_ok (t\<lparr>server_rsa_private_key := k,
     server_skew_threshold := (if server_skew_threshold t = 0 then 10 else server_skew_threshold t)\<rparr>)"
  by (simp add: numbers_ok_def fits_int_def)

lemma server_auth_ok: "options_ok u p \<Longrightarrow> server_auth E p = Fine q \<Longrightarrow> options_ok u q \<and> client_flag q = client_flag p
    \<and> test_role (o_test q) = test_role (o_test p)"
  by (auto simp: server_auth_def Let_def split: option.splits if_split_asm intro!: options_ok_number skew_default)

lemma settings_ok_other [simp]:
  "settings_ok u (s\<lparr>blksize := n\<rparr>) = settings_ok u s" "settings_ok u (s\<lparr>rate := r\<rparr>) = settings_ok u s"
  "settings_ok u (s\<lparr>bitrate_limit_stats_per_interval := n\<rparr>) = settings_ok u s"
  by (simp_all add: settings_ok_def)

lemma directed_other [simp]:
  "directed (t\<lparr>duration := n\<rparr>) = directed t" "directed (set_settings f t) = directed t"
  by (simp_all add: directed_def set_settings_def)

lemma same_role_set [simp]:
  "test_role (set_settings f t) = test_role t" "protocol (set_settings f t) = protocol t"
  "duration (set_settings f t) = duration t"
  by (simp_all add: set_settings_def)

definition length_ok :: "test \<Rightarrow> bool" where
  "length_ok t \<longleftrightarrow> fits_int (blksize (settings t)) \<and> blksize (settings t) \<le> MAX_BLOCKSIZE
     \<and> (protocol t = Ptcp \<longrightarrow> 0 < blksize (settings t))
     \<and> (protocol t = Pudp \<and> 0 < blksize (settings t) \<longrightarrow> blksize (settings t) \<in> {MIN_UDP_BLOCKSIZE..MAX_UDP_BLOCKSIZE})"

definition default_length :: "parsing \<Rightarrow> int" where
  "default_length p = (if o_blksize p = 0 then
     (if protocol (o_test p) = Pudp then 0 else if protocol (o_test p) = Psctp then DEFAULT_SCTP_BLKSIZE else DEFAULT_TCP_BLKSIZE)
     else o_blksize p)"

lemma block_size_Fine:
  assumes "block_size p = Fine q"
  shows "q = (in_test (set_settings (\<lambda>s. s\<lparr>blksize := default_length p\<rparr>)) p)\<lparr>o_blksize := default_length p\<rparr>"
    "\<not> ((protocol (o_test p) \<noteq> Pudp \<and> default_length p \<le> 0) \<or> MAX_BLOCKSIZE < default_length p)"
    "\<not> (protocol (o_test p) = Pudp \<and> 0 < default_length p
        \<and> (default_length p < MIN_UDP_BLOCKSIZE \<or> MAX_UDP_BLOCKSIZE < default_length p))"
  using assms unfolding block_size_def Let_def default_length_def [symmetric] by (simp_all only: wrong_not_Fine parsed_options.inject not_False_eq_True split: if_split_asm)

lemma block_size_ok:
  assumes "block_size p = Fine q" "options_ok u p"
  shows "options_ok u q" "client_flag q = client_flag p" "test_role (o_test q) = test_role (o_test p)" "length_ok (o_test q)"
proof -
  have "fits_int (default_length p)" using assms(2) by (simp add: default_length_def options_ok_def) (simp add: fits_int_def)
  moreover note block_size_Fine [OF assms(1)]
  ultimately show "options_ok u q" "client_flag q = client_flag p" "test_role (o_test q) = test_role (o_test p)" "length_ok (o_test q)"
    using assms(2) by (simp_all add: options_ok_def length_ok_def) auto
qed

lemma default_rate_ok:
  "options_ok u (default_rate p) = options_ok u p" "client_flag (default_rate p) = client_flag p"
  "test_role (o_test (default_rate p)) = test_role (o_test p)" "length_ok (o_test (default_rate p)) = length_ok (o_test p)"
  by (simp_all add: default_rate_def options_ok_def length_ok_def)

lemma end_conditions_Fine:
  assumes "end_conditions p = Fine q"
  shows "q = (if (s_bytes (settings (o_test p)) \<noteq> 0 \<or> s_blocks (settings (o_test p)) \<noteq> 0) \<and> \<not> duration_flag p
      then in_test (\<lambda>t. t\<lparr>duration := 0\<rparr>) p else p)" (is "q = ?p")
    "s_bytes (settings (o_test p)) = 0 \<or> s_blocks (settings (o_test p)) = 0"
    "duration_flag p \<Longrightarrow> s_bytes (settings (o_test p)) = 0 \<and> s_blocks (settings (o_test p)) = 0"
proof -
  define u v where "u = s_bytes (settings (o_test p))" and "v = s_blocks (settings (o_test p))"
  have "duration_flag ?p = duration_flag p" by simp
  moreover have "q = ?p \<and> \<not> (duration_flag ?p \<and> u \<noteq> 0 \<or> duration_flag ?p \<and> v \<noteq> 0 \<or> u \<noteq> 0 \<and> v \<noteq> 0)"
    using assms unfolding end_conditions_def Let_def check_Fine u_def v_def by blast
  ultimately have "q = ?p" "u = 0 \<or> v = 0" "duration_flag p \<Longrightarrow> u = 0 \<and> v = 0" by blast+
  then show "q = ?p" "s_bytes (settings (o_test p)) = 0 \<or> s_blocks (settings (o_test p)) = 0"
    "duration_flag p \<Longrightarrow> s_bytes (settings (o_test p)) = 0 \<and> s_blocks (settings (o_test p)) = 0"
    unfolding u_def v_def by blast+
qed

lemma end_conditions_ok:
  assumes "end_conditions p = Fine q" "options_ok u p"
  shows "options_ok u q" "client_flag q = client_flag p" "test_role (o_test q) = test_role (o_test p)"
    "length_ok (o_test p) \<Longrightarrow> length_ok (o_test q)" "s_bytes (settings (o_test q)) = 0 \<or> s_blocks (settings (o_test q)) = 0"
    "s_bytes (settings (o_test q)) \<noteq> 0 \<or> s_blocks (settings (o_test q)) \<noteq> 0 \<longrightarrow> duration (o_test q) = 0"
proof -
  note e = end_conditions_Fine [OF assms(1)]
  have "options_ok u (in_test (\<lambda>t. t\<lparr>duration := 0\<rparr>) p)"
    using assms(2) by (intro options_ok_number numbers_ok_set) (simp_all add: fits_int_def)
  with assms(2) show "options_ok u q" by (simp add: e(1))
  show "client_flag q = client_flag p" "test_role (o_test q) = test_role (o_test p)" by (simp_all add: e(1))
  show "length_ok (o_test p) \<Longrightarrow> length_ok (o_test q)" by (simp add: e(1) length_ok_def)
  show "s_bytes (settings (o_test q)) = 0 \<or> s_blocks (settings (o_test q)) = 0"
    "s_bytes (settings (o_test q)) \<noteq> 0 \<or> s_blocks (settings (o_test q)) \<noteq> 0 \<longrightarrow> duration (o_test q) = 0"
    using e(2,3) by (auto simp: e(1))
qed

lemma window_keeps:
  "checked_options u (o_test (total_rate_window E p)) = checked_options u (o_test p)"
  by (simp add: total_rate_window_def checked_options_def Let_def)

text \<open>The bitrate limit is checked over at least one interval, if there are intervals.\<close>

definition valid_options :: "int \<Rightarrow> test \<Rightarrow> bool" where
  "valid_options u t \<longleftrightarrow> checked_options u t
     \<and> (bitrate_limit_interval (settings t) \<noteq> 0 \<and> stats_interval t \<noteq> 0 \<longrightarrow> 1 \<le> bitrate_limit_stats_per_interval (settings t))"

lemma intervals_per_window: "0 < y \<Longrightarrow> y < x \<Longrightarrow> 1 \<le> rounded (f64 (x / y))"
proof -
  assume "0 < y" "y < x"
  then have "f64 1 \<le> f64 (x / y)" by (intro f64_mono) simp
  then have "1 \<le> f64 (x / y)" using f64_int [of 1] by simp
  then show ?thesis unfolding rounded_def by (simp add: le_floor_iff)
qed

lemma good_interval: "\<not> bad_interval y \<Longrightarrow> y \<noteq> 0 \<Longrightarrow> 0 < y"
proof -
  have "f64 (1 / 16) \<le> MIN_INTERVAL" unfolding MIN_INTERVAL_def by (rule f64_mono) simp
  moreover have "f64 (1 / 16) = 1 / 16" using f64_pos_grid [of 1 "- 4"] by (simp add: f64_def pow2_def)
  ultimately have "0 < MIN_INTERVAL" by simp
  then show "\<not> bad_interval y \<Longrightarrow> y \<noteq> 0 \<Longrightarrow> 0 < y" by (auto simp: bad_interval_def)
qed

lemma window_same:
  "bitrate_limit_interval (settings (o_test (total_rate_window E p))) = bitrate_limit_interval (settings (o_test p))"
  "stats_interval (o_test (total_rate_window E p)) = stats_interval (o_test p)"
  by (simp_all add: total_rate_window_def set_settings_def Let_def)

lemma window_at_least:
  assumes "\<not> bad_interval (stats_interval (o_test p))"
    "bitrate_limit_interval (settings (o_test p)) \<noteq> 0" "stats_interval (o_test p) \<noteq> 0"
  shows "1 \<le> bitrate_limit_stats_per_interval (settings (o_test (total_rate_window E p)))"
  using assms good_interval [OF assms(1,3)] intervals_per_window
  by (simp add: total_rate_window_def Let_def double_div_def set_settings_def)

lemma check_options_valid:
  assumes "options_ok u p" "check_options E p = Fine q"
  shows "valid_options u (o_test q) \<and> (test_role (o_test q) = CHR ''s'' \<longrightarrow> \<not> client_flag p)
    \<and> (test_role (o_test q) = CHR ''c'' \<longrightarrow> \<not> server_flag p)"
proof -
  obtain p1 p2 p3 p4 p5 p6 where r: "check_roles p = Fine p1" "client_auth E p1 = Fine p2" "server_auth E p2 = Fine p3"
      "block_size p3 = Fine p4" "end_conditions (default_rate p4) = Fine p5" "need_role p5 = Fine p6" "q = total_rate_window E p6"
    using assms(2) by (auto simp: check_options_def and_next_Fine)
  note role = check_roles_Fine [OF r(1)]
  have p6: "p6 = p5" "test_role (o_test p5) \<in> {CHR ''c'', CHR ''s''}" using r(6) by (auto simp: need_role_def check_Fine)
  have 2: "options_ok u p2 \<and> client_flag p2 = client_flag p \<and> test_role (o_test p2) = test_role (o_test p)"
    using client_auth_ok [OF _ r(2)] role assms(1) by simp
  then have 3: "options_ok u p3 \<and> client_flag p3 = client_flag p \<and> test_role (o_test p3) = test_role (o_test p)"
    using server_auth_ok [OF conjunct1 [OF 2] r(3)] by simp
  note 4 = block_size_ok [OF r(4) conjunct1 [OF 3]]
  note 5 = end_conditions_ok [OF r(5), unfolded default_rate_ok, OF 4(1)]
  have same: "test_role (o_test p5) = test_role (o_test p)" "client_flag p5 = client_flag p" using 3 4(2,3) 5(2,3) by simp_all
  have ok: "checked_options u (o_test p5)"
    using 5(1,5,6) 5(4) [OF 4(4)] p6(2) same role
    by (auto simp: checked_options_def options_ok_def mode_ok_def length_ok_def)
  then have "\<not> bad_interval (stats_interval (o_test p5))" by (simp add: checked_options_def numbers_ok_def)
  with ok have "valid_options u (o_test q)"
    unfolding valid_options_def r(7) p6(1) window_keeps window_same by (blast intro: window_at_least)
  moreover have "test_role (o_test q) = test_role (o_test p5)" by (simp add: r(7) p6(1) total_rate_window_def Let_def)
  ultimately show ?thesis using same role by simp
qed

lemma bad_interval_int: "\<not> bad_interval 1" "\<not> bad_interval 5"
proof -
  have "MIN_INTERVAL \<le> f64 1" unfolding MIN_INTERVAL_def by (rule f64_mono) simp
  moreover have "f64 1 = 1" using f64_int [of 1] by simp
  ultimately show "\<not> bad_interval 1" "\<not> bad_interval 5" by (simp_all add: bad_interval_def)
qed

lemma starts_ok: "options_ok u (start_parsing (iperf_defaults (iperf_new_test w tms junk)))"
  by (simp add: options_ok_def start_parsing_def numbers_ok_def settings_ok_def mode_ok_def fits_int_def bad_interval_int rcv_timeout_ok_def
     iperf_defaults_def iperf_new_test_def default_settings_def zero_settings_def set_protocol_def check_sender_has_retransmits_def Let_def)

lemma accepted_options:
  assumes "iperf_parse_arguments E args (iperf_defaults (iperf_new_test w tms junk)) = Fine p"
  shows "valid_options (undefined_int E) (o_test p)"
    "test_role (o_test p) = CHR ''s'' \<longrightarrow> (\<forall>x \<in> set args. fst x \<notin> fst ` set (client_side_options E))"
    "test_role (o_test p) = CHR ''c'' \<longrightarrow> (\<forall>x \<in> set args. fst x \<notin> fst ` set (server_side_options E))"
proof -
  obtain q where q: "parse_options E args (start_parsing (iperf_defaults (iperf_new_test w tms junk))) = Fine q" "check_options E q = Fine p"
    using assms(1) by (auto simp: iperf_parse_arguments_def and_next_Fine)
  note v = check_options_valid [OF parse_options_ok [OF q(1) refl starts_ok] q(2)]
  with parse_options_flags [OF q(1)]
  show "valid_options (undefined_int E) (o_test p)"
    "test_role (o_test p) = CHR ''s'' \<longrightarrow> (\<forall>x \<in> set args. fst x \<notin> fst ` set (client_side_options E))"
    "test_role (o_test p) = CHR ''c'' \<longrightarrow> (\<forall>x \<in> set args. fst x \<notin> fst ` set (server_side_options E))" by auto
qed

text \<open>Where the numbers of 64 bits are small enough, a client's options can be sent.\<close>

lemma valid_sendable:
  assumes "valid_options u t" "fits_double (s_bytes (settings t))" "fits_double (s_blocks (settings t))"
    "fits_double (rate (settings t))" "fits_double (fqrate (settings t))" "blksize (settings t) \<noteq> 0" "pacing_timer (settings t) \<noteq> 0"
  shows "sendable t"
proof -
  have n: "numbers_ok t" and o: "settings_ok u (settings t)" and "protocol t \<in> {Ptcp, Pudp}" "fits_int (blksize (settings t))"
    using assms(1) by (simp_all add: valid_options_def checked_options_def)
  moreover have "fits_int (omit t) \<and> fits_int (server_affinity t) \<and> fits_int (duration t) \<and> fits_int (num_streams t)"
    using n by (simp add: numbers_ok_def fits_int_def)
  moreover have "fits_int (mss (settings t)) \<and> fits_int (socket_bufsize (settings t)) \<and> fits_int (pacing_timer (settings t))"
    using o by (simp add: settings_ok_def)
  moreover have "fits_int (burst (settings t)) \<and> fits_int (tos (settings t)) \<and> fits_int (flowlabel (settings t))"
    using o by (simp add: settings_ok_def fits_int_def)
  moreover have "fits_int (dont_fragment (settings t))" using o by (auto simp: settings_ok_def fits_int_def)
  ultimately show ?thesis using assms(2-7) unfolding sendable_def in_range_def by blast
qed

section \<open>Command lines\<close>

lemma no_words:
  "begins_with ''infinity'' s = False \<Longrightarrow> begins_with ''inf'' s = False \<Longrightarrow> begins_with ''nan'' s = False
    \<Longrightarrow> begins_with ''0x'' s = False \<Longrightarrow> scan_word neg s = None \<and> scan_hex neg s = None"
  by (simp add: scan_word_def scan_hex_def)

lemmas scan_defs = skip_space_def isspace_def strtod_def scan_sign_def is_digit_def scan_fraction_def
  scan_exponent_def digits_value_def pow10_def

lemma plain_examples:
  "scan_word neg ''4G'' = None \<and> scan_hex neg ''4G'' = None" "scan_word neg ''0.5'' = None \<and> scan_hex neg ''0.5'' = None"
  "scan_word neg ''60'' = None \<and> scan_hex neg ''60'' = None"
  by (rule no_words; code_simp)+

lemma not_inf: "\<bar>x\<bar> < 1000000000000000 \<Longrightarrow> finite_or_not x = Number x"
proof -
  have "(1000000000000000 :: rat) \<le> 2 ^ 1024" by simp
  then show "\<bar>x\<bar> < 1000000000000000 \<Longrightarrow> finite_or_not x = Number x" unfolding finite_or_not_def isinf_def by simp
qed

lemma f64_examples: "f64 4 = 4" "f64 60 = 60" "f64 (1 / 2) = 1 / 2" "f64 120 = 120" "f64 4294967296 = 4294967296" "f64 4000000000 = 4000000000"
  using f64_int [of 4] f64_int [of 60] f64_int [of 120] f64_int [of 4294967296] f64_int [of 4000000000] f64_pos_grid [of 1 "- 1"]
  by (simp_all add: f64_def pow2_def)

lemma scan_examples:
  "scan_lf ''4G'' = Some (Number 4, ''G'')" "scan_lf ''0.5'' = Some (Number (1 / 2), [])" "scan_lf ''60'' = Some (Number 60, [])"
  by (simp_all add: scan_lf_def plain_examples scan_defs f64_examples not_inf)

lemma scan_nan: "scan_lf ''nan'' = Some (NaN, [])"
  by code_simp

lemma four_giga: "unit_atoi ub junk ''4G'' = 4294967296"
  by (simp add: unit_atoi_def unit_value_def unit_scan_def unit_factor_def KILO_UNIT_def cast_u64_def scan_examples f64_examples times_def finite_value_def not_inf)

lemma intervals: "\<not> bad_interval (1 / 2)" "\<not> bad_interval 60"
proof -
  have "MIN_INTERVAL \<le> f64 (1 / 2)" unfolding MIN_INTERVAL_def by (rule f64_mono) simp
  then show "\<not> bad_interval (1 / 2)" "\<not> bad_interval 60" by (simp_all add: bad_interval_def f64_examples)
qed

lemmas blank_fields = blank_test_def iperf_defaults_def iperf_new_test_def default_settings_def zero_settings_def set_protocol_def
  check_sender_has_retransmits_def iperf_set_test_role_def has_tcpinfo_retransmits_def Let_def

lemma rate_4G: "cast_u64 ub (finite_value (unit_atof_rate junk ''4G'')) = 4000000000"
  by (simp add: unit_atof_rate_def unit_value_def unit_scan_def unit_factor_def KILO_RATE_UNIT_def cast_u64_def scan_examples f64_examples times_def finite_value_def not_inf)

lemma window_example:
  "\<exists>p. iperf_parse_arguments E [(Letter CHR ''s'', None), (Letter CHR ''i'', Some ''0.5''),
      (Code OPT_SERVER_BITRATE_LIMIT, Some ''4G/60'')] (blank_test []) = Fine p
    \<and> bitrate_limit (settings (o_test p)) = 4000000000 \<and> bitrate_limit_stats_per_interval (settings (o_test p)) = 120
    \<and> length (bitrate_limit_traffic (o_test p)) = 60 \<and> \<not> test_done (o_test p)
    \<and> bitrate_limit_last_index (o_test p) = 0 \<and> bitrate_limit_stats_count (o_test p) = 0"
  by (simp add: iperf_parse_arguments_def parse_option_def both_side_options_def server_side_options_def client_side_options_def
      and_next_def required_def plainly_def opt_server_def opt_interval_def opt_bitrate_limit_def cut_at_def atof_def check_interval_def
      scan_examples f64_examples intervals rate_4G start_parsing_def blank_fields check_options_def check_roles_def
      client_auth_def server_auth_def block_size_def default_rate_def end_conditions_def check_def need_role_def
      total_rate_window_def in_test_def for_server_def set_settings_def double_div_def rounded_def)
    (rule floor_unique; simp)

text \<open>An interval that is not a number passes its check: \<open>-i nan\<close> is not refused.\<close>

lemma nan_interval_accepted: "opt_interval ''nan'' p = Interval_NaN"
  by (simp add: opt_interval_def check_interval_def atof_def scan_nan)

end
