(* ===== verification/Errors.thy ===== *)
theory Errors
  imports Options
begin

text \<open>
  \<open>iperf_strerror\<close> of \<open>iperf/src/iperf_error.c\<close>: the message for an error code, to which the message
  of the system or of the resolver is appended. The messages are a table: the text, and the two
  local flags that ask for the message of \<open>strerror\<close> (\<open>perr\<close>) and \<open>gai_strerror\<close> (\<open>herr\<close>), which are
  parameters. At the end: which errors the options are rejected with.
\<close>

section \<open>The messages\<close>

definition option_messages :: "(int \<times> string \<times> bool \<times> bool) list" where
  "option_messages = [
     (IENONE, ''no error'', False, False),
     (IESERVCLIENT, ''cannot be both server and client'', False, False),
     (IENOROLE, ''must either be a client (-c) or server (-s)'', False, False),
     (IESERVERONLY, ''some option you are trying to set is server only'', False, False),
     (IECLIENTONLY, ''some option you are trying to set is client only'', False, False),
     (IEDURATION, ''test duration too long (maximum = '' @ show_int MAX_TIME @ '' seconds)'', False, False),
     (IENUMSTREAMS, ''number of parallel streams too large (maximum = '' @ show_int MAX_STREAMS @ '')'', False, False),
     (IEBLOCKSIZE, ''block size too large (maximum = '' @ show_int MAX_BLOCKSIZE @ '' bytes)'', False, False),
     (IEBUFSIZE, ''socket buffer size too large (maximum = '' @ show_int MAX_TCP_BUFFER @ '' bytes)'', False, False),
     (IEINTERVAL, ''invalid report interval (min = '' @ format_g 6 MIN_INTERVAL @ '', max = '' @ format_g 6 60 @ '' seconds)'', False, False),
     (IEBIND, ''--bind must be specified to use --cport'', False, False),
     (IEUDPBLOCKSIZE, ''block size invalid (minimum = '' @ show_int MIN_UDP_BLOCKSIZE @ '' bytes, maximum = '' @ show_int MAX_UDP_BLOCKSIZE @ '' bytes)'', False, False),
     (IEBADTOS, ''bad TOS value (must be between 0 and 255 inclusive)'', False, False),
     (IESETCLIENTAUTH, ''you must specify a username, password, and path to a valid RSA public key'', False, False),
     (IESETSERVERAUTH, ''you must specify a path to a valid RSA private key and a user credential file'', False, False),
     (IEBADFORMAT, ''bad format specifier (valid formats are in the set [kmgtKMGT])'', False, False),
     (IEBADPORT, ''port number must be between 1 and 65535 inclusive'', False, False),
     (IEMSS, ''TCP MSS too large (maximum = '' @ show_int MAX_MSS @ '' bytes)'', False, False),
     (IENOSENDFILE, ''this OS does not support sendfile'', False, False),
     (IEOMIT, ''bogus value for --omit'', False, False),
     (IEUNIMP, ''an option you are trying to set is not implemented yet'', False, False),
     (IEFILE, ''unable to open -F file'', True, False),
     (IEBURST, ''invalid burst count (maximum = '' @ show_int MAX_BURST @ '')'', False, False),
     (IEENDCONDITIONS, ''only one test end condition (-t, -n, -k) may be specified'', False, False),
     (IELOGFILE, ''unable to open log file'', True, False),
     (IENOSCTP, ''no SCTP support available'', False, False),
     (IENEWTEST, ''unable to create a new test'', True, False),
     (IEINITTEST, ''test initialization failed'', True, False),
     (IEAUTHTEST, ''test authorization failed'', False, False),
     (IELISTEN, ''unable to start listener for connections'', True, True),
     (IECONNECT, ''unable to connect to server'', True, True),
     (IEACCEPT, ''unable to accept connection from client'', True, True),
     (IESENDCOOKIE, ''unable to send cookie to server'', True, False),
     (IERECVCOOKIE, ''unable to receive cookie at server'', True, False)]"

definition control_messages :: "(int \<times> string \<times> bool \<times> bool) list" where
  "control_messages = [
     (IECTRLWRITE, ''unable to write to the control socket'', True, False),
     (IECTRLREAD, ''unable to read from the control socket'', True, False),
     (IECTRLCLOSE, ''control socket has closed unexpectedly'', False, False),
     (IEMESSAGE, ''received an unknown control message'', False, False),
     (IESENDMESSAGE, ''unable to send control message'', True, False),
     (IERECVMESSAGE, ''unable to receive control message'', True, False),
     (IESENDPARAMS, ''unable to send parameters to server'', True, False),
     (IERECVPARAMS, ''unable to receive parameters from client'', True, False),
     (IEPACKAGERESULTS, ''unable to package results'', True, False),
     (IESENDRESULTS, ''unable to send results'', True, False),
     (IERECVRESULTS, ''unable to receive results'', True, False),
     (IESELECT, ''select failed'', True, False),
     (IECLIENTTERM, ''the client has terminated'', False, False),
     (IESERVERTERM, ''the server has terminated'', False, False),
     (IEACCESSDENIED, ''the server is busy running a test. try again later'', False, False),
     (IESETNODELAY, ''unable to set TCP/SCTP NODELAY'', True, False),
     (IESETMSS, ''unable to set TCP/SCTP MSS'', True, False),
     (IESETBUF, ''unable to set socket buffer size'', True, False),
     (IESETTOS, ''unable to set IP TOS'', True, False),
     (IESETCOS, ''unable to set IPv6 traffic class'', True, False),
     (IESETFLOW, ''unable to set IPv6 flow label'', False, False),
     (IEREUSEADDR, ''unable to reuse address on socket'', True, False),
     (IENONBLOCKING, ''unable to set socket to non-blocking'', True, False),
     (IESETWINDOWSIZE, ''unable to set socket window size'', True, False),
     (IEPROTOCOL, ''protocol does not exist'', False, False),
     (IEAFFINITY, ''unable to set CPU affinity'', True, False),
     (IERCVTIMEOUT, ''receive timeout value is incorrect or not in range'', True, False),
     (IERVRSONLYRCVTIMEOUT, ''client receive timeout is valid only in receiving mode'', True, False),
     (IEDAEMON, ''unable to become a daemon'', True, False),
     (IECREATESTREAM, ''unable to create a new stream'', True, True),
     (IEINITSTREAM, ''unable to initialize stream'', True, True),
     (IESTREAMLISTEN, ''unable to start stream listener'', True, True),
     (IESTREAMCONNECT, ''unable to connect stream'', True, True),
     (IESTREAMACCEPT, ''unable to accept stream connection'', True, False)]"

definition stream_messages :: "(int \<times> string \<times> bool \<times> bool) list" where
  "stream_messages = [
     (IESTREAMWRITE, ''unable to write to stream socket'', True, False),
     (IESTREAMREAD, ''unable to read from stream socket'', True, False),
     (IESTREAMCLOSE, ''stream socket has closed unexpectedly'', False, False),
     (IESTREAMID, ''stream has an invalid id'', False, False),
     (IENEWTIMER, ''unable to create new timer'', True, False),
     (IEUPDATETIMER, ''unable to update timer'', True, False),
     (IESETCONGESTION, ''unable to set TCP_CONGESTION: Supplied congestion control algorithm not supported on this host'', False, False),
     (IEPIDFILE, ''unable to write PID file'', True, False),
     (IEV6ONLY, ''Unable to set/reset IPV6_V6ONLY'', True, False),
     (IESETSCTPDISABLEFRAG, ''unable to set SCTP_DISABLE_FRAGMENTS'', True, False),
     (IESETSCTPNSTREAM, ''unable to set SCTP_INIT num of SCTP streams'' @ [newline], True, False),
     (IESETPACING, ''unable to set socket pacing'', True, False),
     (IESETBUF2, ''socket buffer size not set correctly'', False, False),
     (IEREVERSEBIDIR, ''cannot be both reverse and bidirectional'', False, False),
     (IETOTALRATE, ''total required bandwidth is larger than server limit'', False, False),
     (IESKEWTHRESHOLD, ''skew threshold must be a positive number'', False, False),
     (IEIDLETIMEOUT, ''idle timeout parameter is not positive or larget then allowed limit'', False, False),
     (IENOMSG, ''idle timeout for receiving data'', False, False),
     (IESETDONTFRAGMENT, ''unable to set IP Do-Not-Fragment flag'', False, False)]"

definition messages :: "(int \<times> string \<times> bool \<times> bool) list" where
  "messages = option_messages @ control_messages @ stream_messages"

section \<open>The error text\<close>

text \<open>\<open>strncat\<close> into a buffer of 256 bytes.\<close>

definition append_text :: "string \<Rightarrow> string \<Rightarrow> string" where
  "append_text errstr s = errstr @ take (256 - length errstr - 1) s"

definition message_of :: "int \<Rightarrow> string \<times> bool \<times> bool" where
  "message_of int_errno = (case map_of messages int_errno of Some m \<Rightarrow> m
     | None \<Rightarrow> (''int_errno='' @ show_int int_errno, True, False))"

definition iperf_strerror :: "(int \<Rightarrow> string) \<Rightarrow> (int \<Rightarrow> string) \<Rightarrow> int \<Rightarrow> 's os_scheme \<Rightarrow> string \<times> 's os_scheme" where
  "iperf_strerror strerror gai_strerror int_errno w =
     (case message_of int_errno of (text, perr, herr) \<Rightarrow>
      let errstr = take 255 text;
          errstr1 = (if herr \<or> perr then append_text errstr '': '' else errstr) in
      if errno w \<noteq> 0 \<and> perr then (append_text errstr1 (strerror (errno w)), w)
      else if herr \<and> gerror w \<noteq> 0 then (append_text errstr1 (gai_strerror (gerror w)), w\<lparr>gerror := 0\<rparr>)
      else (errstr1, w))"

lemma append_text_fits: "length e \<le> 255 \<Longrightarrow> length (append_text e s) \<le> 255"
  by (simp add: append_text_def)

lemma strerror_fits: "length (fst (iperf_strerror se ge e w)) \<le> 255"
  by (cases "message_of e") (auto simp: iperf_strerror_def Let_def intro!: append_text_fits)

lemma strerror_head:
  assumes "map_of messages e = Some (text, perr, herr)" "length text \<le> 255"
  shows "take (length text) (fst (iperf_strerror se ge e w)) = text"
  using assms by (auto simp: iperf_strerror_def message_of_def append_text_def Let_def)

section \<open>The errors of the options\<close>

definition option_errors :: "int set" where
  "option_errors = {IESERVCLIENT, IENOROLE, IESERVERONLY, IECLIENTONLY, IEDURATION, IENUMSTREAMS, IEBLOCKSIZE, IEBUFSIZE,
     IEINTERVAL, IEMSS, IENOSENDFILE, IEOMIT, IEUNIMP, IEBURST, IEENDCONDITIONS, IEUDPBLOCKSIZE, IEBADTOS, IESETCLIENTAUTH,
     IESETSERVERAUTH, IEBADFORMAT, IEREVERSEBIDIR, IEBADPORT, IETOTALINTERVAL, IESKEWTHRESHOLD, IEIDLETIMEOUT, IERCVTIMEOUT,
     IERVRSONLYRCVTIMEOUT, IESETFLOW, IEAFFINITY, IESETSCTPBINDX}"

definition named_errors :: "parsed_options \<Rightarrow> bool" where
  "named_errors r \<longleftrightarrow> (\<forall>t. r = Wrong t \<longrightarrow> i_errno t \<in> option_errors)"

lemma named_wrong [simp]: "named_errors (wrong e p) \<longleftrightarrow> e \<in> option_errors"
  by (simp add: named_errors_def wrong_def)

lemma named_Fine [simp]: "named_errors (Fine p)" "named_errors (Quit n)" "named_errors Interval_NaN"
  by (simp_all add: named_errors_def)

lemma named_check [simp]: "named_errors (check b e p) \<longleftrightarrow> \<not> b \<or> e \<in> option_errors"
  by (simp add: check_def)

lemma named_and_next: "named_errors r \<Longrightarrow> (\<And>p. named_errors (f p)) \<Longrightarrow> named_errors (and_next r f)"
  by (cases r) (simp_all add: and_next_def named_errors_def)

lemma named_interval [simp]: "e \<in> option_errors \<Longrightarrow> named_errors (check_interval x e f p)"
  by (cases x) (simp_all add: check_interval_def)

lemma named_options: "\<forall>x \<in> set (both_side_options E @ server_side_options E @ client_side_options E). \<forall>a p. named_errors (snd x a p)"
  unfolding both_side_options_def server_side_options_def client_side_options_def append_Cons append_Nil
  by (simp only: set_simps ball_simps insert_iff snd_conv)
    (auto simp: option_defs required_def plainly_def switch_def Let_def option_errors_def split: prod.splits option.splits double.splits
      intro!: named_and_next)

lemma named_option: "named_errors (parse_option E f a p)"
proof (cases "map_of (both_side_options E @ server_side_options E @ client_side_options E) f")
  case (Some h)
  then have "(f, h) \<in> set (both_side_options E @ server_side_options E @ client_side_options E)" by (rule map_of_SomeD)
  from bspec [OF named_options this] Some show ?thesis by (simp add: parse_option_def)
next
  case None
  then show ?thesis unfolding parse_option_def by (simp only: option.case named_Fine)
qed

lemma named_parse_options: "named_errors (parse_options E args p)"
  by (induction E args p rule: parse_options.induct) (simp_all add: named_and_next named_option)

lemma named_if: "named_errors r \<Longrightarrow> named_errors q \<Longrightarrow> named_errors (if c then r else q)"
  by simp

lemma named_checks:
  "named_errors (check_roles p)" "named_errors (client_auth E p)" "named_errors (server_auth E p)"
  "named_errors (block_size p)" "named_errors (end_conditions p)" "named_errors (need_role p)"
proof -
  show "named_errors (check_roles p)" by (simp add: check_roles_def option_errors_def Let_def)
  show "named_errors (client_auth E p)"
    by (simp add: client_auth_def option_errors_def Let_def split: option.split)
  show "named_errors (server_auth E p)"
    by (simp add: server_auth_def option_errors_def Let_def split: option.split)
  show "named_errors (block_size p)" unfolding block_size_def Let_def option_errors_def
    by (intro named_if named_Fine named_wrong [THEN iffD2]) (simp_all add: option_errors_def)
  show "named_errors (end_conditions p)" unfolding end_conditions_def Let_def by (rule named_check [THEN iffD2], rule disjI2) (simp add: option_errors_def)
  show "named_errors (need_role p)" unfolding need_role_def by (rule named_check [THEN iffD2], rule disjI2) (simp add: option_errors_def)
qed

lemma named_check_options: "named_errors (check_options E p)"
  unfolding check_options_def by (intro named_and_next named_checks named_Fine)

lemma named_arguments: "named_errors (iperf_parse_arguments E args t)"
  by (simp add: iperf_parse_arguments_def named_and_next named_parse_options named_check_options)

text \<open>All of them have a message, but two.\<close>

lemma option_errors_told:
  assumes "e \<in> option_errors" "e \<noteq> IETOTALINTERVAL" "e \<noteq> IESETSCTPBINDX"
  shows "\<exists>m. map_of messages e = Some m"
proof -
  have "\<forall>x \<in> option_errors. x \<noteq> IETOTALINTERVAL \<longrightarrow> x \<noteq> IESETSCTPBINDX \<longrightarrow> x \<in> set (map fst messages)"
    by (simp only: messages_def option_messages_def control_messages_def stream_messages_def append_Cons append_Nil list.map
        fst_conv option_errors_def ball_simps) simp
  with assms have "e \<in> fst ` set messages" by simp
  then show ?thesis by (metis map_of_eq_None_iff not_None_eq)
qed

lemma interval_texts: "length (format_g 6 MIN_INTERVAL) \<le> 13" "length (format_g 6 60) \<le> 13"
proof -
  have d: "is_double MIN_INTERVAL" by (simp only: MIN_INTERVAL_def is_double_f64)
  have "is_double 60" using f64_examples(2) is_double_f64 [of 60] by simp
  moreover have "\<not> isinf 60" "\<not> isinf MIN_INTERVAL"
  proof -
    have b: "(1 :: rat) \<le> 2 ^ 1018" by simp
    have "0 \<le> MIN_INTERVAL" "MIN_INTERVAL \<le> 1" 
      using f64_nonneg [of "1 / 10"] f64_mono [of "1 / 10" 1] f64_int [of 1] by (simp_all add: MIN_INTERVAL_def)
    then show "\<not> isinf 60" "\<not> isinf MIN_INTERVAL"
      using power_increasing [of 6 1024 "2 :: rat"] by (simp_all add: isinf_def)
  qed
  ultimately show "length (format_g 6 MIN_INTERVAL) \<le> 13" "length (format_g 6 60) \<le> 13"
    using format_g_shape [of _ 6] d by fastforce+
qed

lemma message_lengths:
  assumes "map_of messages e = Some (text, perr, herr)"
  shows "length text \<le> 255"
proof -
  have "\<forall>m \<in> set messages. length (fst (snd m)) \<le> 255"
    using interval_texts
    by (simp only: messages_def option_messages_def control_messages_def stream_messages_def append_Cons append_Nil set_simps ball_simps fst_conv snd_conv)
     (simp add: show_int_def digits.simps)
  then show ?thesis using map_of_SomeD [OF assms] by fastforce
qed

lemma untold_errors: "map_of messages IETOTALINTERVAL = None" "map_of messages IESETSCTPBINDX = None"
  unfolding map_of_eq_None_iff
  by (simp_all only: messages_def option_messages_def control_messages_def stream_messages_def append_Cons append_Nil set_simps
      image_insert image_empty fst_conv) simp_all

lemma rejected_told:
  assumes "iperf_parse_arguments E args t = Wrong t'"
  shows "if i_errno t' \<in> {IETOTALINTERVAL, IESETSCTPBINDX} then map_of messages (i_errno t') = None
    else \<exists>text perr herr. map_of messages (i_errno t') = Some (text, perr, herr)
      \<and> take (length text) (fst (iperf_strerror se ge (i_errno t') w)) = text"
proof (cases "i_errno t' \<in> {IETOTALINTERVAL, IESETSCTPBINDX}")
  case True
  then show ?thesis using untold_errors by auto
next
  case False
  have "i_errno t' \<in> option_errors" using named_arguments [of E args t] assms(1) by (simp add: named_errors_def)
  with False obtain tx perr herr where m: "map_of messages (i_errno t') = Some (tx, perr, herr)"
    using option_errors_told by fastforce
  from strerror_head [OF m message_lengths [OF m]] m False show ?thesis by auto
qed

text \<open>The error of the interval of a bitrate limit has no message of its own.\<close>

lemma total_interval_untold:
  "errno w = 0 \<Longrightarrow> fst (iperf_strerror se ge IETOTALINTERVAL w) = ''int_errno=28: ''"
proof -
  note untold_errors(1)
  moreover have "show_int 28 = ''28''" by code_simp
  ultimately show "errno w = 0 \<Longrightarrow> ?thesis" by (simp add: iperf_strerror_def message_of_def append_text_def)
qed

end
