(* ===== verification/Sctp.thy ===== *)
theory Sctp
  imports Tcp
begin

text \<open>
  \<open>iperf/src/iperf_sctp.c\<close>, as it is compiled where the system has SCTP (Linux: \<open>SCTP_MAXSEG\<close> takes a
  structure); without it every function sets \<open>IENOSCTP\<close> and returns -1. The addresses of the option \<open>-X\<close>
  (\<open>xbind_addrs\<close>) are an argument and a result. The pointer \<open>ai\<close> of an address is null, a list that
  \<open>getaddrinfo\<close> made, or points to a list that has been given back; giving it back again ends the process
  (\<open>None\<close>). A successful \<open>getaddrinfo\<close> finds at least one address.
\<close>

definition ENOPROTOOPT :: int where "ENOPROTOOPT = 92"
definition IPPROTO_SCTP :: int where "IPPROTO_SCTP = 132"

section \<open>Data\<close>

definition iperf_sctp_recv :: "stream \<Rightarrow> (test, int \<times> stream) state" where
  "iperf_sctp_recv sp = do {
     size \<leftarrow> gets (\<lambda>t. blksize (settings t));
     got \<leftarrow> nread (stream_socket sp) (nat size);
     let sp1 = sp\<lparr>buffer := put_header (snd got) (buffer sp)\<rparr>;
     if fst got < 0 then State_Monad.return (fst got, sp1) else do {
       running \<leftarrow> gets (\<lambda>t. test_state t = TEST_RUNNING);
       State_Monad.return (fst got,
         if running then sp1\<lparr>result := add_received (fst got) (result sp1)\<rparr> else sp1) } }"

definition iperf_sctp_send :: "stream \<Rightarrow> (test, int \<times> stream) state" where
  "iperf_sctp_send sp = do {
     size \<leftarrow> gets (\<lambda>t. blksize (settings t));
     r \<leftarrow> nwrite (stream_socket sp) (take (nat size) (buffer sp));
     State_Monad.return (r, if r < 0 then sp else sp\<lparr>result := add_sent r (result sp)\<rparr>) }"

section \<open>Accepting a stream\<close>

text \<open>\<open>close\<close> may overwrite \<open>errno\<close>: the clean-up without saving it.\<close>

definition close_and_fail :: "int \<Rightarrow> int \<Rightarrow> (test, int) state" where
  "close_and_fail s code = do { set_i_errno code; c \<leftarrow> call (Close s); State_Monad.return (-1) }"

definition iperf_sctp_accept :: "bytes \<Rightarrow> (test, int) state" where
  "iperf_sctp_accept junk = do {
     l \<leftarrow> gets listener;
     s \<leftarrow> call (Accept l);
     if rv s < 0 then fail IESTREAMCONNECT else do {
       got \<leftarrow> nread (rv s) COOKIE_SIZE;
       if fst got < 0 then close_and_fail (rv s) IERECVCOOKIE else do {
         mine \<leftarrow> gets cookie;
         if c_string (take COOKIE_SIZE mine) \<noteq> c_string (take COOKIE_SIZE (put_header (snd got) junk)) then do {
           w \<leftarrow> nwrite (rv s) [word_of_int ACCESS_DENIED];
           if w < 0 then close_and_fail (rv s) IESENDMESSAGE else do {
             c \<leftarrow> call (Close (rv s));
             State_Monad.return (rv s) } }
         else State_Monad.return (rv s) } } }"

section \<open>Several local addresses\<close>

datatype resolved = Unresolved | Resolved "(int \<times> bytes) list" | Dangling

record xbind =
  xb_name :: string
  xb_ai :: resolved

type_synonym bindx = "(int \<times> xbind list) option"

definition addresses :: "resp \<Rightarrow> (int \<times> bytes) list" where
  "addresses a = (case raddrs a of [] \<Rightarrow> [(rval a, rbytes a)] | as \<Rightarrow> as)"

definition resolved_list :: "xbind \<Rightarrow> (int \<times> bytes) list" where
  "resolved_list xb = (case xb_ai xb of Resolved as \<Rightarrow> as | _ \<Rightarrow> [])"

text \<open>The addresses of the domain of the test.\<close>

definition in_domain :: "int \<Rightarrow> (int \<times> bytes) list \<Rightarrow> (int \<times> bytes) list" where
  "in_domain d as = filter (\<lambda>a. \<not> (d \<noteq> AF_UNSPEC \<and> d \<noteq> fst a)) as"

text \<open>
  The first pass: every name is resolved. An address that was resolved before is given back first, and
  stays where it is if the name is not found.
\<close>

fun resolve_all :: "int \<Rightarrow> bool \<Rightarrow> xbind list \<Rightarrow> (test, (bool \<times> xbind list) option) state" where
  "resolve_all family passive [] = State_Monad.return (Some (True, []))"
| "resolve_all family passive (xb # xbs) =
     (if xb_ai xb = Dangling then State_Monad.return None else do {
        g \<leftarrow> call (Getaddrinfo (Some (xb_name xb)) family SOCK_STREAM passive);
        set_gerror (rv g);
        if rv g \<noteq> 0 then do {
          set_i_errno IESETSCTPBINDX;
          State_Monad.return (Some (False,
            xb\<lparr>xb_ai := (if xb_ai xb = Unresolved then Unresolved else Dangling)\<rparr> # xbs)) }
        else do {
          rest \<leftarrow> resolve_all family passive xbs;
          State_Monad.return (map_option (\<lambda>(ok, ys). (ok, xb\<lparr>xb_ai := Resolved (addresses g)\<rparr> # ys)) rest) } })"

text \<open>The label \<open>out\<close>: the head goes back, every address is given back.\<close>

definition give_back :: "xbind list \<Rightarrow> xbind list option" where
  "give_back xbs = (if \<exists>xb \<in> set xbs. xb_ai xb = Dangling then None
     else Some (map (\<lambda>xb. xb\<lparr>xb_ai := Unresolved\<rparr>) xbs))"

definition bindx_out :: "int \<Rightarrow> xbind list \<Rightarrow> (test, bindx) state" where
  "bindx_out retval xbs = State_Monad.return (map_option (Pair retval) (give_back xbs))"

text \<open>\<open>mem\<close>: the buffer for the addresses is there. \<open>head\<close> is the address that a client has taken out.\<close>

definition bindx_rest :: "bool \<Rightarrow> int \<Rightarrow> bool \<Rightarrow> xbind list \<Rightarrow> xbind list \<Rightarrow> (test, bindx) state" where
  "bindx_rest mem s is_server head xbs = do {
     dom \<leftarrow> gets (\<lambda>t. s_domain (settings t));
     r \<leftarrow> resolve_all (if dom = AF_UNSPEC then AF_INET6 else dom) is_server xbs;
     case r of
       None \<Rightarrow> State_Monad.return None
     | Some p \<Rightarrow>
         if \<not> fst p then bindx_out (-1) (head @ snd p)
         else if \<not> mem then do { set_i_errno IESETSCTPBINDX; bindx_out (-1) (head @ snd p) }
         else do {
           b \<leftarrow> call (Sctp_Bindx s (concat (map (\<lambda>xb. in_domain dom (resolved_list xb)) (snd p))));
           if rv b = -1 then do {
             c \<leftarrow> close_fail s;
             set_i_errno IESETSCTPBINDX;
             bindx_out (-1) (head @ snd p) }
           else bindx_out 0 (head @ snd p) } }"

text \<open>A client binds its first address with \<open>bind\<close>, the others with \<open>sctp_bindx\<close>; a server binds all of them with it.\<close>

definition bindx_client :: "bool \<Rightarrow> int \<Rightarrow> xbind \<Rightarrow> xbind list \<Rightarrow> (test, bindx) state" where
  "bindx_client mem s xb xbs = do {
     dom \<leftarrow> gets (\<lambda>t. s_domain (settings t));
     g \<leftarrow> call (Getaddrinfo (Some (xb_name xb)) (if dom = AF_UNSPEC then AF_INET6 else dom) SOCK_STREAM False);
     set_gerror (rv g);
     if rv g \<noteq> 0 then do { set_i_errno IESETSCTPBINDX; bindx_out (-1) (xb # xbs) } else do {
       let xb1 = xb\<lparr>xb_ai := Resolved (addresses g)\<rparr>;
       let family = fst (hd (addresses g));
       if dom \<noteq> AF_UNSPEC \<and> dom \<noteq> family then do { set_i_errno IESETSCTPBINDX; bindx_out (-1) (xb1 # xbs) } else do {
         b \<leftarrow> call (Bind s 0);
         if rv b < 0 then do { set_i_errno IESETSCTPBINDX; bindx_out (-1) (xb1 # xbs) }
         else if xbs = [] then bindx_out 0 [xb1]
         else if family \<noteq> AF_INET \<and> family \<noteq> AF_INET6 then do { set_i_errno IESETSCTPBINDX; bindx_out (-1) (xb1 # xbs) }
         else bindx_rest mem s False [xb1] xbs } } }"

definition iperf_sctp_bindx :: "bool \<Rightarrow> xbind list \<Rightarrow> int \<Rightarrow> bool \<Rightarrow> (test, bindx) state" where
  "iperf_sctp_bindx mem xbs s is_server =
     (case xbs of
        [] \<Rightarrow> State_Monad.return (Some (0, []))
      | xb # rest \<Rightarrow> if is_server then bindx_rest mem s True [] xbs else bindx_client mem s xb rest)"

section \<open>Listening\<close>

text \<open>The buffer sizes of the test, set if there are any.\<close>

definition sctp_buffers :: "int \<Rightarrow> (test, bool) state" where
  "sctp_buffers s = do {
     b \<leftarrow> gets (\<lambda>t. socket_bufsize (settings t));
     ok \<leftarrow> set_opt (b \<noteq> 0) s SO_RCVBUF b;
     if \<not> ok then State_Monad.return False else set_opt (b \<noteq> 0) s SO_SNDBUF b }"

definition fail_with :: "xbind list \<Rightarrow> (test, int) state \<Rightarrow> (test, bindx) state" where
  "fail_with xbs m = do { r \<leftarrow> m; State_Monad.return (Some (r, xbs)) }"

text \<open>When binding has failed the caller closes the socket, and \<open>errno\<close> is not kept.\<close>

definition sctp_bind :: "bool \<Rightarrow> xbind list \<Rightarrow> int \<Rightarrow> (test, bindx) state" where
  "sctp_bind mem xbs s =
     (if xbs \<noteq> [] then do {
        r \<leftarrow> iperf_sctp_bindx mem xbs s True;
        case r of
          None \<Rightarrow> State_Monad.return None
        | Some p \<Rightarrow> if fst p \<noteq> 0 then do { c \<leftarrow> call (Close s); State_Monad.return (Some (-1, snd p)) }
            else State_Monad.return (Some p) }
      else do {
        port \<leftarrow> gets server_port;
        b \<leftarrow> call (Bind s port);
        if rv b < 0 then fail_with xbs (abandon s IESTREAMLISTEN) else State_Monad.return (Some (0, xbs)) })"

definition sctp_bind_listen :: "bool \<Rightarrow> xbind list \<Rightarrow> int \<Rightarrow> (test, bindx) state" where
  "sctp_bind_listen mem xbs s = do {
     r \<leftarrow> sctp_bind mem xbs s;
     case r of
       None \<Rightarrow> State_Monad.return None
     | Some p \<Rightarrow>
         if fst p < 0 then State_Monad.return (Some p) else do {
           l \<leftarrow> call (Listen s);
           if rv l < 0 then fail_with (snd p) (fail IESTREAMLISTEN) else do {
             modify (\<lambda>t. t\<lparr>listener := s\<rparr>);
             State_Monad.return (Some (s, snd p)) } } }"

definition sctp_prepare :: "bool \<Rightarrow> xbind list \<Rightarrow> int \<Rightarrow> int \<Rightarrow> (test, bindx) state" where
  "sctp_prepare mem xbs s family = do {
     ok1 \<leftarrow> sctp_buffers s;
     if \<not> ok1 then fail_with xbs (abandon s IESETBUF) else do {
       dev \<leftarrow> gets bind_dev;
       ok2 \<leftarrow> set_opt (dev \<noteq> None) s SO_BINDTODEVICE 0;
       if \<not> ok2 then fail_with xbs (abandon s IEBINDDEV) else do {
         dom \<leftarrow> gets (\<lambda>t. s_domain (settings t));
         ok3 \<leftarrow> set_opt (family = AF_INET6 \<and> (dom = AF_UNSPEC \<or> dom = AF_INET6)) s IPV6_V6ONLY
                 (if dom = AF_UNSPEC then 0 else 1);
         if \<not> ok3 then fail_with xbs (abandon s IEPROTOCOL) else do {
           ok4 \<leftarrow> set_opt True s SO_REUSEADDR 1;
           if \<not> ok4 then fail_with xbs (abandon s IEREUSEADDR)
           else sctp_bind_listen mem xbs s } } } }"

definition sctp_new_listener :: "bool \<Rightarrow> xbind list \<Rightarrow> int \<Rightarrow> (test, bindx) state" where
  "sctp_new_listener mem xbs family = do {
     sk \<leftarrow> call (Socket family SOCK_STREAM IPPROTO_SCTP);
     if rv sk < 0 then fail_with xbs (fail IESTREAMLISTEN) else sctp_prepare mem xbs (rv sk) family }"

definition iperf_sctp_listen :: "bool \<Rightarrow> xbind list \<Rightarrow> (test, bindx) state" where
  "iperf_sctp_listen mem xbs = do {
     l0 \<leftarrow> gets listener;
     c \<leftarrow> call (Close l0);
     dom \<leftarrow> gets (\<lambda>t. s_domain (settings t));
     addr \<leftarrow> gets bind_address;
     g \<leftarrow> call (Getaddrinfo addr (if dom = AF_UNSPEC \<and> addr = None then AF_INET6 else dom) SOCK_STREAM True);
     set_gerror (rv g);
     if rv g \<noteq> 0 then fail_with xbs (fail IESTREAMLISTEN) else sctp_new_listener mem xbs (rval g) }"

section \<open>Connecting a stream\<close>

text \<open>The options that a client sets before it connects: the error code of the first that fails.\<close>

definition sctp_options :: "int \<Rightarrow> (test, int) state" where
  "sctp_options s = do {
     nd \<leftarrow> gets no_delay;
     ok1 \<leftarrow> set_opt nd s SCTP_NODELAY 1;
     if \<not> ok1 then State_Monad.return IESETNODELAY else do {
       m \<leftarrow> gets (\<lambda>t. mss (settings t));
       ok2 \<leftarrow> set_opt (512 \<le> m \<and> m \<le> 131072) s SCTP_MAXSEG m;
       if \<not> ok2 then State_Monad.return IESETMSS else do {
         n \<leftarrow> gets (\<lambda>t. num_ostreams (settings t));
         ok3 \<leftarrow> set_opt (n > 0) s SCTP_INITMSG n;
         State_Monad.return (if ok3 then IENONE else IESETSCTPNSTREAM) } } }"

definition sctp_dial :: "int \<Rightarrow> (test, int) state" where
  "sctp_dial s = do {
     port \<leftarrow> gets server_port;
     c \<leftarrow> call (Connect s port);
     e \<leftarrow> get_errno;
     if rv c < 0 \<and> e \<noteq> EINPROGRESS then abandon s IESTREAMCONNECT else do {
       ck \<leftarrow> gets cookie;
       w \<leftarrow> nwrite s (take COOKIE_SIZE ck);
       if w < 0 then abandon s IESENDCOOKIE else do {
         f \<leftarrow> call (Setsockopt s SCTP_DISABLE_FRAGMENTS 0);
         e2 \<leftarrow> get_errno;
         if rv f < 0 \<and> e2 \<noteq> ENOPROTOOPT then abandon s IESETSCTPDISABLEFRAG
         else State_Monad.return s } } }"

definition sctp_bindx_dial :: "bool \<Rightarrow> xbind list \<Rightarrow> int \<Rightarrow> (test, bindx) state" where
  "sctp_bindx_dial mem xbs s =
     (if xbs \<noteq> [] then do {
        r \<leftarrow> iperf_sctp_bindx mem xbs s False;
        case r of
          None \<Rightarrow> State_Monad.return None
        | Some p \<Rightarrow> if fst p \<noteq> 0 then do { c \<leftarrow> call (Close s); State_Monad.return (Some (-1, snd p)) }
            else fail_with (snd p) (sctp_dial s) }
      else fail_with xbs (sctp_dial s))"

definition sctp_configure :: "bool \<Rightarrow> xbind list \<Rightarrow> int \<Rightarrow> int \<Rightarrow> (test, bindx) state" where
  "sctp_configure mem xbs s family = do {
     ok1 \<leftarrow> sctp_buffers s;
     if \<not> ok1 then fail_with xbs (abandon s IESETBUF) else do {
       dev \<leftarrow> gets bind_dev;
       ok2 \<leftarrow> set_opt (dev \<noteq> None) s SO_BINDTODEVICE 0;
       if \<not> ok2 then fail_with xbs (abandon s IEBINDDEV) else do {
         b \<leftarrow> tcp_bind_local s family;
         if b < 0 then State_Monad.return (Some (-1, xbs)) else do {
           e \<leftarrow> sctp_options s;
           if e \<noteq> IENONE then fail_with xbs (abandon s e)
           else sctp_bindx_dial mem xbs s } } } }"

definition sctp_stream :: "bool \<Rightarrow> xbind list \<Rightarrow> int \<Rightarrow> (test, bindx) state" where
  "sctp_stream mem xbs family = do {
     sk \<leftarrow> call (Socket family SOCK_STREAM IPPROTO_SCTP);
     if rv sk < 0 then fail_with xbs (fail IESTREAMCONNECT) else sctp_configure mem xbs (rv sk) family }"

definition iperf_sctp_connect :: "bool \<Rightarrow> xbind list \<Rightarrow> (test, bindx) state" where
  "iperf_sctp_connect mem xbs = do {
     dom \<leftarrow> gets (\<lambda>t. s_domain (settings t));
     addr \<leftarrow> gets bind_address;
     lok \<leftarrow> (if addr \<noteq> None then do {
         g \<leftarrow> call (Getaddrinfo addr dom SOCK_STREAM False);
         set_gerror (rv g);
         State_Monad.return (rv g = 0) }
       else State_Monad.return True);
     if \<not> lok then fail_with xbs (fail IESTREAMCONNECT) else do {
       host \<leftarrow> gets server_hostname;
       g \<leftarrow> call (Getaddrinfo host dom SOCK_STREAM False);
       set_gerror (rv g);
       if rv g \<noteq> 0 then fail_with xbs (fail IESTREAMCONNECT) else sctp_stream mem xbs (rval g) } }"

section \<open>Descriptors\<close>

text \<open>
  A call with a socket \<open>s\<close> that it was given: success keeps it, an error has closed it, or closed it twice.
  Without the option \<open>-X\<close> nothing is closed twice.
\<close>

definition closed_once_more :: "(int \<Rightarrow> int) \<Rightarrow> int \<Rightarrow> (int \<Rightarrow> int) \<Rightarrow> bool" where
  "closed_once_more h s h' \<longleftrightarrow> h' = h \<or> h' = h(s := h s - 1)"

lemma fds_fail_with: "fds h m (\<lambda>r. Q (Some (r, xbs))) \<Longrightarrow> fds h (fail_with xbs m) Q"
  unfolding fail_with_def by (erule fds_seq) (rule fds_return)

lemma sctp_keeps [fd_rules]:
  "keeps_fds (iperf_sctp_recv sp)" "keeps_fds (iperf_sctp_send sp)" "keeps_fds (sctp_buffers s)"
  "keeps_fds (sctp_options s)" "keeps_fds (bindx_out r xbs)"
  unfolding iperf_sctp_recv_def iperf_sctp_send_def sctp_buffers_def sctp_options_def bindx_out_def Let_def
  by (intro fd_rules)+

lemma resolve_keeps [fd_rules]: "keeps_fds (resolve_all family passive xbs)"
  by (induction xbs) (auto intro!: fd_rules)

lemma fds_bindx_out: "(\<And>ys. Q (map_option (Pair r) ys) h) \<Longrightarrow> fds h (bindx_out r xbs) Q"
  unfolding bindx_out_def by (rule fds_return)

lemma sctp_dial_opened:
  assumes "0 \<le> s"
  shows "fds (h(s := h s + 1)) (sctp_dial s) (opened h)"
  unfolding sctp_dial_def by (intro fd_rules) (simp_all add: opened_def assms)

text \<open>The result of the functions that make a socket, with the addresses.\<close>

definition opened_with :: "xbind list \<Rightarrow> (int \<Rightarrow> int) \<Rightarrow> bindx \<Rightarrow> (int \<Rightarrow> int) \<Rightarrow> bool" where
  "opened_with xbs h r h' \<longleftrightarrow> (\<exists>k. r = Some (k, xbs) \<and> opened h k h')"

lemma fds_fail_opened: "fds h m (opened h0) \<Longrightarrow> fds h (fail_with xbs m) (opened_with xbs h0)"
  by (rule fds_fail_with, erule fds_mono) (simp add: opened_with_def)

lemma fds_abandon_opened: "0 \<le> s \<Longrightarrow> fds (h(s := h s + 1)) (abandon s c) (opened h)"
  by (rule fds_abandon) (simp add: opened_def)

lemma fds_fail_none: "fds h (fail c) (opened h)"
  by (rule fds_fail) (simp add: opened_def)

lemma sctp_configure_opened:
  assumes "0 \<le> s"
  shows "fds (h(s := h s + 1)) (sctp_configure mem [] s family) (opened_with [] h)"
proof -
  let ?h = "h(s := h s + 1)"
  note ab = fds_fail_opened [OF fds_abandon_opened [OF assms]]
  have dial: "fds ?h (sctp_bindx_dial mem [] s) (opened_with [] h)"
    using fds_fail_opened [OF sctp_dial_opened [OF assms]] by (simp add: sctp_bindx_dial_def)
  have opts: "fds ?h (do { e \<leftarrow> sctp_options s; if e \<noteq> IENONE then fail_with [] (abandon s e)
      else sctp_bindx_dial mem [] s }) (opened_with [] h)"
    by (intro fds_keep sctp_keeps fds_if ab dial)
  have bind: "fds ?h (do { b \<leftarrow> tcp_bind_local s family; if b < 0 then State_Monad.return (Some (-1, [])) else
      do { e \<leftarrow> sctp_options s; if e \<noteq> IENONE then fail_with [] (abandon s e)
        else sctp_bindx_dial mem [] s } }) (opened_with [] h)"
    by (rule fds_seq [OF tcp_steps(1)])
      (use opts in \<open>auto simp: kept_or_closed_def opened_with_def opened_def intro!: fds_return\<close>)
  show ?thesis
    unfolding sctp_configure_def
    by (intro fds_keep sctp_keeps set_opt_keeps keeps_gets fds_if ab bind)
qed

lemma sctp_connect_opened: "fds h (iperf_sctp_connect mem []) (opened_with [] h)"
proof -
  have new: "fds h (sctp_stream mem [] family) (opened_with [] h)" for family
    unfolding sctp_stream_def
    by (rule fds_socket)
      (auto intro: sctp_configure_opened fds_fail_opened [OF fds_fail_none])
  show ?thesis
    unfolding iperf_sctp_connect_def by (intro fd_rules new fds_fail_opened) (simp_all add: opened_def)
qed

text \<open>
  Listening closes the old listener. An error then holds nothing, but for \<open>listen\<close> itself, whose socket is lost.
\<close>

definition may_leak_with :: "xbind list \<Rightarrow> (int \<Rightarrow> int) \<Rightarrow> bindx \<Rightarrow> (int \<Rightarrow> int) \<Rightarrow> bool" where
  "may_leak_with xbs h r h' \<longleftrightarrow> (\<exists>k. r = Some (k, xbs) \<and> may_leak h k h')"

lemma fds_abandon_leak: "fds (h(s := h s + 1)) (fail_with xbs (abandon s c)) (may_leak_with xbs h)"
  by (rule fds_fail_with, rule fds_abandon) (simp add: may_leak_with_def may_leak_def)

lemma sctp_bind_listen_leak:
  assumes "0 \<le> s"
  shows "fds (h(s := h s + 1)) (sctp_bind_listen mem [] s) (may_leak_with [] h)"
proof -
  let ?h = "h(s := h s + 1)"
  have bind: "fds ?h (sctp_bind mem [] s) (\<lambda>r h'. r = Some (0, []) \<and> h' = ?h \<or> r = Some (-1, []) \<and> h' = h)"
    unfolding sctp_bind_def by simp (intro fd_rules fds_fail_with; simp)
  have listening: "fds ?h (do { l \<leftarrow> call (Listen s);
      if rv l < 0 then fail_with (snd p) (fail IESTREAMLISTEN) else do {
        modify (\<lambda>t. t\<lparr>listener := s\<rparr>);
        State_Monad.return (Some (s, snd p)) } }) (may_leak_with [] h)" if "snd p = []" for p :: "int \<times> xbind list"
    by (intro fd_rules fds_fail_with) (auto simp: may_leak_with_def may_leak_def assms that)
  show ?thesis
    unfolding sctp_bind_listen_def
    by (rule fds_seq [OF bind])
      (auto simp: may_leak_with_def may_leak_def intro!: fds_return listening)
qed

lemma sctp_new_listener_leak: "fds h (sctp_new_listener mem [] family) (may_leak_with [] h)"
proof -
  have prep: "fds (h(s := h s + 1)) (sctp_prepare mem [] s family) (may_leak_with [] h)" if "0 \<le> s" for s
    unfolding sctp_prepare_def
    by (intro fds_keep sctp_keeps set_opt_keeps keeps_gets fds_if fds_abandon_leak sctp_bind_listen_leak that)
  show ?thesis
    unfolding sctp_new_listener_def
    by (rule fds_socket) (auto simp: may_leak_with_def may_leak_def intro!: prep fds_fail_with fds_fail)
qed

section \<open>Addresses\<close>

definition unresolved :: "xbind list \<Rightarrow> bool" where
  "unresolved xbs \<longleftrightarrow> (\<forall>xb \<in> set xbs. xb_ai xb = Unresolved)"

definition not_dangling :: "xbind list \<Rightarrow> bool" where
  "not_dangling xbs \<longleftrightarrow> (\<forall>xb \<in> set xbs. xb_ai xb \<noteq> Dangling)"

definition same_names :: "xbind list \<Rightarrow> xbind list \<Rightarrow> bool" where
  "same_names xbs ys \<longleftrightarrow> map xb_name ys = map xb_name xbs"

lemma resolve_all_names:
  "unresolved xbs \<Longrightarrow> wp (resolve_all family passive xbs)
    (\<lambda>r v. \<exists>ok ys. r = Some (ok, ys) \<and> not_dangling ys \<and> same_names xbs ys) t"
proof (induction xbs arbitrary: t)
  case (Cons xb xbs)
  have xb: "xb_ai xb = Unresolved" "unresolved xbs" using Cons.prems by (simp_all add: unresolved_def)
  then have nd: "not_dangling xbs" by (simp add: unresolved_def not_dangling_def)
  have there: "not_dangling (xb\<lparr>xb_ai := Resolved as\<rparr> # ys)" "same_names (xb # xbs) (xb\<lparr>xb_ai := Resolved as\<rparr> # ys)"
    if "not_dangling ys" "same_names xbs ys" for as ys
    using that by (simp_all add: not_dangling_def same_names_def)
  have stay: "not_dangling (xb\<lparr>xb_ai := Unresolved\<rparr> # xbs)" "same_names (xb # xbs) (xb\<lparr>xb_ai := Unresolved\<rparr> # xbs)"
    using nd by (simp_all add: not_dangling_def same_names_def)
  show ?case
    using xb by (auto simp: wp_simps stay intro!: wp_mono [OF Cons.IH [OF xb(2)]] there)
qed (auto simp: wp_return not_dangling_def same_names_def)

text \<open>\<open>yields P m\<close>: whatever the state and the answers, the result of \<open>m\<close> satisfies \<open>P\<close>.\<close>

definition yields :: "('a \<Rightarrow> bool) \<Rightarrow> (test, 'a) state \<Rightarrow> bool" where
  "yields P m \<longleftrightarrow> (\<forall>t. wp m (\<lambda>r v. P r) t)"

lemma yields_bind: "(\<And>a. yields P (f a)) \<Longrightarrow> yields P (State_Monad.bind m f)"
  by (simp add: yields_def wp_bind_fun) (simp add: wp_iff_run)

lemma yields_if: "(b \<Longrightarrow> yields P m) \<Longrightarrow> (\<not> b \<Longrightarrow> yields P n) \<Longrightarrow> yields P (if b then m else n)"
  by simp

lemma yields_seq: "yields R m \<Longrightarrow> (\<And>a. R a \<Longrightarrow> yields P (f a)) \<Longrightarrow> yields P (State_Monad.bind m f)"
  by (auto simp: yields_def wp_bind_fun intro: wp_mono)

definition back_in_place :: "xbind list \<Rightarrow> bindx \<Rightarrow> bool" where
  "back_in_place xbs r \<longleftrightarrow> (\<exists>k ys. r = Some (k, ys) \<and> unresolved ys \<and> same_names xbs ys)"

lemma bindx_out_names: "not_dangling ys \<Longrightarrow> same_names xbs ys \<Longrightarrow> yields (back_in_place xbs) (bindx_out r ys)"
  by (auto simp: yields_def back_in_place_def bindx_out_def give_back_def wp_return not_dangling_def unresolved_def
      same_names_def o_def)

lemma bindx_rest_names:
  assumes "unresolved xbs" "not_dangling front" "map xb_name front = map xb_name old"
  shows "yields (back_in_place (old @ xbs)) (bindx_rest mem s is_server front xbs)"
proof -
  have all: "not_dangling (front @ ys)" "same_names (old @ xbs) (front @ ys)"
    if "not_dangling ys" "same_names xbs ys" for ys
    using that assms(2,3) by (auto simp: not_dangling_def same_names_def)
  note out = bindx_out_names [OF all]
  have found: "yields (\<lambda>r. \<exists>ok ys. r = Some (ok, ys) \<and> not_dangling ys \<and> same_names xbs ys)
      (resolve_all family is_server xbs)" for family
    using resolve_all_names [OF assms(1)] by (simp add: yields_def)
  show ?thesis
    unfolding bindx_rest_def
    by (rule yields_bind, rule yields_seq [OF found]) (auto intro!: yields_if yields_bind out)
qed

lemma bindx_names:
  assumes "unresolved xbs"
  shows "yields (back_in_place xbs) (iperf_sctp_bindx mem xbs s is_server)"
proof (cases xbs)
  case Nil
  then show ?thesis
    by (simp add: iperf_sctp_bindx_def yields_def back_in_place_def wp_return same_names_def unresolved_def)
next
  case (Cons xb rest)
  have un: "unresolved rest" "xb_ai xb = Unresolved" using assms Cons by (simp_all add: unresolved_def)
  have stay: "not_dangling (xb # rest)" "not_dangling (xb\<lparr>xb_ai := Resolved as\<rparr> # rest)"
    "not_dangling [xb\<lparr>xb_ai := Resolved as\<rparr>]" for as
    using un by (auto simp: not_dangling_def unresolved_def)
  have names: "same_names (xb # rest) (xb # rest)" "same_names (xb # rest) (xb\<lparr>xb_ai := Resolved as\<rparr> # rest)" for as
    by (simp_all add: same_names_def)
  have more: "yields (back_in_place (xb # rest)) (bindx_rest mem s False [xb\<lparr>xb_ai := Resolved as\<rparr>] rest)" for as
    using bindx_rest_names [OF un(1) stay(3), where old = "[xb]"] by simp
  have "yields (back_in_place (xb # rest)) (bindx_client mem s xb rest)"
    unfolding bindx_client_def Let_def
    by (intro yields_bind yields_if bindx_out_names more stay names) (use stay(3) names in \<open>simp_all add: same_names_def\<close>)
  then show ?thesis
    using bindx_rest_names [OF assms, of "[]" "[]"] Cons by (simp add: iperf_sctp_bindx_def not_dangling_def)
qed

section \<open>A failure that closes twice\<close>

text \<open>\<open>sctp_bindx\<close> fails: the socket is closed where it was called, and closed again by the caller.\<close>

lemma bindx_closes_twice:
  assumes "xb_ai xb = Unresolved" "rv (orc t (tick t)) = 0" "rv (orc t (Suc (tick t))) = -1"
  shows "held (snd (run_state (sctp_bind True [xb] s) t)) s = held t s - 2"
  using assms
  by (simp add: sctp_bind_def iperf_sctp_bindx_def bindx_rest_def run_simps bindx_out_def give_back_def close_fail_def
      held_after answer_def) (simp add: after_def)

end
