(* ===== verification/Printf.thy ===== *)
theory Printf
  imports Units
begin

text \<open>
  Formatted text: the conversions of \<open>printf\<close> that the formats of \<open>iperf/src/iperf_locale.c\<close> use
  (\<open>%d\<close>, \<open>%u\<close>, \<open>%s\<close>, \<open>%f\<close>, \<open>%g\<close>, \<open>%%\<close> with a minus sign, a width and a precision), and \<open>unit_snprintf\<close>
  of \<open>iperf/src/units.c\<close>. \<open>%g\<close> does not write an infinite number, and is used for percentages only.
\<close>

section \<open>printf\<close>

datatype arg = Int_Arg int | Double_Arg rat | Str_Arg string

definition pad :: "bool \<Rightarrow> nat \<Rightarrow> string \<Rightarrow> string" where
  "pad left width s = (let fill = replicate (width - length s) (CHR '' '') in if left then s @ fill else fill @ s)"

text \<open>\<open>P\<close> digits behind the point, rounded; at least one before it.\<close>

definition format_f :: "nat \<Rightarrow> rat \<Rightarrow> string" where
  "format_f P x = (if x < 0 then ''-'' else []) @
     (if isinf x then ''inf''
      else let ds = digits (nat (round_half_even (\<bar>x\<bar> * 10 ^ P)));
               full = replicate (Suc P - length ds) (CHR ''0'') @ ds;
               n = length full - P
           in take n full @ (if P = 0 then [] else CHR ''.'' # drop n full))"

definition format_d :: "int \<Rightarrow> string" where
  "format_d n = (if n < 0 then CHR ''-'' # digits (nat (- n)) else digits (nat n))"

definition format_u :: "int \<Rightarrow> string" where
  "format_u n = digits (nat (n mod 4294967296))"

record conversion =
  c_left :: bool
  c_width :: nat
  c_precision :: nat
  c_letter :: char

text \<open>What stands behind a percent sign, and the rest of the format. The default precision is 6.\<close>

definition conversion_at :: "string \<Rightarrow> conversion \<times> string" where
  "conversion_at s0 =
     (let left = (s0 \<noteq> [] \<and> hd s0 = CHR ''-'');
          s1 = (if left then tl s0 else s0);
          width = takeWhile is_digit s1;
          s2 = dropWhile is_digit s1;
          point = (s2 \<noteq> [] \<and> hd s2 = CHR ''.'');
          s3 = (if point then dropWhile is_digit (tl s2) else s2)
      in (\<lparr>c_left = left, c_width = digits_value width,
           c_precision = (if point then digits_value (takeWhile is_digit (tl s2)) else 6),
           c_letter = (case s3 of [] \<Rightarrow> NUL | c # r \<Rightarrow> c)\<rparr>, tl s3))"

definition convert :: "conversion \<Rightarrow> arg \<Rightarrow> string" where
  "convert c a = pad (c_left c) (c_width c)
     (case a of
        Int_Arg n \<Rightarrow> if c_letter c = CHR ''u'' then format_u n else format_d n
      | Double_Arg x \<Rightarrow> if c_letter c = CHR ''g'' then format_g (c_precision c) x else format_f (c_precision c) x
      | Str_Arg s \<Rightarrow> s)"

lemma conversion_rest: "length (snd (conversion_at s)) \<le> length s"
proof -
  have d: "length (dropWhile is_digit xs) \<le> length xs" for xs by (rule length_dropWhile_le)
  have t: "length (tl xs) \<le> length xs" for xs :: string by simp
  note c = le_trans [OF t] le_trans [OF d]
  show ?thesis by (simp add: conversion_at_def Let_def c del: length_tl)
qed

text \<open>The arguments fit the format in every call of the program; a missing one would be the end of the text.\<close>

function sprintf :: "string \<Rightarrow> arg list \<Rightarrow> string" where
  "sprintf [] args = []"
| "sprintf (c # s) args =
     (if c \<noteq> CHR ''%'' then c # sprintf s args
      else if s \<noteq> [] \<and> hd s = CHR ''%'' then CHR ''%'' # sprintf (tl s) args
      else (case args of [] \<Rightarrow> []
            | a # rest \<Rightarrow> convert (fst (conversion_at s)) a @ sprintf (snd (conversion_at s)) rest))"
  by pat_completeness auto
termination sprintf
  by (relation "measure (length \<circ> fst)") (auto simp: less_Suc_eq_le conversion_rest)

text \<open>\<open>snprintf\<close> into \<open>n\<close> bytes.\<close>

definition snprintf :: "nat \<Rightarrow> string \<Rightarrow> arg list \<Rightarrow> string" where
  "snprintf n fmt args = take (n - 1) (sprintf fmt args)"

section \<open>Amounts with a unit\<close>

definition UNIT_LEN :: nat where "UNIT_LEN = 32"

definition conversion_bytes :: "rat list" where
  "conversion_bytes = [1, 1 / 1024, 1 / 1024 ^ 2, 1 / 1024 ^ 3, 1 / 1024 ^ 4]"

definition conversion_bits :: "rat list" where
  "conversion_bits = [1, f64 (1 / 1000), f64 (f64 (1 / 1000) / 1000), f64 (f64 (f64 (1 / 1000) / 1000) / 1000),
     f64 (f64 (f64 (f64 (1 / 1000) / 1000) / 1000) / 1000)]"

definition label_byte :: "string list" where
  "label_byte = [''Byte'', ''KByte'', ''MByte'', ''GByte'', ''TByte'']"

definition label_bit :: "string list" where
  "label_bit = [''bit'', ''Kbit'', ''Mbit'', ''Gbit'', ''Tbit'']"

abbreviation (input) TERA_CONV :: nat where "TERA_CONV \<equiv> 4"

text \<open>The loop of the adaptive formats: \<open>n\<close> is how often it may still divide, \<open>TERA_CONV\<close> less \<open>conv\<close>.\<close>

fun adapt :: "rat \<Rightarrow> nat \<Rightarrow> rat \<Rightarrow> nat" where
  "adapt kilo 0 x = TERA_CONV"
| "adapt kilo (Suc n) x = (if kilo \<le> x then adapt kilo n (f64 (x / kilo)) else TERA_CONV - Suc n)"

definition isupper :: "char \<Rightarrow> bool" where
  "isupper c \<longleftrightarrow> 65 \<le> (of_char c :: nat) \<and> (of_char c :: nat) \<le> 90"

definition unit_conv :: "char \<Rightarrow> rat \<Rightarrow> nat" where
  "unit_conv inFormat inNum =
     (let c = tolower inFormat in
      if c = CHR ''b'' then 0 else if c = CHR ''k'' then 1 else if c = CHR ''m'' then 2 else if c = CHR ''g'' then 3
      else if c = CHR ''t'' then 4
      else adapt (if isupper inFormat then 1024 else 1000) TERA_CONV inNum)"

definition unit_number_format :: "rat \<Rightarrow> string" where
  "unit_number_format x =
     (if x < f64 9.995 then ''%4.2f %s'' else if x < f64 99.95 then ''%4.1f %s'' else ''%4.0f %s'')"

definition unit_snprintf :: "nat \<Rightarrow> rat \<Rightarrow> char \<Rightarrow> string" where
  "unit_snprintf inLen inNum0 inFormat =
     (let up = isupper inFormat;
          inNum = (if up then inNum0 else f64 (inNum0 * 8));
          conv = unit_conv inFormat inNum;
          x = f64 (inNum * (if up then conversion_bytes else conversion_bits) ! conv);
          suffix = (if up then label_byte else label_bit) ! conv
      in snprintf inLen (unit_number_format x) [Double_Arg x, Str_Arg suffix])"

section \<open>An amount is never cut\<close>

lemma length_format_f:
  assumes "0 \<le> x" "x * 10 ^ P < 10 ^ k - 1" "P < k" "\<not> isinf x"
  shows "length (format_f P x) \<le> k + (if P = 0 then 0 else 1)"
proof -
  let ?n = "nat (round_half_even (\<bar>x\<bar> * 10 ^ P))"
  have "round_half_even (\<bar>x\<bar> * 10 ^ P) \<le> 10 ^ k - 1"
    by (rule round_half_even_le) (use assms(1,2) in simp)
  then have "?n < 10 ^ k" by (simp add: nat_less_iff)
  then have d: "length (digits ?n) \<le> k" using digits_short [of ?n k] assms(3) by simp
  define f where "f = replicate (Suc P - length (digits ?n)) (CHR ''0'') @ digits ?n"
  have f: "length f \<le> k" "P \<le> length f" using d assms(3) by (auto simp: f_def)
  have "format_f P x = take (length f - P) f @ (if P = 0 then [] else CHR ''.'' # drop (length f - P) f)"
    using assms(1,4) unfolding format_f_def Let_def f_def [symmetric] by simp
  then show ?thesis using f by simp
qed

lemma length_pad: "length (pad left w s) = max w (length s)"
  by (auto simp: pad_def Let_def max_def)

lemma units_formats:
  "sprintf ''%4.2f %s'' [Double_Arg x, Str_Arg s] = pad False 4 (format_f 2 x) @ '' '' @ s"
  "sprintf ''%4.1f %s'' [Double_Arg x, Str_Arg s] = pad False 4 (format_f 1 x) @ '' '' @ s"
  "sprintf ''%4.0f %s'' [Double_Arg x, Str_Arg s] = pad False 4 (format_f 0 x) @ '' '' @ s"
  by (simp_all add: conversion_at_def convert_def is_digit_def digits_value_def pad_def)

lemma is_double_pow2: "is_double (2 ^ n)"
proof -
  have "pow2 (int n) = 2 ^ n" by (simp add: pow2_def)
  then show ?thesis
    using f64_pos_grid [of 1 "int n"] by (simp add: is_double_def f64_def)
qed

lemma unit_number_short:
  assumes "0 \<le> x" "x \<le> 2 ^ 67"
  shows "\<exists>num. sprintf (unit_number_format x) [Double_Arg x, Str_Arg s] = num @ '' '' @ s \<and> length num \<le> 21"
proof -
  have "(2 :: rat) ^ 67 < 2 ^ 1024" by (rule power_strict_increasing) simp_all
  then have fin: "\<not> isinf x" using assms by (simp add: isinf_def)
  have small: "f64 9.995 \<le> 10" "f64 99.95 \<le> 100"
    using f64_le_double [of "9.995" 10] f64_le_double [of "99.95" 100] f64_int [of 10] f64_int [of 100]
    by (simp_all add: is_double_def)
  have "(2 :: rat) ^ 67 * 10 ^ 0 < 10 ^ 21 - 1" by simp
  then have big: "length (format_f 0 x) \<le> 21"
    using length_format_f [of x 0 21] assms fin by simp
  have two: "length (format_f 2 x) \<le> 5" if "x < f64 9.995"
    using length_format_f [of x 2 4] that small assms fin by simp
  have one: "length (format_f 1 x) \<le> 5" if "x < f64 99.95"
    using length_format_f [of x 1 4] that small assms fin by simp
  have num: "\<exists>num. pad False 4 (format_f P x) @ '' '' @ s = num @ '' '' @ s \<and> length num \<le> 21"
    if "length (format_f P x) \<le> 21" for P
    using that by (intro exI [of _ "pad False 4 (format_f P x)"]) (simp add: length_pad)
  have le5: "5 \<le> (21 :: nat)" by simp
  consider "x < f64 9.995" | "\<not> x < f64 9.995" "x < f64 99.95" | "\<not> x < f64 9.995" "\<not> x < f64 99.95" by blast
  then show ?thesis
  proof cases
    case 1
    then show ?thesis
      using num [OF le_trans [OF two [OF 1] le5]] by (simp only: unit_number_format_def if_True units_formats)
  next
    case 2
    then show ?thesis
      using num [OF le_trans [OF one [OF 2(2)] le5]] by (simp only: unit_number_format_def if_True if_False units_formats)
  next
    case 3
    then show ?thesis
      using num [OF big] by (simp only: unit_number_format_def if_False units_formats)
  qed
qed

lemma factors:
  "\<forall>c \<in> set conversion_bytes. 0 \<le> c \<and> c \<le> 1" "\<forall>c \<in> set conversion_bits. 0 \<le> c \<and> c \<le> 1"
  "length conversion_bytes = 5" "length conversion_bits = 5" "length label_byte = 5" "length label_bit = 5"
proof -
  have k: "0 \<le> f64 (x / 1000) \<and> f64 (x / 1000) \<le> 1" if "0 \<le> x \<and> x \<le> 1" for x
    using that f64_nonneg [of "x / 1000"] f64_le_double [of "x / 1000" 1] f64_int [of 1] by (simp add: is_double_def)
  note k1 = k [of 1, simplified] note k2 = k [OF k1] note k3 = k [OF k2] note k4 = k [OF k3]
  show "\<forall>c \<in> set conversion_bits. 0 \<le> c \<and> c \<le> 1"
    using k1 k2 k3 k4 by (simp add: conversion_bits_def)
qed (simp_all add: conversion_bytes_def conversion_bits_def label_byte_def label_bit_def)

lemma adapt_bound: "n \<le> TERA_CONV \<Longrightarrow> adapt kilo n x \<le> TERA_CONV"
  by (induction kilo n x rule: adapt.induct) auto

lemma unit_conv_bound: "unit_conv c x < 5"
  using adapt_bound [of TERA_CONV] by (simp add: unit_conv_def Let_def less_Suc_eq_le flip: Suc_le_eq) (simp add: eval_nat_numeral le_Suc_eq)?

lemma unit_snprintf_whole:
  assumes "0 \<le> x" "x \<le> 2 ^ 64"
  shows "\<exists>num label. unit_snprintf UNIT_LEN x c = num @ '' '' @ label \<and> length num \<le> 21
    \<and> label \<in> set (label_byte @ label_bit)"
proof -
  define y where "y = (if isupper c then x else f64 (x * 8))"
  define i where "i = unit_conv c y"
  define z where "z = f64 (y * (if isupper c then conversion_bytes else conversion_bits) ! i)"
  define suffix where "suffix = (if isupper c then label_byte else label_bit) ! i"
  have i: "i < 5" by (simp add: i_def unit_conv_bound)
  have y: "0 \<le> y" "y \<le> 2 ^ 67"
    using assms f64_nonneg [of "x * 8"] f64_le_double [of "x * 8" "2 ^ 67"] is_double_pow2 [of 67]
    by (auto simp: y_def)
  have "(if isupper c then conversion_bytes else conversion_bits) ! i \<in> set (if isupper c then conversion_bytes else conversion_bits)"
    using i factors(3,4) by (intro nth_mem) simp
  then have f: "0 \<le> (if isupper c then conversion_bytes else conversion_bits) ! i"
    "(if isupper c then conversion_bytes else conversion_bits) ! i \<le> 1"
    using factors(1,2) by (simp_all split: if_splits)
  have "y * (if isupper c then conversion_bytes else conversion_bits) ! i \<le> 2 ^ 67"
    using mult_left_le [OF f(2) y(1)] y(2) by linarith
  then have z: "0 \<le> z" "z \<le> 2 ^ 67"
    unfolding z_def by - (rule f64_nonneg [OF mult_nonneg_nonneg [OF y(1) f(1)]], rule f64_le_double [OF _ is_double_pow2], assumption)
  have label: "suffix \<in> set (label_byte @ label_bit)"
    using i factors(5,6) by (auto simp: suffix_def intro: nth_mem)
  then have "length suffix \<le> 5" by (auto simp: label_byte_def label_bit_def)
  moreover obtain num where num: "sprintf (unit_number_format z) [Double_Arg z, Str_Arg suffix] = num @ '' '' @ suffix"
      "length num \<le> 21"
    using unit_number_short [OF z] by blast
  ultimately have "unit_snprintf UNIT_LEN x c = num @ '' '' @ suffix"
    by (simp add: unit_snprintf_def Let_def flip: y_def i_def z_def suffix_def) (simp add: snprintf_def UNIT_LEN_def)
  with num label show ?thesis by blast
qed

end
