(* ===== verification/Reports.thy ===== *)
theory Reports
  imports Printf Lifecycle Json_Print "HOL-Library.Signed_Division"
begin

text \<open>
  The reports of \<open>iperf/src/iperf_api.c\<close>: \<open>iperf_printf\<close>, \<open>iperf_print_intermediate\<close> with
  \<open>print_interval_results\<close>, \<open>iperf_print_results\<close> and \<open>iperf_reporter_callback\<close>; the formats of
  \<open>iperf_locale.c\<close>, \<open>iperf_json_printf\<close> of \<open>iperf_util.c\<close>, \<open>iperf_err\<close> of \<open>iperf_error.c\<close>.

  The state is the test with what is written: \<open>outfile\<close> and \<open>errfile\<close> are the texts written so far,
  \<open>clock_text\<close> is what \<open>strftime\<close> makes of a time in the format of the time stamps. The JSON document under
  construction is \<open>json_top\<close>; the pointers \<open>json_intervals\<close> and \<open>json_end\<close> are positions in it. Debugging output goes
  to the standard output, which is the output file unless there is a log file; \<open>stdout_text\<close> is what
  is written there beside a log file. Failing allocations are left out. A quotient by 0 is beyond every \<open>double\<close>.
\<close>

record report = iperf_test +
  timestamps :: bool
  clock_text :: "int \<Rightarrow> string"
  outfile :: string
  stdout_text :: string
  errfile :: string

abbreviation (input) STREAM_RUNNING :: int where "STREAM_RUNNING \<equiv> 6"

section \<open>Formats\<close>

definition report_bw_header :: string where
  "report_bw_header = ''[ ID] Interval           Transfer     Bitrate'' @ [newline]"
definition report_bw_header_bidir :: string where
  "report_bw_header_bidir = ''[ ID][Role] Interval           Transfer     Bitrate'' @ [newline]"
definition report_bw_retrans_header :: string where
  "report_bw_retrans_header = ''[ ID] Interval           Transfer     Bitrate         Retr'' @ [newline]"
definition report_bw_retrans_header_bidir :: string where
  "report_bw_retrans_header_bidir = ''[ ID][Role] Interval           Transfer     Bitrate         Retr'' @ [newline]"
definition report_bw_retrans_cwnd_header :: string where
  "report_bw_retrans_cwnd_header = ''[ ID] Interval           Transfer     Bitrate         Retr  Cwnd'' @ [newline]"
definition report_bw_retrans_cwnd_header_bidir :: string where
  "report_bw_retrans_cwnd_header_bidir =
     ''[ ID][Role] Interval           Transfer     Bitrate         Retr  Cwnd'' @ [newline]"
definition report_bw_udp_header :: string where
  "report_bw_udp_header =
     ''[ ID] Interval           Transfer     Bitrate         Jitter    Lost/Total Datagrams'' @ [newline]"
definition report_bw_udp_header_bidir :: string where
  "report_bw_udp_header_bidir =
     ''[ ID][Role] Interval           Transfer     Bitrate         Jitter    Lost/Total Datagrams'' @ [newline]"
definition report_bw_udp_sender_header :: string where
  "report_bw_udp_sender_header =
     ''[ ID] Interval           Transfer     Bitrate         Total Datagrams'' @ [newline]"
definition report_bw_format :: string where
  "report_bw_format = ''[%3d]%s %6.2f-%-6.2f sec  %ss  %ss/sec                  %s'' @ [newline]"
definition report_bw_retrans_format :: string where
  "report_bw_retrans_format = ''[%3d]%s %6.2f-%-6.2f sec  %ss  %ss/sec  %3u             %s'' @ [newline]"
definition report_bw_retrans_cwnd_format :: string where
  "report_bw_retrans_cwnd_format = ''[%3d]%s %6.2f-%-6.2f sec  %ss  %ss/sec  %3u   %ss       %s'' @ [newline]"
definition report_bw_udp_format :: string where
  "report_bw_udp_format = ''[%3d]%s %6.2f-%-6.2f sec  %ss  %ss/sec  %5.3f ms  %d/%d (%.2g%%)  %s'' @ [newline]"
definition report_bw_udp_sender_format :: string where
  "report_bw_udp_sender_format = ''[%3d]%s %6.2f-%-6.2f sec  %ss  %ss/sec %s %d  %s'' @ [newline]"
definition report_summary :: string where
  "report_summary = ''Test Complete. Summary Results:'' @ [newline]"
definition report_sum_bw_format :: string where
  "report_sum_bw_format = ''[SUM]%s %6.2f-%-6.2f sec  %ss  %ss/sec                  %s'' @ [newline]"
definition report_sum_bw_retrans_format :: string where
  "report_sum_bw_retrans_format = ''[SUM]%s %6.2f-%-6.2f sec  %ss  %ss/sec  %3d             %s'' @ [newline]"
definition report_sum_bw_udp_format :: string where
  "report_sum_bw_udp_format = ''[SUM]%s %6.2f-%-6.2f sec  %ss  %ss/sec  %5.3f ms  %d/%d (%.2g%%)  %s'' @ [newline]"
definition report_sum_bw_udp_sender_format :: string where
  "report_sum_bw_udp_sender_format = ''[SUM]%s %6.2f-%-6.2f sec  %ss  %ss/sec %s %d  %s'' @ [newline]"
definition report_omitted :: string where "report_omitted = ''(omitted)''"
definition report_bw_separator :: string where
  "report_bw_separator = ''- - - - - - - - - - - - - - - - - - - - - - - - -'' @ [newline]"
definition report_sum_outoforder :: string where
  "report_sum_outoforder = ''[SUM]%s %4.1f-%4.1f sec  %d datagrams received out-of-order'' @ [newline]"
definition report_diskfile :: string where
  "report_diskfile = ''        Sent %s / %s (%d%%) of %s'' @ [newline]"
definition report_cpu :: string where
  "report_cpu = ''CPU Utilization: %s/%s %.1f%% (%.1f%%u/%.1f%%s), %s/%s %.1f%% (%.1f%%u/%.1f%%s)'' @ [newline]"
definition report_sender_not_available_format :: string where
  "report_sender_not_available_format = ''[%3d] (sender statistics not available)'' @ [newline]"
definition report_sender_not_available_summary_format :: string where
  "report_sender_not_available_summary_format = ''[%3s] (sender statistics not available)'' @ [newline]"
definition report_receiver_not_available_format :: string where
  "report_receiver_not_available_format = ''[%3d] (receiver statistics not available)'' @ [newline]"
definition report_receiver_not_available_summary_format :: string where
  "report_receiver_not_available_summary_format = ''[%3s] (receiver statistics not available)'' @ [newline]"

section \<open>Writing\<close>

definition time_stamp :: "(report, string) state" where
  "time_stamp = do {
     ts \<leftarrow> gets timestamps;
     if ts then do {
       now \<leftarrow> call Clock_Time;
       f \<leftarrow> gets clock_text;
       State_Monad.return (take 99 (f (rv now))) }
     else State_Monad.return [] }"

definition write_out :: "string \<Rightarrow> (report, unit) state" where
  "write_out s = modify (\<lambda>t. t\<lparr>outfile := outfile t @ s\<rparr>)"

text \<open>\<open>printf\<close>, past \<open>iperf_printf\<close>.\<close>

definition plain_printf :: "string \<Rightarrow> arg list \<Rightarrow> (report, unit) state" where
  "plain_printf fmt args = modify (\<lambda>t. if logfile t = None then t\<lparr>outfile := outfile t @ sprintf fmt args\<rparr>
     else t\<lparr>stdout_text := stdout_text t @ sprintf fmt args\<rparr>)"

text \<open>
  \<open>iperf_printf\<close>: a client writes at once, a server through the line buffer of 1024 bytes, whose
  content it also keeps when the client asked for the server's output.
\<close>

definition iperf_printf :: "string \<Rightarrow> arg list \<Rightarrow> (report, unit) state" where
  "iperf_printf fmt args = do {
     ct \<leftarrow> time_stamp;
     role \<leftarrow> gets test_role;
     if role = CHR ''c'' then do {
       ti \<leftarrow> gets title;
       write_out (ct @ (case ti of None \<Rightarrow> [] | Some s \<Rightarrow> s @ '':  '') @ sprintf fmt args) }
     else if role = CHR ''s'' then do {
       let linebuffer = take 1023 (ct @ sprintf fmt args);
       write_out linebuffer;
       keep \<leftarrow> gets get_server_output;
       if keep then modify (\<lambda>t. t\<lparr>server_output_list := server_output_list t @ [linebuffer]\<rparr>)
       else State_Monad.return () }
     else State_Monad.return () }"

text \<open>A fixed text, written with \<open>"%s"\<close>.\<close>

definition iperf_puts :: "string \<Rightarrow> (report, unit) state" where
  "iperf_puts s = iperf_printf ''%s'' [Str_Arg s]"

section \<open>JSON\<close>

fun add_member :: "string \<Rightarrow> json \<Rightarrow> json \<Rightarrow> json" where
  "add_member k v (JObject ms) = JObject (ms @ [(k, v)])"
| "add_member k v j = j"

fun add_element :: "json \<Rightarrow> json \<Rightarrow> json" where
  "add_element v (JArray xs) = JArray (xs @ [v])"
| "add_element v j = j"

text \<open>Change an item inside its document: the member of a name, the last element.\<close>

fun at_members :: "string \<Rightarrow> (json \<Rightarrow> json) \<Rightarrow> (string \<times> json) list \<Rightarrow> (string \<times> json) list" where
  "at_members k f [] = []"
| "at_members k f ((n, v) # ms) = (if n = k then (n, f v) # ms else (n, v) # at_members k f ms)"

fun at_member :: "string \<Rightarrow> (json \<Rightarrow> json) \<Rightarrow> json \<Rightarrow> json" where
  "at_member k f (JObject ms) = JObject (at_members k f ms)"
| "at_member k f j = j"

fun at_last :: "(json \<Rightarrow> json) \<Rightarrow> json \<Rightarrow> json" where
  "at_last f (JArray xs) = JArray (if xs = [] then [] else butlast xs @ [f (last xs)])"
| "at_last f j = j"

definition in_json :: "string \<Rightarrow> (json \<Rightarrow> json) \<Rightarrow> (report, unit) state" where
  "in_json k f = modify (\<lambda>t. t\<lparr>json_top := map_option (at_member k f) (json_top t)\<rparr>)"

text \<open>
  \<open>iperf_json_printf\<close>: the characters up to a percent sign are the name, without blanks; every name in
  the program ends with a colon and is shorter than the buffer of 100 bytes.
\<close>

fun json_fields :: "string \<Rightarrow> string \<Rightarrow> arg list \<Rightarrow> (string \<times> json) list option" where
  "json_fields [] name args = Some []"
| "json_fields [c] name args = (if c = CHR ''%'' then None else Some [])"
| "json_fields (c # d # s) name args =
     (if c = CHR '' '' \<or> c = CHR '':'' then json_fields (d # s) name args
      else if c = CHR ''%'' then
        (case args of
           Int_Arg n # rest \<Rightarrow>
             if d = CHR ''b'' then map_option (Cons (name, if n = 0 then JFalse else JTrue)) (json_fields s [] rest)
             else if d = CHR ''d'' then map_option (Cons (name, json_int n)) (json_fields s [] rest)
             else None
         | Double_Arg x # rest \<Rightarrow>
             if d = CHR ''f'' then map_option (Cons (name, JNumber x)) (json_fields s [] rest) else None
         | Str_Arg v # rest \<Rightarrow>
             if d = CHR ''s'' then map_option (Cons (name, JString v)) (json_fields s [] rest) else None
         | [] \<Rightarrow> None)
      else json_fields (d # s) (name @ [c]) args)"

definition iperf_json_printf :: "string \<Rightarrow> arg list \<Rightarrow> json option" where
  "iperf_json_printf fmt args = map_option JObject (json_fields fmt [] args)"

text \<open>\<open>cJSON_AddItemToObject\<close> and \<open>cJSON_AddItemToArray\<close> ignore a null pointer.\<close>

definition add_printed :: "string \<Rightarrow> json option \<Rightarrow> json \<Rightarrow> json" where
  "add_printed k v j = (case v of None \<Rightarrow> j | Some i \<Rightarrow> add_member k i j)"

definition append_printed :: "json option \<Rightarrow> json \<Rightarrow> json" where
  "append_printed v j = (case v of None \<Rightarrow> j | Some i \<Rightarrow> add_element i j)"

definition Bool_Arg :: "bool \<Rightarrow> arg" where "Bool_Arg b = Int_Arg (if b then 1 else 0)"

text \<open>An \<open>iperf_size_t\<close> is cast to \<open>int64_t\<close> for JSON and to \<open>double\<close> for the text.\<close>

definition Size_Arg :: "u64 \<Rightarrow> arg" where "Size_Arg n = Int_Arg (sint n)"

definition double_of :: "u64 \<Rightarrow> rat" where "double_of n = f64 (of_nat (unat n))"

definition int_double :: "int \<Rightarrow> rat" where "int_double n = f64 (of_int n)"

text \<open>\<open>iperf_err\<close> with a text without arguments.\<close>

definition iperf_err :: "string \<Rightarrow> (report, unit) state" where
  "iperf_err text0 = do {
     ct \<leftarrow> time_stamp;
     let str = take 999 text0;
     t \<leftarrow> State_Monad.get;
     (if json_output t \<and> json_top t \<noteq> None
      then modify (\<lambda>t. t\<lparr>json_top := map_option (add_member ''error'' (JString str)) (json_top t)\<rparr>)
      else if logfile t \<noteq> None then write_out (ct @ ''iperf3: '' @ str @ [newline])
      else modify (\<lambda>t. t\<lparr>errfile := errfile t @ ct @ ''iperf3: '' @ str @ [newline]\<rparr>)) }"

section \<open>The report of an interval\<close>

definition role_text :: "bool \<Rightarrow> report \<Rightarrow> string" where
  "role_text sender t = (if mode t = BIDIRECTIONAL
     then CHR ''['' # (if sender then ''TX'' else ''RX'') @ ''-'' @ (if test_role t = CHR ''c'' then ''C'' else ''S'') @ '']''
     else [])"

definition blanks :: "report \<Rightarrow> string" where
  "blanks t = (if mode t = BIDIRECTIONAL then replicate 10 (CHR '' '') else [])"

definition is_stream_protocol :: "report \<Rightarrow> bool" where
  "is_stream_protocol t \<longleftrightarrow> protocol t = Ptcp \<or> protocol t = Psctp"

definition last_interval :: "stream \<Rightarrow> interval_results option" where
  "last_interval sp = (let irs = interval_results (result sp) in if irs = [] then None else Some (last irs))"

text \<open>The distance of two time stamps, in seconds; \<open>interval_duration\<close> is kept as a \<open>float\<close>.\<close>

definition seconds_between :: "iperf_time \<Rightarrow> iperf_time \<Rightarrow> rat" where
  "seconds_between a b = iperf_time_in_secs (snd (iperf_time_diff a b))"

definition f32 :: "rat \<Rightarrow> rat" where
  "f32 x = (if x \<le> 0 then 0 else
     let e = max (expo x - 23) (- 149) in of_int (round_half_even (x / pow2 e)) * pow2 e)"

definition interval_duration :: "interval_results \<Rightarrow> rat" where
  "interval_duration ir = f32 (seconds_between (ir_start ir) (ir_end ir))"

definition quotient :: "rat \<Rightarrow> rat \<Rightarrow> rat" where
  "quotient a b = (if b = 0 then 2 ^ 1024 else f64 (a / b))"

definition rate_of :: "u64 \<Rightarrow> rat \<Rightarrow> rat" where
  "rate_of bs d = (if d > 0 then f64 (double_of bs / d) else 0)"

definition percent_of :: "int \<Rightarrow> int \<Rightarrow> rat" where
  "percent_of lost n = (if n > 0 then f64 (f64 (100 * of_int lost) / of_int n) else 0)"

definition omitted_text :: "bool \<Rightarrow> string" where
  "omitted_text om = (if om then report_omitted else [])"

definition units :: "rat \<Rightarrow> char \<Rightarrow> arg" where
  "units x fmt = Str_Arg (unit_snprintf UNIT_LEN x fmt)"

text \<open>The lines above the table: in front of the first stream of the first interval, or between intervals.\<close>

definition interval_header :: "report \<Rightarrow> string" where
  "interval_header t =
     (if is_stream_protocol t then
        (if sender_has_retransmits t = 1
         then (if bidirectional t then report_bw_retrans_cwnd_header_bidir else report_bw_retrans_cwnd_header)
         else (if bidirectional t then report_bw_header_bidir else report_bw_header))
      else (case mode t of SENDER \<Rightarrow> report_bw_udp_sender_header | RECEIVER \<Rightarrow> report_bw_udp_header
            | BIDIRECTIONAL \<Rightarrow> report_bw_udp_header_bidir))"

definition print_header :: "bool \<Rightarrow> stream \<Rightarrow> interval_results \<Rightarrow> (report, unit) state" where
  "print_header first sp irp = do {
     t \<leftarrow> State_Monad.get;
     if \<not> json_output t \<and> first then
       (if iperf_time_compare (start_time (result sp)) (ir_start irp) = 0 then iperf_puts (interval_header t)
        else if num_streams t > 1 then iperf_puts report_bw_separator
        else State_Monad.return ())
     else State_Monad.return () }"

definition interval_json :: "report \<Rightarrow> stream \<Rightarrow> interval_results \<Rightarrow> json option" where
  "interval_json t sp irp =
     (let bandwidth = rate_of (ir_bytes irp) (interval_duration irp);
          begins = [Int_Arg (stream_socket sp), Double_Arg (seconds_between (start_time (result sp)) (ir_start irp)),
            Double_Arg (seconds_between (start_time (result sp)) (ir_end irp)), Double_Arg (interval_duration irp),
            Size_Arg (ir_bytes irp), Double_Arg (f64 (bandwidth * 8))];
          ends = [Bool_Arg (ir_omitted irp), Bool_Arg (is_sender sp)]
      in if is_stream_protocol t then
           (if sender_has_retransmits t = 1 \<and> is_sender sp then
              iperf_json_printf ''socket: %d  start: %f  end: %f  seconds: %f  bytes: %d  bits_per_second: %f  retransmits: %d  snd_cwnd:  %d  snd_wnd:  %d  rtt:  %d  rttvar: %d  pmtu: %d  omitted: %b sender: %b''
                (begins @ map Int_Arg [ir_retrans irp, ir_snd_cwnd irp, ir_snd_wnd irp, ir_rtt irp, ir_rttvar irp, ir_pmtu irp] @ ends)
            else
              iperf_json_printf ''socket: %d  start: %f  end: %f  seconds: %f  bytes: %d  bits_per_second: %f  omitted: %b sender: %b''
                (begins @ ends))
         else if is_sender sp then
           iperf_json_printf ''socket: %d  start: %f  end: %f  seconds: %f  bytes: %d  bits_per_second: %f  packets: %d  omitted: %b sender: %b''
             (begins @ Int_Arg (ir_interval_packet_count irp) # ends)
         else
           iperf_json_printf ''socket: %d  start: %f  end: %f  seconds: %f  bytes: %d  bits_per_second: %f  jitter_ms: %f  lost_packets: %d  packets: %d  lost_percent: %f  omitted: %b sender: %b''
             (begins @ [Double_Arg (f64 (ir_jitter irp * 1000)), Int_Arg (ir_interval_cnt_error irp),
                Int_Arg (ir_interval_packet_count irp),
                Double_Arg (percent_of (ir_interval_cnt_error irp) (ir_interval_packet_count irp))] @ ends))"

definition interval_line :: "report \<Rightarrow> stream \<Rightarrow> interval_results \<Rightarrow> string \<times> arg list" where
  "interval_line t sp irp =
     (let bandwidth = rate_of (ir_bytes irp) (interval_duration irp);
          begins = [Int_Arg (stream_socket sp), Str_Arg (role_text (is_sender sp) t),
            Double_Arg (seconds_between (start_time (result sp)) (ir_start irp)),
            Double_Arg (seconds_between (start_time (result sp)) (ir_end irp)),
            units (double_of (ir_bytes irp)) (CHR ''A''), units bandwidth (unit_format (settings t))];
          om = Str_Arg (omitted_text (ir_omitted irp))
      in if is_stream_protocol t then
           (if sender_has_retransmits t = 1 \<and> is_sender sp then
              (report_bw_retrans_cwnd_format,
               begins @ [Int_Arg (ir_retrans irp), units (int_double (ir_snd_cwnd irp)) (CHR ''A''), om])
            else (report_bw_format, begins @ [om]))
         else if is_sender sp then
           (report_bw_udp_sender_format, begins @ [Str_Arg (blanks t), Int_Arg (ir_interval_packet_count irp), om])
         else
           (report_bw_udp_format, begins @ [Double_Arg (f64 (ir_jitter irp * 1000)), Int_Arg (ir_interval_cnt_error irp),
              Int_Arg (ir_interval_packet_count irp),
              Double_Arg (percent_of (ir_interval_cnt_error irp) (ir_interval_packet_count irp)), om]))"

text \<open>\<open>first\<close>: this is the stream at the head of the list. \<open>json_interval\<close> is the last interval of the document.\<close>

definition print_interval_results :: "bool \<Rightarrow> stream \<Rightarrow> (report, unit) state" where
  "print_interval_results first sp =
     (case last_interval sp of
        None \<Rightarrow> iperf_err ''print_interval_results error: interval_results is NULL''
      | Some irp \<Rightarrow> do {
          print_header first sp irp;
          t \<leftarrow> State_Monad.get;
          if json_output t then
            in_json ''intervals'' (at_last (at_member ''streams'' (append_printed (interval_json t sp irp))))
          else (case interval_line t sp irp of (fmt, args) \<Rightarrow> iperf_printf fmt args) })"

text \<open>The sums over the streams of one direction; \<open>None\<close> is the early return.\<close>

record interval_sums =
  su_bytes :: u64
  su_retransmits :: int
  su_packets :: int
  su_lost :: int
  su_jitter :: rat

definition no_sums :: interval_sums where
  "no_sums = \<lparr>su_bytes = 0, su_retransmits = 0, su_packets = 0, su_lost = 0, su_jitter = 0\<rparr>"

definition add_interval :: "report \<Rightarrow> interval_results \<Rightarrow> interval_sums \<Rightarrow> interval_sums" where
  "add_interval t irp s =
     (let s1 = s\<lparr>su_bytes := su_bytes s + ir_bytes irp\<rparr> in
      if protocol t = Ptcp then
        (if sender_has_retransmits t = 1 then s1\<lparr>su_retransmits := su_retransmits s + ir_retrans irp\<rparr> else s1)
      else s1\<lparr>su_packets := su_packets s + ir_interval_packet_count irp,
              su_lost := su_lost s + ir_interval_cnt_error irp,
              su_jitter := f64 (su_jitter s + ir_jitter irp)\<rparr>)"

fun print_streams :: "bool \<Rightarrow> bool \<Rightarrow> stream list \<Rightarrow> interval_sums \<Rightarrow> (report, interval_sums option) state" where
  "print_streams must_send first [] s = State_Monad.return (Some s)"
| "print_streams must_send first (sp # sps) s =
     (if is_sender sp = must_send then do {
        print_interval_results first sp;
        t \<leftarrow> State_Monad.get;
        case last_interval sp of
          None \<Rightarrow> do {
            iperf_err ''iperf_print_intermediate error: interval_results is NULL'';
            State_Monad.return None }
        | Some irp \<Rightarrow> print_streams must_send False sps (add_interval t irp s) }
      else print_streams must_send False sps s)"

definition sum_json :: "report \<Rightarrow> bool \<Rightarrow> stream \<Rightarrow> interval_results \<Rightarrow> interval_sums \<Rightarrow> json option" where
  "sum_json t must_send sp irp s =
     (let bandwidth = quotient (double_of (su_bytes s)) (interval_duration irp);
          begins = [Double_Arg (seconds_between (start_time (result sp)) (ir_start irp)),
            Double_Arg (seconds_between (start_time (result sp)) (ir_end irp)), Double_Arg (interval_duration irp),
            Size_Arg (su_bytes s), Double_Arg (f64 (bandwidth * 8))];
          ends = [Bool_Arg (omitting t), Bool_Arg must_send]
      in if is_stream_protocol t then
           (if sender_has_retransmits t = 1 \<and> must_send then
              iperf_json_printf ''start: %f  end: %f  seconds: %f  bytes: %d  bits_per_second: %f  retransmits: %d  omitted: %b sender: %b''
                (begins @ [Int_Arg (su_retransmits s), Bool_Arg (ir_omitted irp), Bool_Arg must_send])
            else
              iperf_json_printf ''start: %f  end: %f  seconds: %f  bytes: %d  bits_per_second: %f  omitted: %b sender: %b''
                (begins @ ends))
         else if must_send then
           iperf_json_printf ''start: %f  end: %f  seconds: %f  bytes: %d  bits_per_second: %f  packets: %d  omitted: %b sender: %b''
             (begins @ Int_Arg (su_packets s) # ends)
         else
           iperf_json_printf ''start: %f  end: %f  seconds: %f  bytes: %d  bits_per_second: %f  jitter_ms: %f  lost_packets: %d  packets: %d  lost_percent: %f  omitted: %b sender: %b''
             (begins @ [Double_Arg (f64 (quotient (su_jitter s) (of_int (num_streams t)) * 1000)), Int_Arg (su_lost s),
                Int_Arg (su_packets s), Double_Arg (percent_of (su_lost s) (su_packets s))] @ ends))"

definition sum_line :: "report \<Rightarrow> bool \<Rightarrow> stream \<Rightarrow> interval_results \<Rightarrow> interval_sums \<Rightarrow> string \<times> arg list" where
  "sum_line t must_send sp irp s =
     (let bandwidth = quotient (double_of (su_bytes s)) (interval_duration irp);
          begins = [Str_Arg (role_text must_send t), Double_Arg (seconds_between (start_time (result sp)) (ir_start irp)),
            Double_Arg (seconds_between (start_time (result sp)) (ir_end irp)),
            units (double_of (su_bytes s)) (CHR ''A''), units bandwidth (unit_format (settings t))];
          om = Str_Arg (omitted_text (omitting t))
      in if is_stream_protocol t then
           (if sender_has_retransmits t = 1 \<and> must_send then
              (report_sum_bw_retrans_format, begins @ [Int_Arg (su_retransmits s), Str_Arg (omitted_text (ir_omitted irp))])
            else (report_sum_bw_format, begins @ [om]))
         else if must_send then
           (report_sum_bw_udp_sender_format, begins @ [Str_Arg (blanks t), Int_Arg (su_packets s), om])
         else
           (report_sum_bw_udp_format,
            begins @ [Double_Arg (f64 (quotient (su_jitter s) (of_int (num_streams t)) * 1000)), Int_Arg (su_lost s),
              Int_Arg (su_packets s), Double_Arg (percent_of (su_lost s) (su_packets s)), om]))"

text \<open>The sum is printed from the times of the first stream; if that one has no interval, a null pointer is read.\<close>

definition print_sum :: "bool \<Rightarrow> interval_sums \<Rightarrow> (report, outcome) state" where
  "print_sum must_send s = do {
     t \<leftarrow> State_Monad.get;
     if num_streams t > 1 \<or> json_output t then
       (case streams t of
          [] \<Rightarrow> State_Monad.return (Ret 0)
        | sp # sps \<Rightarrow>
          (case last_interval sp of
             None \<Rightarrow> State_Monad.return Crash
           | Some irp \<Rightarrow> do {
               (if json_output t then
                  in_json ''intervals'' (at_last (add_printed ''sum'' (sum_json t must_send sp irp s)))
                else (case sum_line t must_send sp irp s of (fmt, args) \<Rightarrow> iperf_printf fmt args));
               State_Monad.return (Ret 0) }))
     else State_Monad.return (Ret 0) }"

text \<open>The directions that are reported, the sending one as \<open>True\<close>: \<open>current_mode * current_mode\<close> for each mode from the lower to the upper.\<close>

definition mode_number :: "test_mode \<Rightarrow> int" where
  "mode_number m = (case m of SENDER \<Rightarrow> 1 | RECEIVER \<Rightarrow> 0 | BIDIRECTIONAL \<Rightarrow> -1)"

definition lower_mode :: "report \<Rightarrow> int" where
  "lower_mode t = (if mode t = BIDIRECTIONAL then (if test_role t = CHR ''c'' then -1 else 0) else mode_number (mode t))"

definition upper_mode :: "report \<Rightarrow> int" where
  "upper_mode t = (if mode t = BIDIRECTIONAL then (if test_role t = CHR ''c'' then 0 else 1) else mode_number (mode t))"

definition must_be_sender :: "int \<Rightarrow> bool" where
  "must_be_sender m \<longleftrightarrow> m * m \<noteq> 0"

fun print_directions :: "int list \<Rightarrow> (report, outcome) state" where
  "print_directions [] = State_Monad.return (Ret 0)"
| "print_directions (m # ms) = do {
     t \<leftarrow> State_Monad.get;
     acc \<leftarrow> print_streams (must_be_sender m) True (streams t) no_sums;
     (case acc of
        None \<Rightarrow> State_Monad.return (Ret 0)
      | Some s \<Rightarrow> do {
          r \<leftarrow> print_sum (must_be_sender m) s;
          if r = Crash then State_Monad.return Crash else print_directions ms }) }"

text \<open>
  An interval is worth a report if a stream ran for a tenth of it or moved something. With debugging on, the loop that finds out tells
  what it sees.
\<close>

definition forces_keep :: "report \<Rightarrow> interval_results \<Rightarrow> bool" where
  "forces_keep t irp \<longleftrightarrow>
     seconds_between (ir_start irp) (ir_end irp) \<ge> f64 (stats_interval t * f64 (1 / 10)) \<or> ir_bytes irp > 0"

definition interval_ok :: "report \<Rightarrow> bool" where
  "interval_ok t \<longleftrightarrow> (\<exists>sp \<in> set (streams t). case last_interval sp of None \<Rightarrow> False | Some irp \<Rightarrow> forces_keep t irp)"

definition debug_lines :: "report \<Rightarrow> (string \<times> arg list) list" where
  "debug_lines t = concat (map (\<lambda>sp. case last_interval sp of
       None \<Rightarrow> []
     | Some irp \<Rightarrow> (''interval_len %f bytes_transferred %d'' @ [newline],
           [Double_Arg (seconds_between (ir_start irp) (ir_end irp)), Int_Arg (uint (ir_bytes irp))])
         # (if forces_keep t irp then [(''interval forces keep'' @ [newline], [])] else [])) (streams t))
     @ (if interval_ok t then [] else [(''ignoring short interval with no data'' @ [newline], [])])"

definition interval_debug :: "(report, unit) state" where
  "interval_debug = do {
     t \<leftarrow> State_Monad.get;
     if debug t then for_each (debug_lines t) (\<lambda>(fmt, args). plain_printf fmt args) else State_Monad.return () }"

definition iperf_print_intermediate :: "(report, outcome) state" where
  "iperf_print_intermediate = do {
     interval_debug;
     t \<leftarrow> State_Monad.get;
     if \<not> interval_ok t then State_Monad.return (Ret 0) else do {
       (if json_output t
        then in_json ''intervals'' (add_element (JObject [(''streams'', JArray [])]))
        else State_Monad.return ());
       print_directions [lower_mode t..upper_mode t] } }"

section \<open>The final report\<close>

definition final_header :: "report \<Rightarrow> string" where
  "final_header t =
     (if is_stream_protocol t then
        (if sender_has_retransmits t \<noteq> 0 \<or> other_side_has_retransmits t \<noteq> 0
         then (if bidirectional t then report_bw_retrans_header_bidir else report_bw_retrans_header)
         else (if bidirectional t then report_bw_header_bidir else report_bw_header))
      else (if bidirectional t then report_bw_udp_header_bidir else report_bw_udp_header))"

definition print_final_header :: "(report, unit) state" where
  "print_final_header = do {
     t \<leftarrow> State_Monad.get;
     if json_output t then in_json ''end'' (add_member ''streams'' (JArray []))
     else do {
       iperf_puts report_bw_separator;
       (if verbose t then iperf_puts report_summary else State_Monad.return ());
       iperf_puts (final_header t) } }"

text \<open>The times of sending and receiving: the own one is measured, the other one came with the results or is the same.\<close>

definition settle_times :: "stream \<Rightarrow> stream" where
  "settle_times sp =
     (let rp = result sp; e = seconds_between (start_time rp) (end_time rp) in
      if is_sender sp then
        sp\<lparr>result := rp\<lparr>sender_time := e, receiver_time := (if receiver_time rp = 0 then e else receiver_time rp)\<rparr>\<rparr>
      else
        sp\<lparr>result := rp\<lparr>receiver_time := e, sender_time := (if sender_time rp = 0 then e else sender_time rp)\<rparr>\<rparr>)"

definition settle_first :: "report \<Rightarrow> report" where
  "settle_first t = (case streams t of [] \<Rightarrow> t | sp # sps \<Rightarrow> t\<lparr>streams := settle_times sp # sps\<rparr>)"

definition sender_packets :: "stream \<Rightarrow> int" where
  "sender_packets sp = (if is_sender sp then packet_count sp else peer_packet_count sp)"

definition receiver_packets :: "stream \<Rightarrow> int" where
  "receiver_packets sp = (if is_sender sp then peer_packet_count sp else packet_count sp)"

definition known_packets :: "stream \<Rightarrow> int" where
  "known_packets sp = (if sender_packets sp \<noteq> 0 then sender_packets sp else receiver_packets sp)"

definition bytes_counted :: "stream \<Rightarrow> u64" where
  "bytes_counted sp = bytes_sent (result sp) - bytes_sent_omit (result sp)"

record summary_sums =
  ss_sent :: u64
  ss_received :: u64
  ss_retransmits :: int
  ss_packets :: int
  ss_sender_packets :: int
  ss_receiver_packets :: int
  ss_lost :: int
  ss_jitter :: rat

definition no_summary :: summary_sums where
  "no_summary = \<lparr>ss_sent = 0, ss_received = 0, ss_retransmits = 0, ss_packets = 0, ss_sender_packets = 0,
     ss_receiver_packets = 0, ss_lost = 0, ss_jitter = 0\<rparr>"

definition add_summary :: "report \<Rightarrow> stream \<Rightarrow> summary_sums \<Rightarrow> summary_sums" where
  "add_summary t sp s =
     (let s1 = s\<lparr>ss_sent := ss_sent s + bytes_counted sp, ss_received := ss_received s + bytes_received (result sp)\<rparr> in
      if is_stream_protocol t then
        (if sender_has_retransmits t \<noteq> 0
         then s1\<lparr>ss_retransmits := ss_retransmits s + stream_retrans (result sp)\<rparr> else s1)
      else s1\<lparr>ss_packets := ss_packets s + (known_packets sp - omitted_packet_count sp),
              ss_sender_packets := ss_sender_packets s + (sender_packets sp - omitted_packet_count sp),
              ss_receiver_packets := ss_receiver_packets s + (receiver_packets sp - omitted_packet_count sp),
              ss_lost := ss_lost s + (cnt_error sp - omitted_cnt_error sp),
              ss_jitter := f64 (ss_jitter s + jitter sp)\<rparr>)"

text \<open>The three times that a direction is reported with.\<close>

record report_times =
  rt_sender :: rat
  rt_receiver :: rat
  rt_end :: rat

definition times_of :: "report \<Rightarrow> report_times" where
  "times_of t = (case streams t of
       [] \<Rightarrow> \<lparr>rt_sender = 0, rt_receiver = 0, rt_end = 0\<rparr>
     | sp # sps \<Rightarrow> \<lparr>rt_sender = sender_time (result sp), rt_receiver = receiver_time (result sp),
         rt_end = seconds_between (start_time (result sp)) (end_time (result sp))\<rparr>)"

definition lost_of :: "stream \<Rightarrow> int" where "lost_of sp = cnt_error sp - omitted_cnt_error sp"

definition out_of_order :: "stream \<Rightarrow> int" where
  "out_of_order sp = outoforder_packets sp - omitted_outoforder_packets sp"

text \<open>The sending side of one stream: the member of its JSON object, the lines of the text.\<close>

definition sender_json :: "report \<Rightarrow> report_times \<Rightarrow> bool \<Rightarrow> stream \<Rightarrow> string \<times> json option" where
  "sender_json t ti must_send sp =
     (let rp = result sp;
          begins = [Int_Arg (stream_socket sp), Double_Arg 0, Double_Arg (rt_sender ti), Double_Arg (rt_sender ti),
            Size_Arg (bytes_counted sp), Double_Arg (f64 (rate_of (bytes_counted sp) (rt_sender ti) * 8))];
          n = sender_packets sp - omitted_packet_count sp
      in if is_stream_protocol t then
           (''sender'',
            if sender_has_retransmits t \<noteq> 0 then
              iperf_json_printf ''socket: %d  start: %f  end: %f  seconds: %f  bytes: %d  bits_per_second: %f  retransmits: %d  max_snd_cwnd:  %d  max_snd_wnd:  %d  max_rtt:  %d  min_rtt:  %d  mean_rtt:  %d sender: %b''
                (begins @ map Int_Arg [stream_retrans rp, stream_max_snd_cwnd rp, stream_max_snd_wnd rp,
                     stream_max_rtt rp, stream_min_rtt rp,
                     if stream_count_rtt rp = 0 then 0 else signed_divide (stream_sum_rtt rp) (stream_count_rtt rp)]
                  @ [Bool_Arg must_send])
            else
              iperf_json_printf ''socket: %d  start: %f  end: %f  seconds: %f  bytes: %d  bits_per_second: %f sender: %b''
                (begins @ [Bool_Arg must_send]))
         else
           (''udp'',
            iperf_json_printf ''socket: %d  start: %f  end: %f  seconds: %f  bytes: %d  bits_per_second: %f  jitter_ms: %f  lost_packets: %d  packets: %d  lost_percent: %f  out_of_order: %d sender: %b''
              (begins @ [Double_Arg (f64 (jitter sp * 1000)), Int_Arg (lost_of sp),
                 Int_Arg (known_packets sp - omitted_packet_count sp), Double_Arg (percent_of (lost_of sp) n),
                 Int_Arg (out_of_order sp), Bool_Arg must_send])))"

definition sender_lines :: "report \<Rightarrow> report_times \<Rightarrow> bool \<Rightarrow> stream \<Rightarrow> (string \<times> arg list) list" where
  "sender_lines t ti must_send sp =
     (let begins = [Int_Arg (stream_socket sp), Str_Arg (role_text must_send t), Double_Arg 0, Double_Arg (rt_sender ti),
            units (double_of (bytes_counted sp)) (CHR ''A''),
            units (rate_of (bytes_counted sp) (rt_sender ti)) (unit_format (settings t))];
          absent = (if verbose t then [(report_sender_not_available_format, [Int_Arg (stream_socket sp)])] else []);
          n = sender_packets sp - omitted_packet_count sp
      in if is_stream_protocol t then
           (if test_role t = CHR ''s'' \<and> \<not> is_sender sp then absent
            else if sender_has_retransmits t \<noteq> 0 then
              [(report_bw_retrans_format, begins @ [Int_Arg (stream_retrans (result sp)), Str_Arg ''sender''])]
            else [(report_bw_format, begins @ [Str_Arg ''sender''])])
         else
           (if test_role t = CHR ''s'' \<and> \<not> is_sender sp then absent
            else [(report_bw_udp_format,
              begins @ [Double_Arg 0, Int_Arg 0, Int_Arg n, Double_Arg 0, Str_Arg ''sender''])])
           @ (if out_of_order sp > 0
              then [(report_sum_outoforder, [Str_Arg (role_text must_send t), Double_Arg 0, Double_Arg (rt_sender ti),
                  Int_Arg (out_of_order sp)])]
              else []))"

text \<open>The receiving side; for UDP its JSON is in the object of the sending side.\<close>

definition receiver_json :: "report \<Rightarrow> report_times \<Rightarrow> bool \<Rightarrow> stream \<Rightarrow> json option" where
  "receiver_json t ti must_send sp =
     iperf_json_printf ''socket: %d  start: %f  end: %f  seconds: %f  bytes: %d  bits_per_second: %f sender: %b''
       [Int_Arg (stream_socket sp), Double_Arg 0, Double_Arg (rt_receiver ti), Double_Arg (rt_end ti),
        Size_Arg (bytes_received (result sp)),
        Double_Arg (f64 (rate_of (bytes_received (result sp)) (rt_receiver ti) * 8)), Bool_Arg must_send]"

definition receiver_lines :: "report \<Rightarrow> report_times \<Rightarrow> bool \<Rightarrow> stream \<Rightarrow> (string \<times> arg list) list" where
  "receiver_lines t ti must_send sp =
     (let begins = [Int_Arg (stream_socket sp), Str_Arg (role_text must_send t), Double_Arg 0, Double_Arg (rt_receiver ti),
            units (double_of (bytes_received (result sp))) (CHR ''A''),
            units (rate_of (bytes_received (result sp)) (rt_receiver ti)) (unit_format (settings t))];
          n = receiver_packets sp - omitted_packet_count sp
      in if test_role t = CHR ''s'' \<and> is_sender sp then
           (if verbose t then [(report_receiver_not_available_format, [Int_Arg (stream_socket sp)])] else [])
         else if is_stream_protocol t then [(report_bw_format, begins @ [Str_Arg ''receiver''])]
         else [(report_bw_udp_format, begins @ [Double_Arg (f64 (jitter sp * 1000)), Int_Arg (lost_of sp), Int_Arg n,
                Double_Arg (percent_of (lost_of sp) n), Str_Arg ''receiver''])])"

text \<open>The file of a stream: \<open>size\<close> is what \<open>fstat\<close> gives.\<close>

definition percent_moved :: "u64 \<Rightarrow> int \<Rightarrow> int" where
  "percent_moved n sz = (if sz > 0 then \<lfloor>f64 (f64 (double_of n / int_double sz) * 100)\<rfloor> else 100)"

definition diskfile_json :: "report \<Rightarrow> stream \<Rightarrow> int \<Rightarrow> json option" where
  "diskfile_json t sp sz =
     iperf_json_printf ''sent: %d  received: %d  size: %d  percent_sent: %d  percent_received: %d  filename: %s''
       [Size_Arg (bytes_counted sp), Size_Arg (bytes_received (result sp)), Int_Arg sz,
        Int_Arg (percent_moved (bytes_counted sp) sz), Int_Arg (percent_moved (bytes_received (result sp)) sz),
        Str_Arg (the (diskfile_name t))]"

definition diskfile_line :: "report \<Rightarrow> bool \<Rightarrow> stream \<Rightarrow> int \<Rightarrow> string \<times> arg list" where
  "diskfile_line t must_send sp sz =
     (let n = (if must_send then bytes_counted sp else bytes_received (result sp))
      in (report_diskfile, [units (double_of n) (CHR ''A''), units (int_double sz) (CHR ''A''),
            Int_Arg (percent_moved n sz), Str_Arg (the (diskfile_name t))]))"

definition printf_all :: "(string \<times> arg list) list \<Rightarrow> (report, unit) state" where
  "printf_all ls = for_each ls (\<lambda>(fmt, args). iperf_printf fmt args)"

text \<open>An item of the object that is last in the list of streams.\<close>

definition in_summary :: "string \<Rightarrow> json option \<Rightarrow> (report, unit) state" where
  "in_summary k v = in_json ''end'' (at_member ''streams'' (at_last (add_printed k v)))"

definition print_diskfile :: "report \<Rightarrow> bool \<Rightarrow> stream \<Rightarrow> (report, unit) state" where
  "print_diskfile t must_send sp =
     (if diskfile_fd sp < 0 then State_Monad.return () else do {
        st \<leftarrow> call (Fstat (diskfile_fd sp));
        if rv st \<noteq> 0 then State_Monad.return ()
        else if json_output t then in_summary ''diskfile'' (diskfile_json t sp (rval st))
        else printf_all [diskfile_line t must_send sp (rval st)] })"

definition print_stream_summary :: "report_times \<Rightarrow> bool \<Rightarrow> stream \<Rightarrow> (report, unit) state" where
  "print_stream_summary ti must_send sp = do {
     t \<leftarrow> State_Monad.get;
     (if json_output t then do {
        in_json ''end'' (at_member ''streams'' (add_element (JObject [])));
        (case sender_json t ti must_send sp of (k, v) \<Rightarrow> in_summary k v) }
      else printf_all (sender_lines t ti must_send sp));
     print_diskfile t must_send sp;
     (if \<not> json_output t then printf_all (receiver_lines t ti must_send sp)
      else if is_stream_protocol t then in_summary ''receiver'' (receiver_json t ti must_send sp)
      else State_Monad.return ()) }"

fun summarise_streams :: "report_times \<Rightarrow> bool \<Rightarrow> stream list \<Rightarrow> summary_sums \<Rightarrow> (report, summary_sums) state" where
  "summarise_streams ti must_send [] s = State_Monad.return s"
| "summarise_streams ti must_send (sp # sps) s =
     (if is_sender sp = must_send then do {
        t \<leftarrow> State_Monad.get;
        print_stream_summary ti must_send sp;
        summarise_streams ti must_send sps (add_summary t sp s) }
      else summarise_streams ti must_send sps s)"

text \<open>The sums over the streams of a direction.\<close>

definition sum_sent_json :: "report \<Rightarrow> report_times \<Rightarrow> bool \<Rightarrow> summary_sums \<Rightarrow> json option" where
  "sum_sent_json t ti must_send s =
     (let begins = [Double_Arg 0, Double_Arg (rt_sender ti), Double_Arg (rt_sender ti), Size_Arg (ss_sent s),
            Double_Arg (f64 (rate_of (ss_sent s) (rt_sender ti) * 8))]
      in if sender_has_retransmits t \<noteq> 0 then
           iperf_json_printf ''start: %f  end: %f  seconds: %f  bytes: %d  bits_per_second: %f  retransmits: %d sender: %b''
             (begins @ [Int_Arg (ss_retransmits s), Bool_Arg must_send])
         else
           iperf_json_printf ''start: %f  end: %f  seconds: %f  bytes: %d  bits_per_second: %f sender: %b''
             (begins @ [Bool_Arg must_send]))"

definition sum_received_json :: "report_times \<Rightarrow> bool \<Rightarrow> summary_sums \<Rightarrow> json option" where
  "sum_received_json ti must_send s =
     iperf_json_printf ''start: %f  end: %f  seconds: %f  bytes: %d  bits_per_second: %f sender: %b''
       [Double_Arg 0, Double_Arg (rt_receiver ti), Double_Arg (rt_receiver ti), Size_Arg (ss_received s),
        Double_Arg (f64 (rate_of (ss_received s) (rt_receiver ti) * 8)), Bool_Arg must_send]"

definition sum_udp_json :: "report \<Rightarrow> report_times \<Rightarrow> bool \<Rightarrow> summary_sums \<Rightarrow> json option" where
  "sum_udp_json t ti must_send s =
     iperf_json_printf ''start: %f  end: %f  seconds: %f  bytes: %d  bits_per_second: %f  jitter_ms: %f  lost_packets: %d  packets: %d  lost_percent: %f sender: %b''
       [Double_Arg 0, Double_Arg (rt_receiver ti), Double_Arg (rt_receiver ti), Size_Arg (ss_sent s),
        Double_Arg (f64 (rate_of (ss_sent s) (rt_sender ti) * 8)),
        Double_Arg (f64 (quotient (ss_jitter s) (of_int (num_streams t)) * 1000)), Int_Arg (ss_lost s),
        Int_Arg (ss_packets s), Double_Arg (percent_of (ss_lost s) (ss_packets s)), Bool_Arg must_send]"

definition sum_sent_lines :: "report \<Rightarrow> report_times \<Rightarrow> bool \<Rightarrow> summary_sums \<Rightarrow> (string \<times> arg list) list" where
  "sum_sent_lines t ti must_send s =
     (let begins = [Str_Arg (role_text must_send t), Double_Arg 0, Double_Arg (rt_sender ti),
            units (double_of (ss_sent s)) (CHR ''A''),
            units (rate_of (ss_sent s) (rt_sender ti)) (unit_format (settings t))]
      in if test_role t = CHR ''s'' \<and> \<not> must_send then
           (if verbose t then [(report_sender_not_available_summary_format, [Str_Arg ''SUM''])] else [])
         else if sender_has_retransmits t \<noteq> 0 then
           [(report_sum_bw_retrans_format, begins @ [Int_Arg (ss_retransmits s), Str_Arg ''sender''])]
         else [(report_sum_bw_format, begins @ [Str_Arg ''sender''])])"

definition sum_received_lines :: "report \<Rightarrow> report_times \<Rightarrow> bool \<Rightarrow> summary_sums \<Rightarrow> (string \<times> arg list) list" where
  "sum_received_lines t ti must_send s =
     (if test_role t = CHR ''s'' \<and> must_send then
        (if verbose t then [(report_receiver_not_available_summary_format, [Str_Arg ''SUM''])] else [])
      else [(report_sum_bw_format, [Str_Arg (role_text must_send t), Double_Arg 0, Double_Arg (rt_receiver ti),
             units (double_of (ss_received s)) (CHR ''A''),
             units (rate_of (ss_received s) (rt_receiver ti)) (unit_format (settings t)), Str_Arg ''receiver''])])"

definition sum_udp_lines :: "report \<Rightarrow> report_times \<Rightarrow> bool \<Rightarrow> summary_sums \<Rightarrow> (string \<times> arg list) list" where
  "sum_udp_lines t ti must_send s =
     (if \<not> (test_role t = CHR ''s'' \<and> \<not> must_send)
      then [(report_sum_bw_udp_format, [Str_Arg (role_text must_send t), Double_Arg 0, Double_Arg (rt_sender ti),
             units (double_of (ss_sent s)) (CHR ''A''),
             units (rate_of (ss_sent s) (rt_sender ti)) (unit_format (settings t)),
             Double_Arg 0, Int_Arg 0, Int_Arg (ss_sender_packets s), Double_Arg 0, Str_Arg ''sender''])]
      else [])
     @ (if \<not> (test_role t = CHR ''s'' \<and> must_send)
        then [(report_sum_bw_udp_format, [Str_Arg (role_text must_send t), Double_Arg 0, Double_Arg (rt_receiver ti),
               units (double_of (ss_received s)) (CHR ''A''),
               units (if rt_end ti > 0 then quotient (double_of (ss_received s)) (rt_receiver ti) else 0)
                 (unit_format (settings t)),
               Double_Arg (f64 (quotient (ss_jitter s) (of_int (num_streams t)) * 1000)), Int_Arg (ss_lost s),
               Int_Arg (ss_receiver_packets s), Double_Arg (percent_of (ss_lost s) (ss_packets s)), Str_Arg ''receiver''])]
        else [])"

definition print_summary :: "report_times \<Rightarrow> bool \<Rightarrow> summary_sums \<Rightarrow> (report, unit) state" where
  "print_summary ti must_send s = do {
     t \<leftarrow> State_Monad.get;
     if \<not> (num_streams t > 1 \<or> json_output t) then State_Monad.return ()
     else if json_output t then
       (if is_stream_protocol t then do {
          in_json ''end'' (add_printed ''sum_sent'' (sum_sent_json t ti must_send s));
          in_json ''end'' (add_printed ''sum_received'' (sum_received_json ti must_send s)) }
        else in_json ''end'' (add_printed ''sum'' (sum_udp_json t ti must_send s)))
     else printf_all (if is_stream_protocol t
       then sum_sent_lines t ti must_send s @ sum_received_lines t ti must_send s
       else sum_udp_lines t ti must_send s) }"

text \<open>The processor load and the congestion algorithms, then the output of the server.\<close>

definition congestions :: "report \<Rightarrow> bool \<Rightarrow> string option \<times> string option" where
  "congestions t must_send = (if must_send then (congestion_used t, remote_congestion_used t)
     else (remote_congestion_used t, congestion_used t))"

definition add_text :: "string \<Rightarrow> string option \<Rightarrow> json \<Rightarrow> json" where
  "add_text k v j = (case v of None \<Rightarrow> j | Some x \<Rightarrow> add_member k (JString x) j)"

definition host_json :: "report \<Rightarrow> bool \<Rightarrow> json \<Rightarrow> json" where
  "host_json t must_send j =
     (let j1 = add_printed ''cpu_utilization_percent''
            (iperf_json_printf ''host_total: %f  host_user: %f  host_system: %f  remote_total: %f  remote_user: %f  remote_system: %f''
              (map Double_Arg (take 3 (cpu_util t) @ take 3 (remote_cpu_util t)))) j
      in if protocol t = Ptcp then
           add_text ''receiver_tcp_congestion'' (snd (congestions t must_send))
             (add_text ''sender_tcp_congestion'' (fst (congestions t must_send)) j1)
         else j1)"

definition cpu_line :: "report \<Rightarrow> bool \<Rightarrow> string \<times> arg list" where
  "cpu_line t sends = (report_cpu,
     [Str_Arg ''local'', Str_Arg (if sends then ''sender'' else ''receiver'')] @ map Double_Arg (take 3 (cpu_util t))
     @ [Str_Arg ''remote'', Str_Arg (if sends then ''receiver'' else ''sender'')] @ map Double_Arg (take 3 (remote_cpu_util t)))"

definition congestion_lines :: "report \<Rightarrow> bool \<Rightarrow> (string \<times> arg list) list" where
  "congestion_lines t must_send =
     (case fst (congestions t must_send) of None \<Rightarrow> []
      | Some c \<Rightarrow> [(''snd_tcp_congestion %s'' @ [newline], [Str_Arg c])])
     @ (case snd (congestions t must_send) of None \<Rightarrow> []
        | Some c \<Rightarrow> [(''rcv_tcp_congestion %s'' @ [newline], [Str_Arg c])])"

definition host_lines :: "report \<Rightarrow> bool \<Rightarrow> (string \<times> arg list) list" where
  "host_lines t must_send =
     (if must_send then
        (if bidirectional t then [cpu_line t True, cpu_line t False] else [cpu_line t True])
      else [])
     @ (if protocol t = Ptcp then congestion_lines t must_send else [])"

definition print_server_output :: "(report, unit) state" where
  "print_server_output = do {
     t \<leftarrow> State_Monad.get;
     if test_role t = CHR ''c'' \<and> get_server_output t \<and> \<not> json_output t then do {
       (case json_server_output t of None \<Rightarrow> State_Monad.return ()
        | Some j \<Rightarrow> do {
            iperf_printf (newline # ''Server JSON output:'' @ newline # ''%s'' @ [newline]) [Str_Arg (json_text True 0 j)];
            modify (\<lambda>t. t\<lparr>json_server_output := None\<rparr>) });
       (case server_output_text t of None \<Rightarrow> State_Monad.return ()
        | Some x \<Rightarrow> do {
            iperf_printf (newline # ''Server output:'' @ newline # ''%s'' @ [newline]) [Str_Arg x];
            modify (\<lambda>t. t\<lparr>server_output_text := None\<rparr>) }) }
     else State_Monad.return () }"

definition print_host :: "int \<Rightarrow> (report, unit) state" where
  "print_host m = do {
     t \<leftarrow> State_Monad.get;
     if json_output t \<and> m = upper_mode t then in_json ''end'' (host_json t (must_be_sender m))
     else do {
       (if verbose t then printf_all (host_lines t (must_be_sender m)) else State_Monad.return ());
       print_server_output } }"

text \<open>One direction, all directions. \<open>tmp\<close> is the flag of the test before the loop.\<close>

definition choose_retransmits :: "int \<Rightarrow> bool \<Rightarrow> report \<Rightarrow> report" where
  "choose_retransmits tmp must_send t =
     (if mode t = BIDIRECTIONAL
      then t\<lparr>sender_has_retransmits := (if must_send then tmp else other_side_has_retransmits t)\<rparr> else t)"

definition summarise_direction :: "int \<Rightarrow> int \<Rightarrow> (report, unit) state" where
  "summarise_direction tmp m = do {
     modify (choose_retransmits tmp (must_be_sender m));
     modify settle_first;
     t \<leftarrow> State_Monad.get;
     s \<leftarrow> summarise_streams (times_of t) (must_be_sender m) (streams t) no_summary;
     print_summary (times_of t) (must_be_sender m) s;
     print_host m }"

definition iperf_print_results :: "(report, unit) state" where
  "iperf_print_results = do {
     t \<leftarrow> State_Monad.get;
     print_final_header;
     for_each [lower_mode t..upper_mode t] (summarise_direction (sender_has_retransmits t));
     modify (\<lambda>u. if mode u = BIDIRECTIONAL then u\<lparr>sender_has_retransmits := sender_has_retransmits t\<rparr> else u) }"

definition iperf_reporter_callback :: "(report, outcome) state" where
  "iperf_reporter_callback = do {
     t \<leftarrow> State_Monad.get;
     if test_state t = TEST_RUNNING \<or> test_state t = STREAM_RUNNING then iperf_print_intermediate
     else if test_state t = TEST_END \<or> test_state t = DISPLAY_RESULTS then do {
       r \<leftarrow> iperf_print_intermediate;
       if r = Crash then State_Monad.return Crash else do {
         iperf_print_results;
         State_Monad.return (Ret 0) } }
     else State_Monad.return (Ret 0) }"

end
