(* ===== verification/Report_Frames.thy ===== *)
theory Report_Frames
  imports Reports
begin

text \<open>
  What a report changes and what it leaves alone, for every test and every answer of the system. The locale
  \<open>interval_reporting\<close>, extended by \<open>reporting\<close>, is the interface of a property that the functions of \<open>Reports\<close>
  keep; it is interpreted for the rest of the test, for the output file in JSON mode and for the text that
  a server keeps for its client. At the end: the reporter never misses an interval.
\<close>

section \<open>The interface\<close>

lemma preserves_pair [inv_rules]: "preserves J (f (fst p) (snd p)) \<Longrightarrow> preserves J (case p of (a, b) \<Rightarrow> f a b)"
  by (simp add: case_prod_beta)

text \<open>
  The interface of an invariant of the reports: it fixes what decides where a report goes, and what an interval
  report writes keeps it. Text in JSON mode is the exception of \<open>print_host\<close>.
\<close>

locale interval_reporting =
  fixes J :: "report \<Rightarrow> bool" and js ve :: bool and md :: test_mode and ro :: char
  assumes flags: "J t \<Longrightarrow> json_output t = js \<and> verbose t = ve \<and> mode t = md \<and> test_role t = ro"
    and printf: "\<not> js \<or> (ve \<and> md = BIDIRECTIONAL) \<Longrightarrow> preserves J (iperf_printf fmt args)"
    and err: "preserves J (iperf_err s)"
    and json: "js \<Longrightarrow> preserves J (in_json k f)"
    and debugging: "preserves J interval_debug"
begin

lemma interval_kept: "preserves J (print_interval_results first sp)"
  unfolding print_interval_results_def print_header_def iperf_puts_def
  by (intro inv_rules preserves_get preserves_bind err json) (use flags printf in auto)

lemma each_stream_kept: "preserves J (print_streams must_send first sps s)"
  by (induction sps arbitrary: first s) (auto intro!: inv_rules preserves_get preserves_bind err interval_kept)

lemma sum_kept: "preserves J (print_sum must_send s)"
  unfolding print_sum_def
  by (intro inv_rules preserves_get) (auto split: list.split intro!: inv_rules preserves_bind json printf dest: flags)

lemma directions_kept: "preserves J (print_directions ms)"
proof (induction ms)
  case (Cons m ms)
  then show ?case
    by (auto intro!: inv_rules preserves_get preserves_bind each_stream_kept sum_kept)
qed (simp add: inv_rules)

lemma intermediate_kept: "preserves J iperf_print_intermediate"
  unfolding iperf_print_intermediate_def
  by (intro inv_rules preserves_get preserves_bind directions_kept json debugging) (auto dest: flags)

end

text \<open>The final report also asks for the size of a file, settles the times, and shows the server's output.\<close>

locale reporting = interval_reporting +
  assumes stat: "preserves J (call (Fstat fd))"
    and times: "J t \<Longrightarrow> J (settle_first t)"
    and retransmits: "md = BIDIRECTIONAL \<Longrightarrow> J t \<Longrightarrow> J (t\<lparr>sender_has_retransmits := n\<rparr>)"
    and output_shown: "ro = CHR ''c'' \<Longrightarrow> J t \<Longrightarrow> J (t\<lparr>json_server_output := None\<rparr>)"
      "ro = CHR ''c'' \<Longrightarrow> J t \<Longrightarrow> J (t\<lparr>server_output_text := None\<rparr>)"
begin

lemma lines_kept: "\<not> js \<Longrightarrow> preserves J (printf_all ls)"
  unfolding printf_all_def by (intro inv_rules printf) auto

lemma stream_summary_kept: "preserves J (print_stream_summary ti must_send sp)"
  unfolding print_stream_summary_def print_diskfile_def in_summary_def
  by (intro inv_rules preserves_get preserves_bind json stat lines_kept) (auto dest: flags)

lemma summaries_kept: "preserves J (summarise_streams ti must_send sps s)"
  by (induction sps arbitrary: s) (auto intro!: inv_rules preserves_get preserves_bind stream_summary_kept)

lemma summary_kept: "preserves J (print_summary ti must_send s)"
  unfolding print_summary_def
  by (intro inv_rules preserves_get preserves_bind json lines_kept) (auto dest: flags)

lemma server_output_kept: "preserves J print_server_output"
proof (cases "js \<or> ro \<noteq> CHR ''c''")
  case True
  then show ?thesis
    unfolding print_server_output_def by (intro inv_rules preserves_get) (auto dest: flags)
next
  case False
  then show ?thesis
    unfolding print_server_output_def
    by (intro inv_rules preserves_get preserves_bind printf preserves_modify output_shown) auto
qed

text \<open>The directions of the loop. Outside of bidirectional tests there is one, and it is the last one.\<close>

definition loop_mode :: "int \<Rightarrow> bool" where
  "loop_mode m \<longleftrightarrow> (\<exists>t. J t \<and> lower_mode t \<le> m \<and> m \<le> upper_mode t)"

lemma loop_mode_upper: "loop_mode m \<Longrightarrow> md \<noteq> BIDIRECTIONAL \<Longrightarrow> J t \<Longrightarrow> m = upper_mode t"
  by (auto simp: loop_mode_def lower_mode_def upper_mode_def dest!: flags)

lemma host_kept: "loop_mode m \<Longrightarrow> preserves J (print_host m)"
  unfolding print_host_def printf_all_def
  by (intro inv_rules preserves_get preserves_bind json printf server_output_kept)
    (auto dest: flags loop_mode_upper)

lemma direction_kept: "loop_mode m \<Longrightarrow> preserves J (summarise_direction n m)"
  unfolding summarise_direction_def choose_retransmits_def
  by (intro inv_rules preserves_get preserves_bind preserves_modify summaries_kept summary_kept host_kept)
    (auto dest: flags intro: times retransmits)

lemma results_kept: "preserves J iperf_print_results"
  unfolding iperf_print_results_def print_final_header_def iperf_puts_def
  by (intro inv_rules preserves_get preserves_bind preserves_modify printf json direction_kept)
    (auto dest: flags intro: retransmits simp: loop_mode_def)

lemma reporter_kept: "preserves J iperf_reporter_callback"
  unfolding iperf_reporter_callback_def
  by (intro inv_rules preserves_get preserves_bind intermediate_kept results_kept)

end

section \<open>The interface on the model\<close>

text \<open>What is left when everything that a report writes or settles is taken out.\<close>

definition untimed :: "stream \<Rightarrow> stream" where
  "untimed sp = sp\<lparr>result := (result sp)\<lparr>sender_time := 0, receiver_time := 0\<rparr>\<rparr>"

definition untouched :: "report \<Rightarrow> report" where
  "untouched t = t\<lparr>tick := 0, trace := [], errno := 0, outfile := [], stdout_text := [], errfile := [], server_output_list := [],
     json_top := None, json_server_output := None, server_output_text := None, sender_has_retransmits := 0,
     streams := map untimed (streams t)\<rparr>"

lemma untouched_upd [simp]:
  "untouched (t\<lparr>outfile := x1\<rparr>) = untouched t" "untouched (t\<lparr>errfile := x1\<rparr>) = untouched t"
  "untouched (t\<lparr>stdout_text := x1\<rparr>) = untouched t"
  "untouched (t\<lparr>server_output_list := x2\<rparr>) = untouched t" "untouched (t\<lparr>json_top := x3\<rparr>) = untouched t"
  "untouched (t\<lparr>json_server_output := x3\<rparr>) = untouched t" "untouched (t\<lparr>server_output_text := x4\<rparr>) = untouched t"
  "untouched (t\<lparr>sender_has_retransmits := n\<rparr>) = untouched t" "untouched (after c r t) = untouched t"
  by (simp_all add: untouched_def after_def)

lemma untimed_settle [simp]: "untimed (settle_times sp) = untimed sp"
  by (simp add: untimed_def settle_times_def Let_def)

lemma untouched_settle [simp]: "untouched (settle_first t) = untouched t"
  by (cases "streams t") (simp_all add: settle_first_def untouched_def)

lemma untouched_select:
  assumes "untouched t = untouched u"
  shows "json_output t = json_output u" "verbose t = verbose u" "mode t = mode u" "test_role t = test_role u"
    "map untimed (streams t) = map untimed (streams u)" "debug t = debug u"
proof -
  show "debug t = debug u" using arg_cong [OF assms, of debug] by (simp add: untouched_def)
  show "json_output t = json_output u" using arg_cong [OF assms, of json_output] by (simp add: untouched_def)
  show "verbose t = verbose u" using arg_cong [OF assms, of verbose] by (simp add: untouched_def)
  show "mode t = mode u" using arg_cong [OF assms, of mode] by (simp add: untouched_def)
  show "test_role t = test_role u" using arg_cong [OF assms, of test_role] by (simp add: untouched_def)
  show "map untimed (streams t) = map untimed (streams u)" using arg_cong [OF assms, of streams] by (simp add: untouched_def)
qed

text \<open>A line of the report, and a message of an error.\<close>

lemma preserves_stamp: "(\<And>t c r. J t \<Longrightarrow> J (after c r t)) \<Longrightarrow> preserves J time_stamp"
  unfolding time_stamp_def by (intro inv_rules preserves_bind preserves_call preserves_gets_return) auto

lemma preserves_printf:
  assumes "\<And>t c r. J t \<Longrightarrow> J (after c r t)"
    and "\<And>t s. J t \<Longrightarrow> test_role t = CHR ''c'' \<Longrightarrow> J (t\<lparr>outfile := outfile t @ s\<rparr>)"
    and "\<And>t s. J t \<Longrightarrow> test_role t = CHR ''s'' \<Longrightarrow> J (if get_server_output t
      then t\<lparr>outfile := outfile t @ s, server_output_list := server_output_list t @ [s]\<rparr>
      else t\<lparr>outfile := outfile t @ s\<rparr>)"
  shows "preserves J (iperf_printf fmt args)"
proof -
  have rest: "preserves J (do {
     role \<leftarrow> gets test_role;
     if role = CHR ''c'' then do {
       ti \<leftarrow> gets title;
       write_out (ct @ (case ti of None \<Rightarrow> [] | Some s \<Rightarrow> s @ '':  '') @ sprintf fmt args) }
     else if role = CHR ''s'' then do {
       let linebuffer = take 1023 (ct @ sprintf fmt args);
       write_out linebuffer;
       keep \<leftarrow> gets get_server_output;
       if keep then modify (\<lambda>t. t\<lparr>server_output_list := server_output_list t @ [linebuffer]\<rparr>)
       else State_Monad.return () }
     else State_Monad.return () })" for ct
    unfolding preserves_def write_out_def Let_def
    by (intro allI impI) (simp add: wp_simps, use assms(2,3) in fastforce)
  show ?thesis unfolding iperf_printf_def by (intro preserves_bind preserves_stamp rest assms(1))
qed

lemma preserves_err:
  assumes "\<And>t c r. J t \<Longrightarrow> J (after c r t)" "\<And>t x. J t \<Longrightarrow> J (t\<lparr>json_top := Some x\<rparr>)"
    and "\<And>t s. J t \<Longrightarrow> logfile t \<noteq> None \<Longrightarrow> \<not> (json_output t \<and> json_top t \<noteq> None) \<Longrightarrow> J (t\<lparr>outfile := outfile t @ s\<rparr>)"
    and "\<And>t s. J t \<Longrightarrow> J (t\<lparr>errfile := errfile t @ s\<rparr>)"
  shows "preserves J (iperf_err s)"
proof -
  have rest: "preserves J (do {
     let str = take 999 s;
     t \<leftarrow> State_Monad.get;
     (if json_output t \<and> json_top t \<noteq> None
      then modify (\<lambda>t. t\<lparr>json_top := map_option (add_member ''error'' (JString str)) (json_top t)\<rparr>)
      else if logfile t \<noteq> None then write_out (ct @ ''iperf3: '' @ str @ [newline])
      else modify (\<lambda>t. t\<lparr>errfile := errfile t @ ct @ ''iperf3: '' @ str @ [newline]\<rparr>)) })" for ct
    unfolding preserves_def write_out_def Let_def
    by (intro allI impI) (simp add: wp_simps, use assms(2-) in \<open>auto\<close>)
  show ?thesis unfolding iperf_err_def by (intro preserves_bind preserves_stamp rest assms(1))
qed

lemma preserves_debug:
  assumes "\<And>t s. J t \<Longrightarrow> J (t\<lparr>outfile := outfile t @ s\<rparr>)" "\<And>t s. J t \<Longrightarrow> J (t\<lparr>stdout_text := stdout_text t @ s\<rparr>)"
  shows "preserves J interval_debug"
  unfolding interval_debug_def plain_printf_def
  by (intro inv_rules preserves_get preserves_modify) (use assms in auto)

lemma preserves_no_debug: "(\<And>t. J t \<Longrightarrow> \<not> debug t) \<Longrightarrow> preserves J interval_debug"
  unfolding interval_debug_def by (intro inv_rules preserves_get) auto

text \<open>The rest of the test: an interval report keeps the flag of the retransmissions too, a final one outside of bidirectional tests.\<close>

definition same_flag :: "report \<Rightarrow> report \<Rightarrow> bool" where
  "same_flag u t \<longleftrightarrow> untouched t = untouched u \<and> sender_has_retransmits t = sender_has_retransmits u"

lemma preserves_in_json: "(\<And>t x. J t \<Longrightarrow> J (t\<lparr>json_top := x\<rparr>)) \<Longrightarrow> preserves J (in_json k f)"
  unfolding in_json_def by (rule preserves_modify)

lemma report_after [simp]:
  "sender_has_retransmits (after c r t) = sender_has_retransmits t" "json_top (after c r t) = json_top t"
  "outfile (after c r t) = outfile t" "server_output_list (after c r t) = server_output_list t"
  "json_output (after c r t) = json_output t" "test_role (after c r t) = test_role t" "mode (after c r t) = mode t"
  by (simp_all add: after_def)

interpretation rest: interval_reporting "same_flag u" "json_output u" "verbose u" "mode u" "test_role u" for u
proof
  show "same_flag u t \<Longrightarrow> json_output t = json_output u \<and> verbose t = verbose u \<and> mode t = mode u
      \<and> test_role t = test_role u" for t
    using untouched_select [of t u] by (simp add: same_flag_def)
  show "preserves (same_flag u) (iperf_printf fmt args)" for fmt args
    by (rule preserves_printf) (simp_all add: same_flag_def)
  show "preserves (same_flag u) (iperf_err s)" for s
    by (rule preserves_err) (simp_all add: same_flag_def)
  show "preserves (same_flag u) (in_json k f)" for k f
    by (rule preserves_in_json) (simp add: same_flag_def)
  show "preserves (same_flag u) interval_debug"
    by (rule preserves_debug) (simp_all add: same_flag_def)
qed

definition same_final :: "report \<Rightarrow> report \<Rightarrow> bool" where
  "same_final u t \<longleftrightarrow> untouched t = untouched u \<and> (mode u \<noteq> BIDIRECTIONAL \<longrightarrow> sender_has_retransmits t = sender_has_retransmits u)"

lemma settle_flag [simp]: "sender_has_retransmits (settle_first t) = sender_has_retransmits t"
  by (simp add: settle_first_def split: list.split)

interpretation final: reporting "same_final u" "json_output u" "verbose u" "mode u" "test_role u" for u
proof
  show "same_final u t \<Longrightarrow> json_output t = json_output u \<and> verbose t = verbose u \<and> mode t = mode u
      \<and> test_role t = test_role u" for t
    using untouched_select [of t u] by (simp add: same_final_def)
  show "preserves (same_final u) (iperf_printf fmt args)" for fmt args
    by (rule preserves_printf) (simp_all add: same_final_def)
  show "preserves (same_final u) (iperf_err s)" for s
    by (rule preserves_err) (simp_all add: same_final_def)
  show "preserves (same_final u) (in_json k f)" for k f
    by (rule preserves_in_json) (simp add: same_final_def)
  show "preserves (same_final u) interval_debug"
    by (rule preserves_debug) (simp_all add: same_final_def)
  show "preserves (same_final u) (call (Fstat fd))" for fd
    by (rule preserves_call) (simp add: same_final_def)
  show "same_final u t \<Longrightarrow> same_final u (settle_first t)" for t
    by (simp add: same_final_def)
  show "mode u = BIDIRECTIONAL \<Longrightarrow> same_final u t \<Longrightarrow> same_final u (t\<lparr>sender_has_retransmits := n\<rparr>)" for t n
    by (simp add: same_final_def)
  show "same_final u t \<Longrightarrow> same_final u (t\<lparr>json_server_output := None\<rparr>)"
    "same_final u t \<Longrightarrow> same_final u (t\<lparr>server_output_text := None\<rparr>)" for t
    by (simp_all add: same_final_def)
qed

lemma results_restore: "preserves (same_flag u) iperf_print_results"
proof -
  have head: "preserves (same_final u) print_final_header"
    unfolding print_final_header_def iperf_puts_def
    by (intro inv_rules preserves_get preserves_bind final.printf final.json) (auto dest: final.flags)
  have loop: "preserves (same_final u) (for_each [lower_mode t..upper_mode t] (summarise_direction n))"
    if "same_final u t" for t n
    using that by (intro inv_rules final.direction_kept) (auto simp: final.loop_mode_def)
  have "wp iperf_print_results (\<lambda>r. same_flag u) t" if "same_flag u t" for t
  proof -
    have s: "same_final u t" and f: "sender_has_retransmits t = sender_has_retransmits u"
      using that by (simp_all add: same_flag_def same_final_def)
    have restored: "same_flag u (if mode v = BIDIRECTIONAL then v\<lparr>sender_has_retransmits := sender_has_retransmits t\<rparr> else v)"
      if "same_final u v" for v
      using that f untouched_select [of v u] by (auto simp: same_flag_def same_final_def)
    have "wp print_final_header (\<lambda>r. same_final u) t" using head s by (simp add: preserves_def)
    then have "wp print_final_header (\<lambda>a. wp (for_each [lower_mode t..upper_mode t]
        (summarise_direction (sender_has_retransmits t))) (\<lambda>r. same_final u)) t"
      by (rule wp_mono) (use loop [OF s] in \<open>simp add: preserves_def\<close>)
    then have "wp print_final_header (\<lambda>a. wp (for_each [lower_mode t..upper_mode t]
        (summarise_direction (sender_has_retransmits t))) (\<lambda>r v. same_flag u (if mode v = BIDIRECTIONAL
          then v\<lparr>sender_has_retransmits := sender_has_retransmits t\<rparr> else v))) t"
      by (rule wp_mono) (erule wp_mono, rule restored)
    then show ?thesis
      unfolding iperf_print_results_def by (simp add: wp_bind_fun wp_get wp_modify_fun)
  qed
  then show ?thesis by (simp add: preserves_def)
qed

lemma reporter_keeps: "preserves (same_flag u) iperf_reporter_callback"
  unfolding iperf_reporter_callback_def
  by (intro inv_rules preserves_get preserves_bind rest.intermediate_kept results_restore)

text \<open>
  In JSON mode without debugging only the document is written, unless a bidirectional test is verbose.
\<close>

definition quiet :: "report \<Rightarrow> report \<Rightarrow> bool" where
  "quiet u t \<longleftrightarrow> untouched t = untouched u \<and> json_output u \<and> \<not> debug u \<and> \<not> (verbose u \<and> mode u = BIDIRECTIONAL)
     \<and> json_top t \<noteq> None \<and> outfile t = outfile u"

lemma quiet_upd [simp]:
  "quiet u (after c r t) = quiet u t" "quiet u (settle_first t) = quiet u t"
  "quiet u (t\<lparr>sender_has_retransmits := n\<rparr>) = quiet u t" "quiet u (t\<lparr>json_server_output := j\<rparr>) = quiet u t"
  "quiet u (t\<lparr>server_output_text := s\<rparr>) = quiet u t" "quiet u (t\<lparr>errfile := e\<rparr>) = quiet u t"
  by (simp_all add: quiet_def) (simp_all add: after_def settle_first_def split: list.split)

interpretation quiet: reporting "quiet u" True "verbose u" "mode u" "test_role u" for u
proof
  show "quiet u t \<Longrightarrow> json_output t = True \<and> verbose t = verbose u \<and> mode t = mode u \<and> test_role t = test_role u" for t
    using untouched_select [of t u] by (simp add: quiet_def)
  show "\<not> True \<or> verbose u \<and> mode u = BIDIRECTIONAL \<Longrightarrow> preserves (quiet u) (iperf_printf fmt args)" for fmt args
    by (simp add: preserves_def quiet_def)
  show "preserves (quiet u) (iperf_err s)" for s
    by (rule preserves_err) (auto simp: quiet_def dest: untouched_select)
  show "preserves (quiet u) (in_json k f)" for k f
    unfolding in_json_def by (rule preserves_modify) (simp add: quiet_def)
  show "preserves (quiet u) interval_debug"
    by (rule preserves_no_debug) (auto simp: quiet_def dest: untouched_select(6))
  show "preserves (quiet u) (call (Fstat fd))" for fd
    by (rule preserves_call) simp
qed simp_all

text \<open>What a server prints is what it keeps for the client, if its errors go elsewhere.\<close>

definition printed_by_server :: "report \<Rightarrow> string \<Rightarrow> report \<Rightarrow> bool" where
  "printed_by_server u pre t \<longleftrightarrow> untouched t = untouched u \<and> test_role u = CHR ''s'' \<and> get_server_output u \<and> \<not> json_output u
     \<and> \<not> debug u \<and> logfile u = None \<and> outfile t = pre @ concat (server_output_list t)"

lemma untouched_server:
  assumes "untouched t = untouched u"
  shows "get_server_output t = get_server_output u" "logfile t = logfile u"
  using arg_cong [OF assms, of get_server_output] arg_cong [OF assms, of logfile] by (simp_all add: untouched_def)

lemma printed_upd [simp]:
  "printed_by_server u pre (after c r t) = printed_by_server u pre t"
  "printed_by_server u pre (settle_first t) = printed_by_server u pre t"
  "printed_by_server u pre (t\<lparr>sender_has_retransmits := n\<rparr>) = printed_by_server u pre t"
  "printed_by_server u pre (t\<lparr>json_top := j\<rparr>) = printed_by_server u pre t"
  "printed_by_server u pre (t\<lparr>errfile := s\<rparr>) = printed_by_server u pre t"
  by (simp_all add: printed_by_server_def) (simp_all add: after_def settle_first_def split: list.split)

interpretation printed: reporting "printed_by_server u pre" False "verbose u" "mode u" "CHR ''s''" for u pre
proof
  show "printed_by_server u pre t \<Longrightarrow> json_output t = False \<and> verbose t = verbose u \<and> mode t = mode u
      \<and> test_role t = CHR ''s''" for t
    using untouched_select [of t u] by (simp add: printed_by_server_def)
  show "preserves (printed_by_server u pre) (iperf_printf fmt args)" for fmt args
    by (rule preserves_printf) (auto simp: printed_by_server_def dest: untouched_select untouched_server)
  show "preserves (printed_by_server u pre) (iperf_err s)" for s
    by (rule preserves_err) (simp_all, auto simp: printed_by_server_def dest: untouched_server)
  show "preserves (printed_by_server u pre) interval_debug"
    by (rule preserves_no_debug) (auto simp: printed_by_server_def dest: untouched_select(6))
  show "preserves (printed_by_server u pre) (call (Fstat fd))" for fd
    by (rule preserves_call) simp
qed simp_all

section \<open>Intervals are there\<close>

definition all_reported :: "stream list \<Rightarrow> bool" where
  "all_reported sps \<longleftrightarrow> (\<forall>sp \<in> set sps. last_interval sp \<noteq> None)"

lemma last_interval_untimed: "last_interval (untimed sp) = last_interval sp"
  by (simp add: last_interval_def untimed_def Let_def)

lemma all_reported_untimed: "all_reported (map untimed sps) = all_reported sps"
  by (simp add: all_reported_def last_interval_untimed)

lemma all_reported_kept: "untouched t = untouched u \<Longrightarrow> all_reported (streams t) = all_reported (streams u)"
  using untouched_select(5) [of t u] all_reported_untimed by metis

lemma streams_all_reported:
  "all_reported sps \<Longrightarrow> wp (print_streams must_send first sps s) (\<lambda>r v. r \<noteq> None) t"
proof (induction sps arbitrary: first s t)
  case (Cons sp sps)
  then obtain irp where "last_interval sp = Some irp" by (auto simp: all_reported_def)
  moreover have "wp m (\<lambda>r v. True) t" for m :: "(report, unit) state" and t by (simp add: wp_def)
  ultimately show ?case
    using Cons by (auto simp: wp_simps all_reported_def intro!: wp_mono [OF \<open>\<And>t m. wp m (\<lambda>r v. True) t\<close>])
qed (simp add: wp_simps)

lemma sum_returns: "all_reported (streams t) \<Longrightarrow> wp (print_sum must_send s) (\<lambda>r v. r = Ret 0) t"
  by (auto simp: print_sum_def wp_simps all_reported_def wp_def split: list.split option.split prod.split)

lemma directions_return:
  "all_reported (streams t) \<Longrightarrow> wp (print_directions ms) (\<lambda>r v. r = Ret 0) t"
proof (induction ms arbitrary: t)
  case (Cons m ms)
  have streams: "wp (print_streams (must_be_sender m) True (streams t) no_sums) (\<lambda>r v. r \<noteq> None \<and> same_flag t v) t"
    using streams_all_reported [OF Cons.prems] rest.each_stream_kept [of t]
    by (auto simp: preserves_def wp_iff_run same_flag_def)
  have sum: "wp (print_sum (must_be_sender m) s) (\<lambda>r v. r = Ret 0 \<and> same_flag t v) v" if "same_flag t v" for s v
    using sum_returns [of v] rest.sum_kept [of t] that all_reported_kept [of v t] Cons.prems
    by (auto simp: preserves_def wp_iff_run same_flag_def)
  have go: "wp (print_directions ms) (\<lambda>r v. r = Ret 0) v" if "same_flag t v" for v
    using Cons that all_reported_kept [of v t] by (simp add: same_flag_def)
  have "wp (do { r \<leftarrow> print_sum (must_be_sender m) s;
      if r = Crash then State_Monad.return Crash else print_directions ms }) (\<lambda>r v. r = Ret 0) v"
    if "same_flag t v" for s v
    unfolding wp_bind by (rule wp_mono [OF sum [OF that]]) (auto simp: wp_if go)
  then have next_sum: "wp (case r of None \<Rightarrow> State_Monad.return (Ret 0)
      | Some s \<Rightarrow> do { r \<leftarrow> print_sum (must_be_sender m) s;
          if r = Crash then State_Monad.return Crash else print_directions ms }) (\<lambda>r v. r = Ret 0) v"
    if "same_flag t v" for r v
    using that by (cases r) (simp_all add: wp_return)
  show ?case
    unfolding print_directions.simps wp_bind wp_get by (rule wp_mono [OF streams]) (simp add: next_sum [unfolded wp_bind])
qed (simp add: wp_simps)

text \<open>The lines for debugging touch the two texts only.\<close>

lemma debug_writes: "\<exists>x y. run_state interval_debug t = ((), t\<lparr>outfile := x, stdout_text := y\<rparr>)"
proof -
  have "\<exists>x y. run_state (for_each ls (\<lambda>(fmt, args). plain_printf fmt args)) t = ((), t\<lparr>outfile := x, stdout_text := y\<rparr>)"
    for ls and t :: report
  proof (induction ls arbitrary: t)
    case Nil
    show ?case by (intro exI [of _ "outfile t"] exI [of _ "stdout_text t"]) (simp add: run_simps)
  next
    case (Cons l ls)
    obtain x y where "run_state (case l of (fmt, args) \<Rightarrow> plain_printf fmt args) t = ((), t\<lparr>outfile := x, stdout_text := y\<rparr>)"
    proof (cases "logfile t = None")
      case True
      show thesis
        by (rule that [where x = "outfile t @ sprintf (fst l) (snd l)" and y = "stdout_text t"])
          (cases l, simp add: plain_printf_def run_simps True)
    next
      case False
      show thesis
        by (rule that [where x = "outfile t" and y = "stdout_text t @ sprintf (fst l) (snd l)"])
          (cases l, use False in \<open>auto simp: plain_printf_def run_simps\<close>)
    qed
    then show ?case using Cons.IH [of "t\<lparr>outfile := x, stdout_text := y\<rparr>"] by (simp add: run_simps)
  qed
  moreover have "\<exists>x y. run_state (State_Monad.return ()) t = ((), t\<lparr>outfile := x, stdout_text := y\<rparr>)"
    by (intro exI [of _ "outfile t"] exI [of _ "stdout_text t"]) (simp add: run_simps)
  ultimately show ?thesis unfolding interval_debug_def by (cases "debug t") (simp_all add: run_simps)
qed

lemma no_debug_lines: "\<not> debug t \<Longrightarrow> run_state interval_debug t = ((), t)"
  by (simp add: interval_debug_def run_simps)

lemma interval_ok_texts [simp]: "interval_ok (t\<lparr>outfile := x, stdout_text := y\<rparr>) = interval_ok t"
proof -
  have "forces_keep (t\<lparr>outfile := x, stdout_text := y\<rparr>) = forces_keep t" by (simp add: fun_eq_iff forces_keep_def)
  then show ?thesis unfolding interval_ok_def by (simp cong: option.case_cong)
qed

lemma intermediate_returns:
  assumes "all_reported (streams t) \<or> (\<forall>sp \<in> set (streams t). last_interval sp = None)"
  shows "wp iperf_print_intermediate (\<lambda>r v. r = Ret 0) t"
proof -
  obtain x y where d: "run_state interval_debug t = ((), t\<lparr>outfile := x, stdout_text := y\<rparr>)"
    using debug_writes by blast
  define u where "u = t\<lparr>outfile := x, stdout_text := y\<rparr>"
  have u: "run_state interval_debug t = ((), u)" "streams u = streams t" "interval_ok u = interval_ok t"
    using d by (simp_all add: u_def)
  have "wp (print_directions ms) (\<lambda>r v. r = Ret 0) u" "wp (print_directions ms) (\<lambda>r v. r = Ret 0) (u\<lparr>json_top := j\<rparr>)"
    if "all_reported (streams t)" for ms j
    using that u(2) directions_return by simp_all
  moreover have "\<not> interval_ok u" if "\<not> all_reported (streams t)"
    using that assms u(3) by (auto simp: interval_ok_def all_reported_def)
  ultimately have "wp (do { t \<leftarrow> State_Monad.get; if \<not> interval_ok t then State_Monad.return (Ret 0) else do {
       (if json_output t
        then in_json ''intervals'' (add_element (JObject [(''streams'', JArray [])]))
        else State_Monad.return ());
       print_directions [lower_mode t..upper_mode t] } }) (\<lambda>r v. r = Ret 0) u"
    by (cases "all_reported (streams t)") (simp_all add: wp_simps in_json_def)
  then show ?thesis
    unfolding iperf_print_intermediate_def wp_bind [of interval_debug] by (simp add: wp_iff_run [of interval_debug] u(1))
qed

lemma reporter_returns:
  assumes "all_reported (streams t) \<or> (\<forall>sp \<in> set (streams t). last_interval sp = None)"
  shows "wp iperf_reporter_callback (\<lambda>r v. r = Ret 0) t"
proof -
  have "wp (do { iperf_print_results; State_Monad.return (Ret 0) }) (\<lambda>r v. r = Ret 0) u" for u
    unfolding wp_bind by (simp add: wp_return_fun) (simp add: wp_def)
  then show ?thesis
    using intermediate_returns [OF assms] unfolding iperf_reporter_callback_def
    by (auto simp: wp_bind wp_get wp_if wp_return elim!: wp_mono)
qed

text \<open>The statistics add one interval to every stream.\<close>

definition interval_count :: "stream \<Rightarrow> nat" where
  "interval_count sp = length (interval_results (result sp))"

lemma tcp_interval_results: "interval_results (fst (tcp_interval k p)) = interval_results (fst p)"
  by (cases p) (simp add: tcp_interval_def Let_def)

lemma stats_add_interval: "interval_count (stats_interval_of t now info sp) = Suc (interval_count sp)"
  unfolding stats_interval_of_def Let_def case_prod_beta interval_count_def add_to_interval_list_def
  by (simp add: tcp_interval_results split: option.split)

lemma counted_reported: "\<forall>sp \<in> set sps. 0 < interval_count sp \<Longrightarrow> all_reported sps"
  by (auto simp: all_reported_def last_interval_def interval_count_def Let_def)

lemma check_server_rate_streams: "wp (check_server_rate ub n) (\<lambda>r v. streams v = streams t) t"
  by (auto simp: check_server_rate_def wp_State iperf_check_total_rate_def Let_def split: option.splits if_splits)

lemma stats_reach_all:
  fixes body :: "nat \<Rightarrow> (test, unit) state"
  assumes step: "\<And>i t. i < n \<Longrightarrow> length (streams t) = n \<Longrightarrow>
      wp (body i) (\<lambda>u v. \<exists>sp. interval_count sp = Suc (interval_count (streams t ! i)) \<and> streams v = (streams t)[i := sp]) t"
    and "k \<le> n" "length (streams t) = n"
  shows "wp (for_each [k..<n] body) (\<lambda>u v. map interval_count (streams v) =
     take k (map interval_count (streams t)) @ drop k (map (Suc \<circ> interval_count) (streams t))) t"
  using assms(2-)
proof (induction "n - k" arbitrary: k t)
  case 0
  then show ?case by (simp add: wp_return)
next
  case (Suc d)
  then have k: "k < n" "[k..<n] = k # [Suc k..<n]" by (simp_all add: upt_conv_Cons)
  have "wp (for_each [Suc k..<n] body) (\<lambda>u w. map interval_count (streams w) =
     take k (map interval_count (streams t)) @ drop k (map (Suc \<circ> interval_count) (streams t))) v"
    if "interval_count sp = Suc (interval_count (streams t ! k))" "streams v = (streams t)[k := sp]" for sp v
  proof (rule wp_mono [OF Suc.hyps(1)])
    show "d = n - Suc k" "Suc k \<le> n" "length (streams v) = n" using Suc k that by simp_all
    have "take (Suc k) (map interval_count (streams v)) @ drop (Suc k) (map (Suc \<circ> interval_count) (streams v)) =
       take k (map interval_count (streams t)) @ drop k (map (Suc \<circ> interval_count) (streams t))"
      using k Suc.prems that
      by (simp add: take_Suc_conv_app_nth map_update drop_update_cancel Cons_nth_drop_Suc [symmetric] drop_map take_map)
    then show "map interval_count (streams w) =
        take (Suc k) (map interval_count (streams v)) @ drop (Suc k) (map (Suc \<circ> interval_count) (streams v)) \<Longrightarrow>
      map interval_count (streams w) =
        take k (map interval_count (streams t)) @ drop k (map (Suc \<circ> interval_count) (streams t))" for w by simp
  qed
  then show ?case
    unfolding k(2) for_each.simps wp_bind using step [OF k(1) Suc.prems(2)] by (auto elim!: wp_mono)
qed

lemma stats_callback_counts:
  "wp (iperf_stats_callback ub) (\<lambda>r v. map interval_count (streams v) = map (Suc \<circ> interval_count) (streams t)) t"
proof -
  have step: "wp (do {
       g \<leftarrow> call Gettime;
       sp \<leftarrow> gets (\<lambda>t. streams t ! i);
       tcp \<leftarrow> gets (\<lambda>t. protocol t = Ptcp \<and> has_tcpinfo);
       info \<leftarrow> (if tcp then do { k \<leftarrow> save_tcpinfo (stream_socket sp); State_Monad.return (Some k) }
         else State_Monad.return None);
       modify (\<lambda>t. put_stream i (stats_interval_of t (rtime g) info sp) t) })
     (\<lambda>u v. \<exists>sp. interval_count sp = Suc (interval_count (streams u0 ! i)) \<and> streams v = (streams u0)[i := sp]) u0"
    if "i < n" for i n and u0 :: test
    by (auto simp: wp_simps put_stream_def save_tcpinfo_def intro!: exI stats_add_interval)
  show ?thesis
    unfolding iperf_stats_callback_def wp_bind wp_gets
    by (rule wp_mono [OF stats_reach_all [where n = "length (streams t)" and k = 0, OF step]])
      (auto intro: wp_mono [OF check_server_rate_streams])
qed

lemma counts_reported: "map interval_count sps = map (Suc \<circ> interval_count) rs \<Longrightarrow> all_reported sps"
proof (rule counted_reported)
  assume "map interval_count sps = map (Suc \<circ> interval_count) rs"
  then have "interval_count ` set sps = (Suc \<circ> interval_count) ` set rs" by (metis set_map)
  then show "\<forall>sp \<in> set sps. 0 < interval_count sp" by force
qed

end
