(* ===== verification/Report_Json.thy ===== *)
theory Report_Json
  imports Report_Frames
begin

text \<open>
  What the reports write into the JSON document: the entry of an interval, and the end of the document of a
  bidirectional test, whose members come twice.
\<close>

section \<open>The interval in the JSON document\<close>

text \<open>The document as \<open>iperf_json_start\<close> lays it out.\<close>

definition document :: "json \<Rightarrow> json list \<Rightarrow> json \<Rightarrow> json" where
  "document st xs e = JObject [(''start'', st), (''intervals'', JArray xs), (''end'', e)]"

lemma in_intervals:
  "json_top t = Some (document st xs e) \<Longrightarrow>
    run_state (in_json ''intervals'' f) t =
      ((), t\<lparr>json_top := Some (JObject [(''start'', st), (''intervals'', f (JArray xs)), (''end'', e)])\<rparr>)"
  by (simp add: in_json_def run_simps document_def)

lemma json_of_top [simp]:
  "interval_json (t\<lparr>json_top := j\<rparr>) = interval_json t" "sum_json (t\<lparr>json_top := j\<rparr>) = sum_json t"
  "add_interval (t\<lparr>json_top := j\<rparr>) = add_interval t"
  by (simp_all add: fun_eq_iff interval_json_def sum_json_def add_interval_def is_stream_protocol_def Let_def)

lemma printed_members:
  "interval_json t sp irp \<noteq> None" "sum_json t must_send sp irp s \<noteq> None"
  by (simp_all add: interval_json_def sum_json_def Let_def iperf_json_printf_def Bool_Arg_def Size_Arg_def)

definition stream_entry :: "report \<Rightarrow> stream \<Rightarrow> json" where
  "stream_entry t sp = the (interval_json t sp (the (last_interval sp)))"

definition interval_total :: "report \<Rightarrow> stream list \<Rightarrow> interval_sums" where
  "interval_total t sps = foldl (\<lambda>s sp. add_interval t (the (last_interval sp)) s) no_sums sps"

lemma print_one_json:
  assumes "json_output t" "last_interval sp = Some irp"
    and "json_top t = Some (document st (xs @ [JObject [(''streams'', JArray ys)]]) e)"
  shows "run_state (print_interval_results first sp) t =
    ((), t\<lparr>json_top := Some (document st (xs @ [JObject [(''streams'', JArray (ys @ [stream_entry t sp]))]]) e)\<rparr>)"
proof -
  obtain j where "interval_json t sp irp = Some j" using printed_members(1) by blast
  then show ?thesis
    using assms by (simp add: print_interval_results_def print_header_def run_simps in_intervals [OF assms(3)]
        stream_entry_def append_printed_def document_def)
qed

lemma print_streams_json:
  assumes "json_output t" "\<forall>sp \<in> set sps. is_sender sp = must_send" "all_reported sps"
    and "json_top t = Some (document st (xs @ [JObject [(''streams'', JArray ys)]]) e)"
  shows "run_state (print_streams must_send first sps s) t =
    (Some (foldl (\<lambda>s sp. add_interval t (the (last_interval sp)) s) s sps),
     t\<lparr>json_top := Some (document st (xs @ [JObject [(''streams'', JArray (ys @ map (stream_entry t) sps))]]) e)\<rparr>)"
  using assms
proof (induction sps arbitrary: first s t ys)
  case (Cons sp sps)
  then obtain irp where irp: "last_interval sp = Some irp" by (auto simp: all_reported_def)
  define u where "u = t\<lparr>json_top := Some (document st (xs @ [JObject [(''streams'', JArray (ys @ [stream_entry t sp]))]]) e)\<rparr>"
  have u: "stream_entry u = stream_entry t" "add_interval u = add_interval t"
    by (simp_all add: u_def fun_eq_iff stream_entry_def)
  have sps: "json_output u" "\<forall>sp \<in> set sps. is_sender sp = must_send" "all_reported sps" "is_sender sp = must_send"
    "json_top u = Some (document st (xs @ [JObject [(''streams'', JArray (ys @ [stream_entry t sp]))]]) e)"
    using Cons.prems by (auto simp: all_reported_def u_def)
  have one: "run_state (print_interval_results first sp) t = ((), u)"
    unfolding u_def by (rule print_one_json [OF Cons.prems(1) irp Cons.prems(4)])
  show ?case
    using irp sps(4) by (simp add: run_simps one u Cons.IH [OF sps(1-3,5)]) (simp add: u_def)
qed (simp add: run_simps)

text \<open>The entry of an interval: one element for each stream, then the sum. It goes behind the others.\<close>

definition interval_entry :: "report \<Rightarrow> bool \<Rightarrow> json" where
  "interval_entry t must_send = JObject [(''streams'', JArray (map (stream_entry t) (streams t))),
     (''sum'', the (sum_json t must_send (hd (streams t)) (the (last_interval (hd (streams t))))
        (interval_total t (streams t))))]"

lemma intermediate_json:
  assumes t: "json_output t" "mode t \<noteq> BIDIRECTIONAL" "all_reported (streams t)" "interval_ok t"
    and dir: "\<forall>sp \<in> set (streams t). is_sender sp = (mode t = SENDER)"
    and top: "json_top t = Some (document st xs e)" and quietly: "\<not> debug t"
  shows "run_state iperf_print_intermediate t =
    (Ret 0, t\<lparr>json_top := Some (document st (xs @ [interval_entry t (mode t = SENDER)]) e)\<rparr>)"
proof -
  obtain sp sps irp where sp: "streams t = sp # sps" "last_interval sp = Some irp"
    using t(3,4) by (cases "streams t") (auto simp: interval_ok_def all_reported_def)
  define u where "u = t\<lparr>json_top := Some (document st (xs @ [JObject [(''streams'', JArray [])]]) e)\<rparr>"
  define v where "v = u\<lparr>json_top := Some (document st (xs @ [JObject [(''streams'', JArray (map (stream_entry t) (streams t)))]]) e)\<rparr>"
  have modes: "[lower_mode t..upper_mode t] = [mode_number (mode t)]" "must_be_sender (mode_number (mode t)) = (mode t = SENDER)"
    using t(2) by (cases "mode t"; simp add: lower_mode_def upper_mode_def mode_number_def must_be_sender_def)+
  have u: "json_output u" "all_reported (streams u)" "\<forall>sp \<in> set (streams u). is_sender sp = (mode t = SENDER)"
    "json_top u = Some (document st (xs @ [JObject [(''streams'', JArray [])]]) e)" "streams u = streams t"
    "add_interval u = add_interval t" "stream_entry u = stream_entry t"
    using t dir by (simp_all add: u_def fun_eq_iff stream_entry_def)
  have all: "run_state (print_streams (mode t = SENDER) True (streams t) no_sums) u =
      (Some (interval_total t (streams t)), v)"
    using print_streams_json [OF u(1,3,2,4), of True no_sums] by (simp add: u v_def interval_total_def)
  obtain j where j: "sum_json t (mode t = SENDER) sp irp (interval_total t (streams t)) = Some j"
    using printed_members(2) by blast
  define w where "w = t\<lparr>json_top := Some (document st (xs @ [interval_entry t (mode t = SENDER)]) e)\<rparr>"
  have v: "json_output v" "streams v = sp # sps" "sum_json v = sum_json t"
    "json_top v = Some (document st (xs @ [JObject [(''streams'', JArray (map (stream_entry t) (streams t)))]]) e)"
    using t(1) sp(1) by (simp_all add: v_def u_def)
  have entry: "interval_entry t (mode t = SENDER) = JObject [(''streams'', JArray (map (stream_entry t) (streams t))), (''sum'', j)]"
    using j sp by (simp add: interval_entry_def)
  have "v\<lparr>json_top := Some (document st (xs @ [interval_entry t (mode t = SENDER)]) e)\<rparr> = w"
    by (simp add: v_def u_def w_def)
  then have sum: "run_state (print_sum (mode t = SENDER) (interval_total t (streams t))) v = (Ret 0, w)"
    unfolding print_sum_def entry
    by (simp add: run_simps v(1-3) sp(2) j in_intervals [OF v(4)] add_printed_def document_def)
  have start: "run_state (in_json ''intervals'' (add_element (JObject [(''streams'', JArray [])]))) t = ((), u)"
    by (simp add: in_intervals [OF top] u_def document_def)
  show ?thesis
    unfolding iperf_print_intermediate_def
    using t(1,4) by (simp add: run_simps no_debug_lines [OF quietly] start modes all u(5) sum w_def)
qed

lemma intermediate_skips: "\<not> debug t \<Longrightarrow> \<not> interval_ok t \<Longrightarrow> run_state iperf_print_intermediate t = (Ret 0, t)"
  by (simp add: iperf_print_intermediate_def run_simps no_debug_lines)

lemma sum_bytes:
  "\<exists>ms. sum_json t must_send sp irp s = Some (JObject ms) \<and> map_of ms ''bytes'' = Some (json_int (sint (su_bytes s)))"
  by (simp add: sum_json_def Let_def iperf_json_printf_def Bool_Arg_def Size_Arg_def)

lemma total_bytes: "su_bytes (interval_total t sps) = sum_list (map (\<lambda>sp. ir_bytes (the (last_interval sp))) sps)"
proof -
  have "su_bytes (foldl (\<lambda>s sp. add_interval t (the (last_interval sp)) s) s0 sps) =
      su_bytes s0 + sum_list (map (\<lambda>sp. ir_bytes (the (last_interval sp))) sps)" for s0
    by (induction sps arbitrary: s0) (simp_all add: add_interval_def Let_def)
  then show ?thesis by (simp add: interval_total_def no_sums_def)
qed

text \<open>The bytes of an entry.\<close>

definition bytes_member :: "json \<Rightarrow> json option" where
  "bytes_member j = (case j of JObject ms \<Rightarrow> map_of ms ''bytes'' | _ \<Rightarrow> None)"

lemma stream_bytes: "bytes_member (stream_entry t sp) = Some (json_int (sint (ir_bytes (the (last_interval sp)))))"
  by (simp add: stream_entry_def bytes_member_def interval_json_def Let_def iperf_json_printf_def Bool_Arg_def Size_Arg_def)

lemma interval_bytes:
  "bytes_member (the (sum_json t must_send sp irp (interval_total t sps))) =
    Some (json_int (sint (sum_list (map (\<lambda>sp. ir_bytes (the (last_interval sp))) sps))))"
  using sum_bytes [of t must_send sp irp "interval_total t sps"] by (auto simp: bytes_member_def total_bytes)

section \<open>Bidirectional tests in JSON\<close>

text \<open>\<open>ending ns\<close>: a bidirectional client's document over TCP, with the members \<open>ns\<close> at its end.\<close>

definition ending :: "string list \<Rightarrow> report \<Rightarrow> bool" where
  "ending ns t \<longleftrightarrow> json_output t \<and> test_role t = CHR ''c'' \<and> mode t = BIDIRECTIONAL \<and> protocol t = Ptcp
     \<and> (\<exists>st xs es. json_top t = Some (document st xs (JObject es)) \<and> map fst es = ns)"

lemma at_members_names: "map fst (at_members k f ms) = map fst ms"
  by (induction k f ms rule: at_members.induct) simp_all

lemma ending_upd [simp]:
  "ending ns (t\<lparr>outfile := x\<rparr>) = ending ns t" "ending ns (t\<lparr>stdout_text := x\<rparr>) = ending ns t" "ending ns (t\<lparr>errfile := x\<rparr>) = ending ns t"
  "ending ns (t\<lparr>sender_has_retransmits := n\<rparr>) = ending ns t" "ending ns (t\<lparr>streams := sps\<rparr>) = ending ns t"
  "ending ns (t\<lparr>json_server_output := j\<rparr>) = ending ns t" "ending ns (t\<lparr>server_output_text := y\<rparr>) = ending ns t"
  "ending ns (after c r t) = ending ns t"
  by (simp_all add: ending_def)

lemma ending_streams: "preserves (ending ns) (in_json ''end'' (at_member ''streams'' f))"
  unfolding in_json_def
  by (rule preserves_modify) (auto simp: ending_def document_def at_members_names)

lemma ending_printf: "preserves (ending ns) (iperf_printf fmt args)"
  by (rule preserves_printf) (auto simp: ending_def)

lemma ending_summaries: "preserves (ending ns) (summarise_streams ti must_send sps s)"
proof -
  have one: "preserves (ending ns) (print_stream_summary ti b sp)" for b sp
    unfolding print_stream_summary_def print_diskfile_def in_summary_def
    by (intro inv_rules preserves_get preserves_bind ending_streams preserves_call) (auto simp: ending_def)
  show ?thesis
    by (induction sps arbitrary: s) (auto intro!: inv_rules preserves_get preserves_bind one)
qed

lemma ending_adds:
  "ending ns t \<Longrightarrow> v \<noteq> None \<Longrightarrow> wp (in_json ''end'' (add_printed k v)) (\<lambda>r. ending (ns @ [k])) t"
  by (auto simp: in_json_def wp_simps ending_def document_def add_printed_def)

lemma printed_sums: "sum_sent_json t ti must_send s \<noteq> None" "sum_received_json ti must_send s \<noteq> None"
  by (simp_all add: sum_sent_json_def sum_received_json_def Let_def iperf_json_printf_def Bool_Arg_def Size_Arg_def)

lemma ending_summary:
  "ending ns t \<Longrightarrow> wp (print_summary ti must_send s) (\<lambda>r. ending (ns @ [''sum_sent'', ''sum_received''])) t"
proof -
  assume t: "ending ns t"
  have two: "wp (in_json ''end'' (add_printed ''sum_received'' (sum_received_json ti must_send s)))
      (\<lambda>r. ending (ns @ [''sum_sent'', ''sum_received''])) v" if "ending (ns @ [''sum_sent'']) v" for v
    using ending_adds [OF that printed_sums(2)] by simp
  show ?thesis
    using t wp_mono [OF ending_adds [OF t printed_sums(1)] two]
    by (simp add: print_summary_def wp_bind wp_get is_stream_protocol_def ending_def)
qed

lemma ending_direction:
  assumes "ending ns t" "\<And>v. ending (ns @ [''sum_sent'', ''sum_received'']) v \<Longrightarrow> wp (print_host m) Q v"
  shows "wp (summarise_direction n m) Q t"
proof -
  have start: "ending ns (settle_first (choose_retransmits n b t))" for b
    using assms(1) by (simp add: settle_first_def choose_retransmits_def split: list.split)
  have streams: "wp (summarise_streams ti b sps s) (\<lambda>r. ending ns) v" if "ending ns v" for ti b sps s v
    using ending_summaries that by (simp add: preserves_def)
  have rest: "wp (print_summary ti b s) (\<lambda>r v. wp (print_host m) Q v) v" if "ending ns v" for ti b s v
    by (rule wp_mono [OF ending_summary [OF that]]) (rule assms(2))
  show ?thesis
    unfolding summarise_direction_def
    by (simp add: wp_bind_fun wp_get wp_modify) (rule wp_mono [OF streams [OF start]], simp add: rest)
qed

lemma host_json_adds: "\<exists>more. host_json t must_send (JObject es) = JObject (es @ more)"
  by (auto simp: host_json_def Let_def add_printed_def add_text_def split: option.split)

lemma host_last:
  assumes "ending ns t"
  shows "wp (print_host 0) (\<lambda>r v. \<exists>xs. ending (ns @ xs) v) t"
proof -
  obtain st ys es where t: "json_output t" "test_role t = CHR ''c''" "mode t = BIDIRECTIONAL" "protocol t = Ptcp"
      "json_top t = Some (document st ys (JObject es))" "map fst es = ns"
    using assms by (auto simp: ending_def)
  obtain more where "host_json t False (JObject es) = JObject (es @ more)" using host_json_adds by blast
  then show ?thesis
    using t by (auto simp: print_host_def wp_simps in_json_def upper_mode_def must_be_sender_def ending_def document_def)
qed

lemma host_first: "preserves (ending ns) (print_host (- 1))"
proof -
  have "preserves (ending ns) print_server_output"
    unfolding print_server_output_def by (intro inv_rules preserves_get) (auto simp: ending_def)
  then show ?thesis
    unfolding print_host_def printf_all_def
    by (intro inv_rules preserves_get preserves_bind ending_printf) (auto simp: ending_def upper_mode_def)
qed

lemma results_ending:
  assumes t: "json_output t" "test_role t = CHR ''c''" "mode t = BIDIRECTIONAL" "protocol t = Ptcp"
    and top: "json_top t = Some (document st xs (JObject []))"
  shows "wp iperf_print_results (\<lambda>r v. \<exists>ns. ending ([''streams'', ''sum_sent'', ''sum_received'', ''sum_sent'', ''sum_received''] @ ns) v) t"
proof -
  have modes: "[lower_mode t..upper_mode t] = [- 1, 0]"
    using t(2,3) by (simp add: lower_mode_def upper_mode_def) (simp add: upto.simps)
  have start: "wp print_final_header (\<lambda>r. ending [''streams'']) t"
    using t top by (simp add: print_final_header_def wp_simps in_json_def ending_def document_def)
  have first: "wp (summarise_direction n (- 1)) (\<lambda>r. ending [''streams'', ''sum_sent'', ''sum_received'']) v"
    if "ending [''streams''] v" for n v
    using ending_direction [OF that, of "- 1" "\<lambda>r. ending [''streams'', ''sum_sent'', ''sum_received'']" n] host_first
    by (simp add: preserves_def)
  have second: "wp (summarise_direction n 0) (\<lambda>r v. \<exists>ns.
      ending ([''streams'', ''sum_sent'', ''sum_received'', ''sum_sent'', ''sum_received''] @ ns) v) v"
    if "ending [''streams'', ''sum_sent'', ''sum_received''] v" for n v
    using host_last by (intro ending_direction [OF that]) fastforce
  show ?thesis
    unfolding iperf_print_results_def
    by (simp add: wp_bind_fun wp_get wp_modify_fun modes)
      (rule wp_mono [OF start], rule wp_mono [OF first], assumption, erule second [simplified])
qed

text \<open>What is on the output file stays there; \<open>grown True\<close>: and something has come behind it.\<close>

definition grown :: "bool \<Rightarrow> report \<Rightarrow> report \<Rightarrow> bool" where
  "grown b u t \<longleftrightarrow> untouched t = untouched u \<and> (\<exists>x. outfile t = outfile u @ x \<and> (b \<longrightarrow> x \<noteq> []))"

lemma grown_upd [simp]:
  "grown b u (after c r t) = grown b u t" "grown b u (settle_first t) = grown b u t"
  "grown b u (t\<lparr>sender_has_retransmits := n\<rparr>) = grown b u t" "grown b u (t\<lparr>json_server_output := j\<rparr>) = grown b u t"
  "grown b u (t\<lparr>server_output_text := s\<rparr>) = grown b u t" "grown b u (t\<lparr>errfile := e\<rparr>) = grown b u t"
  "grown b u (t\<lparr>json_top := j\<rparr>) = grown b u t" "grown b u (t\<lparr>stdout_text := y\<rparr>) = grown b u t" "grown b u (t\<lparr>server_output_list := l\<rparr>) = grown b u t"
  by (simp_all add: grown_def) (simp add: settle_first_def split: list.split)

lemma grown_more: "grown b u t \<Longrightarrow> grown b u (t\<lparr>outfile := outfile t @ x\<rparr>)"
  by (auto simp: grown_def)

interpretation grown: reporting "grown b u" "json_output u" "verbose u" "mode u" "test_role u" for b u
proof
  show "grown b u t \<Longrightarrow> json_output t = json_output u \<and> verbose t = verbose u \<and> mode t = mode u
      \<and> test_role t = test_role u" for t
    using untouched_select [of t u] by (simp add: grown_def)
  show "preserves (grown b u) (iperf_printf fmt args)" for fmt args
    by (rule preserves_printf) (simp_all add: grown_more)
  show "preserves (grown b u) (iperf_err s)" for s
    by (rule preserves_err) (simp_all add: grown_more)
  show "preserves (grown b u) (in_json k f)" for k f
    by (rule preserves_in_json) simp
  show "preserves (grown b u) interval_debug"
    by (rule preserves_debug) (simp_all add: grown_more)
  show "preserves (grown b u) (call (Fstat fd))" for fd
    by (rule preserves_call) simp
qed simp_all

lemma printf_writes:
  assumes "grown False u t" "test_role u = CHR ''c''" "sprintf fmt args \<noteq> []"
  shows "wp (iperf_printf fmt args) (\<lambda>r. grown True u) t"
proof -
  have "test_role t = CHR ''c''" using grown.flags [OF assms(1)] assms(2) by simp
  then show ?thesis
    using assms(1,3) by (auto simp: iperf_printf_def time_stamp_def write_out_def wp_simps grown_def)
qed

lemma cpu_line_text: "case cpu_line t b of (fmt, args) \<Rightarrow> sprintf fmt args \<noteq> []"
  by (simp add: cpu_line_def report_cpu_def)

lemma host_writes:
  assumes "grown False u t" "test_role u = CHR ''c''" "mode u = BIDIRECTIONAL" "verbose u"
  shows "wp (print_host (- 1)) (\<lambda>r. grown True u) t"
proof -
  have t: "test_role t = CHR ''c''" "mode t = BIDIRECTIONAL" "verbose t"
    using grown.flags [OF assms(1)] assms(2-4) by simp_all
  have "\<exists>ls. host_lines t True = cpu_line t True # ls" by (simp add: host_lines_def)
  then obtain ls where ls: "host_lines t True = cpu_line t True # ls" by blast
  have first: "wp (case cpu_line t True of (fmt, args) \<Rightarrow> iperf_printf fmt args) (\<lambda>r. grown True u) t"
    using cpu_line_text [of t True] by (cases "cpu_line t True") (simp add: printf_writes [OF assms(1,2)])
  have rest: "wp (for_each ls (\<lambda>(fmt, args). iperf_printf fmt args)) (\<lambda>r v. wp print_server_output (\<lambda>r. grown True u) v) v"
    if "grown True u v" for v
  proof -
    have "preserves (grown True u) (for_each ls (\<lambda>(fmt, args). iperf_printf fmt args))"
      by (intro inv_rules grown.printf) (use assms in simp)
    then have "wp (for_each ls (\<lambda>(fmt, args). iperf_printf fmt args)) (\<lambda>r. grown True u) v"
      using that by (simp add: preserves_def)
    then show ?thesis
      by (rule wp_mono) (use grown.server_output_kept [of True u] in \<open>simp add: preserves_def\<close>)
  qed
  have "upper_mode t \<noteq> - 1" "must_be_sender (- 1)" using t by (simp_all add: upper_mode_def must_be_sender_def)
  then show ?thesis
    using t(3) unfolding print_host_def
    by (simp add: wp_get wp_bind_fun printf_all_def ls) (rule wp_mono [OF first], rule rest)
qed

lemma direction_writes:
  assumes "grown False u t" "test_role u = CHR ''c''" "mode u = BIDIRECTIONAL" "verbose u"
  shows "wp (summarise_direction n (- 1)) (\<lambda>r. grown True u) t"
proof -
  have start: "grown False u (settle_first (choose_retransmits n b t))" for b
    using assms(1) by (simp add: choose_retransmits_def)
  have streams: "wp (summarise_streams ti b sps s) (\<lambda>r. grown False u) v" if "grown False u v" for ti b sps s v
    using grown.summaries_kept that by (simp add: preserves_def)
  have summary: "wp (print_summary ti b s) (\<lambda>r. grown False u) v" if "grown False u v" for ti b s v
    using grown.summary_kept that by (simp add: preserves_def)
  have host: "wp (print_summary ti b s) (\<lambda>r v. wp (print_host (- 1)) (\<lambda>r. grown True u) v) v"
    if "grown False u v" for ti b s v
    by (rule wp_mono [OF summary [OF that]]) (rule host_writes [OF _ assms(2-4)])
  show ?thesis
    unfolding summarise_direction_def
    by (simp add: wp_bind_fun wp_get wp_modify) (rule wp_mono [OF streams [OF start]], simp add: host)
qed

lemma results_write:
  assumes t: "test_role t = CHR ''c''" "mode t = BIDIRECTIONAL" "verbose t"
  shows "wp iperf_print_results (\<lambda>r v. \<exists>x. outfile v = outfile t @ x \<and> x \<noteq> []) t"
proof -
  have modes: "[lower_mode t..upper_mode t] = [- 1, 0]"
    using t by (simp add: lower_mode_def upper_mode_def) (simp add: upto.simps)
  have self: "grown False t t" by (simp add: grown_def)
  have "preserves (grown False t) print_final_header"
    unfolding print_final_header_def iperf_puts_def
    by (intro inv_rules preserves_get preserves_bind grown.printf grown.json) (auto dest: grown.flags)
  then have start: "wp print_final_header (\<lambda>r. grown False t) t" using self by (simp add: preserves_def)
  have "grown.loop_mode True t 0" if "grown True t v" for v
    unfolding grown.loop_mode_def
    using grown.flags [OF that] that t by (intro exI [of _ v]) (simp add: lower_mode_def upper_mode_def)
  then have second: "wp (summarise_direction n 0) (\<lambda>r v. \<exists>x. outfile v = outfile t @ x \<and> x \<noteq> []) v"
    if "grown True t v" for n v
    using grown.direction_kept [of True t 0 n] that
    by (auto simp: preserves_def grown_def elim!: wp_mono)
  show ?thesis
    unfolding iperf_print_results_def
    by (simp add: wp_bind_fun wp_get wp_modify_fun modes if_distrib [of outfile])
      (rule wp_mono [OF start], rule wp_mono [OF direction_writes [OF _ t]], assumption, erule second)
qed

end
