(* ===== verification/Examples.thy ===== *)
theory Examples
  imports Reach Wire Errors Sctp Report_Json
begin

text \<open>
  A concrete server on a concrete system, for the examples in the root theory: the control
  connection comes in on descriptor 5, every write is accepted byte by byte, the parameters are
  given by the parser.
\<close>

declare Nread_loop.simps [code] Nwrite_loop.simps [code] tmr_run_loop.simps [code] top_node.simps [code]
  find_slot.simps [code]

text \<open>A key pair that knows one message, a digest of one byte, a file with one user.\<close>

definition demo_crypto :: crypto where
  "demo_crypto = \<lparr>bio_encode = (\<lambda>bs. ''AAAA''), bio_decode = (\<lambda>s. Some [1, 2, 3]), rsa_size = (\<lambda>k. 256),
     rsa_public_encrypt = (\<lambda>x k. Some [1, 2, 3]), rsa_private_decrypt = (\<lambda>c k. Some (auth_text ''u'' ''p'' 1)),
     sha_digest = (\<lambda>s. [171]), read_file = (\<lambda>f. Some (''u,ab'' @ [newline]))\<rparr>"

definition demo_env :: "json \<Rightarrow> env" where
  "demo_env j = \<lparr>e_crypto = demo_crypto, e_print = (\<lambda>j. Some []), e_parse = (\<lambda>bs. Some j), e_junk = [0, 0, 0, 0],
     e_undef = 0, e_malloc = next_node, e_version = ''''\<rparr>"

text \<open>Listening on descriptor 0, which \<open>select\<close> reports as ready.\<close>

definition demo_server :: test where
  "demo_server = (blank_test (replicate 7 ok_resp @ [ok_resp\<lparr>rv := 1, rready := {0}\<rparr>, ok_resp, ok_resp\<lparr>rv := 5\<rparr>,
       ok_resp, ok_resp] @ replicate 30 (ok_resp\<lparr>rv := 1\<rparr>)))
     \<lparr>test_role := CHR ''s'', stats_interval := 0, reporter_interval := 0\<rparr>"

definition demo_guarded :: test where
  "demo_guarded = demo_server\<lparr>server_rsa_private_key := Some ''k'', server_authorized_users := Some ''f''\<rparr>"

text \<open>A server on which \<open>select\<close> fails, and one that cannot listen.\<close>

definition failing_server :: test where
  "failing_server = (blank_test (replicate 7 ok_resp @ [ok_resp\<lparr>rv := -1, re := 9\<rparr>]))
     \<lparr>test_role := CHR ''s'', stats_interval := 0, reporter_interval := 0\<rparr>"

definition deaf_server :: test where
  "deaf_server = (blank_test [ok_resp\<lparr>rv := -2\<rparr>])\<lparr>test_role := CHR ''s''\<rparr>"

definition demo_start :: "test \<Rightarrow> test" where
  "demo_start t = snd (run_state server_setup t)"

lemma demo_set_up:
  "run_state server_setup demo_server = (Go no_time, demo_start demo_server)"
  "run_state server_setup demo_guarded = (Go no_time, demo_start demo_guarded)"
proof -
  have "fst (run_state server_setup demo_server) = Go no_time" "fst (run_state server_setup demo_guarded) = Go no_time"
    by code_simp+
  then show "run_state server_setup demo_server = (Go no_time, demo_start demo_server)"
    "run_state server_setup demo_guarded = (Go no_time, demo_start demo_guarded)"
    unfolding demo_start_def by (metis prod.collapse)+
qed

lemma failing_turn:
  "case run_state server_setup failing_server of
     (Go start, t1) \<Rightarrow> (case run_state (server_turn (demo_env JNull) (rcv_timeout_us t1) (first_run 0 start)) t1 of
        (Stop x, t2) \<Rightarrow> x = Ret (-1) | (Go r, t2) \<Rightarrow> False)
   | (Stop x, t1) \<Rightarrow> False"
  by code_simp

lemma failing_run: "\<exists>t1. iperf_run_server (demo_env JNull) 0 failing_server = Some (Ret (-1), t1)"
proof -
  obtain start t1 where s: "run_state server_setup failing_server = (Go start, t1)"
    using failing_turn by (auto split: prod.splits step.splits)
  moreover obtain t2 where "run_state (server_turn (demo_env JNull) (rcv_timeout_us t1) (first_run 0 start)) t1 = (Stop (Ret (-1)), t2)"
    using failing_turn s by (auto split: prod.splits step.splits)
  moreover have "test_state t1 \<noteq> IPERF_DONE" using set_up_state [OF s] by simp
  ultimately have "iperf_run_server (demo_env JNull) 0 failing_server = Some (Ret (-1), t2)"
    by (simp add: iperf_run_server_def first_run_def server_loop.simps)
  then show ?thesis by blast
qed

lemma deaf_serve: "iperf_run_server e stale t = Some (Ret (-2), t1) \<Longrightarrow> serve e stale t = Some (Exited 1, after_run (-2) t1)"
  by (subst serve.simps) simp

lemma deaf_run:
  "\<exists>t1. iperf_run_server (demo_env JNull) 0 deaf_server = Some (Ret (-2), t1)
    \<and> fst (run_state server_setup deaf_server) = Stop (Ret (-2))"
proof -
  have "fst (run_state server_setup deaf_server) = Stop (Ret (-2))" by code_simp
  moreover from this obtain t1 where "run_state server_setup deaf_server = (Stop (Ret (-2)), t1)" by (metis prod.collapse)
  ultimately show ?thesis by (auto simp: iperf_run_server_def)
qed

text \<open>One turn: a client that asks for no stream and no time is running at once.\<close>

definition no_streams :: json where
  "no_streams = JObject [(''parallel'', JNumber 0), (''time'', JNumber 0)]"

definition with_token :: json where
  "with_token = JObject [(''authtoken'', JString ''AAAA'')]"

definition lands :: "json \<Rightarrow> int \<Rightarrow> test \<Rightarrow> bool" where
  "lands j st t = (case run_state (server_turn (demo_env j) 1000 (first_run 0 no_time)) t of
     (Go r, t') \<Rightarrow> test_state t' = st | (Stop x, t') \<Rightarrow> False)"

lemma demo_runs: "lands no_streams TEST_RUNNING (demo_start demo_server)"
  by code_simp

lemma demo_admits: "lands with_token CREATE_STREAMS (demo_start demo_guarded)"
  by code_simp

lemma lands_reaches:
  assumes "lands j st (demo_start s)" "run_state server_setup s = (Go no_time, demo_start s)"
  obtains r t where "reaches (demo_env j) 1000 (first_run 0 no_time) (demo_start s) r t" "test_state t = st"
proof -
  obtain r t where run: "run_state (server_turn (demo_env j) 1000 (first_run 0 no_time)) (demo_start s) = (Go r, t)"
    and st: "test_state t = st"
    using assms(1) by (auto simp: lands_def split: prod.splits step.splits)
  have "test_state (demo_start s) \<noteq> IPERF_DONE" using set_up_state [OF assms(2)] by simp
  from reaches.turn [OF reaches.start this run] st show thesis by (rule that)
qed

section \<open>A base64 and a key pair that keep their promises\<close>

fun sextets :: "nat list \<Rightarrow> nat list" where
  "sextets [] = []"
| "sextets [a] = [a div 4, a mod 4 * 16]"
| "sextets [a, b] = [a div 4, a mod 4 * 16 + b div 16, b mod 16 * 4]"
| "sextets (a # b # c # xs) = a div 4 # (a mod 4 * 16 + b div 16) # (b mod 16 * 4 + c div 64) # c mod 64 # sextets xs"

fun octets :: "nat list \<Rightarrow> nat list" where
  "octets [p, q] = [p * 4 + q div 16]"
| "octets [p, q, r] = [p * 4 + q div 16, q mod 16 * 16 + r div 4]"
| "octets (p # q # r # s # xs) = (p * 4 + q div 16) # (q mod 16 * 16 + r div 4) # (r mod 4 * 64 + s) # octets xs"
| "octets _ = []"

lemma octets_sextets: "\<forall>x \<in> set xs. x < 256 \<Longrightarrow> octets (sextets xs) = xs"
  by (induction xs rule: sextets.induct) (auto simp: less_mult_imp_div_less)

lemma sextets_small: "\<forall>x \<in> set xs. x < 256 \<Longrightarrow> \<forall>y \<in> set (sextets xs). y < 64"
  by (induction xs rule: sextets.induct) auto

lemma sextets_length: "length (sextets xs) + (3 - length xs mod 3) mod 3 = 4 * ((length xs + 2) div 3)"
proof (induction xs rule: sextets.induct)
  case (4 a b c xs)
  have "Suc (Suc (Suc (length xs))) mod 3 = length xs mod 3" by presburger
  moreover have "(5 + length xs) div 3 = Suc ((length xs + 2) div 3)" by presburger
  ultimately show ?case using 4 by simp
qed simp_all

definition letter :: "nat \<Rightarrow> char" where "letter k = char_of (k + 64)"

definition demo_encode :: "bytes \<Rightarrow> string" where
  "demo_encode bs = map letter (sextets (map unat bs)) @ replicate ((3 - length bs mod 3) mod 3) (CHR ''='')"

definition demo_decode :: "string \<Rightarrow> bytes option" where
  "demo_decode s = Some (map of_nat (octets (map (\<lambda>c. of_char c - 64) (takeWhile (\<lambda>c. c \<noteq> CHR ''='') s))))"

lemma letter_simps: "k < 64 \<Longrightarrow> of_char (letter k) = k + 64" "k < 64 \<Longrightarrow> letter k \<noteq> CHR ''=''"
proof -
  show "of_char (letter k) = k + 64" if "k < 64" for k
    using that by (simp add: letter_def)
  then show "k < 64 \<Longrightarrow> letter k \<noteq> CHR ''=''" by fastforce
qed

lemma demo_base64:
  "base64_shape (demo_encode bs) (length bs)" "demo_decode (demo_encode bs) = Some bs"
proof -
  let ?xs = "map unat bs"
  have small: "\<forall>x \<in> set ?xs. x < 256" using unsigned_less [where 'a = nat and 'b = 8] by auto
  have neq: "\<forall>c \<in> set (map letter (sextets ?xs)). c \<noteq> CHR ''=''"
    using sextets_small [OF small] by (auto dest!: letter_simps(2))
  show "base64_shape (demo_encode bs) (length bs)"
    unfolding base64_shape_def demo_encode_def
    using neq sextets_length [of ?xs] by (intro exI [of _ "map letter (sextets ?xs)"]) auto
  have "takeWhile (\<lambda>c. c \<noteq> CHR ''='') (demo_encode bs) = map letter (sextets ?xs)"
    unfolding demo_encode_def using neq
    by (subst takeWhile_append2) (auto simp: takeWhile_replicate)
  moreover have "map (\<lambda>c. of_char c - 64) (map letter (sextets ?xs)) = sextets ?xs"
    using sextets_small [OF small] by (simp add: map_idI letter_simps(1))
  ultimately show "demo_decode (demo_encode bs) = Some bs"
    by (simp add: demo_decode_def octets_sextets [OF small] map_idI)
qed

definition demo_encrypt :: "string \<Rightarrow> bytes option" where
  "demo_encrypt x = (if length x \<le> 245 then Some (of_nat (length x) # map (\<lambda>c. of_nat (of_char c)) x
     @ replicate (255 - length x) 0) else None)"

definition demo_decrypt :: "bytes \<Rightarrow> string option" where
  "demo_decrypt c = Some (map (\<lambda>b. char_of (unat b)) (take (unat (hd c)) (tl c)))"

lemma demo_rsa: "demo_encrypt x = Some c \<Longrightarrow> length c = 256 \<and> length x + 11 \<le> 256 \<and> demo_decrypt c = Some x"
  by (auto simp: demo_encrypt_def demo_decrypt_def unat_of_nat map_idI split: if_splits)

definition sound_crypto :: "string \<Rightarrow> crypto" where
  "sound_crypto file = \<lparr>bio_encode = demo_encode, bio_decode = demo_decode, rsa_size = (\<lambda>k. 256),
     rsa_public_encrypt = (\<lambda>x k. demo_encrypt x), rsa_private_decrypt = (\<lambda>c k. demo_decrypt c),
     sha_digest = (\<lambda>s. [171]), read_file = (\<lambda>f. Some file)\<rparr>"

lemma sound_crypto_ok: "base64_ok (sound_crypto file)" "rsa_ok (sound_crypto file) pub priv"
  by (auto simp: base64_ok_def rsa_ok_def sound_crypto_def demo_base64 dest: demo_rsa)

section \<open>A message on the wire\<close>

lemma Nread_whole:
  assumes "0 \<le> rv (orc w (tick w))" "rbytes (orc w (tick w)) = bs" "bs \<noteq> []"
  shows "Nread fd (length bs) w = (int (length bs), bs, after (Read fd bs) (int (length bs)) w)"
proof -
  have "sys_read fd (length bs) w = (int (length bs), bs, after (Read fd bs) (int (length bs)) w)"
    using assms by (simp add: sys_read_def answer_def Let_def)
  then show ?thesis
    using assms(3) by (simp add: Nread_def Nread_loop.simps [of fd "length bs" "length bs"] Nread_loop.simps [of fd "length bs" 0])
qed

text \<open>An allocator that never refuses, and a peer from which one message comes.\<close>

definition big_heap :: allocator where
  "big_heap = \<lparr>available = (\<lambda>n. True), garbage = (\<lambda>i. NUL)\<rparr>"

definition reading_server :: "bytes \<Rightarrow> test" where
  "reading_server str = (blank_test [ok_resp\<lparr>rbytes := be 4 (length str)\<rparr>, ok_resp\<lparr>rbytes := str\<rparr>])
     \<lparr>ctrl_sck := 5, test_role := CHR ''s''\<rparr>"

lemma message_arrives:
  assumes "orc w (tick w) = ok_resp\<lparr>rbytes := be 4 (length str)\<rparr>" "orc w (Suc (tick w)) = ok_resp\<lparr>rbytes := str\<rparr>" "str \<noteq> []"
  shows "\<exists>s1 s2. Nread fd 4 w = (4, be 4 (length str), s1) \<and> Nread fd (length str) s1 = (int (length str), str, s2)"
proof -
  have "be 4 (length str) \<noteq> []" by (metis length_be list.size(3) zero_neq_numeral)
  then have "Nread fd 4 w = (4, be 4 (length str), after (Read fd (be 4 (length str))) 4 w)"
    using Nread_whole [of w "be 4 (length str)" fd] assms(1) by (simp add: length_be ok_resp_def)
  moreover have "Nread fd (length str) v = (int (length str), str, after (Read fd str) (int (length str)) v)"
    if "v = after (Read fd (be 4 (length str))) 4 w" for v
    using Nread_whole [of v str fd] assms(2,3) that by (simp add: ok_resp_def after_def)
  ultimately show ?thesis by blast
qed

lemma idle_reading_server: "idle_server (reading_server str)"
  by (simp add: idle_server_def unconfigured_def reading_server_def Let_def blank_test_def
      iperf_defaults_def default_settings_def zero_settings_def iperf_new_test_def set_protocol_def check_sender_has_retransmits_def)

lemma reading_server_reads:
  fixes t :: test
  assumes "orc t = orc (reading_server str)" "tick t = tick (reading_server str)" "str \<noteq> []"
  shows "\<exists>s1 s2. Nread fd 4 t = (4, be 4 (length str), s1) \<and> Nread fd (length str) s1 = (int (length str), str, s2)"
  by (rule message_arrives)
    (simp_all add: assms reading_server_def blank_test_def iperf_defaults_def iperf_new_test_def set_protocol_def
      check_sender_has_retransmits_def Let_def fresh_os_def script_def)

lemma big_heap_prints:
  assumes "every double_number j" "length (json_text fmt 0 j) < 4294967295"
  shows "print_json big_heap fmt j = Printed (json_text fmt 0 j)"
proof -
  have "plenty big_heap (length (json_text fmt 0 j) + 256)"
    using assms(2) by (simp add: plenty_def big_heap_def SIZE_MAX_def)
  then show ?thesis
    using print_json_text [OF assms(1), of fmt big_heap] assms(2) by (simp add: SIZE_MAX_def)
qed

lemma printed_by_big_heap:
  assumes "every double_number j" "length (json_text False 0 j) < 4294967295"
  shows "cjson_print big_heap j = Some (map of_char (json_text False 0 j))"
  using big_heap_prints [OF assms] by (simp add: cjson_print_def cJSON_PrintUnformatted_def)

lemma number_text_small [simp]:
  "number_text 0 = show_int 0" "number_text 1 = show_int 1"
  "(numeral w :: int) < 10 ^ 15 \<Longrightarrow> number_text (numeral w) = show_int (numeral w)"
  "(numeral w :: int) < 10 ^ 15 \<Longrightarrow> number_text (- numeral w) = show_int (- numeral w)"
  using number_text_int [of 0] number_text_int [of 1] number_text_int [of "numeral w"] number_text_int [of "- numeral w"]
  by simp_all

lemma f64_small [simp]:
  "f64 0 = 0" "f64 1 = 1" "f64 (- 1) = - 1" "(numeral w :: int) < 10 ^ 15 \<Longrightarrow> f64 (numeral w) = numeral w"
  "(numeral w :: int) < 10 ^ 15 \<Longrightarrow> f64 (- numeral w) = - numeral w"
proof -
  have b: "f64 (of_int n) = of_int n" if "\<bar>n\<bar> < 10 ^ 15" for n
  proof -
    have "(10 :: int) ^ 15 \<le> 2 ^ 53" by simp
    with that show ?thesis by (intro f64_int) linarith
  qed
  show "f64 0 = 0" "f64 1 = 1" "f64 (- 1) = - 1" using b [of 0] b [of 1] b [of "- 1"] by simp_all
  assume "(numeral w :: int) < 10 ^ 15"
  then show "f64 (numeral w) = numeral w" "f64 (- numeral w) = - numeral w"
    using b [of "numeral w"] b [of "- numeral w"] by simp_all
qed

text \<open>
  A reverse UDP client with three streams and a server that has counted 77 bytes; what their messages
  look like on the wire.
\<close>

definition sending_client :: test where
  "sending_client = (let c = blank_test [] in c\<lparr>num_streams := 3, reverse := True, multipath := True, protocol := Pudp,
     settings := (settings c)\<lparr>blksize := 1460\<rparr>\<rparr>)"

definition sent_parameters :: json where
  "sent_parameters = JObject (params_members None '''' sending_client)"

definition counting_server :: test where
  "counting_server = (blank_test [])\<lparr>streams := [(zero_stream 5 False)\<lparr>stream_id := 1, result := zero_result\<lparr>bytes_received := 77\<rparr>\<rparr>]\<rparr>"

definition counted_results :: json where
  "counted_results = JObject (results_members counting_server)"

lemma number_text_minus [simp]: "number_text (- 1) = show_int (- 1)"
  using number_text_int [of "- 1"] by simp

lemma exact_small [simp]:
  "every exact (JNumber 0)" "every exact (JNumber 1)" "every exact (JNumber (- 1))"
  "(numeral w :: int) < 10 ^ 15 \<Longrightarrow> every exact (JNumber (numeral w))"
  using exact_int [of 0] exact_int [of 1] exact_int [of "- 1"] exact_int [of "numeral w"] by (simp_all add: json_int_def)

lemmas evaluated = Let_def blank_test_def opt_member_def opt_string_def proto_members_def
  iperf_defaults_def default_settings_def zero_settings_def iperf_new_test_def set_protocol_def
  check_sender_has_retransmits_def json_int_def json_u64_def string_text_def escaped_def short_escape_def show_int_def
  digits.simps c_str_def char_of_def bit_0

definition small_document :: json where
  "small_document = JObject [(''on'', JTrue), (''list'', JArray [JNull, JString [CHR ''a'', CHR 0x22, CHR 0x09]])]"

lemma small_text:
  "json_text False 0 small_document = ''{\"on\":true,\"list\":[null,\"a'' @ [CHR 0x5C, CHR 0x22, CHR 0x5C] @ ''t\"]}''"
  "length (json_text True 0 small_document) < 100"
  by (simp_all add: small_document_def evaluated)

lemma sent_text:
  "json_text False 0 sent_parameters = ''{\"udp\":true,\"omit\":0,\"time\":10,\"parallel\":3,\"reverse\":true,\"multipath\":true,\"len\":1460,\"pacing_timer\":1000,\"client_version\":\"\"}''"
  by (simp add: evaluated sent_parameters_def params_members_def sending_client_def)

lemma counted_members:
  "results_members counting_server = [(''cpu_util_total'', JNumber 0), (''cpu_util_user'', JNumber 0), (''cpu_util_system'', JNumber 0),
     (''sender_has_retransmits'', JNumber (- 1)), (''streams'', JArray [JObject [(''id'', JNumber 1), (''bytes'', JNumber 77),
       (''retransmits'', JNumber (- 1)), (''jitter'', JNumber 0), (''errors'', JNumber 0), (''packets'', JNumber 0),
       (''start_time'', JNumber 0), (''end_time'', JNumber 0)]])]"
  by (simp add: counting_server_def results_members_def evaluated output_members_def stream_members_def
       zero_stream_def zero_result_def transferred_def sent_retransmits_def time_since_self)

lemma counted_exact:
  "every exact counted_results" "nests_within CJSON_NESTING_LIMIT counted_results"
  unfolding counted_results_def counted_members CJSON_NESTING_LIMIT_def by (simp_all add: exact_object exact_array del: every.simps)

lemma counted_text:
  "json_text False 0 counted_results = ''{\"cpu_util_total\":0,\"cpu_util_user\":0,\"cpu_util_system\":0,\"sender_has_retransmits\":-1,\"streams\":[{\"id\":1,\"bytes\":77,\"retransmits\":-1,\"jitter\":0,\"errors\":0,\"packets\":0,\"start_time\":0,\"end_time\":0}]}''"
  by (simp add: counted_results_def counted_members evaluated)

section \<open>Command lines\<close>

definition no_keys :: option_env where
  "no_keys = \<lparr>oe_password = None, oe_getpass = None, oe_load_pubkey = (\<lambda>f. None), oe_load_privkey = (\<lambda>f. None),
     oe_entry_memory = (\<lambda>n. True), oe_name_memory = (\<lambda>n. True), oe_junk = Number 0, oe_ub = 0, oe_ub_int = 0\<rparr>"

definition long_client :: "(flag \<times> string option) list" where
  "long_client = [(Letter CHR ''c'', Some ''h''), (Letter CHR ''l'', Some ''4G'')]"

definition watchful_server :: "(flag \<times> string option) list" where
  "watchful_server = [(Letter CHR ''s'', None), (Letter CHR ''i'', Some ''0.5''), (Code OPT_SERVER_BITRATE_LIMIT, Some ''4G/60'')]"

definition typed_client :: "int \<Rightarrow> test" where
  "typed_client n = (iperf_set_test_role (CHR ''c'') (blank_test []))\<lparr>server_hostname := Some ''h'',
     settings := (settings (blank_test []))\<lparr>bitrate_limit_stats_per_interval := n\<rparr>\<rparr>"

lemma options_of_a_server:
  "\<exists>p. iperf_parse_arguments no_keys [(Letter CHR ''s'', None), (Letter CHR ''m'', None), (Letter CHR ''4'', None),
      (Letter CHR ''X'', Some ''a''), (Code OPT_CLIENT_PORT, Some ''7'')] (blank_test []) = Fine p
    \<and> test_role (o_test p) = CHR ''s'' \<and> multipath (o_test p) \<and> bind_port (o_test p) = 7"
proof -
  have "atoi ''7'' = 7" by code_simp
  then show ?thesis
    by (simp add: iperf_parse_arguments_def parse_option_def both_side_options_def server_side_options_def client_side_options_def
      and_next_def required_def plainly_def opt_server_def opt_multipath_def opt_version_def opt_xbind_def opt_cport_def
      start_parsing_def blank_fields check_options_def check_roles_def no_keys_def
      client_auth_def server_auth_def block_size_def default_rate_def end_conditions_def check_def need_role_def
      total_rate_window_def in_test_def set_settings_def)
qed

lemma long_client_accepted:
  "\<exists>p n. iperf_parse_arguments E long_client (blank_test []) = Fine p \<and> o_test p = typed_client n"
  by (simp add: long_client_def typed_client_def iperf_parse_arguments_def parse_option_def both_side_options_def server_side_options_def client_side_options_def and_next_def
     required_def opt_client_def opt_length_def four_giga to_int_def start_parsing_def check_options_def check_roles_def
     client_auth_def server_auth_def block_size_def default_rate_def end_conditions_def check_def need_role_def total_rate_window_def
    in_test_def for_client_def set_settings_def blank_fields)

lemma typed_members:
  "params_members None '''' (typed_client n) = [(''tcp'', JTrue), (''omit'', json_int 0), (''time'', json_int 10), (''parallel'', json_int 1), 
     (''len'', json_int 131072), (''pacing_timer'', json_int 1000), (''client_version'', JString '''')]"
  by (simp add: typed_client_def params_members_def opt_member_def opt_string_def proto_members_def blank_fields)

lemma typed_text:
  "json_text False 0 (JObject (params_members None '''' (typed_client n))) =
     ''{\"tcp\":true,\"omit\":0,\"time\":10,\"parallel\":1,\"len\":131072,\"pacing_timer\":1000,\"client_version\":\"\"}''"
  by (simp add: typed_members evaluated)

lemma typed_simps: "plain None '''' (typed_client n)" "blksize (settings (typed_client n)) = DEFAULT_TCP_BLKSIZE"
   "pacing_timer (settings (typed_client n)) \<noteq> 0"
  by (simp_all add: typed_client_def plain_def plain_string_def blank_fields)

lemma typed_double: "every double_number (JObject (params_members None '''' (typed_client n)))"
  unfolding typed_members by (simp add: json_int_def double_number_def is_double_def)

lemma no_role_example:
  "\<exists>t'. iperf_parse_arguments E [] (blank_test []) = Wrong t' \<and> i_errno t' = IENOROLE"
  by (simp add: iperf_parse_arguments_def and_next_def start_parsing_def check_options_def check_roles_def client_auth_def
      server_auth_def block_size_def default_rate_def end_conditions_def check_def wrong_def need_role_def in_test_def
      set_settings_def blank_fields)

section \<open>Reports\<close>

text \<open>A test as the reports see it: what has been written so far, the format of the time stamps.\<close>

definition reporting_on :: "bool \<Rightarrow> (int \<Rightarrow> string) \<Rightarrow> string \<Rightarrow> string \<Rightarrow> string \<Rightarrow> test \<Rightarrow> report" where
  "reporting_on stamps clock out std err t = iperf_test.extend t (report.fields stamps clock out std err)"

lemma reporting_on_simps [simp]: "streams (reporting_on stamps clock out std err t) = streams t"
  by (simp add: reporting_on_def iperf_test.extend_def)

text \<open>A client in JSON mode whose only stream has sent 77 bytes in an interval of one second; a server that prints for its client.\<close>

definition busy_interval :: interval_results where
  "busy_interval = (empty_interval no_info False)\<lparr>ir_bytes := 77, ir_end := Time 1 0\<rparr>"

definition json_client :: report where
  "json_client = (reporting_on False (\<lambda>n. []) [] [] [] (blank_test []))\<lparr>test_role := CHR ''c'', json_output := True,
     mode := SENDER, json_top := Some (document (JObject []) [] (JObject [])),
     streams := [(zero_stream 5 True)\<lparr>result := zero_result\<lparr>interval_results := [busy_interval]\<rparr>\<rparr>]\<rparr>"

definition printing_server :: report where
  "printing_server = (reporting_on False (\<lambda>n. []) ''pre'' [] [] (blank_test []))\<lparr>test_role := CHR ''s'', mode := RECEIVER,
     get_server_output := True, streams := [(zero_stream 5 False)\<lparr>result := zero_result\<lparr>interval_results := [busy_interval]\<rparr>\<rparr>]\<rparr>"

lemma json_client_simps:
  "json_output json_client" "mode json_client = SENDER" "json_top json_client = Some (document (JObject []) [] (JObject []))"
  "all_reported (streams json_client)" "interval_ok json_client" "\<forall>sp \<in> set (streams json_client). is_sender sp"
  "map (\<lambda>sp. ir_bytes (the (last_interval sp))) (streams json_client) = [77]" "outfile json_client = []"
  "\<not> debug json_client"
  by (simp_all add: json_client_def reporting_on_def iperf_test.extend_def report.fields_def all_reported_def blank_fields
      interval_ok_def forces_keep_def last_interval_def busy_interval_def empty_interval_def zero_stream_def zero_result_def Let_def)

lemma printing_server_simps:
  "test_role printing_server = CHR ''s''" "get_server_output printing_server" "\<not> json_output printing_server"
  "logfile printing_server = None" "outfile printing_server = ''pre''" "server_output_list printing_server = []"
  "\<not> debug printing_server"
  by (simp_all add: printing_server_def reporting_on_def iperf_test.extend_def report.fields_def blank_fields)

end
