(* ===== verification/Spec2Isabelle.thy ===== *)
theory Spec2Isabelle
  imports Examples
begin

text \<open>
  A model of the C sources of iperf3 with Multipath TCP, directory \<open>iperf/src\<close>.

  The program measures the throughput between two hosts. A server waits for a client on a control
  connection (TCP). The client sends its parameters as JSON, both sides open the data streams (TCP,
  Multipath TCP or UDP), the data flow until time, bytes or blocks are used up, the results are
  exchanged, and the server goes back to waiting. Timers driven by the main loops (\<open>timer.c\<close>) end the
  test, take statistics and pace the senders.

  Theories, in the order of the code they model:

  \<^item> \<open>Prelude\<close>: lemmas on words and lists, weakest preconditions (\<open>wp\<close>), invariants (\<open>preserves\<close>) and
    evaluation (\<open>run_simps\<close>) for the library's state monad.
  \<^item> \<open>Iperf_Time\<close> (\<open>iperf_time.c\<close>), \<open>Timer\<close> (\<open>timer.c\<close>: the doubly linked list over an explicit heap,
    with its refinement of a sorted list of due times).
  \<^item> \<open>Sys\<close>: the operating system, an oracle that answers the \<open>n\<close>-th call with the \<open>n\<close>-th response and
    records a trace. A theorem over this state holds for every behaviour of kernel, network and peer.
    \<open>Net\<close> (\<open>net.c\<close>): connecting, listening, moving blocks.
  \<^item> \<open>Float64\<close>: the rounding of \<open>double\<close>, as rationals. \<open>Test\<close> (\<open>iperf.h\<close>, \<open>iperf_api.h\<close>, parts of
    \<open>iperf_api.c\<close>): the structures, constants, error codes; creating and resetting a test.
  \<^item> \<open>Udp\<close> (\<open>iperf_udp.c\<close>), \<open>Tcp\<close> (\<open>iperf_tcp.c\<close>), \<open>Sctp\<close> (\<open>iperf_sctp.c\<close>), \<open>Traffic\<close> (\<open>iperf_api.c\<close>: \<open>iperf_send\<close>, \<open>iperf_recv\<close>,
    throttle, rate limit, file transfer, statistics), \<open>Streams\<close> (\<open>iperf_new_stream\<close>, \<open>iperf_util.c\<close>).
  \<^item> \<open>Json\<close> (\<open>cjson.c\<close>: items and lookup; \<open>JSON_write\<close>, \<open>JSON_read\<close>), \<open>Auth\<close> (\<open>iperf_auth.c\<close>), \<open>Params\<close>
    and \<open>Results\<close> (\<open>send_parameters\<close>, \<open>get_parameters\<close>, \<open>send_results\<close>, \<open>get_results\<close>).
  \<^item> \<open>Json_Number\<close>, \<open>Json_Print\<close>, \<open>Json_Parse\<close> (\<open>cjson.c\<close>: the text of a document): numbers with 15 or 17 digits,
    the printer over its growing buffer with the text as specification, the parser over the bytes
    that are left. A write or read outside the memory is a value (\<open>Wild\<close>, \<open>Faulty\<close>), and the lemmas
    show that it does not occur. \<open>Wire\<close>: printer and parser over bytes, and the documents that survive unchanged.
  \<^item> \<open>Units\<close> (\<open>units.c\<close>, \<open>dscp.c\<close>), \<open>Options\<close> (\<open>iperf_parse_arguments\<close>: a definition for each case of the switch, a
    table from the flags to them, the checks behind the loop; \<open>options_ok\<close> is the invariant that every option keeps).
    \<open>Errors\<close> (\<open>iperf_error.c\<close>): the table of messages and the buffer of \<open>iperf_strerror\<close>.
  \<^item> \<open>Printf\<close> (\<open>unit_snprintf\<close> of \<open>units.c\<close> over the conversions of \<open>printf\<close>), \<open>Reports\<close> (\<open>iperf_print_intermediate\<close>,
    \<open>iperf_print_results\<close>, \<open>iperf_reporter_callback\<close>, \<open>iperf_printf\<close>, \<open>iperf_json_printf\<close>, \<open>iperf_err\<close>, formats of
    \<open>iperf_locale.c\<close>), over the test with the texts written so far. \<open>Report_Frames\<close>: what a report changes and what
    not; \<open>Report_Json\<close>: what it writes into the document.
  \<^item> \<open>Callbacks\<close> (everything hung on a timer), \<open>Lifecycle\<close> (stream ids, what a reset keeps).
  \<^item> \<open>Messages\<close>, \<open>Server\<close> (\<open>iperf_server_api.c\<close>), \<open>Client\<close> (\<open>iperf_client_api.c\<close>), \<open>Session\<close> (\<open>main.c\<close>):
    the control connection and the main loops, one turn of a loop being one function.
  \<^item> \<open>Frames\<close>, \<open>Start\<close>, \<open>Control\<close>, \<open>Reach\<close>: no new code, but what the code keeps. The locale \<open>framed\<close>
    is the interface of a property that most code cannot change; \<open>staged\<close>, \<open>informed\<close> and \<open>steady\<close> extend it step by
    step to one that no client can change; \<open>untold\<close> (in \<open>Start\<close>) is that of what a client's parameters, apart
    from the token, leave as it is, \<open>turn_invariant\<close> of an invariant of the server's main loop, \<open>interval_reporting\<close> and \<open>reporting\<close> (in
    \<open>Report_Frames\<close>) of one that the reports keep; each is interpreted on the model, \<open>turn_invariant\<close> for the
    counting of streams and for authentication.
  \<^item> \<open>Examples\<close>: concrete tests, servers and keys, on which the theorems here are applied.

  How the model is written. A C structure is a record with the names of its members, a function a
  function of the same name; code that makes system calls or changes the test is in the state monad
  over \<open>test\<close>, which extends \<open>os\<close>. \<open>int\<close> is \<open>int\<close> (overflow of signed arithmetic is not modelled, except
  where a width is written out: \<open>to_int\<close>, \<open>i32\<close>), unsigned integers are words. An early return is a
  value (\<open>Stop\<close>), a memory error the outcome \<open>Crash\<close>, the end of the process in \<open>iperf_errexit\<close> the ending
  \<open>Exited\<close>. Uninitialised memory is an argument (\<open>junk\<close>, \<open>stale\<close>, \<open>ub\<close>).

  Loops that may run for ever (\<open>tmr_run\<close>, the two main loops, \<open>serve\<close>) are partial functions into
  \<open>option\<close>, \<open>None\<close> being no return; that the timers of a client return is proved, and that two timers
  with period 0 do not. The loops over \<open>read\<close> and \<open>write\<close> end because each round moves a byte or stops.
  No fuel is used.

  Parameters of the model, because their code is not in the repository: the responses of the system,
  \<open>malloc\<close>'s next address and whether it refuses, what lies in fresh memory, OpenSSL (record \<open>crypto\<close>; the
  theorems on tokens assume that base64 and RSA invert each other, and an instance that does is in
  \<open>Examples\<close>), the flags that \<open>getopt_long\<close> takes from the command line. The printer and the parser of JSON are
  arguments of the definitions up to \<open>Reach\<close>, since the servers' and clients' behaviour does not depend on
  them; the theorems on the exchanges here are about the instance \<open>cjson_print\<close> and \<open>cjson_parse\<close>.
  The C library's conversions (\<open>strtod\<close>, \<open>%.17g\<close>, \<open>strtol\<close>, \<open>sscanf\<close>) are written out.

  The properties below come in the order of the theories; their numbers give their importance.

  The reports stand beside the main loops: the loops run the timer callbacks without what the reporter prints, and
  \<open>reports_leave_the_test\<close> says why this changes nothing for the test. SCTP likewise: the table of protocols
  is that of a build without it.

  Not modelled: the messages that open a test (\<open>iperf_on_test_start\<close>, \<open>iperf_on_connect\<close>), usage and version texts; daemon
  mode and the PID file; Windows and BSD branches; reading the password from a terminal; the setters and
  getters of the library interface that only store or return a member; the parts of \<open>cjson.c\<close> that iperf
  never calls (raw items, printing into a buffer of the caller, minifying, comparing, duplicating), the error
  position and failing allocations of its parser; the test programs. A test's JSON
  report is reduced to its skeleton up to \<open>Reach\<close>, and filled in in \<open>Reports\<close>.
\<close>

section \<open>Time\<close>

text \<open>
  Adding microseconds to a normalised time stamp gives a normalised time stamp, and the sum
  is exact except for the wrap-around of the 32-bit seconds.
\<close>

theorem add_usecs_is_addition:
  assumes "normal_time t"
  shows "normal_time (iperf_time_add_usecs t us)
    \<and> micros (iperf_time_add_usecs t us) = (micros t + unat us) mod 4294967296000000"
  using assms by (rule add_usecs_exact)

theorem add_usecs_is_addition_witness:
  "micros (iperf_time_add_usecs (Time 4294967295 999999) 1) = 0"
  using add_usecs_is_addition [of "Time 4294967295 999999" 1] by (simp add: normal_time_def micros_def)

text \<open>
  \<open>iperf_time_diff\<close> of two normalised time stamps is their exact distance, normalised, and its
  return value says which one is later (equal times count as past).
\<close>

theorem diff_is_distance:
  assumes "normal_time a" "normal_time b"
  shows "fst (iperf_time_diff a b) = (if a \<le> b then 1 else 0)
    \<and> normal_time (snd (iperf_time_diff a b))
    \<and> int (micros (snd (iperf_time_diff a b))) = \<bar>int (micros a) - int (micros b)\<bar>"
  using assms by (rule time_diff_exact)

theorem diff_is_distance_witness:
  "int (micros (snd (iperf_time_diff (Time 5 1) (Time 2 999999)))) = 2000002"
  using diff_is_distance [of "Time 5 1" "Time 2 999999"] by (simp add: normal_time_def micros_def)

section \<open>The timer list\<close>

definition one_timer :: "tproc tmrs" where
  "one_timer = \<lparr>theap = (\<lambda>p. empty_timer\<lparr>periodic := True, t_usecs := 7\<rparr>), timers = Some 5, free_timers = None\<rparr>"

lemma one_timer_ok: "timers_ok one_timer [5] []"
  by (simp add: timers_ok_def timer_lists_def due_sorted_def one_timer_def empty_timer_def)

text \<open>
  C12: \<open>tmr_create\<close> links the new timer into the list behind all timers that are due no later and
  before all later ones, with the due time, the period and the callback asked for (the client data of a
  callback is part of its constructor); the list stays well linked and sorted, and every other timer in it keeps its
  due time, its callback and data, its period and whether it is periodic. There is a node for the timer: one of the free list
  or a new one.
\<close>

theorem create_inserts_in_order:
  assumes "timers_ok st xs fs" "\<And>m. mem = Some m \<Longrightarrow> m \<notin> set (xs @ fs)" "fs \<noteq> [] \<or> mem \<noteq> None"
  shows "\<exists>st' t fs'. tmr_create st mem clock nowP proc us per = Some (st', Some t)
    \<and> t \<notin> set xs \<and> timers_ok st' (insert_due st' t xs) fs'
    \<and> timer_proc (theap st' t) = proc \<and> periodic (theap st' t) = per
    \<and> due st' t = iperf_time_add_usecs (getnow nowP clock) us \<and> t_usecs (theap st' t) = us
    \<and> (\<forall>x \<in> set xs. due st' x = due st x \<and> timer_proc (theap st' x) = timer_proc (theap st x)
        \<and> periodic (theap st' x) = periodic (theap st x) \<and> t_usecs (theap st' x) = t_usecs (theap st x))"
proof -
  from tmr_create_ok [OF assms, of clock nowP proc us per] show ?thesis by metis
qed

theorem create_inserts_in_order_witness:
  "\<exists>st' t fs'. tmr_create one_timer (Some 6) no_time None Test_Timer 3 False = Some (st', Some t)
    \<and> t \<noteq> 5 \<and> timers_ok st' (insert_due st' t [5]) fs'"
  using create_inserts_in_order [OF one_timer_ok, of "Some 6" no_time None Test_Timer 3 False] by auto

text \<open>
  \<open>tmr_cancel\<close> takes exactly that timer out of the sorted list and puts it at the head of the
  free list; \<open>tmr_reset\<close> moves it to its new place, one period after now, and changes no other.
\<close>

theorem cancel_and_reset:
  assumes "timers_ok st xs fs" "t \<in> set xs"
  shows "timers_ok (tmr_cancel st t) (remove1 t xs) (t # fs)
    \<and> (\<exists>st' ys. tmr_reset st clock nowP t = Some st' \<and> timers_ok st' ys fs \<and> set ys = set xs
      \<and> due st' = (due st)(t := iperf_time_add_usecs (getnow nowP clock) (t_usecs (theap st t))))"
  using tmr_cancel_ok [OF assms] tmr_reset_ok [OF assms] by blast

theorem cancel_and_reset_witness:
  "timers_ok (tmr_cancel one_timer 5) [] [5]
    \<and> (\<exists>st' ys. tmr_reset one_timer (Time 3 0) None 5 = Some st' \<and> timers_ok st' ys [] \<and> set ys = {5})"
  using cancel_and_reset [OF one_timer_ok, of 5 "Time 3 0" None] by auto

text \<open>
  \<open>tmr_destroy\<close> ends on every well-linked list and leaves no timer, neither active nor free.
\<close>

theorem destroy_empties:
  assumes "timer_lists st xs fs"
  shows "\<exists>st'. tmr_destroy st = Some st' \<and> timer_lists st' [] []"
proof -
  from cancel_all_frees [OF assms] obtain st' where
    "cancel_all st = Some st'" "timer_lists st' [] (rev xs @ fs)" by blast
  then show ?thesis by (auto simp: tmr_destroy_def tmr_cleanup_def timer_lists_def)
qed

theorem destroy_empties_witness: "\<exists>st'. tmr_destroy one_timer = Some st' \<and> timer_lists st' [] []"
  by (rule destroy_empties [of _ "[5]" "[]"]) (use one_timer_ok in \<open>simp add: timers_ok_def\<close>)

text \<open>
  Two send timers with a pacing interval of 0 that are due make \<open>tmr_run\<close> run for ever: each
  is put back behind the other. (The option parser accepts a pacing timer of 0.)
\<close>

theorem zero_pacing_never_returns:
  assumes "zero_pair {Send_Timer i, Send_Timer j} now (tm t) p q"
    and "nat i < length (streams t)" "nat j < length (streams t)"
  shows "run_timers ub now t = None"
proof -
  define n where "n = length (streams t)"
  have "quiet_on {Send_Timer i, Send_Timer j} (\<lambda>w. length (streams w) = n) (fire ub)"
    using assms(2,3) unfolding quiet_on_def
    by (auto simp: fire_def run_callback_def send_timer_proc_def iperf_check_throttle_def Let_def
        put_stream_def n_def)
  then have "tmr_run_loop (fire ub) now (Some p) (tm t) t \<noteq> Some r" for r :: "tproc tmrs \<times> test"
    using zero_pair_loops [of "fire ub" now "Some p" "tm t" t r "{Send_Timer i, Send_Timer j}"
        "\<lambda>w. length (streams w) = n"] assms(1) by (auto simp: n_def)
  then have "tmr_run_loop (fire ub) now (Some p) (tm t) t = None"
    by (metis not_None_eq)
  then show ?thesis
    using zero_pair_step(2) [OF assms(1)] by (simp add: run_timers_def tmr_run_def getnow_def)
qed

definition zero_paced :: test where
  "zero_paced = (blank_test [])\<lparr>streams := [zero_stream 5 True, zero_stream 6 True],
     tm := \<lparr>theap = (\<lambda>p. empty_timer\<lparr>timer_proc := Send_Timer (int p - 1), periodic := True,
        prev := (if p = 1 then None else Some 1), nxt := (if p = 1 then Some 2 else None)\<rparr>),
       timers = Some 1, free_timers = None\<rparr>\<rparr>"

theorem zero_pacing_never_returns_witness: "run_timers 0 (Time 1 0) zero_paced = None"
proof (rule zero_pacing_never_returns [where i = 0 and j = 1 and p = 1 and q = 2])
  show "zero_pair {Send_Timer 0, Send_Timer 1} (Time 1 0) (tm zero_paced) 1 2"
    by (simp add: zero_pair_def timer_lists_def due_def zero_paced_def empty_timer_def no_time_def
        normal_time_def time_less_iff order_le_less)
qed (simp_all add: zero_paced_def)

section \<open>Sockets and blocks\<close>

lemma fds_wp: "fds (held w) m Q \<Longrightarrow> wp m (\<lambda>r w'. Q r (held w')) w"
  by (simp add: fds_def)

text \<open>
  C20: \<open>netannounce\<close> leaks no descriptor: whatever the system answers, the process holds exactly the
  descriptor it returns, or what it held before when it returns an error.
\<close>

theorem netannounce_no_leak:
  "wp (netannounce domain proto addr dev port) (\<lambda>r w'. opened (held w) r (held w')) w"
  by (rule fds_wp) (rule netannounce_fds)

text \<open>
  The same holds of \<open>netdial\<close> if a local address is given or no local port.
\<close>

theorem netdial_no_leak:
  assumes "addr \<noteq> None \<or> lport = 0"
  shows "wp (netdial domain proto addr dev lport server port timeout) (\<lambda>r w'. opened (held w) r (held w')) w"
  by (rule fds_wp) (rule netdial_fds [OF assms])

theorem netdial_no_leak_witness:
  "wp (netdial 0 1 None None 0 ''h'' 5201 (-1)) (\<lambda>r w'. opened (held (fresh_os [])) r (held w')) (fresh_os [])"
  by (rule netdial_no_leak) simp

text \<open>
  With a local port, no local address and a server address of neither IP family, \<open>netdial\<close>
  reports an error and forgets the socket it has opened.
\<close>

theorem netdial_leaks_socket:
  assumes "rv (orc w (tick w)) = 0" "rval (orc w (tick w)) \<notin> {AF_INET, AF_INET6}"
    "0 \<le> rv (orc w (Suc (tick w)))" "lport \<noteq> 0"
  shows "wp (netdial domain proto None None lport server port timeout)
    (\<lambda>r w'. r = -1 \<and> held w' = (held w)(rv (orc w (Suc (tick w))) := held w (rv (orc w (Suc (tick w)))) + 1)) w"
  using assms
  by (auto simp: netdial_def netdial_bind_def wp_simps answer_def after_def held_def fun_eq_iff)

theorem netdial_leaks_socket_witness:
  "wp (netdial 0 1 None None 7 ''h'' 5201 (-1)) (\<lambda>r w'. r = -1 \<and> held w' 9 = 1)
    (fresh_os [ok_resp\<lparr>rval := 1\<rparr>, ok_resp\<lparr>rv := 9\<rparr>])"
proof -
  have "wp (netdial 0 1 None None 7 ''h'' 5201 (-1)) (\<lambda>r w'. r = -1 \<and> held w' =
      (held (fresh_os [ok_resp\<lparr>rval := 1\<rparr>, ok_resp\<lparr>rv := 9\<rparr>]))(9 := held (fresh_os [ok_resp\<lparr>rval := 1\<rparr>, ok_resp\<lparr>rv := 9\<rparr>]) 9 + 1))
    (fresh_os [ok_resp\<lparr>rval := 1\<rparr>, ok_resp\<lparr>rv := 9\<rparr>])"
    using netdial_leaks_socket [of "fresh_os [ok_resp\<lparr>rval := 1\<rparr>, ok_resp\<lparr>rv := 9\<rparr>]" 7 0 1 "''h''" 5201 "-1"]
    by (simp add: fresh_os_def script_def ok_resp_def os_consts)
  then show ?thesis by (rule wp_mono) (simp add: held_def fresh_os_def)
qed

text \<open>
  C36: \<open>Nread\<close> stores exactly the bytes it takes off the descriptor, never more than asked for; a
  non-negative result is their number, and the only error is the hard one.
\<close>

theorem Nread_delivers:
  "read_outcome fd count [] w (Nread fd count w)"
  by (rule Nread_spec)

text \<open>
  C37: \<open>Nwrite\<close> puts a prefix of the buffer on the wire, in order; a non-negative result is the length
  of the prefix, an error says that something is missing; no other descriptor is written.
\<close>

theorem Nwrite_writes_prefix:
  "write_outcome fd (length buf) buf w (Nwrite fd buf w)"
  by (rule Nwrite_spec)

text \<open>
  \<open>Nsendfile\<close> ends, returns at most the length of the block, and fails only with the soft or the
  hard error.
\<close>

theorem Nsendfile_bounded:
  "case Nsendfile fromfd tofd count w of (r, w') \<Rightarrow>
    r \<le> int count \<and> held w' = held w \<and> (if r < 0 then r \<in> {NET_SOFTERROR, NET_HARDERROR} else 0 \<le> r)"
  by (rule Nsendfile_spec)

section \<open>UDP\<close>

text \<open>
  C38: The header that a UDP datagram starts with is read back as it was written: the time stamp, and
  the sequence number modulo 2^32 or, with 64-bit counters, modulo 2^64.
\<close>

theorem udp_header_round_trip:
  "udp_fields wide (udp_header wide before pc @ rest) =
     (before, if wide then word_of_int pc else ucast (word_of_int pc :: u32))"
  by (rule udp_fields_header)

text \<open>
  C15: After any sequence of distinct, positive sequence numbers below 2^31 (the counters are of type \<open>int\<close>) the receiver's
  counters, which were 0 before, are exact: the packet count is the highest number, the errors are the numbers below it that have not arrived, and
  the out-of-order count is the number of datagrams that came behind a higher one.
\<close>

theorem udp_loss_is_exact:
  assumes "packet_count sp = 0" "cnt_error sp = 0"
    and "distinct ps" "\<And>p. p \<in> set ps \<Longrightarrow> 0 < uint p \<and> uint p < 2147483648"
  shows "packet_count (udp_counts ps sp) = highest ps
    \<and> cnt_error (udp_counts ps sp) = highest ps - int (length ps)
    \<and> outoforder_packets (udp_counts ps sp) = outoforder_packets sp + late ps"
  using assms by (rule udp_counts_exact)

theorem udp_loss_is_exact_witness:
  "cnt_error (udp_counts [1, 4, 2, 6] (zero_stream 5 False)) = 2
    \<and> outoforder_packets (udp_counts [1, 4, 2, 6] (zero_stream 5 False)) = late [1, 4, 2, 6]"
proof -
  have ps: "0 < uint p \<and> uint p < 2147483648" if "p \<in> set [1, 4, 2, 6]" for p :: u64
    using that by auto
  show ?thesis
    using udp_loss_is_exact [of "zero_stream 5 False" "[1, 4, 2, 6]", OF _ _ _ ps]
    by (simp add: zero_stream_def highest_def)
qed

text \<open>
  The jitter estimate stays a non-negative double between 0 and the larger of its old value and
  the new deviation, in the rounded arithmetic of the machine.
\<close>

theorem jitter_is_bounded:
  assumes "0 \<le> jitter sp" "is_double (jitter sp)"
  shows "0 \<le> jitter (udp_jitter first arrival sent sp) \<and> is_double (jitter (udp_jitter first arrival sent sp))
    \<and> jitter (udp_jitter first arrival sent sp) \<le> max (jitter sp) (deviation first arrival sent sp)"
  using assms by (rule udp_jitter_between)

theorem jitter_is_bounded_witness:
  "0 \<le> jitter (udp_jitter False (Time 5 0) (Time 3 0) (zero_stream 5 False))"
  using jitter_is_bounded [of "zero_stream 5 False" False "Time 5 0" "Time 3 0"] by (simp add: zero_stream_def)

section \<open>TCP and Multipath TCP\<close>

text \<open>
  \<open>iperf_tcp_connect\<close> returns the one socket it holds, or an error with at most one socket leaked
  (the one whose buffer turned out smaller than asked for).
\<close>

theorem tcp_connect_leaks_at_most_one:
  "wp iperf_tcp_connect (\<lambda>r t'. may_leak (held t) r (held t')) t"
  by (rule fds_wp) (rule tcp_connect_leak)

text \<open>
  C39: TCP streams of a multipath test are Multipath TCP: of the calls that \<open>iperf_tcp_connect\<close> adds to those made before,
  every call of \<open>socket\<close> asks for a stream socket with the protocol \<open>IPPROTO_MPTCP\<close> if the test has the multipath
  option and with protocol 0 if not, and a descriptor that it returns is what one of these calls gave. (The control connection
  and the streams of a UDP test are made by other functions, with protocol 0.)
\<close>

theorem multipath_streams_use_mptcp:
  "\<exists>new. trace (snd (run_state iperf_tcp_connect t)) = new @ trace t \<and> list_all (chosen_socket (multipath t)) new
    \<and> (fst (run_state iperf_tcp_connect t) < 0
      \<or> (\<exists>d. (Socket d SOCK_STREAM (if multipath t then IPPROTO_MPTCP else 0), fst (run_state iperf_tcp_connect t)) \<in> set new))"
  using connect_sockets [of t] unfolding wp_iff_run made_here_def since_then_def by blast

section \<open>SCTP\<close>

text \<open>
  C31: The addresses of the option \<open>-X\<close> survive: however \<open>iperf_sctp_bindx\<close> ends, on a client or a server, no memory
  is given back twice, every list of addresses has been given back, and the names are the ones that
  were there, in their order, so that the next stream can be bound to them again.
\<close>

theorem bindx_keeps_addresses:
  assumes "unresolved xbs"
  shows "\<exists>k ys. fst (run_state (iperf_sctp_bindx mem xbs s is_server) t) = Some (k, ys)
    \<and> unresolved ys \<and> map xb_name ys = map xb_name xbs"
  using bindx_names [OF assms, of mem s is_server]
  by (simp add: yields_def wp_iff_run back_in_place_def same_names_def)

definition two_addresses :: "xbind list" where
  "two_addresses = [\<lparr>xb_name = ''a'', xb_ai = Unresolved\<rparr>, \<lparr>xb_name = ''b'', xb_ai = Unresolved\<rparr>]"

theorem bindx_keeps_addresses_witness:
  "\<exists>k ys. fst (run_state (iperf_sctp_bindx True two_addresses 7 False) (blank_test [])) = Some (k, ys)
    \<and> map xb_name ys = [''a'', ''b'']"
proof -
  have "unresolved two_addresses" by (simp add: unresolved_def two_addresses_def)
  from bindx_keeps_addresses [OF this, of True 7 False "blank_test []"] show ?thesis
    by (auto simp: two_addresses_def)
qed

text \<open>
  Without that option connecting leaks no descriptor: the process holds the socket that \<open>iperf_sctp_connect\<close> returns, or what it
  held before.
\<close>

theorem sctp_connect_no_leak:
  "wp (iperf_sctp_connect mem []) (\<lambda>r t'. \<exists>k. r = Some (k, []) \<and> opened (held t) k (held t')) t"
  using fds_wp [OF sctp_connect_opened [of "held t" mem]] by (simp add: opened_with_def)

text \<open>
  With it a failing \<open>sctp_bindx\<close> closes the socket, and so does its caller: the second \<open>close\<close> may hit another file.
\<close>

theorem failed_bindx_closes_twice:
  assumes "xb_ai xb = Unresolved" "rv (orc t (tick t)) = 0" "rv (orc t (Suc (tick t))) = -1"
  shows "held (snd (run_state (sctp_bind True [xb] s) t)) s = held t s - 2"
  using assms by (rule bindx_closes_twice)

theorem failed_bindx_closes_twice_witness:
  "held (snd (run_state (sctp_bind True [hd two_addresses] 7) (blank_test [ok_resp, ok_resp\<lparr>rv := -1\<rparr>]))) 7 = -2"
proof -
  have "held (blank_test [ok_resp, ok_resp\<lparr>rv := -1\<rparr>]) 7 = 0"
    by (simp add: held_def blank_fields fresh_os_def)
  then show ?thesis
    using failed_bindx_closes_twice [of "hd two_addresses" "blank_test [ok_resp, ok_resp\<lparr>rv := -1\<rparr>]" 7]
    by (simp add: two_addresses_def blank_fields fresh_os_def script_def ok_resp_def)
qed

section \<open>Traffic\<close>

text \<open>
  C21: The total of bytes sent that ends a test by volume moves with the per-stream counters: whatever
  the sockets accept, \<open>iperf_send\<close> leaves the difference of the two unchanged.
\<close>

theorem send_keeps_balance:
  "balance (snd (run_state (iperf_send ub wset) t)) = balance t"
  using preservesD [OF iperf_send_ledger [of "balance t" "length (streams t)" ub wset], of t]
  by (simp add: ledger_def)

text \<open>
  C14: The throttle: with \<open>s\<close> the time since the start of the stream, the stream is stopped if it has
  sent at least the target rate times \<open>s\<close>, and may go on if it is at least one bit per second short. The bits sent and the
  target rate are at most 2^53, so that a \<open>double\<close> holds them, \<open>s\<close> is positive and the mean rate at most 2^62.
\<close>

theorem throttle_follows_rate:
  fixes t now i
  defines "sp \<equiv> streams t ! i"
  defines "bits \<equiv> 8 * unat (bytes_sent (result sp))"
  assumes run: "\<not> test_done t" "rate (settings t) \<noteq> 0" "i < length (streams t)"
    and size: "unat (bytes_sent (result sp) * 8) = bits" "bits \<le> 2 ^ 53" "unat (rate (settings t)) \<le> 2 ^ 53"
    and time: "s = iperf_time_in_secs (snd (iperf_time_diff (start_time_fixed (result sp)) now))" "0 < s"
      "of_nat bits / s \<le> 2 ^ 62"
  shows "(of_nat (unat (rate (settings t))) * s \<le> of_nat bits \<longrightarrow>
      \<not> green_light (streams (iperf_check_throttle ub now i t) ! i))
    \<and> (of_nat bits \<le> (of_nat (unat (rate (settings t))) - 1) * s \<longrightarrow>
      green_light (streams (iperf_check_throttle ub now i t) ! i))"
  using throttle_by_rate [of sp s now "rate (settings t)" ub] run size time
  by (simp add: bits_def iperf_check_throttle_def Let_def put_stream_def sp_def)

text \<open>A sender that has sent 1000 bytes; its target rate is 8000 bits per second.\<close>

definition one_second_sender :: test where
  "one_second_sender = (let t = blank_test [] in t\<lparr>streams := [(zero_stream 5 True)\<lparr>result :=
     zero_result\<lparr>bytes_sent := 1000\<rparr>\<rparr>], settings := (settings t)\<lparr>rate := 8000\<rparr>\<rparr>)"

theorem throttle_follows_rate_witness:
  "\<not> green_light (streams (iperf_check_throttle 0 (Time 1 0) 0 one_second_sender) ! 0)"
proof -
  have s: "iperf_time_in_secs (snd (iperf_time_diff (start_time_fixed (result (streams one_second_sender ! 0))) (Time 1 0))) = 1"
    using f64_nat [of 1]
    by (simp add: one_second_sender_def Let_def zero_result_def no_time_def iperf_time_diff_def
        iperf_time_compare_def iperf_time_in_secs_def)
  show ?thesis
    using throttle_follows_rate [of one_second_sender 0 1 "Time 1 0" 0, OF _ _ _ _ _ _ s [symmetric]]
    by (simp add: one_second_sender_def Let_def blank_test_def iperf_defaults_def iperf_new_test_def
        set_protocol_def check_sender_has_retransmits_def zero_result_def)
qed

text \<open>
  C16: The server's limit on the total rate is checked against a sliding window: fed the traffic of
  interval after interval, it reports an excess exactly if the sum of some \<open>n\<close> consecutive ones was
  above the limit, as long as the window fits the array (and there are fewer than 2^64 intervals).
\<close>

theorem total_rate_is_a_sliding_window:
  assumes "bitrate_limit (settings t0) \<noteq> 0" "\<not> test_done t0"
      "bitrate_limit_stats_per_interval (settings t0) = int n" "0 < n"
      "n \<le> length (bitrate_limit_traffic t0)" "n < 2147483648"
    and "bitrate_limit_last_index t0 = 0" "bitrate_limit_stats_count t0 = 0"
    and "length xs < 18446744073709551616"
  shows "\<exists>t'. feed ub xs t0 = Some t' \<and>
    (bitrate_limit_exceeded t' \<longleftrightarrow> bitrate_limit_exceeded t0
      \<or> (\<exists>k. n \<le> k \<and> k \<le> length xs \<and> over_limit ub t0 (recent n (take k xs))))"
  using total_rate_windows [OF assms] by blast

definition limited :: "int \<Rightarrow> test" where
  "limited n = (let t = blank_test [] in t\<lparr>settings := (settings t)\<lparr>bitrate_limit := 80,
     bitrate_limit_stats_per_interval := n\<rparr>\<rparr>)"

lemma limited_simps [simp]:
  "settings (limited n) = (settings (blank_test []))\<lparr>bitrate_limit := 80, bitrate_limit_stats_per_interval := n\<rparr>"
  "test_done (limited n) = False" "bitrate_limit_last_index (limited n) = 0"
  "bitrate_limit_stats_count (limited n) = 0" "length (bitrate_limit_traffic (limited n)) = 60"
  by (simp_all add: limited_def Let_def blank_test_def iperf_defaults_def iperf_new_test_def
      set_protocol_def check_sender_has_retransmits_def)

theorem total_rate_is_a_sliding_window_witness:
  "\<exists>t'. feed 0 [5, 30, 1] (limited 2) = Some t'"
  using total_rate_is_a_sliding_window [of "limited 2" 2 "[5, 30, 1]" 0] by auto

text \<open>
  With a window of more intervals than the array has cells (the options allow up to 600, the
  array has 60), the check writes behind the array once 60 intervals have passed.
\<close>

theorem total_rate_overruns_array:
  assumes "bitrate_limit (settings t) \<noteq> 0" "\<not> test_done t"
      "int (length (bitrate_limit_traffic t)) < bitrate_limit_stats_per_interval (settings t)"
      "bitrate_limit_stats_per_interval (settings t) < 2147483648"
      "bitrate_limit_last_index t = 0" "bitrate_limit_stats_count t = 0" "bitrate_limit_traffic t \<noteq> []"
      "length (bitrate_limit_traffic t) \<le> length xs"
  shows "feed ub xs t = None"
  using assms by (intro total_rate_overrun) auto

theorem total_rate_overruns_array_witness: "feed 0 (replicate 60 1) (limited 61) = None"
proof (rule total_rate_overruns_array)
  have "length (bitrate_limit_traffic (limited 61)) = 60" by simp
  then show "bitrate_limit_traffic (limited 61) \<noteq> []" by force
qed simp_all

text \<open>
  C22: Sending a file over TCP, by copying (not with \<open>-Z\<close>), while the test is not over and with a positive block size: with nothing
  left over from the last block, a block that goes out whole leaves on the socket exactly the bytes that came from the
  file, and nothing is left over again, unless reading the file fails.
\<close>

theorem diskfile_block_is_faithful:
  assumes "protocol t = Ptcp" "\<not> zerocopy t" "\<not> test_done t" "0 < blksize (settings t)"
    "file_ready (blksize (settings t)) sp"
  shows "wp (diskfile_send sp) (\<lambda>(r, sp') t'. rv (answer t) < 0 \<or>
      (\<exists>bs. got t' (diskfile_fd sp) = got t (diskfile_fd sp) @ bs
        \<and> (r = int (length bs) \<longrightarrow> file_ready (blksize (settings t)) sp'
            \<and> wire t' (stream_socket sp) = wire t (stream_socket sp) @ bs))) t"
  using assms by (rule diskfile_send_whole)

definition file_test :: "resp list \<Rightarrow> test" where
  "file_test rs = (let t = blank_test rs in t\<lparr>settings := (settings t)\<lparr>blksize := 4\<rparr>\<rparr>)"

definition file_stream :: stream where
  "file_stream = (zero_stream 5 True)\<lparr>diskfile_fd := 7, buffer := [0, 0, 0, 0]\<rparr>"

theorem diskfile_block_is_faithful_witness:
  "wp (diskfile_send file_stream) (\<lambda>(r, sp') t'. rv (answer (file_test [])) < 0 \<or>
      (\<exists>bs. got t' 7 = got (file_test []) 7 @ bs \<and> (r = int (length bs) \<longrightarrow> file_ready 4 sp'
            \<and> wire t' 5 = wire (file_test []) 5 @ bs))) (file_test [])"
  using diskfile_block_is_faithful [of "file_test []" file_stream]
  by (simp add: file_test_def file_stream_def Let_def blank_test_def iperf_defaults_def iperf_new_test_def
      set_protocol_def check_sender_has_retransmits_def zero_stream_def file_ready_def)

definition rd :: "bytes \<Rightarrow> resp" where
  "rd bs = ok_resp\<lparr>rv := int (length bs), rbytes := bs\<rparr>"

definition accepts :: "int \<Rightarrow> resp" where
  "accepts n = ok_resp\<lparr>rv := n, re := EAGAIN\<rparr>"

definition two_blocks :: test where
  "two_blocks = snd (run_state (do { a \<leftarrow> diskfile_send file_stream; diskfile_send (snd a) })
     (file_test [rd [1, 2, 3, 4], accepts 2, accepts (-1), rd [5, 6], accepts 2, accepts (-1)]))"

text \<open>
  When the socket accepts only a part of a block, the file does not arrive: the next read goes to
  the front of the buffer, over the bytes that are still to be sent. Here 6 bytes are read from the
  file, and bytes 3 and 4 never reach the socket.
\<close>

theorem diskfile_loses_bytes:
  "got two_blocks 7 = [1, 2, 3, 4, 5, 6] \<and> wire two_blocks 5 = [1, 2, 5, 6]"
  by code_simp

section \<open>Reports\<close>

text \<open>
  C26: A report does not disturb the test: the reporter callback, in the middle of a test or at its end, changes
  nothing but what it writes (to the output file, the standard output and the error output), the trace of its calls, \<open>errno\<close>, the
  JSON document, the texts of the server that it keeps or has shown and the sending and receiving times of streams. In a bidirectional test it switches the flag of the retransmissions
  for each direction, and puts it back.
\<close>

theorem reports_leave_the_test:
  "untouched (snd (run_state iperf_reporter_callback t)) = untouched t
    \<and> sender_has_retransmits (snd (run_state iperf_reporter_callback t)) = sender_has_retransmits t"
  using preservesD [OF reporter_keeps [of t], of t] by (simp add: same_flag_def)

text \<open>
  C30: In JSON mode the reports write no text, so that the document stays the only output: if there is a document, the test
  is not run with debugging (\<open>-d\<close>, whose lines about the intervals go to the standard output also in JSON mode) and is not both
  verbose and bidirectional, the output file is the same after a report.
\<close>

theorem json_reports_write_no_text:
  assumes "json_output t" "json_top t \<noteq> None" "\<not> debug t" "\<not> (verbose t \<and> mode t = BIDIRECTIONAL)"
  shows "outfile (snd (run_state iperf_reporter_callback t)) = outfile t"
  using preservesD [OF quiet.reporter_kept [of t], of t] assms by (simp add: quiet_def)

theorem json_reports_write_no_text_witness: "outfile (snd (run_state iperf_reporter_callback json_client)) = []"
  using json_reports_write_no_text [of json_client] by (simp add: json_client_simps)

text \<open>
  The exception: the final report of a verbose bidirectional client writes text into its JSON output.
\<close>

theorem verbose_json_has_text:
  assumes "test_role t = CHR ''c''" "mode t = BIDIRECTIONAL" "verbose t"
  shows "\<exists>x. outfile (snd (run_state iperf_print_results t)) = outfile t @ x \<and> x \<noteq> []"
  using results_write [OF assms] by (simp add: wp_iff_run)

definition two_way_client :: report where
  "two_way_client = json_client\<lparr>mode := BIDIRECTIONAL, verbose := True, protocol := Ptcp\<rparr>"

lemma two_way_client_simps:
  "test_role two_way_client = CHR ''c''" "mode two_way_client = BIDIRECTIONAL" "verbose two_way_client"
  "json_output two_way_client" "protocol two_way_client = Ptcp" "outfile two_way_client = []"
  "json_top two_way_client = Some (document (JObject []) [] (JObject []))"
  by (simp_all add: two_way_client_def json_client_def reporting_on_def iperf_test.extend_def report.fields_def)

theorem verbose_json_has_text_witness:
  "json_output two_way_client \<and> outfile (snd (run_state iperf_print_results two_way_client)) \<noteq> []"
  using verbose_json_has_text [of two_way_client] two_way_client_simps by auto

text \<open>
  The members of the end of a bidirectional client's document have the same names for both directions: \<open>sum_sent\<close> and
  \<open>sum_received\<close> come twice.
\<close>

theorem two_way_sums_come_twice:
  assumes "json_output t" "test_role t = CHR ''c''" "mode t = BIDIRECTIONAL" "protocol t = Ptcp"
    and "json_top t = Some (document st xs (JObject []))"
  shows "\<exists>st' xs' es. json_top (snd (run_state iperf_print_results t)) = Some (document st' xs' (JObject es))
    \<and> take 5 (map fst es) = [''streams'', ''sum_sent'', ''sum_received'', ''sum_sent'', ''sum_received'']"
proof -
  obtain ns st' xs' es where r: "json_top (snd (run_state iperf_print_results t)) = Some (document st' xs' (JObject es))"
      "map fst es = [''streams'', ''sum_sent'', ''sum_received'', ''sum_sent'', ''sum_received''] @ ns"
    using results_ending [OF assms] by (auto simp: wp_iff_run ending_def)
  have "take 5 (map fst es) = [''streams'', ''sum_sent'', ''sum_received'', ''sum_sent'', ''sum_received'']"
    unfolding r(2) by simp
  with r(1) show ?thesis by blast
qed

theorem two_way_sums_come_twice_witness:
  "\<exists>st' xs' es. json_top (snd (run_state iperf_print_results two_way_client)) = Some (document st' xs' (JObject es))
    \<and> \<not> distinct (map fst es)"
proof -
  obtain st' xs' es where r: "json_top (snd (run_state iperf_print_results two_way_client)) = Some (document st' xs' (JObject es))"
      "take 5 (map fst es) = [''streams'', ''sum_sent'', ''sum_received'', ''sum_sent'', ''sum_received'']"
    using two_way_sums_come_twice [of two_way_client "JObject []" "[]"] two_way_client_simps by auto
  have "\<not> distinct (take 5 (map fst es))" by (simp add: r(2))
  then have "\<not> distinct (map fst es)" using distinct_take by blast
  with r(1) show ?thesis by blast
qed

text \<open>
  C29: A report never reads an interval that is not there: taking the statistics adds exactly one interval to every
  stream, whatever the number, direction and protocol of the streams, so that every stream has a last interval
  (\<open>all_reported\<close>), and the reporter returns instead of following a null pointer.
\<close>

theorem no_interval_is_missing:
  "wp (iperf_stats_callback ub) (\<lambda>r v. map interval_count (streams v) = map (Suc \<circ> interval_count) (streams t)
     \<and> all_reported (streams v)
     \<and> wp iperf_reporter_callback (\<lambda>r w. r = Ret 0) (reporting_on stamps clock out std err v)) t"
proof (rule wp_mono [OF stats_callback_counts], intro conjI)
  fix v :: test
  assume c: "map interval_count (streams v) = map (Suc \<circ> interval_count) (streams t)"
  then show "map interval_count (streams v) = map (Suc \<circ> interval_count) (streams t)" .
  from c show a: "all_reported (streams v)" by (rule counts_reported)
  then show "wp iperf_reporter_callback (\<lambda>r w. r = Ret 0) (reporting_on stamps clock out std err v)"
    by (intro reporter_returns) simp
qed

text \<open>
  C27: What a server has printed is what it sends: if the client asked for the server's output, the server writes
  text (not JSON) to the standard output (no log file) without debugging, and what it has written so far is what it has kept, then also
  after the next report the text in the results that go to the client is exactly what the server has written. (With a
  log file error messages go into it that are not kept, with debugging plain \<open>printf\<close>.)
\<close>

theorem server_sends_what_it_printed:
  assumes "test_role t = CHR ''s''" "get_server_output t" "\<not> json_output t" "logfile t = None" "\<not> debug t"
    and "outfile t = before @ concat (server_output_list t)"
  defines "t' \<equiv> snd (run_state iperf_reporter_callback t)"
  shows "\<exists>s. outfile t' = before @ s
    \<and> output_members (iperf_test.truncate t') = [(''server_output_text'', JString s)]"
proof -
  have "printed_by_server t before t'"
    using preservesD [OF printed.reporter_kept [of t before], of t] assms by (simp add: printed_by_server_def)
  then show ?thesis
    using assms untouched_select [of t' t] untouched_server [of t' t]
    by (simp add: printed_by_server_def output_members_def iperf_test.truncate_def)
qed

theorem server_sends_what_it_printed_witness:
  "\<exists>s. outfile (snd (run_state iperf_reporter_callback printing_server)) = ''pre'' @ s"
  using server_sends_what_it_printed [of printing_server "''pre''"] by (auto simp: printing_server_simps)

text \<open>
  C28: In JSON mode, without debugging, an interval report of a test with one direction whose streams all have an interval
  appends exactly one element to the intervals: an entry for each stream, in their order, with the bytes that the
  stream moved in its last interval, and a sum whose bytes are the sum of theirs (modulo 2^64). The exception is an interval that is not worth a
  report (\<open>interval_ok\<close> fails: no stream ran for a tenth of the interval or moved a byte); then nothing at all changes.
\<close>

theorem interval_entry_is_appended:
  assumes "json_output t" "mode t \<noteq> BIDIRECTIONAL" "all_reported (streams t)" "\<not> debug t"
    and "\<forall>sp \<in> set (streams t). is_sender sp = (mode t = SENDER)" "json_top t = Some (document st xs e)"
  shows "\<exists>entries total. run_state iperf_print_intermediate t = (Ret 0, if interval_ok t
        then t\<lparr>json_top := Some (document st (xs @ [JObject [(''streams'', JArray entries), (''sum'', total)]]) e)\<rparr>
        else t)
    \<and> map bytes_member entries = map (\<lambda>sp. Some (json_int (sint (ir_bytes (the (last_interval sp)))))) (streams t)
    \<and> bytes_member total = Some (json_int (sint (sum_list (map (\<lambda>sp. ir_bytes (the (last_interval sp))) (streams t)))))"
proof -
  let ?total = "the (sum_json t (mode t = SENDER) (hd (streams t)) (the (last_interval (hd (streams t)))) (interval_total t (streams t)))"
  have "run_state iperf_print_intermediate t = (Ret 0, if interval_ok t then t\<lparr>json_top := Some (document st
      (xs @ [JObject [(''streams'', JArray (map (stream_entry t) (streams t))), (''sum'', ?total)]]) e)\<rparr> else t)"
    using intermediate_json [OF assms(1-3) _ assms(5,6,4)] intermediate_skips [OF assms(4)] by (simp add: interval_entry_def)
  then show ?thesis
    by (intro exI [of _ "map (stream_entry t) (streams t)"] exI [of _ ?total]) (simp add: stream_bytes interval_bytes)
qed

theorem interval_entry_is_appended_witness:
  "\<exists>entries total. run_state iperf_print_intermediate json_client = (Ret 0, json_client\<lparr>json_top :=
      Some (document (JObject []) [JObject [(''streams'', JArray entries), (''sum'', total)]] (JObject []))\<rparr>)
    \<and> map bytes_member entries = [Some (json_int 77)] \<and> bytes_member total = Some (json_int 77)"
proof -
  have l: "map (\<lambda>sp. Some (json_int (sint (ir_bytes (the (last_interval sp)))))) (streams json_client) =
      map (\<lambda>b. Some (json_int (sint b))) (map (\<lambda>sp. ir_bytes (the (last_interval sp))) (streams json_client))" by simp
  show ?thesis
    using interval_entry_is_appended [of json_client "JObject []" "[]" "JObject []"]
    unfolding l json_client_simps(7) by (simp add: json_client_simps)
qed

text \<open>
  C32: An amount is never cut: for every number of bytes or bytes per second up to 2^64 and every format character, the text that
  \<open>unit_snprintf\<close> puts into the buffers of \<open>UNIT_LEN\<close> bytes ends with the whole label of its unit, behind a
  number of at most 21 characters.
\<close>

theorem amounts_are_never_cut:
  assumes "0 \<le> x" "x \<le> 2 ^ 64"
  shows "\<exists>num label. unit_snprintf UNIT_LEN x c = num @ '' '' @ label \<and> length num \<le> 21
    \<and> label \<in> set (label_byte @ label_bit)"
  using assms by (rule unit_snprintf_whole)

theorem amounts_are_never_cut_witness:
  "\<exists>num label. unit_snprintf UNIT_LEN (2 ^ 64) CHR ''k'' = num @ '' '' @ label \<and> length num \<le> 21"
  using amounts_are_never_cut [of "2 ^ 64" "CHR ''k''"] by auto

section \<open>The command line\<close>

text \<open>
  C10: Accepted options are consistent: whatever the command line, a test that \<open>iperf_parse_arguments\<close>
  accepts has exactly one role, a protocol, a mode that follows from role and direction whatever the order of
  the options, at most one condition for its end, and numbers in the ranges that the options check: ports, omitted and total
  time, streams, intervals, the two affinities, segment size, type of service, burst, flow label, window, the idle and the receive timeout, the skew of
  the clocks, the unit of the reports; the limit on the rate is checked over at least one interval. A server has no direction of its own.
  The block size is at most 1 MB, for TCP positive, and for UDP in the range of UDP or not positive, which means automatic: \<open>-u -l 3G\<close> is
  accepted as a negative number. An interval that is NaN (\<open>-i nan\<close>) passes the check of the code as well; such a command line has the value
  \<open>Interval_NaN\<close> here, not \<open>Fine\<close>, and is not in the property. The window may be above its limit only as the result of an undefined conversion.
\<close>

theorem accepted_options_are_valid:
  assumes "iperf_parse_arguments E args (iperf_defaults (iperf_new_test w tms junk)) = Fine p"
  shows "valid_options (undefined_int E) (o_test p)"
  using assms by (rule accepted_options(1))

theorem accepted_options_are_valid_witness:
  "\<exists>p. iperf_parse_arguments no_keys watchful_server (blank_test []) = Fine p \<and> valid_options 0 (o_test p)"
proof -
  obtain p where p: "iperf_parse_arguments no_keys watchful_server (blank_test []) = Fine p"
    using window_example [of no_keys] by (auto simp: watchful_server_def)
  moreover have "undefined_int no_keys = 0" by (simp add: undefined_int_def no_keys_def to_int_def)
  ultimately have "valid_options 0 (o_test p)"
    using accepted_options_are_valid [of no_keys watchful_server "fresh_os []" no_timers "replicate 59 0" p]
    by (simp add: blank_test_def)
  with p show ?thesis by blast
qed

text \<open>
  C19: An option that the code marks as one side's is never accepted by the other, wherever it stands: a server is given
  none of \<open>client_side_options\<close> (those that set \<open>client_flag\<close>), a client none of \<open>server_side_options\<close> (those that set
  \<open>server_flag\<close>). The usage text lists \<open>-m\<close>, \<open>-X\<close>, \<open>-4\<close>, \<open>-6\<close> and \<open>--cport\<close> under the client as well, but the code does not mark them: a
  server accepts them (\<open>client_options_of_a_server\<close>).
\<close>

theorem options_fit_the_role:
  assumes "iperf_parse_arguments E args (iperf_defaults (iperf_new_test w tms junk)) = Fine p"
  shows "test_role (o_test p) = CHR ''s'' \<and> (\<forall>x \<in> set args. fst x \<notin> fst ` set (client_side_options E))
    \<or> test_role (o_test p) = CHR ''c'' \<and> (\<forall>x \<in> set args. fst x \<notin> fst ` set (server_side_options E))"
  using accepted_options [OF assms] by (auto simp: valid_options_def checked_options_def)

theorem options_fit_the_role_witness:
  "\<exists>p. iperf_parse_arguments no_keys long_client (blank_test []) = Fine p \<and> test_role (o_test p) \<in> {CHR ''s'', CHR ''c''}"
proof -
  obtain p where p: "iperf_parse_arguments no_keys long_client (blank_test []) = Fine p"
    using long_client_accepted by blast
  have "test_role (o_test p) \<in> {CHR ''s'', CHR ''c''}"
    using options_fit_the_role [of no_keys long_client "fresh_os []" no_timers "replicate 59 0" p] p
    by (auto simp: blank_test_def)
  with p show ?thesis by blast
qed

theorem client_options_of_a_server:
  "\<exists>p. iperf_parse_arguments no_keys [(Letter CHR ''s'', None), (Letter CHR ''m'', None), (Letter CHR ''4'', None),
      (Letter CHR ''X'', Some ''a''), (Code OPT_CLIENT_PORT, Some ''7'')] (blank_test []) = Fine p
    \<and> test_role (o_test p) = CHR ''s'' \<and> multipath (o_test p) \<and> bind_port (o_test p) = 7"
  by (rule options_of_a_server)

text \<open>
  C34: A rejected command line is reported: whatever \<open>iperf_parse_arguments\<close> refuses, the error it sets has a
  message in the table of \<open>iperf_strerror\<close>, and what is printed begins with that message in full. Two of its errors are the
  exceptions, which have no message: the interval of a bitrate limit, and a failed allocation for an address of \<open>-X\<close>.
\<close>

theorem rejected_options_are_reported:
  assumes "iperf_parse_arguments E args t = Wrong t'"
  shows "if i_errno t' \<in> {IETOTALINTERVAL, IESETSCTPBINDX} then map_of messages (i_errno t') = None
    else \<exists>text perr herr. map_of messages (i_errno t') = Some (text, perr, herr)
      \<and> take (length text) (fst (iperf_strerror se ge (i_errno t') w)) = text"
  using assms by (rule rejected_told)

theorem rejected_options_are_reported_witness:
  "\<exists>t'. iperf_parse_arguments no_keys [] (blank_test []) = Wrong t' \<and> i_errno t' = IENOROLE
    \<and> (\<exists>text. take (length text) (fst (iperf_strerror (\<lambda>n. []) (\<lambda>n. []) IENOROLE t')) = text \<and> text \<noteq> [])"
proof -
  obtain t' where t: "iperf_parse_arguments no_keys [] (blank_test []) = Wrong t'" "i_errno t' = IENOROLE"
    using no_role_example by blast
  from rejected_options_are_reported [OF t(1), of "\<lambda>n. []" "\<lambda>n. []" t'] t(2)
  obtain tx perr herr where m: "map_of messages IENOROLE = Some (tx, perr, herr)"
      "take (length tx) (fst (iperf_strerror (\<lambda>n. []) (\<lambda>n. []) IENOROLE t')) = tx" by auto
  have "tx \<noteq> []" using m(1) by (auto simp: messages_def option_messages_def)
  with t m(2) show ?thesis by blast
qed

text \<open>
  The length of a block is cut to 32 bits before it is checked: \<open>-l 4G\<close> is accepted and means the default.
\<close>

theorem length_option_wraps:
  "\<exists>p. iperf_parse_arguments E long_client (blank_test []) = Fine p \<and> blksize (settings (o_test p)) = DEFAULT_TCP_BLKSIZE"
  using long_client_accepted [of E] typed_simps(2) by metis

text \<open>
  The options of a server let the window of its bitrate limit be larger than the array that holds
  it: with \<open>-i 0.5 --server-bitrate-limit 4G/60\<close> the window has 120 intervals, and the check
  writes behind the array of 60 when the 60th interval ends.
\<close>

theorem accepted_window_overruns:
  "\<exists>p. iperf_parse_arguments E watchful_server (blank_test []) = Fine p \<and> feed ub (replicate 60 1) (o_test p) = None"
proof -
  obtain p where p: "iperf_parse_arguments E watchful_server (blank_test []) = Fine p" and
    "bitrate_limit (settings (o_test p)) = 4000000000 \<and> bitrate_limit_stats_per_interval (settings (o_test p)) = 120
    \<and> length (bitrate_limit_traffic (o_test p)) = 60 \<and> \<not> test_done (o_test p)
    \<and> bitrate_limit_last_index (o_test p) = 0 \<and> bitrate_limit_stats_count (o_test p) = 0"
    unfolding watchful_server_def using window_example [of E] by blast
  then have "feed ub (replicate 60 1) (o_test p) = None" by (intro total_rate_overrun) simp_all
  with p show ?thesis by blast
qed
section \<open>The text of a message\<close>

text \<open>
  C9: The printer writes the text of the document and stays inside its buffer: whatever the allocator
  refuses and whatever lies in fresh memory, \<open>print\<close> either fails for want of memory or gives
  exactly that text, formatted or not; with enough memory it does not fail.
\<close>

theorem printer_writes_the_text:
  assumes "every double_number j" "length (json_text fmt 0 j) + 1 < SIZE_MAX"
  shows "print_json al fmt j \<in> {Null, Printed (json_text fmt 0 j)}
    \<and> (plenty al (length (json_text fmt 0 j) + 256) \<longrightarrow> print_json al fmt j = Printed (json_text fmt 0 j))"
  using assms by (rule print_json_text)

theorem printer_writes_the_text_witness:
  "print_json big_heap False small_document = Printed (''{\"on\":true,\"list\":[null,\"a'' @ [CHR 0x5C, CHR 0x22, CHR 0x5C] @ ''t\"]}'')"
proof -
  have "every double_number small_document" by (simp add: small_document_def double_number_def)
  then show ?thesis
    using printer_writes_the_text [of small_document False big_heap]
    by (simp add: small_text SIZE_MAX_def plenty_def big_heap_def)
qed

text \<open>
  C7: A printed document is parsed back: strings, structure and order of the members are the same, and each number
  is the one its text stands for. The strings must be C strings, the numbers finite, the nesting at most
  \<open>CJSON_NESTING_LIMIT\<close>.
\<close>

theorem printed_document_is_parsed:
  assumes "every printable j" "nests_within CJSON_NESTING_LIMIT j" "length (json_text fmt 0 j) + 1 < SIZE_MAX"
    and "print_json al fmt j = Printed t"
  shows "cJSON_Parse t = Parsed (read_json j) [NUL]"
proof -
  have "every double_number j" by (rule every_mono [OF assms(1) printable_double])
  from print_json_text [OF this assms(3), of al] assms(4) have "t = json_text fmt 0 j" by simp
  then show ?thesis using text_is_parsed [OF assms(1,2)] by simp
qed

theorem printed_document_is_parsed_witness:
  "\<exists>t. print_json big_heap True small_document = Printed t \<and> cJSON_Parse t = Parsed small_document [NUL]"
proof -
  have p: "every printable small_document" "every double_number small_document" "nests_within CJSON_NESTING_LIMIT small_document"
    by (simp_all add: small_document_def printable_def double_number_def CJSON_NESTING_LIMIT_def)
  have t: "print_json big_heap True small_document = Printed (json_text True 0 small_document)"
    by (rule big_heap_prints [OF p(2)]) (use small_text(2) in simp)
  have "read_json small_document = small_document" by (simp add: small_document_def)
  with t printed_document_is_parsed [OF p(1,3) _ t] small_text(2) show ?thesis by (simp add: SIZE_MAX_def)
qed

text \<open>
  C18: A number survives the way through its text up to the precision of the printer: the number parsed differs
  from the one printed by at most the factor \<open>DBL_EPSILON\<close>, and integers below \<open>10 ^ 15\<close> do not change.
\<close>

theorem numbers_survive:
  assumes "is_double d" "\<not> isinf d"
  shows "\<exists>d'. cJSON_Parse (json_text fmt 0 (JNumber d)) = Parsed (JNumber d') [NUL]
    \<and> compare_double d' d \<and> (\<forall>n. d = of_int n \<and> \<bar>n\<bar> < 10 ^ 15 \<longrightarrow> d' = d)"
proof -
  have "every printable (JNumber d)" using assms by (simp add: printable_def)
  then have "cJSON_Parse (json_text fmt 0 (JNumber d)) = Parsed (JNumber (readback d)) [NUL]"
    using text_is_parsed [of "JNumber d"] by simp
  with readback_close readback_int show ?thesis by blast
qed

theorem numbers_survive_witness:
  "cJSON_Parse ''999999999999999'' = Parsed (JNumber 999999999999999) [NUL]"
proof -
  have e: "f64 (of_int 999999999999999) = of_int 999999999999999" by (rule f64_int) simp
  have "\<not> isinf 999999999999999"
    using power_increasing [of 50 1024 "2 :: rat"] by (simp add: isinf_def)
  then show ?thesis
    using numbers_survive [of 999999999999999 False] e by (auto simp: is_double_def evaluated)
qed

text \<open>
  C8: The parser reads no byte behind the terminator of its text and writes none behind the memory it has
  reserved for a string, whatever the text is.
\<close>

theorem parser_stays_inside: "cJSON_Parse s \<noteq> Faulty"
  using cJSON_Parse_safe [of "c_str s @ [NUL]"] by (simp add: cJSON_Parse_def cJSON_ParseWithOpts_def terminated_def)

text \<open>
  Without a terminator it does not hold: \<open>cJSON_ParseWithLength\<close>, given a text that breaks off after a
  comma in an object, reads the byte behind it.
\<close>

theorem unterminated_text_is_overread: "cJSON_ParseWithLength ''{\"a\":true,'' = Faulty"
  by code_simp

text \<open>
  C17: What the parser accepts is a well-formed document: every number is a \<open>double\<close>, no string holds a
  terminator, and no value is nested deeper than \<open>CJSON_NESTING_LIMIT\<close>, so that the functions that
  recurse over documents recurse no deeper.
\<close>

theorem parsed_is_well_formed:
  assumes "cJSON_ParseWithLengthOpts require s = Parsed j r"
  shows "every well_typed j \<and> nests_within CJSON_NESTING_LIMIT j"
  using assms by (rule parsed_sound)

theorem parsed_is_well_formed_witness: "every well_typed (JArray [JTrue, JObject []])"
proof -
  have "cJSON_ParseWithLengthOpts True (''[true,{}]'' @ [NUL]) = Parsed (JArray [JTrue, JObject []]) [NUL]" by code_simp
  from parsed_is_well_formed [OF this] show ?thesis by blast
qed

section \<open>The exchanges\<close>

text \<open>
  C3: What the client's parameters say arrives: the text \<open>cJSON_PrintUnformatted\<close> has made of them, read from
  the control connection and parsed, makes the server agree with the client on the protocol, the
  durations, the streams, the buffers, the rates and the flags, and take the complementary
  direction. What is asked for: of the client that its numbers fit their types, its block size and its pacing timer are
  not 0 (\<open>sendable\<close>), its strings are C strings and its 64-bit numbers below \<open>10 ^ 15\<close>, up to
  which the printer writes them exactly (\<open>plain\<close>); of the server that nothing is left in it of the options of an earlier client
  (\<open>idle_server\<close>: as it was started, without bytes, blocks, multipath, congestion algorithm, pacing rate and the like of its own). The latter
  is not so after every test, since \<open>iperf_reset_test\<close> leaves some of them.
\<close>

theorem client_parameters_arrive:
  fixes c s :: test
  assumes "sendable c" "plain tk ver c" "idle_server s"
    and str: "cjson_print al (JObject (params_members tk ver c)) = Some str"
      "length (json_text False 0 (JObject (params_members tk ver c))) < 4294967295"
    and hdr: "Nread (ctrl_sck s) 4 s = (4, be 4 (length str), s1)"
    and body: "Nread (ctrl_sck s) (length str) s1 = (int (length str), str, s2)"
  shows "wp (get_parameters cjson_parse junk)
    (\<lambda>r s'. r = Ret 0 \<and> agrees c s' \<and> mode s' = complement (client_mode c)) s"
proof -
  have "in_range c" using assms(1) by (simp add: sendable_def)
  note p = printed_is_parsed [OF exact_params [OF this assms(2)] str]
  have "length str < 4294967295" using p(1) str(2) by simp
  with p(2,3) show ?thesis
    by (rule parameters_arrive [where pr = "cjson_print al", OF assms(1,3) str(1) _ _ _ hdr body])
qed

theorem client_parameters_arrive_witness:
  "wp (get_parameters cjson_parse []) (\<lambda>r s'. r = Ret 0 \<and> num_streams s' = 3 \<and> multipath s' \<and> mode s' = SENDER)
     (reading_server (map of_char (json_text False 0 sent_parameters)))"
proof -
  let ?t = "json_text False 0 sent_parameters" and ?b = "map of_char (json_text False 0 sent_parameters) :: bytes"
  have c: "sendable sending_client" "plain None '''' sending_client"
    by (simp_all add: sendable_def in_range_def fits_int_def fits_double_def sending_client_def Let_def blank_test_def plain_def plain_string_def
        iperf_defaults_def default_settings_def zero_settings_def iperf_new_test_def set_protocol_def check_sender_has_retransmits_def)
  have d: "every double_number sent_parameters"
    using exact_double [OF exact_params(1) [OF _ c(2)]] c(1) unfolding sent_parameters_def sendable_def by blast
  have l: "length ?t < 4294967295" "?t \<noteq> []" by (simp_all add: sent_text)
  have fd: "ctrl_sck (reading_server ?b) = 5" by (simp add: reading_server_def)
  obtain s1 s2 where r: "Nread 5 4 (reading_server ?b) = (4, be 4 (length ?b), s1)"
      "Nread 5 (length ?b) s1 = (int (length ?b), ?b, s2)"
    using reading_server_reads [of "reading_server ?b" ?b 5] l(2) by auto
  have "wp (get_parameters cjson_parse []) (\<lambda>r s'. r = Ret 0 \<and> agrees sending_client s'
      \<and> mode s' = complement (client_mode sending_client)) (reading_server ?b)"
    by (rule client_parameters_arrive [where al = big_heap, OF c idle_reading_server, folded sent_parameters_def,
          OF printed_by_big_heap [OF d l(1)] l(1) r [folded fd]])
  then show ?thesis
    by (rule wp_mono) (auto simp: agrees_def sending_client_def complement_def client_mode_def evaluated)
qed

text \<open>
  C11: From the command line to the server: if \<open>iperf_parse_arguments\<close> accepts the options of a client, its block size
  is known (not 0, as with UDP and no \<open>-l\<close>), its pacing timer is not 0 and its strings and 64-bit numbers are those of \<open>plain\<close>
  (C strings, numbers below \<open>10 ^ 15\<close>), then a server that reads the client's parameters agrees with it, if nothing is left in
  that server of the options of an earlier client (\<open>idle_server\<close>, as in the property on the parameters).
\<close>

theorem accepted_options_arrive:
  fixes s :: test
  assumes "iperf_parse_arguments E args (iperf_defaults (iperf_new_test w tms stale)) = Fine p"
    and "blksize (settings (o_test p)) \<noteq> 0" "pacing_timer (settings (o_test p)) \<noteq> 0" "plain tk ver (o_test p)" "idle_server s"
    and str: "cjson_print al (JObject (params_members tk ver (o_test p))) = Some str"
      "length (json_text False 0 (JObject (params_members tk ver (o_test p)))) < 4294967295"
    and hdr: "Nread (ctrl_sck s) 4 s = (4, be 4 (length str), s1)"
    and body: "Nread (ctrl_sck s) (length str) s1 = (int (length str), str, s2)"
  shows "wp (get_parameters cjson_parse junk)
    (\<lambda>r s'. r = Ret 0 \<and> agrees (o_test p) s' \<and> mode s' = complement (client_mode (o_test p))) s"
proof -
  have small: "fits_double x" if "unat x < 10 ^ 15" for x
    using that by (simp add: fits_double_def)
  have c: "sendable (o_test p)"
    using assms(4) small by (intro valid_sendable [OF accepted_options(1) [OF assms(1)] _ _ _ _ assms(2,3)]) (simp_all add: plain_def)
  then have "in_range (o_test p)" by (simp add: sendable_def)
  note t = printed_is_parsed [OF exact_params [OF this assms(4)] str]
  have "length str < 4294967295" using t(1) str(2) by simp
  with t(2,3) show ?thesis
    by (rule parameters_arrive [where pr = "cjson_print al", OF c assms(5) str(1) _ _ _ hdr body])
qed

theorem accepted_options_arrive_witness:
  "\<exists>p. iperf_parse_arguments no_keys long_client (blank_test []) = Fine p
    \<and> wp (get_parameters cjson_parse []) (\<lambda>r s'. r = Ret 0 \<and> blksize (settings s') = DEFAULT_TCP_BLKSIZE)
      (reading_server (map of_char (json_text False 0 (JObject (params_members None '''' (o_test p))))))"
proof -
  obtain p n where p: "iperf_parse_arguments no_keys long_client (blank_test []) = Fine p" "o_test p = typed_client n"
    using long_client_accepted by blast
  let ?j = "JObject (params_members None '''' (o_test p))"
  let ?t = "json_text False 0 ?j" and ?b = "map of_char (json_text False 0 (JObject (params_members None '''' (o_test p)))) :: bytes"
  have a: "iperf_parse_arguments no_keys long_client (iperf_defaults (iperf_new_test (fresh_os []) no_timers (replicate 59 0))) = Fine p"
    using p(1) by (simp add: blank_test_def)
  have l: "length ?t < 4294967295" "?t \<noteq> []" by (simp_all only: p(2) typed_text) simp_all
  have fd: "ctrl_sck (reading_server ?b) = 5" by (simp add: reading_server_def)
  obtain s1 s2 where r: "Nread 5 4 (reading_server ?b) = (4, be 4 (length ?b), s1)"
      "Nread 5 (length ?b) s1 = (int (length ?b), ?b, s2)"
    using reading_server_reads [of "reading_server ?b" ?b 5] l(2) by auto
  have b: "blksize (settings (o_test p)) \<noteq> 0" "pacing_timer (settings (o_test p)) \<noteq> 0" "plain None '''' (o_test p)"
    by (simp_all add: p(2) typed_simps)
  have "wp (get_parameters cjson_parse []) (\<lambda>r s'. r = Ret 0 \<and> agrees (o_test p) s'
      \<and> mode s' = complement (client_mode (o_test p))) (reading_server ?b)"
    by (rule accepted_options_arrive [where al = big_heap, OF a b idle_reading_server
          printed_by_big_heap [OF typed_double [of n, folded p(2)] l(1)] l(1) r [folded fd]])
  then have "wp (get_parameters cjson_parse []) (\<lambda>r s'. r = Ret 0 \<and> blksize (settings s') = DEFAULT_TCP_BLKSIZE) (reading_server ?b)"
    by (rule wp_mono) (simp add: agrees_def Let_def p(2) typed_simps)
  with p(1) show ?thesis by blast
qed

text \<open>
  C4: What one side's results say arrives: after the text \<open>cJSON_PrintUnformatted\<close> has made of them has been
  read from the control connection and parsed, each stream of the receiving side carries what the
  other side counted for the stream with the same id (bytes, retransmits, jitter, lost and received
  packets, its own duration), together with the processor load, the congestion control and the
  retransmit flag. The numbers must be such that the printer writes them exactly.
\<close>

theorem results_reach_the_peer:
  fixes c s :: test
  assumes "results_fit s" "same_streams s c"
    and exact: "every exact (JObject (results_members s))" "nests_within CJSON_NESTING_LIMIT (JObject (results_members s))"
    and str: "cjson_print al (JObject (results_members s)) = Some str"
      "length (json_text False 0 (JObject (results_members s))) < 4294967295"
    and hdr: "Nread (ctrl_sck c) 4 c = (4, be 4 (length str), c1)"
    and body: "Nread (ctrl_sck c) (length str) c1 = (int (length str), str, c2)"
  shows "wp (get_results cjson_parse junk) (\<lambda>r c'. r = Ret 0 \<and> results_merged s c c') c"
proof -
  note p = printed_is_parsed [OF exact str]
  have "length str < 4294967295" using p(1) str(2) by simp
  with p(2,3) show ?thesis
    by (rule results_arrive [where pr = "cjson_print al", OF assms(1,2) str(1) _ _ _ hdr body])
qed

definition awaiting_client :: "bytes \<Rightarrow> test" where
  "awaiting_client str = (reading_server str)\<lparr>streams := [(zero_stream 9 True)\<lparr>stream_id := 1\<rparr>]\<rparr>"

theorem results_reach_the_peer_witness:
  "wp (get_results cjson_parse []) (\<lambda>r c'. r = Ret 0 \<and> map (\<lambda>sp. bytes_received (result sp)) (streams c') = [77])
     (awaiting_client (map of_char (json_text False 0 counted_results)))"
proof -
  let ?t = "json_text False 0 counted_results" and ?b = "map of_char (json_text False 0 counted_results) :: bytes"
  have fit: "results_fit counting_server" "same_streams counting_server (awaiting_client ?b)"
    by (simp_all add: results_fit_def stream_fits_def fits_int_def fits_double_def same_streams_def peer_retransmits_def
        counting_server_def awaiting_client_def transferred_def sent_retransmits_def zero_stream_def zero_result_def
        blank_test_def iperf_defaults_def iperf_new_test_def set_protocol_def check_sender_has_retransmits_def Let_def)
  have d: "every double_number counted_results" by (rule exact_double [OF counted_exact(1)])
  have l: "length ?t < 4294967295" "?t \<noteq> []" by (simp_all add: counted_text)
  have fd: "ctrl_sck (awaiting_client ?b) = 5" by (simp add: awaiting_client_def reading_server_def)
  obtain s1 s2 where r: "Nread 5 4 (awaiting_client ?b) = (4, be 4 (length ?b), s1)"
      "Nread 5 (length ?b) s1 = (int (length ?b), ?b, s2)"
    using reading_server_reads [of "awaiting_client ?b" ?b 5] l(2) by (auto simp: awaiting_client_def)
  have "wp (get_results cjson_parse []) (\<lambda>r c'. r = Ret 0 \<and> results_merged counting_server (awaiting_client ?b) c') (awaiting_client ?b)"
    by (rule results_reach_the_peer [where al = big_heap, OF fit, folded counted_results_def,
          OF counted_exact printed_by_big_heap [OF d l(1)] l(1) r [folded fd]])
  then show ?thesis
    by (rule wp_mono) (auto simp: results_merged_def counting_server_def awaiting_client_def merge_peer_def transferred_def
        zero_stream_def Let_def)
qed

text \<open>
  C35: Results are accepted if and only if they are complete: all members are there, and every stream
  entry has all of its members and an id that is one of the test's streams. The exception is a text that is no string (\<open>null_text\<close>: the
  member \<open>congestion_used\<close>, or the server's output of a client that asked for it and finds it as text): \<open>strdup\<close> gets a null pointer, and
  the process dies (\<open>None\<close>), complete or not.
\<close>

theorem results_are_checked:
  "map_option fst (unpack_results j c) =
    (if null_text c j then None else Some (if valid_results (stream_id ` set (streams c)) j then 0 else -1))"
  by (rule unpack_results_ends)

definition strange_results :: json where
  "strange_results = JObject [(''cpu_util_total'', JNumber 0), (''cpu_util_user'', JNumber 0), (''cpu_util_system'', JNumber 0),
     (''sender_has_retransmits'', JNumber 0), (''streams'', JArray [JObject [(''id'', JNumber 7), (''bytes'', JNumber 1),
       (''retransmits'', JNumber 0), (''jitter'', JNumber 0), (''errors'', JNumber 0), (''packets'', JNumber 0)]])]"

theorem results_are_checked_witness:
  "\<not> valid_results (stream_id ` set (streams (awaiting_client []))) strange_results"
proof -
  have "map_option fst (unpack_results strange_results (awaiting_client [])) = Some (-1)" by code_simp
  then show ?thesis using results_are_checked [of strange_results "awaiting_client []"] by (simp split: if_splits)
qed

section \<open>Authentication\<close>

text \<open>
  C6: The right password, and only the right password, gets in: with a token made at one moment by
  the client and checked at another by the server (OpenSSL's base64 and RSA inverting each other),
  the client is let in exactly if the two clocks differ by no more than the allowed skew and the
  file of users holds the user with the digest of the salted password. User and password must be words (not empty, without
  white space; \<open>sscanf\<close> reads each up to the next white space, so that the code would compare only the beginning of another password), the time
  a number of 64 bits, and the file of users well formed (\<open>users_ok\<close>: lines of two fields that fit the buffer of the server).
\<close>

theorem right_password_gets_in:
  assumes "word u" "word p" "- 9223372036854775808 \<le> rv (answer c)" "rv (answer c) \<le> 9223372036854775807"
    and crypto: "base64_ok cr" "rsa_ok cr pub priv"
    and token: "fst (run_state (encode_auth_setting cr u p pub) c) = Some tok" "authtoken (settings s) = Some tok"
    and server: "server_rsa_private_key s = Some priv" "server_authorized_users s = Some file"
      "read_file cr file = Some (users_file es)" "users_ok es"
  shows "fst (run_state (test_is_authorized cr) s) =
    (if in_window (server_skew_threshold s) (rv (answer s)) (rv (answer c)) \<and> (u, sha256 cr (salted u p)) \<in> set es
     then Ret 0 else Ret (-1))"
proof (rule authorized_exactly [OF server(1,2) token(2) _ server(3,4)])
  show "decode_auth_setting cr tok priv = Credentials u p (rv (answer c))"
    using token_read_back [OF assms(1-4) crypto] token(1) by (simp add: wp_iff_run)
qed

definition applicant :: test where "applicant = blank_test [ok_resp\<lparr>rv := 1000\<rparr>]"

definition gatekeeper :: "string \<Rightarrow> test" where
  "gatekeeper tok = (let t = blank_test [ok_resp\<lparr>rv := 1007\<rparr>] in t\<lparr>server_rsa_private_key := Some ''k'',
     server_authorized_users := Some ''f'', server_skew_threshold := 10, settings := (settings t)\<lparr>authtoken := Some tok\<rparr>\<rparr>)"

theorem right_password_gets_in_witness:
  "\<exists>tok. fst (run_state (test_is_authorized (sound_crypto (users_file [(''eve'', ''ab'')]))) (gatekeeper tok)) = Ret 0"
proof -
  let ?cr = "sound_crypto (users_file [(''eve'', ''ab'')])"
  have "fst (run_state (encode_auth_setting ?cr ''eve'' ''pw'' ''k'') applicant) \<noteq> None" by code_simp
  then obtain tok where tok: "fst (run_state (encode_auth_setting ?cr ''eve'' ''pw'' ''k'') applicant) = Some tok" by auto
  have t: "rv (answer applicant) = 1000" "rv (answer (gatekeeper tok)) = 1007" "server_skew_threshold (gatekeeper tok) = 10"
    "server_rsa_private_key (gatekeeper tok) = Some ''k''" "server_authorized_users (gatekeeper tok) = Some ''f''"
    "authtoken (settings (gatekeeper tok)) = Some tok"
    by (simp_all add: applicant_def gatekeeper_def answer_def blank_test_def iperf_defaults_def iperf_new_test_def fresh_os_def
        script_def set_protocol_def check_sender_has_retransmits_def Let_def)
  have w: "word ''eve''" "word ''pw''" "users_ok [(''eve'', ''ab'')]" "sha256 ?cr (salted ''eve'' ''pw'') = ''ab''"
    by code_simp+
  have f: "read_file ?cr ''f'' = Some (users_file [(''eve'', ''ab'')])" by (simp add: sound_crypto_def)
  have "fst (run_state (test_is_authorized ?cr) (gatekeeper tok)) =
    (if in_window 10 1007 1000 \<and> (''eve'', ''ab'') \<in> set [(''eve'', ''ab'')] then Ret 0 else Ret (-1))"
    using right_password_gets_in [OF w(1,2) _ _ sound_crypto_ok tok t(6,4,5) f w(3)] t(1-3) w(4) by simp
  then show ?thesis by (auto simp: in_window_def)
qed

section \<open>Streams\<close>

text \<open>
  C33: The streams of a test are numbered alike on both sides: \<open>iperf_new_stream\<close> gives the next number
  (1, 3, 4, 5 and so on) to the stream it adds, changes no other, and adds none when it fails; so
  the numbers are distinct, and two sides with equally many streams use the same numbers.
\<close>

theorem stream_numbers_agree:
  assumes "numbered t" "numbered s" "length (streams s) = length (streams t)"
  shows "wp (iperf_new_stream fd sender) (\<lambda>r t'. numbered t'
      \<and> length (streams t') = length (streams t) + (if r = None then 0 else 1)) t
    \<and> map stream_id (streams s) = map stream_id (streams t) \<and> distinct (map stream_id (streams t))"
  using new_stream_numbered [OF assms(1)] numbered_distinct [OF assms(1)] assms by (simp add: numbered_def)

theorem stream_numbers_agree_witness:
  "wp (iperf_new_stream 5 True) (\<lambda>r t'. numbered t' \<and> length (streams t') = (if r = None then 0 else 1)) (blank_test [])"
proof -
  have s: "streams (blank_test rs) = []" for rs
    by (simp add: blank_test_def iperf_defaults_def iperf_new_test_def set_protocol_def check_sender_has_retransmits_def Let_def)
  then have "numbered (blank_test rs)" for rs by (simp add: numbered_def)
  from stream_numbers_agree [OF this [of "[]"] this [of "[ok_resp]"]] s show ?thesis by simp
qed

text \<open>
  A client with a local port (\<open>--cport\<close>) gives its streams consecutive ports and remembers the
  last one. A bidirectional test creates its streams in two rounds: the second starts at the port
  that the last stream of the first round is bound to.
\<close>

theorem second_round_reuses_port:
  assumes "bind_port t \<noteq> 0" "0 < num_streams t"
  shows "wp (iperf_create_streams sender) (\<lambda>r t'. r = 0 \<longrightarrow> bind_port t' = bind_port t + num_streams t - 1) t"
  using assms by (rule ports_used)

definition two_ports :: test where
  "two_ports = (let t = blank_test [] in t\<lparr>orc := (\<lambda>n. ok_resp\<lparr>rval := AF_INET, rv := (if n \<in> {0, 16} then 0 else 100)\<rparr>), bind_port := 5000, num_streams := 2,
     settings := (settings t)\<lparr>blksize := 4\<rparr>\<rparr>)"

theorem second_round_reuses_port_witness:
  "bind_port (snd (run_state (iperf_create_streams True) two_ports)) = 5001"
proof -
  have t: "bind_port two_ports = 5000" "num_streams two_ports = 2"
    by (simp_all add: two_ports_def Let_def)
  have "fst (run_state (iperf_create_streams True) two_ports) = 0" by code_simp
  then show ?thesis using second_round_reuses_port [of two_ports True] t by (simp add: wp_iff_run)
qed

text \<open>
  Once a client has asked for Multipath TCP, every later client of the same server gets it too:
  neither the reset between two tests nor the parameters of the next client, whatever they say,
  switch the option off.
\<close>

theorem multipath_outlives_its_test:
  assumes "multipath t"
  shows "wp (do { iperf_reset_test; get_parameters ps junk }) (\<lambda>r t'. multipath t') t"
  using assms by (rule multipath_sticks)

theorem multipath_outlives_its_test_witness:
  "wp (do { iperf_reset_test; get_parameters (\<lambda>s. Some (JObject [])) [] }) (\<lambda>r t'. multipath t') ((blank_test [])\<lparr>multipath := True\<rparr>)"
  by (rule multipath_outlives_its_test) simp

text \<open>
  A line of the file of users that is only a comma, or a user name with nothing behind the comma,
  crashes the server: \<open>strcmp\<close> is called with the null pointer of a missing token.
\<close>

theorem incomplete_user_line_crashes:
  assumes "field u"
  shows "check_lines u h ((u @ '','' @ [newline]) # ls) = Crash \<and> check_lines u h (('','' @ [newline]) # ls) = Crash"
  using incomplete_line_crashes [OF assms] by blast

theorem incomplete_user_line_crashes_witness:
  "check_lines ''eve'' ''ab'' [''eve,'' @ [newline]] = Crash"
proof -
  have "field ''eve''" by (simp add: field_def newline_def)
  from incomplete_user_line_crashes [OF this, of "''ab''" "[]"] show ?thesis by simp
qed

section \<open>The control connection\<close>

text \<open>
  C23: A busy server is not disturbed by a second client: it sends it at most the one byte
  \<open>ACCESS_DENIED\<close>, writes to no other descriptor, closes the new connection, and its own data are
  untouched, whatever the network does.
\<close>

theorem busy_server_undisturbed:
  assumes "ctrl_sck t \<noteq> -1" "0 \<le> rv (answer t)"
  shows "wp (iperf_accept e) (\<lambda>r t'. r = Ret 0 \<and> os.more t' = os.more t
     \<and> (\<exists>k. wire t' (rv (answer t)) = wire t (rv (answer t)) @ take k [word_of_int ACCESS_DENIED])
     \<and> (\<forall>f. f \<noteq> rv (answer t) \<longrightarrow> wire t' f = wire t f) \<and> held t' = held t) t"
  using busy_accept [OF assms] by simp

theorem busy_server_undisturbed_witness:
  "wp (iperf_accept (demo_env JNull)) (\<lambda>r t'. r = Ret 0 \<and> held t' = held ((blank_test [])\<lparr>ctrl_sck := 4\<rparr>))
     ((blank_test [])\<lparr>ctrl_sck := 4\<rparr>)"
  by (rule wp_mono [OF busy_server_undisturbed])
    (simp_all add: answer_def blank_test_def iperf_defaults_def iperf_new_test_def fresh_os_def script_def ok_resp_def
      set_protocol_def check_sender_has_retransmits_def Let_def)

text \<open>
  C24: Why a server refuses reaches the client: if listening for the streams failed, the client that
  reads the bytes the server wrote ends up with the server's error code and with its \<open>errno\<close>.
\<close>

theorem refusal_reaches_client:
  fixes s c :: test
  defines "sent \<equiv> drop (length (wire s (ctrl_sck s))) (wire (snd (run_state report_listen_error s)) (ctrl_sck s))"
  assumes server: "takes_all s" "0 \<le> ctrl_sck s" "fits_int (i_errno s)" "fits_int (errno s)"
    and state: "sys_read (ctrl_sck c) 1 c = (1, take 1 sent, c0)"
    and first: "Nread (ctrl_sck c) 4 (c0\<lparr>test_state := SERVER_ERROR\<rparr>) = (4, take 4 (drop 1 sent), c1)"
    and second: "Nread (ctrl_sck c) 4 (c1\<lparr>i_errno := i_errno s\<rparr>) = (4, take 4 (drop 5 sent), c2)"
  shows "wp (iperf_handle_message_client e) (\<lambda>r c'. r = Ret (-1) \<and> i_errno c' = i_errno s \<and> errno c' = errno s) c"
proof -
  have told: "sent = [word_of_int SERVER_ERROR] @ be 4 (unat (word_of_int (i_errno s) :: u32))
      @ be 4 (unat (word_of_int (errno s) :: u32))"
    using listen_error_told [OF server(1,2)] by (simp add: sent_def wp_iff_run)
  have e: "i_errno c2 = i_errno s" using Nread_keeps_i_errno [of "ctrl_sck c" 4 "c1\<lparr>i_errno := i_errno s\<rparr>"] second by simp
  have "wp (iperf_handle_message_client e) (\<lambda>r c'. r = Ret (-1) \<and> test_state c' = SERVER_ERROR \<and> i_errno c' = i_errno c2
      \<and> errno c' = to_int (int (be_value (take 4 (put_header (be 4 (unat (word_of_int (errno s) :: u32)))
          (put_header (be 4 (unat (word_of_int (i_errno s) :: u32))) (e_junk e))))))) c"
    by (rule client_hears [OF refl, of c c0 "i_errno s" c1 4 _ c2])
      (use state first second told server(3) in \<open>simp_all add: fits_int_def\<close>)
  then show ?thesis
    by (rule wp_mono) (use server(4) in \<open>simp add: e int32_read fits_int_def\<close>)
qed

definition telling_server :: test where
  "telling_server = (let t = blank_test [] in t\<lparr>orc := (\<lambda>n. ok_resp\<lparr>rv := 8\<rparr>), ctrl_sck := 5, i_errno := 11, errno := 98\<rparr>)"

definition hearing_client :: test where
  "hearing_client = (blank_test [ok_resp\<lparr>rbytes := [-2]\<rparr>, ok_resp\<lparr>rbytes := [0, 0, 0, 11]\<rparr>, ok_resp\<lparr>rbytes := [0, 0, 0, 98]\<rparr>])
     \<lparr>ctrl_sck := 6\<rparr>"

theorem refusal_reaches_client_witness:
  "wp (iperf_handle_message_client (demo_env JNull)) (\<lambda>r c'. r = Ret (-1) \<and> i_errno c' = 11 \<and> errno c' = 98) hearing_client"
proof -
  let ?s = telling_server
  have s: "takes_all ?s" "ctrl_sck ?s = 5" "i_errno ?s = 11" "errno ?s = 98" "wire ?s 5 = []"
    by (simp_all add: telling_server_def Let_def takes_all_def wire_def blank_test_def iperf_defaults_def iperf_new_test_def
        fresh_os_def set_protocol_def check_sender_has_retransmits_def ok_resp_def)
  have w: "wire (snd (run_state report_listen_error ?s)) 5 = [-2, 0, 0, 0, 11, 0, 0, 0, 98]" by code_simp
  define c0 where "c0 = snd (snd (sys_read 6 1 hearing_client))"
  define c1 where "c1 = snd (snd (Nread 6 4 (c0\<lparr>test_state := SERVER_ERROR\<rparr>)))"
  define c2 where "c2 = snd (snd (Nread 6 4 (c1\<lparr>i_errno := 11\<rparr>)))"
  have "fst (sys_read 6 1 hearing_client) = 1 \<and> fst (snd (sys_read 6 1 hearing_client)) = [-2]" by code_simp
  then have 0: "sys_read 6 1 hearing_client = (1, [-2], c0)" by (metis c0_def prod.collapse)
  have "(let r = Nread 6 4 (snd (snd (sys_read 6 1 hearing_client))\<lparr>test_state := SERVER_ERROR\<rparr>) in
      fst r = 4 \<and> fst (snd r) = [0, 0, 0, 11])" by code_simp
  then have 1: "Nread 6 4 (c0\<lparr>test_state := SERVER_ERROR\<rparr>) = (4, [0, 0, 0, 11], c1)"
    unfolding c1_def c0_def Let_def by (metis prod.collapse)
  have "(let r = Nread 6 4 (snd (snd (Nread 6 4 (snd (snd (sys_read 6 1 hearing_client))\<lparr>test_state := SERVER_ERROR\<rparr>)))
      \<lparr>i_errno := 11\<rparr>) in fst r = 4 \<and> fst (snd r) = [0, 0, 0, 98])" by code_simp
  then have 2: "Nread 6 4 (c1\<lparr>i_errno := 11\<rparr>) = (4, [0, 0, 0, 98], c2)"
    unfolding c2_def c1_def c0_def Let_def by (metis prod.collapse)
  have fd: "ctrl_sck hearing_client = 6" by (simp add: hearing_client_def)
  show ?thesis
    using refusal_reaches_client [of ?s hearing_client c0 c1 c2 "demo_env JNull"] s w 0 1 2 fd by (simp add: fits_int_def)
qed

section \<open>A server over many clients\<close>

text \<open>
  C1: The server runs a test only with all its streams: in every state that its main loop reaches with
  the test running, it has accepted exactly as many receiving and sending streams as the
  direction and the stream number of the client ask for.
\<close>

theorem runs_with_all_streams:
  assumes "run_state server_setup t = (Go start, t0)" "reaches e limit (first_run stale start) t0 r t1"
    "test_state t1 = TEST_RUNNING"
  shows "rec_accepted r = (if mode t1 = SENDER then 0 else num_streams t1)
    \<and> send_accepted r = (if mode t1 = RECEIVER then 0 else num_streams t1)"
  using assms by (rule running_counts)

theorem runs_with_all_streams_witness:
  "\<exists>r t1. reaches (demo_env no_streams) 1000 (first_run 0 no_time) (demo_start demo_server) r t1
    \<and> test_state t1 = TEST_RUNNING \<and> rec_accepted r = (if mode t1 = SENDER then 0 else num_streams t1)"
proof -
  obtain r t1 where 1: "reaches (demo_env no_streams) 1000 (first_run 0 no_time) (demo_start demo_server) r t1"
    "test_state t1 = TEST_RUNNING" by (rule lands_reaches [OF demo_runs demo_set_up(1)])
  from runs_with_all_streams [OF demo_set_up(1) this] 1 show ?thesis by blast
qed

text \<open>
  C2: With a key and a file of users, nobody gets past the parameters without a token of his own. Take a server that was started
  without a token, any of the tests it begins, and any state of that test's main loop in which streams are accepted or
  the test is running. Then \<open>vouched\<close> holds of the calls made since this test began: in the bytes read from its control
  connection there was a document with a token; the token decrypts to a user and a password whose salted hash stands in
  the file of users, and to a time within the allowed skew of what the clock read in one of those calls. What an earlier
  client sent does not count.
\<close>

theorem no_test_without_valid_token:
  assumes "test_role t0 \<noteq> CHR ''c''" "authtoken (settings t0) = None" "begun e stale t0 t"
    and "run_state server_setup t = (Go start, t1)" "reaches e limit (first_run stale start) t1 r t2"
    and "test_state t2 \<in> {CREATE_STREAMS, TEST_RUNNING}"
  shows "vouched e (trace t) t2"
  using assms by (rule no_test_without_token)

theorem no_test_without_valid_token_witness:
  "\<exists>r t1. reaches (demo_env with_token) 1000 (first_run 0 no_time) (demo_start demo_guarded) r t1
    \<and> test_state t1 = CREATE_STREAMS \<and> vouched (demo_env with_token) (trace demo_guarded) t1"
proof -
  obtain r t1 where 1: "reaches (demo_env with_token) 1000 (first_run 0 no_time) (demo_start demo_guarded) r t1"
    "test_state t1 = CREATE_STREAMS" by (rule lands_reaches [OF demo_admits demo_set_up(2)])
  have "test_role demo_guarded \<noteq> CHR ''c''" "authtoken (settings demo_guarded) = None"
    by (simp_all add: demo_guarded_def demo_server_def blank_fields)
  from no_test_without_valid_token [OF this begun.first demo_set_up(2) 1(1)] 1 show ?thesis by auto
qed



text \<open>
  C25: However a test ends, cleaning up and resetting leave no timer behind, if the timers in the list
  are the four of the test and those of its streams: what the next client meets is an empty list.
\<close>

theorem reset_leaves_no_timer:
  assumes "timers_ok (tm t) xs fs" "distinct (pointers (test_timers t @ map send_timer (streams t)))"
    "set xs = set (pointers (test_timers t @ map send_timer (streams t)))"
  shows "wp (do { cleanup_server; iperf_reset_test }) (\<lambda>u t'. \<exists>fs'. timers_ok (tm t') [] fs') t"
  using assms by (rule cleanup_and_reset)

theorem reset_leaves_no_timer_witness:
  "wp (do { cleanup_server; iperf_reset_test }) (\<lambda>u t'. \<exists>fs'. timers_ok (tm t') [] fs')
     ((blank_test [])\<lparr>tm := one_timer, test_timer := Some 5\<rparr>)"
  by (rule reset_leaves_no_timer [of _ "[5]" "[]"])
    (use one_timer_ok in \<open>simp_all add: test_timers_def blank_test_def iperf_defaults_def iperf_new_test_def
      set_protocol_def check_sender_has_retransmits_def Let_def\<close>)

end
